(* ===== verification/Lightsd_Prelude.thy ===== *)
theory Lightsd_Prelude
  imports Main "HOL-Library.Word" "HOL-Library.Monad_Syntax"
begin

unbundle bit_operations_syntax

text \<open>
  Shared vocabulary of the development: the fixed-width integer types of the C sources, C
  assertions as option-valued computations, the loop over a C list, association lists (the
  heap objects of one kind in the order of the queue.h list that holds them) and the lemmas
  about counting list elements that the reference-count and statistics invariants need.

  Every operation of the model that the source guards with \<open>assert\<close> returns an
  \<open>option\<close>: \<open>None\<close> means that an assertion of the source is false (the
  daemon aborts), or that the source would dereference an object that does not exist.
\<close>

named_theorems world_simps \<open>frame facts of the state-passing operations\<close>

type_synonym u8 = "8 word"
type_synonym u16 = "16 word"
type_synonym u32 = "32 word"
type_synonym u64 = "64 word"
type_synonym lgtd_time_mono_t = u64
type_synonym bytes = "u8 list"

abbreviation UINT16_MAX :: int where
  "UINT16_MAX \<equiv> 65535"

subsection \<open>Assertions\<close>

definition c_assert :: "bool \<Rightarrow> unit option" where
  "c_assert b = (if b then Some () else None)"

lemma c_assert_True [simp]: "c_assert True = Some ()"
  by (simp add: c_assert_def)

lemma c_assert_False [simp]: "c_assert False = None"
  by (simp add: c_assert_def)

lemma c_assert_eq_Some [simp]: "c_assert b = Some u \<longleftrightarrow> b"
  by (simp add: c_assert_def)

lemma bind_c_assert_eq_Some [simp]:
  "Option.bind (c_assert b) f = Some r \<longleftrightarrow> b \<and> f () = Some r"
  by (simp add: c_assert_def)

subsection \<open>Loops over lists that may fault\<close>

fun foreach :: "('a \<Rightarrow> 's \<Rightarrow> 's option) \<Rightarrow> 'a list \<Rightarrow> 's \<Rightarrow> 's option" where
  "foreach f [] s = Some s"
| "foreach f (x # xs) s = Option.bind (f x s) (foreach f xs)"

lemma foreach_append:
  "foreach f (xs @ ys) s = Option.bind (foreach f xs s) (foreach f ys)"
  by (induction xs arbitrary: s) (auto split: Option.bind_splits)

text \<open>An invariant of the body is an invariant of the loop.\<close>

lemma foreach_invariant:
  assumes "foreach f xs s = Some s'" and "P s"
    and "\<And>x s s'. x \<in> set xs \<Longrightarrow> P s \<Longrightarrow> f x s = Some s' \<Longrightarrow> P s'"
  shows "P s'"
  using assms
proof (induction xs arbitrary: s)
  case (Cons x xs)
  then obtain t where t: "f x s = Some t" "foreach f xs t = Some s'"
    by (auto simp: bind_eq_Some_conv)
  with Cons.prems have "P t" by auto
  with t(2) Cons.prems(3) show ?case by (intro Cons.IH [of t]) auto
qed simp

text \<open>A loop whose body cannot fault under an invariant does not fault.\<close>

lemma foreach_total:
  assumes "P s" and "\<And>x s. x \<in> set xs \<Longrightarrow> P s \<Longrightarrow> \<exists>s'. f x s = Some s' \<and> P s'"
  shows "\<exists>s'. foreach f xs s = Some s' \<and> P s'"
  using assms
proof (induction xs arbitrary: s)
  case (Cons x xs)
  then obtain t where t: "f x s = Some t" "P t" by force
  with Cons.prems Cons.IH [of t] show ?case by auto
qed simp

subsection \<open>Association lists: objects in the order of their queue.h list\<close>

definition amod :: "'k \<Rightarrow> ('v \<Rightarrow> 'v) \<Rightarrow> ('k \<times> 'v) list \<Rightarrow> ('k \<times> 'v) list" where
  "amod k f = map (\<lambda>(k', v). (k', if k' = k then f v else v))"

definition adel :: "'k \<Rightarrow> ('k \<times> 'v) list \<Rightarrow> ('k \<times> 'v) list" where
  "adel k = filter (\<lambda>(k', v). k' \<noteq> k)"

lemma amod_Nil [simp]: "amod k f [] = []"
  by (simp add: amod_def)

lemma amod_Cons [simp]: "amod k f ((k', v) # xs) = (k', if k' = k then f v else v) # amod k f xs"
  by (simp add: amod_def)

lemma adel_Nil [simp]: "adel k [] = []"
  by (simp add: adel_def)

lemma adel_Cons [simp]: "adel k ((k', v) # xs) = (if k' = k then adel k xs else (k', v) # adel k xs)"
  by (simp add: adel_def)

lemma map_fst_amod [simp]: "map fst (amod k f xs) = map fst xs"
  by (induction xs) auto

lemma length_amod [simp]: "length (amod k f xs) = length xs"
  by (simp add: amod_def)

lemma fst_set_amod [simp]: "fst ` set (amod k f xs) = fst ` set xs"
  by (metis list.set_map map_fst_amod)

lemma map_of_amod [simp]:
  "map_of (amod k f xs) k' = (if k' = k then map_option f (map_of xs k) else map_of xs k')"
  by (induction xs) auto

lemma map_of_adel [simp]:
  "map_of (adel k xs) k' = (if k' = k then None else map_of xs k')"
  by (induction xs) auto

lemma map_fst_adel: "map fst (adel k xs) = filter (\<lambda>k'. k' \<noteq> k) (map fst xs)"
  by (induction xs) auto

lemma distinct_adel [simp]: "distinct (map fst xs) \<Longrightarrow> distinct (map fst (adel k xs))"
  by (simp add: map_fst_adel)

lemma set_adel: "set (adel k xs) = {(k', v) \<in> set xs. k' \<noteq> k}"
  by (auto simp: adel_def)

lemma adel_id: "k \<notin> fst ` set xs \<Longrightarrow> adel k xs = xs"
  by (induction xs) auto

lemma amod_amod [simp]: "amod k f (amod k g xs) = amod k (f \<circ> g) xs"
  by (induction xs) auto

lemma amod_id: "k \<notin> fst ` set xs \<Longrightarrow> amod k f xs = xs"
  by (induction xs) auto

subsection \<open>Counting\<close>

text \<open>How many objects of a heap satisfy a predicate, and how one update changes the count.\<close>

definition acount :: "('v \<Rightarrow> bool) \<Rightarrow> ('k \<times> 'v) list \<Rightarrow> nat" where
  "acount P xs = length (filter (P \<circ> snd) xs)"

lemma acount_Nil [simp]: "acount P [] = 0"
  by (simp add: acount_def)

lemma acount_Cons [simp]: "acount P ((k, v) # xs) = (if P v then Suc (acount P xs) else acount P xs)"
  by (simp add: acount_def)

lemma acount_le: "acount P xs \<le> length xs"
  by (simp add: acount_def)

lemma acount_amod:
  assumes "distinct (map fst xs)" and "map_of xs k = Some v"
  shows "acount P (amod k f xs) + of_bool (P v) = acount P xs + of_bool (P (f v))"
  using assms
proof (induction xs)
  case (Cons x xs)
  obtain k' v' where x: "x = (k', v')" by force
  show ?case
  proof (cases "k' = k")
    case True
    then have "k \<notin> fst ` set xs" using Cons.prems x by (simp add: image_image)
    then show ?thesis using Cons.prems True x by (simp add: amod_id)
  next
    case False
    then show ?thesis using Cons x by (simp split: if_splits)
  qed
qed simp

lemma acount_adel:
  assumes "distinct (map fst xs)" and "map_of xs k = Some v"
  shows "acount P (adel k xs) + of_bool (P v) = acount P xs"
  using assms
proof (induction xs)
  case (Cons x xs)
  obtain k' v' where x: "x = (k', v')" by force
  show ?case
  proof (cases "k' = k")
    case True
    then have "k \<notin> fst ` set xs" using Cons.prems x by simp
    then show ?thesis using Cons.prems True x by (simp add: adel_id)
  next
    case False
    then show ?thesis using Cons x by (simp split: if_splits)
  qed
qed simp

lemma acount_pos: "map_of xs k = Some v \<Longrightarrow> P v \<Longrightarrow> 0 < acount P xs"
  by (induction xs) (auto split: if_splits)

lemma acount_amod_same:
  assumes "\<And>v. map_of xs k = Some v \<Longrightarrow> P (f v) = P v" and "distinct (map fst xs)"
  shows "acount P (amod k f xs) = acount P xs"
proof (cases "map_of xs k")
  case None
  then show ?thesis by (simp add: map_of_eq_None_iff amod_id)
next
  case (Some v)
  with acount_amod [OF assms(2) Some, of P f] assms(1) show ?thesis by simp
qed

subsection \<open>C strings in fixed-size character arrays\<close>

text \<open>
  A \<open>char\<close> array is a \<open>string\<close> of the array's length; read as a C string it
  ends at the first NUL byte.
\<close>

definition cstr :: "string \<Rightarrow> string" where
  "cstr = takeWhile (\<lambda>c. c \<noteq> CHR 0x00)"

text \<open>\<open>strncpy(dst, src, n)\<close> for a C string \<open>src\<close>: exactly \<open>n\<close> characters, NUL-padded.\<close>

definition c_strncpy :: "string \<Rightarrow> nat \<Rightarrow> string" where
  "c_strncpy src n = take n src @ replicate (n - length src) (CHR 0x00)"

lemma length_c_strncpy [simp]: "length (c_strncpy src n) = n"
  by (simp add: c_strncpy_def)

lemma cstr_no_nul: "CHR 0x00 \<notin> set s \<Longrightarrow> cstr s = s"
  by (auto simp: cstr_def takeWhile_eq_all_conv)

lemma cstr_append_nul: "CHR 0x00 \<notin> set s \<Longrightarrow> cstr (s @ CHR 0x00 # t) = s"
  by (induction s) (auto simp: cstr_def)

lemma cstr_pad: "CHR 0x00 \<notin> set s \<Longrightarrow> cstr (s @ replicate n (CHR 0x00)) = s"
  by (cases n) (simp_all add: cstr_no_nul cstr_append_nul)

lemma length_cstr: "length (cstr s) \<le> length s"
  by (simp add: cstr_def length_takeWhile_le)

lemma nul_notin_cstr [simp]: "CHR 0x00 \<notin> set (cstr s)"
  unfolding cstr_def using set_takeWhileD by fastforce

subsection \<open>Characters\<close>

text \<open>The code of a character, and \<open>isdigit\<close> and \<open>isxdigit\<close> in the C locale.\<close>

abbreviation ord :: "char \<Rightarrow> nat" where
  "ord \<equiv> of_char"

definition isdigit :: "char \<Rightarrow> bool" where
  "isdigit c \<longleftrightarrow> ord (CHR ''0'') \<le> ord c \<and> ord c \<le> ord (CHR ''9'')"

definition isxdigit :: "char \<Rightarrow> bool" where
  "isxdigit c \<longleftrightarrow> isdigit c \<or> ord (CHR ''A'') \<le> ord c \<and> ord c \<le> ord (CHR ''F'') \<or> ord (CHR ''a'') \<le> ord c \<and> ord c \<le> ord (CHR ''f'')"

end
