(* ===== verification/Host_Memory.thy ===== *)
theory Host_Memory
  imports Lightsd_Prelude
begin

text \<open>
  Integers in the memory of the host. lightsd runs on little and big endian machines; the
  flag \<open>be\<close> says that the host is big endian (\<open>LGTD_BIG_ENDIAN_SYSTEM\<close>). A packed struct
  is the concatenation of the bytes of its fields, so the byte-order conversions
  of \<open>endian.h\<close> (\<open>htole16\<close>, \<open>le64toh\<close>, ...) decide what
  goes on the wire.
\<close>

unbundle bit_operations_syntax

text \<open>The \<open>n\<close> low bytes of a word, least significant first, and back.\<close>

fun le_bytes :: "nat \<Rightarrow> 'a::len word \<Rightarrow> bytes" where
  "le_bytes 0 x = []"
| "le_bytes (Suc n) x = ucast x # le_bytes n (drop_bit 8 x)"

fun le_word :: "bytes \<Rightarrow> 'a::len word" where
  "le_word [] = 0"
| "le_word (b # bs) = ucast b OR push_bit 8 (le_word bs)"

text \<open>The bytes in memory of an \<open>n\<close>-byte host integer, and the host integer they hold.\<close>

definition mem_of :: "bool \<Rightarrow> nat \<Rightarrow> 'a::len word \<Rightarrow> bytes" where
  "mem_of be n x = (if be then rev (le_bytes n x) else le_bytes n x)"

definition host_of :: "bool \<Rightarrow> bytes \<Rightarrow> 'a::len word" where
  "host_of be bs = le_word (if be then rev bs else bs)"

text \<open>\<open>htole16/32/64\<close> and \<open>le16/32/64toh\<close> (both swap the bytes of a big endian host).\<close>

definition bswap :: "nat \<Rightarrow> 'a::len word \<Rightarrow> 'a word" where
  "bswap n x = le_word (rev (le_bytes n x))"

definition htole16 :: "bool \<Rightarrow> u16 \<Rightarrow> u16" where
  "htole16 be x = (if be then bswap 2 x else x)"

definition htole32 :: "bool \<Rightarrow> u32 \<Rightarrow> u32" where
  "htole32 be x = (if be then bswap 4 x else x)"

definition htole64 :: "bool \<Rightarrow> u64 \<Rightarrow> u64" where
  "htole64 be x = (if be then bswap 8 x else x)"

abbreviation le16toh :: "bool \<Rightarrow> u16 \<Rightarrow> u16" where
  "le16toh \<equiv> htole16"

abbreviation le32toh :: "bool \<Rightarrow> u32 \<Rightarrow> u32" where
  "le32toh \<equiv> htole32"

abbreviation le64toh :: "bool \<Rightarrow> u64 \<Rightarrow> u64" where
  "le64toh \<equiv> htole64"

text \<open>Characters of a \<open>char\<close> array as bytes, and back.\<close>

definition bytes_of_string :: "string \<Rightarrow> bytes" where
  "bytes_of_string = map of_char"

definition string_of_bytes :: "bytes \<Rightarrow> string" where
  "string_of_bytes = map (\<lambda>b. char_of (unat b))"

subsection \<open>Inverses\<close>

lemma length_le_bytes [simp]: "length (le_bytes n x) = n"
  by (induction n arbitrary: x) auto

lemma length_mem_of [simp]: "length (mem_of be n x) = n"
  by (simp add: mem_of_def)

lemma le_word_le_bytes: "le_word (le_bytes n (x :: 'a::len word)) = take_bit (8 * n) x"
proof (induction n arbitrary: x)
  case (Suc n)
  have "ucast (ucast x :: u8) OR push_bit 8 (take_bit (8 * n) (drop_bit 8 x)) = take_bit (8 * Suc n) x"
    by (rule bit_word_eqI) (auto simp: bit_simps)
  with Suc show ?case by simp
qed simp

lemma take_bit_full: "LENGTH('a) \<le> m \<Longrightarrow> take_bit m (x :: 'a::len word) = x"
  by (rule bit_word_eqI) (auto simp: bit_simps)

lemma drop_bit_le_word:
  assumes "8 \<le> LENGTH('a)"
  shows "drop_bit 8 (ucast (b :: u8) OR push_bit 8 x :: 'a::len word) = take_bit (LENGTH('a) - 8) x"
  by (rule bit_word_eqI) (use assms in \<open>auto simp: bit_simps dest: bit_imp_le_length\<close>)

lemma le_bytes_take_bit: "8 * n \<le> m \<Longrightarrow> le_bytes n (take_bit m x) = le_bytes n (x :: 'a::len word)"
proof (induction n arbitrary: x m)
  case (Suc n)
  have "ucast (take_bit m x) = (ucast x :: u8)"
    by (rule bit_word_eqI) (use Suc.prems in \<open>auto simp: bit_simps\<close>)
  moreover have "drop_bit 8 (take_bit m x) = take_bit (m - 8) (drop_bit 8 x)"
    by (rule bit_word_eqI) (use Suc.prems in \<open>auto simp: bit_simps\<close>)
  ultimately show ?case using Suc by simp
qed simp

lemma le_bytes_le_word:
  "8 * length bs \<le> LENGTH('a) \<Longrightarrow> le_bytes (length bs) (le_word bs :: 'a::len word) = bs"
proof (induction bs)
  case (Cons b bs)
  then have len: "8 \<le> LENGTH('a)" "8 * length bs \<le> LENGTH('a) - 8" by auto
  have "ucast (ucast b OR push_bit 8 (le_word bs) :: 'a word) = b"
    by (rule bit_word_eqI) (use len in \<open>auto simp: bit_simps\<close>)
  moreover have "le_bytes (length bs) (drop_bit 8 (ucast b OR push_bit 8 (le_word bs) :: 'a word)) = bs"
    using Cons len by (simp only: drop_bit_le_word le_bytes_take_bit)
  ultimately show ?case by (simp only: list.size le_bytes.simps le_word.simps add_0_right add_Suc_right)
qed simp

text \<open>Reading back what was stored, for both byte orders.\<close>

lemma host_of_mem_of:
  assumes "LENGTH('a) = 8 * n"
  shows "host_of be (mem_of be n (x :: 'a::len word)) = x"
  using assms by (simp add: host_of_def mem_of_def le_word_le_bytes take_bit_full)

lemma mem_of_host_of:
  assumes "8 * length bs = LENGTH('a)"
  shows "mem_of be (length bs) (host_of be bs :: 'a::len word) = bs"
  using assms le_bytes_le_word [where 'a = 'a, of "rev bs"] le_bytes_le_word [where 'a = 'a, of bs]
  by (simp add: host_of_def mem_of_def)

lemma host_of_16 [simp]: "host_of be (mem_of be 2 (x :: u16)) = x"
  and host_of_32 [simp]: "host_of be (mem_of be 4 (y :: u32)) = y"
  and host_of_64 [simp]: "host_of be (mem_of be 8 (z :: u64)) = z"
  by (simp_all add: host_of_mem_of)

lemma bswap_bswap:
  assumes "LENGTH('a) = 8 * n"
  shows "bswap n (bswap n (x :: 'a::len word)) = x"
  using assms le_bytes_le_word [where 'a = 'a, of "rev (le_bytes n x)"]
  by (simp add: bswap_def le_word_le_bytes take_bit_full)

lemma le16toh_htole16 [simp]: "le16toh be (htole16 be x) = x"
  and le32toh_htole32 [simp]: "le32toh be (htole32 be y) = y"
  and le64toh_htole64 [simp]: "le64toh be (htole64 be z) = z"
  by (simp_all add: htole16_def htole32_def htole64_def bswap_bswap)

text \<open>What \<open>htole\<close> stores in memory is little endian, whatever the host.\<close>

lemma mem_of_bswap:
  assumes "LENGTH('a) = 8 * n"
  shows "mem_of True n (bswap n (x :: 'a::len word)) = le_bytes n x"
  using assms le_bytes_le_word [where 'a = 'a, of "rev (le_bytes n x)"]
  by (simp add: bswap_def mem_of_def)

lemma mem_of_htole16 [simp]: "mem_of be 2 (htole16 be x) = le_bytes 2 x"
  and mem_of_htole32 [simp]: "mem_of be 4 (htole32 be y) = le_bytes 4 y"
  and mem_of_htole64 [simp]: "mem_of be 8 (htole64 be z) = le_bytes 8 z"
  by (cases be; simp add: htole16_def htole32_def htole64_def mem_of_bswap; simp add: mem_of_def)+

lemma length_bytes_of_string [simp]: "length (bytes_of_string s) = length s"
  by (simp add: bytes_of_string_def)

lemma of_char_unat: "unat (of_char c :: u8) = (of_char c :: nat)"
  by (cases c) (simp add: of_char_def)

lemma string_of_bytes_of_string [simp]: "string_of_bytes (bytes_of_string s) = s"
proof -
  have "unat (of_char c :: u8) = (of_char c :: nat)" for c
    by (rule of_char_unat)
  then show ?thesis by (simp add: string_of_bytes_def bytes_of_string_def comp_def)
qed

end
