(* ===== verification/Wire_Proto.thy ===== *)
theory Wire_Proto
  imports Host_Memory
begin

text \<open>
  The LIFX LAN protocol (\<open>src/lifx/wire_proto.h\<close>, \<open>src/lifx/wire_proto.c\<close>): the packed structs
  that go on the wire, the conversions of their fields between the wire and the
  host, and the packet header. A struct in memory is the record of its fields as host
  integers; \<open>header_bytes\<close> and the \<open>..._bytes\<close> functions give its image in memory,
  which is what the daemon hands to the socket. Floats are kept as their
  32 bit patterns, which is all the protocol code does with them.
\<close>

unbundle bit_operations_syntax

subsection \<open>Constants and structs\<close>

abbreviation LGTD_LIFX_ADDR_LENGTH :: nat where "LGTD_LIFX_ADDR_LENGTH \<equiv> 6"
abbreviation LGTD_LIFX_LABEL_SIZE :: nat where "LGTD_LIFX_LABEL_SIZE \<equiv> 32"
abbreviation LGTD_LIFX_PACKET_HEADER_SIZE :: nat where "LGTD_LIFX_PACKET_HEADER_SIZE \<equiv> 36"
abbreviation LGTD_LIFX_MAX_PACKET_SIZE :: nat where "LGTD_LIFX_MAX_PACKET_SIZE \<equiv> 4096"
abbreviation LGTD_LIFX_POWER_OFF :: u16 where "LGTD_LIFX_POWER_OFF \<equiv> 0"
abbreviation LGTD_LIFX_POWER_ON :: u16 where "LGTD_LIFX_POWER_ON \<equiv> 0xffff"
abbreviation LGTD_LIFX_SERVICE_TCP :: u8 where "LGTD_LIFX_SERVICE_TCP \<equiv> 1"
abbreviation LGTD_LIFX_SERVICE_UDP :: u8 where "LGTD_LIFX_SERVICE_UDP \<equiv> 2"
abbreviation LGTD_LIFX_VENDOR_ID :: u32 where "LGTD_LIFX_VENDOR_ID \<equiv> 1"

text \<open>\<open>enum lgtd_lifx_protocol\<close>: the masks follow the byte order of the host.\<close>

definition LGTD_LIFX_PROTOCOL_V1 :: u16 where
  "LGTD_LIFX_PROTOCOL_V1 = 0x400"

definition LGTD_LIFX_PROTOCOL_VERSION_MASK :: "bool \<Rightarrow> u16" where
  "LGTD_LIFX_PROTOCOL_VERSION_MASK be = (if be then 0xff0f else 0x0fff)"

definition LGTD_LIFX_PROTOCOL_FLAGS_MASK :: "bool \<Rightarrow> u16" where
  "LGTD_LIFX_PROTOCOL_FLAGS_MASK be = (if be then 0x00f0 else 0xf000)"

definition LGTD_LIFX_PROTOCOL_ADDRESSABLE :: "bool \<Rightarrow> u16" where
  "LGTD_LIFX_PROTOCOL_ADDRESSABLE be = (if be then 0x0010 else 0x1000)"

definition LGTD_LIFX_PROTOCOL_TAGGED :: "bool \<Rightarrow> u16" where
  "LGTD_LIFX_PROTOCOL_TAGGED be = (if be then 0x0020 else 0x2000)"

lemmas protocol_defs =
  LGTD_LIFX_PROTOCOL_V1_def LGTD_LIFX_PROTOCOL_VERSION_MASK_def LGTD_LIFX_PROTOCOL_FLAGS_MASK_def
  LGTD_LIFX_PROTOCOL_ADDRESSABLE_def LGTD_LIFX_PROTOCOL_TAGGED_def

abbreviation LGTD_LIFX_FLAG_RES_REQUIRED :: u8 where "LGTD_LIFX_FLAG_RES_REQUIRED \<equiv> 1"
abbreviation LGTD_LIFX_FLAG_ACK_REQUIRED :: u8 where "LGTD_LIFX_FLAG_ACK_REQUIRED \<equiv> 2"

text \<open>\<open>enum lgtd_lifx_header_flags\<close>.\<close>

abbreviation LGTD_LIFX_ADDRESSABLE :: u32 where "LGTD_LIFX_ADDRESSABLE \<equiv> 1"
abbreviation LGTD_LIFX_TAGGED :: u32 where "LGTD_LIFX_TAGGED \<equiv> 2"
abbreviation LGTD_LIFX_ACK_REQUIRED :: u32 where "LGTD_LIFX_ACK_REQUIRED \<equiv> 4"
abbreviation LGTD_LIFX_RES_REQUIRED :: u32 where "LGTD_LIFX_RES_REQUIRED \<equiv> 8"

text \<open>\<open>enum lgtd_lifx_packet_type\<close>.\<close>

abbreviation LGTD_LIFX_SET_SITE :: u16 where "LGTD_LIFX_SET_SITE \<equiv> 0x01"
abbreviation LGTD_LIFX_GET_PAN_GATEWAY :: u16 where "LGTD_LIFX_GET_PAN_GATEWAY \<equiv> 0x02"
abbreviation LGTD_LIFX_PAN_GATEWAY :: u16 where "LGTD_LIFX_PAN_GATEWAY \<equiv> 0x03"
abbreviation LGTD_LIFX_GET_TIME :: u16 where "LGTD_LIFX_GET_TIME \<equiv> 0x04"
abbreviation LGTD_LIFX_SET_TIME :: u16 where "LGTD_LIFX_SET_TIME \<equiv> 0x05"
abbreviation LGTD_LIFX_TIME_STATE :: u16 where "LGTD_LIFX_TIME_STATE \<equiv> 0x06"
abbreviation LGTD_LIFX_GET_RESET_SWITCH_STATE :: u16 where "LGTD_LIFX_GET_RESET_SWITCH_STATE \<equiv> 0x07"
abbreviation LGTD_LIFX_RESET_SWITCH_STATE :: u16 where "LGTD_LIFX_RESET_SWITCH_STATE \<equiv> 0x08"
abbreviation LGTD_LIFX_GET_DUMMY_PAYLOAD :: u16 where "LGTD_LIFX_GET_DUMMY_PAYLOAD \<equiv> 0x09"
abbreviation LGTD_LIFX_SET_DUMMY_PAYLOAD :: u16 where "LGTD_LIFX_SET_DUMMY_PAYLOAD \<equiv> 0x0a"
abbreviation LGTD_LIFX_STATE_DUMMY_PAYLOAD :: u16 where "LGTD_LIFX_STATE_DUMMY_PAYLOAD \<equiv> 0x0b"
abbreviation LGTD_LIFX_GET_MESH_INFO :: u16 where "LGTD_LIFX_GET_MESH_INFO \<equiv> 0x0c"
abbreviation LGTD_LIFX_MESH_INFO :: u16 where "LGTD_LIFX_MESH_INFO \<equiv> 0x0d"
abbreviation LGTD_LIFX_GET_MESH_FIRMWARE :: u16 where "LGTD_LIFX_GET_MESH_FIRMWARE \<equiv> 0x0e"
abbreviation LGTD_LIFX_MESH_FIRMWARE :: u16 where "LGTD_LIFX_MESH_FIRMWARE \<equiv> 0x0f"
abbreviation LGTD_LIFX_GET_WIFI_INFO :: u16 where "LGTD_LIFX_GET_WIFI_INFO \<equiv> 0x10"
abbreviation LGTD_LIFX_WIFI_INFO :: u16 where "LGTD_LIFX_WIFI_INFO \<equiv> 0x11"
abbreviation LGTD_LIFX_GET_WIFI_FIRMWARE_STATE :: u16 where "LGTD_LIFX_GET_WIFI_FIRMWARE_STATE \<equiv> 0x12"
abbreviation LGTD_LIFX_WIFI_FIRMWARE_STATE :: u16 where "LGTD_LIFX_WIFI_FIRMWARE_STATE \<equiv> 0x13"
abbreviation LGTD_LIFX_GET_POWER_STATE :: u16 where "LGTD_LIFX_GET_POWER_STATE \<equiv> 0x14"
abbreviation LGTD_LIFX_SET_POWER_STATE :: u16 where "LGTD_LIFX_SET_POWER_STATE \<equiv> 0x15"
abbreviation LGTD_LIFX_POWER_STATE :: u16 where "LGTD_LIFX_POWER_STATE \<equiv> 0x16"
abbreviation LGTD_LIFX_GET_BULB_LABEL :: u16 where "LGTD_LIFX_GET_BULB_LABEL \<equiv> 0x17"
abbreviation LGTD_LIFX_SET_BULB_LABEL :: u16 where "LGTD_LIFX_SET_BULB_LABEL \<equiv> 0x18"
abbreviation LGTD_LIFX_BULB_LABEL :: u16 where "LGTD_LIFX_BULB_LABEL \<equiv> 0x19"
abbreviation LGTD_LIFX_GET_TAGS :: u16 where "LGTD_LIFX_GET_TAGS \<equiv> 0x1a"
abbreviation LGTD_LIFX_SET_TAGS :: u16 where "LGTD_LIFX_SET_TAGS \<equiv> 0x1b"
abbreviation LGTD_LIFX_TAGS :: u16 where "LGTD_LIFX_TAGS \<equiv> 0x1c"
abbreviation LGTD_LIFX_GET_TAG_LABELS :: u16 where "LGTD_LIFX_GET_TAG_LABELS \<equiv> 0x1d"
abbreviation LGTD_LIFX_SET_TAG_LABELS :: u16 where "LGTD_LIFX_SET_TAG_LABELS \<equiv> 0x1e"
abbreviation LGTD_LIFX_TAG_LABELS :: u16 where "LGTD_LIFX_TAG_LABELS \<equiv> 0x1f"
abbreviation LGTD_LIFX_GET_VERSION :: u16 where "LGTD_LIFX_GET_VERSION \<equiv> 0x20"
abbreviation LGTD_LIFX_VERSION_STATE :: u16 where "LGTD_LIFX_VERSION_STATE \<equiv> 0x21"
abbreviation LGTD_LIFX_GET_INFO :: u16 where "LGTD_LIFX_GET_INFO \<equiv> 0x22"
abbreviation LGTD_LIFX_INFO_STATE :: u16 where "LGTD_LIFX_INFO_STATE \<equiv> 0x23"
abbreviation LGTD_LIFX_GET_MCU_RAIL_VOLTAGE :: u16 where "LGTD_LIFX_GET_MCU_RAIL_VOLTAGE \<equiv> 0x24"
abbreviation LGTD_LIFX_MCU_RAIL_VOLTAGE :: u16 where "LGTD_LIFX_MCU_RAIL_VOLTAGE \<equiv> 0x25"
abbreviation LGTD_LIFX_REBOOT :: u16 where "LGTD_LIFX_REBOOT \<equiv> 0x26"
abbreviation LGTD_LIFX_SET_FACTORY_TEST_MODE :: u16 where "LGTD_LIFX_SET_FACTORY_TEST_MODE \<equiv> 0x27"
abbreviation LGTD_LIFX_DISABLE_FACTORY_TEST_MODE :: u16 where "LGTD_LIFX_DISABLE_FACTORY_TEST_MODE \<equiv> 0x28"
abbreviation LGTD_LIFX_STATE_FACTORY_TEST_MODE :: u16 where "LGTD_LIFX_STATE_FACTORY_TEST_MODE \<equiv> 0x29"
abbreviation LGTD_LIFX_STATE_SITE :: u16 where "LGTD_LIFX_STATE_SITE \<equiv> 0x2a"
abbreviation LGTD_LIFX_STATE_REBOOT :: u16 where "LGTD_LIFX_STATE_REBOOT \<equiv> 0x2b"
abbreviation LGTD_LIFX_SET_PAN_GATEWAY :: u16 where "LGTD_LIFX_SET_PAN_GATEWAY \<equiv> 0x2c"
abbreviation LGTD_LIFX_ACK :: u16 where "LGTD_LIFX_ACK \<equiv> 0x2d"
abbreviation LGTD_LIFX_SET_FACTORY_RESET :: u16 where "LGTD_LIFX_SET_FACTORY_RESET \<equiv> 0x2e"
abbreviation LGTD_LIFX_STATE_FACTORY_RESET :: u16 where "LGTD_LIFX_STATE_FACTORY_RESET \<equiv> 0x2f"
abbreviation LGTD_LIFX_GET_LOCATION :: u16 where "LGTD_LIFX_GET_LOCATION \<equiv> 0x30"
abbreviation LGTD_LIFX_SET_LOCATION :: u16 where "LGTD_LIFX_SET_LOCATION \<equiv> 0x31"
abbreviation LGTD_LIFX_STATE_LOCATION :: u16 where "LGTD_LIFX_STATE_LOCATION \<equiv> 0x32"
abbreviation LGTD_LIFX_GET_GROUP :: u16 where "LGTD_LIFX_GET_GROUP \<equiv> 0x33"
abbreviation LGTD_LIFX_SET_GROUP :: u16 where "LGTD_LIFX_SET_GROUP \<equiv> 0x34"
abbreviation LGTD_LIFX_STATE_GROUP :: u16 where "LGTD_LIFX_STATE_GROUP \<equiv> 0x35"
abbreviation LGTD_LIFX_GET_OWNER :: u16 where "LGTD_LIFX_GET_OWNER \<equiv> 0x36"
abbreviation LGTD_LIFX_SET_OWNER :: u16 where "LGTD_LIFX_SET_OWNER \<equiv> 0x37"
abbreviation LGTD_LIFX_STATE_OWNER :: u16 where "LGTD_LIFX_STATE_OWNER \<equiv> 0x38"
abbreviation LGTD_LIFX_GET_FACTORY_TEST_MODE :: u16 where "LGTD_LIFX_GET_FACTORY_TEST_MODE \<equiv> 0x39"
abbreviation LGTD_LIFX_ECHO_REQUEST :: u16 where "LGTD_LIFX_ECHO_REQUEST \<equiv> 0x3a"
abbreviation LGTD_LIFX_ECHO_RESPONSE :: u16 where "LGTD_LIFX_ECHO_RESPONSE \<equiv> 0x3b"
abbreviation LGTD_LIFX_GET_LIGHT_STATE :: u16 where "LGTD_LIFX_GET_LIGHT_STATE \<equiv> 0x65"
abbreviation LGTD_LIFX_SET_LIGHT_COLOR :: u16 where "LGTD_LIFX_SET_LIGHT_COLOR \<equiv> 0x66"
abbreviation LGTD_LIFX_SET_WAVEFORM :: u16 where "LGTD_LIFX_SET_WAVEFORM \<equiv> 0x67"
abbreviation LGTD_LIFX_SET_DIM_ABSOLUTE :: u16 where "LGTD_LIFX_SET_DIM_ABSOLUTE \<equiv> 0x68"
abbreviation LGTD_LIFX_SET_DIM_RELATIVE :: u16 where "LGTD_LIFX_SET_DIM_RELATIVE \<equiv> 0x69"
abbreviation LGTD_LIFX_SET_RGBW :: u16 where "LGTD_LIFX_SET_RGBW \<equiv> 0x6a"
abbreviation LGTD_LIFX_LIGHT_STATUS :: u16 where "LGTD_LIFX_LIGHT_STATUS \<equiv> 0x6b"
abbreviation LGTD_LIFX_GET_RAIL_VOLTAGE :: u16 where "LGTD_LIFX_GET_RAIL_VOLTAGE \<equiv> 0x6c"
abbreviation LGTD_LIFX_STATE_RAIL_VOLTAGE :: u16 where "LGTD_LIFX_STATE_RAIL_VOLTAGE \<equiv> 0x6d"
abbreviation LGTD_LIFX_GET_TEMPERATURE :: u16 where "LGTD_LIFX_GET_TEMPERATURE \<equiv> 0x6e"
abbreviation LGTD_LIFX_STATE_TEMPERATURE :: u16 where "LGTD_LIFX_STATE_TEMPERATURE \<equiv> 0x6f"
abbreviation LGTD_LIFX_SET_CALIBRATION_COEFFICIENTS :: u16 where "LGTD_LIFX_SET_CALIBRATION_COEFFICIENTS \<equiv> 0x70"
abbreviation LGTD_LIFX_SET_SIMPLE_EVENT :: u16 where "LGTD_LIFX_SET_SIMPLE_EVENT \<equiv> 0x71"
abbreviation LGTD_LIFX_GET_SIMPLE_EVENT :: u16 where "LGTD_LIFX_GET_SIMPLE_EVENT \<equiv> 0x72"
abbreviation LGTD_LIFX_STATE_SIMPLE_EVENT :: u16 where "LGTD_LIFX_STATE_SIMPLE_EVENT \<equiv> 0x73"
abbreviation LGTD_LIFX_GET_POWER :: u16 where "LGTD_LIFX_GET_POWER \<equiv> 0x74"
abbreviation LGTD_LIFX_SET_POWER :: u16 where "LGTD_LIFX_SET_POWER \<equiv> 0x75"
abbreviation LGTD_LIFX_STATE_POWER :: u16 where "LGTD_LIFX_STATE_POWER \<equiv> 0x76"
abbreviation LGTD_LIFX_SET_WAVEFORM_OPTIONAL :: u16 where "LGTD_LIFX_SET_WAVEFORM_OPTIONAL \<equiv> 0x77"
abbreviation LGTD_LIFX_CONNECT_PLAIN :: u16 where "LGTD_LIFX_CONNECT_PLAIN \<equiv> 0xc9"
abbreviation LGTD_LIFX_CONNECT_KEY :: u16 where "LGTD_LIFX_CONNECT_KEY \<equiv> 0xca"
abbreviation LGTD_LIFX_STATE_CONNECT :: u16 where "LGTD_LIFX_STATE_CONNECT \<equiv> 0xcb"
abbreviation LGTD_LIFX_GET_AUTH_KEY :: u16 where "LGTD_LIFX_GET_AUTH_KEY \<equiv> 0xcc"
abbreviation LGTD_LIFX_SET_AUTH_KEY :: u16 where "LGTD_LIFX_SET_AUTH_KEY \<equiv> 0xcd"
abbreviation LGTD_LIFX_STATE_AUTH_KEY :: u16 where "LGTD_LIFX_STATE_AUTH_KEY \<equiv> 0xce"
abbreviation LGTD_LIFX_SET_KEEP_ALIVE :: u16 where "LGTD_LIFX_SET_KEEP_ALIVE \<equiv> 0xcf"
abbreviation LGTD_LIFX_STATE_KEEP_ALIVE :: u16 where "LGTD_LIFX_STATE_KEEP_ALIVE \<equiv> 0xd0"
abbreviation LGTD_LIFX_SET_HOST :: u16 where "LGTD_LIFX_SET_HOST \<equiv> 0xd1"
abbreviation LGTD_LIFX_GET_HOST :: u16 where "LGTD_LIFX_GET_HOST \<equiv> 0xd2"
abbreviation LGTD_LIFX_STATE_HOST :: u16 where "LGTD_LIFX_STATE_HOST \<equiv> 0xd3"
abbreviation LGTD_LIFX_GET_WIFI_STATE :: u16 where "LGTD_LIFX_GET_WIFI_STATE \<equiv> 0x12d"
abbreviation LGTD_LIFX_SET_WIFI_STATE :: u16 where "LGTD_LIFX_SET_WIFI_STATE \<equiv> 0x12e"
abbreviation LGTD_LIFX_WIFI_STATE :: u16 where "LGTD_LIFX_WIFI_STATE \<equiv> 0x12f"
abbreviation LGTD_LIFX_GET_ACCESS_POINTS :: u16 where "LGTD_LIFX_GET_ACCESS_POINTS \<equiv> 0x130"
abbreviation LGTD_LIFX_SET_ACCESS_POINTS :: u16 where "LGTD_LIFX_SET_ACCESS_POINTS \<equiv> 0x131"
abbreviation LGTD_LIFX_STATE_ACCESS_POINTS :: u16 where "LGTD_LIFX_STATE_ACCESS_POINTS \<equiv> 0x132"
abbreviation LGTD_LIFX_GET_ACCESS_POINT :: u16 where "LGTD_LIFX_GET_ACCESS_POINT \<equiv> 0x133"
abbreviation LGTD_LIFX_STATE_ACCESS_POINT :: u16 where "LGTD_LIFX_STATE_ACCESS_POINT \<equiv> 0x134"
abbreviation LGTD_LIFX_SET_ACCESS_POINT_BROADCAST :: u16 where "LGTD_LIFX_SET_ACCESS_POINT_BROADCAST \<equiv> 0x135"
abbreviation LGTD_LIFX_GET_AMBIENT_LIGHT :: u16 where "LGTD_LIFX_GET_AMBIENT_LIGHT \<equiv> 0x191"
abbreviation LGTD_LIFX_STATE_AMBIENT_LIGHT :: u16 where "LGTD_LIFX_STATE_AMBIENT_LIGHT \<equiv> 0x192"
abbreviation LGTD_LIFX_GET_DIMMER_VOLTAGE :: u16 where "LGTD_LIFX_GET_DIMMER_VOLTAGE \<equiv> 0x193"
abbreviation LGTD_LIFX_STATE_DIMMER_VOLTAGE :: u16 where "LGTD_LIFX_STATE_DIMMER_VOLTAGE \<equiv> 0x194"

definition lgtd_lifx_packet_type :: "(string \<times> u16) list" where
  "lgtd_lifx_packet_type = [
    (''SET_SITE'', LGTD_LIFX_SET_SITE),
    (''GET_PAN_GATEWAY'', LGTD_LIFX_GET_PAN_GATEWAY),
    (''PAN_GATEWAY'', LGTD_LIFX_PAN_GATEWAY),
    (''GET_TIME'', LGTD_LIFX_GET_TIME),
    (''SET_TIME'', LGTD_LIFX_SET_TIME),
    (''TIME_STATE'', LGTD_LIFX_TIME_STATE),
    (''GET_RESET_SWITCH_STATE'', LGTD_LIFX_GET_RESET_SWITCH_STATE),
    (''RESET_SWITCH_STATE'', LGTD_LIFX_RESET_SWITCH_STATE),
    (''GET_DUMMY_PAYLOAD'', LGTD_LIFX_GET_DUMMY_PAYLOAD),
    (''SET_DUMMY_PAYLOAD'', LGTD_LIFX_SET_DUMMY_PAYLOAD),
    (''STATE_DUMMY_PAYLOAD'', LGTD_LIFX_STATE_DUMMY_PAYLOAD),
    (''GET_MESH_INFO'', LGTD_LIFX_GET_MESH_INFO),
    (''MESH_INFO'', LGTD_LIFX_MESH_INFO),
    (''GET_MESH_FIRMWARE'', LGTD_LIFX_GET_MESH_FIRMWARE),
    (''MESH_FIRMWARE'', LGTD_LIFX_MESH_FIRMWARE),
    (''GET_WIFI_INFO'', LGTD_LIFX_GET_WIFI_INFO),
    (''WIFI_INFO'', LGTD_LIFX_WIFI_INFO),
    (''GET_WIFI_FIRMWARE_STATE'', LGTD_LIFX_GET_WIFI_FIRMWARE_STATE),
    (''WIFI_FIRMWARE_STATE'', LGTD_LIFX_WIFI_FIRMWARE_STATE),
    (''GET_POWER_STATE'', LGTD_LIFX_GET_POWER_STATE),
    (''SET_POWER_STATE'', LGTD_LIFX_SET_POWER_STATE),
    (''POWER_STATE'', LGTD_LIFX_POWER_STATE),
    (''GET_BULB_LABEL'', LGTD_LIFX_GET_BULB_LABEL),
    (''SET_BULB_LABEL'', LGTD_LIFX_SET_BULB_LABEL),
    (''BULB_LABEL'', LGTD_LIFX_BULB_LABEL),
    (''GET_TAGS'', LGTD_LIFX_GET_TAGS),
    (''SET_TAGS'', LGTD_LIFX_SET_TAGS),
    (''TAGS'', LGTD_LIFX_TAGS),
    (''GET_TAG_LABELS'', LGTD_LIFX_GET_TAG_LABELS),
    (''SET_TAG_LABELS'', LGTD_LIFX_SET_TAG_LABELS),
    (''TAG_LABELS'', LGTD_LIFX_TAG_LABELS),
    (''GET_VERSION'', LGTD_LIFX_GET_VERSION),
    (''VERSION_STATE'', LGTD_LIFX_VERSION_STATE),
    (''GET_INFO'', LGTD_LIFX_GET_INFO),
    (''INFO_STATE'', LGTD_LIFX_INFO_STATE),
    (''GET_MCU_RAIL_VOLTAGE'', LGTD_LIFX_GET_MCU_RAIL_VOLTAGE),
    (''MCU_RAIL_VOLTAGE'', LGTD_LIFX_MCU_RAIL_VOLTAGE),
    (''REBOOT'', LGTD_LIFX_REBOOT),
    (''SET_FACTORY_TEST_MODE'', LGTD_LIFX_SET_FACTORY_TEST_MODE),
    (''DISABLE_FACTORY_TEST_MODE'', LGTD_LIFX_DISABLE_FACTORY_TEST_MODE),
    (''STATE_FACTORY_TEST_MODE'', LGTD_LIFX_STATE_FACTORY_TEST_MODE),
    (''STATE_SITE'', LGTD_LIFX_STATE_SITE),
    (''STATE_REBOOT'', LGTD_LIFX_STATE_REBOOT),
    (''SET_PAN_GATEWAY'', LGTD_LIFX_SET_PAN_GATEWAY),
    (''ACK'', LGTD_LIFX_ACK),
    (''SET_FACTORY_RESET'', LGTD_LIFX_SET_FACTORY_RESET),
    (''STATE_FACTORY_RESET'', LGTD_LIFX_STATE_FACTORY_RESET),
    (''GET_LOCATION'', LGTD_LIFX_GET_LOCATION),
    (''SET_LOCATION'', LGTD_LIFX_SET_LOCATION),
    (''STATE_LOCATION'', LGTD_LIFX_STATE_LOCATION),
    (''GET_GROUP'', LGTD_LIFX_GET_GROUP),
    (''SET_GROUP'', LGTD_LIFX_SET_GROUP),
    (''STATE_GROUP'', LGTD_LIFX_STATE_GROUP),
    (''GET_OWNER'', LGTD_LIFX_GET_OWNER),
    (''SET_OWNER'', LGTD_LIFX_SET_OWNER),
    (''STATE_OWNER'', LGTD_LIFX_STATE_OWNER),
    (''GET_FACTORY_TEST_MODE'', LGTD_LIFX_GET_FACTORY_TEST_MODE),
    (''ECHO_REQUEST'', LGTD_LIFX_ECHO_REQUEST),
    (''ECHO_RESPONSE'', LGTD_LIFX_ECHO_RESPONSE),
    (''GET_LIGHT_STATE'', LGTD_LIFX_GET_LIGHT_STATE),
    (''SET_LIGHT_COLOR'', LGTD_LIFX_SET_LIGHT_COLOR),
    (''SET_WAVEFORM'', LGTD_LIFX_SET_WAVEFORM),
    (''SET_DIM_ABSOLUTE'', LGTD_LIFX_SET_DIM_ABSOLUTE),
    (''SET_DIM_RELATIVE'', LGTD_LIFX_SET_DIM_RELATIVE),
    (''SET_RGBW'', LGTD_LIFX_SET_RGBW),
    (''LIGHT_STATUS'', LGTD_LIFX_LIGHT_STATUS),
    (''GET_RAIL_VOLTAGE'', LGTD_LIFX_GET_RAIL_VOLTAGE),
    (''STATE_RAIL_VOLTAGE'', LGTD_LIFX_STATE_RAIL_VOLTAGE),
    (''GET_TEMPERATURE'', LGTD_LIFX_GET_TEMPERATURE),
    (''STATE_TEMPERATURE'', LGTD_LIFX_STATE_TEMPERATURE),
    (''SET_CALIBRATION_COEFFICIENTS'', LGTD_LIFX_SET_CALIBRATION_COEFFICIENTS),
    (''SET_SIMPLE_EVENT'', LGTD_LIFX_SET_SIMPLE_EVENT),
    (''GET_SIMPLE_EVENT'', LGTD_LIFX_GET_SIMPLE_EVENT),
    (''STATE_SIMPLE_EVENT'', LGTD_LIFX_STATE_SIMPLE_EVENT),
    (''GET_POWER'', LGTD_LIFX_GET_POWER),
    (''SET_POWER'', LGTD_LIFX_SET_POWER),
    (''STATE_POWER'', LGTD_LIFX_STATE_POWER),
    (''SET_WAVEFORM_OPTIONAL'', LGTD_LIFX_SET_WAVEFORM_OPTIONAL),
    (''CONNECT_PLAIN'', LGTD_LIFX_CONNECT_PLAIN),
    (''CONNECT_KEY'', LGTD_LIFX_CONNECT_KEY),
    (''STATE_CONNECT'', LGTD_LIFX_STATE_CONNECT),
    (''GET_AUTH_KEY'', LGTD_LIFX_GET_AUTH_KEY),
    (''SET_AUTH_KEY'', LGTD_LIFX_SET_AUTH_KEY),
    (''STATE_AUTH_KEY'', LGTD_LIFX_STATE_AUTH_KEY),
    (''SET_KEEP_ALIVE'', LGTD_LIFX_SET_KEEP_ALIVE),
    (''STATE_KEEP_ALIVE'', LGTD_LIFX_STATE_KEEP_ALIVE),
    (''SET_HOST'', LGTD_LIFX_SET_HOST),
    (''GET_HOST'', LGTD_LIFX_GET_HOST),
    (''STATE_HOST'', LGTD_LIFX_STATE_HOST),
    (''GET_WIFI_STATE'', LGTD_LIFX_GET_WIFI_STATE),
    (''SET_WIFI_STATE'', LGTD_LIFX_SET_WIFI_STATE),
    (''WIFI_STATE'', LGTD_LIFX_WIFI_STATE),
    (''GET_ACCESS_POINTS'', LGTD_LIFX_GET_ACCESS_POINTS),
    (''SET_ACCESS_POINTS'', LGTD_LIFX_SET_ACCESS_POINTS),
    (''STATE_ACCESS_POINTS'', LGTD_LIFX_STATE_ACCESS_POINTS),
    (''GET_ACCESS_POINT'', LGTD_LIFX_GET_ACCESS_POINT),
    (''STATE_ACCESS_POINT'', LGTD_LIFX_STATE_ACCESS_POINT),
    (''SET_ACCESS_POINT_BROADCAST'', LGTD_LIFX_SET_ACCESS_POINT_BROADCAST),
    (''GET_AMBIENT_LIGHT'', LGTD_LIFX_GET_AMBIENT_LIGHT),
    (''STATE_AMBIENT_LIGHT'', LGTD_LIFX_STATE_AMBIENT_LIGHT),
    (''GET_DIMMER_VOLTAGE'', LGTD_LIFX_GET_DIMMER_VOLTAGE),
    (''STATE_DIMMER_VOLTAGE'', LGTD_LIFX_STATE_DIMMER_VOLTAGE)]"

datatype lgtd_lifx_target_type =
    LGTD_LIFX_TARGET_SITE
  | LGTD_LIFX_TARGET_TAGS
  | LGTD_LIFX_TARGET_DEVICE
  | LGTD_LIFX_TARGET_ALL_DEVICES

text \<open>\<open>union lgtd_lifx_target\<close>, with the member that was last written.\<close>

datatype lgtd_lifx_target =
    Target_tags u64
  | Target_addr bytes

abbreviation LGTD_LIFX_UNSPEC_TARGET :: lgtd_lifx_target where
  "LGTD_LIFX_UNSPEC_TARGET \<equiv> Target_tags 0"

text \<open>
  The packet header. The \<open>target\<close> union is kept as the eight bytes it occupies, so that it
  can be read as tags (\<open>hdr_target_tags\<close>) and as a device address (\<open>hdr_device_addr\<close>).
\<close>

record lgtd_lifx_packet_header =
  hdr_size :: u16
  hdr_protocol :: u16
  hdr_source :: u32
  hdr_target :: bytes
  hdr_site :: bytes
  hdr_flags :: u8
  hdr_seqn :: u8
  hdr_at_time :: u64
  hdr_packet_type :: u16
  hdr_reserved :: bytes

definition hdr_target_tags :: "bool \<Rightarrow> lgtd_lifx_packet_header \<Rightarrow> u64" where
  "hdr_target_tags be hdr = host_of be (hdr_target hdr)"

definition hdr_device_addr :: "lgtd_lifx_packet_header \<Rightarrow> bytes" where
  "hdr_device_addr hdr = take LGTD_LIFX_ADDR_LENGTH (hdr_target hdr)"

record lgtd_lifx_packet_light_status =
  ls_hue :: u16
  ls_saturation :: u16
  ls_brightness :: u16
  ls_kelvin :: u16
  ls_dim :: u16
  ls_power :: u16
  ls_label :: string
  ls_tags :: u64

record lgtd_lifx_packet_power_state =
  ps_power :: u16

record lgtd_lifx_packet_pan_gateway =
  pg_service_type :: u8
  pg_port :: u32

record lgtd_lifx_packet_light_color =
  lc_stream :: u8
  lc_hue :: u16
  lc_saturation :: u16
  lc_brightness :: u16
  lc_kelvin :: u16
  lc_transition :: u32

record lgtd_lifx_packet_waveform =
  wf_stream :: u8
  wf_transient :: u8
  wf_hue :: u16
  wf_saturation :: u16
  wf_brightness :: u16
  wf_kelvin :: u16
  wf_period :: u32
  wf_cycles :: u32
  wf_skew_ratio :: u16
  wf_waveform :: u8

record lgtd_lifx_packet_tags =
  pt_tags :: u64

record lgtd_lifx_packet_label =
  pl_label :: string

record lgtd_lifx_packet_tag_labels =
  tl_tags :: u64
  tl_label :: string

record lgtd_lifx_packet_ip_state =
  is_signal_strength :: u32
  is_tx_bytes :: u32
  is_rx_bytes :: u32
  is_temperature :: u16

record lgtd_lifx_packet_ip_firmware_info =
  fw_built_at :: u64
  fw_installed_at :: u64
  fw_version :: u32

record lgtd_lifx_packet_product_info =
  pr_vendor_id :: u32
  pr_product_id :: u32
  pr_version :: u32

record lgtd_lifx_packet_runtime_info =
  ri_time :: u64
  ri_uptime :: u64
  ri_downtime :: u64

record lgtd_lifx_packet_ambient_light =
  al_illuminance :: u32

subsection \<open>Structs in memory\<close>

text \<open>The \<open>n\<close> bytes at offset \<open>off\<close>.\<close>

definition fld :: "nat \<Rightarrow> nat \<Rightarrow> bytes \<Rightarrow> bytes" where
  "fld off n bs = take n (drop off bs)"

definition header_bytes :: "bool \<Rightarrow> lgtd_lifx_packet_header \<Rightarrow> bytes" where
  "header_bytes be hdr =
     mem_of be 2 (hdr_size hdr) @ mem_of be 2 (hdr_protocol hdr) @ mem_of be 4 (hdr_source hdr)
     @ hdr_target hdr @ hdr_site hdr @ [hdr_flags hdr] @ [hdr_seqn hdr]
     @ mem_of be 8 (hdr_at_time hdr) @ mem_of be 2 (hdr_packet_type hdr) @ hdr_reserved hdr"

definition header_of_bytes :: "bool \<Rightarrow> bytes \<Rightarrow> lgtd_lifx_packet_header" where
  "header_of_bytes be bs =
     \<lparr>hdr_size = host_of be (fld 0 2 bs), hdr_protocol = host_of be (fld 2 2 bs),
      hdr_source = host_of be (fld 4 4 bs), hdr_target = fld 8 8 bs, hdr_site = fld 16 6 bs,
      hdr_flags = host_of be (fld 22 1 bs), hdr_seqn = host_of be (fld 23 1 bs),
      hdr_at_time = host_of be (fld 24 8 bs), hdr_packet_type = host_of be (fld 32 2 bs),
      hdr_reserved = fld 34 2 bs\<rparr>"

text \<open>Payloads the daemon receives: read from memory.\<close>

definition light_status_of_bytes :: "bool \<Rightarrow> bytes \<Rightarrow> lgtd_lifx_packet_light_status" where
  "light_status_of_bytes be bs =
     \<lparr>ls_hue = host_of be (fld 0 2 bs), ls_saturation = host_of be (fld 2 2 bs),
      ls_brightness = host_of be (fld 4 2 bs), ls_kelvin = host_of be (fld 6 2 bs),
      ls_dim = host_of be (fld 8 2 bs), ls_power = host_of be (fld 10 2 bs),
      ls_label = string_of_bytes (fld 12 32 bs), ls_tags = host_of be (fld 44 8 bs)\<rparr>"

definition power_state_of_bytes :: "bool \<Rightarrow> bytes \<Rightarrow> lgtd_lifx_packet_power_state" where
  "power_state_of_bytes be bs = \<lparr>ps_power = host_of be (fld 0 2 bs)\<rparr>"

definition pan_gateway_of_bytes :: "bool \<Rightarrow> bytes \<Rightarrow> lgtd_lifx_packet_pan_gateway" where
  "pan_gateway_of_bytes be bs =
     \<lparr>pg_service_type = host_of be (fld 0 1 bs), pg_port = host_of be (fld 1 4 bs)\<rparr>"

definition tags_of_bytes :: "bool \<Rightarrow> bytes \<Rightarrow> lgtd_lifx_packet_tags" where
  "tags_of_bytes be bs = \<lparr>pt_tags = host_of be (fld 0 8 bs)\<rparr>"

definition label_of_bytes :: "bytes \<Rightarrow> lgtd_lifx_packet_label" where
  "label_of_bytes bs = \<lparr>pl_label = string_of_bytes (fld 0 32 bs)\<rparr>"

definition tag_labels_of_bytes :: "bool \<Rightarrow> bytes \<Rightarrow> lgtd_lifx_packet_tag_labels" where
  "tag_labels_of_bytes be bs =
     \<lparr>tl_tags = host_of be (fld 0 8 bs), tl_label = string_of_bytes (fld 8 32 bs)\<rparr>"

definition ip_state_of_bytes :: "bool \<Rightarrow> bytes \<Rightarrow> lgtd_lifx_packet_ip_state" where
  "ip_state_of_bytes be bs =
     \<lparr>is_signal_strength = host_of be (fld 0 4 bs), is_tx_bytes = host_of be (fld 4 4 bs),
      is_rx_bytes = host_of be (fld 8 4 bs), is_temperature = host_of be (fld 12 2 bs)\<rparr>"

definition ip_firmware_info_of_bytes :: "bool \<Rightarrow> bytes \<Rightarrow> lgtd_lifx_packet_ip_firmware_info" where
  "ip_firmware_info_of_bytes be bs =
     \<lparr>fw_built_at = host_of be (fld 0 8 bs), fw_installed_at = host_of be (fld 8 8 bs),
      fw_version = host_of be (fld 16 4 bs)\<rparr>"

definition product_info_of_bytes :: "bool \<Rightarrow> bytes \<Rightarrow> lgtd_lifx_packet_product_info" where
  "product_info_of_bytes be bs =
     \<lparr>pr_vendor_id = host_of be (fld 0 4 bs), pr_product_id = host_of be (fld 4 4 bs),
      pr_version = host_of be (fld 8 4 bs)\<rparr>"

definition runtime_info_of_bytes :: "bool \<Rightarrow> bytes \<Rightarrow> lgtd_lifx_packet_runtime_info" where
  "runtime_info_of_bytes be bs =
     \<lparr>ri_time = host_of be (fld 0 8 bs), ri_uptime = host_of be (fld 8 8 bs),
      ri_downtime = host_of be (fld 16 8 bs)\<rparr>"

definition ambient_light_of_bytes :: "bool \<Rightarrow> bytes \<Rightarrow> lgtd_lifx_packet_ambient_light" where
  "ambient_light_of_bytes be bs = \<lparr>al_illuminance = host_of be (fld 0 4 bs)\<rparr>"

text \<open>Payloads the daemon sends: their image in memory.\<close>

definition power_state_bytes :: "bool \<Rightarrow> lgtd_lifx_packet_power_state \<Rightarrow> bytes" where
  "power_state_bytes be pkt = mem_of be 2 (ps_power pkt)"

definition light_color_bytes :: "bool \<Rightarrow> lgtd_lifx_packet_light_color \<Rightarrow> bytes" where
  "light_color_bytes be pkt =
     [lc_stream pkt] @ mem_of be 2 (lc_hue pkt) @ mem_of be 2 (lc_saturation pkt)
     @ mem_of be 2 (lc_brightness pkt) @ mem_of be 2 (lc_kelvin pkt) @ mem_of be 4 (lc_transition pkt)"

definition waveform_bytes :: "bool \<Rightarrow> lgtd_lifx_packet_waveform \<Rightarrow> bytes" where
  "waveform_bytes be pkt =
     [wf_stream pkt] @ [wf_transient pkt] @ mem_of be 2 (wf_hue pkt) @ mem_of be 2 (wf_saturation pkt)
     @ mem_of be 2 (wf_brightness pkt) @ mem_of be 2 (wf_kelvin pkt) @ mem_of be 4 (wf_period pkt)
     @ mem_of be 4 (wf_cycles pkt) @ mem_of be 2 (wf_skew_ratio pkt) @ [wf_waveform pkt]"

definition tags_bytes :: "bool \<Rightarrow> lgtd_lifx_packet_tags \<Rightarrow> bytes" where
  "tags_bytes be pkt = mem_of be 8 (pt_tags pkt)"

definition label_bytes :: "lgtd_lifx_packet_label \<Rightarrow> bytes" where
  "label_bytes pkt = bytes_of_string (pl_label pkt)"

definition tag_labels_bytes :: "bool \<Rightarrow> lgtd_lifx_packet_tag_labels \<Rightarrow> bytes" where
  "tag_labels_bytes be pkt = mem_of be 8 (tl_tags pkt) @ bytes_of_string (tl_label pkt)"

text \<open>
  The images in memory of the payloads the daemon receives, as a bulb of the same byte order would
  lay them out.
\<close>

definition pan_gateway_bytes :: "bool \<Rightarrow> lgtd_lifx_packet_pan_gateway \<Rightarrow> bytes" where
  "pan_gateway_bytes be pkt = [pg_service_type pkt] @ mem_of be 4 (pg_port pkt)"

definition light_status_bytes :: "bool \<Rightarrow> lgtd_lifx_packet_light_status \<Rightarrow> bytes" where
  "light_status_bytes be pkt =
     mem_of be 2 (ls_hue pkt) @ mem_of be 2 (ls_saturation pkt) @ mem_of be 2 (ls_brightness pkt)
     @ mem_of be 2 (ls_kelvin pkt) @ mem_of be 2 (ls_dim pkt) @ mem_of be 2 (ls_power pkt)
     @ bytes_of_string (ls_label pkt) @ mem_of be 8 (ls_tags pkt)"

subsection \<open>Conversions between the wire and the host\<close>

definition lgtd_lifx_wire_htolefloat :: "bool \<Rightarrow> u32 \<Rightarrow> u32" where
  "lgtd_lifx_wire_htolefloat be f = htole32 be f"

definition lgtd_lifx_wire_lefloattoh :: "bool \<Rightarrow> u32 \<Rightarrow> u32" where
  "lgtd_lifx_wire_lefloattoh be f = le32toh be f"

definition lgtd_lifx_wire_encode_header ::
  "bool \<Rightarrow> lgtd_lifx_packet_header \<Rightarrow> u32 \<Rightarrow> lgtd_lifx_packet_header" where
  "lgtd_lifx_wire_encode_header be hdr flags =
     (let hdr = hdr\<lparr>hdr_size := htole16 be (hdr_size hdr)\<rparr>;
          hdr = hdr\<lparr>hdr_protocol := htole16 be LGTD_LIFX_PROTOCOL_V1\<rparr>;
          hdr = (if flags AND LGTD_LIFX_ADDRESSABLE \<noteq> 0
                 then hdr\<lparr>hdr_protocol := hdr_protocol hdr OR LGTD_LIFX_PROTOCOL_ADDRESSABLE be\<rparr>
                 else hdr);
          hdr = (if flags AND LGTD_LIFX_TAGGED \<noteq> 0
                 then hdr\<lparr>hdr_protocol := hdr_protocol hdr OR LGTD_LIFX_PROTOCOL_TAGGED be,
                          hdr_target := mem_of be 8 (htole64 be (hdr_target_tags be hdr))\<rparr>
                 else hdr);
          hdr = (if flags AND LGTD_LIFX_ACK_REQUIRED \<noteq> 0
                 then hdr\<lparr>hdr_flags := hdr_flags hdr OR LGTD_LIFX_FLAG_ACK_REQUIRED\<rparr>
                 else hdr);
          hdr = (if flags AND LGTD_LIFX_RES_REQUIRED \<noteq> 0
                 then hdr\<lparr>hdr_flags := hdr_flags hdr OR LGTD_LIFX_FLAG_RES_REQUIRED\<rparr>
                 else hdr)
      in hdr\<lparr>hdr_at_time := htole64 be (hdr_at_time hdr),
             hdr_packet_type := htole16 be (hdr_packet_type hdr),
             hdr_source := htole32 be (hdr_source hdr)\<rparr>)"

definition lgtd_lifx_wire_decode_header ::
  "bool \<Rightarrow> lgtd_lifx_packet_header \<Rightarrow> lgtd_lifx_packet_header" where
  "lgtd_lifx_wire_decode_header be hdr =
     (let hdr = hdr\<lparr>hdr_size := le16toh be (hdr_size hdr)\<rparr>;
          hdr = hdr\<lparr>hdr_protocol :=
                      le16toh be (hdr_protocol hdr AND LGTD_LIFX_PROTOCOL_VERSION_MASK be)
                      OR (hdr_protocol hdr AND LGTD_LIFX_PROTOCOL_FLAGS_MASK be)\<rparr>;
          hdr = (if hdr_protocol hdr AND LGTD_LIFX_PROTOCOL_TAGGED be \<noteq> 0
                 then hdr\<lparr>hdr_target := mem_of be 8 (le64toh be (hdr_target_tags be hdr))\<rparr>
                 else hdr)
      in hdr\<lparr>hdr_at_time := le64toh be (hdr_at_time hdr),
             hdr_packet_type := le16toh be (hdr_packet_type hdr),
             hdr_source := le32toh be (hdr_source hdr)\<rparr>)"

definition lgtd_lifx_wire_decode_pan_gateway ::
  "bool \<Rightarrow> lgtd_lifx_packet_pan_gateway \<Rightarrow> lgtd_lifx_packet_pan_gateway" where
  "lgtd_lifx_wire_decode_pan_gateway be pkt = pkt\<lparr>pg_port := le32toh be (pg_port pkt)\<rparr>"

definition lgtd_lifx_wire_encode_pan_gateway ::
  "bool \<Rightarrow> lgtd_lifx_packet_pan_gateway \<Rightarrow> lgtd_lifx_packet_pan_gateway" where
  "lgtd_lifx_wire_encode_pan_gateway be pkt = pkt\<lparr>pg_port := htole32 be (pg_port pkt)\<rparr>"

definition lgtd_lifx_wire_decode_light_status ::
  "bool \<Rightarrow> lgtd_lifx_packet_light_status \<Rightarrow> lgtd_lifx_packet_light_status" where
  "lgtd_lifx_wire_decode_light_status be pkt =
     pkt\<lparr>ls_hue := le16toh be (ls_hue pkt),
         ls_saturation := le16toh be (ls_saturation pkt),
         ls_brightness := le16toh be (ls_brightness pkt),
         ls_kelvin := le16toh be (ls_kelvin pkt),
         ls_dim := le16toh be (ls_dim pkt),
         ls_power := (if ls_power pkt \<noteq> LGTD_LIFX_POWER_ON then LGTD_LIFX_POWER_OFF else ls_power pkt),
         ls_tags := le64toh be (ls_tags pkt)\<rparr>"

definition lgtd_lifx_wire_decode_power_state ::
  "lgtd_lifx_packet_power_state \<Rightarrow> lgtd_lifx_packet_power_state" where
  "lgtd_lifx_wire_decode_power_state pkt =
     (if ps_power pkt \<noteq> LGTD_LIFX_POWER_ON then pkt\<lparr>ps_power := LGTD_LIFX_POWER_OFF\<rparr> else pkt)"

definition lgtd_lifx_wire_encode_light_color ::
  "bool \<Rightarrow> lgtd_lifx_packet_light_color \<Rightarrow> lgtd_lifx_packet_light_color" where
  "lgtd_lifx_wire_encode_light_color be pkt =
     pkt\<lparr>lc_hue := htole16 be (lc_hue pkt),
         lc_saturation := htole16 be (lc_saturation pkt),
         lc_brightness := htole16 be (lc_brightness pkt),
         lc_kelvin := htole16 be (lc_kelvin pkt),
         lc_transition := htole32 be (lc_transition pkt)\<rparr>"

definition lgtd_lifx_wire_encode_waveform ::
  "bool \<Rightarrow> lgtd_lifx_packet_waveform \<Rightarrow> lgtd_lifx_packet_waveform" where
  "lgtd_lifx_wire_encode_waveform be pkt =
     pkt\<lparr>wf_hue := htole16 be (wf_hue pkt),
         wf_saturation := htole16 be (wf_saturation pkt),
         wf_brightness := htole16 be (wf_brightness pkt),
         wf_kelvin := htole16 be (wf_kelvin pkt),
         wf_period := htole32 be (wf_period pkt),
         wf_cycles := lgtd_lifx_wire_htolefloat be (wf_cycles pkt),
         wf_skew_ratio := htole16 be (wf_skew_ratio pkt)\<rparr>"

definition lgtd_lifx_wire_encode_tag_labels ::
  "bool \<Rightarrow> lgtd_lifx_packet_tag_labels \<Rightarrow> lgtd_lifx_packet_tag_labels" where
  "lgtd_lifx_wire_encode_tag_labels be pkt = pkt\<lparr>tl_tags := htole64 be (tl_tags pkt)\<rparr>"

definition lgtd_lifx_wire_decode_tag_labels ::
  "bool \<Rightarrow> lgtd_lifx_packet_tag_labels \<Rightarrow> lgtd_lifx_packet_tag_labels" where
  "lgtd_lifx_wire_decode_tag_labels be pkt =
     pkt\<lparr>tl_label := (tl_label pkt)[LGTD_LIFX_LABEL_SIZE - 1 := CHR 0x00],
         tl_tags := le64toh be (tl_tags pkt)\<rparr>"

definition lgtd_lifx_wire_encode_tags ::
  "bool \<Rightarrow> lgtd_lifx_packet_tags \<Rightarrow> lgtd_lifx_packet_tags" where
  "lgtd_lifx_wire_encode_tags be pkt = pkt\<lparr>pt_tags := htole64 be (pt_tags pkt)\<rparr>"

definition lgtd_lifx_wire_decode_tags ::
  "bool \<Rightarrow> lgtd_lifx_packet_tags \<Rightarrow> lgtd_lifx_packet_tags" where
  "lgtd_lifx_wire_decode_tags be pkt = pkt\<lparr>pt_tags := le64toh be (pt_tags pkt)\<rparr>"

definition lgtd_lifx_wire_decode_ip_state ::
  "bool \<Rightarrow> lgtd_lifx_packet_ip_state \<Rightarrow> lgtd_lifx_packet_ip_state" where
  "lgtd_lifx_wire_decode_ip_state be pkt =
     pkt\<lparr>is_signal_strength := lgtd_lifx_wire_lefloattoh be (is_signal_strength pkt),
         is_tx_bytes := le32toh be (is_tx_bytes pkt),
         is_rx_bytes := le32toh be (is_rx_bytes pkt),
         is_temperature := le16toh be (is_temperature pkt)\<rparr>"

definition lgtd_lifx_wire_decode_ip_firmware_info ::
  "bool \<Rightarrow> lgtd_lifx_packet_ip_firmware_info \<Rightarrow> lgtd_lifx_packet_ip_firmware_info" where
  "lgtd_lifx_wire_decode_ip_firmware_info be pkt =
     pkt\<lparr>fw_built_at := le64toh be (fw_built_at pkt),
         fw_installed_at := le64toh be (fw_installed_at pkt),
         fw_version := le32toh be (fw_version pkt)\<rparr>"

definition lgtd_lifx_wire_decode_product_info ::
  "bool \<Rightarrow> lgtd_lifx_packet_product_info \<Rightarrow> lgtd_lifx_packet_product_info" where
  "lgtd_lifx_wire_decode_product_info be pkt =
     pkt\<lparr>pr_vendor_id := le32toh be (pr_vendor_id pkt),
         pr_product_id := le32toh be (pr_product_id pkt),
         pr_version := le32toh be (pr_version pkt)\<rparr>"

definition lgtd_lifx_wire_decode_runtime_info ::
  "bool \<Rightarrow> lgtd_lifx_packet_runtime_info \<Rightarrow> lgtd_lifx_packet_runtime_info" where
  "lgtd_lifx_wire_decode_runtime_info be pkt =
     pkt\<lparr>ri_time := le64toh be (ri_time pkt),
         ri_uptime := le64toh be (ri_uptime pkt),
         ri_downtime := le64toh be (ri_downtime pkt)\<rparr>"

definition lgtd_lifx_wire_decode_ambient_light ::
  "bool \<Rightarrow> lgtd_lifx_packet_ambient_light \<Rightarrow> lgtd_lifx_packet_ambient_light" where
  "lgtd_lifx_wire_decode_ambient_light be pkt =
     pkt\<lparr>al_illuminance := lgtd_lifx_wire_lefloattoh be (al_illuminance pkt)\<rparr>"

end
