(* ===== verification/Wire_Bits.thy ===== *)
theory Wire_Bits
  imports Lightsd_Prelude
begin

text \<open>
  Tag sets of the LIFX protocol: a 64-bit word whose bit \<open>i\<close> stands for tag id
  \<open>i\<close> (\<open>lifx/wire_proto.h\<close>). The bit scan uses a De Bruijn multiplication and a
  table (\<open>lifx/wire_proto.c\<close>); the loop macro \<open>LGTD_LIFX_WIRE_FOREACH_TAG_ID\<close>
  walks the set bits. The lemmas show that the scan returns the lowest set bit and that
  the macro visits exactly the set bits, in increasing order, and stops.
\<close>

unbundle bit_operations_syntax

subsection \<open>Definitions\<close>

definition LGTD_LIFX_DEBRUIJN_SEQUENCE :: "int list" where
  "LGTD_LIFX_DEBRUIJN_SEQUENCE = [
    0, 47,  1, 56, 48, 27,  2, 60,
   57, 49, 41, 37, 28, 16,  3, 61,
   54, 58, 35, 52, 50, 42, 21, 44,
   38, 32, 29, 23, 17, 11,  4, 62,
   46, 55, 26, 59, 40, 36, 15, 53,
   34, 51, 20, 43, 31, 22, 10, 45,
   25, 39, 14, 33, 19, 30,  9, 24,
   13, 18,  8, 12,  7,  6,  5, 63]"

definition LGTD_LIFX_DEBRUIJN_NUMBER :: u64 where
  "LGTD_LIFX_DEBRUIJN_NUMBER = 0x03f79d71b4cb0a89"

definition lgtd_lifx_wire_bitscan64_forward :: "u64 \<Rightarrow> int" where
  "lgtd_lifx_wire_bitscan64_forward n =
     (if n \<noteq> 0
      then LGTD_LIFX_DEBRUIJN_SEQUENCE !
             unat (drop_bit 58 ((n XOR (n - 1)) * LGTD_LIFX_DEBRUIJN_NUMBER))
      else -1)"

definition LGTD_LIFX_WIRE_TAG_ID_TO_VALUE :: "nat \<Rightarrow> u64" where
  "LGTD_LIFX_WIRE_TAG_ID_TO_VALUE x = push_bit x 1"

text \<open>\<open>~0ULL << (current_tag_id + 1)\<close> keeps the bits above the current id.\<close>

definition lgtd_lifx_wire_next_tag_id :: "int \<Rightarrow> u64 \<Rightarrow> int" where
  "lgtd_lifx_wire_next_tag_id current_tag_id tags =
     (if current_tag_id < 63
      then lgtd_lifx_wire_bitscan64_forward (tags AND push_bit (nat (current_tag_id + 1)) (NOT 0))
      else -1)"

text \<open>The set bits of a tag set in increasing order: what the scan and the loop compute.\<close>

definition tag_ids_of :: "u64 \<Rightarrow> nat list" where
  "tag_ids_of tags = filter (bit tags) [0..<64]"

subsection \<open>The bit scan\<close>

lemma bit_u64_less: "bit (n :: u64) k \<Longrightarrow> k < 64"
  using bit_imp_le_length [of n k] by simp

lemma xor_pred_eq_mask:
  fixes n :: u64
  assumes k: "bit n k" and low: "\<And>j. j < k \<Longrightarrow> \<not> bit n j"
  shows "n XOR (n - 1) = mask (Suc k)"
proof -
  let ?h = "n AND NOT (mask (Suc k))"
  have n: "n = ?h OR 2 ^ k"
  proof (rule bit_word_eqI)
    fix i assume "i < LENGTH(64)"
    then show "bit n i = bit (?h OR 2 ^ k) i"
      using k low [of i] by (cases "i < k") (auto simp: bit_simps not_less less_Suc_eq)
  qed
  have d1: "?h AND 2 ^ k = 0" and d2: "?h AND mask k = 0"
    by (rule bit_word_eqI, auto simp: bit_simps)+
  have "n = ?h + 2 ^ k" using n d1 disjunctive_add_eq_or by metis
  then have "n - 1 = ?h + mask k" by (simp add: mask_eq_exp_minus_1 algebra_simps)
  then have m: "n - 1 = ?h OR mask k" using d2 disjunctive_add_eq_or by metis
  show ?thesis
  proof (rule bit_word_eqI)
    fix i assume "i < LENGTH(64)"
    then show "bit (n XOR (n - 1)) i = bit (mask (Suc k) :: u64) i"
      using k low [of i] unfolding bit_xor_iff m by (auto simp: bit_simps not_less less_Suc_eq)
  qed
qed

lemma debruijn_table:
  "list_all (\<lambda>k. LGTD_LIFX_DEBRUIJN_SEQUENCE !
      unat (drop_bit 58 (mask (Suc k) * LGTD_LIFX_DEBRUIJN_NUMBER)) = int k) [0..<64]"
  by code_simp

lemma bitscan_lowest:
  assumes "bit n k" and "\<And>j. j < k \<Longrightarrow> \<not> bit n j"
  shows "lgtd_lifx_wire_bitscan64_forward n = int k"
proof -
  have "n \<noteq> 0" using assms(1) by auto
  moreover have "k \<in> set [0..<64]" using bit_u64_less [OF assms(1)] by simp
  ultimately show ?thesis
    using debruijn_table xor_pred_eq_mask [OF assms]
    by (simp add: lgtd_lifx_wire_bitscan64_forward_def list_all_iff del: set_upt)
qed

lemma filter_upt_Cons:
  assumes "filter P [a..<b] = k # ks"
  shows "P k" and "a \<le> k" and "k < b" and "\<And>j. a \<le> j \<Longrightarrow> j < k \<Longrightarrow> \<not> P j"
    and "ks = filter P [Suc k..<b]"
proof -
  have k: "k \<in> set (filter P [a..<b])" using assms by simp
  then show 1: "P k" "a \<le> k" "k < b" by auto
  have "sorted (k # ks)" by (metis assms sorted_upt sorted_wrt_filter)
  moreover have "distinct (k # ks)" by (metis assms distinct_filter distinct_upt)
  ultimately have gt: "\<And>j. j \<in> set ks \<Longrightarrow> k < j" by (auto simp: order_less_le)
  show none: "\<not> P j" if "a \<le> j" "j < k" for j
  proof
    assume "P j"
    then have "j \<in> set (filter P [a..<b])" using that 1 by simp
    then have "j \<in> set (k # ks)" using assms by simp
    then show False using gt that(2) by force
  qed
  have "[a..<b] = [a..<k] @ k # [Suc k..<b]"
    using 1 by (metis le_add_diff_inverse nat_less_le upt_add_eq_append upt_conv_Cons)
  moreover have "filter P [a..<k] = []" using none by (auto simp: filter_empty_conv)
  ultimately show "ks = filter P [Suc k..<b]" using assms 1 by simp
qed

lemma tag_ids_of_iff: "k \<in> set (tag_ids_of tags) \<longleftrightarrow> bit tags k"
  using bit_u64_less by (auto simp: tag_ids_of_def)

lemma distinct_tag_ids_of [simp]: "distinct (tag_ids_of tags)"
  by (simp add: tag_ids_of_def)

lemma tag_ids_of_0 [simp]: "tag_ids_of 0 = []"
  by (simp add: tag_ids_of_def)

lemma tag_ids_of_Nil: "tag_ids_of n = [] \<longleftrightarrow> n = 0"
proof
  assume "tag_ids_of n = []"
  then have "\<not> bit n k" for k using tag_ids_of_iff [of k n] by simp
  then show "n = 0" by (simp add: bit_eq_iff)
qed simp

lemma bitscan_eq:
  "lgtd_lifx_wire_bitscan64_forward n =
     (case tag_ids_of n of [] \<Rightarrow> -1 | k # _ \<Rightarrow> int k)"
proof (cases "tag_ids_of n")
  case Nil
  then show ?thesis by (simp add: tag_ids_of_Nil lgtd_lifx_wire_bitscan64_forward_def)
next
  case (Cons k ks)
  note f = filter_upt_Cons [OF Cons [unfolded tag_ids_of_def]]
  have "lgtd_lifx_wire_bitscan64_forward n = int k"
    by (rule bitscan_lowest) (use f in auto)
  with Cons show ?thesis by simp
qed

lemma bit_TAG_ID_TO_VALUE [simp]:
  "bit (LGTD_LIFX_WIRE_TAG_ID_TO_VALUE x) k \<longleftrightarrow> k = x \<and> x < 64"
  by (auto simp: LGTD_LIFX_WIRE_TAG_ID_TO_VALUE_def bit_simps)

lemma and_TAG_ID_TO_VALUE:
  "tags AND LGTD_LIFX_WIRE_TAG_ID_TO_VALUE x \<noteq> 0 \<longleftrightarrow> bit tags x"
proof -
  have "bit (tags AND LGTD_LIFX_WIRE_TAG_ID_TO_VALUE x) k \<longleftrightarrow> k = x \<and> bit tags x" for k
    using bit_u64_less [of tags x] by (auto simp: bit_and_iff)
  note b = this
  show ?thesis
  proof (cases "bit tags x")
    case True
    with b [of x] show ?thesis by auto
  next
    case False
    then have "tags AND LGTD_LIFX_WIRE_TAG_ID_TO_VALUE x = 0"
      by (intro bit_word_eqI) (simp only: b, simp)
    with False show ?thesis by simp
  qed
qed

subsection \<open>The loop over the tag ids\<close>

lemma tag_ids_of_above:
  "tag_ids_of (tags AND NOT (mask m)) = filter (bit tags) [m..<64]"
proof -
  have "filter (bit (tags AND NOT (mask m))) [0..<64] = filter (\<lambda>k. bit tags k \<and> m \<le> k) [0..<64]"
    by (rule filter_cong) (auto simp: bit_simps)
  also have "\<dots> = filter (bit tags) (filter (\<lambda>k. m \<le> k) [0..<64])" by (simp add: conj_commute)
  also have "filter (\<lambda>k. m \<le> k) [0..<64] = [m..<64]"
    by (rule sorted_distinct_set_unique) (auto simp: sorted_wrt_filter)
  finally show ?thesis by (simp add: tag_ids_of_def)
qed

lemma next_tag_id_eq:
  assumes "-1 \<le> c"
  shows "lgtd_lifx_wire_next_tag_id c tags =
     (case filter (bit tags) [nat (c + 1)..<64] of [] \<Rightarrow> -1 | k # _ \<Rightarrow> int k)"
proof (cases "c < 63")
  case True
  then show ?thesis by (simp add: lgtd_lifx_wire_next_tag_id_def bitscan_eq tag_ids_of_above)
next
  case False
  then show ?thesis by (simp add: lgtd_lifx_wire_next_tag_id_def)
qed

lemma next_tag_id_gt:
  "lgtd_lifx_wire_next_tag_id c tags = -1 \<or>
   c < lgtd_lifx_wire_next_tag_id c tags \<and> lgtd_lifx_wire_next_tag_id c tags < 64"
proof (cases "-1 \<le> c")
  case True
  show ?thesis
  proof (cases "filter (bit tags) [nat (c + 1)..<64]")
    case Nil
    with True show ?thesis by (simp add: next_tag_id_eq)
  next
    case (Cons k ks)
    then have "k \<in> set (filter (bit tags) [nat (c + 1)..<64])" by simp
    then have "nat (c + 1) \<le> k" "k < 64" by simp_all
    with True Cons show ?thesis by (simp add: next_tag_id_eq)
  qed
next
  case False
  then have "lgtd_lifx_wire_next_tag_id c tags = (case tag_ids_of tags of [] \<Rightarrow> -1 | k # _ \<Rightarrow> int k)"
    by (simp add: lgtd_lifx_wire_next_tag_id_def bitscan_eq)
  moreover have "k < 64" if "tag_ids_of tags = k # ks" for k ks
    using that tag_ids_of_iff [of k tags] bit_u64_less by simp
  ultimately show ?thesis using False by (auto split: list.split)
qed

text \<open>
  \<open>for (id = next(-1, tags); id != -1; id = next(id, tags)) body\<close>, where the body
  may fault. The loop is not structural: it stops because the next id is greater than the
  current one or \<open>-1\<close>.
\<close>

function foreach_tag_id_from ::
    "(nat \<Rightarrow> 's \<Rightarrow> 's option) \<Rightarrow> u64 \<Rightarrow> int \<Rightarrow> 's \<Rightarrow> 's option" where
  "foreach_tag_id_from body tags tag_id s =
     (if tag_id = -1 then Some s
      else Option.bind (body (nat tag_id) s)
             (foreach_tag_id_from body tags (lgtd_lifx_wire_next_tag_id tag_id tags)))"
  by pat_completeness auto
termination
proof (relation "measure (\<lambda>(body, tags, tag_id, s). if tag_id = -1 then 0 else Suc (nat (64 - tag_id)))")
  fix body :: "nat \<Rightarrow> 's \<Rightarrow> 's option" and tags :: u64 and tag_id :: int and s x :: 's
  assume "tag_id \<noteq> -1"
  then show "((body, tags, lgtd_lifx_wire_next_tag_id tag_id tags, x), body, tags, tag_id, s)
    \<in> measure (\<lambda>(body, tags, tag_id, s). if tag_id = -1 then 0 else Suc (nat (64 - tag_id)))"
    using next_tag_id_gt [of tag_id tags] by auto
qed simp

declare foreach_tag_id_from.simps [simp del]

definition LGTD_LIFX_WIRE_FOREACH_TAG_ID ::
    "(nat \<Rightarrow> 's \<Rightarrow> 's option) \<Rightarrow> u64 \<Rightarrow> 's \<Rightarrow> 's option" where
  "LGTD_LIFX_WIRE_FOREACH_TAG_ID body tags =
     foreach_tag_id_from body tags (lgtd_lifx_wire_next_tag_id (-1) tags)"

lemma foreach_tag_id_from_eq:
  "-1 \<le> c \<Longrightarrow> foreach_tag_id_from body tags (lgtd_lifx_wire_next_tag_id c tags) s =
     foreach body (filter (bit tags) [nat (c + 1)..<64]) s"
proof (induction "filter (bit tags) [nat (c + 1)..<64]" arbitrary: c s)
  case Nil
  then show ?case by (simp add: next_tag_id_eq foreach_tag_id_from.simps)
next
  case (Cons k ks)
  note f = filter_upt_Cons [OF Cons.hyps(2) [symmetric]]
  have "ks = filter (bit tags) [nat (int k + 1)..<64]" using f(5) by (simp add: nat_add_distrib)
  then have "foreach_tag_id_from body tags (lgtd_lifx_wire_next_tag_id (int k) tags) =
      foreach body ks" using Cons.hyps(1) [of "int k"] by auto
  moreover have "lgtd_lifx_wire_next_tag_id c tags = int k"
    using Cons.prems Cons.hyps(2) [symmetric] by (simp add: next_tag_id_eq)
  ultimately show ?case
    using Cons.hyps(2) [symmetric] by (simp add: foreach_tag_id_from.simps [of _ _ "int k"])
qed

lemma foreach_tag_id_eq:
  "LGTD_LIFX_WIRE_FOREACH_TAG_ID body tags s = foreach body (tag_ids_of tags) s"
  by (simp add: LGTD_LIFX_WIRE_FOREACH_TAG_ID_def foreach_tag_id_from_eq tag_ids_of_def)

subsection \<open>Properties\<close>

text \<open>
  C27: The De Bruijn bit scan returns \<open>-1\<close> for the empty tag set and the index of the lowest
  set bit otherwise, for every 64 bit value.
\<close>

theorem bitscan64_forward_lowest_bit:
  "lgtd_lifx_wire_bitscan64_forward n = (if n = 0 then -1 else int (LEAST k. bit n k))"
proof (cases "tag_ids_of n")
  case Nil
  then show ?thesis using bitscan_eq [of n] by (simp add: tag_ids_of_Nil)
next
  case (Cons k ks)
  note f = filter_upt_Cons [OF Cons [unfolded tag_ids_of_def]]
  have "(LEAST k. bit n k) = k"
    using f(1,4) by (intro Least_equality) (auto simp: not_less [symmetric])
  moreover have "n \<noteq> 0" using Cons by auto
  ultimately show ?thesis using Cons bitscan_eq [of n] by simp
qed

text \<open>
  C28: The loop macro \<open>LGTD_LIFX_WIRE_FOREACH_TAG_ID\<close> ends and runs its body once for each set bit of
  the tag set, bit 63 included, in increasing order, for every body (which may fault).
\<close>

theorem foreach_tag_id_visits_set_bits:
  "LGTD_LIFX_WIRE_FOREACH_TAG_ID body tags s = foreach body (filter (bit tags) [0..<64]) s"
  using foreach_tag_id_eq [of body tags s] by (simp add: tag_ids_of_def)

end
