(* ===== verification/Rb_Table.thy ===== *)
theory Rb_Table
  imports Lightsd_Prelude
begin

text \<open>
  The red-black trees of \<open>sys/tree.h\<close> as their users see them: the elements of a tree in key order
  (the order of \<open>RB_FOREACH\<close>). \<open>RB_INSERT\<close> leaves the tree as it is when an
  element with the same key is already there. The locale \<open>ordered_table\<close> is the interface
  the daemon relies on; the packet table and the table of bulbs are its instances.
\<close>

fun rb_insert :: "('a \<Rightarrow> 'k::linorder) \<Rightarrow> 'a \<Rightarrow> 'a list \<Rightarrow> 'a list" where
  "rb_insert key x [] = [x]"
| "rb_insert key x (y # ys) =
     (if key x < key y then x # y # ys
      else if key x = key y then y # ys
      else y # rb_insert key x ys)"

definition rb_find :: "('a \<Rightarrow> 'k) \<Rightarrow> 'k \<Rightarrow> 'a list \<Rightarrow> 'a option" where
  "rb_find key k xs = List.find (\<lambda>x. key x = k) xs"

definition rb_remove :: "('a \<Rightarrow> 'k) \<Rightarrow> 'k \<Rightarrow> 'a list \<Rightarrow> 'a list" where
  "rb_remove key k xs = filter (\<lambda>x. key x \<noteq> k) xs"

definition rb_inv :: "('a \<Rightarrow> 'k::linorder) \<Rightarrow> 'a list \<Rightarrow> bool" where
  "rb_inv key xs \<longleftrightarrow> sorted_wrt (<) (map key xs)"

locale ordered_table =
  fixes key :: "'a \<Rightarrow> 'k::linorder"
    and tempty :: 't
    and tinsert :: "'a \<Rightarrow> 't \<Rightarrow> 't"
    and tfind :: "'k \<Rightarrow> 't \<Rightarrow> 'a option"
    and tremove :: "'k \<Rightarrow> 't \<Rightarrow> 't"
    and inorder :: "'t \<Rightarrow> 'a list"
    and inv :: "'t \<Rightarrow> bool"
  assumes inv_empty: "inv tempty"
    and inv_insert: "inv t \<Longrightarrow> inv (tinsert x t)"
    and inv_remove: "inv t \<Longrightarrow> inv (tremove k t)"
    and inorder_sorted: "inv t \<Longrightarrow> sorted_wrt (<) (map key (inorder t))"
    and find_inorder: "inv t \<Longrightarrow> tfind k t = List.find (\<lambda>x. key x = k) (inorder t)"
    and find_empty: "tfind k tempty = None"
    and find_insert: "inv t \<Longrightarrow> tfind k (tinsert x t) =
          (case tfind k t of Some y \<Rightarrow> Some y | None \<Rightarrow> if key x = k then Some x else None)"
    and find_remove: "inv t \<Longrightarrow> tfind k (tremove k' t) = (if k = k' then None else tfind k t)"
begin

text \<open>Loading a table: the first element of each key wins.\<close>

lemma inv_load: "inv t \<Longrightarrow> inv (fold tinsert xs t)"
  by (induction xs arbitrary: t) (auto intro: inv_insert)

lemma find_load:
  "inv t \<Longrightarrow> tfind k (fold tinsert xs t) =
     (case tfind k t of Some y \<Rightarrow> Some y | None \<Rightarrow> List.find (\<lambda>x. key x = k) xs)"
  by (induction xs arbitrary: t) (auto simp: inv_insert find_insert split: option.splits)

lemma find_load_empty: "tfind k (fold tinsert xs tempty) = List.find (\<lambda>x. key x = k) xs"
  by (simp add: find_load inv_empty find_empty)

lemma distinct_keys: "inv t \<Longrightarrow> distinct (map key (inorder t))"
  using inorder_sorted strict_sorted_iff by blast

lemma find_key: "inv t \<Longrightarrow> tfind k t = Some x \<Longrightarrow> key x = k \<and> x \<in> set (inorder t)"
  by (auto simp: find_inorder find_Some_iff)

end

lemma find_append: "List.find P (xs @ ys) = (case List.find P xs of None \<Rightarrow> List.find P ys | r \<Rightarrow> r)"
  by (induction xs) auto

lemma set_rb_insert: "set (rb_insert key x xs) \<subseteq> insert x (set xs)"
  by (induction xs) auto

lemma set_rb_insert_new: "key x \<notin> key ` set xs \<Longrightarrow> set (rb_insert key x xs) = insert x (set xs)"
  by (induction xs) auto

lemma rb_inv_insert: "rb_inv key xs \<Longrightarrow> rb_inv key (rb_insert key x xs)"
  unfolding rb_inv_def
proof (induction xs)
  case (Cons y ys)
  then show ?case using set_rb_insert [of key x ys] by auto
qed simp

lemma rb_inv_remove: "rb_inv key xs \<Longrightarrow> rb_inv key (rb_remove key k xs)"
  by (induction xs) (auto simp: rb_inv_def rb_remove_def)

lemma rb_find_below: "\<forall>y\<in>set ys. (k :: 'k::linorder) < key y \<Longrightarrow> rb_find key k ys = None"
  by (force simp: rb_find_def find_None_iff)

lemma rb_find_insert:
  "rb_inv key xs \<Longrightarrow> rb_find key k (rb_insert key x xs) =
     (case rb_find key k xs of Some y \<Rightarrow> Some y | None \<Rightarrow> if key x = k then Some x else None)"
proof (induction xs)
  case (Cons y ys)
  have below: "rb_find key k ys = None" if "k < key y"
    by (rule rb_find_below) (use Cons.prems that in \<open>auto simp: rb_inv_def dest: less_trans\<close>)
  have "rb_inv key ys" using Cons.prems by (simp add: rb_inv_def)
  with Cons.IH below show ?case
    by (auto simp: rb_find_def split: option.splits)
qed (simp add: rb_find_def)

lemma rb_find_remove: "rb_find key k (rb_remove key k' xs) = (if k = k' then None else rb_find key k xs)"
  by (induction xs) (auto simp: rb_find_def rb_remove_def)

lemma ordered_table_rb: "ordered_table key [] (rb_insert key) (rb_find key) (rb_remove key) id (rb_inv key)"
  by unfold_locales
    (auto simp: rb_inv_insert rb_inv_remove rb_find_insert rb_find_remove, auto simp: rb_inv_def rb_find_def)

text \<open>A table of pairs is an association list.\<close>

lemma rb_find_fst: "map_option snd (rb_find fst k xs) = map_of xs k"
  by (induction xs) (auto simp: rb_find_def)

lemma rb_remove_fst: "rb_remove fst k xs = adel k xs"
  by (induction xs) (auto simp: rb_remove_def)

lemma map_of_rb_insert:
  "fst x \<notin> fst ` set xs \<Longrightarrow> map_of (rb_insert fst x xs) = (map_of xs)(fst x \<mapsto> snd x)"
  by (induction xs) (auto simp: fun_eq_iff)

end
