(* ===== verification/Wire_Packets.thy ===== *)
theory Wire_Packets
  imports Wire_Proto Wire_Bits Rb_Table
begin

text \<open>
  The packets the daemon knows (\<open>lgtd_lifx_wire_load_packet_info_map\<close> in
  \<open>src/lifx/wire_proto.c\<close>), the setup of a packet header and the payloads. The
  function pointers of \<open>struct lgtd_lifx_packet_info\<close> are the constructors of \<open>lgtd_lifx_decoder\<close>,
  \<open>lgtd_lifx_encoder\<close> and \<open>lgtd_lifx_handler\<close>; \<open>decode_payload\<close> below and the dispatch of the
  gateway call the function a constructor stands for.
\<close>

unbundle bit_operations_syntax

subsection \<open>The packet table\<close>

datatype lgtd_lifx_decoder =
    Decode_ambient_light
  | Decode_ip_firmware_info
  | Decode_ip_state
  | Decode_light_status
  | Decode_null
  | Decode_pan_gateway
  | Decode_power_state
  | Decode_product_info
  | Decode_runtime_info
  | Decode_tag_labels
  | Decode_tags

datatype lgtd_lifx_encoder =
    Encode_light_color
  | Encode_null
  | Encode_pan_gateway
  | Encode_tag_labels
  | Encode_tags
  | Encode_waveform

datatype lgtd_lifx_handler =
    Handle_ambient_light
  | Handle_bulb_label
  | Handle_enosys
  | Handle_ip_firmware_info
  | Handle_ip_state
  | Handle_light_status
  | Handle_null
  | Handle_pan_gateway
  | Handle_power_state
  | Handle_product_info
  | Handle_runtime_info
  | Handle_tag_labels
  | Handle_tags

record lgtd_lifx_packet_info =
  pi_name :: string
  pi_type :: u16
  pi_size :: nat
  pi_decode :: lgtd_lifx_decoder
  pi_encode :: lgtd_lifx_encoder
  pi_handle :: lgtd_lifx_handler

text \<open>The sizes of the packed structs.\<close>

abbreviation sizeof_ambient_light :: nat where "sizeof_ambient_light \<equiv> 4"
abbreviation sizeof_ip_firmware_info :: nat where "sizeof_ip_firmware_info \<equiv> 20"
abbreviation sizeof_ip_state :: nat where "sizeof_ip_state \<equiv> 14"
abbreviation sizeof_label :: nat where "sizeof_label \<equiv> 32"
abbreviation sizeof_light_color :: nat where "sizeof_light_color \<equiv> 13"
abbreviation sizeof_light_status :: nat where "sizeof_light_status \<equiv> 52"
abbreviation sizeof_pan_gateway :: nat where "sizeof_pan_gateway \<equiv> 5"
abbreviation sizeof_power_state :: nat where "sizeof_power_state \<equiv> 2"
abbreviation sizeof_product_info :: nat where "sizeof_product_info \<equiv> 12"
abbreviation sizeof_runtime_info :: nat where "sizeof_runtime_info \<equiv> 24"
abbreviation sizeof_tag_labels :: nat where "sizeof_tag_labels \<equiv> 40"
abbreviation sizeof_tags :: nat where "sizeof_tags \<equiv> 8"
abbreviation sizeof_waveform :: nat where "sizeof_waveform \<equiv> 21"

text \<open>The \<open>UNIMPLEMENTED\<close> macro: no payload, and a handler that only logs.\<close>

definition UNIMPLEMENTED :: "string \<Rightarrow> u16 \<Rightarrow> lgtd_lifx_packet_info" where
  "UNIMPLEMENTED name type =
     \<lparr>pi_name = name, pi_type = type, pi_size = 0,
      pi_decode = Decode_null, pi_encode = Encode_null, pi_handle = Handle_enosys\<rparr>"

definition packet_table_gateway :: "lgtd_lifx_packet_info list" where
  "packet_table_gateway = [
    \<lparr>pi_name = ''GET_PAN_GATEWAY'', pi_type = LGTD_LIFX_GET_PAN_GATEWAY, pi_size = 0,
     pi_decode = Decode_null, pi_encode = Encode_null, pi_handle = Handle_null\<rparr>,
    \<lparr>pi_name = ''PAN_GATEWAY'', pi_type = LGTD_LIFX_PAN_GATEWAY, pi_size = sizeof_pan_gateway,
     pi_decode = Decode_pan_gateway, pi_encode = Encode_pan_gateway, pi_handle = Handle_pan_gateway\<rparr>,
    \<lparr>pi_name = ''SET_TAG_LABELS'', pi_type = LGTD_LIFX_SET_TAG_LABELS, pi_size = sizeof_tag_labels,
     pi_decode = Decode_null, pi_encode = Encode_tag_labels, pi_handle = Handle_null\<rparr>,
    \<lparr>pi_name = ''GET_TAG_LABELS'', pi_type = LGTD_LIFX_GET_TAG_LABELS, pi_size = sizeof_tags,
     pi_decode = Decode_null, pi_encode = Encode_tags, pi_handle = Handle_null\<rparr>,
    \<lparr>pi_name = ''TAG_LABELS'', pi_type = LGTD_LIFX_TAG_LABELS, pi_size = sizeof_tag_labels,
     pi_decode = Decode_tag_labels, pi_encode = Encode_null, pi_handle = Handle_tag_labels\<rparr>]"

definition packet_table_bulb_1 :: "lgtd_lifx_packet_info list" where
  "packet_table_bulb_1 = [
    \<lparr>pi_name = ''SET_LIGHT_COLOR'', pi_type = LGTD_LIFX_SET_LIGHT_COLOR, pi_size = sizeof_light_color,
     pi_decode = Decode_null, pi_encode = Encode_light_color, pi_handle = Handle_null\<rparr>,
    \<lparr>pi_name = ''SET_WAVEFORM'', pi_type = LGTD_LIFX_SET_WAVEFORM, pi_size = sizeof_waveform,
     pi_decode = Decode_null, pi_encode = Encode_waveform, pi_handle = Handle_null\<rparr>,
    \<lparr>pi_name = ''GET_LIGHT_STATUS'', pi_type = LGTD_LIFX_GET_LIGHT_STATE, pi_size = 0,
     pi_decode = Decode_null, pi_encode = Encode_null, pi_handle = Handle_null\<rparr>,
    \<lparr>pi_name = ''LIGHT_STATUS'', pi_type = LGTD_LIFX_LIGHT_STATUS, pi_size = sizeof_light_status,
     pi_decode = Decode_light_status, pi_encode = Encode_null, pi_handle = Handle_light_status\<rparr>,
    \<lparr>pi_name = ''SET_POWER_STATE'', pi_type = LGTD_LIFX_SET_POWER_STATE, pi_size = sizeof_power_state,
     pi_decode = Decode_null, pi_encode = Encode_null, pi_handle = Handle_null\<rparr>,
    \<lparr>pi_name = ''POWER_STATE'', pi_type = LGTD_LIFX_POWER_STATE, pi_size = sizeof_power_state,
     pi_decode = Decode_power_state, pi_encode = Encode_null, pi_handle = Handle_power_state\<rparr>,
    \<lparr>pi_name = ''SET_TAGS'', pi_type = LGTD_LIFX_SET_TAGS, pi_size = sizeof_tags,
     pi_decode = Decode_null, pi_encode = Encode_tags, pi_handle = Handle_null\<rparr>,
    \<lparr>pi_name = ''TAGS'', pi_type = LGTD_LIFX_TAGS, pi_size = sizeof_tags,
     pi_decode = Decode_tags, pi_encode = Encode_null, pi_handle = Handle_tags\<rparr>,
    \<lparr>pi_name = ''GET_MESH_INFO'', pi_type = LGTD_LIFX_GET_MESH_INFO, pi_size = 0,
     pi_decode = Decode_null, pi_encode = Encode_null, pi_handle = Handle_null\<rparr>,
    \<lparr>pi_name = ''MESH_INFO'', pi_type = LGTD_LIFX_MESH_INFO, pi_size = sizeof_ip_state,
     pi_decode = Decode_ip_state, pi_encode = Encode_null, pi_handle = Handle_ip_state\<rparr>,
    \<lparr>pi_name = ''GET_MESH_FIRMWARE'', pi_type = LGTD_LIFX_GET_MESH_FIRMWARE, pi_size = 0,
     pi_decode = Decode_null, pi_encode = Encode_null, pi_handle = Handle_null\<rparr>,
    \<lparr>pi_name = ''MESH_FIRMWARE'', pi_type = LGTD_LIFX_MESH_FIRMWARE, pi_size = sizeof_ip_firmware_info,
     pi_decode = Decode_ip_firmware_info, pi_encode = Encode_null, pi_handle = Handle_ip_firmware_info\<rparr>]"

definition packet_table_bulb_2 :: "lgtd_lifx_packet_info list" where
  "packet_table_bulb_2 = [
    \<lparr>pi_name = ''GET_WIFI_INFO'', pi_type = LGTD_LIFX_GET_WIFI_INFO, pi_size = 0,
     pi_decode = Decode_null, pi_encode = Encode_null, pi_handle = Handle_null\<rparr>,
    \<lparr>pi_name = ''WIFI_INFO'', pi_type = LGTD_LIFX_WIFI_INFO, pi_size = sizeof_ip_state,
     pi_decode = Decode_ip_state, pi_encode = Encode_null, pi_handle = Handle_ip_state\<rparr>,
    \<lparr>pi_name = ''GET_WIFI_FIRMWARE_STATE'', pi_type = LGTD_LIFX_GET_WIFI_FIRMWARE_STATE, pi_size = 0,
     pi_decode = Decode_null, pi_encode = Encode_null, pi_handle = Handle_null\<rparr>,
    \<lparr>pi_name = ''WIFI_FIRMWARE_STATE'', pi_type = LGTD_LIFX_WIFI_FIRMWARE_STATE, pi_size = sizeof_ip_firmware_info,
     pi_decode = Decode_ip_firmware_info, pi_encode = Encode_null, pi_handle = Handle_ip_firmware_info\<rparr>,
    \<lparr>pi_name = ''GET_VERSION'', pi_type = LGTD_LIFX_GET_VERSION, pi_size = 0,
     pi_decode = Decode_null, pi_encode = Encode_null, pi_handle = Handle_null\<rparr>,
    \<lparr>pi_name = ''VERSION_STATE'', pi_type = LGTD_LIFX_VERSION_STATE, pi_size = sizeof_product_info,
     pi_decode = Decode_product_info, pi_encode = Encode_null, pi_handle = Handle_product_info\<rparr>,
    \<lparr>pi_name = ''GET_INFO'', pi_type = LGTD_LIFX_GET_INFO, pi_size = 0,
     pi_decode = Decode_null, pi_encode = Encode_null, pi_handle = Handle_null\<rparr>,
    \<lparr>pi_name = ''INFO_STATE'', pi_type = LGTD_LIFX_INFO_STATE, pi_size = sizeof_runtime_info,
     pi_decode = Decode_runtime_info, pi_encode = Encode_null, pi_handle = Handle_runtime_info\<rparr>,
    \<lparr>pi_name = ''SET_BULB_LABEL'', pi_type = LGTD_LIFX_SET_BULB_LABEL, pi_size = sizeof_label,
     pi_decode = Decode_null, pi_encode = Encode_null, pi_handle = Handle_null\<rparr>,
    \<lparr>pi_name = ''BULB_LABEL'', pi_type = LGTD_LIFX_BULB_LABEL, pi_size = sizeof_label,
     pi_decode = Decode_null, pi_encode = Encode_null, pi_handle = Handle_bulb_label\<rparr>,
    \<lparr>pi_name = ''GET_AMBIENT_LIGHT'', pi_type = LGTD_LIFX_GET_AMBIENT_LIGHT, pi_size = 0,
     pi_decode = Decode_null, pi_encode = Encode_null, pi_handle = Handle_null\<rparr>,
    \<lparr>pi_name = ''STATE_AMBIENT_LIGHT'', pi_type = LGTD_LIFX_STATE_AMBIENT_LIGHT, pi_size = sizeof_ambient_light,
     pi_decode = Decode_ambient_light, pi_encode = Encode_null, pi_handle = Handle_ambient_light\<rparr>]"

definition packet_table_unimplemented_1 :: "lgtd_lifx_packet_info list" where
  "packet_table_unimplemented_1 = [
    UNIMPLEMENTED ''GET_TIME'' LGTD_LIFX_GET_TIME,
    UNIMPLEMENTED ''SET_TIME'' LGTD_LIFX_SET_TIME,
    UNIMPLEMENTED ''TIME_STATE'' LGTD_LIFX_TIME_STATE,
    UNIMPLEMENTED ''GET_RESET_SWITCH_STATE'' LGTD_LIFX_GET_RESET_SWITCH_STATE,
    UNIMPLEMENTED ''RESET_SWITCH_STATE'' LGTD_LIFX_RESET_SWITCH_STATE,
    UNIMPLEMENTED ''GET_DUMMY_PAYLOAD'' LGTD_LIFX_GET_DUMMY_PAYLOAD,
    UNIMPLEMENTED ''SET_DUMMY_PAYLOAD'' LGTD_LIFX_SET_DUMMY_PAYLOAD,
    UNIMPLEMENTED ''STATE_DUMMY_PAYLOAD'' LGTD_LIFX_STATE_DUMMY_PAYLOAD,
    UNIMPLEMENTED ''GET_BULB_LABEL'' LGTD_LIFX_GET_BULB_LABEL,
    UNIMPLEMENTED ''GET_MCU_RAIL_VOLTAGE'' LGTD_LIFX_GET_MCU_RAIL_VOLTAGE,
    UNIMPLEMENTED ''MCU_RAIL_VOLTAGE'' LGTD_LIFX_MCU_RAIL_VOLTAGE,
    UNIMPLEMENTED ''REBOOT'' LGTD_LIFX_REBOOT,
    UNIMPLEMENTED ''SET_FACTORY_TEST_MODE'' LGTD_LIFX_SET_FACTORY_TEST_MODE,
    UNIMPLEMENTED ''DISABLE_FACTORY_TEST_MODE'' LGTD_LIFX_DISABLE_FACTORY_TEST_MODE,
    UNIMPLEMENTED ''STATE_FACTORY_TEST_MODE'' LGTD_LIFX_STATE_FACTORY_TEST_MODE,
    UNIMPLEMENTED ''STATE_SITE'' LGTD_LIFX_STATE_SITE,
    UNIMPLEMENTED ''STATE_REBOOT'' LGTD_LIFX_STATE_REBOOT,
    UNIMPLEMENTED ''SET_PAN_GATEWAY'' LGTD_LIFX_SET_PAN_GATEWAY,
    UNIMPLEMENTED ''ACK'' LGTD_LIFX_ACK,
    UNIMPLEMENTED ''SET_FACTORY_RESET'' LGTD_LIFX_SET_FACTORY_RESET,
    UNIMPLEMENTED ''STATE_FACTORY_RESET'' LGTD_LIFX_STATE_FACTORY_RESET,
    UNIMPLEMENTED ''GET_LOCATION'' LGTD_LIFX_GET_LOCATION,
    UNIMPLEMENTED ''SET_LOCATION'' LGTD_LIFX_SET_LOCATION,
    UNIMPLEMENTED ''STATE_LOCATION'' LGTD_LIFX_STATE_LOCATION]"

definition packet_table_unimplemented_2 :: "lgtd_lifx_packet_info list" where
  "packet_table_unimplemented_2 = [
    UNIMPLEMENTED ''GET_GROUP'' LGTD_LIFX_GET_GROUP,
    UNIMPLEMENTED ''SET_GROUP'' LGTD_LIFX_SET_GROUP,
    UNIMPLEMENTED ''STATE_GROUP'' LGTD_LIFX_STATE_GROUP,
    UNIMPLEMENTED ''GET_OWNER'' LGTD_LIFX_GET_OWNER,
    UNIMPLEMENTED ''SET_OWNER'' LGTD_LIFX_SET_OWNER,
    UNIMPLEMENTED ''STATE_OWNER'' LGTD_LIFX_STATE_OWNER,
    UNIMPLEMENTED ''GET_FACTORY_TEST_MODE'' LGTD_LIFX_GET_FACTORY_TEST_MODE,
    UNIMPLEMENTED ''ECHO_REQUEST'' LGTD_LIFX_ECHO_REQUEST,
    UNIMPLEMENTED ''ECHO_RESPONSE'' LGTD_LIFX_ECHO_RESPONSE,
    UNIMPLEMENTED ''SET_DIM_ABSOLUTE'' LGTD_LIFX_SET_DIM_ABSOLUTE,
    UNIMPLEMENTED ''SET_DIM_RELATIVE'' LGTD_LIFX_SET_DIM_RELATIVE,
    UNIMPLEMENTED ''SET_RGBW'' LGTD_LIFX_SET_RGBW,
    UNIMPLEMENTED ''GET_RAIL_VOLTAGE'' LGTD_LIFX_GET_RAIL_VOLTAGE,
    UNIMPLEMENTED ''STATE_RAIL_VOLTAGE'' LGTD_LIFX_STATE_RAIL_VOLTAGE,
    UNIMPLEMENTED ''GET_TEMPERATURE'' LGTD_LIFX_GET_TEMPERATURE,
    UNIMPLEMENTED ''STATE_TEMPERATURE'' LGTD_LIFX_STATE_TEMPERATURE,
    UNIMPLEMENTED ''SET_CALIBRATION_COEFFICIENTS'' LGTD_LIFX_SET_CALIBRATION_COEFFICIENTS,
    UNIMPLEMENTED ''SET_SIMPLE_EVENT'' LGTD_LIFX_SET_SIMPLE_EVENT,
    UNIMPLEMENTED ''GET_SIMPLE_EVENT'' LGTD_LIFX_GET_SIMPLE_EVENT,
    UNIMPLEMENTED ''STATE_SIMPLE_EVENT'' LGTD_LIFX_STATE_SIMPLE_EVENT,
    UNIMPLEMENTED ''GET_POWER'' LGTD_LIFX_GET_POWER,
    UNIMPLEMENTED ''SET_POWER'' LGTD_LIFX_SET_POWER,
    UNIMPLEMENTED ''STATE_POWER'' LGTD_LIFX_STATE_POWER,
    UNIMPLEMENTED ''SET_WAVEFORM_OPTIONAL'' LGTD_LIFX_SET_WAVEFORM_OPTIONAL]"

definition packet_table_unimplemented_3 :: "lgtd_lifx_packet_info list" where
  "packet_table_unimplemented_3 = [
    UNIMPLEMENTED ''CONNECT_PLAIN'' LGTD_LIFX_CONNECT_PLAIN,
    UNIMPLEMENTED ''CONNECT_KEY'' LGTD_LIFX_CONNECT_KEY,
    UNIMPLEMENTED ''STATE_CONNECT'' LGTD_LIFX_STATE_CONNECT,
    UNIMPLEMENTED ''GET_AUTH_KEY'' LGTD_LIFX_GET_AUTH_KEY,
    UNIMPLEMENTED ''SET_AUTH_KEY'' LGTD_LIFX_SET_AUTH_KEY,
    UNIMPLEMENTED ''STATE_AUTH_KEY'' LGTD_LIFX_STATE_AUTH_KEY,
    UNIMPLEMENTED ''SET_KEEP_ALIVE'' LGTD_LIFX_SET_KEEP_ALIVE,
    UNIMPLEMENTED ''STATE_KEEP_ALIVE'' LGTD_LIFX_STATE_KEEP_ALIVE,
    UNIMPLEMENTED ''SET_HOST'' LGTD_LIFX_SET_HOST,
    UNIMPLEMENTED ''GET_HOST'' LGTD_LIFX_GET_HOST,
    UNIMPLEMENTED ''STATE_HOST'' LGTD_LIFX_STATE_HOST,
    UNIMPLEMENTED ''GET_WIFI_STATE'' LGTD_LIFX_GET_WIFI_STATE,
    UNIMPLEMENTED ''SET_WIFI_STATE'' LGTD_LIFX_SET_WIFI_STATE,
    UNIMPLEMENTED ''WIFI_STATE'' LGTD_LIFX_WIFI_STATE,
    UNIMPLEMENTED ''GET_ACCESS_POINTS'' LGTD_LIFX_GET_ACCESS_POINTS,
    UNIMPLEMENTED ''SET_ACCESS_POINTS'' LGTD_LIFX_SET_ACCESS_POINTS,
    UNIMPLEMENTED ''STATE_ACCESS_POINTS'' LGTD_LIFX_STATE_ACCESS_POINTS,
    UNIMPLEMENTED ''GET_ACCESS_POINT'' LGTD_LIFX_GET_ACCESS_POINT,
    UNIMPLEMENTED ''STATE_ACCESS_POINT'' LGTD_LIFX_STATE_ACCESS_POINT,
    UNIMPLEMENTED ''SET_ACCESS_POINT_BROADCAST'' LGTD_LIFX_SET_ACCESS_POINT_BROADCAST,
    UNIMPLEMENTED ''GET_DIMMER_VOLTAGE'' LGTD_LIFX_GET_DIMMER_VOLTAGE,
    UNIMPLEMENTED ''STATE_DIMMER_VOLTAGE'' LGTD_LIFX_STATE_DIMMER_VOLTAGE]"

definition packet_table :: "lgtd_lifx_packet_info list" where
  "packet_table =
     packet_table_gateway
     @ packet_table_bulb_1
     @ packet_table_bulb_2
     @ packet_table_unimplemented_1
     @ packet_table_unimplemented_2
     @ packet_table_unimplemented_3"

lemmas packet_table_defs =
  packet_table_def packet_table_gateway_def packet_table_bulb_1_def packet_table_bulb_2_def packet_table_unimplemented_1_def packet_table_unimplemented_2_def packet_table_unimplemented_3_def UNIMPLEMENTED_def

text \<open>
  The table is loaded entry by entry into a red-black tree keyed by the packet type.
\<close>

definition lgtd_lifx_wire_load_packet_info_map :: "lgtd_lifx_packet_info list" where
  "lgtd_lifx_wire_load_packet_info_map = fold (rb_insert pi_type) packet_table []"

definition lgtd_lifx_wire_get_packet_info :: "u16 \<Rightarrow> lgtd_lifx_packet_info option" where
  "lgtd_lifx_wire_get_packet_info packet_type =
     rb_find pi_type packet_type lgtd_lifx_wire_load_packet_info_map"

text \<open>
  \<open>lgtd_lifx_wire_setup\<close> draws a client id until it is not zero; \<open>rand\<close> is the sequence of values
  \<open>lgtd_daemon_randuint32\<close> returns. The loop has no bound: \<open>None\<close> is not returning.
\<close>

partial_function (option) lgtd_lifx_wire_setup :: "(nat \<Rightarrow> u32) \<Rightarrow> nat \<Rightarrow> u32 option" where
  [code]: "lgtd_lifx_wire_setup rand i =
     (let client_id = rand i in
      if client_id = 0 then lgtd_lifx_wire_setup rand (i + 1) else Some client_id)"

subsection \<open>Headers\<close>

definition zero_header :: lgtd_lifx_packet_header where
  "zero_header =
     \<lparr>hdr_size = 0, hdr_protocol = 0, hdr_source = 0, hdr_target = replicate 8 0,
      hdr_site = replicate 6 0, hdr_flags = 0, hdr_seqn = 0, hdr_at_time = 0,
      hdr_packet_type = 0, hdr_reserved = replicate 2 0\<rparr>"

text \<open>
  The target type tells which member of the union is read; reading the other one is a misuse of
  the union and has no result here.
\<close>

definition lgtd_lifx_wire_setup_header ::
  "bool \<Rightarrow> u32 \<Rightarrow> lgtd_lifx_target_type \<Rightarrow> lgtd_lifx_target \<Rightarrow> bytes option \<Rightarrow> u16
   \<Rightarrow> (lgtd_lifx_packet_info \<times> lgtd_lifx_packet_header) option" where
  "lgtd_lifx_wire_setup_header be client_id target_type target site packet_type =
     do {
       c_assert (client_id \<noteq> 0);
       pkt_info \<leftarrow> lgtd_lifx_wire_get_packet_info packet_type;
       let hdr = zero_header\<lparr>hdr_source := client_id,
                             hdr_size := of_nat (pi_size pkt_info + LGTD_LIFX_PACKET_HEADER_SIZE),
                             hdr_packet_type := packet_type\<rparr>;
       hdr \<leftarrow> (case site of
                Some addr \<Rightarrow> Some (hdr\<lparr>hdr_site := addr\<rparr>)
              | None \<Rightarrow> do { c_assert (target_type = LGTD_LIFX_TARGET_ALL_DEVICES); Some hdr });
       let flags = LGTD_LIFX_ADDRESSABLE OR LGTD_LIFX_RES_REQUIRED;
       (hdr, flags) \<leftarrow> (case (target_type, target) of
                (LGTD_LIFX_TARGET_SITE, _) \<Rightarrow> Some (hdr, flags OR LGTD_LIFX_TAGGED)
              | (LGTD_LIFX_TARGET_ALL_DEVICES, _) \<Rightarrow> Some (hdr, flags OR LGTD_LIFX_TAGGED)
              | (LGTD_LIFX_TARGET_TAGS, Target_tags tags) \<Rightarrow>
                  Some (hdr\<lparr>hdr_target := mem_of be 8 tags\<rparr>, flags OR LGTD_LIFX_TAGGED)
              | (LGTD_LIFX_TARGET_DEVICE, Target_addr addr) \<Rightarrow>
                  Some (hdr\<lparr>hdr_target := addr @ drop LGTD_LIFX_ADDR_LENGTH (hdr_target hdr)\<rparr>, flags)
              | _ \<Rightarrow> None);
       Some (pkt_info, lgtd_lifx_wire_encode_header be hdr flags)
     }"

subsection \<open>Payloads\<close>

datatype lgtd_lifx_packet =
    Raw bytes
  | Pan_gateway lgtd_lifx_packet_pan_gateway
  | Tag_labels lgtd_lifx_packet_tag_labels
  | Light_status lgtd_lifx_packet_light_status
  | Power_state lgtd_lifx_packet_power_state
  | Tags lgtd_lifx_packet_tags
  | Ip_state lgtd_lifx_packet_ip_state
  | Ip_firmware_info lgtd_lifx_packet_ip_firmware_info
  | Product_info lgtd_lifx_packet_product_info
  | Runtime_info lgtd_lifx_packet_runtime_info
  | Ambient_light lgtd_lifx_packet_ambient_light

text \<open>\<open>pkt_info->decode(pkt)\<close>: the struct the decoder sees at \<open>pkt\<close>, converted in place.\<close>

fun decode_payload :: "bool \<Rightarrow> lgtd_lifx_decoder \<Rightarrow> bytes \<Rightarrow> lgtd_lifx_packet" where
  "decode_payload be Decode_null bs = Raw bs"
| "decode_payload be Decode_pan_gateway bs =
     Pan_gateway (lgtd_lifx_wire_decode_pan_gateway be (pan_gateway_of_bytes be bs))"
| "decode_payload be Decode_tag_labels bs =
     Tag_labels (lgtd_lifx_wire_decode_tag_labels be (tag_labels_of_bytes be bs))"
| "decode_payload be Decode_light_status bs =
     Light_status (lgtd_lifx_wire_decode_light_status be (light_status_of_bytes be bs))"
| "decode_payload be Decode_power_state bs =
     Power_state (lgtd_lifx_wire_decode_power_state (power_state_of_bytes be bs))"
| "decode_payload be Decode_tags bs =
     Tags (lgtd_lifx_wire_decode_tags be (tags_of_bytes be bs))"
| "decode_payload be Decode_ip_state bs =
     Ip_state (lgtd_lifx_wire_decode_ip_state be (ip_state_of_bytes be bs))"
| "decode_payload be Decode_ip_firmware_info bs =
     Ip_firmware_info (lgtd_lifx_wire_decode_ip_firmware_info be (ip_firmware_info_of_bytes be bs))"
| "decode_payload be Decode_product_info bs =
     Product_info (lgtd_lifx_wire_decode_product_info be (product_info_of_bytes be bs))"
| "decode_payload be Decode_runtime_info bs =
     Runtime_info (lgtd_lifx_wire_decode_runtime_info be (runtime_info_of_bytes be bs))"
| "decode_payload be Decode_ambient_light bs =
     Ambient_light (lgtd_lifx_wire_decode_ambient_light be (ambient_light_of_bytes be bs))"

subsection \<open>Waveforms\<close>

definition lgtd_lifx_waveform_table :: "string list" where
  "lgtd_lifx_waveform_table = [''SAW'', ''SINE'', ''HALF_SINE'', ''TRIANGLE'', ''SQUARE'', ''INVALID'']"

abbreviation LGTD_LIFX_WAVEFORM_INVALID :: nat where "LGTD_LIFX_WAVEFORM_INVALID \<equiv> 5"

text \<open>\<open>s\<close> is the memory at the pointer, of which the first \<open>len\<close> characters are compared.\<close>

definition lgtd_lifx_wire_waveform_string_id_to_type :: "string \<Rightarrow> int \<Rightarrow> nat option" where
  "lgtd_lifx_wire_waveform_string_id_to_type s len =
     do {
       c_assert (0 \<le> len);
       Some (case List.find (\<lambda>i. int (length (lgtd_lifx_waveform_table ! i)) = len
                                 \<and> lgtd_lifx_waveform_table ! i = take (nat len) s)
                    [0..<length lgtd_lifx_waveform_table] of
               Some i \<Rightarrow> i
             | None \<Rightarrow> LGTD_LIFX_WAVEFORM_INVALID)
     }"

subsection \<open>Lookups\<close>

interpretation packet_info_map:
  ordered_table pi_type "[]" "rb_insert pi_type" "rb_find pi_type" "rb_remove pi_type" id "rb_inv pi_type"
  by (rule ordered_table_rb)

lemma get_packet_info_eq:
  "lgtd_lifx_wire_get_packet_info t = List.find (\<lambda>i. pi_type i = t) packet_table"
  unfolding lgtd_lifx_wire_get_packet_info_def lgtd_lifx_wire_load_packet_info_map_def
  by (rule packet_info_map.find_load_empty)

lemma distinct_packet_types: "distinct (map pi_type packet_table)"
  by (simp add: packet_table_defs)

lemma find_distinct_key:
  "distinct (map f xs) \<Longrightarrow> x \<in> set xs \<Longrightarrow> List.find (\<lambda>y. f y = f x) xs = Some x"
  by (induction xs) auto

lemma get_packet_info_in_table:
  "info \<in> set packet_table \<Longrightarrow> lgtd_lifx_wire_get_packet_info (pi_type info) = Some info"
  by (simp add: get_packet_info_eq find_distinct_key distinct_packet_types)

lemma get_packet_info_Some:
  "lgtd_lifx_wire_get_packet_info t = Some info \<longleftrightarrow> info \<in> set packet_table \<and> pi_type info = t"
  using get_packet_info_in_table by (auto simp: get_packet_info_eq find_Some_iff)

end
