(* ===== verification/Wire_Theorems.thy ===== *)
theory Wire_Theorems
  imports Wire_Packets
begin

text \<open>
  What goes on the wire and what is read from it: the image of a header and of the payloads is
  the one of the LIFX protocol (little endian) on every host, and reading it back
  gives the fields that were written.
\<close>

unbundle bit_operations_syntax

subsection \<open>Reading fields\<close>

named_theorems fld_simps

lemma fld_0 [fld_simps]: "length a = n \<Longrightarrow> fld 0 n (a @ b) = a"
  by (simp add: fld_def)

lemma fld_skip [fld_simps]: "length a \<le> off \<Longrightarrow> fld off n (a @ b) = fld (off - length a) n b"
  by (simp add: fld_def)

lemma fld_Cons [fld_simps]: "0 < off \<Longrightarrow> fld off n (x # b) = fld (off - 1) n b"
  by (simp add: fld_def drop_Cons')

lemma fld_1 [fld_simps]: "fld 0 (Suc 0) (x # b) = [x]" "fld 0 1 (x # b) = [x]"
  by (simp_all add: fld_def)

lemma fld_all [fld_simps]: "length a = n \<Longrightarrow> fld 0 n a = a"
  by (simp add: fld_def)

lemma host_of_1 [simp]: "host_of be [b :: u8] = (b :: u8)"
  by (cases be) (simp_all add: host_of_def)

text \<open>Reading little endian bytes on any host and converting them.\<close>

lemma htole_host_of:
  assumes "8 * length bs = LENGTH('a)"
  shows "(if be then bswap (length bs) (host_of be bs) else host_of be bs) = (le_word bs :: 'a::len word)"
  using assms le_bytes_le_word [where 'a = 'a, of "rev bs"] by (simp add: host_of_def bswap_def)

lemma le16toh_host_of [simp]: "length bs = 2 \<Longrightarrow> le16toh be (host_of be bs) = le_word bs"
  and le32toh_host_of [simp]: "length bs = 4 \<Longrightarrow> le32toh be (host_of be bs) = le_word bs"
  and le64toh_host_of [simp]: "length bs = 8 \<Longrightarrow> le64toh be (host_of be bs) = le_word bs"
  using htole_host_of [of bs be, where 'a = 16] htole_host_of [of bs be, where 'a = 32]
    htole_host_of [of bs be, where 'a = 64]
  by (auto simp: htole16_def htole32_def htole64_def split: if_splits)

lemma le_word_16 [simp]: "le_word (le_bytes 2 (x :: u16)) = x"
  and le_word_32 [simp]: "le_word (le_bytes 4 (y :: u32)) = y"
  and le_word_64 [simp]: "le_word (le_bytes 8 (z :: u64)) = z"
  by (simp_all add: le_word_le_bytes take_bit_full)

lemma host_of_le_bytes_twice [simp]:
  "host_of be (le_bytes 8 (host_of be (le_bytes 8 (x :: u64)) :: u64)) = x"
  using bswap_bswap [of 8 x] by (cases be) (simp_all add: host_of_def bswap_def)

lemma le_bytes_numeral: "le_bytes (numeral k) x = ucast x # le_bytes (pred_numeral k) (drop_bit 8 x)"
  by (simp add: numeral_eq_Suc)

lemma replicate_numeral: "replicate (numeral k) x = x # replicate (pred_numeral k) x"
  by (simp add: numeral_eq_Suc)

subsection \<open>Headers\<close>

definition wf_header :: "lgtd_lifx_packet_header \<Rightarrow> bool" where
  "wf_header hdr \<longleftrightarrow>
     length (hdr_target hdr) = 8 \<and> length (hdr_site hdr) = 6 \<and> length (hdr_reserved hdr) = 2"

lemma length_header_bytes: "wf_header hdr \<Longrightarrow> length (header_bytes be hdr) = LGTD_LIFX_PACKET_HEADER_SIZE"
  by (simp add: wf_header_def header_bytes_def)

lemma header_of_bytes_header_bytes:
  "wf_header hdr \<Longrightarrow> header_of_bytes be (header_bytes be hdr @ rest) = hdr"
  by (simp add: wf_header_def header_bytes_def header_of_bytes_def fld_simps)

lemma protocol_images:
  "mem_of be 2 (htole16 be LGTD_LIFX_PROTOCOL_V1 OR LGTD_LIFX_PROTOCOL_ADDRESSABLE be) = [0x00, 0x14]"
  "mem_of be 2 ((htole16 be LGTD_LIFX_PROTOCOL_V1 OR LGTD_LIFX_PROTOCOL_ADDRESSABLE be)
     OR LGTD_LIFX_PROTOCOL_TAGGED be) = [0x00, 0x34]"
  by (cases be; simp, code_simp)+

lemma le_bytes_0: "le_bytes n (0 :: 'a::len word) = replicate n 0"
  by (induction n) auto

lemma mem_of_0: "mem_of be n (0 :: 'a::len word) = replicate n 0"
  by (simp add: mem_of_def le_bytes_0)

lemma host_of_0: "host_of be (replicate n 0) = (0 :: 'a::len word)"
proof -
  have "le_word (replicate n 0) = (0 :: 'a word)" by (induction n) auto
  then show ?thesis by (simp add: host_of_def)
qed

lemma htole_0 [simp]: "htole16 be 0 = 0" "htole32 be 0 = 0" "htole64 be 0 = 0"
  by (cases be; simp add: htole16_def htole32_def htole64_def; code_simp)+

text \<open>The target on the wire, per kind of target.\<close>

definition target_image :: "lgtd_lifx_target_type \<Rightarrow> lgtd_lifx_target \<Rightarrow> bytes" where
  "target_image target_type target =
     (case (target_type, target) of
        (LGTD_LIFX_TARGET_TAGS, Target_tags tags) \<Rightarrow> le_bytes 8 tags
      | (LGTD_LIFX_TARGET_DEVICE, Target_addr addr) \<Rightarrow> addr @ replicate 2 0
      | _ \<Rightarrow> replicate 8 0)"

definition site_image :: "bytes option \<Rightarrow> bytes" where
  "site_image site = (case site of Some addr \<Rightarrow> addr | None \<Rightarrow> replicate 6 0)"

text \<open>The targets and sites a caller may pass.\<close>

definition wf_target :: "lgtd_lifx_target_type \<Rightarrow> lgtd_lifx_target \<Rightarrow> bytes option \<Rightarrow> bool" where
  "wf_target target_type target site \<longleftrightarrow>
     (case site of Some addr \<Rightarrow> length addr = 6 | None \<Rightarrow> target_type = LGTD_LIFX_TARGET_ALL_DEVICES)
     \<and> (target_type = LGTD_LIFX_TARGET_TAGS \<longrightarrow> (\<exists>tags. target = Target_tags tags))
     \<and> (target_type = LGTD_LIFX_TARGET_DEVICE \<longrightarrow> (\<exists>addr. target = Target_addr addr \<and> length addr = 6))"

lemma setup_header_Some:
  assumes "wf_target tt target site" "client_id \<noteq> 0" "lgtd_lifx_wire_get_packet_info ptype = Some info"
  shows "\<exists>hdr. lgtd_lifx_wire_setup_header be client_id tt target site ptype = Some (info, hdr)
     \<and> wf_header hdr
     \<and> hdr_size hdr = htole16 be (of_nat (pi_size info + LGTD_LIFX_PACKET_HEADER_SIZE))
     \<and> hdr_protocol hdr =
         (if tt = LGTD_LIFX_TARGET_DEVICE
          then htole16 be LGTD_LIFX_PROTOCOL_V1 OR LGTD_LIFX_PROTOCOL_ADDRESSABLE be
          else (htole16 be LGTD_LIFX_PROTOCOL_V1 OR LGTD_LIFX_PROTOCOL_ADDRESSABLE be)
               OR LGTD_LIFX_PROTOCOL_TAGGED be)
     \<and> hdr_source hdr = htole32 be client_id
     \<and> hdr_target hdr = target_image tt target
     \<and> hdr_site hdr = site_image site \<and> hdr_flags hdr = 1 \<and> hdr_seqn hdr = 0
     \<and> hdr_at_time hdr = 0 \<and> hdr_packet_type hdr = htole16 be ptype \<and> hdr_reserved hdr = replicate 2 0"
  using assms
  by (cases tt; cases site)
    (auto simp: lgtd_lifx_wire_setup_header_def wf_target_def wf_header_def zero_header_def
       lgtd_lifx_wire_encode_header_def hdr_target_tags_def Let_def target_image_def site_image_def
       host_of_0 mem_of_0 le_bytes_0)

text \<open>The header of a packet of a type with a payload of a size, as it is on the wire.\<close>

definition header_image :: "u32 \<Rightarrow> lgtd_lifx_target_type \<Rightarrow> lgtd_lifx_target \<Rightarrow> bytes option \<Rightarrow> u16 \<Rightarrow> nat \<Rightarrow> bytes" where
  "header_image client_id tt target site ptype psize =
     le_bytes 2 (of_nat (psize + LGTD_LIFX_PACKET_HEADER_SIZE) :: u16)
     @ (if tt = LGTD_LIFX_TARGET_DEVICE then [0x00, 0x14] else [0x00, 0x34])
     @ le_bytes 4 client_id @ target_image tt target @ site_image site @ [1] @ [0]
     @ replicate 8 0 @ le_bytes 2 ptype @ replicate 2 0"

lemma setup_header_bytes:
  assumes "wf_target tt target site" "client_id \<noteq> 0" "lgtd_lifx_wire_get_packet_info ptype = Some info"
    and "lgtd_lifx_wire_setup_header be client_id tt target site ptype = Some (info', hdr)"
  shows "header_bytes be hdr = header_image client_id tt target site ptype (pi_size info)"
proof -
  from setup_header_Some [OF assms(1-3), of be] assms(4) have
    "hdr_size hdr = htole16 be (of_nat (pi_size info + LGTD_LIFX_PACKET_HEADER_SIZE))"
    and "hdr_protocol hdr = (if tt = LGTD_LIFX_TARGET_DEVICE
          then htole16 be LGTD_LIFX_PROTOCOL_V1 OR LGTD_LIFX_PROTOCOL_ADDRESSABLE be
          else (htole16 be LGTD_LIFX_PROTOCOL_V1 OR LGTD_LIFX_PROTOCOL_ADDRESSABLE be)
               OR LGTD_LIFX_PROTOCOL_TAGGED be)"
    and "hdr_source hdr = htole32 be client_id" "hdr_target hdr = target_image tt target"
    and "hdr_site hdr = site_image site" "hdr_flags hdr = 1" "hdr_seqn hdr = 0" "hdr_at_time hdr = 0"
    and "hdr_packet_type hdr = htole16 be ptype" "hdr_reserved hdr = replicate 2 0" by auto
  then show ?thesis by (simp add: header_image_def header_bytes_def protocol_images mem_of_0 del: of_nat_add)
qed

lemma length_header_image:
  "wf_target tt target site \<Longrightarrow> length (header_image client_id tt target site ptype psize) = LGTD_LIFX_PACKET_HEADER_SIZE"
  by (cases tt; cases site) (auto simp: header_image_def target_image_def site_image_def wf_target_def)

text \<open>
  C21: \<open>lgtd_lifx_wire_setup_header\<close> never aborts on a well-formed target and site, and the 36
  bytes it leaves in memory are the LIFX header in little endian, the same on little and on
  big endian hosts: size of the header and payload, version 1024 with the
  addressable flag and, unless a single device is targeted, the tagged flag, the client id, the target,
  the site, the response-required flag and the packet type.
\<close>

theorem setup_header_image:
  assumes "wf_target tt target site" "client_id \<noteq> 0" "lgtd_lifx_wire_get_packet_info ptype = Some info"
  shows "\<exists>hdr. lgtd_lifx_wire_setup_header be client_id tt target site ptype = Some (info, hdr)
     \<and> header_bytes be hdr =
         le_bytes 2 (of_nat (pi_size info + LGTD_LIFX_PACKET_HEADER_SIZE) :: u16)
         @ (if tt = LGTD_LIFX_TARGET_DEVICE then [0x00, 0x14] else [0x00, 0x34])
         @ le_bytes 4 client_id @ target_image tt target @ site_image site @ [1] @ [0]
         @ replicate 8 0 @ le_bytes 2 ptype @ replicate 2 0"
proof -
  from setup_header_Some [OF assms] obtain hdr where
    "lgtd_lifx_wire_setup_header be client_id tt target site ptype = Some (info, hdr)" by blast
  with setup_header_bytes [OF assms this] show ?thesis by (simp add: header_image_def del: of_nat_add)
qed

theorem setup_header_image_witness:
  "\<exists>hdr. lgtd_lifx_wire_setup_header True 0x2a LGTD_LIFX_TARGET_TAGS (Target_tags 5)
       (Some [1, 2, 3, 4, 5, 6]) LGTD_LIFX_SET_POWER_STATE =
         Some (\<lparr>pi_name = ''SET_POWER_STATE'', pi_type = LGTD_LIFX_SET_POWER_STATE, pi_size = 2,
                pi_decode = Decode_null, pi_encode = Encode_null, pi_handle = Handle_null\<rparr>, hdr)
     \<and> header_bytes True hdr =
         [38, 0, 0, 0x34, 0x2a, 0, 0, 0, 5, 0, 0, 0, 0, 0, 0, 0, 1, 2, 3, 4, 5, 6, 1, 0,
          0, 0, 0, 0, 0, 0, 0, 0, 0x15, 0, 0, 0]"
proof -
  have info: "lgtd_lifx_wire_get_packet_info LGTD_LIFX_SET_POWER_STATE =
      Some \<lparr>pi_name = ''SET_POWER_STATE'', pi_type = LGTD_LIFX_SET_POWER_STATE, pi_size = 2,
            pi_decode = Decode_null, pi_encode = Encode_null, pi_handle = Handle_null\<rparr>"
    by (simp add: get_packet_info_eq packet_table_defs)
  have wf: "wf_target LGTD_LIFX_TARGET_TAGS (Target_tags 5) (Some [1, 2, 3, 4, 5, 6])"
    by (simp add: wf_target_def)
  show ?thesis
    using setup_header_image [OF wf _ info, of "0x2a" True]
    by (simp add: target_image_def site_image_def le_bytes_numeral replicate_numeral)
qed

text \<open>The target of a decoded header.\<close>

definition decoded_target_ok ::
  "bool \<Rightarrow> lgtd_lifx_target_type \<Rightarrow> lgtd_lifx_target \<Rightarrow> lgtd_lifx_packet_header \<Rightarrow> bool" where
  "decoded_target_ok be target_type target hdr =
     (case (target_type, target) of
        (LGTD_LIFX_TARGET_TAGS, Target_tags tags) \<Rightarrow> hdr_target_tags be hdr = tags
      | (LGTD_LIFX_TARGET_DEVICE, Target_addr addr) \<Rightarrow> hdr_device_addr hdr = addr
      | _ \<Rightarrow> hdr_target_tags be hdr = 0)"

lemma decode_protocol:
  defines "p be \<equiv> htole16 be LGTD_LIFX_PROTOCOL_V1 OR LGTD_LIFX_PROTOCOL_ADDRESSABLE be"
  defines "d be q \<equiv> htole16 be (q AND LGTD_LIFX_PROTOCOL_VERSION_MASK be)
      OR (q AND LGTD_LIFX_PROTOCOL_FLAGS_MASK be)"
  shows "d be (p be) AND LGTD_LIFX_PROTOCOL_VERSION_MASK be = LGTD_LIFX_PROTOCOL_V1"
    and "d be (p be) AND LGTD_LIFX_PROTOCOL_ADDRESSABLE be \<noteq> 0"
    and "d be (p be) AND LGTD_LIFX_PROTOCOL_TAGGED be = 0"
    and "d be (p be OR LGTD_LIFX_PROTOCOL_TAGGED be) AND LGTD_LIFX_PROTOCOL_VERSION_MASK be =
           LGTD_LIFX_PROTOCOL_V1"
    and "d be (p be OR LGTD_LIFX_PROTOCOL_TAGGED be) AND LGTD_LIFX_PROTOCOL_ADDRESSABLE be \<noteq> 0"
    and "d be (p be OR LGTD_LIFX_PROTOCOL_TAGGED be) AND LGTD_LIFX_PROTOCOL_TAGGED be \<noteq> 0"
  unfolding p_def d_def by (cases be; simp, code_simp)+

text \<open>
  C22: Header round trip. Decoding, on a host of either byte order, the bytes of a header set up on
  that host (followed by any payload) gives back the size, the client id, the packet type, the
  site and the target, protocol version 1024, the addressable flag, and the tagged flag exactly
  when the target is not a single device.
\<close>

theorem setup_decode_header_roundtrip:
  assumes "wf_target tt target site" "client_id \<noteq> 0"
    and "lgtd_lifx_wire_setup_header be client_id tt target site ptype = Some (info, hdr)"
    and "h = lgtd_lifx_wire_decode_header be (header_of_bytes be (header_bytes be hdr @ payload))"
  shows "hdr_size h = of_nat (pi_size info + LGTD_LIFX_PACKET_HEADER_SIZE)
     \<and> hdr_source h = client_id \<and> hdr_packet_type h = ptype \<and> hdr_site h = site_image site
     \<and> hdr_protocol h AND LGTD_LIFX_PROTOCOL_VERSION_MASK be = LGTD_LIFX_PROTOCOL_V1
     \<and> hdr_protocol h AND LGTD_LIFX_PROTOCOL_ADDRESSABLE be \<noteq> 0
     \<and> (hdr_protocol h AND LGTD_LIFX_PROTOCOL_TAGGED be \<noteq> 0 \<longleftrightarrow> tt \<noteq> LGTD_LIFX_TARGET_DEVICE)
     \<and> decoded_target_ok be tt target h"
proof -
  have "lgtd_lifx_wire_get_packet_info ptype = Some info"
    using assms(3) by (auto simp: lgtd_lifx_wire_setup_header_def bind_eq_Some_conv Let_def)
  from setup_header_Some [OF assms(1,2) this, of be] assms(3)
  have wf: "wf_header hdr"
    and f: "hdr_size hdr = htole16 be (of_nat (pi_size info + LGTD_LIFX_PACKET_HEADER_SIZE))"
      "hdr_protocol hdr = (if tt = LGTD_LIFX_TARGET_DEVICE
          then htole16 be LGTD_LIFX_PROTOCOL_V1 OR LGTD_LIFX_PROTOCOL_ADDRESSABLE be
          else (htole16 be LGTD_LIFX_PROTOCOL_V1 OR LGTD_LIFX_PROTOCOL_ADDRESSABLE be)
               OR LGTD_LIFX_PROTOCOL_TAGGED be)"
      "hdr_source hdr = htole32 be client_id" "hdr_target hdr = target_image tt target"
      "hdr_site hdr = site_image site" "hdr_packet_type hdr = htole16 be ptype" by auto
  have h: "h = lgtd_lifx_wire_decode_header be hdr"
    using assms(4) header_of_bytes_header_bytes [OF wf] by simp
  have "decoded_target_ok be tt target h"
    using assms(1) f unfolding h wf_target_def
    by (cases tt)
      (auto simp: decoded_target_ok_def target_image_def lgtd_lifx_wire_decode_header_def Let_def
         hdr_target_tags_def hdr_device_addr_def decode_protocol host_of_0 mem_of_0)
  then show ?thesis
    by (cases "tt = LGTD_LIFX_TARGET_DEVICE")
      (simp_all add: h f lgtd_lifx_wire_decode_header_def Let_def decode_protocol)
qed

theorem setup_decode_header_roundtrip_witness:
  "\<exists>info hdr h. lgtd_lifx_wire_setup_header True 7 LGTD_LIFX_TARGET_TAGS (Target_tags 3)
       (Some [1, 2, 3, 4, 5, 6]) LGTD_LIFX_SET_TAGS = Some (info, hdr)
     \<and> h = lgtd_lifx_wire_decode_header True (header_of_bytes True (header_bytes True hdr @ [1, 2]))
     \<and> hdr_size h = 44 \<and> hdr_source h = 7 \<and> hdr_packet_type h = LGTD_LIFX_SET_TAGS
     \<and> hdr_target_tags True h = 3"
proof -
  have wf: "wf_target LGTD_LIFX_TARGET_TAGS (Target_tags 3) (Some [1, 2, 3, 4, 5, 6])"
    by (simp add: wf_target_def)
  have info: "lgtd_lifx_wire_get_packet_info LGTD_LIFX_SET_TAGS =
      Some \<lparr>pi_name = ''SET_TAGS'', pi_type = LGTD_LIFX_SET_TAGS, pi_size = sizeof_tags,
            pi_decode = Decode_null, pi_encode = Encode_tags, pi_handle = Handle_null\<rparr>"
    by (simp add: get_packet_info_eq packet_table_defs)
  from setup_header_Some [OF wf _ this, of 7 True] obtain hdr where
    hdr: "lgtd_lifx_wire_setup_header True 7 LGTD_LIFX_TARGET_TAGS (Target_tags 3)
       (Some [1, 2, 3, 4, 5, 6]) LGTD_LIFX_SET_TAGS =
      Some (\<lparr>pi_name = ''SET_TAGS'', pi_type = LGTD_LIFX_SET_TAGS, pi_size = sizeof_tags,
            pi_decode = Decode_null, pi_encode = Encode_tags, pi_handle = Handle_null\<rparr>, hdr)" by auto
  show ?thesis
    using setup_decode_header_roundtrip [OF wf _ hdr refl, of "[1, 2]"] hdr
    by (simp add: decoded_target_ok_def)
qed

subsection \<open>Payloads\<close>

text \<open>
  C23: The payload of every command the daemon sends (colour, waveform, tags, tag label, power) has, once encoded, a little endian image in memory on every host.
\<close>

theorem sent_payload_images:
  "light_color_bytes be (lgtd_lifx_wire_encode_light_color be c) =
     [lc_stream c] @ le_bytes 2 (lc_hue c) @ le_bytes 2 (lc_saturation c) @ le_bytes 2 (lc_brightness c)
     @ le_bytes 2 (lc_kelvin c) @ le_bytes 4 (lc_transition c)
   \<and> waveform_bytes be (lgtd_lifx_wire_encode_waveform be w) =
     [wf_stream w, wf_transient w] @ le_bytes 2 (wf_hue w) @ le_bytes 2 (wf_saturation w)
     @ le_bytes 2 (wf_brightness w) @ le_bytes 2 (wf_kelvin w) @ le_bytes 4 (wf_period w)
     @ le_bytes 4 (wf_cycles w) @ le_bytes 2 (wf_skew_ratio w) @ [wf_waveform w]
   \<and> tags_bytes be (lgtd_lifx_wire_encode_tags be t) = le_bytes 8 (pt_tags t)
   \<and> tag_labels_bytes be (lgtd_lifx_wire_encode_tag_labels be l) =
     le_bytes 8 (tl_tags l) @ bytes_of_string (tl_label l)
   \<and> power_state_bytes be \<lparr>ps_power = if p then LGTD_LIFX_POWER_ON else LGTD_LIFX_POWER_OFF\<rparr> =
     (if p then [0xff, 0xff] else [0, 0])"
proof -
  have "mem_of be 2 (0xffff :: u16) = [0xff, 0xff]" "mem_of be 2 (0 :: u16) = [0, 0]"
    by (cases be; simp, code_simp)+
  then show ?thesis
    by (simp add: light_color_bytes_def lgtd_lifx_wire_encode_light_color_def waveform_bytes_def
        lgtd_lifx_wire_encode_waveform_def lgtd_lifx_wire_htolefloat_def tags_bytes_def
        lgtd_lifx_wire_encode_tags_def tag_labels_bytes_def lgtd_lifx_wire_encode_tag_labels_def
        power_state_bytes_def)
qed

lemma power_level_host: "host_of be (le_bytes 2 level) = LGTD_LIFX_POWER_ON \<longleftrightarrow> level = (LGTD_LIFX_POWER_ON :: u16)"
proof -
  have "htole16 be (host_of be (le_bytes 2 level)) = level" by simp
  moreover have "htole16 be 0xffff = 0xffff" by (cases be; simp; code_simp)
  ultimately show ?thesis by (metis le16toh_htole16)
qed

text \<open>
  C24: A \<open>LIGHT_STATUS\<close> payload, as a bulb sends it in little endian, is decoded on every host to the
  values the bulb sent, except that a power level other than \<open>0xffff\<close> is read as off.
\<close>

theorem decode_light_status_wire:
  assumes "length label = LGTD_LIFX_LABEL_SIZE"
  shows "decode_payload be Decode_light_status
       (le_bytes 2 hue @ le_bytes 2 sat @ le_bytes 2 bri @ le_bytes 2 kel @ le_bytes 2 dim
        @ le_bytes 2 level @ bytes_of_string label @ le_bytes 8 tags @ garbage) =
     Light_status \<lparr>ls_hue = hue, ls_saturation = sat, ls_brightness = bri, ls_kelvin = kel, ls_dim = dim,
       ls_power = (if level = LGTD_LIFX_POWER_ON then LGTD_LIFX_POWER_ON else LGTD_LIFX_POWER_OFF),
       ls_label = label, ls_tags = tags\<rparr>"
  using assms power_level_host [of be level]
  by (auto simp: light_status_of_bytes_def lgtd_lifx_wire_decode_light_status_def fld_simps)

theorem decode_light_status_wire_witness:
  "decode_payload True Decode_light_status
       (le_bytes 2 (1 :: u16) @ le_bytes 2 (2 :: u16) @ le_bytes 2 (3 :: u16) @ le_bytes 2 (4 :: u16)
        @ le_bytes 2 (5 :: u16) @ le_bytes 2 (0x1000 :: u16) @ bytes_of_string (replicate 32 CHR ''x'')
        @ le_bytes 8 (6 :: u64) @ [9]) =
     Light_status \<lparr>ls_hue = 1, ls_saturation = 2, ls_brightness = 3, ls_kelvin = 4, ls_dim = 5,
       ls_power = LGTD_LIFX_POWER_OFF, ls_label = replicate 32 CHR ''x'', ls_tags = 6\<rparr>"
  using decode_light_status_wire [of "replicate 32 CHR ''x''" True 1 2 3 4 5 "0x1000" 6 "[9]"] by simp

text \<open>
  C25: The other payloads the daemon handles are decoded on every host to the little endian values on
  the wire, with two exceptions: a power level other than \<open>0xffff\<close> is read as off, and the label of a \<open>TAG_LABELS\<close> packet is
  cut to 31 characters. A \<open>BULB_LABEL\<close> payload has no decoder: its handler finds the 32 characters of the label as they were sent.
\<close>

theorem decode_payload_wire:
  assumes "length label = LGTD_LIFX_LABEL_SIZE"
  shows "decode_payload be Decode_pan_gateway ([service] @ le_bytes 4 port @ garbage) =
       Pan_gateway \<lparr>pg_service_type = service, pg_port = port\<rparr>
     \<and> decode_payload be Decode_tags (le_bytes 8 tags @ garbage) = Tags \<lparr>pt_tags = tags\<rparr>
     \<and> decode_payload be Decode_tag_labels (le_bytes 8 tags @ bytes_of_string label @ garbage) =
       Tag_labels \<lparr>tl_tags = tags, tl_label = take 31 label @ [CHR 0x00]\<rparr>
     \<and> decode_payload be Decode_ip_state
         (le_bytes 4 sig @ le_bytes 4 tx @ le_bytes 4 rx @ le_bytes 2 temp @ garbage) =
       Ip_state \<lparr>is_signal_strength = sig, is_tx_bytes = tx, is_rx_bytes = rx, is_temperature = temp\<rparr>
     \<and> decode_payload be Decode_ip_firmware_info
         (le_bytes 8 built @ le_bytes 8 inst @ le_bytes 4 ver @ garbage) =
       Ip_firmware_info \<lparr>fw_built_at = built, fw_installed_at = inst, fw_version = ver\<rparr>
     \<and> decode_payload be Decode_product_info
         (le_bytes 4 vendor @ le_bytes 4 product @ le_bytes 4 ver @ garbage) =
       Product_info \<lparr>pr_vendor_id = vendor, pr_product_id = product, pr_version = ver\<rparr>
     \<and> decode_payload be Decode_runtime_info
         (le_bytes 8 now @ le_bytes 8 up @ le_bytes 8 down @ garbage) =
       Runtime_info \<lparr>ri_time = now, ri_uptime = up, ri_downtime = down\<rparr>
     \<and> decode_payload be Decode_ambient_light (le_bytes 4 lux @ garbage) =
       Ambient_light \<lparr>al_illuminance = lux\<rparr>
     \<and> decode_payload be Decode_power_state (le_bytes 2 level @ garbage) =
       Power_state \<lparr>ps_power = (if level = LGTD_LIFX_POWER_ON then LGTD_LIFX_POWER_ON else LGTD_LIFX_POWER_OFF)\<rparr>
     \<and> decode_payload be Decode_null (bytes_of_string label @ garbage) = Raw (bytes_of_string label @ garbage)
     \<and> label_of_bytes (bytes_of_string label @ garbage) = \<lparr>pl_label = label\<rparr>"
proof -
  have "label[31 := CHR 0x00] = take 31 label @ [CHR 0x00]"
    using assms by (simp add: list_eq_iff_nth_eq nth_append nth_list_update)
  then show ?thesis
    using assms
    by (simp add: power_level_host power_state_of_bytes_def lgtd_lifx_wire_decode_power_state_def label_of_bytes_def pan_gateway_of_bytes_def lgtd_lifx_wire_decode_pan_gateway_def
        tags_of_bytes_def lgtd_lifx_wire_decode_tags_def
        tag_labels_of_bytes_def lgtd_lifx_wire_decode_tag_labels_def
        ip_state_of_bytes_def lgtd_lifx_wire_decode_ip_state_def
        ip_firmware_info_of_bytes_def lgtd_lifx_wire_decode_ip_firmware_info_def
        product_info_of_bytes_def lgtd_lifx_wire_decode_product_info_def
        runtime_info_of_bytes_def lgtd_lifx_wire_decode_runtime_info_def
        ambient_light_of_bytes_def lgtd_lifx_wire_decode_ambient_light_def
        lgtd_lifx_wire_lefloattoh_def fld_simps)
qed

theorem decode_payload_wire_witness:
  "decode_payload True Decode_tag_labels
     (le_bytes 8 (5 :: u64) @ bytes_of_string (replicate 32 CHR ''x'') @ [7]) =
   Tag_labels \<lparr>tl_tags = 5, tl_label = replicate 31 CHR ''x'' @ [CHR 0x00]\<rparr>
   \<and> decode_payload True Decode_power_state (le_bytes 2 (0x1000 :: u16) @ [7]) = Power_state \<lparr>ps_power = LGTD_LIFX_POWER_OFF\<rparr>
   \<and> label_of_bytes (bytes_of_string (replicate 32 CHR ''x'') @ [7]) = \<lparr>pl_label = replicate 32 CHR ''x''\<rparr>"
  using decode_payload_wire [of "replicate 32 CHR ''x''" True 0 0 "[7]" 5] decode_payload_wire [where level = "0x1000" and
      label = "replicate 32 CHR ''x''" and be = True and garbage = "[7]"] by simp

end
