(* ===== verification/Lightsd_State.thy ===== *)
theory Lightsd_State
  imports Wire_Theorems "HOL-Library.List_Lexorder"
begin

text \<open>
  The state of the daemon: the structs of \<open>src/lifx/bulb.h\<close>, \<open>src/lifx/gateway.h\<close>,
  \<open>src/lifx/tagging.h\<close>, \<open>src/core/stats.h\<close> and \<open>src/core/timer.h\<close>, and the
  global lists they are linked in, as one record \<open>lgtd_world\<close>. An object of a linked list is an
  entry of an association list in the order of the list, from its address to its
  record; following a pointer to an object that is not (or no longer) there has no result.
  A bulb is identified by its hardware address, the key of the tree of bulbs.

  Calls to libevent, the C library and the kernel are recorded or answered by the environment:
  \<open>w_ext\<close> gives the outcome of the successive calls that may fail (\<open>true\<close> for success)
  and \<open>w_clock\<close> the successive readings of the monotonic clock.
\<close>

subsection \<open>Bulbs\<close>

text \<open>
  The structs of \<open>bulb.h\<close> that mirror a payload have the layout of that payload (the handlers
  cast one to the other), so they are the same records.
\<close>

type_synonym lgtd_lifx_light_state = lgtd_lifx_packet_light_status
type_synonym lgtd_lifx_ip_state = lgtd_lifx_packet_ip_state
type_synonym lgtd_lifx_ip_firmware_info = lgtd_lifx_packet_ip_firmware_info
type_synonym lgtd_lifx_product_info = lgtd_lifx_packet_product_info
type_synonym lgtd_lifx_runtime_info = lgtd_lifx_packet_runtime_info

datatype lgtd_lifx_bulb_ips = LGTD_LIFX_BULB_MCU_IP | LGTD_LIFX_BULB_WIFI_IP

record lgtd_lifx_bulb_ip =
  ip_state :: lgtd_lifx_ip_state
  ip_state_updated_at :: lgtd_time_mono_t
  ip_fw_info :: lgtd_lifx_ip_firmware_info
  ip_fw_info_updated_at :: lgtd_time_mono_t

type_synonym gw_ptr = nat
type_synonym tag_ptr = nat
type_synonym timer_ptr = nat
type_synonym bulb_addr = bytes

record lgtd_lifx_bulb =
  b_last_light_state_at :: lgtd_time_mono_t
  b_runtime_info_updated_at :: lgtd_time_mono_t
  b_dirty_at :: lgtd_time_mono_t
  b_expected_power_on :: u16
  b_ambient_light :: u32
  b_model :: "string option"
  b_vendor :: "string option"
  b_gw :: gw_ptr
  b_state :: lgtd_lifx_light_state
  b_ips :: "lgtd_lifx_bulb_ips \<Rightarrow> lgtd_lifx_bulb_ip"
  b_product_info :: lgtd_lifx_product_info
  b_runtime_info :: lgtd_lifx_runtime_info

text \<open>A bulb fresh from \<open>calloc\<close>, with its gateway set.\<close>

definition zero_bulb_ip :: lgtd_lifx_bulb_ip where
  "zero_bulb_ip =
     \<lparr>ip_state = \<lparr>is_signal_strength = 0, is_tx_bytes = 0, is_rx_bytes = 0, is_temperature = 0\<rparr>,
      ip_state_updated_at = 0,
      ip_fw_info = \<lparr>fw_built_at = 0, fw_installed_at = 0, fw_version = 0\<rparr>,
      ip_fw_info_updated_at = 0\<rparr>"

definition calloc_bulb :: "gw_ptr \<Rightarrow> lgtd_lifx_bulb" where
  "calloc_bulb gw =
     \<lparr>b_last_light_state_at = 0, b_runtime_info_updated_at = 0, b_dirty_at = 0,
      b_expected_power_on = 0, b_ambient_light = 0, b_model = None, b_vendor = None, b_gw = gw,
      b_state = \<lparr>ls_hue = 0, ls_saturation = 0, ls_brightness = 0, ls_kelvin = 0, ls_dim = 0,
                 ls_power = 0, ls_label = replicate LGTD_LIFX_LABEL_SIZE (CHR 0x00), ls_tags = 0\<rparr>,
      b_ips = (\<lambda>_. zero_bulb_ip),
      b_product_info = \<lparr>pr_vendor_id = 0, pr_product_id = 0, pr_version = 0\<rparr>,
      b_runtime_info = \<lparr>ri_time = 0, ri_uptime = 0, ri_downtime = 0\<rparr>\<rparr>"

subsection \<open>Gateways\<close>

abbreviation LGTD_LIFX_GATEWAY_MIN_REFRESH_INTERVAL_MSECS :: int where
  "LGTD_LIFX_GATEWAY_MIN_REFRESH_INTERVAL_MSECS \<equiv> 800"
abbreviation LGTD_LIFX_GATEWAY_PACKET_RING_SIZE :: nat where
  "LGTD_LIFX_GATEWAY_PACKET_RING_SIZE \<equiv> 16"
abbreviation LGTD_LIFX_GATEWAY_MAX_TAGS :: nat where
  "LGTD_LIFX_GATEWAY_MAX_TAGS \<equiv> 64"

record lgtd_lifx_message =
  msg_type :: u16
  msg_size :: int

text \<open>
  The peer is the bytes of its \<open>struct sockaddr\<close> (so \<open>peerlen\<close> is their number). The ring indexes
  start at zero and are only incremented modulo the size of the ring. \<open>g_write_buf\<close> is
  the sequence of the chunks given to \<open>evbuffer_add\<close> on \<open>write_buf\<close>, \<open>g_written\<close> the bytes
  \<open>evbuffer_write_atmost\<close> reported as written, and \<open>g_socket_ev\<close> whether the last call on
  \<open>socket_ev\<close> was \<open>event_add\<close>.
\<close>

record lgtd_lifx_gateway =
  g_bulbs :: "bulb_addr list"
  g_peer :: bytes
  g_site :: bytes
  g_tag_ids :: u64
  g_tags :: "tag_ptr option list"
  g_tag_refcounts :: "u8 list"
  g_last_req_at :: lgtd_time_mono_t
  g_next_req_at :: lgtd_time_mono_t
  g_last_pkt_at :: lgtd_time_mono_t
  g_pkt_ring :: "lgtd_lifx_message list"
  g_pkt_ring_head :: nat
  g_pkt_ring_tail :: nat
  g_pkt_ring_full :: bool
  g_socket_ev :: bool
  g_write_buf :: "bytes list"
  g_written :: int
  g_pending_refresh_req :: bool
  g_refresh_timer :: timer_ptr

definition calloc_gateway :: "bytes \<Rightarrow> bytes \<Rightarrow> lgtd_time_mono_t \<Rightarrow> timer_ptr \<Rightarrow> lgtd_lifx_gateway" where
  "calloc_gateway peer site received_at timer =
     \<lparr>g_bulbs = [], g_peer = peer, g_site = site, g_tag_ids = 0,
      g_tags = replicate LGTD_LIFX_GATEWAY_MAX_TAGS None,
      g_tag_refcounts = replicate LGTD_LIFX_GATEWAY_MAX_TAGS 0,
      g_last_req_at = received_at, g_next_req_at = received_at, g_last_pkt_at = received_at,
      g_pkt_ring = replicate LGTD_LIFX_GATEWAY_PACKET_RING_SIZE \<lparr>msg_type = 0, msg_size = 0\<rparr>,
      g_pkt_ring_head = 0, g_pkt_ring_tail = 0, g_pkt_ring_full = False, g_socket_ev = False,
      g_write_buf = [], g_written = 0, g_pending_refresh_req = False, g_refresh_timer = timer\<rparr>"

subsection \<open>Tags, timers, counters\<close>

record lgtd_lifx_site =
  s_gw :: gw_ptr
  s_tag_id :: nat

record lgtd_lifx_tag =
  t_label :: string
  t_sites :: "lgtd_lifx_site list"

datatype lgtd_timer_callback =
    Refresh_callback gw_ptr
  | Fetch_hardware_info bulb_addr

text \<open>
  A timer with the last timeout given to \<open>evtimer_add\<close>; \<open>tm_activations\<close> counts the calls of
  \<open>event_active\<close>.
\<close>

record lgtd_timer =
  tm_callback :: lgtd_timer_callback
  tm_persistent :: bool
  tm_timeout :: int
  tm_activations :: nat

record lgtd_stats =
  st_gateways :: int
  st_bulbs :: int
  st_bulbs_powered_on :: int
  st_clients :: int

text \<open>The broadcast socket and its two events: whether they exist.\<close>

record lgtd_lifx_broadcast_endpoint =
  ep_socket :: bool
  ep_read_ev :: bool
  ep_write_ev :: bool

subsection \<open>The world\<close>

record lgtd_world =
  w_be :: bool
  w_client_id :: u32
  w_gateways :: "(gw_ptr \<times> lgtd_lifx_gateway) list"
  w_bulbs :: "(bulb_addr \<times> lgtd_lifx_bulb) list"
  w_tags :: "(tag_ptr \<times> lgtd_lifx_tag) list"
  w_timers :: "(timer_ptr \<times> lgtd_timer) list"
  w_stats :: lgtd_stats
  w_next_ptr :: nat
  w_ext :: "nat \<Rightarrow> bool"
  w_ext_pos :: nat
  w_clock :: "nat \<Rightarrow> lgtd_time_mono_t"
  w_clock_pos :: nat
  w_discovery_timeout :: int
  w_watchdog_started :: bool
  w_broadcast_endpoint :: lgtd_lifx_broadcast_endpoint
  w_exit :: "int option"

text \<open>The next call that may fail, a fresh address, and a reading of the clock.\<close>

definition ext_call :: "lgtd_world \<Rightarrow> bool \<times> lgtd_world" where
  "ext_call w = (w_ext w (w_ext_pos w), w\<lparr>w_ext_pos := Suc (w_ext_pos w)\<rparr>)"

definition fresh_ptr :: "lgtd_world \<Rightarrow> nat \<times> lgtd_world" where
  "fresh_ptr w = (w_next_ptr w, w\<lparr>w_next_ptr := Suc (w_next_ptr w)\<rparr>)"

definition lgtd_time_monotonic_msecs :: "lgtd_world \<Rightarrow> lgtd_time_mono_t \<times> lgtd_world" where
  "lgtd_time_monotonic_msecs w = (w_clock w (w_clock_pos w), w\<lparr>w_clock_pos := Suc (w_clock_pos w)\<rparr>)"

abbreviation find_gw :: "gw_ptr \<Rightarrow> lgtd_world \<Rightarrow> lgtd_lifx_gateway option" where
  "find_gw gw w \<equiv> map_of (w_gateways w) gw"

abbreviation find_bulb :: "bulb_addr \<Rightarrow> lgtd_world \<Rightarrow> lgtd_lifx_bulb option" where
  "find_bulb addr w \<equiv> map_of (w_bulbs w) addr"

definition upd_gw :: "gw_ptr \<Rightarrow> lgtd_lifx_gateway \<Rightarrow> lgtd_world \<Rightarrow> lgtd_world" where
  "upd_gw gw g w = w\<lparr>w_gateways := amod gw (\<lambda>_. g) (w_gateways w)\<rparr>"

definition upd_bulb :: "bulb_addr \<Rightarrow> lgtd_lifx_bulb \<Rightarrow> lgtd_world \<Rightarrow> lgtd_world" where
  "upd_bulb addr b w = w\<lparr>w_bulbs := amod addr (\<lambda>_. b) (w_bulbs w)\<rparr>"

text \<open>\<open>lgtd_err\<close> ends the process with an exit code; the callers below do nothing more once it is set.\<close>

definition lgtd_err :: "int \<Rightarrow> lgtd_world \<Rightarrow> lgtd_world" where
  "lgtd_err code w = w\<lparr>w_exit := Some code\<rparr>"

text \<open>
  \<open>LGTD_STATS_ADD_AND_UPDATE_PROCTITLE\<close>: a counter never gets negative (\<open>lgtd_stats_add\<close> asserts it).
\<close>

datatype stats_counter = Gateways | Bulbs | Bulbs_powered_on | Clients

fun lgtd_stats_get :: "stats_counter \<Rightarrow> lgtd_stats \<Rightarrow> int" where
  "lgtd_stats_get Gateways s = st_gateways s"
| "lgtd_stats_get Bulbs s = st_bulbs s"
| "lgtd_stats_get Bulbs_powered_on s = st_bulbs_powered_on s"
| "lgtd_stats_get Clients s = st_clients s"

fun stats_set :: "stats_counter \<Rightarrow> int \<Rightarrow> lgtd_stats \<Rightarrow> lgtd_stats" where
  "stats_set Gateways v s = s\<lparr>st_gateways := v\<rparr>"
| "stats_set Bulbs v s = s\<lparr>st_bulbs := v\<rparr>"
| "stats_set Bulbs_powered_on v s = s\<lparr>st_bulbs_powered_on := v\<rparr>"
| "stats_set Clients v s = s\<lparr>st_clients := v\<rparr>"

definition lgtd_stats_add :: "stats_counter \<Rightarrow> int \<Rightarrow> lgtd_world \<Rightarrow> lgtd_world option" where
  "lgtd_stats_add c v w =
     do {
       c_assert (0 \<le> lgtd_stats_get c (w_stats w) + v);
       Some (w\<lparr>w_stats := stats_set c (lgtd_stats_get c (w_stats w) + v) (w_stats w)\<rparr>)
     }"

subsection \<open>Timers\<close>

text \<open>
  \<open>lgtd_timer_start\<close>: \<open>calloc\<close>, \<open>event_new\<close> and \<open>evtimer_add\<close> may fail. The result is the timer,
  \<open>None\<close> for \<open>NULL\<close>.
\<close>

definition lgtd_timer_start ::
  "bool \<Rightarrow> bool \<Rightarrow> int \<Rightarrow> lgtd_timer_callback \<Rightarrow> lgtd_world \<Rightarrow> (timer_ptr option \<times> lgtd_world) option" where
  "lgtd_timer_start activate_now persistent ms cb w =
     do {
       c_assert (0 < ms);
       let (ok, w) = ext_call w;
       if \<not> ok then Some (None, w) else do {
         let (timer, w) = fresh_ptr w;
         let (event_ok, w) = ext_call w;
         if \<not> event_ok then Some (None, w) else do {
           let (added, w) = ext_call w;
           if \<not> added then Some (None, w)
           else Some (Some timer,
                  w\<lparr>w_timers := (timer, \<lparr>tm_callback = cb, tm_persistent = persistent, tm_timeout = ms,
                                         tm_activations = (if activate_now then 1 else 0)\<rparr>) # w_timers w\<rparr>)
         }
       }
     }"

definition lgtd_timer_activate :: "timer_ptr \<Rightarrow> lgtd_world \<Rightarrow> lgtd_world option" where
  "lgtd_timer_activate timer w =
     do {
       t \<leftarrow> map_of (w_timers w) timer;
       Some (w\<lparr>w_timers := amod timer (\<lambda>t. t\<lparr>tm_activations := Suc (tm_activations t)\<rparr>) (w_timers w)\<rparr>)
     }"

definition lgtd_timer_reschedule :: "timer_ptr \<Rightarrow> int \<Rightarrow> lgtd_world \<Rightarrow> lgtd_world option" where
  "lgtd_timer_reschedule timer ms w =
     do {
       t \<leftarrow> map_of (w_timers w) timer;
       Some (w\<lparr>w_timers := amod timer (\<lambda>t. t\<lparr>tm_timeout := ms\<rparr>) (w_timers w)\<rparr>)
     }"

definition lgtd_timer_stop :: "timer_ptr \<Rightarrow> lgtd_world \<Rightarrow> lgtd_world option" where
  "lgtd_timer_stop timer w =
     do {
       t \<leftarrow> map_of (w_timers w) timer;
       Some (w\<lparr>w_timers := adel timer (w_timers w)\<rparr>)
     }"

definition lgtd_timer_stop_all :: "lgtd_world \<Rightarrow> lgtd_world option" where
  "lgtd_timer_stop_all w = foreach lgtd_timer_stop (map fst (w_timers w)) w"

end
