(* ===== verification/Packet_Ring.thy ===== *)
theory Packet_Ring
  imports Lightsd_State
begin

text \<open>
  The output queue of a gateway (\<open>lgtd_lifx_gateway_enqueue_packet\<close> and the write event of
  \<open>lgtd_lifx_gateway_socket_event_callback\<close> in \<open>src/lifx/gateway.c\<close>): the bytes of a packet go to a libevent
  buffer and its type and size to a ring of 16 messages, which tells how many bytes make up
  the datagram at the head of the buffer. The ring refines a bounded FIFO list.
\<close>

subsection \<open>Definitions\<close>

definition LGTD_LIFX_GATEWAY_INC_MESSAGE_RING_INDEX :: "nat \<Rightarrow> nat" where
  "LGTD_LIFX_GATEWAY_INC_MESSAGE_RING_INDEX idx = (idx + 1) mod LGTD_LIFX_GATEWAY_PACKET_RING_SIZE"

text \<open>
  \<open>pkt\<close> is the memory at the payload pointer, \<open>None\<close> for \<open>NULL\<close>. Reading past its end has no result.
\<close>

definition lgtd_lifx_gateway_enqueue_packet ::
  "bool \<Rightarrow> lgtd_lifx_packet_header \<Rightarrow> lgtd_lifx_packet_info \<Rightarrow> bytes option
   \<Rightarrow> lgtd_lifx_gateway \<Rightarrow> lgtd_lifx_gateway option" where
  "lgtd_lifx_gateway_enqueue_packet be hdr pkt_info pkt gw =
     do {
       c_assert (hdr_site hdr = g_site gw);
       c_assert (g_pkt_ring_head gw < LGTD_LIFX_GATEWAY_PACKET_RING_SIZE);
       if g_pkt_ring_full gw then Some gw
       else do {
         let gw = gw\<lparr>g_write_buf := g_write_buf gw @ [header_bytes be hdr]\<rparr>;
         gw \<leftarrow> (case pkt of
                 None \<Rightarrow> Some gw
               | Some bs \<Rightarrow> do {
                   let decoded_hdr = lgtd_lifx_wire_decode_header be hdr;
                   c_assert (int (pi_size pkt_info) =
                             uint (hdr_size decoded_hdr) - int LGTD_LIFX_PACKET_HEADER_SIZE);
                   c_assert (pi_size pkt_info \<le> length bs);
                   Some (gw\<lparr>g_write_buf := g_write_buf gw @ [take (pi_size pkt_info) bs]\<rparr>)
                 });
         let gw = gw\<lparr>g_pkt_ring := (g_pkt_ring gw)[g_pkt_ring_head gw :=
                      \<lparr>msg_type = pi_type pkt_info,
                       msg_size = int LGTD_LIFX_PACKET_HEADER_SIZE + int (pi_size pkt_info)\<rparr>]\<rparr>;
         let gw = gw\<lparr>g_pkt_ring_head := LGTD_LIFX_GATEWAY_INC_MESSAGE_RING_INDEX (g_pkt_ring_head gw)\<rparr>;
         let gw = (if g_pkt_ring_head gw = g_pkt_ring_tail gw
                   then gw\<lparr>g_pkt_ring_full := True\<rparr> else gw);
         Some (gw\<lparr>g_socket_ev := True\<rparr>)
       }
     }"

text \<open>
  The write event. The environment gives the result of \<open>evbuffer_write_atmost\<close>, whether \<open>errno\<close> is
  \<open>EAGAIN\<close>, the length of the buffer afterwards and the clock. The result says whether the
  gateway must be dropped.
\<close>

definition lgtd_lifx_gateway_write_event ::
  "int \<Rightarrow> bool \<Rightarrow> nat \<Rightarrow> lgtd_time_mono_t \<Rightarrow> lgtd_lifx_gateway \<Rightarrow> (bool \<times> lgtd_lifx_gateway) option" where
  "lgtd_lifx_gateway_write_event nbytes again buf_len now gw =
     do {
       c_assert (g_pkt_ring_tail gw < LGTD_LIFX_GATEWAY_PACKET_RING_SIZE);
       if nbytes = -1 \<and> \<not> again then Some (True, gw)
       else do {
         let gw = gw\<lparr>g_written := g_written gw + (if nbytes = -1 then 0 else nbytes)\<rparr>;
         let gw = gw\<lparr>g_last_req_at := g_next_req_at gw\<rparr>;
         let gw = gw\<lparr>g_next_req_at := now\<rparr>;
         let tail = g_pkt_ring_tail gw;
         let msg = g_pkt_ring gw ! tail;
         let msg = msg\<lparr>msg_size := msg_size msg - nbytes\<rparr>;
         let gw = gw\<lparr>g_pkt_ring := (g_pkt_ring gw)[tail := msg]\<rparr>;
         let gw = (if msg_size msg = 0
                   then (let gw = (if msg_type msg = LGTD_LIFX_GET_TAG_LABELS
                                   then gw\<lparr>g_pending_refresh_req := False\<rparr> else gw);
                             gw = gw\<lparr>g_pkt_ring := (g_pkt_ring gw)[tail := msg\<lparr>msg_type := 0\<rparr>]\<rparr>;
                             gw = gw\<lparr>g_pkt_ring_tail := LGTD_LIFX_GATEWAY_INC_MESSAGE_RING_INDEX tail\<rparr>
                         in gw\<lparr>g_pkt_ring_full := False\<rparr>)
                   else gw);
         Some (False, if buf_len = 0 then gw\<lparr>g_socket_ev := False\<rparr> else gw)
       }
     }"

subsection \<open>The contract: a bounded FIFO of messages\<close>

text \<open>The contract on lists: a full queue drops a new message, and writing \<open>n\<close> bytes of the first message
  removes it once all its bytes are written.\<close>

definition fifo_enq :: "nat \<Rightarrow> lgtd_lifx_message \<Rightarrow> lgtd_lifx_message list \<Rightarrow> lgtd_lifx_message list" where
  "fifo_enq cap m q = (if length q < cap then q @ [m] else q)"

fun fifo_write :: "int \<Rightarrow> lgtd_lifx_message list \<Rightarrow> lgtd_lifx_message list" where
  "fifo_write n [] = []"
| "fifo_write n (m # q) = (if msg_size m = n then q else m\<lparr>msg_size := msg_size m - n\<rparr> # q)"

definition msgs_bytes :: "lgtd_lifx_message list \<Rightarrow> int" where
  "msgs_bytes q = sum_list (map msg_size q)"

datatype queue_op = Enq lgtd_lifx_message | Write int

fun fifo_op :: "nat \<Rightarrow> queue_op \<Rightarrow> lgtd_lifx_message list \<Rightarrow> lgtd_lifx_message list" where
  "fifo_op cap (Enq m) q = fifo_enq cap m q"
| "fifo_op cap (Write n) q = fifo_write n q"

text \<open>An operation the callers perform: a packet has bytes, and a write reports at most the bytes of the
  first message.\<close>

fun op_ok :: "queue_op \<Rightarrow> lgtd_lifx_message list \<Rightarrow> bool" where
  "op_ok (Enq m) q = (0 < msg_size m)"
| "op_ok (Write n) q = (case q of [] \<Rightarrow> False | m # _ \<Rightarrow> 0 \<le> n \<and> n \<le> msg_size m)"

fun op_delta :: "nat \<Rightarrow> queue_op \<Rightarrow> lgtd_lifx_message list \<Rightarrow> int" where
  "op_delta cap (Enq m) q = (if length q < cap then msg_size m else 0)"
| "op_delta cap (Write n) q = - n"

locale message_queue =
  fixes cap :: nat
    and enq :: "lgtd_lifx_message \<Rightarrow> 'q \<Rightarrow> 'q"
    and wr :: "int \<Rightarrow> 'q \<Rightarrow> 'q"
    and msgs :: "'q \<Rightarrow> lgtd_lifx_message list"
    and inv :: "'q \<Rightarrow> bool"
  assumes enq_inv: "inv q \<Longrightarrow> 0 < msg_size m \<Longrightarrow> inv (enq m q)"
    and enq_msgs: "inv q \<Longrightarrow> 0 < msg_size m \<Longrightarrow> msgs (enq m q) = fifo_enq cap m (msgs q)"
    and wr_inv: "inv q \<Longrightarrow> op_ok (Write n) (msgs q) \<Longrightarrow> inv (wr n q)"
    and wr_msgs: "inv q \<Longrightarrow> op_ok (Write n) (msgs q) \<Longrightarrow> msgs (wr n q) = fifo_write n (msgs q)"
    and msgs_pos: "inv q \<Longrightarrow> m \<in> set (msgs q) \<Longrightarrow> 0 < msg_size m"
begin

fun queue_op :: "queue_op \<Rightarrow> 'q \<Rightarrow> 'q" where
  "queue_op (Enq m) q = enq m q"
| "queue_op (Write n) q = wr n q"

lemma queue_op_refines:
  "inv q \<Longrightarrow> op_ok op (msgs q) \<Longrightarrow> inv (queue_op op q) \<and> msgs (queue_op op q) = fifo_op cap op (msgs q)"
  by (cases op) (auto simp: enq_inv enq_msgs wr_inv wr_msgs)

lemma queue_op_bytes:
  "inv q \<Longrightarrow> op_ok op (msgs q) \<Longrightarrow>
     msgs_bytes (msgs (queue_op op q)) = msgs_bytes (msgs q) + op_delta cap op (msgs q)"
  using queue_op_refines [of q op]
  by (cases op) (auto simp: fifo_enq_def msgs_bytes_def split: list.splits)

end

subsection \<open>The ring as a list\<close>

definition ring_count :: "lgtd_lifx_gateway \<Rightarrow> nat" where
  "ring_count gw =
     (if g_pkt_ring_full gw then LGTD_LIFX_GATEWAY_PACKET_RING_SIZE
      else (g_pkt_ring_head gw + LGTD_LIFX_GATEWAY_PACKET_RING_SIZE - g_pkt_ring_tail gw)
           mod LGTD_LIFX_GATEWAY_PACKET_RING_SIZE)"

definition ring_msgs :: "lgtd_lifx_gateway \<Rightarrow> lgtd_lifx_message list" where
  "ring_msgs gw =
     map (\<lambda>k. g_pkt_ring gw ! ((g_pkt_ring_tail gw + k) mod LGTD_LIFX_GATEWAY_PACKET_RING_SIZE))
       [0..<ring_count gw]"

definition ring_inv :: "lgtd_lifx_gateway \<Rightarrow> bool" where
  "ring_inv gw \<longleftrightarrow>
     length (g_pkt_ring gw) = LGTD_LIFX_GATEWAY_PACKET_RING_SIZE
     \<and> g_pkt_ring_head gw < LGTD_LIFX_GATEWAY_PACKET_RING_SIZE
     \<and> g_pkt_ring_tail gw < LGTD_LIFX_GATEWAY_PACKET_RING_SIZE
     \<and> (g_pkt_ring_full gw \<longrightarrow> g_pkt_ring_head gw = g_pkt_ring_tail gw)
     \<and> (\<forall>m\<in>set (ring_msgs gw). 0 < msg_size m)"

text \<open>The effects of the two operations on the ring alone.\<close>

definition ring_enq :: "lgtd_lifx_message \<Rightarrow> lgtd_lifx_gateway \<Rightarrow> lgtd_lifx_gateway" where
  "ring_enq m gw =
     (if g_pkt_ring_full gw then gw
      else (let h = LGTD_LIFX_GATEWAY_INC_MESSAGE_RING_INDEX (g_pkt_ring_head gw)
            in gw\<lparr>g_pkt_ring := (g_pkt_ring gw)[g_pkt_ring_head gw := m], g_pkt_ring_head := h,
                  g_pkt_ring_full := (h = g_pkt_ring_tail gw)\<rparr>))"

definition ring_write :: "int \<Rightarrow> lgtd_lifx_gateway \<Rightarrow> lgtd_lifx_gateway" where
  "ring_write n gw =
     (let tail = g_pkt_ring_tail gw; m = g_pkt_ring gw ! tail in
      if msg_size m = n
      then gw\<lparr>g_pkt_ring := (g_pkt_ring gw)[tail := m\<lparr>msg_size := 0, msg_type := 0\<rparr>],
              g_pkt_ring_tail := LGTD_LIFX_GATEWAY_INC_MESSAGE_RING_INDEX tail, g_pkt_ring_full := False\<rparr>
      else gw\<lparr>g_pkt_ring := (g_pkt_ring gw)[tail := m\<lparr>msg_size := msg_size m - n\<rparr>]\<rparr>)"

subsection \<open>The ring refines the contract\<close>

lemma ring_count_cases:
  assumes "g_pkt_ring_head gw < 16" "g_pkt_ring_tail gw < 16"
  shows "ring_count gw =
     (if g_pkt_ring_full gw then 16
      else if g_pkt_ring_tail gw \<le> g_pkt_ring_head gw then g_pkt_ring_head gw - g_pkt_ring_tail gw
      else g_pkt_ring_head gw + 16 - g_pkt_ring_tail gw)"
  using assms by (auto simp: ring_count_def mod_if)

lemma length_ring_msgs [simp]: "length (ring_msgs gw) = ring_count gw"
  by (simp add: ring_msgs_def)

lemma nth_ring_msgs:
  "k < ring_count gw \<Longrightarrow> ring_msgs gw ! k = g_pkt_ring gw ! ((g_pkt_ring_tail gw + k) mod 16)"
  by (simp add: ring_msgs_def)

lemma ring_slot:
  assumes "t < (16::nat)" "h < 16" "k \<le> 15"
  shows "(t + k) mod 16 = h \<longleftrightarrow> k = (if t \<le> h then h - t else h + 16 - t)"
  using assms by (auto simp: mod_if)

lemma ring_enq_msgs:
  assumes "ring_inv gw"
  shows "ring_msgs (ring_enq m gw) = fifo_enq 16 m (ring_msgs gw)"
proof (cases "g_pkt_ring_full gw")
  case True
  then show ?thesis by (simp add: ring_enq_def fifo_enq_def ring_count_def)
next
  case False
  let ?h = "g_pkt_ring_head gw" and ?t = "g_pkt_ring_tail gw" and ?g = "ring_enq m gw"
  have b: "?h < 16" "?t < 16" "length (g_pkt_ring gw) = 16" using assms by (auto simp: ring_inv_def)
  have c: "ring_count gw = (if ?t \<le> ?h then ?h - ?t else ?h + 16 - ?t)" "ring_count gw \<le> 15"
    using b False by (auto simp: ring_count_cases)
  have c': "ring_count ?g = ring_count gw + 1"
    using b False c(1)
    by (simp add: ring_enq_def LGTD_LIFX_GATEWAY_INC_MESSAGE_RING_INDEX_def Let_def ring_count_def)
      (auto simp: mod_if split: if_splits)
  have ring: "g_pkt_ring ?g = (g_pkt_ring gw)[?h := m]" "g_pkt_ring_tail ?g = ?t"
    using False by (simp_all add: ring_enq_def Let_def)
  show ?thesis
  proof (rule nth_equalityI)
    show "length (ring_msgs ?g) = length (fifo_enq 16 m (ring_msgs gw))"
      using c' c(2) by (simp add: fifo_enq_def)
    fix k assume "k < length (ring_msgs ?g)"
    then have k: "k \<le> ring_count gw" using c' by simp
    have "(?t + k) mod 16 = ?h \<longleftrightarrow> k = ring_count gw"
      using ring_slot [OF b(2,1), of k] k c by simp
    then show "ring_msgs ?g ! k = fifo_enq 16 m (ring_msgs gw) ! k"
      using k c(2) b by (auto simp: nth_ring_msgs c' ring fifo_enq_def nth_append)
  qed
qed

lemma ring_enq_inv:
  assumes "ring_inv gw" "0 < msg_size m"
  shows "ring_inv (ring_enq m gw)"
  using assms ring_enq_msgs [OF assms(1), of m]
  by (auto simp: ring_inv_def ring_enq_def fifo_enq_def Let_def
      LGTD_LIFX_GATEWAY_INC_MESSAGE_RING_INDEX_def split: if_splits)

lemma ring_msgs_first:
  assumes "0 < ring_count gw" "g_pkt_ring_tail gw < 16"
  shows "ring_msgs gw = g_pkt_ring gw ! g_pkt_ring_tail gw # tl (ring_msgs gw)"
proof -
  have "ring_msgs gw \<noteq> []" using assms(1) by (metis length_ring_msgs less_nat_zero_code list.size(3))
  moreover have "hd (ring_msgs gw) = g_pkt_ring gw ! g_pkt_ring_tail gw"
    using assms nth_ring_msgs [of 0 gw] calculation by (simp add: hd_conv_nth)
  ultimately show ?thesis by (metis list.collapse)
qed

lemma ring_write_msgs:
  assumes "ring_inv gw" "0 < ring_count gw"
  shows "ring_msgs (ring_write n gw) = fifo_write n (ring_msgs gw)"
proof -
  let ?h = "g_pkt_ring_head gw" and ?t = "g_pkt_ring_tail gw" and ?g = "ring_write n gw"
  let ?m = "g_pkt_ring gw ! ?t"
  have b: "?h < 16" "?t < 16" "length (g_pkt_ring gw) = 16"
    and full: "g_pkt_ring_full gw \<Longrightarrow> ?h = ?t" using assms by (auto simp: ring_inv_def)
  have le: "ring_count gw \<le> 16" using b by (auto simp: ring_count_cases)
  note first = ring_msgs_first [OF assms(2) b(2)]
  have tl: "tl (ring_msgs gw) ! k = g_pkt_ring gw ! ((?t + Suc k) mod 16)" if "Suc k < ring_count gw" for k
    using that by (simp add: nth_tl nth_ring_msgs)
  have slot: "(?t + Suc k) mod 16 \<noteq> ?t" if "Suc k < ring_count gw" for k
    using that le b ring_slot [OF b(2,2), of "Suc k"] by auto
  show ?thesis
  proof (cases "msg_size ?m = n")
    case True
    have "ring_count ?g = ring_count gw - 1"
      using b full assms(2) True
      by (simp add: ring_write_def LGTD_LIFX_GATEWAY_INC_MESSAGE_RING_INDEX_def Let_def ring_count_def)
        (auto simp: mod_if split: if_splits)
    moreover have "ring_msgs ?g ! k = tl (ring_msgs gw) ! k" if "k < ring_count gw - 1" for k
    proof -
      have "(LGTD_LIFX_GATEWAY_INC_MESSAGE_RING_INDEX ?t + k) mod 16 = (?t + Suc k) mod 16"
        by (simp add: LGTD_LIFX_GATEWAY_INC_MESSAGE_RING_INDEX_def mod_simps)
      moreover have "Suc k < ring_count gw" using that by simp
      ultimately show ?thesis
        using that True \<open>ring_count ?g = ring_count gw - 1\<close> slot [THEN not_sym, of k] tl [of k]
        by (simp add: nth_ring_msgs ring_write_def Let_def)
    qed
    ultimately have "ring_msgs ?g = tl (ring_msgs gw)" by (intro nth_equalityI) auto
    then show ?thesis using True by (subst first) simp
  next
    case False
    have "ring_count ?g = ring_count gw" using False by (simp add: ring_write_def Let_def ring_count_def)
    moreover have "ring_msgs ?g ! k = (?m\<lparr>msg_size := msg_size ?m - n\<rparr> # tl (ring_msgs gw)) ! k"
      if "k < ring_count gw" for k
      using that False b calculation tl [of "k - 1"] slot [of "k - 1"]
      by (cases k) (auto simp: nth_ring_msgs ring_write_def Let_def)
    ultimately have "ring_msgs ?g = ?m\<lparr>msg_size := msg_size ?m - n\<rparr> # tl (ring_msgs gw)"
      using assms(2) by (intro nth_equalityI) auto
    then show ?thesis using False by (subst first) simp
  qed
qed

lemma ring_count_pos: "ring_msgs gw = m # ms \<Longrightarrow> 0 < ring_count gw"
  by (metis length_Cons length_ring_msgs zero_less_Suc)

lemma ring_write_inv_le:
  assumes "ring_inv gw" "ring_msgs gw = m # ms" "n \<le> msg_size m"
  shows "ring_inv (ring_write n gw)"
proof -
  note w = ring_write_msgs [OF assms(1) ring_count_pos [OF assms(2)], of n]
  have "\<forall>m\<in>set (fifo_write n (ring_msgs gw)). 0 < msg_size m"
    using assms by (auto simp: ring_inv_def)
  then show ?thesis
    using assms(1) w
    by (auto simp: ring_inv_def ring_write_def Let_def LGTD_LIFX_GATEWAY_INC_MESSAGE_RING_INDEX_def)
qed

lemma ring_write_inv:
  assumes "ring_inv gw" "op_ok (Write n) (ring_msgs gw)"
  shows "ring_inv (ring_write n gw)"
  using assms ring_write_inv_le [of gw] by (cases "ring_msgs gw") auto

interpretation ring: message_queue 16 ring_enq ring_write ring_msgs ring_inv
proof unfold_locales
  fix gw m n
  assume inv: "ring_inv gw"
  show "ring_inv (ring_enq m gw)" if "0 < msg_size m" using inv that by (rule ring_enq_inv)
  show "ring_msgs (ring_enq m gw) = fifo_enq 16 m (ring_msgs gw)" using inv by (rule ring_enq_msgs)
  show "ring_inv (ring_write n gw)" if "op_ok (Write n) (ring_msgs gw)" using inv that by (rule ring_write_inv)
  show "ring_msgs (ring_write n gw) = fifo_write n (ring_msgs gw)" if "op_ok (Write n) (ring_msgs gw)"
    by (rule ring_write_msgs [OF inv]) (use that ring_count_pos in \<open>auto split: list.splits\<close>)
  show "0 < msg_size m" if "m \<in> set (ring_msgs gw)" using inv that by (simp add: ring_inv_def)
qed

subsection \<open>The operations of the gateway\<close>

definition packet_msg :: "lgtd_lifx_packet_info \<Rightarrow> lgtd_lifx_message" where
  "packet_msg pkt_info = \<lparr>msg_type = pi_type pkt_info,
     msg_size = int LGTD_LIFX_PACKET_HEADER_SIZE + int (pi_size pkt_info)\<rparr>"

text \<open>The chunks given to \<open>evbuffer_add\<close> for a packet.\<close>

definition packet_chunks :: "bool \<Rightarrow> lgtd_lifx_packet_header \<Rightarrow> lgtd_lifx_packet_info \<Rightarrow> bytes option \<Rightarrow> bytes list" where
  "packet_chunks be hdr pkt_info pkt =
     header_bytes be hdr # (case pkt of None \<Rightarrow> [] | Some bs \<Rightarrow> [take (pi_size pkt_info) bs])"

text \<open>A packet as the callers build it: a header for this gateway and a payload of the size it announces.\<close>

definition packet_ok ::
  "bool \<Rightarrow> lgtd_lifx_packet_header \<Rightarrow> lgtd_lifx_packet_info \<Rightarrow> bytes option \<Rightarrow> lgtd_lifx_gateway \<Rightarrow> bool" where
  "packet_ok be hdr pkt_info pkt gw \<longleftrightarrow>
     wf_header hdr \<and> hdr_site hdr = g_site gw
     \<and> uint (hdr_size (lgtd_lifx_wire_decode_header be hdr)) =
         int (pi_size pkt_info) + int LGTD_LIFX_PACKET_HEADER_SIZE
     \<and> (case pkt of None \<Rightarrow> pi_size pkt_info = 0 | Some bs \<Rightarrow> pi_size pkt_info \<le> length bs)"

lemma enqueue_packet_eq:
  assumes "packet_ok be hdr pkt_info pkt gw" "ring_inv gw"
  shows "lgtd_lifx_gateway_enqueue_packet be hdr pkt_info pkt gw =
     Some (if g_pkt_ring_full gw then gw
           else (ring_enq (packet_msg pkt_info) gw)
                  \<lparr>g_write_buf := g_write_buf gw @ packet_chunks be hdr pkt_info pkt, g_socket_ev := True\<rparr>)"
  using assms
  by (auto simp: lgtd_lifx_gateway_enqueue_packet_def packet_ok_def ring_inv_def ring_enq_def Let_def
      packet_msg_def packet_chunks_def split: option.splits)

lemma ring_msgs_update [simp]:
  "ring_msgs (gw\<lparr>g_write_buf := x\<rparr>) = ring_msgs gw" "ring_msgs (gw\<lparr>g_socket_ev := y\<rparr>) = ring_msgs gw"
  "ring_msgs (gw\<lparr>g_written := z\<rparr>) = ring_msgs gw" "ring_msgs (gw\<lparr>g_pending_refresh_req := y\<rparr>) = ring_msgs gw"
  "ring_msgs (gw\<lparr>g_last_req_at := t\<rparr>) = ring_msgs gw" "ring_msgs (gw\<lparr>g_next_req_at := t\<rparr>) = ring_msgs gw"
  by (simp_all add: ring_msgs_def ring_count_def)

lemma ring_inv_update [simp]:
  "ring_inv (gw\<lparr>g_write_buf := x\<rparr>) = ring_inv gw" "ring_inv (gw\<lparr>g_socket_ev := y\<rparr>) = ring_inv gw"
  "ring_inv (gw\<lparr>g_written := z\<rparr>) = ring_inv gw" "ring_inv (gw\<lparr>g_pending_refresh_req := y\<rparr>) = ring_inv gw"
  "ring_inv (gw\<lparr>g_last_req_at := t\<rparr>) = ring_inv gw" "ring_inv (gw\<lparr>g_next_req_at := t\<rparr>) = ring_inv gw"
  by (simp_all add: ring_inv_def)

lemma ring_write_frame [simp]:
  "g_written (ring_write n gw) = g_written gw" "g_write_buf (ring_write n gw) = g_write_buf gw"
  by (simp_all add: ring_write_def Let_def)

lemma ring_enq_frame [simp]:
  "g_written (ring_enq m gw) = g_written gw" "g_write_buf (ring_enq m gw) = g_write_buf gw"
  by (simp_all add: ring_enq_def Let_def)

lemma ring_full_iff: "ring_inv gw \<Longrightarrow> g_pkt_ring_full gw \<longleftrightarrow> ring_count gw = 16"
  by (auto simp: ring_inv_def ring_count_cases)

text \<open>The bytes of the buffer that are not yet written, and the agreement of the ring with it.\<close>

definition gw_buffered :: "lgtd_lifx_gateway \<Rightarrow> int" where
  "gw_buffered gw = int (length (concat (g_write_buf gw))) - g_written gw"

definition ring_sync :: "lgtd_lifx_gateway \<Rightarrow> bool" where
  "ring_sync gw \<longleftrightarrow> ring_inv gw \<and> msgs_bytes (ring_msgs gw) = gw_buffered gw"

lemma length_packet_chunks:
  "packet_ok be hdr pkt_info pkt gw \<Longrightarrow>
     int (length (concat (packet_chunks be hdr pkt_info pkt))) = msg_size (packet_msg pkt_info)"
  by (auto simp: packet_ok_def packet_chunks_def packet_msg_def length_header_bytes split: option.splits)

text \<open>
  C13: Enqueueing a packet on a gateway whose ring agrees with its output buffer never aborts. With
  room in the ring the packet is appended to the buffer and to the queue, and write events
  are asked for; a full queue of 16 packets drops the packet and changes nothing. The ring agrees
  with the buffer afterwards.
\<close>

theorem enqueue_packet_fifo:
  assumes "packet_ok be hdr pkt_info pkt gw" "ring_sync gw"
  shows "\<exists>gw'. lgtd_lifx_gateway_enqueue_packet be hdr pkt_info pkt gw = Some gw' \<and> ring_sync gw'
     \<and> ring_msgs gw' = fifo_enq 16 (packet_msg pkt_info) (ring_msgs gw)
     \<and> (if length (ring_msgs gw) = 16 then gw' = gw
        else g_write_buf gw' = g_write_buf gw @ packet_chunks be hdr pkt_info pkt \<and> g_socket_ev gw')"
proof -
  let ?m = "packet_msg pkt_info"
  have inv: "ring_inv gw" using assms(2) by (simp add: ring_sync_def)
  have pos: "0 < msg_size ?m" by (simp add: packet_msg_def)
  note eq = enqueue_packet_eq [OF assms(1) inv]
  show ?thesis
  proof (cases "g_pkt_ring_full gw")
    case True
    then show ?thesis using eq assms(2) ring_full_iff [OF inv] by (simp add: fifo_enq_def)
  next
    case False
    then have "ring_count gw < 16"
      using inv by (auto simp: ring_inv_def ring_count_cases)
    then show ?thesis
      using eq False assms ring_enq_msgs [OF inv, of ?m] ring_enq_inv [OF inv pos]
        length_packet_chunks [OF assms(1)]
      by (auto simp: ring_sync_def gw_buffered_def fifo_enq_def msgs_bytes_def)
  qed
qed

theorem enqueue_packet_fifo_witness:
  "\<exists>hdr gw'. lgtd_lifx_gateway_enqueue_packet False hdr
       (UNIMPLEMENTED ''GET_TIME'' LGTD_LIFX_GET_TIME) None
       (calloc_gateway [] (replicate 6 1) 5 0) = Some gw'
     \<and> ring_msgs gw' = [\<lparr>msg_type = LGTD_LIFX_GET_TIME, msg_size = 36\<rparr>]"
proof -
  let ?hdr = "zero_header\<lparr>hdr_size := 36, hdr_site := replicate 6 1\<rparr>"
  let ?i = "UNIMPLEMENTED ''GET_TIME'' LGTD_LIFX_GET_TIME"
  let ?gw = "calloc_gateway [] (replicate 6 1) 5 0"
  have ok: "packet_ok False ?hdr ?i None ?gw"
    by (simp add: packet_ok_def wf_header_def zero_header_def calloc_gateway_def UNIMPLEMENTED_def
        lgtd_lifx_wire_decode_header_def Let_def htole16_def protocol_defs)
  have msgs: "ring_msgs ?gw = []" by (simp add: ring_msgs_def ring_count_def calloc_gateway_def)
  then have sync: "ring_sync ?gw"
    by (simp add: ring_sync_def ring_inv_def msgs_bytes_def gw_buffered_def)
      (simp add: calloc_gateway_def)
  show ?thesis
    using enqueue_packet_fifo [OF ok sync] msgs
    by (auto simp: fifo_enq_def packet_msg_def UNIMPLEMENTED_def)
qed

definition write_event_result ::
  "int \<Rightarrow> nat \<Rightarrow> lgtd_time_mono_t \<Rightarrow> lgtd_lifx_gateway \<Rightarrow> lgtd_lifx_gateway" where
  "write_event_result nbytes buf_len now gw =
     (ring_write nbytes gw)
       \<lparr>g_written := g_written gw + (if nbytes = -1 then 0 else nbytes),
        g_last_req_at := g_next_req_at gw, g_next_req_at := now,
        g_pending_refresh_req :=
          (g_pending_refresh_req gw
           \<and> \<not> (msg_size (g_pkt_ring gw ! g_pkt_ring_tail gw) = nbytes
               \<and> msg_type (g_pkt_ring gw ! g_pkt_ring_tail gw) = LGTD_LIFX_GET_TAG_LABELS)),
        g_socket_ev := (buf_len \<noteq> 0 \<and> g_socket_ev gw)\<rparr>"

lemma write_event_eq:
  assumes "ring_inv gw" "nbytes \<noteq> -1 \<or> again"
  shows "lgtd_lifx_gateway_write_event nbytes again buf_len now gw =
     Some (False, write_event_result nbytes buf_len now gw)"
proof -
  let ?m = "g_pkt_ring gw ! g_pkt_ring_tail gw"
  have len: "g_pkt_ring_tail gw < length (g_pkt_ring gw)" "g_pkt_ring_tail gw < 16"
    using assms(1) by (auto simp: ring_inv_def)
  then show ?thesis
    using assms(2)
    by (cases "msg_size ?m = nbytes"; cases "buf_len = 0"; cases "msg_type ?m = LGTD_LIFX_GET_TAG_LABELS")
      (simp_all add: lgtd_lifx_gateway_write_event_def write_event_result_def ring_write_def Let_def)
qed

text \<open>
  C14: When a write event sends \<open>n\<close> bytes of the first queued packet, the callback does not abort and
  keeps the gateway: the packet leaves the queue exactly when all its bytes are written, otherwise
  it stays first with what is left of it; the order of the queue is kept, the ring still agrees with
  the buffer, and write events are no longer asked for exactly when the buffer is empty.
\<close>

theorem write_event_fifo:
  assumes "ring_sync gw" "op_ok (Write n) (ring_msgs gw)"
  shows "\<exists>gw'. lgtd_lifx_gateway_write_event n again buf_len now gw = Some (False, gw') \<and> ring_sync gw'
     \<and> ring_msgs gw' = fifo_write n (ring_msgs gw)
     \<and> g_socket_ev gw' = (buf_len \<noteq> 0 \<and> g_socket_ev gw)"
proof -
  have inv: "ring_inv gw" using assms(1) by (simp add: ring_sync_def)
  have n: "n \<noteq> -1" using assms(2) by (cases "ring_msgs gw") auto
  have "lgtd_lifx_gateway_write_event n again buf_len now gw =
      Some (False, write_event_result n buf_len now gw)" using inv n by (simp add: write_event_eq)
  moreover have "msgs_bytes (ring_msgs (ring_write n gw)) = msgs_bytes (ring_msgs gw) - n"
    using ring.queue_op_bytes [OF inv assms(2)] by simp
  moreover have "ring_msgs (ring_write n gw) = fifo_write n (ring_msgs gw)" "ring_inv (ring_write n gw)"
    using ring.wr_msgs [OF inv assms(2)] ring.wr_inv [OF inv assms(2)] by simp_all
  ultimately show ?thesis
    using assms(1) n by (simp add: ring_sync_def gw_buffered_def write_event_result_def)
qed

text \<open>A gateway with one queued packet of 36 bytes, for the examples.\<close>

definition example_gw :: lgtd_lifx_gateway where
  "example_gw = (ring_enq \<lparr>msg_type = LGTD_LIFX_GET_LIGHT_STATE, msg_size = 36\<rparr>
     (calloc_gateway [] (replicate 6 1) 5 0))\<lparr>g_write_buf := [replicate 36 0], g_socket_ev := True\<rparr>"

lemma example_gw_sync:
  "ring_sync example_gw"
  "ring_msgs example_gw = [\<lparr>msg_type = LGTD_LIFX_GET_LIGHT_STATE, msg_size = 36\<rparr>]"
proof -
  let ?gw = "calloc_gateway [] (replicate 6 1) 5 0"
  let ?m = "\<lparr>msg_type = LGTD_LIFX_GET_LIGHT_STATE, msg_size = 36\<rparr>"
  have msgs: "ring_msgs ?gw = []" by (simp add: ring_msgs_def ring_count_def calloc_gateway_def)
  then have inv: "ring_inv ?gw" by (simp add: ring_inv_def) (simp add: calloc_gateway_def)
  show m: "ring_msgs example_gw = [?m]"
    using ring_enq_msgs [OF inv, of ?m] msgs by (simp add: example_gw_def fifo_enq_def)
  show "ring_sync example_gw"
    using m ring_enq_inv [OF inv, of ?m]
    by (simp add: ring_sync_def example_gw_def msgs_bytes_def gw_buffered_def) (simp add: calloc_gateway_def)
qed

theorem write_event_fifo_witness:
  "\<exists>gw'. lgtd_lifx_gateway_write_event 36 False 0 7 example_gw = Some (False, gw')
     \<and> ring_msgs gw' = [] \<and> \<not> g_socket_ev gw'"
  using write_event_fifo [OF example_gw_sync(1), of 36 False 0 7] example_gw_sync(2) by auto

text \<open>
  C37: When the socket is not ready (\<open>evbuffer_write_atmost\<close> returns \<open>-1\<close> with \<open>EAGAIN\<close>) the callback
  subtracts that \<open>-1\<close> from the size of the first packet: the ring claims one byte more
  than the buffer holds and never agrees with it again by itself, so that the following datagrams are cut one
  byte off their packets.
\<close>

theorem write_event_eagain_desync:
  assumes "ring_sync gw" "ring_msgs gw = m # ms"
  shows "\<exists>gw'. lgtd_lifx_gateway_write_event (-1) True buf_len now gw = Some (False, gw')
     \<and> ring_msgs gw' = m\<lparr>msg_size := msg_size m + 1\<rparr> # ms
     \<and> msgs_bytes (ring_msgs gw') = gw_buffered gw' + 1 \<and> \<not> ring_sync gw' \<and> ring_inv gw'"
proof -
  have inv: "ring_inv gw" using assms(1) by (simp add: ring_sync_def)
  note w = ring_write_msgs [OF inv ring_count_pos [OF assms(2)], of "-1"]
  have pos: "0 < msg_size m" using inv assms(2) by (auto simp: ring_inv_def)
  then have inv': "ring_inv (ring_write (-1) gw)" by (intro ring_write_inv_le [OF inv assms(2)]) simp
  have "msg_size m \<noteq> -1" using pos by simp
  then have w: "ring_msgs (ring_write (-1) gw) = m\<lparr>msg_size := msg_size m + 1\<rparr> # ms"
    using w assms(2) by simp
  show ?thesis
    using write_event_eq [OF inv, of "-1" True buf_len now] w inv' assms
    by (auto simp: ring_sync_def msgs_bytes_def gw_buffered_def write_event_result_def)
qed

theorem write_event_eagain_desync_witness:
  "\<exists>gw' gw''. lgtd_lifx_gateway_write_event (-1) True 36 7 example_gw = Some (False, gw')
     \<and> lgtd_lifx_gateway_write_event 36 False 0 8 gw' = Some (False, gw'')
     \<and> gw_buffered gw'' = 0 \<and> ring_msgs gw'' = [\<lparr>msg_type = LGTD_LIFX_GET_LIGHT_STATE, msg_size = 1\<rparr>]"
proof -
  from write_event_eagain_desync [OF example_gw_sync, of 36 7] obtain gw' where
    gw': "lgtd_lifx_gateway_write_event (-1) True 36 7 example_gw = Some (False, gw')"
      "ring_msgs gw' = [\<lparr>msg_type = LGTD_LIFX_GET_LIGHT_STATE, msg_size = 37\<rparr>]"
      "msgs_bytes (ring_msgs gw') = gw_buffered gw' + 1" "ring_inv gw'" by auto
  note w = ring_write_msgs [OF gw'(4) ring_count_pos [OF gw'(2)], of 36]
  show ?thesis
    using gw' w write_event_eq [OF gw'(4), of 36 False 0 8]
    by (auto simp: msgs_bytes_def gw_buffered_def write_event_result_def)
qed

end
