(* ===== verification/Tagging.thy ===== *)
theory Tagging
  imports Lightsd_State
begin

text \<open>
  Tags (\<open>src/lifx/tagging.c\<close>): a tag is a label and the list of the sites (gateways) that know it, each with
  the tag id the gateway uses. A tag lives as long as it has sites. The contract is the relation
  \<open>has_site\<close>: which tag has which id on which gateway.
\<close>

subsection \<open>Definitions\<close>

definition lgtd_lifx_tagging_find_site :: "lgtd_lifx_site list \<Rightarrow> gw_ptr \<Rightarrow> lgtd_lifx_site option" where
  "lgtd_lifx_tagging_find_site sites gw = List.find (\<lambda>site. s_gw site = gw) sites"

definition lgtd_lifx_tagging_find_tag :: "string \<Rightarrow> lgtd_world \<Rightarrow> tag_ptr option" where
  "lgtd_lifx_tagging_find_tag tag_label w =
     map_option fst (List.find (\<lambda>(p, tag). cstr (t_label tag) = cstr tag_label) (w_tags w))"

definition lgtd_lifx_tagging_allocate_tag ::
  "string \<Rightarrow> lgtd_world \<Rightarrow> (tag_ptr option \<times> lgtd_world) option" where
  "lgtd_lifx_tagging_allocate_tag tag_label w =
     do {
       c_assert (length (cstr tag_label) < LGTD_LIFX_LABEL_SIZE);
       let (ok, w) = ext_call w;
       if \<not> ok then Some (None, w)
       else do {
         let (tag, w) = fresh_ptr w;
         let label = c_strncpy (cstr tag_label) (LGTD_LIFX_LABEL_SIZE - 1) @ [CHR 0x00];
         Some (Some tag, w\<lparr>w_tags := (tag, \<lparr>t_label = label, t_sites = []\<rparr>) # w_tags w\<rparr>)
       }
     }"

definition lgtd_lifx_tagging_deallocate_tag :: "tag_ptr \<Rightarrow> lgtd_world \<Rightarrow> lgtd_world option" where
  "lgtd_lifx_tagging_deallocate_tag tag w =
     do {
       t \<leftarrow> map_of (w_tags w) tag;
       c_assert (t_sites t = []);
       Some (w\<lparr>w_tags := adel tag (w_tags w)\<rparr>)
     }"

definition lgtd_lifx_tagging_incref ::
  "string \<Rightarrow> gw_ptr \<Rightarrow> nat \<Rightarrow> lgtd_world \<Rightarrow> (tag_ptr option \<times> lgtd_world) option" where
  "lgtd_lifx_tagging_incref tag_label gw tag_id w =
     do {
       c_assert (length (cstr tag_label) < LGTD_LIFX_LABEL_SIZE);
       c_assert (tag_id < LGTD_LIFX_GATEWAY_MAX_TAGS);
       (found, dealloc_tag, w) \<leftarrow>
         (case lgtd_lifx_tagging_find_tag tag_label w of
            Some tag \<Rightarrow> Some (Some tag, False, w)
          | None \<Rightarrow> do {
              (tag, w) \<leftarrow> lgtd_lifx_tagging_allocate_tag tag_label w;
              Some (tag, True, w)
            });
       case found of
         None \<Rightarrow> Some (None, w)
       | Some tag \<Rightarrow> do {
           t \<leftarrow> map_of (w_tags w) tag;
           case lgtd_lifx_tagging_find_site (t_sites t) gw of
             Some site \<Rightarrow> do {
               c_assert (s_tag_id site = tag_id);
               Some (Some tag, w)
             }
           | None \<Rightarrow> do {
               let (ok, w) = ext_call w;
               if \<not> ok
               then (if dealloc_tag
                     then do { w \<leftarrow> lgtd_lifx_tagging_deallocate_tag tag w; Some (None, w) }
                     else Some (None, w))
               else Some (Some tag,
                      w\<lparr>w_tags := amod tag (\<lambda>t. t\<lparr>t_sites := \<lparr>s_gw = gw, s_tag_id = tag_id\<rparr> # t_sites t\<rparr>)
                                    (w_tags w)\<rparr>)
             }
         }
     }"

definition lgtd_lifx_tagging_decref :: "tag_ptr \<Rightarrow> gw_ptr \<Rightarrow> lgtd_world \<Rightarrow> lgtd_world option" where
  "lgtd_lifx_tagging_decref tag gw w =
     do {
       t \<leftarrow> map_of (w_tags w) tag;
       let w = (case lgtd_lifx_tagging_find_site (t_sites t) gw of
                  Some site \<Rightarrow> w\<lparr>w_tags := amod tag (\<lambda>t. t\<lparr>t_sites := remove1 site (t_sites t)\<rparr>) (w_tags w)\<rparr>
                | None \<Rightarrow> w);
       t \<leftarrow> map_of (w_tags w) tag;
       if t_sites t = [] then lgtd_lifx_tagging_deallocate_tag tag w else Some w
     }"

subsection \<open>Well-formed tags\<close>

definition has_site :: "lgtd_world \<Rightarrow> tag_ptr \<Rightarrow> gw_ptr \<Rightarrow> nat \<Rightarrow> bool" where
  "has_site w tag gw tag_id \<longleftrightarrow>
     (\<exists>t. map_of (w_tags w) tag = Some t \<and> \<lparr>s_gw = gw, s_tag_id = tag_id\<rparr> \<in> set (t_sites t))"

definition wf_tag :: "lgtd_lifx_tag \<Rightarrow> bool" where
  "wf_tag t \<longleftrightarrow> length (t_label t) = LGTD_LIFX_LABEL_SIZE \<and> length (cstr (t_label t)) < LGTD_LIFX_LABEL_SIZE
     \<and> distinct (map s_gw (t_sites t))"

definition tag_labels :: "lgtd_world \<Rightarrow> string list" where
  "tag_labels w = map (cstr \<circ> t_label \<circ> snd) (w_tags w)"

definition wf_tags :: "lgtd_world \<Rightarrow> bool" where
  "wf_tags w \<longleftrightarrow> distinct (map fst (w_tags w)) \<and> (\<forall>p\<in>fst ` set (w_tags w). p < w_next_ptr w)
     \<and> distinct (tag_labels w) \<and> (\<forall>t\<in>snd ` set (w_tags w). wf_tag t)"

lemma find_SomeD: "List.find P xs = Some x \<Longrightarrow> x \<in> set xs \<and> P x"
  by (induction xs) (auto split: if_splits)

lemma site_eta: "site = \<lparr>s_gw = s_gw site, s_tag_id = s_tag_id site\<rparr>"
  by simp

lemma wf_tags_lookup: "wf_tags w \<Longrightarrow> map_of (w_tags w) p = Some t \<Longrightarrow> wf_tag t \<and> p < w_next_ptr w"
  by (force simp: wf_tags_def dest: map_of_SomeD)

lemma has_site_unique:
  assumes "wf_tags w" "has_site w tag gw i" "has_site w tag gw j"
  shows "i = j"
proof -
  from assms(2,3) obtain t where t: "map_of (w_tags w) tag = Some t"
    "\<lparr>s_gw = gw, s_tag_id = i\<rparr> \<in> set (t_sites t)" "\<lparr>s_gw = gw, s_tag_id = j\<rparr> \<in> set (t_sites t)"
    by (auto simp: has_site_def)
  have "distinct (map s_gw (t_sites t))" using wf_tags_lookup [OF assms(1) t(1)] by (simp add: wf_tag_def)
  then have "inj_on s_gw (set (t_sites t))" by (simp add: distinct_map)
  from inj_onD [OF this _ t(2,3)] show ?thesis by simp
qed

lemma find_site_Some:
  "lgtd_lifx_tagging_find_site sites gw = Some site \<Longrightarrow> site \<in> set sites \<and> s_gw site = gw"
  by (auto simp: lgtd_lifx_tagging_find_site_def dest: find_SomeD)

lemma find_site_None:
  "lgtd_lifx_tagging_find_site sites gw = None \<longleftrightarrow> gw \<notin> s_gw ` set sites"
  by (auto simp: lgtd_lifx_tagging_find_site_def find_None_iff)

lemma find_tag_Some:
  assumes "wf_tags w" "lgtd_lifx_tagging_find_tag label w = Some p"
  shows "\<exists>t. map_of (w_tags w) p = Some t \<and> cstr (t_label t) = cstr label"
proof -
  from assms(2) obtain t where "List.find (\<lambda>(p, tag). cstr (t_label tag) = cstr label) (w_tags w) = Some (p, t)"
    by (auto simp: lgtd_lifx_tagging_find_tag_def)
  then have "(p, t) \<in> set (w_tags w)" "cstr (t_label t) = cstr label" by (auto dest: find_SomeD)
  then show ?thesis using assms(1) by (auto simp: wf_tags_def)
qed

lemma find_tag_None:
  "lgtd_lifx_tagging_find_tag label w = None \<longleftrightarrow> cstr label \<notin> set (tag_labels w)"
  by (force simp: lgtd_lifx_tagging_find_tag_def find_None_iff tag_labels_def)

text \<open>The tag a label finds is the only one with that label.\<close>

lemma find_tag_eq:
  assumes "wf_tags w" "map_of (w_tags w) p = Some t" "cstr (t_label t) = cstr label"
  shows "lgtd_lifx_tagging_find_tag label w = Some p"
proof -
  have "cstr label \<in> set (tag_labels w)"
    using map_of_SomeD [OF assms(2)] assms(3) by (force simp: tag_labels_def)
  then obtain q where q: "lgtd_lifx_tagging_find_tag label w = Some q"
    using find_tag_None [of label w] by auto
  then obtain u where u: "map_of (w_tags w) q = Some u" "cstr (t_label u) = cstr label"
    using find_tag_Some assms(1) by blast
  have "distinct (tag_labels w)" using assms(1) by (simp add: wf_tags_def)
  then have "inj_on (cstr \<circ> t_label \<circ> snd) (set (w_tags w))"
    by (simp add: tag_labels_def distinct_map)
  from inj_onD [OF this _ map_of_SomeD [OF assms(2)] map_of_SomeD [OF u(1)]]
  have "(p, t) = (q, u)" using assms(3) u(2) by simp
  then show ?thesis using q by simp
qed

subsection \<open>What the operations do\<close>

text \<open>What the operations on tags leave alone: everything but the tags, the outcomes used up and the allocator.\<close>

definition tags_frame :: "lgtd_world \<Rightarrow> lgtd_world \<Rightarrow> bool" where
  "tags_frame w w' \<longleftrightarrow> w_next_ptr w \<le> w_next_ptr w'
     \<and> w_be w' = w_be w \<and> w_client_id w' = w_client_id w \<and> w_gateways w' = w_gateways w
     \<and> w_bulbs w' = w_bulbs w \<and> w_timers w' = w_timers w \<and> w_stats w' = w_stats w
     \<and> w_ext w' = w_ext w \<and> w_clock w' = w_clock w \<and> w_clock_pos w' = w_clock_pos w
     \<and> w_discovery_timeout w' = w_discovery_timeout w \<and> w_watchdog_started w' = w_watchdog_started w
     \<and> w_broadcast_endpoint w' = w_broadcast_endpoint w \<and> w_exit w' = w_exit w"

lemma tags_frame_refl [simp]: "tags_frame w w"
  by (simp add: tags_frame_def)

lemma tags_frame_trans: "tags_frame w w' \<Longrightarrow> tags_frame w' w'' \<Longrightarrow> tags_frame w w''"
  by (simp add: tags_frame_def)

lemma cstr_new_label:
  assumes "length (cstr label) < 32"
  shows "cstr (c_strncpy (cstr label) 31 @ [CHR 0x00]) = cstr label"
proof -
  have "c_strncpy (cstr label) 31 @ [CHR 0x00] = cstr label @ replicate (Suc (31 - length (cstr label))) (CHR 0x00)"
    using assms by (simp add: c_strncpy_def replicate_append_same)
  then show ?thesis by (simp only: cstr_pad nul_notin_cstr not_False_eq_True)
qed

lemma allocate_tag_spec:
  assumes "wf_tags w" "length (cstr label) < 32" "cstr label \<notin> set (tag_labels w)"
  shows "\<exists>r w'. lgtd_lifx_tagging_allocate_tag label w = Some (r, w') \<and> tags_frame w w'
     \<and> (case r of None \<Rightarrow> w_tags w' = w_tags w
        | Some p \<Rightarrow> p \<notin> fst ` set (w_tags w) \<and> p < w_next_ptr w' \<and>
            (\<exists>t. w_tags w' = (p, t) # w_tags w \<and> wf_tag t \<and> t_sites t = [] \<and> cstr (t_label t) = cstr label))"
  using assms
  by (auto simp: lgtd_lifx_tagging_allocate_tag_def ext_call_def fresh_ptr_def Let_def tags_frame_def
      wf_tags_def wf_tag_def cstr_new_label)

lemma wf_tags_Cons:
  assumes "wf_tags w" "w_tags w' = (p, t) # w_tags w" "w_next_ptr w \<le> w_next_ptr w'"
    and "p \<notin> fst ` set (w_tags w)" "p < w_next_ptr w'" "wf_tag t" "cstr (t_label t) \<notin> set (tag_labels w)"
  shows "wf_tags w'"
  using assms by (force simp: wf_tags_def tag_labels_def)

lemma wf_tags_same:
  "wf_tags w \<Longrightarrow> w_tags w' = w_tags w \<Longrightarrow> w_next_ptr w \<le> w_next_ptr w' \<Longrightarrow> wf_tags w'"
  by (force simp: wf_tags_def tag_labels_def)

lemma wf_tags_amod:
  assumes "wf_tags w" "w_tags w' = amod p f (w_tags w)" "w_next_ptr w \<le> w_next_ptr w'"
    and "\<And>t. map_of (w_tags w) p = Some t \<Longrightarrow> wf_tag (f t) \<and> t_label (f t) = t_label t"
  shows "wf_tags w'"
proof -
  have d: "distinct (map fst (w_tags w))" using assms(1) by (simp add: wf_tags_def)
  have f: "wf_tag (f t) \<and> t_label (f t) = t_label t" if "(p, t) \<in> set (w_tags w)" for t
    using assms(4) d that by simp
  have "tag_labels w' = tag_labels w"
    using f by (auto simp: tag_labels_def assms(2) amod_def)
  moreover have "\<forall>t\<in>snd ` set (w_tags w'). wf_tag t"
    using f assms(1) by (force simp: assms(2) amod_def wf_tags_def)
  ultimately show ?thesis using assms(1,2,3) by (force simp: wf_tags_def)
qed

lemma wf_tags_adel:
  assumes "wf_tags w" "w_tags w' = adel p (w_tags w)" "w_next_ptr w' = w_next_ptr w"
  shows "wf_tags w'"
proof -
  have "distinct (tag_labels w')"
    using assms(1) distinct_map_filter unfolding assms(2) tag_labels_def adel_def wf_tags_def by blast
  then show ?thesis using assms by (auto simp: wf_tags_def set_adel)
qed

text \<open>A tag found or created for a label, the first step of \<open>lgtd_lifx_tagging_incref\<close>.\<close>

lemma has_site_Cons:
  "w_tags w' = (p, t) # w_tags w \<Longrightarrow> p \<notin> fst ` set (w_tags w) \<Longrightarrow> t_sites t = [] \<Longrightarrow>
     has_site w' q gw i = has_site w q gw i"
  by (auto simp: has_site_def) (metis domI dom_map_of_conv_image_fst)

lemma has_site_same: "w_tags w' = w_tags w \<Longrightarrow> has_site w' = has_site w"
  by (simp add: has_site_def fun_eq_iff)

lemma has_site_add:
  assumes "map_of (w_tags w) p = Some t"
    and "w_tags w' = amod p (\<lambda>t. t\<lparr>t_sites := \<lparr>s_gw = gw, s_tag_id = i\<rparr> # t_sites t\<rparr>) (w_tags w)"
  shows "has_site w' q g j \<longleftrightarrow> has_site w q g j \<or> (q = p \<and> g = gw \<and> j = i)"
  using assms by (auto simp: has_site_def)

lemma incref_add_site:
  assumes "wf_tags w" "map_of (w_tags w) p = Some t" "lgtd_lifx_tagging_find_site (t_sites t) gw = None"
    and "w' = w\<lparr>w_ext_pos := e, w_tags := amod p (\<lambda>t. t\<lparr>t_sites := \<lparr>s_gw = gw, s_tag_id = i\<rparr> # t_sites t\<rparr>) (w_tags w)\<rparr>"
  shows "wf_tags w' \<and> tags_frame w w'
     \<and> (\<forall>q g j. has_site w' q g j \<longleftrightarrow> has_site w q g j \<or> (q = p \<and> g = gw \<and> j = i))"
proof -
  have "wf_tags w'"
    by (rule wf_tags_amod [OF assms(1)])
      (use assms wf_tags_lookup [OF assms(1)] in \<open>auto simp: wf_tag_def find_site_None\<close>)
  then show ?thesis
    using has_site_add [OF assms(2), of w' gw i] assms(4) by (simp add: tags_frame_def)
qed

lemma incref_found:
  assumes "wf_tags w" "length (cstr label) < 32" "i < 64" "lgtd_lifx_tagging_find_tag label w = Some p"
    and uniq: "\<And>j. has_site w p gw j \<Longrightarrow> j = i"
  shows "\<exists>r w'. lgtd_lifx_tagging_incref label gw i w = Some (r, w') \<and> wf_tags w' \<and> tags_frame w w'
     \<and> (case r of
          None \<Rightarrow> w_tags w' = w_tags w
        | Some q \<Rightarrow> q = p \<and> (\<forall>q g j. has_site w' q g j \<longleftrightarrow> has_site w q g j \<or> (q = p \<and> g = gw \<and> j = i)))"
proof -
  obtain t where t: "map_of (w_tags w) p = Some t" using find_tag_Some [OF assms(1,4)] by blast
  show ?thesis
  proof (cases "lgtd_lifx_tagging_find_site (t_sites t) gw")
    case (Some site)
    have "site = \<lparr>s_gw = gw, s_tag_id = s_tag_id site\<rparr>" using find_site_Some [OF Some] by simp
    then have "has_site w p gw (s_tag_id site)"
      using find_site_Some [OF Some] t by (metis has_site_def)
    then show ?thesis
      using assms t Some uniq by (auto simp: lgtd_lifx_tagging_incref_def has_site_def)
  next
    case None
    show ?thesis
    proof (cases "w_ext w (w_ext_pos w)")
      case True
      then show ?thesis
        using assms t None incref_add_site [OF assms(1) t None refl, where e = "Suc (w_ext_pos w)" and i = i]
        by (simp add: lgtd_lifx_tagging_incref_def ext_call_def)
    next
      case False
      then show ?thesis
        using assms t None wf_tags_same [OF assms(1), of "w\<lparr>w_ext_pos := Suc (w_ext_pos w)\<rparr>"]
        by (simp add: lgtd_lifx_tagging_incref_def ext_call_def tags_frame_def)
    qed
  qed
qed

lemma incref_new:
  assumes "wf_tags w" "length (cstr label) < 32" "i < 64" "lgtd_lifx_tagging_find_tag label w = None"
  shows "\<exists>r w'. lgtd_lifx_tagging_incref label gw i w = Some (r, w') \<and> wf_tags w' \<and> tags_frame w w'
     \<and> (case r of
          None \<Rightarrow> w_tags w' = w_tags w
        | Some p \<Rightarrow> p \<notin> fst ` set (w_tags w) \<and> lgtd_lifx_tagging_find_tag label w' = Some p
            \<and> (\<forall>q g j. has_site w' q g j \<longleftrightarrow> has_site w q g j \<or> (q = p \<and> g = gw \<and> j = i)))"
proof -
  have new: "cstr label \<notin> set (tag_labels w)" using assms(4) by (simp add: find_tag_None)
  from allocate_tag_spec [OF assms(1,2) new] obtain r w1 where
    r: "lgtd_lifx_tagging_allocate_tag label w = Some (r, w1)" "tags_frame w w1"
      "case r of None \<Rightarrow> w_tags w1 = w_tags w
       | Some p \<Rightarrow> p \<notin> fst ` set (w_tags w) \<and> p < w_next_ptr w1 \<and>
           (\<exists>t. w_tags w1 = (p, t) # w_tags w \<and> wf_tag t \<and> t_sites t = [] \<and> cstr (t_label t) = cstr label)"
    by blast
  show ?thesis
  proof (cases r)
    case None
    then show ?thesis
      using assms r wf_tags_same [OF assms(1), of w1]
      by (simp add: lgtd_lifx_tagging_incref_def tags_frame_def)
  next
    case (Some p)
    then obtain t where t: "p \<notin> fst ` set (w_tags w)" "p < w_next_ptr w1" "w_tags w1 = (p, t) # w_tags w"
      "wf_tag t" "t_sites t = []" "cstr (t_label t) = cstr label" using r(3) by auto
    have wf1: "wf_tags w1"
      by (rule wf_tags_Cons [OF assms(1) t(3)]) (use t new r(2) in \<open>auto simp: tags_frame_def\<close>)
    have none: "lgtd_lifx_tagging_find_site (t_sites t) gw = None" by (simp add: find_site_None t(5))
    have lookup: "map_of (w_tags w1) p = Some t" by (simp add: t(3))
    note sites = has_site_Cons [OF t(3,1,5)]
    show ?thesis
    proof (cases "w_ext w1 (w_ext_pos w1)")
      case True
      note add = incref_add_site [OF wf1 lookup none refl, where e = "Suc (w_ext_pos w1)" and i = i]
      let ?w = "w1\<lparr>w_ext_pos := Suc (w_ext_pos w1),
        w_tags := amod p (\<lambda>t. t\<lparr>t_sites := \<lparr>s_gw = gw, s_tag_id = i\<rparr> # t_sites t\<rparr>) (w_tags w1)\<rparr>"
      have "lgtd_lifx_tagging_find_tag label ?w = Some p"
        by (rule find_tag_eq [of _ _ "t\<lparr>t_sites := \<lparr>s_gw = gw, s_tag_id = i\<rparr> # t_sites t\<rparr>"])
          (use add lookup t(6) in auto)
      then show ?thesis
        using assms r Some True none lookup add sites t(1) tags_frame_trans [OF r(2)]
        by (simp add: lgtd_lifx_tagging_incref_def ext_call_def)
    next
      case False
      have "wf_tags (w1\<lparr>w_ext_pos := Suc (w_ext_pos w1), w_tags := w_tags w\<rparr>)"
        by (rule wf_tags_same [OF assms(1)]) (use r(2) in \<open>auto simp: tags_frame_def\<close>)
      then show ?thesis
        using assms r Some False none lookup t
        by (simp add: lgtd_lifx_tagging_incref_def ext_call_def lgtd_lifx_tagging_deallocate_tag_def
            adel_id tags_frame_def)
    qed
  qed
qed

text \<open>\<open>has_site\<close> before and after a reference is added: the contract of \<open>lgtd_lifx_tagging_incref\<close>.\<close>

definition incref_result :: "lgtd_world \<Rightarrow> string \<Rightarrow> gw_ptr \<Rightarrow> nat \<Rightarrow> tag_ptr option \<Rightarrow> lgtd_world \<Rightarrow> bool" where
  "incref_result w label gw i r w' =
     (case r of
        None \<Rightarrow> w_tags w' = w_tags w
      | Some p \<Rightarrow> lgtd_lifx_tagging_find_tag label w' = Some p
          \<and> (lgtd_lifx_tagging_find_tag label w = Some p
             \<or> (lgtd_lifx_tagging_find_tag label w = None \<and> (\<forall>g j. \<not> has_site w p g j)))
          \<and> (\<forall>q g j. has_site w' q g j \<longleftrightarrow> has_site w q g j \<or> (q = p \<and> g = gw \<and> j = i)))"

lemma has_site_dom: "has_site w p g j \<Longrightarrow> p \<in> fst ` set (w_tags w)"
  by (auto simp: has_site_def) (metis domI dom_map_of_conv_image_fst)

lemma find_tag_labels:
  "tag_labels w' = tag_labels w \<Longrightarrow> map fst (w_tags w') = map fst (w_tags w) \<Longrightarrow>
     lgtd_lifx_tagging_find_tag label w' = lgtd_lifx_tagging_find_tag label w"
  unfolding tag_labels_def lgtd_lifx_tagging_find_tag_def
proof (induction "w_tags w'" arbitrary: w w')
  case (Cons x xs)
  then obtain y ys where "w_tags w = y # ys" "fst x = fst y" "map fst xs = map fst ys"
    "map (cstr \<circ> t_label \<circ> snd) xs = map (cstr \<circ> t_label \<circ> snd) ys"
    "cstr (t_label (snd x)) = cstr (t_label (snd y))" by (cases "w_tags w") auto
  with Cons(1) [of "w'\<lparr>w_tags := xs\<rparr>" "w\<lparr>w_tags := ys\<rparr>"] Cons(2) [symmetric]
  show ?case by (auto simp: case_prod_beta)
qed simp

lemma incref_spec:
  assumes "wf_tags w" "length (cstr label) < 32" "i < 64"
    and "\<And>p j. lgtd_lifx_tagging_find_tag label w = Some p \<Longrightarrow> has_site w p gw j \<Longrightarrow> j = i"
  shows "\<exists>r w'. lgtd_lifx_tagging_incref label gw i w = Some (r, w') \<and> wf_tags w' \<and> tags_frame w w'
     \<and> incref_result w label gw i r w'"
proof (cases "lgtd_lifx_tagging_find_tag label w")
  case None
  from incref_new [OF assms(1-3) None, of gw] obtain r w' where
    r: "lgtd_lifx_tagging_incref label gw i w = Some (r, w')" "wf_tags w'" "tags_frame w w'"
      "case r of None \<Rightarrow> w_tags w' = w_tags w
       | Some p \<Rightarrow> p \<notin> fst ` set (w_tags w) \<and> lgtd_lifx_tagging_find_tag label w' = Some p
            \<and> (\<forall>q g j. has_site w' q g j \<longleftrightarrow> has_site w q g j \<or> (q = p \<and> g = gw \<and> j = i))" by blast
  then have "incref_result w label gw i r w'"
    using has_site_dom [of w] None by (cases r) (auto simp: incref_result_def)
  with r show ?thesis by blast
next
  case (Some p)
  from incref_found [OF assms(1-3) Some assms(4) [OF Some]] obtain r w' where
    r: "lgtd_lifx_tagging_incref label gw i w = Some (r, w')" "wf_tags w'" "tags_frame w w'"
      "case r of None \<Rightarrow> w_tags w' = w_tags w
       | Some q \<Rightarrow> q = p \<and> (\<forall>q g j. has_site w' q g j \<longleftrightarrow> has_site w q g j \<or> (q = p \<and> g = gw \<and> j = i))"
    by blast
  moreover have "lgtd_lifx_tagging_find_tag label w' = Some p" if "r = Some q" for q
  proof -
    obtain t where t: "map_of (w_tags w) p = Some t" using find_tag_Some [OF assms(1) Some] by blast
    have "tag_labels w' = tag_labels w \<and> map fst (w_tags w') = map fst (w_tags w)"
      using r(1) t Some that assms(2,3)
      by (auto simp: lgtd_lifx_tagging_incref_def ext_call_def tag_labels_def amod_def Let_def
          split: option.splits if_splits Option.bind_splits)
    then show ?thesis using find_tag_labels Some by metis
  qed
  ultimately show ?thesis using Some by (cases r) (auto simp: incref_result_def)
qed

lemma has_site_remove:
  assumes "wf_tags w" "map_of (w_tags w) p = Some t" "lgtd_lifx_tagging_find_site (t_sites t) gw = Some site"
    and "w_tags w' = amod p (\<lambda>t. t\<lparr>t_sites := remove1 site (t_sites t)\<rparr>) (w_tags w)"
  shows "has_site w' q g j \<longleftrightarrow> has_site w q g j \<and> \<not> (q = p \<and> g = gw)"
proof -
  have d: "distinct (map s_gw (t_sites t))"
    using wf_tags_lookup [OF assms(1,2)] by (simp add: wf_tag_def)
  then have inj: "inj_on s_gw (set (t_sites t))" and dt: "distinct (t_sites t)" by (auto simp: distinct_map)
  note site = find_site_Some [OF assms(3)]
  have "\<lparr>s_gw = g, s_tag_id = j\<rparr> \<in> set (remove1 site (t_sites t)) \<longleftrightarrow>
      \<lparr>s_gw = g, s_tag_id = j\<rparr> \<in> set (t_sites t) \<and> g \<noteq> gw"
    using inj_onD [OF inj, of site "\<lparr>s_gw = g, s_tag_id = j\<rparr>"] site dt
    by (auto simp: set_remove1_eq)
  then show ?thesis using assms(2,4) by (auto simp: has_site_def)
qed

lemma decref_spec:
  assumes "wf_tags w" "map_of (w_tags w) p = Some t"
  shows "\<exists>w'. lgtd_lifx_tagging_decref p gw w = Some w' \<and> wf_tags w' \<and> tags_frame w w'
     \<and> (\<forall>q g j. has_site w' q g j \<longleftrightarrow> has_site w q g j \<and> \<not> (q = p \<and> g = gw))
     \<and> (p \<in> fst ` set (w_tags w') \<longleftrightarrow> (\<exists>g j. has_site w' p g j))
     \<and> (\<forall>q. q \<noteq> p \<longrightarrow> map_of (w_tags w') q = map_of (w_tags w) q)"
proof -
  define w1 where "w1 = (case lgtd_lifx_tagging_find_site (t_sites t) gw of
      Some site \<Rightarrow> w\<lparr>w_tags := amod p (\<lambda>t. t\<lparr>t_sites := remove1 site (t_sites t)\<rparr>) (w_tags w)\<rparr>
    | None \<Rightarrow> w)"
  define t1 where "t1 = (case lgtd_lifx_tagging_find_site (t_sites t) gw of
      Some site \<Rightarrow> t\<lparr>t_sites := remove1 site (t_sites t)\<rparr> | None \<Rightarrow> t)"
  have lookup: "map_of (w_tags w1) p = Some t1"
    "\<forall>q. q \<noteq> p \<longrightarrow> map_of (w_tags w1) q = map_of (w_tags w) q"
    using assms(2) by (auto simp: w1_def t1_def split: option.splits)
  have wf1: "wf_tags w1"
  proof (cases "lgtd_lifx_tagging_find_site (t_sites t) gw")
    case None
    then show ?thesis using assms(1) by (simp add: w1_def)
  next
    case (Some site)
    show ?thesis
      by (rule wf_tags_amod [OF assms(1), of _ p "\<lambda>t. t\<lparr>t_sites := remove1 site (t_sites t)\<rparr>"])
        (use Some wf_tags_lookup [OF assms(1)] assms(2) in
          \<open>auto simp: w1_def wf_tag_def distinct_map intro: inj_on_diff\<close>)
  qed
  have fr: "tags_frame w w1" "w_next_ptr w1 = w_next_ptr w"
    by (auto simp: tags_frame_def w1_def split: option.splits)
  have hs: "has_site w1 q g j \<longleftrightarrow> has_site w q g j \<and> \<not> (q = p \<and> g = gw)" for q g j
  proof (cases "lgtd_lifx_tagging_find_site (t_sites t) gw")
    case None
    then have "\<not> has_site w p gw j" for j using assms(2) by (force simp: has_site_def find_site_None)
    with None show ?thesis by (auto simp: w1_def)
  next
    case (Some site)
    show ?thesis by (rule has_site_remove [OF assms Some]) (simp add: w1_def Some)
  qed
  have ex: "(\<exists>g j. has_site w1 p g j) \<longleftrightarrow> t_sites t1 \<noteq> []"
  proof -
    have "\<exists>g j. \<lparr>s_gw = g, s_tag_id = j\<rparr> \<in> set (t_sites t1)" if "t_sites t1 \<noteq> []"
      using that by (metis hd_in_set site_eta)
    then show ?thesis using lookup(1) by (auto simp: has_site_def)
  qed
  have eq: "lgtd_lifx_tagging_decref p gw w =
      (if t_sites t1 = [] then lgtd_lifx_tagging_deallocate_tag p w1 else Some w1)"
    using assms(2) lookup(1) by (simp add: lgtd_lifx_tagging_decref_def Let_def flip: w1_def)
  show ?thesis
  proof (cases "t_sites t1 = []")
    case False
    then have "lgtd_lifx_tagging_decref p gw w = Some w1" using eq by simp
    moreover have "p \<in> fst ` set (w_tags w1)" using lookup(1) by (metis domI dom_map_of_conv_image_fst)
    ultimately show ?thesis using wf1 fr hs ex False lookup(2) by blast
  next
    case True
    let ?w = "w1\<lparr>w_tags := adel p (w_tags w1)\<rparr>"
    have "lgtd_lifx_tagging_decref p gw w = Some ?w"
      using eq lookup(1) True by (simp add: lgtd_lifx_tagging_deallocate_tag_def)
    moreover have "wf_tags ?w" by (rule wf_tags_adel [OF wf1]) auto
    moreover have "tags_frame w ?w" using fr(1) by (simp add: tags_frame_def)
    moreover have none: "\<not> has_site w1 p g j" for g j using ex True by blast
    have "has_site ?w q g j \<longleftrightarrow> has_site w1 q g j" for q g j
      using none by (auto simp: has_site_def)
    moreover have "p \<notin> fst ` set (w_tags ?w)" by (auto simp: set_adel)
    ultimately show ?thesis using hs none lookup(2) by (auto simp: has_site_def)
  qed
qed

subsection \<open>Properties\<close>


definition example_world :: lgtd_world where
  "example_world =
     \<lparr>w_be = False, w_client_id = 1, w_gateways = [], w_bulbs = [], w_tags = [], w_timers = [],
      w_stats = \<lparr>st_gateways = 0, st_bulbs = 0, st_bulbs_powered_on = 0, st_clients = 0\<rparr>, w_next_ptr = 1,
      w_ext = (\<lambda>_. True), w_ext_pos = 0, w_clock = (\<lambda>i. of_nat i + 1000), w_clock_pos = 0,
      w_discovery_timeout = 0, w_watchdog_started = False,
      w_broadcast_endpoint = \<lparr>ep_socket = True, ep_read_ev = True, ep_write_ev = True\<rparr>, w_exit = None\<rparr>"


text \<open>
  C38: A label that already has another id on the gateway aborts the daemon: the assertion on the id of
  the site fails. A gateway that sends the same label for two tag ids triggers it.
\<close>

theorem tagging_incref_conflict_aborts:
  assumes "wf_tags w" "lgtd_lifx_tagging_find_tag label w = Some p" "has_site w p gw j" "j \<noteq> i"
  shows "lgtd_lifx_tagging_incref label gw i w = None"
proof -
  obtain t where t: "map_of (w_tags w) p = Some t" "\<lparr>s_gw = gw, s_tag_id = j\<rparr> \<in> set (t_sites t)"
    using assms(3) by (auto simp: has_site_def)
  then have "lgtd_lifx_tagging_find_site (t_sites t) gw \<noteq> None"
    by (metis find_site_None imageI lgtd_lifx_site.select_convs(1))
  then obtain site where site: "lgtd_lifx_tagging_find_site (t_sites t) gw = Some site" by blast
  have "site = \<lparr>s_gw = gw, s_tag_id = s_tag_id site\<rparr>" using find_site_Some [OF site] by simp
  then have "has_site w p gw (s_tag_id site)" using find_site_Some [OF site] t(1) by (metis has_site_def)
  then have "s_tag_id site = j" using has_site_unique [OF assms(1)] assms(3) by blast
  then show ?thesis
    using assms(2,4) t site by (auto simp: lgtd_lifx_tagging_incref_def Option.bind_eq_None_conv)
qed

theorem tagging_incref_conflict_aborts_witness:
  "\<exists>w. has_site w 0 7 0 \<and> lgtd_lifx_tagging_incref ''kitchen'' 7 1 w = None"
proof -
  let ?t = "\<lparr>t_label = ''kitchen'' @ replicate 25 (CHR 0x00), t_sites = [\<lparr>s_gw = 7, s_tag_id = 0\<rparr>]\<rparr>"
  let ?w = "example_world\<lparr>w_tags := [(0, ?t)]\<rparr>"
  have c: "cstr (''kitchen'' @ replicate 25 (CHR 0x00)) = ''kitchen''" by (rule cstr_pad) simp
  have wf: "wf_tags ?w" using c by (simp add: wf_tags_def tag_labels_def wf_tag_def example_world_def)
  have f: "lgtd_lifx_tagging_find_tag ''kitchen'' ?w = Some 0"
    by (rule find_tag_eq [OF wf, of _ ?t]) (use c in \<open>auto simp: cstr_no_nul\<close>)
  have h: "has_site ?w 0 7 0" by (simp add: has_site_def)
  show ?thesis using tagging_incref_conflict_aborts [OF wf f h, of 1] h by auto
qed

text \<open>
  C18: Dropping a reference. \<open>lgtd_lifx_tagging_decref\<close> on a live tag does not abort, removes exactly the
  gateway from the sites of the tag, frees the tag exactly when no site is left, and touches no other tag.
\<close>

theorem tagging_decref_contract:
  assumes "wf_tags w" "p \<in> fst ` set (w_tags w)"
  shows "\<exists>w'. lgtd_lifx_tagging_decref p gw w = Some w' \<and> wf_tags w' \<and> tags_frame w w'
     \<and> (\<forall>q g j. has_site w' q g j \<longleftrightarrow> has_site w q g j \<and> \<not> (q = p \<and> g = gw))
     \<and> (p \<in> fst ` set (w_tags w') \<longleftrightarrow> (\<exists>g j. has_site w' p g j))
     \<and> (\<forall>q. q \<noteq> p \<longrightarrow> map_of (w_tags w') q = map_of (w_tags w) q)"
proof -
  obtain t where "map_of (w_tags w) p = Some t" using assms(2) by (metis domD dom_map_of_conv_image_fst)
  from decref_spec [OF assms(1) this] show ?thesis .
qed

theorem tagging_decref_contract_witness:
  "\<exists>w w'. 0 \<in> fst ` set (w_tags w) \<and> lgtd_lifx_tagging_decref 0 7 w = Some w' \<and> \<not> has_site w' 0 7 0"
proof -
  let ?t = "\<lparr>t_label = ''kitchen'' @ replicate 25 (CHR 0x00), t_sites = [\<lparr>s_gw = 7, s_tag_id = 0\<rparr>]\<rparr>"
  let ?w = "example_world\<lparr>w_tags := [(0, ?t)]\<rparr>"
  have c: "cstr (''kitchen'' @ replicate 25 (CHR 0x00)) = ''kitchen''" by (rule cstr_pad) simp
  have wf: "wf_tags ?w" using c by (simp add: wf_tags_def tag_labels_def wf_tag_def example_world_def)
  have m: "0 \<in> fst ` set (w_tags ?w)" by simp
  show ?thesis using tagging_decref_contract [OF wf m, of 7] m by blast
qed

end
