(* ===== verification/Gateway_Send.thy ===== *)
theory Gateway_Send
  imports Packet_Ring Tagging
begin

text \<open>
  Sending on one gateway (\<open>src/lifx/gateway.c\<close>): packets to a site, the refresh requests, the reference counts of
  the tag ids and the latency. These functions touch one gateway only, so they are functions on its record;
  \<open>be\<close> and \<open>client_id\<close> are the byte order of the host and the client id of the daemon.
\<close>

unbundle bit_operations_syntax

subsection \<open>Definitions\<close>

text \<open>The target is the site; it is not read for \<open>LGTD_LIFX_TARGET_SITE\<close>. The result is always true in
  the source, so only the gateway is returned.\<close>

definition lgtd_lifx_gateway_send_to_site_impl ::
  "bool \<Rightarrow> u32 \<Rightarrow> u16 \<Rightarrow> bytes option \<Rightarrow> lgtd_lifx_gateway \<Rightarrow> lgtd_lifx_gateway option" where
  "lgtd_lifx_gateway_send_to_site_impl be client_id pkt_type pkt gw =
     do {
       (pkt_info, hdr) \<leftarrow> lgtd_lifx_wire_setup_header be client_id LGTD_LIFX_TARGET_SITE
                           (Target_addr (g_site gw)) (Some (g_site gw)) pkt_type;
       lgtd_lifx_gateway_enqueue_packet be hdr pkt_info pkt gw
     }"

definition lgtd_lifx_gateway_send_to_site_quiet ::
  "bool \<Rightarrow> u32 \<Rightarrow> u16 \<Rightarrow> bytes option \<Rightarrow> lgtd_lifx_gateway \<Rightarrow> lgtd_lifx_gateway option" where
  "lgtd_lifx_gateway_send_to_site_quiet be client_id pkt_type pkt gw =
     lgtd_lifx_gateway_send_to_site_impl be client_id pkt_type pkt gw"

definition lgtd_lifx_gateway_send_to_site ::
  "bool \<Rightarrow> u32 \<Rightarrow> u16 \<Rightarrow> bytes option \<Rightarrow> lgtd_lifx_gateway \<Rightarrow> lgtd_lifx_gateway option" where
  "lgtd_lifx_gateway_send_to_site be client_id pkt_type pkt gw =
     lgtd_lifx_gateway_send_to_site_impl be client_id pkt_type pkt gw"

text \<open>\<open>LGTD_LIFX_ALL_TAGS\<close> is \<open>~0\<close>, sign-extended to the 64 bits of the field.\<close>

definition lgtd_lifx_gateway_send_get_all_light_state ::
  "bool \<Rightarrow> u32 \<Rightarrow> lgtd_lifx_gateway \<Rightarrow> lgtd_lifx_gateway option" where
  "lgtd_lifx_gateway_send_get_all_light_state be client_id gw =
     do {
       gw \<leftarrow> lgtd_lifx_gateway_send_to_site_quiet be client_id LGTD_LIFX_GET_LIGHT_STATE None gw;
       gw \<leftarrow> lgtd_lifx_gateway_send_to_site_quiet be client_id LGTD_LIFX_GET_TAG_LABELS
               (Some (tags_bytes be \<lparr>pt_tags = NOT 0\<rparr>)) gw;
       Some (gw\<lparr>g_pending_refresh_req := True\<rparr>)
     }"

definition incr_tag_refcount :: "nat \<Rightarrow> lgtd_lifx_gateway \<Rightarrow> lgtd_lifx_gateway option" where
  "incr_tag_refcount tag_id gw =
     Some (if g_tag_refcounts gw ! tag_id \<noteq> 255
           then gw\<lparr>g_tag_refcounts := (g_tag_refcounts gw)[tag_id := g_tag_refcounts gw ! tag_id + 1]\<rparr>
           else gw)"

definition decr_tag_refcount ::
  "bool \<Rightarrow> u32 \<Rightarrow> nat \<Rightarrow> lgtd_lifx_gateway \<Rightarrow> lgtd_lifx_gateway option" where
  "decr_tag_refcount be client_id tag_id gw =
     do {
       c_assert (0 < g_tag_refcounts gw ! tag_id);
       let gw = gw\<lparr>g_tag_refcounts := (g_tag_refcounts gw)[tag_id := g_tag_refcounts gw ! tag_id - 1]\<rparr>;
       if g_tag_refcounts gw ! tag_id = 0
       then lgtd_lifx_gateway_send_to_site be client_id LGTD_LIFX_SET_TAG_LABELS
              (Some (tag_labels_bytes be (lgtd_lifx_wire_encode_tag_labels be
                 \<lparr>tl_tags = NOT (g_tag_ids gw AND NOT (LGTD_LIFX_WIRE_TAG_ID_TO_VALUE tag_id)),
                  tl_label = replicate LGTD_LIFX_LABEL_SIZE (CHR 0x00)\<rparr>))) gw
       else Some gw
     }"

definition lgtd_lifx_gateway_update_tag_refcounts ::
  "bool \<Rightarrow> u32 \<Rightarrow> u64 \<Rightarrow> u64 \<Rightarrow> lgtd_lifx_gateway \<Rightarrow> lgtd_lifx_gateway option" where
  "lgtd_lifx_gateway_update_tag_refcounts be client_id bulb_tags pkt_tags gw =
     (let changes = bulb_tags XOR pkt_tags;
          added_tags = changes AND pkt_tags;
          removed_tags = changes AND bulb_tags
      in do {
           gw \<leftarrow> LGTD_LIFX_WIRE_FOREACH_TAG_ID incr_tag_refcount added_tags gw;
           LGTD_LIFX_WIRE_FOREACH_TAG_ID (decr_tag_refcount be client_id) removed_tags gw
         })"

definition lgtd_lifx_gateway_latency :: "lgtd_lifx_gateway \<Rightarrow> lgtd_time_mono_t" where
  "lgtd_lifx_gateway_latency gw =
     (if g_last_req_at gw < g_last_pkt_at gw then g_last_pkt_at gw - g_last_req_at gw else 0)"

text \<open>The id of a tag on a gateway, \<open>-1\<close> when there is none: the first set bit whose slot holds the tag.\<close>

definition lgtd_lifx_gateway_get_tag_id :: "tag_ptr \<Rightarrow> lgtd_lifx_gateway \<Rightarrow> int" where
  "lgtd_lifx_gateway_get_tag_id tag gw =
     (case List.find (\<lambda>tag_id. g_tags gw ! tag_id = Some tag) (tag_ids_of (g_tag_ids gw)) of
        Some tag_id \<Rightarrow> int tag_id
      | None \<Rightarrow> -1)"

subsection \<open>Sending leaves the rest of the gateway alone\<close>

definition queue_frame :: "lgtd_lifx_gateway \<Rightarrow> lgtd_lifx_gateway \<Rightarrow> bool" where
  "queue_frame gw gw' \<longleftrightarrow>
     g_bulbs gw' = g_bulbs gw \<and> g_peer gw' = g_peer gw \<and> g_site gw' = g_site gw
     \<and> g_tag_ids gw' = g_tag_ids gw \<and> g_tags gw' = g_tags gw \<and> g_tag_refcounts gw' = g_tag_refcounts gw
     \<and> g_last_req_at gw' = g_last_req_at gw \<and> g_next_req_at gw' = g_next_req_at gw
     \<and> g_last_pkt_at gw' = g_last_pkt_at gw \<and> g_refresh_timer gw' = g_refresh_timer gw"

lemma queue_frame_refl [simp]: "queue_frame gw gw"
  by (simp add: queue_frame_def)

lemma queue_frame_trans: "queue_frame gw gw' \<Longrightarrow> queue_frame gw' gw'' \<Longrightarrow> queue_frame gw gw''"
  by (simp add: queue_frame_def)

lemma packet_size_small: "info \<in> set packet_table \<Longrightarrow> pi_size info \<le> 52"
  by (auto simp: packet_table_defs)

text \<open>
  A payload pointer that suits a packet type: \<open>NULL\<close> for a packet without payload, enough memory otherwise.
\<close>

definition payload_ok :: "u16 \<Rightarrow> bytes option \<Rightarrow> bool" where
  "payload_ok ptype pkt \<longleftrightarrow>
     (case lgtd_lifx_wire_get_packet_info ptype of
        None \<Rightarrow> False
      | Some info \<Rightarrow> (case pkt of None \<Rightarrow> pi_size info = 0 | Some bs \<Rightarrow> pi_size info \<le> length bs))"

lemma setup_packet_ok:
  assumes "wf_target tt target (Some (g_site gw))" "client_id \<noteq> 0" "payload_ok ptype pkt"
  shows "\<exists>info hdr. lgtd_lifx_wire_setup_header be client_id tt target (Some (g_site gw)) ptype = Some (info, hdr)
     \<and> lgtd_lifx_wire_get_packet_info ptype = Some info \<and> packet_ok be hdr info pkt gw"
proof -
  from assms(3) obtain info where info: "lgtd_lifx_wire_get_packet_info ptype = Some info"
    "case pkt of None \<Rightarrow> pi_size info = 0 | Some bs \<Rightarrow> pi_size info \<le> length bs"
    by (auto simp: payload_ok_def split: option.splits)
  from setup_header_Some [OF assms(1,2) info(1), of be] obtain hdr where
    hdr: "lgtd_lifx_wire_setup_header be client_id tt target (Some (g_site gw)) ptype = Some (info, hdr)"
      "wf_header hdr" "hdr_site hdr = g_site gw"
      "hdr_size hdr = htole16 be (of_nat (pi_size info + LGTD_LIFX_PACKET_HEADER_SIZE))"
    by (auto simp: site_image_def)
  have "pi_size info \<le> 52" using info(1) packet_size_small by (auto simp: get_packet_info_Some)
  then have "uint (of_nat (pi_size info + 36) :: u16) = int (pi_size info) + 36"
    by (simp add: unsigned_of_nat take_bit_nat_eq_self del: of_nat_add)
  then have "uint (hdr_size (lgtd_lifx_wire_decode_header be hdr)) = int (pi_size info) + 36"
    by (simp add: lgtd_lifx_wire_decode_header_def Let_def hdr(4) del: of_nat_add)
  with hdr info show ?thesis by (auto simp: packet_ok_def)
qed

lemma enqueue_frame:
  assumes "packet_ok be hdr info pkt gw" "ring_inv gw"
  shows "\<exists>gw'. lgtd_lifx_gateway_enqueue_packet be hdr info pkt gw = Some gw' \<and> queue_frame gw gw'
     \<and> ring_inv gw' \<and> g_pending_refresh_req gw' = g_pending_refresh_req gw"
  using enqueue_packet_eq [OF assms] ring_enq_inv [OF assms(2), of "packet_msg info"] assms(2)
  by (auto simp: queue_frame_def packet_msg_def) (auto simp: ring_enq_def Let_def)

lemma send_to_site_ok:
  assumes "length (g_site gw) = 6" "client_id \<noteq> 0" "payload_ok ptype pkt" "ring_inv gw"
  shows "\<exists>gw'. lgtd_lifx_gateway_send_to_site_impl be client_id ptype pkt gw = Some gw'
     \<and> queue_frame gw gw' \<and> ring_inv gw' \<and> g_pending_refresh_req gw' = g_pending_refresh_req gw"
proof -
  have "wf_target LGTD_LIFX_TARGET_SITE (Target_addr (g_site gw)) (Some (g_site gw))"
    using assms(1) by (simp add: wf_target_def)
  from setup_packet_ok [OF this assms(2,3), of be] obtain info hdr where
    "lgtd_lifx_wire_setup_header be client_id LGTD_LIFX_TARGET_SITE (Target_addr (g_site gw))
       (Some (g_site gw)) ptype = Some (info, hdr)" "packet_ok be hdr info pkt gw" by blast
  with enqueue_frame [OF this(2) assms(4)] show ?thesis
    by (simp add: lgtd_lifx_gateway_send_to_site_impl_def)
qed

text \<open>The sizes of the types that are sent, looked up once.\<close>

abbreviation packet_size :: "u16 \<Rightarrow> nat option" where
  "packet_size ptype \<equiv> map_option pi_size (lgtd_lifx_wire_get_packet_info ptype)"

lemma packet_sizes:
  "packet_size LGTD_LIFX_GET_PAN_GATEWAY = Some 0" "packet_size LGTD_LIFX_GET_LIGHT_STATE = Some 0"
  "packet_size LGTD_LIFX_GET_INFO = Some 0" "packet_size LGTD_LIFX_GET_VERSION = Some 0"
  "packet_size LGTD_LIFX_GET_MESH_FIRMWARE = Some 0" "packet_size LGTD_LIFX_GET_WIFI_FIRMWARE_STATE = Some 0"
  "packet_size LGTD_LIFX_GET_TAG_LABELS = Some 8" "packet_size LGTD_LIFX_SET_TAG_LABELS = Some 40"
  "packet_size LGTD_LIFX_SET_TAGS = Some 8" "packet_size LGTD_LIFX_SET_POWER_STATE = Some 2"
  "packet_size LGTD_LIFX_SET_LIGHT_COLOR = Some 13" "packet_size LGTD_LIFX_SET_WAVEFORM = Some 21"
  "packet_size LGTD_LIFX_SET_BULB_LABEL = Some 32"
  by (simp_all add: get_packet_info_eq packet_table_defs)

lemma payload_ok_size:
  "packet_size ptype = Some n \<Longrightarrow> payload_ok ptype (Some bs) \<longleftrightarrow> n \<le> length bs"
  "packet_size ptype = Some n \<Longrightarrow> payload_ok ptype None \<longleftrightarrow> n = 0"
  by (auto simp: payload_ok_def)

lemma payload_ok_simps [simp]:
  "payload_ok LGTD_LIFX_GET_LIGHT_STATE None" "payload_ok LGTD_LIFX_GET_INFO None"
  "payload_ok LGTD_LIFX_GET_VERSION None" "payload_ok LGTD_LIFX_GET_MESH_FIRMWARE None"
  "payload_ok LGTD_LIFX_GET_WIFI_FIRMWARE_STATE None"
  "payload_ok LGTD_LIFX_GET_TAG_LABELS (Some bs) \<longleftrightarrow> 8 \<le> length bs"
  "payload_ok LGTD_LIFX_SET_TAG_LABELS (Some bs) \<longleftrightarrow> 40 \<le> length bs"
  "payload_ok LGTD_LIFX_SET_TAGS (Some bs) \<longleftrightarrow> 8 \<le> length bs"
  "payload_ok LGTD_LIFX_SET_POWER_STATE (Some bs) \<longleftrightarrow> 2 \<le> length bs"
  "payload_ok LGTD_LIFX_SET_LIGHT_COLOR (Some bs) \<longleftrightarrow> 13 \<le> length bs"
  "payload_ok LGTD_LIFX_SET_WAVEFORM (Some bs) \<longleftrightarrow> 21 \<le> length bs"
  "payload_ok LGTD_LIFX_SET_BULB_LABEL (Some bs) \<longleftrightarrow> 32 \<le> length bs"
  by (simp_all only: packet_sizes [THEN payload_ok_size(1)] packet_sizes [THEN payload_ok_size(2)])

lemma length_tags_bytes [simp]: "length (tags_bytes be pkt) = 8"
  by (simp add: tags_bytes_def)

lemma length_tag_labels_bytes [simp]: "length (tag_labels_bytes be pkt) = 8 + length (tl_label pkt)"
  by (simp add: tag_labels_bytes_def)

lemma length_power_state_bytes [simp]: "length (power_state_bytes be pkt) = 2"
  by (simp add: power_state_bytes_def)

lemma length_light_color_bytes [simp]: "length (light_color_bytes be pkt) = 13"
  by (simp add: light_color_bytes_def)

lemma length_waveform_bytes [simp]: "length (waveform_bytes be pkt) = 21"
  by (simp add: waveform_bytes_def)

lemma send_get_all_light_state_ok:
  assumes "length (g_site gw) = 6" "client_id \<noteq> 0" "ring_inv gw"
  shows "\<exists>gw'. lgtd_lifx_gateway_send_get_all_light_state be client_id gw = Some gw'
     \<and> queue_frame gw gw' \<and> ring_inv gw' \<and> g_pending_refresh_req gw'"
proof -
  from send_to_site_ok [OF assms(1,2) _ assms(3), of LGTD_LIFX_GET_LIGHT_STATE None be] obtain g1 where
    g1: "lgtd_lifx_gateway_send_to_site_impl be client_id LGTD_LIFX_GET_LIGHT_STATE None gw = Some g1"
      "queue_frame gw g1" "ring_inv g1" by auto
  then have "length (g_site g1) = 6" using assms(1) by (simp add: queue_frame_def)
  from send_to_site_ok [OF this assms(2) _ g1(3), of LGTD_LIFX_GET_TAG_LABELS
      "Some (tags_bytes be \<lparr>pt_tags = NOT 0\<rparr>)" be] obtain g2 where
    "lgtd_lifx_gateway_send_to_site_impl be client_id LGTD_LIFX_GET_TAG_LABELS
       (Some (tags_bytes be \<lparr>pt_tags = NOT 0\<rparr>)) g1 = Some g2" "queue_frame g1 g2" "ring_inv g2" by auto
  then show ?thesis
    using g1 by (simp add: lgtd_lifx_gateway_send_get_all_light_state_def
        lgtd_lifx_gateway_send_to_site_quiet_def queue_frame_def)
qed

subsection \<open>Reference counts\<close>

text \<open>A gateway after its reference counts changed: as before but for the counts and the queue.\<close>

definition refcount_frame :: "lgtd_lifx_gateway \<Rightarrow> lgtd_lifx_gateway \<Rightarrow> bool" where
  "refcount_frame gw gw' \<longleftrightarrow> queue_frame (gw\<lparr>g_tag_refcounts := []\<rparr>) (gw'\<lparr>g_tag_refcounts := []\<rparr>)
     \<and> ring_inv gw' \<and> length (g_tag_refcounts gw') = length (g_tag_refcounts gw)
     \<and> g_pending_refresh_req gw' = g_pending_refresh_req gw"

lemma refcount_frame_trans: "refcount_frame g1 g2 \<Longrightarrow> refcount_frame g2 g3 \<Longrightarrow> refcount_frame g1 g3"
  by (simp add: refcount_frame_def queue_frame_def)

lemma ring_inv_refcounts [simp]: "ring_inv (gw\<lparr>g_tag_refcounts := rs\<rparr>) = ring_inv gw"
  by (simp add: ring_inv_def ring_msgs_def ring_count_def)

lemma incr_loop:
  assumes "distinct ids" "\<forall>k\<in>set ids. k < length (g_tag_refcounts gw) \<and> g_tag_refcounts gw ! k \<noteq> 255"
    and "ring_inv gw"
  shows "\<exists>gw'. foreach incr_tag_refcount ids gw = Some gw' \<and> refcount_frame gw gw'
     \<and> (\<forall>k<length (g_tag_refcounts gw). g_tag_refcounts gw' ! k =
          (if k \<in> set ids then g_tag_refcounts gw ! k + 1 else g_tag_refcounts gw ! k))"
  using assms
proof (induction ids arbitrary: gw)
  case Nil
  then show ?case by (simp add: refcount_frame_def queue_frame_def)
next
  case (Cons i ids)
  let ?g = "gw\<lparr>g_tag_refcounts := (g_tag_refcounts gw)[i := g_tag_refcounts gw ! i + 1]\<rparr>"
  have "distinct ids" "\<forall>k\<in>set ids. k < length (g_tag_refcounts ?g) \<and> g_tag_refcounts ?g ! k \<noteq> 255"
    "ring_inv ?g" using Cons.prems by (auto simp: nth_list_update)
  from Cons.IH [OF this] obtain gw' where gw': "foreach incr_tag_refcount ids ?g = Some gw'"
    "refcount_frame ?g gw'" "\<forall>k<length (g_tag_refcounts ?g). g_tag_refcounts gw' ! k =
       (if k \<in> set ids then g_tag_refcounts ?g ! k + 1 else g_tag_refcounts ?g ! k)" by blast
  have "incr_tag_refcount i gw = Some ?g" using Cons.prems by (simp add: incr_tag_refcount_def)
  moreover have "refcount_frame gw gw'" using gw'(2) by (simp add: refcount_frame_def queue_frame_def)
  ultimately show ?case using gw'(1,3) Cons.prems by (auto simp: nth_list_update)
qed

lemma decr_tag_refcount_ok:
  assumes "length (g_site gw) = 6" "client_id \<noteq> 0" "ring_inv gw" "g_tag_refcounts gw ! i \<noteq> 0"
  shows "\<exists>gw'. decr_tag_refcount be client_id i gw = Some gw' \<and> refcount_frame gw gw'
     \<and> g_tag_refcounts gw' = (g_tag_refcounts gw)[i := g_tag_refcounts gw ! i - 1]"
proof -
  let ?g = "gw\<lparr>g_tag_refcounts := (g_tag_refcounts gw)[i := g_tag_refcounts gw ! i - 1]\<rparr>"
  let ?bs = "tag_labels_bytes be (lgtd_lifx_wire_encode_tag_labels be
                 \<lparr>tl_tags = NOT (g_tag_ids gw AND NOT (LGTD_LIFX_WIRE_TAG_ID_TO_VALUE i)),
                  tl_label = replicate LGTD_LIFX_LABEL_SIZE (CHR 0x00)\<rparr>)"
  have pos: "0 < g_tag_refcounts gw ! i" using assms(4) by (simp add: word_neq_0_conv)
  have "length (g_site ?g) = 6" "ring_inv ?g" using assms by auto
  moreover have "payload_ok LGTD_LIFX_SET_TAG_LABELS (Some ?bs)"
    by (simp add: lgtd_lifx_wire_encode_tag_labels_def)
  ultimately obtain gw' where
    "lgtd_lifx_gateway_send_to_site_impl be client_id LGTD_LIFX_SET_TAG_LABELS (Some ?bs) ?g = Some gw'"
    "queue_frame ?g gw'" "ring_inv gw'" "g_pending_refresh_req gw' = g_pending_refresh_req gw"
    using send_to_site_ok [of ?g client_id] assms(2) by fastforce
  then show ?thesis
    using pos assms(3)
    by (cases "g_tag_refcounts ?g ! i = 0")
      (auto simp: decr_tag_refcount_def lgtd_lifx_gateway_send_to_site_def refcount_frame_def queue_frame_def)
qed

lemma decr_loop:
  assumes "distinct ids" "\<forall>k\<in>set ids. k < length (g_tag_refcounts gw) \<and> g_tag_refcounts gw ! k \<noteq> 0"
    and "ring_inv gw" "length (g_site gw) = 6" "client_id \<noteq> 0"
  shows "\<exists>gw'. foreach (decr_tag_refcount be client_id) ids gw = Some gw' \<and> refcount_frame gw gw'
     \<and> (\<forall>k<length (g_tag_refcounts gw). g_tag_refcounts gw' ! k =
          (if k \<in> set ids then g_tag_refcounts gw ! k - 1 else g_tag_refcounts gw ! k))"
  using assms(1-4)
proof (induction ids arbitrary: gw)
  case Nil
  then show ?case by (simp add: refcount_frame_def queue_frame_def)
next
  case (Cons i ids)
  from decr_tag_refcount_ok [of gw client_id i be] Cons.prems assms(5) obtain g where
    g: "decr_tag_refcount be client_id i gw = Some g" "refcount_frame gw g"
      "g_tag_refcounts g = (g_tag_refcounts gw)[i := g_tag_refcounts gw ! i - 1]" by auto
  have "distinct ids" "\<forall>k\<in>set ids. k < length (g_tag_refcounts g) \<and> g_tag_refcounts g ! k \<noteq> 0"
    "ring_inv g" "length (g_site g) = 6"
    using Cons.prems g(2,3) by (auto simp: nth_list_update refcount_frame_def queue_frame_def)
  from Cons.IH [OF this] obtain gw' where gw': "foreach (decr_tag_refcount be client_id) ids g = Some gw'"
    "refcount_frame g gw'" "\<forall>k<length (g_tag_refcounts g). g_tag_refcounts gw' ! k =
       (if k \<in> set ids then g_tag_refcounts g ! k - 1 else g_tag_refcounts g ! k)" by blast
  then show ?case
    using g Cons.prems refcount_frame_trans [OF g(2) gw'(2)] by (auto simp: nth_list_update)
qed

lemma update_tag_refcounts_ok:
  assumes "length (g_tag_refcounts gw) = 64" "length (g_site gw) = 6" "client_id \<noteq> 0" "ring_inv gw"
    and added: "\<And>k. bit pkt_tags k \<Longrightarrow> \<not> bit bulb_tags k \<Longrightarrow> g_tag_refcounts gw ! k \<noteq> 255"
    and removed: "\<And>k. bit bulb_tags k \<Longrightarrow> \<not> bit pkt_tags k \<Longrightarrow> g_tag_refcounts gw ! k \<noteq> 0"
  shows "\<exists>gw'. lgtd_lifx_gateway_update_tag_refcounts be client_id bulb_tags pkt_tags gw = Some gw'
     \<and> refcount_frame gw gw'
     \<and> (\<forall>k<64. g_tag_refcounts gw' ! k =
          g_tag_refcounts gw ! k + of_bool (bit pkt_tags k \<and> \<not> bit bulb_tags k)
          - of_bool (bit bulb_tags k \<and> \<not> bit pkt_tags k))"
proof -
  let ?a = "(bulb_tags XOR pkt_tags) AND pkt_tags" and ?r = "(bulb_tags XOR pkt_tags) AND bulb_tags"
  have a: "k \<in> set (tag_ids_of ?a) \<longleftrightarrow> bit pkt_tags k \<and> \<not> bit bulb_tags k" for k
    by (auto simp: tag_ids_of_iff bit_simps)
  have r: "k \<in> set (tag_ids_of ?r) \<longleftrightarrow> bit bulb_tags k \<and> \<not> bit pkt_tags k" for k
    by (auto simp: tag_ids_of_iff bit_simps)
  have lt: "bit (t :: u64) k \<Longrightarrow> k < 64" for t k by (rule bit_u64_less)
  have "\<forall>k\<in>set (tag_ids_of ?a). k < length (g_tag_refcounts gw) \<and> g_tag_refcounts gw ! k \<noteq> 255"
    using added assms(1) lt by (auto simp: a)
  then obtain g1 where g1: "foreach incr_tag_refcount (tag_ids_of ?a) gw = Some g1" "refcount_frame gw g1"
    "\<forall>k<64. g_tag_refcounts g1 ! k =
       (if k \<in> set (tag_ids_of ?a) then g_tag_refcounts gw ! k + 1 else g_tag_refcounts gw ! k)"
    using incr_loop [of "tag_ids_of ?a" gw] assms(1,4) by auto
  have "\<forall>k\<in>set (tag_ids_of ?r). k < length (g_tag_refcounts g1) \<and> g_tag_refcounts g1 ! k \<noteq> 0"
    using g1 removed assms(1) lt by (auto simp: a r refcount_frame_def)
  moreover have "ring_inv g1" "length (g_site g1) = 6" "length (g_tag_refcounts g1) = 64"
    using g1(2) assms(1,2) by (auto simp: refcount_frame_def queue_frame_def)
  ultimately obtain g2 where g2: "foreach (decr_tag_refcount be client_id) (tag_ids_of ?r) g1 = Some g2"
    "refcount_frame g1 g2" "\<forall>k<64. g_tag_refcounts g2 ! k =
       (if k \<in> set (tag_ids_of ?r) then g_tag_refcounts g1 ! k - 1 else g_tag_refcounts g1 ! k)"
    using decr_loop [of "tag_ids_of ?r" g1 client_id be] assms(3) by auto
  have "lgtd_lifx_gateway_update_tag_refcounts be client_id bulb_tags pkt_tags gw = Some g2"
    using g1(1) g2(1) by (simp add: lgtd_lifx_gateway_update_tag_refcounts_def Let_def foreach_tag_id_eq)
  with refcount_frame_trans [OF g1(2) g2(2)] g1(3) g2(3) show ?thesis by (auto simp: a r)
qed

subsection \<open>What is sent\<close>

text \<open>
  The bytes of a packet, as the pieces that are appended to the buffer: the header and the payload, which is as long as the
  packet table says for the type.
\<close>

definition datagram :: "u32 \<Rightarrow> bytes \<Rightarrow> u16 \<Rightarrow> bytes option \<Rightarrow> lgtd_lifx_target_type \<times> lgtd_lifx_target \<Rightarrow> bytes list" where
  "datagram client_id site ptype pkt addressee =
     (case lgtd_lifx_wire_get_packet_info ptype of
        None \<Rightarrow> []
      | Some info \<Rightarrow> header_image client_id (fst addressee) (snd addressee) (Some site) ptype (pi_size info)
          # (case pkt of None \<Rightarrow> [] | Some bs \<Rightarrow> [take (pi_size info) bs]))"

definition message_of :: "u16 \<Rightarrow> lgtd_lifx_message" where
  "message_of ptype = (case lgtd_lifx_wire_get_packet_info ptype of Some info \<Rightarrow> packet_msg info
     | None \<Rightarrow> \<lparr>msg_type = ptype, msg_size = 0\<rparr>)"

text \<open>The output queue: its messages and the bytes. A packet is queued, or dropped when there are 16 messages.\<close>

definition out_queue :: "lgtd_lifx_gateway \<Rightarrow> lgtd_lifx_message list \<times> bytes list" where
  "out_queue gw = (ring_msgs gw, g_write_buf gw)"

definition queue_packet ::
  "u32 \<Rightarrow> bytes \<Rightarrow> u16 \<Rightarrow> bytes option \<Rightarrow> lgtd_lifx_target_type \<times> lgtd_lifx_target
   \<Rightarrow> lgtd_lifx_message list \<times> bytes list \<Rightarrow> lgtd_lifx_message list \<times> bytes list" where
  "queue_packet client_id site ptype pkt addressee q =
     (if length (fst q) < LGTD_LIFX_GATEWAY_PACKET_RING_SIZE
      then (fst q @ [message_of ptype], snd q @ datagram client_id site ptype pkt addressee) else q)"

lemma enqueue_queue:
  assumes "wf_target tt target (Some (g_site gw))" "client_id \<noteq> 0" "payload_ok ptype pkt" "ring_inv gw"
  shows "\<exists>info hdr gw'. lgtd_lifx_wire_setup_header be client_id tt target (Some (g_site gw)) ptype = Some (info, hdr)
     \<and> lgtd_lifx_gateway_enqueue_packet be hdr info pkt gw = Some gw' \<and> queue_frame gw gw' \<and> ring_inv gw'
     \<and> out_queue gw' = queue_packet client_id (g_site gw) ptype pkt (tt, target) (out_queue gw)
     \<and> (if length (ring_msgs gw) < LGTD_LIFX_GATEWAY_PACKET_RING_SIZE then g_socket_ev gw' else gw' = gw)"
proof -
  from setup_packet_ok [OF assms(1-3), of be] obtain info hdr where
    h: "lgtd_lifx_wire_setup_header be client_id tt target (Some (g_site gw)) ptype = Some (info, hdr)"
      "lgtd_lifx_wire_get_packet_info ptype = Some info" "packet_ok be hdr info pkt gw" by blast
  from enqueue_frame [OF h(3) assms(4)] obtain gw' where
    g': "lgtd_lifx_gateway_enqueue_packet be hdr info pkt gw = Some gw'" "queue_frame gw gw'" "ring_inv gw'" by blast
  have img: "header_bytes be hdr = header_image client_id tt target (Some (g_site gw)) ptype (pi_size info)"
    by (rule setup_header_bytes [OF assms(1,2) h(2,1)])
  have full: "g_pkt_ring_full gw \<longleftrightarrow> \<not> length (ring_msgs gw) < LGTD_LIFX_GATEWAY_PACKET_RING_SIZE"
    using assms(4) by (auto simp: ring_inv_def ring_count_def)
  have "ring_msgs (ring_enq m gw\<lparr>g_write_buf := x, g_socket_ev := y\<rparr>) = ring_msgs (ring_enq m gw)" for m x y
    by (simp add: ring_msgs_def ring_count_def)
  then have "out_queue gw' = queue_packet client_id (g_site gw) ptype pkt (tt, target) (out_queue gw)
      \<and> (if length (ring_msgs gw) < LGTD_LIFX_GATEWAY_PACKET_RING_SIZE then g_socket_ev gw' else gw' = gw)"
    using enqueue_packet_eq [OF h(3) assms(4)] g'(1) ring_enq_msgs [OF assms(4), of "packet_msg info"] full img h(2)
    by (auto simp: out_queue_def queue_packet_def datagram_def message_of_def fifo_enq_def ring_enq_def packet_chunks_def Let_def
        split: if_splits option.splits)
  then show ?thesis using h(1) g' by blast
qed

lemma datagram_size:
  assumes "wf_target tt target (Some site)" "payload_ok ptype pkt"
  shows "msg_size (message_of ptype) = int (length (concat (datagram client_id site ptype pkt (tt, target))))"
  using assms length_header_image [OF assms(1)]
  by (auto simp: payload_ok_def message_of_def datagram_def packet_msg_def split: option.splits)



end
