(* ===== verification/World_Inv.thy ===== *)
theory World_Inv
  imports Gateway_Send
begin

text \<open>
  The invariant of the daemon's state: how gateways, bulbs, tags, timers and counters hang together. Every
  operation of the following theories keeps it, and it is what the assertions of the source rely on.
\<close>

subsection \<open>The invariant\<close>

text \<open>What holds of one gateway and of one bulb by themselves. The reference counts are 8 bits wide and
  saturate, so they are exact for up to 255 bulbs on a gateway.\<close>

definition gw_local :: "lgtd_lifx_gateway \<Rightarrow> bool" where
  "gw_local g \<longleftrightarrow> length (g_site g) = LGTD_LIFX_ADDR_LENGTH \<and> ring_inv g
     \<and> length (g_tag_refcounts g) = LGTD_LIFX_GATEWAY_MAX_TAGS
     \<and> length (g_tags g) = LGTD_LIFX_GATEWAY_MAX_TAGS
     \<and> (\<forall>k<LGTD_LIFX_GATEWAY_MAX_TAGS. bit (g_tag_ids g) k \<longleftrightarrow> g_tags g ! k \<noteq> None)
     \<and> distinct (g_bulbs g) \<and> length (g_bulbs g) \<le> 255"

definition bulb_local :: "lgtd_lifx_bulb \<Rightarrow> bool" where
  "bulb_local b \<longleftrightarrow> length (ls_label (b_state b)) = LGTD_LIFX_LABEL_SIZE
     \<and> (ls_power (b_state b) = LGTD_LIFX_POWER_OFF \<or> ls_power (b_state b) = LGTD_LIFX_POWER_ON)"

abbreviation bulb_tags :: "lgtd_lifx_bulb \<Rightarrow> u64" where
  "bulb_tags b \<equiv> ls_tags (b_state b)"

abbreviation bulb_on :: "lgtd_lifx_bulb \<Rightarrow> bool" where
  "bulb_on b \<equiv> ls_power (b_state b) = LGTD_LIFX_POWER_ON"

definition inv_keys :: "lgtd_world \<Rightarrow> bool" where
  "inv_keys w \<longleftrightarrow> w_client_id w \<noteq> 0 \<and> distinct (map fst (w_gateways w)) \<and> rb_inv fst (w_bulbs w)
     \<and> (\<forall>i\<in>fst ` set (w_gateways w). i < w_next_ptr w)"

definition inv_local :: "lgtd_world \<Rightarrow> bool" where
  "inv_local w \<longleftrightarrow> (\<forall>i g. find_gw i w = Some g \<longrightarrow> gw_local g)
     \<and> (\<forall>a b. find_bulb a w = Some b \<longrightarrow> bulb_local b \<and> length a = LGTD_LIFX_ADDR_LENGTH)"

text \<open>A bulb is in the list of its gateway and only there.\<close>

definition inv_links :: "lgtd_world \<Rightarrow> bool" where
  "inv_links w \<longleftrightarrow>
     (\<forall>a b. find_bulb a w = Some b \<longrightarrow> (\<exists>g. find_gw (b_gw b) w = Some g \<and> a \<in> set (g_bulbs g)))
     \<and> (\<forall>i g a. find_gw i w = Some g \<longrightarrow> a \<in> set (g_bulbs g) \<longrightarrow> (\<exists>b. find_bulb a w = Some b \<and> b_gw b = i))"

text \<open>How many of the bulbs at these addresses carry a tag id.\<close>

definition tag_count :: "(bulb_addr \<times> lgtd_lifx_bulb) list \<Rightarrow> bulb_addr list \<Rightarrow> nat \<Rightarrow> nat" where
  "tag_count bulbs addrs k =
     length (filter (\<lambda>a. \<exists>b. map_of bulbs a = Some b \<and> bit (bulb_tags b) k) addrs)"

definition inv_refs :: "lgtd_world \<Rightarrow> bool" where
  "inv_refs w \<longleftrightarrow> (\<forall>i g. find_gw i w = Some g \<longrightarrow>
     (\<forall>k<LGTD_LIFX_GATEWAY_MAX_TAGS. unat (g_tag_refcounts g ! k) = tag_count (w_bulbs w) (g_bulbs g) k))"

text \<open>The slots of the gateways and the sites of the tags mirror each other.\<close>

definition inv_tags :: "lgtd_world \<Rightarrow> bool" where
  "inv_tags w \<longleftrightarrow> wf_tags w
     \<and> (\<forall>p i k. has_site w p i k \<longrightarrow> k < LGTD_LIFX_GATEWAY_MAX_TAGS \<and> find_gw i w \<noteq> None)
     \<and> (\<forall>i g. find_gw i w = Some g \<longrightarrow>
          (\<forall>k<LGTD_LIFX_GATEWAY_MAX_TAGS. \<forall>p. g_tags g ! k = Some p \<longleftrightarrow> has_site w p i k))"

definition inv_stats :: "lgtd_world \<Rightarrow> bool" where
  "inv_stats w \<longleftrightarrow> st_gateways (w_stats w) = int (length (w_gateways w))
     \<and> st_bulbs (w_stats w) = int (length (w_bulbs w))
     \<and> st_bulbs_powered_on (w_stats w) = int (acount bulb_on (w_bulbs w))
     \<and> 0 \<le> st_clients (w_stats w)"

text \<open>Every gateway has its refresh timer, and a refresh timer its gateway; the timers of the bulbs never have the
  address zero, which their callback refuses.\<close>

definition timer_callback :: "lgtd_world \<Rightarrow> timer_ptr \<Rightarrow> lgtd_timer_callback option" where
  "timer_callback w p = map_option tm_callback (map_of (w_timers w) p)"

definition gw_timer :: "lgtd_world \<Rightarrow> gw_ptr \<Rightarrow> timer_ptr option" where
  "gw_timer w i = map_option g_refresh_timer (find_gw i w)"

definition inv_timers :: "lgtd_world \<Rightarrow> bool" where
  "inv_timers w \<longleftrightarrow> distinct (map fst (w_timers w)) \<and> (\<forall>t\<in>fst ` set (w_timers w). t < w_next_ptr w)
     \<and> (\<forall>i p. gw_timer w i = Some p \<longleftrightarrow> timer_callback w p = Some (Refresh_callback i))
     \<and> (\<forall>p a. timer_callback w p = Some (Fetch_hardware_info a) \<longrightarrow> list_ex (\<lambda>x. x \<noteq> 0) a)"

lemma inv_timers_cong:
  assumes "inv_timers w" "map fst (w_timers w') = map fst (w_timers w)" "w_next_ptr w \<le> w_next_ptr w'"
    and "timer_callback w' = timer_callback w" "gw_timer w' = gw_timer w"
  shows "inv_timers w'"
proof -
  have "fst ` set (w_timers w') = fst ` set (w_timers w)" using assms(2) by (metis list.set_map)
  with assms(1,3) show ?thesis unfolding inv_timers_def assms(2,4,5) by (auto dest: order_less_le_trans)
qed

definition wf_world :: "lgtd_world \<Rightarrow> bool" where
  "wf_world w \<longleftrightarrow> inv_keys w \<and> inv_local w \<and> inv_links w \<and> inv_refs w \<and> inv_tags w \<and> inv_stats w \<and> inv_timers w"

lemmas inv_defs = inv_keys_def inv_local_def inv_links_def inv_refs_def inv_tags_def inv_stats_def inv_timers_def

lemma wf_worldI:
  "inv_keys w \<Longrightarrow> inv_local w \<Longrightarrow> inv_links w \<Longrightarrow> inv_refs w \<Longrightarrow> inv_tags w \<Longrightarrow> inv_stats w \<Longrightarrow> inv_timers w
     \<Longrightarrow> wf_world w"
  by (simp add: wf_world_def)

lemma wf_worldD:
  assumes "wf_world w"
  shows "inv_keys w" "inv_local w" "inv_links w" "inv_refs w" "inv_tags w" "inv_stats w" "inv_timers w"
  using assms by (simp_all add: wf_world_def)

lemma wf_world_gw:
  "wf_world w \<Longrightarrow> find_gw i w = Some g \<Longrightarrow> gw_local g"
  by (auto simp: wf_world_def inv_local_def)

lemma wf_world_bulb:
  "wf_world w \<Longrightarrow> find_bulb a w = Some b \<Longrightarrow> bulb_local b \<and> length a = 6
     \<and> (\<exists>g. find_gw (b_gw b) w = Some g \<and> a \<in> set (g_bulbs g))"
  by (auto simp: wf_world_def inv_local_def inv_links_def)

lemma wf_world_client: "wf_world w \<Longrightarrow> w_client_id w \<noteq> 0"
  by (simp add: wf_world_def inv_keys_def)

lemma rb_inv_distinct: "rb_inv fst xs \<Longrightarrow> distinct (map fst xs)"
  by (simp add: rb_inv_def strict_sorted_iff)

lemma rb_inv_amod [simp]: "rb_inv fst (amod k f xs) = rb_inv fst xs"
  by (simp add: rb_inv_def)

lemma wf_world_bulb_keys: "wf_world w \<Longrightarrow> distinct (map fst (w_bulbs w))"
  by (auto simp: wf_world_def inv_keys_def intro: rb_inv_distinct)

subsection \<open>Changes that keep it\<close>

text \<open>The parts of the world the invariant does not depend on.\<close>

lemma has_site_world [simp]:
  "has_site (w\<lparr>w_ext_pos := e\<rparr>) = has_site w" "has_site (w\<lparr>w_clock_pos := e\<rparr>) = has_site w"
  "has_site (w\<lparr>w_next_ptr := n\<rparr>) = has_site w" "has_site (w\<lparr>w_gateways := gs\<rparr>) = has_site w"
  "has_site (w\<lparr>w_bulbs := bs\<rparr>) = has_site w" "has_site (w\<lparr>w_stats := st\<rparr>) = has_site w"
  "has_site (w\<lparr>w_timers := ts\<rparr>) = has_site w" "has_site (w\<lparr>w_watchdog_started := b\<rparr>) = has_site w"
  "has_site (w\<lparr>w_discovery_timeout := d\<rparr>) = has_site w" "has_site (w\<lparr>w_exit := x\<rparr>) = has_site w"
  "has_site (w\<lparr>w_broadcast_endpoint := ep\<rparr>) = has_site w"
  by (simp_all add: has_site_def fun_eq_iff)

lemma wf_tags_world [simp]:
  "wf_tags (w\<lparr>w_ext_pos := e\<rparr>) = wf_tags w" "wf_tags (w\<lparr>w_clock_pos := e\<rparr>) = wf_tags w"
  "wf_tags (w\<lparr>w_gateways := gs\<rparr>) = wf_tags w" "wf_tags (w\<lparr>w_bulbs := bs\<rparr>) = wf_tags w"
  "wf_tags (w\<lparr>w_stats := st\<rparr>) = wf_tags w" "wf_tags (w\<lparr>w_timers := ts\<rparr>) = wf_tags w"
  "wf_tags (w\<lparr>w_watchdog_started := b\<rparr>) = wf_tags w" "wf_tags (w\<lparr>w_discovery_timeout := d\<rparr>) = wf_tags w"
  "wf_tags (w\<lparr>w_exit := x\<rparr>) = wf_tags w" "wf_tags (w\<lparr>w_broadcast_endpoint := ep\<rparr>) = wf_tags w"
  by (simp_all add: wf_tags_def tag_labels_def)

lemma wf_world_env [simp]:
  "wf_world (w\<lparr>w_ext_pos := e\<rparr>) = wf_world w" "wf_world (w\<lparr>w_clock_pos := e\<rparr>) = wf_world w"
  "wf_world (w\<lparr>w_watchdog_started := b\<rparr>) = wf_world w" "wf_world (w\<lparr>w_discovery_timeout := d\<rparr>) = wf_world w"
  "wf_world (w\<lparr>w_exit := x\<rparr>) = wf_world w" "wf_world (w\<lparr>w_broadcast_endpoint := ep\<rparr>) = wf_world w"
  by (simp_all add: wf_world_def inv_defs timer_callback_def gw_timer_def)

text \<open>A gateway keeps its core when only its queue, its timestamps and its refresh flag change.\<close>

definition gw_core_eq :: "lgtd_lifx_gateway \<Rightarrow> lgtd_lifx_gateway \<Rightarrow> bool" where
  "gw_core_eq g g' \<longleftrightarrow> g_bulbs g' = g_bulbs g \<and> g_site g' = g_site g \<and> g_tag_ids g' = g_tag_ids g
     \<and> g_tags g' = g_tags g \<and> g_tag_refcounts g' = g_tag_refcounts g \<and> g_refresh_timer g' = g_refresh_timer g"

lemma queue_frame_core: "queue_frame g g' \<Longrightarrow> gw_core_eq g g'"
  by (simp add: queue_frame_def gw_core_eq_def)

lemma gw_core_local: "gw_core_eq g g' \<Longrightarrow> ring_inv g' \<Longrightarrow> gw_local g \<Longrightarrow> gw_local g'"
  by (simp add: gw_core_eq_def gw_local_def)

lemma wf_world_upd_gw:
  assumes "wf_world w" "find_gw i w = Some g" "gw_core_eq g g'" "ring_inv g'"
  shows "wf_world (upd_gw i g' w)"
proof -
  note d = wf_worldD [OF assms(1)]
  have loc: "gw_local g'" using gw_core_local [OF assms(3,4)] wf_world_gw [OF assms(1,2)] by blast
  note c = assms(3) [unfolded gw_core_eq_def]
  show ?thesis
  proof (rule wf_worldI)
    show "inv_keys (upd_gw i g' w)" using d(1) by (simp add: inv_keys_def upd_gw_def)
    show "inv_local (upd_gw i g' w)" using d(2) loc by (auto simp: inv_local_def upd_gw_def split: if_splits)
    show "inv_links (upd_gw i g' w)" using d(3) assms(2) c by (fastforce simp: inv_links_def upd_gw_def)
    show "inv_refs (upd_gw i g' w)" using d(4) assms(2) c by (auto simp: inv_refs_def upd_gw_def split: if_splits)
    show "inv_tags (upd_gw i g' w)" using d(5) assms(2) c by (auto simp: inv_tags_def upd_gw_def split: if_splits)
    show "inv_stats (upd_gw i g' w)" using d(6) by (simp add: inv_stats_def upd_gw_def)
    show "inv_timers (upd_gw i g' w)" using assms(2) c
      by (intro inv_timers_cong [OF d(7)]) (auto simp: timer_callback_def gw_timer_def upd_gw_def fun_eq_iff)
  qed
qed

text \<open>A bulb keeps its core when its gateway, tags and power stay.\<close>

definition bulb_core_eq :: "lgtd_lifx_bulb \<Rightarrow> lgtd_lifx_bulb \<Rightarrow> bool" where
  "bulb_core_eq b b' \<longleftrightarrow> b_gw b' = b_gw b \<and> bulb_tags b' = bulb_tags b
     \<and> ls_power (b_state b') = ls_power (b_state b)"

lemma tag_count_amod:
  assumes "\<And>b. map_of bulbs a = Some b \<Longrightarrow> bit (bulb_tags (f b)) k = bit (bulb_tags b) k"
  shows "tag_count (amod a f bulbs) addrs k = tag_count bulbs addrs k"
  unfolding tag_count_def using assms by (intro arg_cong [of _ _ length] filter_cong) auto

lemma wf_world_upd_bulb:
  assumes "wf_world w" "find_bulb a w = Some b" "bulb_core_eq b b'" "length (ls_label (b_state b')) = 32"
  shows "wf_world (upd_bulb a b' w)"
proof -
  note d = wf_worldD [OF assms(1)]
  note c = assms(3) [unfolded bulb_core_eq_def]
  have "bulb_local b'" using wf_world_bulb [OF assms(1,2)] c assms(4) by (auto simp: bulb_local_def)
  note keys = wf_world_bulb_keys [OF assms(1)]
  have ac: "acount bulb_on (amod a (\<lambda>_. b') (w_bulbs w)) = acount bulb_on (w_bulbs w)"
    by (rule acount_amod_same) (use assms(2) c keys in simp_all)
  have tc: "tag_count (amod a (\<lambda>_. b') (w_bulbs w)) addrs k = tag_count (w_bulbs w) addrs k" for addrs k
    by (rule tag_count_amod) (use assms(2) c in simp)
  show ?thesis
  proof (rule wf_worldI)
    show "inv_keys (upd_bulb a b' w)" using d(1) by (simp add: inv_keys_def upd_bulb_def)
    show "inv_local (upd_bulb a b' w)" using d(2) \<open>bulb_local b'\<close> by (auto simp: inv_local_def upd_bulb_def split: if_splits)
    show "inv_links (upd_bulb a b' w)" using d(3) assms(2) c by (fastforce simp: inv_links_def upd_bulb_def split: if_splits)
    show "inv_refs (upd_bulb a b' w)" using d(4) by (simp add: inv_refs_def upd_bulb_def tc)
    show "inv_tags (upd_bulb a b' w)" using d(5) by (simp add: inv_tags_def upd_bulb_def)
    show "inv_stats (upd_bulb a b' w)" using d(6) by (simp add: inv_stats_def upd_bulb_def ac)
    show "inv_timers (upd_bulb a b' w)" 
      by (intro inv_timers_cong [OF d(7)]) (auto simp: timer_callback_def gw_timer_def upd_bulb_def)
  qed
qed

text \<open>Changing the tags of a bulb changes the counts of its gateway by one per changed tag.\<close>

lemma tag_count_change:
  assumes "distinct addrs" "a \<in> set addrs" "map_of bulbs a = Some b"
  shows "tag_count (amod a (\<lambda>_. b') bulbs) addrs k + of_bool (bit (bulb_tags b) k) =
     tag_count bulbs addrs k + of_bool (bit (bulb_tags b') k)"
  using assms(1,2)
proof (induction addrs)
  case (Cons x xs)
  have other: "tag_count (amod a (\<lambda>_. b') bulbs) xs k = tag_count bulbs xs k" if "a \<notin> set xs"
    using that unfolding tag_count_def by (intro arg_cong [of _ _ length] filter_cong) auto
  show ?case
  proof (cases "x = a")
    case True
    with other Cons.prems assms(3) show ?thesis by (simp add: tag_count_def)
  next
    case False
    with Cons assms(3) show ?thesis by (simp add: tag_count_def)
  qed
qed simp

lemma tag_count_other:
  "a \<notin> set addrs \<Longrightarrow> tag_count (amod a f bulbs) addrs k = tag_count bulbs addrs k"
  unfolding tag_count_def by (intro arg_cong [of _ _ length] filter_cong) auto

lemma tag_count_le: "tag_count bulbs addrs k \<le> length addrs"
  by (simp add: tag_count_def)

lemma tag_count_pos:
  "a \<in> set addrs \<Longrightarrow> map_of bulbs a = Some b \<Longrightarrow> bit (bulb_tags b) k \<Longrightarrow> 0 < tag_count bulbs addrs k"
  by (auto simp: tag_count_def filter_empty_conv)

lemma tag_count_less:
  assumes "a \<in> set addrs" "map_of bulbs a = Some b" "\<not> bit (bulb_tags b) k"
  shows "tag_count bulbs addrs k < length addrs"
  unfolding tag_count_def by (rule length_filter_less [OF assms(1)]) (use assms in auto)

text \<open>The reference counts of the gateway of a bulb, before its tags change.\<close>

lemma refcounts_can_change:
  assumes "wf_world w" "find_bulb a w = Some b" "find_gw (b_gw b) w = Some g" "k < 64"
  shows "bit (bulb_tags b) k \<Longrightarrow> g_tag_refcounts g ! k \<noteq> 0"
    and "\<not> bit (bulb_tags b) k \<Longrightarrow> g_tag_refcounts g ! k \<noteq> 255"
proof -
  have a: "a \<in> set (g_bulbs g)" using wf_world_bulb [OF assms(1,2)] assms(3) by auto
  have u: "unat (g_tag_refcounts g ! k) = tag_count (w_bulbs w) (g_bulbs g) k"
    using wf_worldD(4) [OF assms(1)] assms(3,4) by (simp add: inv_refs_def)
  have len: "length (g_bulbs g) \<le> 255" using wf_world_gw [OF assms(1,3)] by (simp add: gw_local_def)
  show "g_tag_refcounts g ! k \<noteq> 0" if "bit (bulb_tags b) k"
    using tag_count_pos [OF a assms(2) that] u by auto
  show "g_tag_refcounts g ! k \<noteq> 255" if "\<not> bit (bulb_tags b) k"
  proof
    assume "g_tag_refcounts g ! k = 255"
    with u have "tag_count (w_bulbs w) (g_bulbs g) k = 255" by simp
    with tag_count_less [OF a assms(2) that] len show False by simp
  qed
qed

lemma unat_refcount:
  fixes r :: u8
  assumes "p \<and> \<not> q \<Longrightarrow> r \<noteq> 255" "q \<and> \<not> p \<Longrightarrow> r \<noteq> 0"
  shows "unat (r + of_bool (p \<and> \<not> q) - of_bool (q \<and> \<not> p)) + of_bool q = unat r + of_bool p"
proof (cases "p = q")
  case False
  have "unat (r + 1) = unat r + 1" if "r \<noteq> 255"
  proof -
    have "1 + r \<noteq> 0"
    proof
      assume "1 + r = 0"
      then have "r = - 1" by (metis add.commute eq_neg_iff_add_eq_0)
      with that show False by simp
    qed
    then show ?thesis using unatSuc [of r] by (simp add: add.commute)
  qed
  moreover have "unat (r - 1) + 1 = unat r" if "r \<noteq> 0" using that unat_minus_one [of r] by (simp add: unat_gt_0)
  ultimately show ?thesis using False assms by auto
qed auto

text \<open>The new state of a bulb, with the counts of its gateway and the counter of powered bulbs adjusted.\<close>

lemma wf_world_set_state:
  assumes "wf_world w" "find_bulb a w = Some b" "find_gw (b_gw b) w = Some g"
    and b': "b_gw b' = b_gw b" "bulb_local b'"
    and g': "refcount_frame g g'"
    and refs: "\<forall>k<64. g_tag_refcounts g' ! k = g_tag_refcounts g ! k
        + of_bool (bit (bulb_tags b') k \<and> \<not> bit (bulb_tags b) k)
        - of_bool (bit (bulb_tags b) k \<and> \<not> bit (bulb_tags b') k)"
    and st: "st = (w_stats w)\<lparr>st_bulbs_powered_on :=
        st_bulbs_powered_on (w_stats w) + of_bool (bulb_on b') - of_bool (bulb_on b)\<rparr>"
  shows "wf_world (upd_bulb a b' (upd_gw (b_gw b) g' (w\<lparr>w_stats := st\<rparr>)))" (is "wf_world ?w")
proof -
  note d = wf_worldD [OF assms(1)]
  have fr: "g_bulbs g' = g_bulbs g" "g_site g' = g_site g" "g_tag_ids g' = g_tag_ids g" "g_tags g' = g_tags g"
    "g_refresh_timer g' = g_refresh_timer g" "ring_inv g'" "length (g_tag_refcounts g') = length (g_tag_refcounts g)"
    using g' by (auto simp: refcount_frame_def queue_frame_def)
  have loc: "gw_local g'" using wf_world_gw [OF assms(1,3)] fr by (simp add: gw_local_def)
  have a: "a \<in> set (g_bulbs g)" using wf_world_bulb [OF assms(1,2)] assms(3) by auto
  have dist: "distinct (g_bulbs g)" using wf_world_gw [OF assms(1,3)] by (simp add: gw_local_def)
  have only: "a \<notin> set (g_bulbs h)" if "find_gw i w = Some h" "i \<noteq> b_gw b" for i h
    using that d(3) assms(2) by (force simp: inv_links_def)
  have ref: "unat (g_tag_refcounts g' ! k) = tag_count (amod a (\<lambda>_. b') (w_bulbs w)) (g_bulbs g) k"
    if k: "k < 64" for k
  proof -
    have "unat (g_tag_refcounts g ! k) = tag_count (w_bulbs w) (g_bulbs g) k"
      using d(4) assms(3) k by (simp add: inv_refs_def)
    with unat_refcount [of "bit (bulb_tags b') k" "bit (bulb_tags b) k" "g_tag_refcounts g ! k"]
      refcounts_can_change [OF assms(1-3) k] refs k tag_count_change [OF dist a assms(2), of b' k]
    show ?thesis by (auto simp: of_bool_def split: if_splits)
  qed
  show ?thesis
  proof (rule wf_worldI)
    show "inv_keys ?w" using d(1) by (simp add: inv_keys_def upd_bulb_def upd_gw_def)
    show "inv_local ?w" using d(2) loc b' by (auto simp: inv_local_def upd_bulb_def upd_gw_def split: if_splits)
    show "inv_links ?w" using d(3) assms(2,3) b' fr
      by (fastforce simp: inv_links_def upd_bulb_def upd_gw_def split: if_splits)
    show "inv_refs ?w" using d(4) assms(3) ref fr only
      by (auto simp: inv_refs_def upd_bulb_def upd_gw_def tag_count_other split: if_splits)
    show "inv_tags ?w" using d(5) assms(3) fr
      by (auto simp: inv_tags_def upd_bulb_def upd_gw_def split: if_splits)
    have "acount bulb_on (amod a (\<lambda>_. b') (w_bulbs w)) + of_bool (bulb_on b) =
        acount bulb_on (w_bulbs w) + of_bool (bulb_on b')"
      by (rule acount_amod [OF wf_world_bulb_keys [OF assms(1)] assms(2)])
    then show "inv_stats ?w" using d(6)
      by (auto simp: inv_stats_def upd_bulb_def upd_gw_def st of_bool_def split: if_splits)
    show "inv_timers ?w" using assms(3) fr
      by (intro inv_timers_cong [OF d(7)])
        (auto simp: timer_callback_def gw_timer_def upd_bulb_def upd_gw_def fun_eq_iff)
  qed
qed

end
