(* ===== verification/Sample_World.thy ===== *)
theory Sample_World
  imports World_Inv
begin

text \<open>
  A small network that satisfies the invariant: one gateway with its refresh timer, two bulbs on it, one of them
  lit and tagged, and the tag. The general statements are applied to it.
\<close>

definition sample_bulb :: lgtd_lifx_bulb where
  "sample_bulb = (calloc_bulb 1)\<lparr>b_last_light_state_at := 900,
     b_state := \<lparr>ls_hue = 0xaaaa, ls_saturation = 0xffff, ls_brightness = 0x4000, ls_kelvin = 3500, ls_dim = 0,
                 ls_power = LGTD_LIFX_POWER_ON, ls_label = ''lamp'' @ replicate 28 (CHR 0x00), ls_tags = 1\<rparr>\<rparr>"

definition sample_gateway :: lgtd_lifx_gateway where
  "sample_gateway = (calloc_gateway [127, 0, 0, 1] [1, 2, 3, 4, 5, 6] 900 2)\<lparr>
     g_bulbs := [[1, 2, 3, 4, 5, 6], [1, 2, 3, 4, 5, 7]], g_tag_ids := 1,
     g_tags := Some 3 # replicate 63 None, g_tag_refcounts := 1 # replicate 63 0\<rparr>"

definition sample_world :: lgtd_world where
  "sample_world = example_world\<lparr>
     w_gateways := [(1, sample_gateway)],
     w_bulbs := [([1, 2, 3, 4, 5, 6], sample_bulb), ([1, 2, 3, 4, 5, 7], calloc_bulb 1)],
     w_tags := [(3, \<lparr>t_label = ''kitchen'' @ replicate 25 (CHR 0x00), t_sites = [\<lparr>s_gw = 1, s_tag_id = 0\<rparr>]\<rparr>)],
     w_timers := [(2, \<lparr>tm_callback = Refresh_callback 1, tm_persistent = False, tm_timeout = 800, tm_activations = 0\<rparr>)],
     w_stats := \<lparr>st_gateways = 1, st_bulbs = 2, st_bulbs_powered_on = 1, st_clients = 0\<rparr>,
     w_next_ptr := 4\<rparr>"

lemma sample_fields [simp]:
  "w_be sample_world = False" "w_client_id sample_world = 1" "w_gateways sample_world = [(1, sample_gateway)]"
  "w_bulbs sample_world = [([1, 2, 3, 4, 5, 6], sample_bulb), ([1, 2, 3, 4, 5, 7], calloc_bulb 1)]"
  "w_tags sample_world = [(3, \<lparr>t_label = ''kitchen'' @ replicate 25 (CHR 0x00), t_sites = [\<lparr>s_gw = 1, s_tag_id = 0\<rparr>]\<rparr>)]"
  "w_timers sample_world =
     [(2, \<lparr>tm_callback = Refresh_callback 1, tm_persistent = False, tm_timeout = 800, tm_activations = 0\<rparr>)]"
  "w_stats sample_world = \<lparr>st_gateways = 1, st_bulbs = 2, st_bulbs_powered_on = 1, st_clients = 0\<rparr>"
  "w_next_ptr sample_world = 4" "w_ext sample_world = (\<lambda>_. True)" "w_exit sample_world = None"
  "w_clock sample_world = (\<lambda>i. of_nat i + 1000)" "w_clock_pos sample_world = 0"
  "ep_write_ev (w_broadcast_endpoint sample_world)"
  by (simp_all add: sample_world_def example_world_def)

lemma sample_gateway_local: "gw_local sample_gateway"
  by (auto simp: gw_local_def sample_gateway_def calloc_gateway_def ring_inv_def ring_msgs_def ring_count_def nth_Cons'
      bit_1_iff)

lemma wf_sample_world: "wf_world sample_world"
proof (rule wf_worldI)
  show "inv_keys sample_world" by (simp add: inv_keys_def rb_inv_def)
  show "inv_local sample_world"
    by (auto simp: inv_local_def bulb_local_def sample_gateway_local sample_bulb_def calloc_bulb_def split: if_splits)
  show "inv_links sample_world"
    by (auto simp: inv_links_def sample_bulb_def sample_gateway_def calloc_bulb_def split: if_splits)
  show "inv_refs sample_world"
    by (auto simp: inv_refs_def tag_count_def sample_bulb_def sample_gateway_def calloc_bulb_def nth_Cons' bit_1_iff)
  show "inv_tags sample_world"
    by (auto simp: inv_tags_def wf_tags_def wf_tag_def tag_labels_def has_site_def sample_gateway_def nth_Cons' cstr_def
        split: if_splits)
  show "inv_stats sample_world" by (simp add: inv_stats_def acount_def sample_bulb_def calloc_bulb_def)
  show "inv_timers sample_world"
    by (auto simp: inv_timers_def timer_callback_def gw_timer_def sample_gateway_def calloc_gateway_def)
qed

text \<open>The readings of the clock and the outcomes of the calls do not matter for the invariant.\<close>

lemma wf_world_environment [simp]:
  "wf_world (w\<lparr>w_clock := c\<rparr>) = wf_world w" "wf_world (w\<lparr>w_ext := x\<rparr>) = wf_world w"
proof -
  have sites: "has_site (w\<lparr>w_clock := c\<rparr>) = has_site w" "has_site (w\<lparr>w_ext := x\<rparr>) = has_site w"
    by (simp_all add: has_site_def fun_eq_iff)
  show "wf_world (w\<lparr>w_clock := c\<rparr>) = wf_world w" "wf_world (w\<lparr>w_ext := x\<rparr>) = wf_world w"
    unfolding wf_world_def inv_defs sites by (simp_all add: wf_tags_def tag_labels_def timer_callback_def gw_timer_def)
qed

end
