(* ===== verification/Bulb.thy ===== *)
theory Bulb
  imports World_Inv
begin

text \<open>
  Bulbs (\<open>src/lifx/bulb.c\<close>) and the function of the router that sends a packet to one bulb
  (\<open>lgtd_router_send_to_device\<close> in \<open>src/core/router.c\<close>), which they use.
\<close>

unbundle bit_operations_syntax

subsection \<open>Sending to a device\<close>

text \<open>A power command marks the bulb dirty and remembers the power it should report.\<close>

definition mark_dirty :: "bool \<Rightarrow> lgtd_time_mono_t \<Rightarrow> bytes \<Rightarrow> lgtd_lifx_bulb \<Rightarrow> lgtd_lifx_bulb" where
  "mark_dirty be now payload b =
     b\<lparr>b_dirty_at := now, b_expected_power_on := ps_power (power_state_of_bytes be payload)\<rparr>"

definition lgtd_router_send_to_device ::
  "bulb_addr \<Rightarrow> u16 \<Rightarrow> bytes option \<Rightarrow> lgtd_world \<Rightarrow> lgtd_world option" where
  "lgtd_router_send_to_device bulb pkt_type pkt w =
     do {
       b \<leftarrow> find_bulb bulb w;
       gw \<leftarrow> find_gw (b_gw b) w;
       (pkt_info, hdr) \<leftarrow> lgtd_lifx_wire_setup_header (w_be w) (w_client_id w) LGTD_LIFX_TARGET_DEVICE
                           (Target_addr bulb) (Some (g_site gw)) pkt_type;
       gw \<leftarrow> lgtd_lifx_gateway_enqueue_packet (w_be w) hdr pkt_info pkt gw;
       let w = upd_gw (b_gw b) gw w;
       if pkt_type = LGTD_LIFX_SET_POWER_STATE
       then do {
         let (now, w) = lgtd_time_monotonic_msecs w;
         payload \<leftarrow> pkt;
         Some (upd_bulb bulb (mark_dirty (w_be w) now payload b) w)
       }
       else Some w
     }"

subsection \<open>Bulbs\<close>

definition lgtd_lifx_bulb_get_model_name :: "u32 \<Rightarrow> u32 \<Rightarrow> string" where
  "lgtd_lifx_bulb_get_model_name vendor_id product_id =
     (if vendor_id \<noteq> LGTD_LIFX_VENDOR_ID then ''Unknown''
      else if product_id = 0x1 \<or> product_id = 0x2 then ''Original 1000''
      else if product_id = 0x3 then ''Color 650''
      else if product_id = 0xa \<or> product_id = 0xb then ''White 800''
      else if product_id = 0x12 then ''White 900 BR30''
      else if product_id = 0x14 then ''Color 1000 BR30''
      else if product_id = 0x16 then ''Color 1000''
      else if product_id = 0x1b then ''A19''
      else if product_id = 0x1c then ''BR30''
      else if product_id = 0x1d then ''A19+''
      else if product_id = 0x1e then ''BR30+''
      else if product_id = 0x1f then ''Z''
      else ''Unknown'')"

definition lgtd_lifx_bulb_get_vendor_name :: "u32 \<Rightarrow> string" where
  "lgtd_lifx_bulb_get_vendor_name vendor_id = (if vendor_id = LGTD_LIFX_VENDOR_ID then ''LIFX'' else ''Unknown'')"

definition lgtd_lifx_bulb_get :: "bulb_addr \<Rightarrow> lgtd_world \<Rightarrow> lgtd_lifx_bulb option" where
  "lgtd_lifx_bulb_get addr w = map_option snd (rb_find fst addr (w_bulbs w))"

text \<open>The timer that asks a bulb for its hardware information until it has answered. The context of the
  timer holds the six bytes of the address; \<open>assert(ctx.as_uint)\<close> refuses the address zero.\<close>

definition RESEND_IF :: "bool \<Rightarrow> u16 \<Rightarrow> bulb_addr \<Rightarrow> bool \<Rightarrow> lgtd_world \<Rightarrow> (bool \<times> lgtd_world) option" where
  "RESEND_IF test pkt_type bulb stop w =
     (if test then do { w \<leftarrow> lgtd_router_send_to_device bulb pkt_type None w; Some (False, w) }
      else Some (stop, w))"

definition lgtd_lifx_bulb_fetch_hardware_info ::
  "timer_ptr \<Rightarrow> bulb_addr \<Rightarrow> lgtd_world \<Rightarrow> lgtd_world option" where
  "lgtd_lifx_bulb_fetch_hardware_info timer addr w =
     do {
       c_assert (list_ex (\<lambda>x. x \<noteq> 0) addr);
       case lgtd_lifx_bulb_get addr w of
         None \<Rightarrow> lgtd_timer_stop timer w
       | Some b \<Rightarrow> do {
           (stop, w) \<leftarrow> RESEND_IF (pr_vendor_id (b_product_info b) = 0) LGTD_LIFX_GET_VERSION addr True w;
           (stop, w) \<leftarrow> RESEND_IF (fw_version (ip_fw_info (b_ips b LGTD_LIFX_BULB_MCU_IP)) = 0)
                           LGTD_LIFX_GET_MESH_FIRMWARE addr stop w;
           let state_updated_at = ip_state_updated_at (b_ips b LGTD_LIFX_BULB_MCU_IP);
           (stop, w) \<leftarrow>
             (if fw_version (ip_fw_info (b_ips b LGTD_LIFX_BULB_WIFI_IP)) = 0
              then (let (now, w) = lgtd_time_monotonic_msecs w
                    in RESEND_IF (now - state_updated_at < 20000) LGTD_LIFX_GET_WIFI_FIRMWARE_STATE addr stop w)
              else Some (stop, w));
           if stop then lgtd_timer_stop timer w else Some w
         }
     }"

text \<open>The result tells whether the bulb could be allocated. The caller has looked the address up first.\<close>

definition lgtd_lifx_bulb_open :: "gw_ptr \<Rightarrow> bulb_addr \<Rightarrow> lgtd_world \<Rightarrow> (bool \<times> lgtd_world) option" where
  "lgtd_lifx_bulb_open gw addr w =
     do {
       let (ok, w) = ext_call w;
       if \<not> ok then Some (False, w)
       else do {
         let w = w\<lparr>w_bulbs := rb_insert fst (addr, calloc_bulb gw) (w_bulbs w)\<rparr>;
         w \<leftarrow> lgtd_stats_add Bulbs 1 w;
         let (now, w) = lgtd_time_monotonic_msecs w;
         b \<leftarrow> find_bulb addr w;
         let w = upd_bulb addr (b\<lparr>b_last_light_state_at := now\<rparr>) w;
         (timer, w) \<leftarrow> lgtd_timer_start True True 5000 (Fetch_hardware_info addr) w;
         Some (True, w)
       }
     }"

text \<open>The check of the debug build: the bulb has left the list of its gateway, and the reference count of each
  of its tags is the number of the remaining bulbs that have it.\<close>

definition count_tagged_bulbs ::
  "lgtd_world \<Rightarrow> bulb_addr \<Rightarrow> nat \<Rightarrow> bulb_addr list \<Rightarrow> nat option" where
  "count_tagged_bulbs w bulb tag_id gw_bulbs =
     foreach (\<lambda>gw_bulb n. do {
         c_assert (gw_bulb \<noteq> bulb);
         b \<leftarrow> find_bulb gw_bulb w;
         Some (if LGTD_LIFX_WIRE_TAG_ID_TO_VALUE tag_id AND ls_tags (b_state b) \<noteq> 0 then Suc n else n)
       }) gw_bulbs 0"

definition lgtd_lifx_bulb_close :: "bulb_addr \<Rightarrow> lgtd_world \<Rightarrow> lgtd_world option" where
  "lgtd_lifx_bulb_close bulb w =
     do {
       b \<leftarrow> find_bulb bulb w;
       gw \<leftarrow> find_gw (b_gw b) w;
       _ \<leftarrow> LGTD_LIFX_WIRE_FOREACH_TAG_ID (\<lambda>tag_id u. do {
              n \<leftarrow> count_tagged_bulbs w bulb tag_id (g_bulbs gw);
              c_assert (unat (g_tag_refcounts gw ! tag_id) = n)
            }) (ls_tags (b_state b)) ();
       w \<leftarrow> lgtd_stats_add Bulbs (-1) w;
       w \<leftarrow> (if ls_power (b_state b) = LGTD_LIFX_POWER_ON then lgtd_stats_add Bulbs_powered_on (-1) w else Some w);
       Some (w\<lparr>w_bulbs := rb_remove fst bulb (w_bulbs w)\<rparr>)
     }"

text \<open>The label of a bulb is an array of 32 characters that may have no terminator.\<close>

definition lgtd_lifx_bulb_has_label :: "lgtd_lifx_bulb \<Rightarrow> string \<Rightarrow> bool" where
  "lgtd_lifx_bulb_has_label b label =
     (let bulb_label = ls_label (b_state b);
          bulb_label_len = (if CHR 0x00 \<in> set (take LGTD_LIFX_LABEL_SIZE bulb_label)
                            then length (cstr bulb_label) else LGTD_LIFX_LABEL_SIZE);
          label_len = min (length (cstr label)) LGTD_LIFX_LABEL_SIZE
      in label_len = bulb_label_len \<and> take label_len bulb_label = take label_len (cstr label))"

definition lgtd_lifx_bulb_set_light_state ::
  "bulb_addr \<Rightarrow> lgtd_lifx_light_state \<Rightarrow> lgtd_time_mono_t \<Rightarrow> lgtd_world \<Rightarrow> lgtd_world option" where
  "lgtd_lifx_bulb_set_light_state bulb state received_at w =
     do {
       b \<leftarrow> find_bulb bulb w;
       w \<leftarrow> (if ls_power state \<noteq> ls_power (b_state b)
             then do {
               w \<leftarrow> lgtd_stats_add Bulbs_powered_on (if ls_power state = LGTD_LIFX_POWER_ON then 1 else -1) w;
               lgtd_router_send_to_device bulb LGTD_LIFX_GET_INFO None w
             }
             else Some w);
       gw \<leftarrow> find_gw (b_gw b) w;
       gw \<leftarrow> lgtd_lifx_gateway_update_tag_refcounts (w_be w) (w_client_id w)
               (ls_tags (b_state b)) (ls_tags state) gw;
       let w = upd_gw (b_gw b) gw w;
       b \<leftarrow> find_bulb bulb w;
       Some (upd_bulb bulb (b\<lparr>b_last_light_state_at := received_at, b_state := state\<rparr>) w)
     }"

definition lgtd_lifx_bulb_set_power_state :: "bulb_addr \<Rightarrow> u16 \<Rightarrow> lgtd_world \<Rightarrow> lgtd_world option" where
  "lgtd_lifx_bulb_set_power_state bulb pow w =
     do {
       b \<leftarrow> find_bulb bulb w;
       w \<leftarrow> (if pow \<noteq> ls_power (b_state b)
             then do {
               w \<leftarrow> lgtd_stats_add Bulbs_powered_on (if pow = LGTD_LIFX_POWER_ON then 1 else -1) w;
               lgtd_router_send_to_device bulb LGTD_LIFX_GET_INFO None w
             }
             else Some w);
       b \<leftarrow> find_bulb bulb w;
       Some (upd_bulb bulb (b\<lparr>b_state := (b_state b)\<lparr>ls_power := pow\<rparr>\<rparr>) w)
     }"

definition lgtd_lifx_bulb_set_tags :: "bulb_addr \<Rightarrow> u64 \<Rightarrow> lgtd_world \<Rightarrow> lgtd_world option" where
  "lgtd_lifx_bulb_set_tags bulb tags w =
     do {
       b \<leftarrow> find_bulb bulb w;
       gw \<leftarrow> find_gw (b_gw b) w;
       gw \<leftarrow> lgtd_lifx_gateway_update_tag_refcounts (w_be w) (w_client_id w) (ls_tags (b_state b)) tags gw;
       let w = upd_gw (b_gw b) gw w;
       Some (upd_bulb bulb (b\<lparr>b_state := (b_state b)\<lparr>ls_tags := tags\<rparr>\<rparr>) w)
     }"

definition lgtd_lifx_bulb_set_ip_state ::
  "bulb_addr \<Rightarrow> lgtd_lifx_bulb_ips \<Rightarrow> lgtd_lifx_ip_state \<Rightarrow> lgtd_time_mono_t \<Rightarrow> lgtd_world \<Rightarrow> lgtd_world option" where
  "lgtd_lifx_bulb_set_ip_state bulb ip_id state received_at w =
     do {
       b \<leftarrow> find_bulb bulb w;
       let ip = (b_ips b ip_id)\<lparr>ip_state_updated_at := received_at, ip_state := state\<rparr>;
       Some (upd_bulb bulb (b\<lparr>b_ips := (b_ips b)(ip_id := ip)\<rparr>) w)
     }"

definition lgtd_lifx_bulb_set_ip_firmware_info ::
  "bulb_addr \<Rightarrow> lgtd_lifx_bulb_ips \<Rightarrow> lgtd_lifx_ip_firmware_info \<Rightarrow> lgtd_time_mono_t
   \<Rightarrow> lgtd_world \<Rightarrow> lgtd_world option" where
  "lgtd_lifx_bulb_set_ip_firmware_info bulb ip_id info received_at w =
     do {
       b \<leftarrow> find_bulb bulb w;
       let ip = (b_ips b ip_id)\<lparr>ip_fw_info_updated_at := received_at, ip_fw_info := info\<rparr>;
       Some (upd_bulb bulb (b\<lparr>b_ips := (b_ips b)(ip_id := ip)\<rparr>) w)
     }"

definition lgtd_lifx_bulb_set_product_info ::
  "bulb_addr \<Rightarrow> lgtd_lifx_product_info \<Rightarrow> lgtd_world \<Rightarrow> lgtd_world option" where
  "lgtd_lifx_bulb_set_product_info bulb info w =
     do {
       b \<leftarrow> find_bulb bulb w;
       Some (upd_bulb bulb (b\<lparr>b_product_info := info,
               b_vendor := Some (lgtd_lifx_bulb_get_vendor_name (pr_vendor_id info)),
               b_model := Some (lgtd_lifx_bulb_get_model_name (pr_vendor_id info) (pr_product_id info))\<rparr>) w)
     }"

definition lgtd_lifx_bulb_set_runtime_info ::
  "bulb_addr \<Rightarrow> lgtd_lifx_runtime_info \<Rightarrow> lgtd_time_mono_t \<Rightarrow> lgtd_world \<Rightarrow> lgtd_world option" where
  "lgtd_lifx_bulb_set_runtime_info bulb info received_at w =
     do {
       b \<leftarrow> find_bulb bulb w;
       Some (upd_bulb bulb (b\<lparr>b_runtime_info_updated_at := received_at, b_runtime_info := info\<rparr>) w)
     }"

definition lgtd_lifx_bulb_set_label :: "bulb_addr \<Rightarrow> string \<Rightarrow> lgtd_world \<Rightarrow> lgtd_world option" where
  "lgtd_lifx_bulb_set_label bulb label w =
     do {
       b \<leftarrow> find_bulb bulb w;
       Some (upd_bulb bulb (b\<lparr>b_state := (b_state b)\<lparr>ls_label := take LGTD_LIFX_LABEL_SIZE label\<rparr>\<rparr>) w)
     }"

definition lgtd_lifx_bulb_set_ambient_light :: "bulb_addr \<Rightarrow> u32 \<Rightarrow> lgtd_world \<Rightarrow> lgtd_world option" where
  "lgtd_lifx_bulb_set_ambient_light bulb illuminance w =
     do {
       b \<leftarrow> find_bulb bulb w;
       Some (upd_bulb bulb (b\<lparr>b_ambient_light := illuminance\<rparr>) w)
     }"

subsection \<open>Sending keeps the invariant\<close>

lemma bulb_get_eq [simp]: "lgtd_lifx_bulb_get addr w = find_bulb addr w"
  by (simp add: lgtd_lifx_bulb_get_def rb_find_fst)

lemma find_upd_gw [simp]:
  "find_gw j (upd_gw i g w) = (if j = i then map_option (\<lambda>_. g) (find_gw i w) else find_gw j w)"
  "find_bulb a (upd_gw i g w) = find_bulb a w"
  by (simp_all add: upd_gw_def)

lemma find_upd_bulb [simp]:
  "find_bulb c (upd_bulb a b w) = (if c = a then map_option (\<lambda>_. b) (find_bulb a w) else find_bulb c w)"
  "find_gw i (upd_bulb a b w) = find_gw i w"
  by (simp_all add: upd_bulb_def)

lemma world_upd [simp]:
  "w_be (upd_gw i g w) = w_be w" "w_client_id (upd_gw i g w) = w_client_id w"
  "w_stats (upd_gw i g w) = w_stats w" "w_tags (upd_gw i g w) = w_tags w"
  "w_timers (upd_gw i g w) = w_timers w" "w_next_ptr (upd_gw i g w) = w_next_ptr w"
  "w_bulbs (upd_gw i g w) = w_bulbs w" "w_clock (upd_gw i g w) = w_clock w"
  "w_clock_pos (upd_gw i g w) = w_clock_pos w" "w_ext (upd_gw i g w) = w_ext w" "w_exit (upd_gw i g w) = w_exit w"
  "w_broadcast_endpoint (upd_gw i g w) = w_broadcast_endpoint w"
  "w_ext (upd_bulb a b w) = w_ext w" "w_exit (upd_bulb a b w) = w_exit w" "w_clock (upd_bulb a b w) = w_clock w"
  "w_broadcast_endpoint (upd_bulb a b w) = w_broadcast_endpoint w"
  "w_be (upd_bulb a b w) = w_be w" "w_client_id (upd_bulb a b w) = w_client_id w"
  "w_stats (upd_bulb a b w) = w_stats w" "w_tags (upd_bulb a b w) = w_tags w"
  "w_timers (upd_bulb a b w) = w_timers w" "w_next_ptr (upd_bulb a b w) = w_next_ptr w"
  "w_gateways (upd_bulb a b w) = w_gateways w" "map fst (w_gateways (upd_gw i g w)) = map fst (w_gateways w)"
  "map fst (w_bulbs (upd_bulb a b w)) = map fst (w_bulbs w)"
  by (simp_all add: upd_gw_def upd_bulb_def)

text \<open>A bulb of a reachable world and its gateway are in order: what sending needs.\<close>

definition sendable :: "lgtd_world \<Rightarrow> bulb_addr \<Rightarrow> lgtd_lifx_bulb \<Rightarrow> lgtd_lifx_gateway \<Rightarrow> bool" where
  "sendable w a b g \<longleftrightarrow> find_bulb a w = Some b \<and> find_gw (b_gw b) w = Some g \<and> length a = 6
     \<and> length (g_site g) = 6 \<and> ring_inv g \<and> w_client_id w \<noteq> 0"

lemma wf_world_sendable:
  assumes "wf_world w" "find_bulb a w = Some b"
  shows "\<exists>g. sendable w a b g"
  using wf_world_bulb [OF assms] wf_world_gw [OF assms(1)] wf_world_client [OF assms(1)] assms(2)
  by (auto simp: sendable_def gw_local_def)

lemma send_to_device_enqueues:
  assumes "sendable w a b g" "payload_ok ptype pkt"
  shows "\<exists>info hdr g'. lgtd_lifx_wire_setup_header (w_be w) (w_client_id w) LGTD_LIFX_TARGET_DEVICE (Target_addr a)
       (Some (g_site g)) ptype = Some (info, hdr)
     \<and> packet_ok (w_be w) hdr info pkt g
     \<and> lgtd_lifx_gateway_enqueue_packet (w_be w) hdr info pkt g = Some g' \<and> queue_frame g g' \<and> ring_inv g'
     \<and> g_pending_refresh_req g' = g_pending_refresh_req g"
proof -
  have "wf_target LGTD_LIFX_TARGET_DEVICE (Target_addr a) (Some (g_site g))"
    using assms(1) by (simp add: wf_target_def sendable_def)
  from setup_packet_ok [OF this _ assms(2), of "w_client_id w" "w_be w"] assms(1) obtain info hdr where
    i: "lgtd_lifx_wire_setup_header (w_be w) (w_client_id w) LGTD_LIFX_TARGET_DEVICE (Target_addr a)
       (Some (g_site g)) ptype = Some (info, hdr)" "packet_ok (w_be w) hdr info pkt g"
    by (auto simp: sendable_def)
  with enqueue_frame [OF i(2)] assms(1) show ?thesis by (auto simp: sendable_def)
qed

lemma send_to_device_ok:
  assumes "sendable w a b g" "payload_ok ptype pkt" "ptype \<noteq> LGTD_LIFX_SET_POWER_STATE"
  shows "\<exists>g'. lgtd_router_send_to_device a ptype pkt w = Some (upd_gw (b_gw b) g' w)
     \<and> queue_frame g g' \<and> ring_inv g' \<and> g_pending_refresh_req g' = g_pending_refresh_req g"
  using send_to_device_enqueues [OF assms(1,2)] assms(1,3)
  by (auto simp: lgtd_router_send_to_device_def sendable_def)

lemma send_power_to_device_ok:
  assumes "sendable w a b g" "payload_ok LGTD_LIFX_SET_POWER_STATE (Some bs)"
  shows "\<exists>g'. lgtd_router_send_to_device a LGTD_LIFX_SET_POWER_STATE (Some bs) w =
       Some (upd_bulb a (mark_dirty (w_be w) (w_clock w (w_clock_pos w)) bs b)
              ((upd_gw (b_gw b) g' w)\<lparr>w_clock_pos := Suc (w_clock_pos w)\<rparr>))
     \<and> queue_frame g g' \<and> ring_inv g' \<and> g_pending_refresh_req g' = g_pending_refresh_req g"
  using send_to_device_enqueues [OF assms] assms(1)
  by (auto simp: lgtd_router_send_to_device_def sendable_def lgtd_time_monotonic_msecs_def Let_def)

text \<open>What an operation on the devices leaves alone.\<close>

definition steady :: "lgtd_world \<Rightarrow> lgtd_world \<Rightarrow> bool" where
  "steady w w' \<longleftrightarrow> w_be w' = w_be w \<and> w_client_id w' = w_client_id w \<and> w_ext w' = w_ext w \<and> w_clock w' = w_clock w
     \<and> w_broadcast_endpoint w' = w_broadcast_endpoint w \<and> w_exit w' = w_exit w
     \<and> st_clients (w_stats w') = st_clients (w_stats w) \<and> w_next_ptr w \<le> w_next_ptr w'"

lemma steady_refl [simp]: "steady w w"
  by (simp add: steady_def)

lemma steady_trans: "steady w w' \<Longrightarrow> steady w' w'' \<Longrightarrow> steady w w''"
  by (simp add: steady_def)

text \<open>What the operations never change: the gateways, bulbs and tags that exist, and the bulbs' gateways.\<close>

definition gw_links :: "lgtd_lifx_gateway \<Rightarrow> bulb_addr list \<times> tag_ptr option list \<times> u64 \<times> bytes \<times> timer_ptr" where
  "gw_links g = (g_bulbs g, g_tags g, g_tag_ids g, g_peer g, g_refresh_timer g)"

definition same_devices :: "lgtd_world \<Rightarrow> lgtd_world \<Rightarrow> bool" where
  "same_devices w w' \<longleftrightarrow> steady w w' \<and> map fst (w_gateways w') = map fst (w_gateways w)
     \<and> map fst (w_bulbs w') = map fst (w_bulbs w) \<and> w_tags w' = w_tags w
     \<and> map fst (w_timers w') = map fst (w_timers w) \<and> w_next_ptr w' = w_next_ptr w
     \<and> (\<forall>a. map_option b_gw (find_bulb a w') = map_option b_gw (find_bulb a w))
     \<and> (\<forall>i. map_option gw_links (find_gw i w') = map_option gw_links (find_gw i w))"

lemma same_devices_refl [simp]: "same_devices w w"
  by (simp add: same_devices_def)

lemma same_devices_trans: "same_devices w w' \<Longrightarrow> same_devices w' w'' \<Longrightarrow> same_devices w w''"
  by (simp add: same_devices_def steady_def)

lemma same_devices_bulb:
  assumes "same_devices w w'" "find_bulb a w = Some b"
  shows "\<exists>b'. find_bulb a w' = Some b' \<and> b_gw b' = b_gw b"
proof -
  have "map_option b_gw (find_bulb a w') = map_option b_gw (find_bulb a w)" using assms(1) by (simp add: same_devices_def)
  with assms(2) show ?thesis by auto
qed

lemma same_devices_gw:
  assumes "same_devices w w'" "find_gw i w = Some g"
  shows "\<exists>g'. find_gw i w' = Some g' \<and> gw_links g' = gw_links g"
proof -
  have "map_option gw_links (find_gw i w') = map_option gw_links (find_gw i w)"
    using assms(1) by (simp add: same_devices_def)
  with assms(2) show ?thesis by auto
qed

lemma same_devices_upd_gw:
  "find_gw i w = Some g \<Longrightarrow> queue_frame g g' \<Longrightarrow> same_devices w (upd_gw i g' w)"
  by (auto simp: same_devices_def queue_frame_def steady_def gw_links_def)

lemma same_devices_upd_bulb:
  "find_bulb a w = Some b \<Longrightarrow> b_gw b' = b_gw b \<Longrightarrow> same_devices w (upd_bulb a b' w)"
  by (auto simp: same_devices_def steady_def)

lemma same_devices_clock [simp]: "same_devices w (w'\<lparr>w_clock_pos := c\<rparr>) = same_devices w w'"
  by (simp add: same_devices_def steady_def)

lemma send_to_device_wf:
  assumes "wf_world w" "find_bulb a w = Some b" "payload_ok ptype pkt" "pkt \<noteq> None \<or> ptype \<noteq> LGTD_LIFX_SET_POWER_STATE"
  shows "\<exists>w'. lgtd_router_send_to_device a ptype pkt w = Some w' \<and> wf_world w' \<and> same_devices w w'"
proof -
  obtain g where s: "sendable w a b g" using wf_world_sendable [OF assms(1,2)] by blast
  then have g: "find_gw (b_gw b) w = Some g" by (simp add: sendable_def)
  show ?thesis
  proof (cases "ptype = LGTD_LIFX_SET_POWER_STATE")
    case False
    from send_to_device_ok [OF s assms(3) False] obtain g' where
      "lgtd_router_send_to_device a ptype pkt w = Some (upd_gw (b_gw b) g' w)" "queue_frame g g'" "ring_inv g'"
      by blast
    with wf_world_upd_gw [OF assms(1) g queue_frame_core] same_devices_upd_gw [OF g] show ?thesis by blast
  next
    case True
    then obtain bs where bs: "pkt = Some bs" using assms(4) by auto
    from send_power_to_device_ok [OF s] assms(3) True bs obtain g' where
      g': "lgtd_router_send_to_device a ptype pkt w =
         Some (upd_bulb a (mark_dirty (w_be w) (w_clock w (w_clock_pos w)) bs b)
              ((upd_gw (b_gw b) g' w)\<lparr>w_clock_pos := Suc (w_clock_pos w)\<rparr>))" "queue_frame g g'" "ring_inv g'"
      by blast
    have w1: "wf_world ((upd_gw (b_gw b) g' w)\<lparr>w_clock_pos := Suc (w_clock_pos w)\<rparr>)"
      using wf_world_upd_gw [OF assms(1) g queue_frame_core [OF g'(2)] g'(3)] by simp
    have s1: "same_devices w ((upd_gw (b_gw b) g' w)\<lparr>w_clock_pos := Suc (w_clock_pos w)\<rparr>)"
      using same_devices_upd_gw [OF g g'(2)] by simp
    have "wf_world (upd_bulb a (mark_dirty (w_be w) (w_clock w (w_clock_pos w)) bs b)
              ((upd_gw (b_gw b) g' w)\<lparr>w_clock_pos := Suc (w_clock_pos w)\<rparr>))"
      by (rule wf_world_upd_bulb [OF w1, of _ b])
        (use assms(2) wf_world_bulb [OF assms(1,2)] in \<open>auto simp: mark_dirty_def bulb_core_eq_def bulb_local_def\<close>)
    moreover have "same_devices w (upd_bulb a (mark_dirty (w_be w) (w_clock w (w_clock_pos w)) bs b)
              ((upd_gw (b_gw b) g' w)\<lparr>w_clock_pos := Suc (w_clock_pos w)\<rparr>))"
      by (rule same_devices_trans [OF s1 same_devices_upd_bulb [of _ _ b]])
        (use assms(2) in \<open>auto simp: mark_dirty_def\<close>)
    ultimately show ?thesis using g'(1) by blast
  qed
qed

subsection \<open>The setters keep the invariant\<close>

lemma amod_same: "distinct (map fst xs) \<Longrightarrow> map_of xs k = Some v \<Longrightarrow> amod k (\<lambda>_. v) xs = xs"
  by (induction xs) (auto simp: amod_id split: if_splits)

lemma upd_gw_upd_gw [simp]: "upd_gw i g (upd_gw i h w) = upd_gw i g w"
  by (simp add: upd_gw_def comp_def)

lemma queue_refcount_frame:
  "queue_frame g h \<Longrightarrow> ring_inv h \<Longrightarrow> g_pending_refresh_req h = g_pending_refresh_req g \<Longrightarrow> refcount_frame g h"
  by (simp add: refcount_frame_def queue_frame_def)

text \<open>The first part of \<open>set_light_state\<close> and \<open>set_power_state\<close>: the counter of powered bulbs and the request
  for the runtime information.\<close>

definition power_changed :: "bulb_addr \<Rightarrow> u16 \<Rightarrow> lgtd_lifx_bulb \<Rightarrow> lgtd_world \<Rightarrow> lgtd_world option" where
  "power_changed bulb pow b w =
     (if pow \<noteq> ls_power (b_state b)
      then do {
        w \<leftarrow> lgtd_stats_add Bulbs_powered_on (if pow = LGTD_LIFX_POWER_ON then 1 else -1) w;
        lgtd_router_send_to_device bulb LGTD_LIFX_GET_INFO None w
      }
      else Some w)"

lemma power_changed_ok:
  assumes "wf_world w" "sendable w a b g" "pow = LGTD_LIFX_POWER_OFF \<or> pow = LGTD_LIFX_POWER_ON"
    and st: "st = (w_stats w)\<lparr>st_bulbs_powered_on := st_bulbs_powered_on (w_stats w)
        + of_bool (pow = LGTD_LIFX_POWER_ON) - of_bool (bulb_on b)\<rparr>"
  shows "\<exists>g'. power_changed a pow b w = Some (upd_gw (b_gw b) g' (w\<lparr>w_stats := st\<rparr>))
     \<and> queue_frame g g' \<and> ring_inv g' \<and> g_pending_refresh_req g' = g_pending_refresh_req g"
proof (cases "pow = ls_power (b_state b)")
  case True
  have g: "find_gw (b_gw b) w = Some g" using assms(2) by (simp add: sendable_def)
  have "amod (b_gw b) (\<lambda>_. g) (w_gateways w) = w_gateways w"
    using amod_same [OF _ g] wf_worldD(1) [OF assms(1)] by (simp add: inv_keys_def)
  then show ?thesis
    using True assms(2) st by (auto simp: power_changed_def upd_gw_def sendable_def intro!: exI [of _ g])
next
  case False
  have b: "find_bulb a w = Some b" using assms(2) by (simp add: sendable_def)
  have "bulb_local b" using wf_world_bulb [OF assms(1) b] by simp
  then have delta: "(if pow = LGTD_LIFX_POWER_ON then 1 else -1) =
      of_bool (pow = LGTD_LIFX_POWER_ON) - (of_bool (bulb_on b) :: int)"
    using False assms(3) by (auto simp: bulb_local_def)
  have "0 \<le> st_bulbs_powered_on (w_stats w) + (of_bool (pow = LGTD_LIFX_POWER_ON) - of_bool (bulb_on b))"
    using wf_worldD(6) [OF assms(1)] acount_pos [OF b, of bulb_on] by (auto simp: inv_stats_def)
  then have "lgtd_stats_add Bulbs_powered_on (if pow = LGTD_LIFX_POWER_ON then 1 else -1) w = Some (w\<lparr>w_stats := st\<rparr>)"
    using delta by (simp add: lgtd_stats_add_def st add_diff_eq)
  moreover have "sendable (w\<lparr>w_stats := st\<rparr>) a b g" using assms(2) by (simp add: sendable_def)
  ultimately show ?thesis
    using send_to_device_ok [of "w\<lparr>w_stats := st\<rparr>" a b g LGTD_LIFX_GET_INFO None] False
    by (simp add: power_changed_def)
qed

lemma set_light_state_eq:
  "lgtd_lifx_bulb_set_light_state a state t w =
     do {
       b \<leftarrow> find_bulb a w;
       w \<leftarrow> power_changed a (ls_power state) b w;
       gw \<leftarrow> find_gw (b_gw b) w;
       gw \<leftarrow> lgtd_lifx_gateway_update_tag_refcounts (w_be w) (w_client_id w) (ls_tags (b_state b)) (ls_tags state) gw;
       let w = upd_gw (b_gw b) gw w;
       b \<leftarrow> find_bulb a w;
       Some (upd_bulb a (b\<lparr>b_last_light_state_at := t, b_state := state\<rparr>) w)
     }"
  by (simp add: lgtd_lifx_bulb_set_light_state_def power_changed_def)

lemma set_power_state_eq:
  "lgtd_lifx_bulb_set_power_state a pow w =
     do {
       b \<leftarrow> find_bulb a w;
       w \<leftarrow> power_changed a pow b w;
       b \<leftarrow> find_bulb a w;
       Some (upd_bulb a (b\<lparr>b_state := (b_state b)\<lparr>ls_power := pow\<rparr>\<rparr>) w)
     }"
  by (simp add: lgtd_lifx_bulb_set_power_state_def power_changed_def)

lemma update_refcounts_of_bulb:
  assumes "wf_world w" "find_bulb a w = Some b" "find_gw (b_gw b) w = Some g" "queue_frame g h" "ring_inv h"
  shows "\<exists>h'. lgtd_lifx_gateway_update_tag_refcounts be (w_client_id w) (bulb_tags b) tags h = Some h'
     \<and> refcount_frame h h'
     \<and> (\<forall>k<64. g_tag_refcounts h' ! k = g_tag_refcounts g ! k + of_bool (bit tags k \<and> \<not> bit (bulb_tags b) k)
          - of_bool (bit (bulb_tags b) k \<and> \<not> bit tags k))"
proof -
  have loc: "gw_local g" by (rule wf_world_gw [OF assms(1,3)])
  have eq: "g_tag_refcounts h = g_tag_refcounts g" "g_site h = g_site g"
    using assms(4) by (auto simp: queue_frame_def)
  have "g_tag_refcounts h ! k \<noteq> 255" if "bit tags k" "\<not> bit (bulb_tags b) k" for k
    using refcounts_can_change(2) [OF assms(1-3)] bit_u64_less that by (simp add: eq)
  moreover have "g_tag_refcounts h ! k \<noteq> 0" if "bit (bulb_tags b) k" "\<not> bit tags k" for k
    using refcounts_can_change(1) [OF assms(1-3)] bit_u64_less that by (simp add: eq)
  ultimately show ?thesis
    using update_tag_refcounts_ok [of h "w_client_id w" tags "bulb_tags b" be] loc assms(5)
      wf_world_client [OF assms(1)] by (simp add: eq gw_local_def)
qed

lemma same_devices_stats: "st_clients st = st_clients (w_stats w) \<Longrightarrow> same_devices w (w\<lparr>w_stats := st\<rparr>)"
  by (simp add: same_devices_def steady_def)

lemma same_devices_upd_gw':
  "find_gw i w = Some g \<Longrightarrow> refcount_frame g g' \<Longrightarrow> same_devices w (upd_gw i g' w)"
  by (auto simp: same_devices_def refcount_frame_def queue_frame_def steady_def gw_links_def)

lemma same_devices_set:
  assumes "find_bulb a w = Some b" "find_gw (b_gw b) w = Some g" "refcount_frame g g'" "b_gw b' = b_gw b"
    and "st_clients st = st_clients (w_stats w)"
  shows "same_devices w (upd_bulb a b' (upd_gw (b_gw b) g' (w\<lparr>w_stats := st\<rparr>)))"
proof -
  have "same_devices w (upd_gw (b_gw b) g' (w\<lparr>w_stats := st\<rparr>))"
    by (rule same_devices_trans [OF same_devices_stats [OF assms(5)] same_devices_upd_gw' [OF _ assms(3)]]) (use assms(2) in simp)
  from same_devices_trans [OF this same_devices_upd_bulb [where a = a and b = b and b' = b']] show ?thesis using assms(1,4) by simp
qed

lemma set_light_state_wf:
  assumes "wf_world w" "find_bulb a w = Some b" "length (ls_label state) = 32"
    and "ls_power state = LGTD_LIFX_POWER_OFF \<or> ls_power state = LGTD_LIFX_POWER_ON"
  shows "\<exists>w'. lgtd_lifx_bulb_set_light_state a state t w = Some w' \<and> wf_world w' \<and> same_devices w w'
     \<and> find_bulb a w' = Some (b\<lparr>b_last_light_state_at := t, b_state := state\<rparr>)"
proof -
  let ?b = "b\<lparr>b_last_light_state_at := t, b_state := state\<rparr>"
  define st where "st = (w_stats w)\<lparr>st_bulbs_powered_on := st_bulbs_powered_on (w_stats w)
        + of_bool (ls_power state = LGTD_LIFX_POWER_ON) - of_bool (bulb_on b)\<rparr>"
  obtain g where s: "sendable w a b g" using wf_world_sendable [OF assms(1,2)] by blast
  then have g: "find_gw (b_gw b) w = Some g" by (simp add: sendable_def)
  from power_changed_ok [OF assms(1) s assms(4) st_def] obtain h where
    h: "power_changed a (ls_power state) b w = Some (upd_gw (b_gw b) h (w\<lparr>w_stats := st\<rparr>))"
      "queue_frame g h" "ring_inv h" "g_pending_refresh_req h = g_pending_refresh_req g" by blast
  from update_refcounts_of_bulb [OF assms(1,2) g h(2,3), of "w_be w" "ls_tags state"] obtain h' where
    h': "lgtd_lifx_gateway_update_tag_refcounts (w_be w) (w_client_id w) (bulb_tags b) (ls_tags state) h = Some h'"
      "refcount_frame h h'"
      "\<forall>k<64. g_tag_refcounts h' ! k = g_tag_refcounts g ! k
        + of_bool (bit (ls_tags state) k \<and> \<not> bit (bulb_tags b) k)
        - of_bool (bit (bulb_tags b) k \<and> \<not> bit (ls_tags state) k)" by blast
  have fr: "refcount_frame g h'" using refcount_frame_trans [OF queue_refcount_frame [OF h(2-4)] h'(2)] .
  have "lgtd_lifx_bulb_set_light_state a state t w =
      Some (upd_bulb a ?b (upd_gw (b_gw b) h' (w\<lparr>w_stats := st\<rparr>)))"
    using assms(2) h(1) h'(1) g by (simp add: set_light_state_eq)
  moreover have "wf_world (upd_bulb a ?b (upd_gw (b_gw b) h' (w\<lparr>w_stats := st\<rparr>)))"
    by (rule wf_world_set_state [OF assms(1,2) g _ _ fr])
      (use assms(3,4) h'(3) st_def in \<open>auto simp: bulb_local_def\<close>)
  moreover have "same_devices w (upd_bulb a ?b (upd_gw (b_gw b) h' (w\<lparr>w_stats := st\<rparr>)))"
    by (rule same_devices_set [OF assms(2) g fr]) (simp_all add: st_def)
  ultimately show ?thesis using assms(2) by auto
qed

lemma set_power_state_wf:
  assumes "wf_world w" "find_bulb a w = Some b" "pow = LGTD_LIFX_POWER_OFF \<or> pow = LGTD_LIFX_POWER_ON"
  shows "\<exists>w'. lgtd_lifx_bulb_set_power_state a pow w = Some w' \<and> wf_world w' \<and> same_devices w w'
     \<and> find_bulb a w' = Some (b\<lparr>b_state := (b_state b)\<lparr>ls_power := pow\<rparr>\<rparr>)"
proof -
  let ?b = "b\<lparr>b_state := (b_state b)\<lparr>ls_power := pow\<rparr>\<rparr>"
  define st where "st = (w_stats w)\<lparr>st_bulbs_powered_on := st_bulbs_powered_on (w_stats w)
        + of_bool (pow = LGTD_LIFX_POWER_ON) - of_bool (bulb_on b)\<rparr>"
  obtain g where s: "sendable w a b g" using wf_world_sendable [OF assms(1,2)] by blast
  then have g: "find_gw (b_gw b) w = Some g" by (simp add: sendable_def)
  from power_changed_ok [OF assms(1) s assms(3) st_def] obtain h where
    h: "power_changed a pow b w = Some (upd_gw (b_gw b) h (w\<lparr>w_stats := st\<rparr>))"
      "queue_frame g h" "ring_inv h" "g_pending_refresh_req h = g_pending_refresh_req g" by blast
  note fr = queue_refcount_frame [OF h(2-4)]
  have "lgtd_lifx_bulb_set_power_state a pow w = Some (upd_bulb a ?b (upd_gw (b_gw b) h (w\<lparr>w_stats := st\<rparr>)))"
    using assms(2) h(1) by (simp add: set_power_state_eq)
  moreover have "wf_world (upd_bulb a ?b (upd_gw (b_gw b) h (w\<lparr>w_stats := st\<rparr>)))"
    by (rule wf_world_set_state [OF assms(1,2) g _ _ fr])
      (use assms(3) wf_world_bulb [OF assms(1,2)] h(2) st_def in \<open>auto simp: bulb_local_def queue_frame_def\<close>)
  moreover have "same_devices w (upd_bulb a ?b (upd_gw (b_gw b) h (w\<lparr>w_stats := st\<rparr>)))"
    by (rule same_devices_set [OF assms(2) g fr]) (simp_all add: st_def)
  ultimately show ?thesis using assms(2) by auto
qed

lemma set_tags_wf:
  assumes "wf_world w" "find_bulb a w = Some b"
  shows "\<exists>w'. lgtd_lifx_bulb_set_tags a tags w = Some w' \<and> wf_world w' \<and> same_devices w w'
     \<and> find_bulb a w' = Some (b\<lparr>b_state := (b_state b)\<lparr>ls_tags := tags\<rparr>\<rparr>)"
proof -
  let ?b = "b\<lparr>b_state := (b_state b)\<lparr>ls_tags := tags\<rparr>\<rparr>"
  obtain g where s: "sendable w a b g" using wf_world_sendable [OF assms(1,2)] by blast
  then have g: "find_gw (b_gw b) w = Some g" "ring_inv g" by (simp_all add: sendable_def)
  from update_refcounts_of_bulb [OF assms(1,2) g(1) queue_frame_refl g(2), of "w_be w" tags] obtain h where
    h: "lgtd_lifx_gateway_update_tag_refcounts (w_be w) (w_client_id w) (bulb_tags b) tags g = Some h"
      "refcount_frame g h"
      "\<forall>k<64. g_tag_refcounts h ! k = g_tag_refcounts g ! k
        + of_bool (bit tags k \<and> \<not> bit (bulb_tags b) k)
        - of_bool (bit (bulb_tags b) k \<and> \<not> bit tags k)" by blast
  have "lgtd_lifx_bulb_set_tags a tags w = Some (upd_bulb a ?b (upd_gw (b_gw b) h w))"
    using assms(2) h(1) g by (simp add: lgtd_lifx_bulb_set_tags_def)
  moreover have "wf_world (upd_bulb a ?b (upd_gw (b_gw b) h (w\<lparr>w_stats := w_stats w\<rparr>)))"
    by (rule wf_world_set_state [OF assms(1,2) g(1) _ _ h(2)])
      (use h(3) wf_world_bulb [OF assms(1,2)] in \<open>auto simp: bulb_local_def\<close>)
  moreover have "same_devices w (upd_bulb a ?b (upd_gw (b_gw b) h (w\<lparr>w_stats := w_stats w\<rparr>)))"
    by (rule same_devices_set [OF assms(2) g(1) h(2)]) simp_all
  ultimately show ?thesis using assms(2) by auto
qed

text \<open>The setters of the other attributes change one bulb and nothing the invariant depends on.\<close>

lemma upd_bulb_core_wf:
  assumes "wf_world w" "find_bulb a w = Some b" "f = Some (upd_bulb a b' w)" "bulb_core_eq b b'"
    and "length (ls_label (b_state b')) = 32"
  shows "\<exists>w'. f = Some w' \<and> wf_world w' \<and> same_devices w w'"
  using wf_world_upd_bulb [OF assms(1,2,4,5)] same_devices_upd_bulb [OF assms(2)] assms(3,4)
  by (simp add: bulb_core_eq_def)

lemma set_attributes_wf:
  assumes "wf_world w" "find_bulb a w = Some b"
  shows "\<exists>w'. lgtd_lifx_bulb_set_ip_state a ip st t w = Some w' \<and> wf_world w' \<and> same_devices w w'"
    and "\<exists>w'. lgtd_lifx_bulb_set_ip_firmware_info a ip fw t w = Some w' \<and> wf_world w' \<and> same_devices w w'"
    and "\<exists>w'. lgtd_lifx_bulb_set_product_info a pr w = Some w' \<and> wf_world w' \<and> same_devices w w'"
    and "\<exists>w'. lgtd_lifx_bulb_set_runtime_info a ri t w = Some w' \<and> wf_world w' \<and> same_devices w w'"
    and "\<exists>w'. lgtd_lifx_bulb_set_ambient_light a lux w = Some w' \<and> wf_world w' \<and> same_devices w w'"
proof -
  have "length (ls_label (b_state b)) = 32" using wf_world_bulb [OF assms] by (simp add: bulb_local_def)
  note facts = this assms(2) and wf = upd_bulb_core_wf [OF assms]
  show "\<exists>w'. lgtd_lifx_bulb_set_ip_state a ip st t w = Some w' \<and> wf_world w' \<and> same_devices w w'"
    by (rule wf, use facts in \<open>simp add: lgtd_lifx_bulb_set_ip_state_def Let_def\<close>, use facts in \<open>simp_all add: bulb_core_eq_def\<close>)
  show "\<exists>w'. lgtd_lifx_bulb_set_ip_firmware_info a ip fw t w = Some w' \<and> wf_world w' \<and> same_devices w w'"
    by (rule wf, use facts in \<open>simp add: lgtd_lifx_bulb_set_ip_firmware_info_def Let_def\<close>, use facts in \<open>simp_all add: bulb_core_eq_def\<close>)
  show "\<exists>w'. lgtd_lifx_bulb_set_product_info a pr w = Some w' \<and> wf_world w' \<and> same_devices w w'"
    by (rule wf, use facts in \<open>simp add: lgtd_lifx_bulb_set_product_info_def Let_def\<close>, use facts in \<open>simp_all add: bulb_core_eq_def\<close>)
  show "\<exists>w'. lgtd_lifx_bulb_set_runtime_info a ri t w = Some w' \<and> wf_world w' \<and> same_devices w w'"
    by (rule wf, use facts in \<open>simp add: lgtd_lifx_bulb_set_runtime_info_def Let_def\<close>, use facts in \<open>simp_all add: bulb_core_eq_def\<close>)
  show "\<exists>w'. lgtd_lifx_bulb_set_ambient_light a lux w = Some w' \<and> wf_world w' \<and> same_devices w w'"
    by (rule wf, use facts in \<open>simp add: lgtd_lifx_bulb_set_ambient_light_def Let_def\<close>, use facts in \<open>simp_all add: bulb_core_eq_def\<close>)
qed

lemma set_label_wf:
  assumes "wf_world w" "find_bulb a w = Some b" "32 \<le> length label"
  shows "\<exists>w'. lgtd_lifx_bulb_set_label a label w = Some w' \<and> wf_world w' \<and> same_devices w w'"
  by (rule upd_bulb_core_wf [OF assms(1,2)], use assms(2) in \<open>simp add: lgtd_lifx_bulb_set_label_def\<close>,
      use assms(3) in \<open>simp_all add: bulb_core_eq_def\<close>)

end
