(* ===== verification/Gateway.thy ===== *)
theory Gateway
  imports Bulb
begin

text \<open>
  Gateways (\<open>src/lifx/gateway.c\<close>), the receive loop (\<open>lgtd_lifx_wire_handle_receive\<close> in
  \<open>src/lifx/wire_proto.c\<close>), the start of the watchdog (\<open>src/lifx/discovery.c\<close>) and the request of a
  discovery (\<open>src/lifx/broadcast.c\<close>), which they call. Logging is left out.
\<close>

unbundle bit_operations_syntax

subsection \<open>Discovery requests and the watchdog\<close>

definition lgtd_lifx_broadcast_discovery :: "lgtd_world \<Rightarrow> (bool \<times> lgtd_world) option" where
  "lgtd_lifx_broadcast_discovery w =
     do {
       c_assert (ep_write_ev (w_broadcast_endpoint w));
       Some (ext_call w)
     }"

text \<open>\<open>evtimer_pending\<close> and \<open>event_add\<close> are answered by the environment.\<close>

definition lgtd_lifx_discovery_start_watchdog :: "lgtd_world \<Rightarrow> lgtd_world option" where
  "lgtd_lifx_discovery_start_watchdog w =
     do {
       c_assert (w_bulbs w \<noteq> [] \<or> w_gateways w \<noteq> []);
       let (pending, w) = ext_call w;
       Some (if pending then w
             else (let (ok, w) = ext_call w
                   in if ok then w\<lparr>w_watchdog_started := True\<rparr> else lgtd_err 1 w))
     }"

subsection \<open>Opening and closing\<close>

text \<open>The list operation is on the list the gateway is given, the rest on the gateway of the bulb.\<close>

definition lgtd_lifx_gateway_remove_and_close_bulb :: "gw_ptr \<Rightarrow> bulb_addr \<Rightarrow> lgtd_world \<Rightarrow> lgtd_world option" where
  "lgtd_lifx_gateway_remove_and_close_bulb gw bulb w =
     do {
       g \<leftarrow> find_gw gw w;
       b \<leftarrow> find_bulb bulb w;
       g \<leftarrow> LGTD_LIFX_WIRE_FOREACH_TAG_ID (\<lambda>tag_id g. do {
              c_assert (0 < g_tag_refcounts g ! tag_id);
              Some (g\<lparr>g_tag_refcounts := (g_tag_refcounts g)[tag_id := g_tag_refcounts g ! tag_id - 1]\<rparr>)
            }) (ls_tags (b_state b)) g;
       let w = upd_gw gw (g\<lparr>g_bulbs := remove1 bulb (g_bulbs g)\<rparr>) w;
       lgtd_lifx_bulb_close bulb w
     }"

text \<open>
  The gateway leaves the list of gateways first and is freed last; nothing in between walks that list, so
  it leaves the world at the end. Each round of the last loop removes the first bulb, so the loop
  goes through the bulbs of the gateway.
\<close>

definition lgtd_lifx_gateway_close :: "gw_ptr \<Rightarrow> lgtd_world \<Rightarrow> lgtd_world option" where
  "lgtd_lifx_gateway_close gw w =
     do {
       g \<leftarrow> find_gw gw w;
       w \<leftarrow> lgtd_stats_add Gateways (-1) w;
       w \<leftarrow> lgtd_timer_stop (g_refresh_timer g) w;
       w \<leftarrow> foreach (\<lambda>i w. case g_tags g ! i of
                            Some tag \<Rightarrow> lgtd_lifx_tagging_decref tag gw w
                          | None \<Rightarrow> Some w) [0..<LGTD_LIFX_GATEWAY_MAX_TAGS] w;
       w \<leftarrow> foreach (lgtd_lifx_gateway_remove_and_close_bulb gw) (g_bulbs g) w;
       Some (w\<lparr>w_gateways := adel gw (w_gateways w)\<rparr>)
     }"

definition lgtd_lifx_gateway_get_or_open_bulb ::
  "gw_ptr \<Rightarrow> bulb_addr \<Rightarrow> lgtd_world \<Rightarrow> (bool \<times> lgtd_world) option" where
  "lgtd_lifx_gateway_get_or_open_bulb gw bulb_addr w =
     (case lgtd_lifx_bulb_get bulb_addr w of
        Some b \<Rightarrow> Some (True, w)
      | None \<Rightarrow> do {
          (ok, w) \<leftarrow> lgtd_lifx_bulb_open gw bulb_addr w;
          if ok then do {
            g \<leftarrow> find_gw gw w;
            Some (True, upd_gw gw (g\<lparr>g_bulbs := bulb_addr # g_bulbs g\<rparr>) w)
          }
          else Some (False, w)
        })"

text \<open>\<open>LGTD_LIFX_GATEWAY_GET_BULB_OR_RETURN\<close> followed by the rest of the handler.\<close>

definition LGTD_LIFX_GATEWAY_GET_BULB_OR_RETURN ::
  "gw_ptr \<Rightarrow> bulb_addr \<Rightarrow> (lgtd_world \<Rightarrow> lgtd_world option) \<Rightarrow> lgtd_world \<Rightarrow> lgtd_world option" where
  "LGTD_LIFX_GATEWAY_GET_BULB_OR_RETURN gw bulb_addr rest w =
     do {
       (ok, w) \<leftarrow> lgtd_lifx_gateway_get_or_open_bulb gw bulb_addr w;
       if ok then rest w else Some w
     }"

text \<open>
  The calls that may fail are, in order: \<open>calloc\<close>, \<open>socket\<close>, \<open>connect\<close>, \<open>evutil_make_socket_nonblocking\<close>,
  \<open>event_new\<close>, \<open>evbuffer_new\<close>, \<open>malloc\<close> and those of the timer.
\<close>

definition lgtd_lifx_gateway_open ::
  "bytes \<Rightarrow> bytes \<Rightarrow> lgtd_time_mono_t \<Rightarrow> lgtd_world \<Rightarrow> (gw_ptr option \<times> lgtd_world) option" where
  "lgtd_lifx_gateway_open peer site received_at w =
     do {
       let (calloc_ok, w) = ext_call w;
       if \<not> calloc_ok then Some (None, w) else do {
       let (gw, w) = fresh_ptr w;
       let (socket_ok, w) = ext_call w;
       if \<not> socket_ok then Some (None, w) else do {
       let (connect_ok, w) = ext_call w;
       if \<not> connect_ok then Some (None, w) else do {
       let (nonblocking_ok, w) = ext_call w;
       if \<not> nonblocking_ok then Some (None, w) else do {
       let (event_ok, w) = ext_call w;
       let (evbuffer_ok, w) = ext_call w;
       if \<not> event_ok \<or> \<not> evbuffer_ok then Some (None, w) else do {
       let (malloc_ok, w) = ext_call w;
       if \<not> malloc_ok then Some (None, w) else do {
       (timer, w) \<leftarrow> lgtd_timer_start True False LGTD_LIFX_GATEWAY_MIN_REFRESH_INTERVAL_MSECS
                       (Refresh_callback gw) w;
       case timer of
         None \<Rightarrow> Some (None, w)
       | Some refresh_timer \<Rightarrow> do {
           let w = w\<lparr>w_gateways := (gw, calloc_gateway peer site received_at refresh_timer) # w_gateways w\<rparr>;
           w \<leftarrow> lgtd_lifx_discovery_start_watchdog w;
           if w_exit w \<noteq> None then Some (Some gw, w) else do {
             w \<leftarrow> lgtd_stats_add Gateways 1 w;
             Some (Some gw, w)
           }
         }
       }}}}}}
     }"

definition lgtd_lifx_gateway_get :: "bytes \<Rightarrow> lgtd_world \<Rightarrow> gw_ptr option" where
  "lgtd_lifx_gateway_get peer w = map_option fst (List.find (\<lambda>(gw, g). g_peer g = peer) (w_gateways w))"

definition lgtd_lifx_gateway_close_all :: "lgtd_world \<Rightarrow> lgtd_world option" where
  "lgtd_lifx_gateway_close_all w = foreach lgtd_lifx_gateway_close (map fst (w_gateways w)) w"

subsection \<open>Refresh\<close>

definition send_get_all_light_state :: "gw_ptr \<Rightarrow> lgtd_world \<Rightarrow> lgtd_world option" where
  "send_get_all_light_state gw w =
     do {
       g \<leftarrow> find_gw gw w;
       g \<leftarrow> lgtd_lifx_gateway_send_get_all_light_state (w_be w) (w_client_id w) g;
       Some (upd_gw gw g w)
     }"

definition lgtd_lifx_gateway_refresh_callback :: "gw_ptr \<Rightarrow> lgtd_world \<Rightarrow> lgtd_world option" where
  "lgtd_lifx_gateway_refresh_callback gw w =
     do {
       w \<leftarrow> send_get_all_light_state gw w;
       g \<leftarrow> find_gw gw w;
       lgtd_timer_reschedule (g_refresh_timer g) LGTD_LIFX_GATEWAY_MIN_REFRESH_INTERVAL_MSECS w
     }"

definition lgtd_lifx_gateway_force_refresh :: "gw_ptr \<Rightarrow> lgtd_world \<Rightarrow> lgtd_world option" where
  "lgtd_lifx_gateway_force_refresh gw w =
     do {
       g \<leftarrow> find_gw gw w;
       lgtd_timer_activate (g_refresh_timer g) w
     }"

subsection \<open>Tag ids\<close>

definition lgtd_lifx_gateway_allocate_tag_id ::
  "gw_ptr \<Rightarrow> int \<Rightarrow> string \<Rightarrow> lgtd_world \<Rightarrow> (int \<times> lgtd_world) option" where
  "lgtd_lifx_gateway_allocate_tag_id gw tag_id tag_label w =
     do {
       c_assert (-1 \<le> tag_id);
       c_assert (tag_id < int LGTD_LIFX_GATEWAY_MAX_TAGS);
       g \<leftarrow> find_gw gw w;
       let tag_id = (if tag_id = -1 then lgtd_lifx_wire_bitscan64_forward (NOT (g_tag_ids g)) else tag_id);
       if tag_id = -1 then Some (-1, w)
       else if g_tag_ids g AND LGTD_LIFX_WIRE_TAG_ID_TO_VALUE (nat tag_id) = 0 then do {
         (tag, w) \<leftarrow> lgtd_lifx_tagging_incref tag_label gw (nat tag_id) w;
         case tag of
           None \<Rightarrow> Some (-1, w)
         | Some p \<Rightarrow> do {
             g \<leftarrow> find_gw gw w;
             let g = g\<lparr>g_tag_ids := g_tag_ids g OR LGTD_LIFX_WIRE_TAG_ID_TO_VALUE (nat tag_id),
                       g_tags := (g_tags g)[nat tag_id := Some p]\<rparr>;
             Some (tag_id, upd_gw gw g w)
           }
       }
       else Some (tag_id, w)
     }"

definition lgtd_lifx_gateway_deallocate_tag_id :: "gw_ptr \<Rightarrow> int \<Rightarrow> lgtd_world \<Rightarrow> lgtd_world option" where
  "lgtd_lifx_gateway_deallocate_tag_id gw tag_id w =
     do {
       c_assert (0 \<le> tag_id);
       c_assert (tag_id < int LGTD_LIFX_GATEWAY_MAX_TAGS);
       g \<leftarrow> find_gw gw w;
       if g_tag_ids g AND LGTD_LIFX_WIRE_TAG_ID_TO_VALUE (nat tag_id) \<noteq> 0 then do {
         tag \<leftarrow> g_tags g ! nat tag_id;
         w \<leftarrow> lgtd_lifx_tagging_decref tag gw w;
         g \<leftarrow> find_gw gw w;
         let g = g\<lparr>g_tag_ids := g_tag_ids g AND NOT (LGTD_LIFX_WIRE_TAG_ID_TO_VALUE (nat tag_id)),
                   g_tags := (g_tags g)[nat tag_id := None]\<rparr>;
         Some (upd_gw gw g w)
       }
       else Some w
     }"

subsection \<open>Packet handlers\<close>

definition lgtd_lifx_gateway_handle_light_status ::
  "gw_ptr \<Rightarrow> lgtd_lifx_packet_header \<Rightarrow> lgtd_lifx_packet_light_status \<Rightarrow> lgtd_world \<Rightarrow> lgtd_world option" where
  "lgtd_lifx_gateway_handle_light_status gw hdr pkt =
     (let addr = hdr_device_addr hdr in
      LGTD_LIFX_GATEWAY_GET_BULB_OR_RETURN gw addr (\<lambda>w.
        do {
          g \<leftarrow> find_gw gw w;
          w \<leftarrow> lgtd_lifx_bulb_set_light_state addr pkt (g_last_pkt_at g) w;
          b \<leftarrow> find_bulb addr w;
          bulb_gw \<leftarrow> find_gw (b_gw b) w;
          w \<leftarrow> (if b_dirty_at b \<noteq> 0 \<and> b_dirty_at b < b_last_light_state_at b
                   \<and> 400 < g_last_pkt_at bulb_gw - b_dirty_at b
                then (if b_expected_power_on b = ls_power (b_state b)
                      then Some (upd_bulb addr (b\<lparr>b_dirty_at := 0\<rparr>) w)
                      else lgtd_router_send_to_device addr LGTD_LIFX_SET_POWER_STATE
                             (Some (power_state_bytes (w_be w)
                                \<lparr>ps_power = if b_expected_power_on b \<noteq> 0 then LGTD_LIFX_POWER_ON
                                           else LGTD_LIFX_POWER_OFF\<rparr>)) w)
                else Some w);
          g \<leftarrow> find_gw gw w;
          let latency = lgtd_lifx_gateway_latency g;
          if latency < 800
          then lgtd_timer_reschedule (g_refresh_timer g)
                 (LGTD_LIFX_GATEWAY_MIN_REFRESH_INTERVAL_MSECS - uint latency) w
          else if \<not> g_pending_refresh_req g then send_get_all_light_state gw w
          else Some w
        }))"

definition lgtd_lifx_gateway_handle_power_state ::
  "gw_ptr \<Rightarrow> lgtd_lifx_packet_header \<Rightarrow> lgtd_lifx_packet_power_state \<Rightarrow> lgtd_world \<Rightarrow> lgtd_world option" where
  "lgtd_lifx_gateway_handle_power_state gw hdr pkt =
     LGTD_LIFX_GATEWAY_GET_BULB_OR_RETURN gw (hdr_device_addr hdr)
       (lgtd_lifx_bulb_set_power_state (hdr_device_addr hdr) (ps_power pkt))"

definition lgtd_lifx_gateway_handle_tag_labels ::
  "gw_ptr \<Rightarrow> lgtd_lifx_packet_tag_labels \<Rightarrow> lgtd_world \<Rightarrow> lgtd_world option" where
  "lgtd_lifx_gateway_handle_tag_labels gw pkt w =
     LGTD_LIFX_WIRE_FOREACH_TAG_ID (\<lambda>tag_id w.
       if tl_label pkt ! 0 \<noteq> CHR 0x00
       then do { (_, w) \<leftarrow> lgtd_lifx_gateway_allocate_tag_id gw (int tag_id) (tl_label pkt) w; Some w }
       else do {
         g \<leftarrow> find_gw gw w;
         if g_tags g ! tag_id \<noteq> None then lgtd_lifx_gateway_deallocate_tag_id gw (int tag_id) w else Some w
       }) (tl_tags pkt) w"

text \<open>The loop of the source only logs the tag ids the gateway does not know.\<close>

definition lgtd_lifx_gateway_handle_tags ::
  "gw_ptr \<Rightarrow> lgtd_lifx_packet_header \<Rightarrow> lgtd_lifx_packet_tags \<Rightarrow> lgtd_world \<Rightarrow> lgtd_world option" where
  "lgtd_lifx_gateway_handle_tags gw hdr pkt =
     LGTD_LIFX_GATEWAY_GET_BULB_OR_RETURN gw (hdr_device_addr hdr)
       (lgtd_lifx_bulb_set_tags (hdr_device_addr hdr) (pt_tags pkt))"

definition lgtd_lifx_gateway_handle_ip_state ::
  "gw_ptr \<Rightarrow> lgtd_lifx_packet_header \<Rightarrow> lgtd_lifx_packet_ip_state \<Rightarrow> lgtd_world \<Rightarrow> lgtd_world option" where
  "lgtd_lifx_gateway_handle_ip_state gw hdr pkt w =
     do {
       ip_id \<leftarrow> (if hdr_packet_type hdr = LGTD_LIFX_MESH_INFO then Some LGTD_LIFX_BULB_MCU_IP
                else if hdr_packet_type hdr = LGTD_LIFX_WIFI_INFO then Some LGTD_LIFX_BULB_WIFI_IP
                else None);
       g \<leftarrow> find_gw gw w;
       LGTD_LIFX_GATEWAY_GET_BULB_OR_RETURN gw (hdr_device_addr hdr)
         (lgtd_lifx_bulb_set_ip_state (hdr_device_addr hdr) ip_id pkt (g_last_pkt_at g)) w
     }"

definition lgtd_lifx_gateway_handle_ip_firmware_info ::
  "gw_ptr \<Rightarrow> lgtd_lifx_packet_header \<Rightarrow> lgtd_lifx_packet_ip_firmware_info \<Rightarrow> lgtd_world \<Rightarrow> lgtd_world option" where
  "lgtd_lifx_gateway_handle_ip_firmware_info gw hdr pkt w =
     do {
       ip_id \<leftarrow> (if hdr_packet_type hdr = LGTD_LIFX_MESH_FIRMWARE then Some LGTD_LIFX_BULB_MCU_IP
                else if hdr_packet_type hdr = LGTD_LIFX_WIFI_FIRMWARE_STATE then Some LGTD_LIFX_BULB_WIFI_IP
                else None);
       g \<leftarrow> find_gw gw w;
       LGTD_LIFX_GATEWAY_GET_BULB_OR_RETURN gw (hdr_device_addr hdr)
         (lgtd_lifx_bulb_set_ip_firmware_info (hdr_device_addr hdr) ip_id pkt (g_last_pkt_at g)) w
     }"

definition lgtd_lifx_gateway_handle_product_info ::
  "gw_ptr \<Rightarrow> lgtd_lifx_packet_header \<Rightarrow> lgtd_lifx_packet_product_info \<Rightarrow> lgtd_world \<Rightarrow> lgtd_world option" where
  "lgtd_lifx_gateway_handle_product_info gw hdr pkt =
     LGTD_LIFX_GATEWAY_GET_BULB_OR_RETURN gw (hdr_device_addr hdr)
       (lgtd_lifx_bulb_set_product_info (hdr_device_addr hdr) pkt)"

definition lgtd_lifx_gateway_handle_runtime_info ::
  "gw_ptr \<Rightarrow> lgtd_lifx_packet_header \<Rightarrow> lgtd_lifx_packet_runtime_info \<Rightarrow> lgtd_world \<Rightarrow> lgtd_world option" where
  "lgtd_lifx_gateway_handle_runtime_info gw hdr pkt w =
     do {
       g \<leftarrow> find_gw gw w;
       LGTD_LIFX_GATEWAY_GET_BULB_OR_RETURN gw (hdr_device_addr hdr)
         (lgtd_lifx_bulb_set_runtime_info (hdr_device_addr hdr) pkt (g_last_pkt_at g)) w
     }"

definition lgtd_lifx_gateway_handle_bulb_label ::
  "gw_ptr \<Rightarrow> lgtd_lifx_packet_header \<Rightarrow> lgtd_lifx_packet_label \<Rightarrow> lgtd_world \<Rightarrow> lgtd_world option" where
  "lgtd_lifx_gateway_handle_bulb_label gw hdr pkt =
     LGTD_LIFX_GATEWAY_GET_BULB_OR_RETURN gw (hdr_device_addr hdr)
       (lgtd_lifx_bulb_set_label (hdr_device_addr hdr) (pl_label pkt))"

definition lgtd_lifx_gateway_handle_ambient_light ::
  "gw_ptr \<Rightarrow> lgtd_lifx_packet_header \<Rightarrow> lgtd_lifx_packet_ambient_light \<Rightarrow> lgtd_world \<Rightarrow> lgtd_world option" where
  "lgtd_lifx_gateway_handle_ambient_light gw hdr pkt =
     LGTD_LIFX_GATEWAY_GET_BULB_OR_RETURN gw (hdr_device_addr hdr)
       (lgtd_lifx_bulb_set_ambient_light (hdr_device_addr hdr) (al_illuminance pkt))"

text \<open>
  \<open>pkt_info->handle(gw, hdr, pkt)\<close>. The handlers of \<open>PAN_GATEWAY\<close> and of the unimplemented packets only log.
  A handler applied to the payload of another packet has no result.
\<close>

definition call_handler ::
  "lgtd_lifx_handler \<Rightarrow> gw_ptr \<Rightarrow> lgtd_lifx_packet_header \<Rightarrow> lgtd_lifx_packet \<Rightarrow> lgtd_world \<Rightarrow> lgtd_world option" where
  "call_handler handle gw hdr payload w =
     (case handle of
        Handle_null \<Rightarrow> Some w
      | Handle_enosys \<Rightarrow> do { pkt_info \<leftarrow> lgtd_lifx_wire_get_packet_info (hdr_packet_type hdr); Some w }
      | Handle_pan_gateway \<Rightarrow> (case payload of Pan_gateway pkt \<Rightarrow> Some w | _ \<Rightarrow> None)
      | Handle_tag_labels \<Rightarrow> (case payload of Tag_labels pkt \<Rightarrow> lgtd_lifx_gateway_handle_tag_labels gw pkt w | _ \<Rightarrow> None)
      | Handle_light_status \<Rightarrow> (case payload of Light_status pkt \<Rightarrow> lgtd_lifx_gateway_handle_light_status gw hdr pkt w | _ \<Rightarrow> None)
      | Handle_power_state \<Rightarrow> (case payload of Power_state pkt \<Rightarrow> lgtd_lifx_gateway_handle_power_state gw hdr pkt w | _ \<Rightarrow> None)
      | Handle_tags \<Rightarrow> (case payload of Tags pkt \<Rightarrow> lgtd_lifx_gateway_handle_tags gw hdr pkt w | _ \<Rightarrow> None)
      | Handle_ip_state \<Rightarrow> (case payload of Ip_state pkt \<Rightarrow> lgtd_lifx_gateway_handle_ip_state gw hdr pkt w | _ \<Rightarrow> None)
      | Handle_ip_firmware_info \<Rightarrow> (case payload of Ip_firmware_info pkt \<Rightarrow> lgtd_lifx_gateway_handle_ip_firmware_info gw hdr pkt w | _ \<Rightarrow> None)
      | Handle_product_info \<Rightarrow> (case payload of Product_info pkt \<Rightarrow> lgtd_lifx_gateway_handle_product_info gw hdr pkt w | _ \<Rightarrow> None)
      | Handle_runtime_info \<Rightarrow> (case payload of Runtime_info pkt \<Rightarrow> lgtd_lifx_gateway_handle_runtime_info gw hdr pkt w | _ \<Rightarrow> None)
      | Handle_bulb_label \<Rightarrow> (case payload of Raw pkt \<Rightarrow> lgtd_lifx_gateway_handle_bulb_label gw hdr (label_of_bytes pkt) w | _ \<Rightarrow> None)
      | Handle_ambient_light \<Rightarrow> (case payload of Ambient_light pkt \<Rightarrow> lgtd_lifx_gateway_handle_ambient_light gw hdr pkt w | _ \<Rightarrow> None))"

definition lgtd_lifx_gateway_handle_packet ::
  "gw_ptr option \<Rightarrow> bytes \<Rightarrow> lgtd_lifx_packet_info \<Rightarrow> lgtd_lifx_packet_header \<Rightarrow> lgtd_lifx_packet
   \<Rightarrow> lgtd_time_mono_t \<Rightarrow> lgtd_world \<Rightarrow> lgtd_world option" where
  "lgtd_lifx_gateway_handle_packet gw peer pkt_info hdr pkt received_at w =
     do {
       c_assert (peer \<noteq> []);
       c_assert (received_at \<noteq> 0);
       (gw, w) \<leftarrow>
         (case gw of
            Some i \<Rightarrow> do {
              g \<leftarrow> find_gw i w;
              c_assert (g_peer g = peer);
              Some (gw, w)
            }
          | None \<Rightarrow>
              (case lgtd_lifx_gateway_get peer w of
                 None \<Rightarrow> (if hdr_packet_type hdr = LGTD_LIFX_PAN_GATEWAY
                          then lgtd_lifx_gateway_open peer (hdr_site hdr) received_at w
                          else Some (None, w))
               | Some i \<Rightarrow> Some (Some i, w)));
       if w_exit w \<noteq> None then Some w
       else (case gw of
               Some i \<Rightarrow> do {
                 g \<leftarrow> find_gw i w;
                 let w = (if pi_handle pkt_info \<noteq> Handle_enosys
                          then upd_gw i (g\<lparr>g_last_pkt_at := received_at\<rparr>) w else w);
                 call_handler (pi_handle pkt_info) i hdr pkt w
               }
             | None \<Rightarrow> Some w)
     }"

subsection \<open>The receive loop\<close>

text \<open>
  The results of the successive calls to \<open>recvfrom\<close>: interrupted, failed, or a datagram of \<open>nbytes\<close> bytes
  from a peer, with the 4096 bytes of the buffer after the call (what follows the datagram is whatever
  was on the stack). After the listed results there is nothing left to read (\<open>EAGAIN\<close>).
\<close>

datatype recv_result =
    Recv_interrupted
  | Recv_error
  | Recv_data bytes nat bytes

fun lgtd_lifx_wire_handle_receive ::
  "gw_ptr option \<Rightarrow> recv_result list \<Rightarrow> lgtd_world \<Rightarrow> (bool \<times> lgtd_world) option" where
  "lgtd_lifx_wire_handle_receive gw [] w = Some (True, w)"
| "lgtd_lifx_wire_handle_receive gw (Recv_interrupted # rs) w = lgtd_lifx_wire_handle_receive gw rs w"
| "lgtd_lifx_wire_handle_receive gw (Recv_error # rs) w = Some (False, w)"
| "lgtd_lifx_wire_handle_receive gw (Recv_data peer nbytes buf # rs) w =
     (let (received_at, w) = lgtd_time_monotonic_msecs w in
      if nbytes < LGTD_LIFX_PACKET_HEADER_SIZE then Some (False, w)
      else
        (let hdr = lgtd_lifx_wire_decode_header (w_be w) (header_of_bytes (w_be w) buf) in
         if unat (hdr_size hdr) \<noteq> nbytes then Some (False, w)
         else if hdr_packet_type hdr = LGTD_LIFX_GET_PAN_GATEWAY then lgtd_lifx_wire_handle_receive gw rs w
         else (case lgtd_lifx_wire_get_packet_info (hdr_packet_type hdr) of
                 None \<Rightarrow> lgtd_lifx_wire_handle_receive gw rs w
               | Some pkt_info \<Rightarrow>
                   if hdr_protocol hdr AND LGTD_LIFX_PROTOCOL_ADDRESSABLE (w_be w) = 0
                   then lgtd_lifx_wire_handle_receive gw rs w
                   else do {
                     let pkt = decode_payload (w_be w) (pi_decode pkt_info) (drop LGTD_LIFX_PACKET_HEADER_SIZE buf);
                     w \<leftarrow> lgtd_lifx_gateway_handle_packet gw peer pkt_info hdr pkt received_at w;
                     if w_exit w \<noteq> None then Some (True, w) else lgtd_lifx_wire_handle_receive gw rs w
                   })))"

text \<open>
  The event callback of a gateway. \<open>recvs\<close> are the results of \<open>recvfrom\<close>; \<open>nbytes\<close>, \<open>again\<close> and \<open>buf_len\<close> those
  of the write event.
\<close>

definition drop_gw_and_restart_discovery :: "gw_ptr \<Rightarrow> lgtd_world \<Rightarrow> lgtd_world option" where
  "drop_gw_and_restart_discovery gw w =
     do {
       w \<leftarrow> lgtd_lifx_gateway_close gw w;
       (ok, w) \<leftarrow> lgtd_lifx_broadcast_discovery w;
       Some (if ok then w else lgtd_err 1 w)
     }"

definition lgtd_lifx_gateway_socket_event_callback ::
  "bool \<Rightarrow> bool \<Rightarrow> bool \<Rightarrow> recv_result list \<Rightarrow> int \<Rightarrow> bool \<Rightarrow> nat \<Rightarrow> gw_ptr \<Rightarrow> lgtd_world \<Rightarrow> lgtd_world option" where
  "lgtd_lifx_gateway_socket_event_callback ev_timeout ev_read ev_write recvs nbytes again buf_len gw w =
     (if ev_timeout then drop_gw_and_restart_discovery gw w
      else do {
        (ok, w) \<leftarrow> (if ev_read then lgtd_lifx_wire_handle_receive (Some gw) recvs w else Some (True, w));
        if w_exit w \<noteq> None then Some w
        else if \<not> ok then drop_gw_and_restart_discovery gw w
        else if ev_write then do {
          g \<leftarrow> find_gw gw w;
          let (now, w') = lgtd_time_monotonic_msecs w;
          (drop_gw, g) \<leftarrow> lgtd_lifx_gateway_write_event nbytes again buf_len now g;
          if drop_gw then drop_gw_and_restart_discovery gw w
          else Some (upd_gw gw g w')
        }
        else Some w
      })"

end
