(* ===== verification/Router.thy ===== *)
theory Router
  imports Gateway
begin

text \<open>
  The router (\<open>src/core/router.c\<close>): from the targets of a command (everything, a tag, a hardware address, a
  label) to the packets enqueued on the gateways, or to the list of devices they stand for. A list of
  targets is a list of strings in the order of the list; a list of devices is a list of bulb addresses.
\<close>

unbundle bit_operations_syntax

subsection \<open>Sending to several devices\<close>

text \<open>One packet on one gateway: the header is set up for the gateway's site and the packet enqueued.\<close>

definition router_enqueue ::
  "gw_ptr \<Rightarrow> lgtd_lifx_target_type \<Rightarrow> lgtd_lifx_target \<Rightarrow> u16 \<Rightarrow> bytes option \<Rightarrow> lgtd_world \<Rightarrow> lgtd_world option" where
  "router_enqueue gw target_type target pkt_type pkt w =
     do {
       g \<leftarrow> find_gw gw w;
       (pkt_info, hdr) \<leftarrow> lgtd_lifx_wire_setup_header (w_be w) (w_client_id w) target_type target
                           (Some (g_site g)) pkt_type;
       g \<leftarrow> lgtd_lifx_gateway_enqueue_packet (w_be w) hdr pkt_info pkt g;
       Some (upd_gw gw g w)
     }"

text \<open>After a power command the bulbs of the gateway that it is for are marked dirty.\<close>

definition mark_bulbs_dirty ::
  "gw_ptr \<Rightarrow> (lgtd_lifx_bulb \<Rightarrow> bool) \<Rightarrow> bytes option \<Rightarrow> lgtd_world \<Rightarrow> lgtd_world option" where
  "mark_bulbs_dirty gw test pkt w =
     do {
       let (now, w) = lgtd_time_monotonic_msecs w;
       g \<leftarrow> find_gw gw w;
       foreach (\<lambda>bulb w. do {
           b \<leftarrow> find_bulb bulb w;
           if test b then do {
             payload \<leftarrow> pkt;
             Some (upd_bulb bulb (mark_dirty (w_be w) now payload b) w)
           }
           else Some w
         }) (g_bulbs g) w
     }"

definition lgtd_router_broadcast :: "u16 \<Rightarrow> bytes option \<Rightarrow> lgtd_world \<Rightarrow> lgtd_world option" where
  "lgtd_router_broadcast pkt_type pkt w =
     foreach (\<lambda>gw w. do {
         w \<leftarrow> router_enqueue gw LGTD_LIFX_TARGET_ALL_DEVICES (Target_tags 0) pkt_type pkt w;
         if pkt_type = LGTD_LIFX_SET_POWER_STATE then mark_bulbs_dirty gw (\<lambda>_. True) pkt w else Some w
       }) (map fst (w_gateways w)) w"

definition lgtd_router_send_to_tag :: "tag_ptr \<Rightarrow> u16 \<Rightarrow> bytes option \<Rightarrow> lgtd_world \<Rightarrow> lgtd_world option" where
  "lgtd_router_send_to_tag tag pkt_type pkt w =
     do {
       t \<leftarrow> map_of (w_tags w) tag;
       foreach (\<lambda>site w. do {
           let tag_value = LGTD_LIFX_WIRE_TAG_ID_TO_VALUE (s_tag_id site);
           g \<leftarrow> find_gw (s_gw site) w;
           c_assert (g_tags g ! s_tag_id site = Some tag);
           w \<leftarrow> router_enqueue (s_gw site) LGTD_LIFX_TARGET_TAGS (Target_tags tag_value) pkt_type pkt w;
           if pkt_type = LGTD_LIFX_SET_POWER_STATE
           then mark_bulbs_dirty (s_gw site) (\<lambda>b. ls_tags (b_state b) AND tag_value \<noteq> 0) pkt w
           else Some w
         }) (t_sites t) w
     }"

text \<open>For each bulb with the label the loop does what \<open>lgtd_router_send_to_device\<close> does.\<close>

definition lgtd_router_send_to_label :: "string \<Rightarrow> u16 \<Rightarrow> bytes option \<Rightarrow> lgtd_world \<Rightarrow> lgtd_world option" where
  "lgtd_router_send_to_label label pkt_type pkt w =
     foreach (\<lambda>bulb w. do {
         b \<leftarrow> find_bulb bulb w;
         if lgtd_lifx_bulb_has_label b label then lgtd_router_send_to_device bulb pkt_type pkt w else Some w
       }) (map fst (w_bulbs w)) w"

subsection \<open>Targets\<close>

text \<open>
  \<open>strtoull\<close> in base 16 on a string that starts with a hexadecimal digit (no space and no sign): an optional
  \<open>0x\<close> and the digits. The result is the value, before it is cut to 64 bits, and what
  follows the number; the call fails with \<open>ERANGE\<close> when the value has more than 64 bits.
\<close>

definition xdigit_value :: "char \<Rightarrow> nat" where
  "xdigit_value c =
     (if ord c \<le> ord (CHR ''9'') then ord c - ord (CHR ''0'')
      else if ord c \<le> ord (CHR ''F'') then ord c - ord (CHR ''A'') + 10
      else ord c - ord (CHR ''a'') + 10)"

definition skip_0x :: "string \<Rightarrow> string" where
  "skip_0x s = (if 2 < length s \<and> s ! 0 = CHR ''0'' \<and> (s ! 1 = CHR ''x'' \<or> s ! 1 = CHR ''X'') \<and> isxdigit (s ! 2)
                then drop 2 s else s)"

definition strtoull_16 :: "string \<Rightarrow> nat \<times> string" where
  "strtoull_16 s =
     (let t = skip_0x s; digits = takeWhile isxdigit t
      in (foldl (\<lambda>n c. 16 * n + xdigit_value c) 0 digits, drop (length digits) t))"

definition htobe64 :: "bool \<Rightarrow> u64 \<Rightarrow> u64" where
  "htobe64 be x = (if be then x else bswap 8 x)"

text \<open>The last six bytes in memory of the big endian number are the address.\<close>

definition lgtd_router_device_addr_to_device :: "string \<Rightarrow> lgtd_world \<Rightarrow> bulb_addr option" where
  "lgtd_router_device_addr_to_device device_addr w =
     (let (device, endptr) = strtoull_16 (cstr device_addr) in
      if endptr = [] \<and> device < 2 ^ 64
      then (let addr = drop (8 - LGTD_LIFX_ADDR_LENGTH) (mem_of (w_be w) 8 (htobe64 (w_be w) (of_nat device)))
            in map_option (\<lambda>_. addr) (lgtd_lifx_bulb_get addr w))
      else None)"

definition lgtd_router_send_one :: "string \<Rightarrow> u16 \<Rightarrow> bytes option \<Rightarrow> lgtd_world \<Rightarrow> (bool \<times> lgtd_world) option" where
  "lgtd_router_send_one target pkt_type pkt w =
     (let target = cstr target in
      if target = ''*'' then do { w \<leftarrow> lgtd_router_broadcast pkt_type pkt w; Some (True, w) }
      else if target = '''' then Some (False, w)
      else if hd target = CHR ''#'' then
        (case lgtd_lifx_tagging_find_tag (tl target) w of
           Some tag \<Rightarrow> do { w \<leftarrow> lgtd_router_send_to_tag tag pkt_type pkt w; Some (True, w) }
         | None \<Rightarrow> Some (False, w))
      else
        (case (if isxdigit (hd target) then lgtd_router_device_addr_to_device target w else None) of
           Some bulb \<Rightarrow> do { w \<leftarrow> lgtd_router_send_to_device bulb pkt_type pkt w; Some (True, w) }
         | None \<Rightarrow> do { w \<leftarrow> lgtd_router_send_to_label target pkt_type pkt w; Some (True, w) }))"

definition lgtd_router_send :: "string list \<Rightarrow> u16 \<Rightarrow> bytes option \<Rightarrow> lgtd_world \<Rightarrow> (bool \<times> lgtd_world) option" where
  "lgtd_router_send targets pkt_type pkt w =
     foreach (\<lambda>target (rv, w). do {
         (ok, w) \<leftarrow> lgtd_router_send_one target pkt_type pkt w;
         Some (rv \<and> ok, w)
       }) targets (True, w)"

subsection \<open>Lists of devices\<close>

text \<open>
  The result of an allocation that fails is \<open>None\<close>: the loop stops and the list is freed.
\<close>

definition lgtd_router_insert_device_if_not_in_list ::
  "bulb_addr list \<Rightarrow> bulb_addr \<Rightarrow> lgtd_world \<Rightarrow> bulb_addr list option \<times> lgtd_world" where
  "lgtd_router_insert_device_if_not_in_list devices device w =
     (if device \<in> set devices then (Some devices, w)
      else (let (ok, w) = ext_call w in (if ok then Some (device # devices) else None, w)))"

text \<open>The loop over all the bulbs, and a loop that inserts the bulbs which pass a test.\<close>

fun insert_all_devices :: "bulb_addr list \<Rightarrow> bulb_addr list \<Rightarrow> lgtd_world \<Rightarrow> bulb_addr list option \<times> lgtd_world" where
  "insert_all_devices [] devices w = (Some devices, w)"
| "insert_all_devices (bulb # bulbs) devices w =
     (let (ok, w) = ext_call w in if ok then insert_all_devices bulbs (bulb # devices) w else (None, w))"

fun insert_devices_if ::
  "(lgtd_lifx_bulb \<Rightarrow> bool) \<Rightarrow> bulb_addr list \<Rightarrow> bulb_addr list \<Rightarrow> lgtd_world
   \<Rightarrow> (bulb_addr list option \<times> lgtd_world) option" where
  "insert_devices_if test [] devices w = Some (Some devices, w)"
| "insert_devices_if test (bulb # bulbs) devices w =
     do {
       b \<leftarrow> find_bulb bulb w;
       if test b
       then (case lgtd_router_insert_device_if_not_in_list devices bulb w of
               (None, w) \<Rightarrow> Some (None, w)
             | (Some devices, w) \<Rightarrow> insert_devices_if test bulbs devices w)
       else insert_devices_if test bulbs devices w
     }"

fun insert_tagged_devices ::
  "lgtd_lifx_site list \<Rightarrow> bulb_addr list \<Rightarrow> lgtd_world \<Rightarrow> (bulb_addr list option \<times> lgtd_world) option" where
  "insert_tagged_devices [] devices w = Some (Some devices, w)"
| "insert_tagged_devices (site # sites) devices w =
     do {
       g \<leftarrow> find_gw (s_gw site) w;
       let tag_value = LGTD_LIFX_WIRE_TAG_ID_TO_VALUE (s_tag_id site);
       (res, w) \<leftarrow> insert_devices_if (\<lambda>b. ls_tags (b_state b) AND tag_value \<noteq> 0) (g_bulbs g) devices w;
       case res of
         None \<Rightarrow> Some (None, w)
       | Some devices \<Rightarrow> insert_tagged_devices sites devices w
     }"

text \<open>One round of the loop over the targets other than \<open>*\<close>, which ends the loop.\<close>

definition insert_target ::
  "string \<Rightarrow> bulb_addr list \<Rightarrow> lgtd_world \<Rightarrow> (bulb_addr list option \<times> lgtd_world) option" where
  "insert_target target devices w =
     (let target = cstr target in
      if target = '''' then Some (Some devices, w)
      else if hd target = CHR ''#'' then
        (case lgtd_lifx_tagging_find_tag (tl target) w of
           Some tag \<Rightarrow> do { t \<leftarrow> map_of (w_tags w) tag; insert_tagged_devices (t_sites t) devices w }
         | None \<Rightarrow> Some (Some devices, w))
      else
        (case (if isxdigit (hd target) then lgtd_router_device_addr_to_device target w else None) of
           Some bulb \<Rightarrow> Some (lgtd_router_insert_device_if_not_in_list devices bulb w)
         | None \<Rightarrow> insert_devices_if (\<lambda>b. lgtd_lifx_bulb_has_label b target) (map fst (w_bulbs w)) devices w))"

fun collect_devices ::
  "string list \<Rightarrow> bulb_addr list \<Rightarrow> lgtd_world \<Rightarrow> (bulb_addr list option \<times> lgtd_world) option" where
  "collect_devices [] devices w = Some (Some devices, w)"
| "collect_devices (target # targets) devices w =
     (if cstr target = ''*'' then Some (insert_all_devices (map fst (w_bulbs w)) [] w)
      else do {
        (res, w) \<leftarrow> insert_target target devices w;
        case res of
          None \<Rightarrow> Some (None, w)
        | Some devices \<Rightarrow> collect_devices targets devices w
      })"

definition lgtd_router_targets_to_devices ::
  "string list \<Rightarrow> lgtd_world \<Rightarrow> (bulb_addr list option \<times> lgtd_world) option" where
  "lgtd_router_targets_to_devices targets w =
     (let (ok, w) = ext_call w in if ok then collect_devices targets [] w else Some (None, w))"

end
