(* ===== verification/Jsmn.thy ===== *)
theory Jsmn
  imports Lightsd_Prelude
begin

text \<open>
  The JSON tokenizer (\<open>src/core/jsmn.c\<close>), built with \<open>JSMN_STRICT\<close> and \<open>JSMN_PARENT_LINKS\<close>
  (\<open>CMakeLists.txt\<close>). The text is a list of characters (of length \<open>len\<close>); the array of tokens is a list of
  \<open>num_tokens\<close> tokens, \<open>None\<close> for the null pointer, in which case tokens are only counted. A computation
  has no result (\<open>None\<close>) when it reads or writes outside the array or follows the parents of a
  token forever; \<open>jsmn_parse_total\<close> shows that neither happens.
\<close>

subsection \<open>Tokens and the parser\<close>

datatype jsmntype_t = JSMN_UNDEFINED | JSMN_OBJECT | JSMN_ARRAY | JSMN_STRING | JSMN_PRIMITIVE

abbreviation (input) JSMN_ERROR_NOMEM :: int where "JSMN_ERROR_NOMEM \<equiv> -1"
abbreviation (input) JSMN_ERROR_INVAL :: int where "JSMN_ERROR_INVAL \<equiv> -2"
abbreviation (input) JSMN_ERROR_PART :: int where "JSMN_ERROR_PART \<equiv> -3"

record jsmntok_t =
  tk_type :: jsmntype_t
  tk_start :: int
  tk_end :: int
  tk_size :: int
  tk_parent :: int

record jsmn_parser =
  jp_pos :: nat
  jp_toknext :: nat
  jp_toksuper :: int

type_synonym jsmn_tokens = "jsmntok_t list option"

definition jsmn_init :: jsmn_parser where
  "jsmn_init = \<lparr>jp_pos = 0, jp_toknext = 0, jp_toksuper = -1\<rparr>"

text \<open>The new token keeps the type it has in memory until it is set.\<close>

definition jsmn_alloc_token :: "jsmn_parser \<Rightarrow> jsmntok_t list \<Rightarrow> (jsmn_parser \<times> jsmntok_t list) option" where
  "jsmn_alloc_token parser tokens =
     (if length tokens \<le> jp_toknext parser then None
      else Some (parser\<lparr>jp_toknext := Suc (jp_toknext parser)\<rparr>,
             tokens[jp_toknext parser :=
               (tokens ! jp_toknext parser)\<lparr>tk_start := -1, tk_end := -1, tk_size := 0, tk_parent := -1\<rparr>]))"

definition jsmn_fill_token :: "jsmntype_t \<Rightarrow> int \<Rightarrow> int \<Rightarrow> jsmntok_t \<Rightarrow> jsmntok_t" where
  "jsmn_fill_token type start stop token = token\<lparr>tk_type := type, tk_start := start, tk_end := stop, tk_size := 0\<rparr>"

subsection \<open>Primitives and strings\<close>

text \<open>
  Where the scan of a primitive or of a string stops: at the position of the character that ends
  it, on a character that is not allowed, or at the end of the text.
\<close>

datatype jsmn_scan = Scan_found nat | Scan_invalid | Scan_end

fun scan_primitive :: "string \<Rightarrow> nat \<Rightarrow> jsmn_scan" where
  "scan_primitive [] pos = Scan_end"
| "scan_primitive (c # cs) pos =
     (if c = CHR 0x00 then Scan_end
      else if c \<in> {CHR 0x09, CHR 0x0D, CHR 0x0A, CHR '' '', CHR '','', CHR '']'', CHR ''}''} then Scan_found pos
      else if ord c < 32 \<or> 127 \<le> ord c then Scan_invalid
      else scan_primitive cs (Suc pos))"

text \<open>Up to four hexadecimal digits after \<open>\u\<close>; \<open>None\<close> for another character.\<close>

fun skip_hex_digits :: "nat \<Rightarrow> string \<Rightarrow> nat \<Rightarrow> (string \<times> nat) option" where
  "skip_hex_digits 0 cs pos = Some (cs, pos)"
| "skip_hex_digits (Suc i) [] pos = Some ([], pos)"
| "skip_hex_digits (Suc i) (c # cs) pos =
     (if c = CHR 0x00 then Some (c # cs, pos)
      else if isxdigit c then skip_hex_digits i cs (Suc pos)
      else None)"

lemma skip_hex_digits_length: "skip_hex_digits i cs pos = Some (cs', pos') \<Longrightarrow> length cs' \<le> length cs"
  by (induction i cs pos rule: skip_hex_digits.induct) (auto split: if_splits)

function scan_string :: "string \<Rightarrow> nat \<Rightarrow> jsmn_scan" where
  "scan_string cs pos =
     (case cs of
        [] \<Rightarrow> Scan_end
      | c # cs \<Rightarrow>
          if c = CHR 0x00 then Scan_end
          else if c = CHR 0x22 then Scan_found pos
          else if c = CHR 0x5C \<and> cs \<noteq> [] then
            (if hd cs \<in> {CHR 0x22, CHR ''/'', CHR 0x5C, CHR ''b'', CHR ''f'', CHR ''r'', CHR ''n'', CHR ''t''}
             then scan_string (tl cs) (pos + 2)
             else if hd cs = CHR ''u''
             then (case skip_hex_digits 4 (tl cs) (pos + 2) of
                     Some (cs', pos') \<Rightarrow> scan_string cs' pos'
                   | None \<Rightarrow> Scan_invalid)
             else Scan_invalid)
          else scan_string cs (Suc pos))"
  by pat_completeness auto
termination
  by (relation "measure (length \<circ> fst)") (auto dest!: skip_hex_digits_length)

declare scan_string.simps [simp del]

text \<open>The token at the end of both, and the text position left for the main loop.\<close>

definition new_token ::
  "jsmntype_t \<Rightarrow> nat \<Rightarrow> nat \<Rightarrow> jsmn_parser \<Rightarrow> jsmn_tokens \<Rightarrow> nat \<Rightarrow> int \<times> jsmn_parser \<times> jsmn_tokens" where
  "new_token type start stop parser tokens pos =
     (case tokens of
        None \<Rightarrow> (0, parser\<lparr>jp_pos := pos\<rparr>, None)
      | Some toks \<Rightarrow>
          (case jsmn_alloc_token parser toks of
             None \<Rightarrow> (JSMN_ERROR_NOMEM, parser, tokens)
           | Some (parser', toks) \<Rightarrow>
               (0, parser'\<lparr>jp_pos := pos\<rparr>,
                Some (toks[jp_toknext parser :=
                  (jsmn_fill_token type (int start) (int stop) (toks ! jp_toknext parser))
                    \<lparr>tk_parent := jp_toksuper parser\<rparr>]))))"

definition jsmn_parse_primitive :: "string \<Rightarrow> jsmn_parser \<Rightarrow> jsmn_tokens \<Rightarrow> int \<times> jsmn_parser \<times> jsmn_tokens" where
  "jsmn_parse_primitive js parser tokens =
     (case scan_primitive (drop (jp_pos parser) js) (jp_pos parser) of
        Scan_end \<Rightarrow> (JSMN_ERROR_PART, parser, tokens)
      | Scan_invalid \<Rightarrow> (JSMN_ERROR_INVAL, parser, tokens)
      | Scan_found pos \<Rightarrow> new_token JSMN_PRIMITIVE (jp_pos parser) pos parser tokens (pos - 1))"

definition jsmn_parse_string :: "string \<Rightarrow> jsmn_parser \<Rightarrow> jsmn_tokens \<Rightarrow> int \<times> jsmn_parser \<times> jsmn_tokens" where
  "jsmn_parse_string js parser tokens =
     (case scan_string (drop (Suc (jp_pos parser)) js) (Suc (jp_pos parser)) of
        Scan_end \<Rightarrow> (JSMN_ERROR_PART, parser, tokens)
      | Scan_invalid \<Rightarrow> (JSMN_ERROR_INVAL, parser, tokens)
      | Scan_found pos \<Rightarrow> new_token JSMN_STRING (Suc (jp_pos parser)) pos parser tokens pos)"

subsection \<open>The parser\<close>

text \<open>
  One round of the loop of \<open>jsmn_parse\<close>, for the character \<open>c\<close> at the position of the parser: an error code or
  the parser, the tokens and the count after it.
\<close>

type_synonym jsmn_state = "jsmn_parser \<times> jsmn_tokens \<times> int"

definition token_at :: "jsmntok_t list \<Rightarrow> int \<Rightarrow> jsmntok_t option" where
  "token_at tokens i = (if 0 \<le> i \<and> i < int (length tokens) then Some (tokens ! nat i) else None)"

text \<open>\<open>tokens[parser->toksuper].size++\<close>\<close>

definition grow_super :: "int \<Rightarrow> jsmn_tokens \<Rightarrow> jsmn_tokens option" where
  "grow_super super tokens =
     (case tokens of
        None \<Rightarrow> Some None
      | Some toks \<Rightarrow>
          if super = -1 then Some tokens
          else do { t \<leftarrow> token_at toks super; Some (Some (toks[nat super := t\<lparr>tk_size := tk_size t + 1\<rparr>])) })"

definition jsmn_open :: "jsmntype_t \<Rightarrow> jsmn_state \<Rightarrow> (int + jsmn_state) option" where
  "jsmn_open type s =
     (case s of (parser, tokens, count) \<Rightarrow>
      (case tokens of
         None \<Rightarrow> Some (Inr (parser, tokens, count + 1))
       | Some toks \<Rightarrow>
           (case jsmn_alloc_token parser toks of
              None \<Rightarrow> Some (Inl JSMN_ERROR_NOMEM)
            | Some (parser', toks) \<Rightarrow> do {
                tokens \<leftarrow> grow_super (jp_toksuper parser) (Some toks);
                toks \<leftarrow> tokens;
                let toks = (if jp_toksuper parser \<noteq> -1
                            then toks[jp_toknext parser := (toks ! jp_toknext parser)\<lparr>tk_parent := jp_toksuper parser\<rparr>]
                            else toks);
                let toks = toks[jp_toknext parser :=
                  (toks ! jp_toknext parser)\<lparr>tk_type := type, tk_start := int (jp_pos parser)\<rparr>];
                Some (Inr (parser'\<lparr>jp_toksuper := int (jp_toknext parser)\<rparr>, Some toks, count + 1))
              })))"

text \<open>The loop that looks for the open container, from a token to its parent.\<close>

fun jsmn_close_from ::
  "nat \<Rightarrow> jsmntype_t \<Rightarrow> jsmn_parser \<Rightarrow> int \<Rightarrow> jsmntok_t list \<Rightarrow> (int + int \<times> jsmntok_t list) option" where
  "jsmn_close_from 0 type parser i toks = None"
| "jsmn_close_from (Suc fuel) type parser i toks =
     do {
       token \<leftarrow> token_at toks i;
       if tk_start token \<noteq> -1 \<and> tk_end token = -1
       then (if tk_type token \<noteq> type then Some (Inl JSMN_ERROR_INVAL)
             else Some (Inr (tk_parent token, toks[nat i := token\<lparr>tk_end := int (jp_pos parser) + 1\<rparr>])))
       else if tk_parent token = -1
       then (if tk_type token \<noteq> type \<or> jp_toksuper parser = -1 then Some (Inl JSMN_ERROR_INVAL)
             else Some (Inr (jp_toksuper parser, toks)))
       else jsmn_close_from fuel type parser (tk_parent token) toks
     }"

definition jsmn_close :: "jsmntype_t \<Rightarrow> jsmn_state \<Rightarrow> (int + jsmn_state) option" where
  "jsmn_close type s =
     (case s of (parser, tokens, count) \<Rightarrow>
      (case tokens of
         None \<Rightarrow> Some (Inr s)
       | Some toks \<Rightarrow>
           if jp_toknext parser < 1 then Some (Inl JSMN_ERROR_INVAL)
           else do {
             r \<leftarrow> jsmn_close_from (jp_toknext parser) type parser (int (jp_toknext parser) - 1) toks;
             Some (case r of
                     Inl e \<Rightarrow> Inl e
                   | Inr (super, toks) \<Rightarrow> Inr (parser\<lparr>jp_toksuper := super\<rparr>, Some toks, count))
           }))"

text \<open>After a string or a primitive: the error, or one more token below the current container.\<close>

definition after_value :: "jsmn_parser \<Rightarrow> int \<Rightarrow> int \<times> jsmn_parser \<times> jsmn_tokens \<Rightarrow> (int + jsmn_state) option" where
  "after_value parser count res =
     (case res of (r, parser', tokens) \<Rightarrow>
        if r < 0 then Some (Inl r)
        else do {
          tokens \<leftarrow> grow_super (jp_toksuper parser) tokens;
          Some (Inr (parser', tokens, count + 1))
        })"

definition jsmn_comma :: "jsmn_state \<Rightarrow> (int + jsmn_state) option" where
  "jsmn_comma s =
     (case s of (parser, tokens, count) \<Rightarrow>
      (case tokens of
         None \<Rightarrow> Some (Inr s)
       | Some toks \<Rightarrow>
           if jp_toksuper parser = -1 then Some (Inr s)
           else do {
             t \<leftarrow> token_at toks (jp_toksuper parser);
             if tk_type t \<noteq> JSMN_ARRAY \<and> tk_type t \<noteq> JSMN_OBJECT
             then Some (Inr (parser\<lparr>jp_toksuper := tk_parent t\<rparr>, tokens, count))
             else Some (Inr s)
           }))"

text \<open>In strict mode a primitive is a number, a boolean or null, and not a key.\<close>

definition jsmn_primitive :: "string \<Rightarrow> jsmn_state \<Rightarrow> (int + jsmn_state) option" where
  "jsmn_primitive js s =
     (case s of (parser, tokens, count) \<Rightarrow>
      do {
        is_key \<leftarrow> (case tokens of
                    None \<Rightarrow> Some False
                  | Some toks \<Rightarrow>
                      if jp_toksuper parser = -1 then Some False
                      else do {
                        t \<leftarrow> token_at toks (jp_toksuper parser);
                        Some (tk_type t = JSMN_OBJECT \<or> tk_type t = JSMN_STRING \<and> tk_size t \<noteq> 0)
                      });
        if is_key then Some (Inl JSMN_ERROR_INVAL)
        else after_value parser count (jsmn_parse_primitive js parser tokens)
      })"

definition jsmn_parse_char :: "string \<Rightarrow> char \<Rightarrow> jsmn_state \<Rightarrow> (int + jsmn_state) option" where
  "jsmn_parse_char js c s =
     (case s of (parser, tokens, count) \<Rightarrow>
        if c = CHR ''{'' then jsmn_open JSMN_OBJECT s
        else if c = CHR ''['' then jsmn_open JSMN_ARRAY s
        else if c = CHR ''}'' then jsmn_close JSMN_OBJECT s
        else if c = CHR '']'' then jsmn_close JSMN_ARRAY s
        else if c = CHR 0x22 then after_value parser count (jsmn_parse_string js parser tokens)
        else if c \<in> {CHR 0x09, CHR 0x0D, CHR 0x0A, CHR '' ''} then Some (Inr s)
        else if c = CHR '':'' then Some (Inr (parser\<lparr>jp_toksuper := int (jp_toknext parser) - 1\<rparr>, tokens, count))
        else if c = CHR '','' then jsmn_comma s
        else if c = CHR ''-'' \<or> isdigit c \<or> c \<in> {CHR ''t'', CHR ''f'', CHR ''n''} then jsmn_primitive js s
        else Some (Inl JSMN_ERROR_INVAL))"

text \<open>Every round leaves the parser where it was or further.\<close>

lemma scan_primitive_pos: "scan_primitive cs pos = Scan_found pos' \<Longrightarrow> pos \<le> pos' \<and> pos' < pos + length cs"
  by (induction cs pos rule: scan_primitive.induct) (auto split: if_splits)

lemma skip_hex_digits_pos:
  "skip_hex_digits i cs pos = Some (cs', pos') \<Longrightarrow> pos \<le> pos' \<and> pos' + length cs' = pos + length cs"
  by (induction i cs pos rule: skip_hex_digits.induct) (auto split: if_splits)

lemma scan_string_pos: "scan_string cs pos = Scan_found pos' \<Longrightarrow> pos \<le> pos' \<and> pos' < pos + length cs"
proof (induction cs pos rule: scan_string.induct)
  case (1 cs pos)
  note IH = "1.IH" and prem = "1.prems"
  show ?case
  proof (cases cs)
    case Nil
    with prem show ?thesis by (simp add: scan_string.simps)
  next
    case (Cons c ds)
    note eq = prem [unfolded Cons scan_string.simps [of "c # ds"], simplified]
    consider "c = CHR 0x22" "pos' = pos" | d es where "c = CHR 0x5C" "ds = d # es" | "c \<noteq> CHR 0x22" "c \<noteq> CHR 0x5C \<or> ds = []"
      using eq by (cases ds) (auto split: if_splits)
    then show ?thesis
    proof cases
      case 1
      then show ?thesis using Cons by simp
    next
      case (2 d es)
      consider "scan_string es (pos + 2) = Scan_found pos'"
          "d \<in> {CHR 0x22, CHR ''/'', CHR 0x5C, CHR ''b'', CHR ''f'', CHR ''r'', CHR ''n'', CHR ''t''}"
        | fs p where "d = CHR ''u''" "skip_hex_digits 4 es (pos + 2) = Some (fs, p)" "scan_string fs p = Scan_found pos'"
        using eq unfolding 2 by (simp split: if_splits option.splits prod.splits)
      then show ?thesis
      proof cases
        case 1
        with IH(1) [OF Cons] 2 Cons show ?thesis by force
      next
        case (2 fs p)
        with IH(2) [OF Cons] \<open>c = CHR 0x5C\<close> \<open>ds = d # es\<close> Cons skip_hex_digits_pos [OF 2(2)]
        show ?thesis by force
      qed
    next
      case 3
      with eq IH(3) [OF Cons] Cons show ?thesis by (force split: if_splits)
    qed
  qed
qed

lemma new_token_pos: "new_token type start stop parser tokens pos = (r, parser', tokens') \<Longrightarrow> 0 \<le> r \<Longrightarrow> jp_pos parser' = pos"
  by (auto simp: new_token_def split: option.splits prod.splits)

lemma parse_string_pos:
  "jsmn_parse_string js parser tokens = (r, parser', tokens') \<Longrightarrow> 0 \<le> r \<Longrightarrow> jp_pos parser \<le> jp_pos parser'"
  by (auto simp: jsmn_parse_string_def split: jsmn_scan.splits dest!: scan_string_pos new_token_pos)

lemma scan_primitive_first:
  assumes "scan_primitive (c # cs) pos = Scan_found pos'" "c = CHR ''-'' \<or> isdigit c \<or> c \<in> {CHR ''t'', CHR ''f'', CHR ''n''}"
  shows "pos < pos'"
proof -
  have "c \<notin> {CHR 0x09, CHR 0x0D, CHR 0x0A, CHR '' '', CHR '','', CHR '']'', CHR ''}''}"
    using assms(2) by (auto simp: isdigit_def)
  with assms(1) show ?thesis by (auto split: if_splits dest: scan_primitive_pos)
qed

lemma parse_primitive_pos:
  assumes "jsmn_parse_primitive js parser tokens = (r, parser', tokens')" "0 \<le> r" "jp_pos parser < length js"
    and "js ! jp_pos parser = CHR ''-'' \<or> isdigit (js ! jp_pos parser) \<or> js ! jp_pos parser \<in> {CHR ''t'', CHR ''f'', CHR ''n''}"
  shows "jp_pos parser \<le> jp_pos parser'"
proof -
  let ?pos = "jp_pos parser"
  have "drop ?pos js = js ! ?pos # drop (Suc ?pos) js" using assms(3) by (simp add: Cons_nth_drop_Suc)
  then show ?thesis
    using assms(1,2) scan_primitive_first [OF _ assms(4), of "drop (Suc ?pos) js" ?pos]
    by (fastforce simp: jsmn_parse_primitive_def split: jsmn_scan.splits dest!: new_token_pos)
qed

lemma alloc_token_pos: "jsmn_alloc_token parser toks = Some (parser', toks') \<Longrightarrow> jp_pos parser' = jp_pos parser"
  by (auto simp: jsmn_alloc_token_def split: if_splits)

lemma jsmn_close_Inr:
  assumes "jsmn_close type (parser, tokens, count) = Some (Inr (parser', tokens', count'))"
  shows "(tokens = None \<and> parser' = parser \<and> tokens' = None \<or>
     (\<exists>toks super toks'. tokens = Some toks \<and> 0 < jp_toknext parser
       \<and> jsmn_close_from (jp_toknext parser) type parser (int (jp_toknext parser) - 1) toks = Some (Inr (super, toks'))
       \<and> parser' = parser\<lparr>jp_toksuper := super\<rparr> \<and> tokens' = Some toks')) \<and> count' = count"
proof (cases tokens)
  case (Some toks)
  with assms obtain r where
    r: "jsmn_close_from (jp_toknext parser) type parser (int (jp_toknext parser) - 1) toks = Some r"
    by (auto simp: jsmn_close_def bind_eq_Some_conv split: if_splits)
  with assms Some show ?thesis by (cases r) (auto simp: jsmn_close_def split: if_splits)
qed (use assms in \<open>auto simp: jsmn_close_def\<close>)

lemma jsmn_parse_char_pos:
  assumes "jsmn_parse_char js (js ! jp_pos parser) (parser, tokens, count) = Some (Inr (parser', tokens', count'))"
    and "jp_pos parser < length js"
  shows "jp_pos parser \<le> jp_pos parser'"
  using assms
  by (auto simp: jsmn_parse_char_def jsmn_open_def jsmn_comma_def jsmn_primitive_def after_value_def
        Let_def bind_eq_Some_conv split: if_split_asm option.split_asm prod.split_asm sum.split_asm
        dest!: jsmn_close_Inr alloc_token_pos parse_string_pos parse_primitive_pos)

text \<open>
  The loop ends with an error and the tokens written so far, or with the state at the end of the text. A round that fails writes
  no token: \<open>jsmn_alloc_token\<close>, the scans and the search for an open container fail before they write.
\<close>

function jsmn_parse_loop :: "string \<Rightarrow> jsmn_parser \<Rightarrow> jsmn_tokens \<Rightarrow> int \<Rightarrow> (int \<times> jsmn_tokens + jsmn_state) option" where
  "jsmn_parse_loop js parser tokens count =
     (if jp_pos parser < length js \<and> js ! jp_pos parser \<noteq> CHR 0x00
      then do {
        r \<leftarrow> jsmn_parse_char js (js ! jp_pos parser) (parser, tokens, count);
        case r of
          Inl e \<Rightarrow> Some (Inl (e, tokens))
        | Inr (parser, tokens, count) \<Rightarrow> jsmn_parse_loop js (parser\<lparr>jp_pos := Suc (jp_pos parser)\<rparr>) tokens count
      }
      else Some (Inr (parser, tokens, count)))"
  by pat_completeness auto
termination
  by (relation "measure (\<lambda>(js, parser, _). length js - jp_pos parser)") (auto dest!: jsmn_parse_char_pos)

declare jsmn_parse_loop.simps [simp del]

text \<open>The result code with the array of tokens.\<close>

definition jsmn_parse :: "string \<Rightarrow> jsmn_parser \<Rightarrow> jsmn_tokens \<Rightarrow> (int \<times> jsmn_tokens) option" where
  "jsmn_parse js parser tokens =
     do {
       r \<leftarrow> jsmn_parse_loop js parser tokens (int (jp_toknext parser));
       Some (case r of
               Inl (e, tokens) \<Rightarrow> (e, tokens)
             | Inr (parser, None, count) \<Rightarrow> (count, None)
             | Inr (parser, Some toks, count) \<Rightarrow>
                 if list_ex (\<lambda>t. tk_start t \<noteq> -1 \<and> tk_end t = -1) (take (jp_toknext parser) toks)
                 then (JSMN_ERROR_PART, Some toks) else (count, Some toks))
     }"

subsection \<open>The array of tokens stays well-formed\<close>

text \<open>
  A token lies in the part of the text read so far (the first \<open>n\<close> characters), a string with its quotes, and its
  parent comes before it in the array.
\<close>

definition token_ok :: "nat \<Rightarrow> nat \<Rightarrow> jsmntok_t \<Rightarrow> bool" where
  "token_ok n i t \<longleftrightarrow> -1 \<le> tk_parent t \<and> tk_parent t < int i \<and> 0 \<le> tk_start t \<and> tk_start t < int n \<and> 0 \<le> tk_size t
     \<and> (tk_end t = -1 \<or> tk_start t \<le> tk_end t \<and> 0 < tk_end t \<and> tk_end t \<le> int n)
     \<and> (tk_type t = JSMN_STRING \<longrightarrow> 1 \<le> tk_start t \<and> tk_end t < int n)"

definition jsmn_inv :: "nat \<Rightarrow> jsmn_parser \<Rightarrow> jsmntok_t list \<Rightarrow> bool" where
  "jsmn_inv n parser toks \<longleftrightarrow> jp_toknext parser \<le> length toks
     \<and> -1 \<le> jp_toksuper parser \<and> jp_toksuper parser < int (jp_toknext parser)
     \<and> (\<forall>i<jp_toknext parser. token_ok n i (toks ! i))"

lemma token_ok_mono: "token_ok n i t \<Longrightarrow> n \<le> m \<Longrightarrow> token_ok m i t"
  by (auto simp: token_ok_def)

lemma jsmn_inv_mono: "jsmn_inv n parser toks \<Longrightarrow> n \<le> m \<Longrightarrow> jsmn_inv m parser toks"
  by (auto simp: jsmn_inv_def intro: token_ok_mono)

lemma jsmn_inv_pos [simp]: "jsmn_inv n (parser\<lparr>jp_pos := p\<rparr>) toks = jsmn_inv n parser toks"
  by (simp add: jsmn_inv_def)

lemma jsmn_inv_super:
  "jsmn_inv n parser toks \<Longrightarrow> -1 \<le> super \<Longrightarrow> super < int (jp_toknext parser) \<Longrightarrow> jsmn_inv n (parser\<lparr>jp_toksuper := super\<rparr>) toks"
  by (simp add: jsmn_inv_def)

text \<open>What the operations promise: a result that is one of the three errors, or a state that is in order again.\<close>

definition jsmn_error :: "int \<Rightarrow> bool" where
  [simp]: "jsmn_error e \<longleftrightarrow> e \<in> {JSMN_ERROR_NOMEM, JSMN_ERROR_INVAL, JSMN_ERROR_PART}"

definition jsmn_good :: "nat \<Rightarrow> nat \<Rightarrow> (int + jsmn_state) option \<Rightarrow> bool" where
  "jsmn_good n len r \<longleftrightarrow>
     (\<exists>e. r = Some (Inl e) \<and> jsmn_error e)
     \<or> (\<exists>parser toks. r = Some (Inr (parser, Some toks, int (jp_toknext parser))) \<and> length toks = len
          \<and> jp_pos parser < n \<and> jsmn_inv (Suc (jp_pos parser)) parser toks)"

lemma grow_super_inv:
  assumes "jsmn_inv n parser toks" "-1 \<le> super" "super < int (jp_toknext parser)"
  shows "\<exists>toks'. grow_super super (Some toks) = Some (Some toks') \<and> jsmn_inv n parser toks' \<and> length toks' = length toks"
proof (cases "super = -1")
  case False
  then have "0 \<le> super" "nat super < jp_toknext parser" "super < int (length toks)"
    using assms by (auto simp: jsmn_inv_def)
  with False assms show ?thesis
    by (auto simp: grow_super_def token_at_def jsmn_inv_def nth_list_update token_ok_def)
qed (use assms in \<open>simp add: grow_super_def\<close>)

lemma new_token_inv:
  assumes "jsmn_inv n parser toks" "n \<le> m" "start \<le> stop" "stop \<le> m" "start < m" "0 < stop"
    and "type = JSMN_STRING \<Longrightarrow> 1 \<le> start \<and> stop < m"
    and "new_token type start stop parser (Some toks) pos = (r, parser', tokens')"
  shows "r = JSMN_ERROR_NOMEM \<and> length toks \<le> jp_toknext parser
    \<or> (\<exists>toks'. r = 0 \<and> tokens' = Some toks' \<and> jp_toknext parser' = Suc (jp_toknext parser) \<and> jp_pos parser' = pos
         \<and> jp_toksuper parser' = jp_toksuper parser \<and> length toks' = length toks \<and> jsmn_inv m parser' toks')"
proof (cases "length toks \<le> jp_toknext parser")
  case False
  moreover have "token_ok m i (toks ! i)" if "i < jp_toknext parser" for i
    using assms(1,2) that by (auto simp: jsmn_inv_def intro: token_ok_mono)
  ultimately show ?thesis
    using assms by (auto simp: new_token_def jsmn_alloc_token_def jsmn_inv_def jsmn_fill_token_def nth_list_update
        less_Suc_eq) (auto simp: token_ok_def)
qed (use assms(8) in \<open>simp add: new_token_def jsmn_alloc_token_def\<close>)

lemma after_value_good:
  assumes "jsmn_inv n parser toks" "n \<le> Suc pos" "start \<le> stop" "stop \<le> Suc pos" "start < Suc pos" "0 < stop"
    and "type = JSMN_STRING \<Longrightarrow> 1 \<le> start \<and> stop < Suc pos" and "pos < len"
  shows "jsmn_good len (length toks)
     (after_value parser (int (jp_toknext parser)) (new_token type start stop parser (Some toks) pos))"
proof -
  obtain r parser' tokens' where nt: "new_token type start stop parser (Some toks) pos = (r, parser', tokens')"
    by (metis prod_cases3)
  from new_token_inv [OF assms(1-7) nt] show ?thesis
  proof
    assume "r = JSMN_ERROR_NOMEM \<and> length toks \<le> jp_toknext parser"
    then show ?thesis by (simp add: nt after_value_def jsmn_good_def)
  next
    assume "\<exists>toks'. r = 0 \<and> tokens' = Some toks' \<and> jp_toknext parser' = Suc (jp_toknext parser) \<and> jp_pos parser' = pos
         \<and> jp_toksuper parser' = jp_toksuper parser \<and> length toks' = length toks \<and> jsmn_inv (Suc pos) parser' toks'"
    then obtain toks' where t: "r = 0" "tokens' = Some toks'" "jp_toknext parser' = Suc (jp_toknext parser)"
      "jp_pos parser' = pos" "length toks' = length toks" "jsmn_inv (Suc pos) parser' toks'" by blast
    from grow_super_inv [OF t(6), of "jp_toksuper parser"] assms(1) t(3) obtain toks'' where
      "grow_super (jp_toksuper parser) (Some toks') = Some (Some toks'')" "jsmn_inv (Suc pos) parser' toks''"
      "length toks'' = length toks'" by (auto simp: jsmn_inv_def)
    with t assms(8) show ?thesis by (simp add: nt after_value_def jsmn_good_def)
  qed
qed

lemma after_value_error: "jsmn_error e \<Longrightarrow> jsmn_good len n (after_value parser count (e, parser', tokens'))"
  by (auto simp: after_value_def jsmn_good_def)

lemma jsmn_open_good:
  assumes "jsmn_inv (jp_pos parser) parser toks" "jp_pos parser < len" "type \<noteq> JSMN_STRING"
  shows "jsmn_good len (length toks) (jsmn_open type (parser, Some toks, int (jp_toknext parser)))"
proof (cases "jsmn_alloc_token parser toks")
  case None
  then show ?thesis by (simp add: jsmn_open_def jsmn_good_def)
next
  case (Some r)
  let ?n = "jp_toknext parser"
  obtain parser' toks1 where r: "r = (parser', toks1)" by force
  have less: "?n < length toks" and p': "parser' = parser\<lparr>jp_toknext := Suc ?n\<rparr>"
    and t1: "toks1 = toks[?n := (toks ! ?n)\<lparr>tk_start := -1, tk_end := -1, tk_size := 0, tk_parent := -1\<rparr>]"
    using Some r by (auto simp: jsmn_alloc_token_def split: if_splits)
  have inv1: "jsmn_inv (jp_pos parser) parser toks1"
    using assms(1) by (auto simp: jsmn_inv_def t1)
  from grow_super_inv [OF inv1, of "jp_toksuper parser"] assms(1) obtain toks2 where
    t2: "grow_super (jp_toksuper parser) (Some toks1) = Some (Some toks2)" "jsmn_inv (jp_pos parser) parser toks2"
      "length toks2 = length toks" by (auto simp: jsmn_inv_def t1)
  have new: "toks2 ! ?n = toks1 ! ?n"
    using t2(1) assms(1) by (auto simp: grow_super_def token_at_def jsmn_inv_def bind_eq_Some_conv split: if_splits)
  show ?thesis
    using Some r p' t2 less assms new
    by (auto simp: jsmn_open_def jsmn_good_def Let_def jsmn_inv_def nth_list_update less_Suc_eq t1
        intro: token_ok_mono) (auto simp: token_ok_def)
qed

lemma jsmn_close_from_inv:
  assumes "jsmn_inv n parser toks" "0 \<le> i" "i < int (jp_toknext parser)" "i < int fuel" "n \<le> jp_pos parser"
    and "type \<noteq> JSMN_STRING"
  shows "jsmn_close_from fuel type parser i toks = Some (Inl JSMN_ERROR_INVAL)
    \<or> (\<exists>super toks'. jsmn_close_from fuel type parser i toks = Some (Inr (super, toks'))
         \<and> jsmn_inv (Suc (jp_pos parser)) (parser\<lparr>jp_toksuper := super\<rparr>) toks' \<and> length toks' = length toks)"
  using assms(2-4)
proof (induction fuel arbitrary: i)
  case (Suc fuel)
  have ok: "token_ok n (nat i) (toks ! nat i)" and len: "i < int (length toks)" "nat i < jp_toknext parser"
    using assms(1) Suc.prems by (auto simp: jsmn_inv_def)
  let ?t = "toks ! nat i"
  note inv = jsmn_inv_mono [OF assms(1), of "Suc (jp_pos parser)"]
  consider "tk_start ?t \<noteq> -1 \<and> tk_end ?t = -1" | "\<not> (tk_start ?t \<noteq> -1 \<and> tk_end ?t = -1)" "tk_parent ?t = -1"
    | "\<not> (tk_start ?t \<noteq> -1 \<and> tk_end ?t = -1)" "tk_parent ?t \<noteq> -1" by blast
  then show ?case
  proof cases
    case 1
    then show ?thesis
      using ok len Suc.prems inv assms(1,5,6)
      by (auto simp: token_at_def jsmn_inv_def nth_list_update) (auto simp: token_ok_def)
  next
    case 2
    then show ?thesis using ok len Suc.prems inv assms(1,5,6) by (auto simp: token_at_def jsmn_inv_def)
  next
    case 3
    with ok Suc.prems have "0 \<le> tk_parent ?t" "tk_parent ?t < int (jp_toknext parser)" "tk_parent ?t < int fuel"
      by (auto simp: token_ok_def)
    from Suc.IH [OF this] 3 len Suc.prems show ?thesis by (auto simp: token_at_def)
  qed
qed simp

lemma jsmn_close_good:
  assumes "jsmn_inv (jp_pos parser) parser toks" "jp_pos parser < len" "type \<noteq> JSMN_STRING"
  shows "jsmn_good len (length toks) (jsmn_close type (parser, Some toks, int (jp_toknext parser)))"
proof (cases "jp_toknext parser < 1")
  case False
  then have "0 \<le> int (jp_toknext parser) - 1" "int (jp_toknext parser) - 1 < int (jp_toknext parser)" by auto
  from jsmn_close_from_inv [OF assms(1) this this(2) order_refl assms(3)] show ?thesis
    using assms(2) False by (elim disjE exE conjE) (simp_all add: jsmn_close_def jsmn_good_def)
qed (simp add: jsmn_close_def jsmn_good_def)

lemma jsmn_inv_token_at:
  "jsmn_inv n parser toks \<Longrightarrow> jp_toksuper parser \<noteq> -1 \<Longrightarrow>
     \<exists>t. token_at toks (jp_toksuper parser) = Some t \<and> token_ok n (nat (jp_toksuper parser)) t"
  by (auto simp: jsmn_inv_def token_at_def)

lemma jsmn_same_good:
  "jsmn_inv (jp_pos parser) parser toks \<Longrightarrow> jp_pos parser < len \<Longrightarrow>
     jsmn_good len (length toks) (Some (Inr (parser, Some toks, int (jp_toknext parser))))"
  by (auto simp: jsmn_good_def intro: jsmn_inv_mono)

lemma jsmn_super_good:
  "jsmn_inv (jp_pos parser) parser toks \<Longrightarrow> jp_pos parser < len \<Longrightarrow> -1 \<le> super \<Longrightarrow> super < int (jp_toknext parser) \<Longrightarrow>
     jsmn_good len (length toks) (Some (Inr (parser\<lparr>jp_toksuper := super\<rparr>, Some toks, int (jp_toknext parser))))"
  using jsmn_inv_super [OF jsmn_inv_mono, of "jp_pos parser" parser toks "Suc (jp_pos parser)" super]
  by (simp add: jsmn_good_def)

lemma jsmn_comma_good:
  assumes "jsmn_inv (jp_pos parser) parser toks" "jp_pos parser < len"
  shows "jsmn_good len (length toks) (jsmn_comma (parser, Some toks, int (jp_toknext parser)))"
proof (cases "jp_toksuper parser = -1")
  case False
  with jsmn_inv_token_at [OF assms(1)] obtain t where t: "token_at toks (jp_toksuper parser) = Some t"
    "token_ok (jp_pos parser) (nat (jp_toksuper parser)) t" by blast
  then have "-1 \<le> tk_parent t" "tk_parent t < int (jp_toknext parser)"
    using assms(1) False by (auto simp: token_ok_def jsmn_inv_def)
  then show ?thesis
    using False t jsmn_super_good [OF assms] jsmn_same_good [OF assms] by (simp add: jsmn_comma_def)
qed (simp add: jsmn_comma_def jsmn_same_good [OF assms])

lemma jsmn_primitive_good:
  assumes "jsmn_inv (jp_pos parser) parser toks" "jp_pos parser < length js"
    and "js ! jp_pos parser = CHR ''-'' \<or> isdigit (js ! jp_pos parser) \<or> js ! jp_pos parser \<in> {CHR ''t'', CHR ''f'', CHR ''n''}"
  shows "jsmn_good (length js) (length toks) (jsmn_primitive js (parser, Some toks, int (jp_toknext parser)))"
proof -
  let ?pos = "jp_pos parser"
  have "jsmn_good (length js) (length toks)
      (after_value parser (int (jp_toknext parser)) (jsmn_parse_primitive js parser (Some toks)))"
  proof (cases "scan_primitive (drop ?pos js) ?pos")
    case (Scan_found stop)
    have "drop ?pos js = js ! ?pos # drop (Suc ?pos) js" using assms(2) by (simp add: Cons_nth_drop_Suc)
    with Scan_found scan_primitive_first [OF _ assms(3)] have "?pos < stop" by metis
    moreover have "stop < length js" using scan_primitive_pos [OF Scan_found] assms(2) by simp
    ultimately have "jsmn_good (length js) (length toks) (after_value parser (int (jp_toknext parser))
        (new_token JSMN_PRIMITIVE ?pos stop parser (Some toks) (stop - 1)))"
      using after_value_good [OF assms(1), of "stop - 1" ?pos stop JSMN_PRIMITIVE "length js"] by simp
    with Scan_found show ?thesis by (simp add: jsmn_parse_primitive_def)
  qed (simp_all add: jsmn_parse_primitive_def after_value_error)
  moreover have "\<exists>b. (if jp_toksuper parser = -1 then Some False
      else do {
        t \<leftarrow> token_at toks (jp_toksuper parser);
        Some (tk_type t = JSMN_OBJECT \<or> tk_type t = JSMN_STRING \<and> tk_size t \<noteq> 0)
      }) = Some b" (is "\<exists>b. ?key = Some b")
    using jsmn_inv_token_at [OF assms(1)] by auto
  then obtain b where "?key = Some b" ..
  ultimately show ?thesis by (cases b) (simp_all add: jsmn_primitive_def jsmn_good_def)
qed

lemma jsmn_parse_string_good:
  assumes "jsmn_inv (jp_pos parser) parser toks" "jp_pos parser < length js"
  shows "jsmn_good (length js) (length toks)
     (after_value parser (int (jp_toknext parser)) (jsmn_parse_string js parser (Some toks)))"
proof (cases "scan_string (drop (Suc (jp_pos parser)) js) (Suc (jp_pos parser))")
  case (Scan_found stop)
  from scan_string_pos [OF this] assms(2) have "Suc (jp_pos parser) \<le> stop" "stop < length js" by auto
  with after_value_good [OF assms(1), of stop "Suc (jp_pos parser)" stop JSMN_STRING "length js"] Scan_found
  show ?thesis by (simp add: jsmn_parse_string_def)
qed (simp_all add: jsmn_parse_string_def after_value_error)

lemma jsmn_parse_char_good:
  assumes "jsmn_inv (jp_pos parser) parser toks" "jp_pos parser < length js"
  shows "jsmn_good (length js) (length toks)
     (jsmn_parse_char js (js ! jp_pos parser) (parser, Some toks, int (jp_toknext parser)))"
proof -
  have "jsmn_good (length js) (length toks) (Some (Inr
      (parser\<lparr>jp_toksuper := int (jp_toknext parser) - 1\<rparr>, Some toks, int (jp_toknext parser))))"
    by (rule jsmn_super_good [OF assms]) auto
  then show ?thesis
    using jsmn_primitive_good [OF assms]
    by (simp add: jsmn_parse_char_def jsmn_open_good [OF assms] jsmn_close_good [OF assms] jsmn_comma_good [OF assms]
        jsmn_same_good [OF assms] jsmn_parse_string_good [OF assms] jsmn_good_def [of _ _ "Some (Inl _)"])
qed

lemma jsmn_parse_loop_good:
  assumes "jsmn_inv (jp_pos parser) parser toks" "jp_pos parser \<le> length js"
  shows "(\<exists>e toks'. jsmn_parse_loop js parser (Some toks) (int (jp_toknext parser)) = Some (Inl (e, Some toks')) \<and> jsmn_error e
           \<and> length toks' = length toks)
    \<or> (\<exists>parser' toks'. jsmn_parse_loop js parser (Some toks) (int (jp_toknext parser)) =
           Some (Inr (parser', Some toks', int (jp_toknext parser')))
         \<and> length toks' = length toks \<and> jp_pos parser' \<le> length js \<and> jsmn_inv (jp_pos parser') parser' toks')"
  using assms
proof (induction "length js - jp_pos parser" arbitrary: parser toks rule: less_induct)
  case less
  show ?case
  proof (cases "jp_pos parser < length js \<and> js ! jp_pos parser \<noteq> CHR 0x00")
    case False
    with less.prems show ?thesis by (auto simp: jsmn_parse_loop.simps [of js parser])
  next
    case True
    note eq = jsmn_parse_loop.simps [of js parser "Some toks"]
    let ?r = "jsmn_parse_char js (js ! jp_pos parser) (parser, Some toks, int (jp_toknext parser))"
    consider e where "?r = Some (Inl e)" "jsmn_error e"
      | parser' toks' where "?r = Some (Inr (parser', Some toks', int (jp_toknext parser')))"
          "length toks' = length toks" "jp_pos parser' < length js" "jsmn_inv (Suc (jp_pos parser')) parser' toks'"
      using jsmn_parse_char_good [OF less.prems(1)] True unfolding jsmn_good_def by blast
    then show ?thesis
    proof cases
      case 1
      with True show ?thesis by (simp add: eq)
    next
      case 2
      let ?p = "parser'\<lparr>jp_pos := Suc (jp_pos parser')\<rparr>"
      have "jp_pos parser \<le> jp_pos parser'" using jsmn_parse_char_pos 2 True by blast
      then have "length js - jp_pos ?p < length js - jp_pos parser" "jsmn_inv (jp_pos ?p) ?p toks'" "jp_pos ?p \<le> length js"
        using 2 by auto
      from less.hyps [OF this] 2 True show ?thesis by (simp add: eq)
    qed
  qed
qed

lemma jsmn_init_inv: "jsmn_inv 0 jsmn_init toks"
  by (simp add: jsmn_inv_def jsmn_init_def)

subsection \<open>Counting tokens first\<close>

text \<open>
  A round that only counts, beside the same round with an array: they end at the same position with
  the same count, and a missing token is due to an array shorter than the count.
\<close>

definition counts_like :: "nat \<Rightarrow> nat \<Rightarrow> int \<Rightarrow> (int + jsmn_state) option \<Rightarrow> bool" where
  "counts_like len pos k r \<longleftrightarrow>
     (\<forall>e. r = Some (Inl e) \<longrightarrow> e = JSMN_ERROR_NOMEM \<longrightarrow> int len < k)
     \<and> (\<forall>parser toks k'. r = Some (Inr (parser, toks, k')) \<longrightarrow> jp_pos parser = pos \<and> k' = k)"

lemma counts_like_simps [simp]:
  "counts_like len pos k None"
  "counts_like len pos k (Some (Inl e)) \<longleftrightarrow> (e = JSMN_ERROR_NOMEM \<longrightarrow> int len < k)"
  "counts_like len pos k (Some (Inr (parser, toks, k'))) \<longleftrightarrow> jp_pos parser = pos \<and> k' = k"
  by (simp_all add: counts_like_def)

lemma jsmn_open_counts:
  "counts_like (length toks) (jp_pos parser) (int (jp_toknext parser) + 1)
     (jsmn_open type (parser, Some toks, int (jp_toknext parser)))"
  by (auto simp: jsmn_open_def jsmn_alloc_token_def grow_super_def token_at_def Let_def)

lemma jsmn_close_from_mem: "jsmn_close_from fuel type parser i toks \<noteq> Some (Inl JSMN_ERROR_NOMEM)"
  by (induction fuel type parser i toks rule: jsmn_close_from.induct) (auto simp: bind_eq_Some_conv)

lemma jsmn_close_counts: "counts_like len (jp_pos parser) k (jsmn_close type (parser, Some toks, k))"
proof (cases "jsmn_close_from (jp_toknext parser) type parser (int (jp_toknext parser) - 1) toks")
  case (Some r)
  with jsmn_close_from_mem have "r \<noteq> Inl JSMN_ERROR_NOMEM" by metis
  with Some show ?thesis by (cases r) (auto simp: jsmn_close_def)
qed (simp add: jsmn_close_def)

lemma jsmn_comma_counts: "counts_like len (jp_pos parser) k (jsmn_comma (parser, Some toks, k))"
  by (auto simp: counts_like_def jsmn_comma_def bind_eq_Some_conv split: if_splits)

lemma after_value_counts:
  "counts_like (length toks) pos (int (jp_toknext parser) + 1)
     (after_value parser (int (jp_toknext parser)) (new_token type start stop parser (Some toks) pos))"
  by (auto simp: counts_like_def after_value_def new_token_def jsmn_alloc_token_def bind_eq_Some_conv)

lemma null_rounds [simp]:
  "jsmn_open type (parser, None, k) = Some (Inr (parser, None, k + 1))"
  "jsmn_close type (parser, None, k) = Some (Inr (parser, None, k))"
  "jsmn_comma (parser, None, k) = Some (Inr (parser, None, k))"
  "after_value parser k (new_token type start stop parser None pos) = Some (Inr (parser\<lparr>jp_pos := pos\<rparr>, None, k + 1))"
  "jsmn_primitive js (parser, None, k) = after_value parser k (jsmn_parse_primitive js parser None)"
  by (simp_all add: jsmn_open_def jsmn_close_def jsmn_comma_def after_value_def new_token_def grow_super_def jsmn_primitive_def)

lemma after_value_Inl: "e < 0 \<Longrightarrow> after_value parser k (e, parser', tokens) = Some (Inl e)"
  by (simp add: after_value_def)

lemma string_counts:
  assumes "after_value parser0 k (jsmn_parse_string js parser0 None) = Some (Inr (parser0', tokens0, k'))"
    and "jp_pos parser = jp_pos parser0" "k = int (jp_toknext parser)"
  shows "tokens0 = None \<and> k \<le> k' \<and> counts_like (length toks) (jp_pos parser0') k'
     (after_value parser k (jsmn_parse_string js parser (Some toks)))"
  using assms after_value_counts [of toks _ parser JSMN_STRING "Suc (jp_pos parser)"]
  by (cases "scan_string (drop (Suc (jp_pos parser0)) js) (Suc (jp_pos parser0))")
    (auto simp: jsmn_parse_string_def after_value_Inl)

lemma primitive_counts:
  assumes "after_value parser0 k (jsmn_parse_primitive js parser0 None) = Some (Inr (parser0', tokens0, k'))"
    and "jp_pos parser = jp_pos parser0" "k = int (jp_toknext parser)"
  shows "tokens0 = None \<and> k \<le> k' \<and> counts_like (length toks) (jp_pos parser0') k' (jsmn_primitive js (parser, Some toks, k))"
proof -
  have prim: "counts_like len pos k' (jsmn_primitive js (parser, Some toks, k))"
    if "counts_like len pos k' (after_value parser k (jsmn_parse_primitive js parser (Some toks)))" for len pos
    using that by (auto simp: counts_like_def jsmn_primitive_def bind_eq_Some_conv split: if_splits)
  have "tokens0 = None \<and> k \<le> k' \<and> counts_like (length toks) (jp_pos parser0') k'
     (after_value parser k (jsmn_parse_primitive js parser (Some toks)))"
    using assms after_value_counts [of toks _ parser JSMN_PRIMITIVE "jp_pos parser"]
    by (cases "scan_primitive (drop (jp_pos parser0) js) (jp_pos parser0)")
      (auto simp: jsmn_parse_primitive_def after_value_Inl)
  with prim show ?thesis by blast
qed

lemma jsmn_parse_char_counts:
  assumes null: "jsmn_parse_char js c (parser0, None, k) = Some (Inr (parser0', tokens0, k'))"
    and "jp_pos parser = jp_pos parser0" "k = int (jp_toknext parser)"
  shows "tokens0 = None \<and> k \<le> k' \<and> counts_like (length toks) (jp_pos parser0') k' (jsmn_parse_char js c (parser, Some toks, k))"
  using null jsmn_open_counts [of toks parser] jsmn_close_counts [of "length toks" parser k _ toks]
    jsmn_comma_counts [of "length toks" parser k toks] string_counts [OF _ assms(2,3), of js parser0' tokens0 k' toks]
    primitive_counts [OF _ assms(2,3), of js parser0' tokens0 k' toks] assms(2,3)
  by (auto simp: jsmn_parse_char_def split: if_splits)

text \<open>The same for whole runs.\<close>

definition run_counts_like :: "nat \<Rightarrow> nat \<Rightarrow> int \<Rightarrow> (int \<times> jsmn_tokens + jsmn_state) option \<Rightarrow> bool" where
  "run_counts_like len pos k r \<longleftrightarrow> counts_like len pos k (map_option (map_sum fst (\<lambda>s. s)) r)"

lemma run_counts_like_simps [simp]:
  "run_counts_like len pos k (Some (Inl (e, tokens))) \<longleftrightarrow> (e = JSMN_ERROR_NOMEM \<longrightarrow> int len < k)"
  "run_counts_like len pos k (Some (Inr (parser, toks, k'))) \<longleftrightarrow> jp_pos parser = pos \<and> k' = k"
  by (simp_all add: run_counts_like_def)

lemma jsmn_parse_loop_step:
  assumes "jsmn_parse_loop js parser tokens k = Some (Inr s)" "jp_pos parser < length js" "js ! jp_pos parser \<noteq> CHR 0x00"
  shows "\<exists>p t k'. jsmn_parse_char js (js ! jp_pos parser) (parser, tokens, k) = Some (Inr (p, t, k'))
     \<and> jsmn_parse_loop js (p\<lparr>jp_pos := Suc (jp_pos p)\<rparr>) t k' = Some (Inr s)"
proof -
  from assms obtain r where r: "jsmn_parse_char js (js ! jp_pos parser) (parser, tokens, k) = Some r"
    by (auto simp: jsmn_parse_loop.simps [of js parser] bind_eq_Some_conv)
  with assms show ?thesis by (cases r) (auto simp: jsmn_parse_loop.simps [of js parser])
qed

text \<open>A run without an array returns, never for lack of tokens, and counts up.\<close>

lemma null_char_cases:
  "(\<exists>e. jsmn_parse_char js c (parser, None, k) = Some (Inl e) \<and> e \<in> {JSMN_ERROR_INVAL, JSMN_ERROR_PART})
   \<or> (\<exists>p k'. jsmn_parse_char js c (parser, None, k) = Some (Inr (p, None, k')) \<and> k \<le> k')"
  by (auto simp: jsmn_parse_char_def jsmn_parse_string_def jsmn_parse_primitive_def after_value_Inl split: jsmn_scan.splits)

lemma null_loop_cases:
  "(\<exists>e. jsmn_parse_loop js parser None k = Some (Inl (e, None)) \<and> e \<in> {JSMN_ERROR_INVAL, JSMN_ERROR_PART})
   \<or> (\<exists>p n. jsmn_parse_loop js parser None k = Some (Inr (p, None, n)) \<and> k \<le> n)"
proof (induction "length js - jp_pos parser" arbitrary: parser k rule: less_induct)
  case less
  show ?case
  proof (cases "jp_pos parser < length js \<and> js ! jp_pos parser \<noteq> CHR 0x00")
    case False
    then show ?thesis by (auto simp: jsmn_parse_loop.simps [of js parser])
  next
    case True
    from null_char_cases [of js "js ! jp_pos parser" parser k] show ?thesis
    proof (elim disjE exE conjE)
      fix p k' assume c: "jsmn_parse_char js (js ! jp_pos parser) (parser, None, k) = Some (Inr (p, None, k'))" "k \<le> k'"
      then have "length js - jp_pos (p\<lparr>jp_pos := Suc (jp_pos p)\<rparr>) < length js - jp_pos parser"
        using jsmn_parse_char_pos [OF c(1)] True by auto
      from less.hyps [OF this, of k'] c True show ?thesis by (auto simp: jsmn_parse_loop.simps [of js parser])
    qed (use True in \<open>auto simp: jsmn_parse_loop.simps [of js parser]\<close>)
  qed
qed

lemma null_loop_mono:
  "jsmn_parse_loop js parser None k = Some (Inr (parser', tokens, n)) \<Longrightarrow> tokens = None \<and> k \<le> n"
  using null_loop_cases [of js parser k] by auto

lemma jsmn_parse_null_result:
  "\<exists>r. jsmn_parse js parser None = Some (r, None) \<and> (r \<in> {JSMN_ERROR_INVAL, JSMN_ERROR_PART} \<or> int (jp_toknext parser) \<le> r)"
  using null_loop_cases [of js parser "int (jp_toknext parser)"] by (auto simp: jsmn_parse_def)

lemma jsmn_parse_null: "jsmn_parse js parser None = Some (r, tokens) \<Longrightarrow> tokens = None"
  using jsmn_parse_null_result [of js parser] by auto

lemma jsmn_parse_loop_counts:
  assumes "jsmn_parse_loop js parser0 None k = Some (Inr (parser0', tokens0, n))"
    and "jp_pos parser = jp_pos parser0" "k = int (jp_toknext parser)" "jsmn_inv (jp_pos parser) parser toks"
    and "jp_pos parser \<le> length js"
  shows "tokens0 = None \<and> k \<le> n \<and>
    run_counts_like (length toks) (jp_pos parser0') n (jsmn_parse_loop js parser (Some toks) k)"
  using assms
proof (induction "length js - jp_pos parser" arbitrary: parser parser0 toks k rule: less_induct)
  case less
  note eq0 = jsmn_parse_loop.simps [of js parser0 None] and eq = jsmn_parse_loop.simps [of js parser "Some toks"]
  show ?case
  proof (cases "jp_pos parser < length js \<and> js ! jp_pos parser \<noteq> CHR 0x00")
    case False
    with less.prems show ?thesis by (auto simp: eq eq0)
  next
    case True
    let ?null = "jsmn_parse_char js (js ! jp_pos parser) (parser0, None, k)"
    let ?full = "jsmn_parse_char js (js ! jp_pos parser) (parser, Some toks, k)"
    from jsmn_parse_loop_step [OF less.prems(1)] less.prems(2) True obtain p0 t0 k1 where
      r0: "?null = Some (Inr (p0, t0, k1))"
        "jsmn_parse_loop js (p0\<lparr>jp_pos := Suc (jp_pos p0)\<rparr>) t0 k1 = Some (Inr (parser0', tokens0, n))" by auto
    note c = jsmn_parse_char_counts [OF r0(1) less.prems(2,3), of toks]
    then have null: "jsmn_parse_loop js (p0\<lparr>jp_pos := Suc (jp_pos p0)\<rparr>) None k1 = Some (Inr (parser0', tokens0, n))"
      using r0(2) by simp
    from jsmn_parse_char_good [OF less.prems(4)] True less.prems(3) consider
        e where "?full = Some (Inl e)"
      | p' toks' where "?full = Some (Inr (p', Some toks', int (jp_toknext p')))" "length toks' = length toks"
          "jp_pos p' < length js" "jsmn_inv (Suc (jp_pos p')) p' toks'"
      unfolding jsmn_good_def by blast
    then show ?thesis
    proof cases
      case 1
      with True c null_loop_mono [OF null] show ?thesis by (auto simp: eq)
    next
      case 2
      let ?p = "p'\<lparr>jp_pos := Suc (jp_pos p')\<rparr>"
      have "jp_pos parser \<le> jp_pos p'" using jsmn_parse_char_pos 2(1) True by blast
      moreover have "jp_pos p' = jp_pos p0" "k1 = int (jp_toknext p')" using c 2(1) by auto
      ultimately have "tokens0 = None \<and> k1 \<le> n \<and>
          run_counts_like (length toks') (jp_pos parser0') n (jsmn_parse_loop js ?p (Some toks') k1)"
        by (intro less.hyps [OF _ null]) (use 2 True in auto)
      with 2 c True \<open>k1 = int (jp_toknext p')\<close> show ?thesis by (simp add: eq)
    qed
  qed
qed

subsection \<open>Properties\<close>

text \<open>A finished token: within the text (a string with its quotes), after its parent.\<close>

definition token_in_text :: "string \<Rightarrow> nat \<Rightarrow> jsmntok_t \<Rightarrow> bool" where
  "token_in_text js i t \<longleftrightarrow> 0 \<le> tk_start t \<and> tk_start t < int (length js)
     \<and> tk_start t \<le> tk_end t \<and> 0 < tk_end t \<and> tk_end t \<le> int (length js)
     \<and> (tk_type t = JSMN_STRING \<longrightarrow> 1 \<le> tk_start t \<and> tk_end t < int (length js)) \<and> 0 \<le> tk_size t \<and> -1 \<le> tk_parent t \<and> tk_parent t < int i"

definition tokens_in_text :: "string \<Rightarrow> nat \<Rightarrow> jsmntok_t list \<Rightarrow> bool" where
  "tokens_in_text js n toks \<longleftrightarrow> n \<le> length toks \<and> list_all (\<lambda>i. token_in_text js i (toks ! i)) [0..<n]"

lemma jsmn_parse_result:
  "\<exists>r toks'. jsmn_parse js jsmn_init (Some toks) = Some (r, Some toks') \<and> length toks' = length toks
     \<and> (jsmn_error r \<or> 0 \<le> r \<and> tokens_in_text js (nat r) toks')"
proof -
  have start: "jp_pos jsmn_init = 0" "int (jp_toknext jsmn_init) = 0" by (simp_all add: jsmn_init_def)
  note good = jsmn_parse_loop_good [of jsmn_init toks js, unfolded start, OF jsmn_init_inv]
  consider e toks' where "jsmn_parse_loop js jsmn_init (Some toks) 0 = Some (Inl (e, Some toks'))" "jsmn_error e" "length toks' = length toks"
    | parser' toks' where "jsmn_parse_loop js jsmn_init (Some toks) 0 = Some (Inr (parser', Some toks', int (jp_toknext parser')))"
        "length toks' = length toks" "jp_pos parser' \<le> length js" "jsmn_inv (jp_pos parser') parser' toks'"
    using good by auto
  then show ?thesis
  proof cases
    case 1
    then show ?thesis by (auto simp: jsmn_parse_def start)
  next
    case 2
    have "tokens_in_text js (jp_toknext parser') toks'"
      if "\<not> list_ex (\<lambda>t. tk_start t \<noteq> -1 \<and> tk_end t = -1) (take (jp_toknext parser') toks')"
      using that 2(3,4)
      by (force simp: list_ex_iff list_all_iff tokens_in_text_def token_in_text_def jsmn_inv_def token_ok_def in_set_conv_nth)
    with 2 show ?thesis by (simp add: jsmn_parse_def start)
  qed
qed

text \<open>
  C15: The tokenizer returns on every text, with every array of tokens and without one, and touches no memory outside of the text
  or of the array. With an array its result is one of its three errors, or the number of the tokens it filled, each of
  which lies in the text and has a parent before it. Without one it only counts: it does not run out of tokens, and its result is
  one of the two other errors or a number.
\<close>

theorem jsmn_parse_total:
  "(\<exists>r toks'. jsmn_parse js jsmn_init (Some toks) = Some (r, Some toks') \<and> length toks' = length toks
      \<and> (r \<in> {JSMN_ERROR_NOMEM, JSMN_ERROR_INVAL, JSMN_ERROR_PART} \<or> 0 \<le> r \<and> tokens_in_text js (nat r) toks'))
   \<and> (\<exists>r. jsmn_parse js jsmn_init None = Some (r, None) \<and> (r \<in> {JSMN_ERROR_INVAL, JSMN_ERROR_PART} \<or> 0 \<le> r))"
  using jsmn_parse_result [of js toks] jsmn_parse_null_result [of js jsmn_init] by (simp add: jsmn_init_def)

text \<open>
  C16: Counting before allocating is enough: when a pass without an array finds \<open>n\<close> tokens, a pass with an array of at
  least \<open>n\<close> tokens never runs out of them; it fails only on text that is not JSON, or finds the same
  number of tokens.
\<close>

theorem jsmn_parse_counts_first:
  assumes "jsmn_parse js jsmn_init None = Some (n, None)" and "0 \<le> n" and "n \<le> int (length toks)"
  shows "\<exists>r toks'. jsmn_parse js jsmn_init (Some toks) = Some (r, Some toks')
     \<and> r \<noteq> JSMN_ERROR_NOMEM \<and> (r = n \<or> r < 0)"
proof -
  have start: "jp_pos jsmn_init = 0" "int (jp_toknext jsmn_init) = 0" by (simp_all add: jsmn_init_def)
  obtain s where s: "jsmn_parse_loop js jsmn_init None 0 = Some s"
    using assms(1) by (auto simp: jsmn_parse_def start bind_eq_Some_conv)
  with null_loop_cases [of js jsmn_init 0] assms(1,2) obtain p where null: "jsmn_parse_loop js jsmn_init None 0 = Some (Inr (p, None, n))"
    by (auto simp: jsmn_parse_def start)
  note inv = jsmn_init_inv [of toks, folded start(1)]
  have c: "run_counts_like (length toks) (jp_pos p) n (jsmn_parse_loop js jsmn_init (Some toks) 0)"
    using jsmn_parse_loop_counts [OF null refl _ inv] by (simp add: start)
  consider e toks' where "jsmn_parse_loop js jsmn_init (Some toks) 0 = Some (Inl (e, Some toks'))" "jsmn_error e"
    | parser' toks' where "jsmn_parse_loop js jsmn_init (Some toks) 0 = Some (Inr (parser', Some toks', int (jp_toknext parser')))"
    using jsmn_parse_loop_good [OF inv, of js] by (auto simp: start)
  then show ?thesis
    by cases (use c assms(2,3) in \<open>auto simp: jsmn_parse_def start\<close>)
qed

theorem jsmn_parse_counts_first_witness:
  "jsmn_parse ''{\"a\":[1,2]}'' jsmn_init None = Some (5, None)
   \<and> (\<exists>r toks'. jsmn_parse ''{\"a\":[1,2]}'' jsmn_init
        (Some (replicate 5 \<lparr>tk_type = JSMN_UNDEFINED, tk_start = 0, tk_end = 0, tk_size = 0, tk_parent = 0\<rparr>))
      = Some (r, Some toks') \<and> r \<noteq> JSMN_ERROR_NOMEM \<and> (r = 5 \<or> r < 0))"
proof -
  have *: "jsmn_parse ''{\"a\":[1,2]}'' jsmn_init None = Some (5, None)" by code_simp
  show ?thesis
    using jsmn_parse_counts_first [OF *, of "replicate 5 \<lparr>tk_type = JSMN_UNDEFINED, tk_start = 0, tk_end = 0,
      tk_size = 0, tk_parent = 0\<rparr>"] * by simp
qed

end
