(* ===== verification/C_Stdlib.thy ===== *)
theory C_Stdlib
  imports Lightsd_Prelude
begin

text \<open>
  The parts of the C library the text interfaces of lightsd use: \<open>strtol\<close> in base 10, the integer
  conversions of \<open>snprintf\<close> and the way \<open>LGTD_SNPRINTF_APPEND\<close> (\<open>src/core/lightsd.h\<close>) fills a buffer.
\<close>

subsection \<open>Numbers to text\<close>

fun digit_char :: "nat \<Rightarrow> char" where
  "digit_char d = (if d < 10 then char_of (ord (CHR ''0'') + d) else char_of (ord (CHR ''a'') + (d - 10)))"

text \<open>\<open>%u\<close>, \<open>%d\<close>, \<open>%x\<close> and \<open>%02hhx\<close>.\<close>

fun print_base :: "nat \<Rightarrow> nat \<Rightarrow> string" where
  "print_base b n = (if b < 2 \<or> n < b then [digit_char n] else print_base b (n div b) @ [digit_char (n mod b)])"

declare print_base.simps [simp del]

definition print_unsigned :: "nat \<Rightarrow> string" where
  "print_unsigned n = print_base 10 n"

definition print_int :: "int \<Rightarrow> string" where
  "print_int i = (if i < 0 then CHR ''-'' # print_unsigned (nat (- i)) else print_unsigned (nat i))"

definition print_hex :: "nat \<Rightarrow> string" where
  "print_hex n = print_base 16 n"

definition print_hex_byte :: "u8 \<Rightarrow> string" where
  "print_hex_byte b = [digit_char (unat b div 16), digit_char (unat b mod 16)]"

subsection \<open>Text to numbers\<close>

text \<open>
  \<open>strtol(s, &endptr, 10)\<close>: the value, cut to the range of a 64 bit \<open>long\<close>, how many characters were read (none when
  there is no number), and whether the call failed with \<open>ERANGE\<close>.
\<close>

definition isspace :: "char \<Rightarrow> bool" where
  "isspace c \<longleftrightarrow> c = CHR '' '' \<or> 9 \<le> ord c \<and> ord c \<le> 13"

definition digits_value :: "string \<Rightarrow> nat" where
  "digits_value ds = foldl (\<lambda>n c. 10 * n + (ord c - ord (CHR ''0''))) 0 ds"

abbreviation LONG_MAX :: int where "LONG_MAX \<equiv> 2 ^ 63 - 1"
abbreviation LONG_MIN :: int where "LONG_MIN \<equiv> - (2 ^ 63)"

definition strtol :: "string \<Rightarrow> int \<times> nat \<times> bool" where
  "strtol s =
     (let spaces = takeWhile isspace s;
          t = drop (length spaces) s;
          sign = (if t \<noteq> [] \<and> (hd t = CHR ''-'' \<or> hd t = CHR ''+'') then 1 else 0);
          digits = takeWhile isdigit (drop sign t);
          v = (if sign = 1 \<and> hd t = CHR ''-'' then - int (digits_value digits) else int (digits_value digits))
      in if digits = [] then (0, 0, False)
         else (max LONG_MIN (min LONG_MAX v), length spaces + sign + length digits, v < LONG_MIN \<or> LONG_MAX < v))"

definition strtol_value :: "string \<Rightarrow> int" where
  "strtol_value s = fst (strtol s)"

text \<open>Reading a C \<open>int\<close> from a \<open>long\<close>.\<close>

definition int_of_long :: "int \<Rightarrow> int" where
  "int_of_long v = signed_take_bit 31 v"

subsection \<open>Filling a buffer\<close>

text \<open>
  \<open>LGTD_SNPRINTF_APPEND\<close> on a buffer of \<open>bufsz\<close> bytes: the text in the buffer and the index \<open>i\<close>. The index stops at
  \<open>bufsz\<close> when the text does not fit, with the part that fits and a terminator in the buffer.
\<close>

definition LGTD_SNPRINTF_APPEND :: "nat \<Rightarrow> string \<Rightarrow> string \<times> nat \<Rightarrow> string \<times> nat" where
  "LGTD_SNPRINTF_APPEND bufsz text b =
     (case b of (buf, i) \<Rightarrow> (buf @ take (bufsz - i - 1) text, min (i + length text) bufsz))"

subsection \<open>Facts\<close>

lemma isdigit_digit_char: "d < 10 \<Longrightarrow> isdigit (digit_char d) \<and> ord (digit_char d) = 48 + d"
  by (auto simp: isdigit_def)

lemma print_base_10_digits: "\<forall>c\<in>set (print_base 10 n). isdigit c"
proof (induction n rule: less_induct)
  case (less n)
  show ?case
  proof (cases "n < 10")
    case True
    then show ?thesis using isdigit_digit_char [of n] by (simp add: print_base.simps del: digit_char.simps)
  next
    case False
    then show ?thesis
      using less [of "n div 10"] isdigit_digit_char [of "n mod 10"]
      by (simp add: print_base.simps [of 10 n] del: digit_char.simps)
  qed
qed

lemma print_base_nonempty: "print_base b n \<noteq> []"
  by (simp add: print_base.simps)

lemma digits_value_append: "digits_value (ds @ [c]) = 10 * digits_value ds + (ord c - 48)"
  by (simp add: digits_value_def)

lemma digits_value_print: "digits_value (print_base 10 n) = n"
proof (induction n rule: less_induct)
  case (less n)
  show ?case
  proof (cases "n < 10")
    case True
    then show ?thesis
      using isdigit_digit_char [of n] by (simp add: print_base.simps digits_value_def del: digit_char.simps)
  next
    case False
    then show ?thesis
      using less [of "n div 10"] isdigit_digit_char [of "n mod 10"]
      by (simp add: print_base.simps [of 10 n] digits_value_append del: digit_char.simps)
  qed
qed

lemma takeWhile_digits_append:
  "\<forall>c\<in>set ds. isdigit c \<Longrightarrow> rest = [] \<or> \<not> isdigit (hd rest) \<Longrightarrow> takeWhile isdigit (ds @ rest) = ds"
  by (cases rest) (auto simp: takeWhile_tail takeWhile_append2)

lemma isdigit_not_special: "isdigit c \<Longrightarrow> \<not> isspace c \<and> c \<noteq> CHR ''-'' \<and> c \<noteq> CHR ''+''"
  by (auto simp: isdigit_def isspace_def)

text \<open>A decimal number that fits is read up to its last digit.\<close>

lemma strtol_digits:
  assumes "\<forall>c\<in>set ds. isdigit c" "ds \<noteq> []" "rest = [] \<or> \<not> isdigit (hd rest)" "int (digits_value ds) \<le> LONG_MAX"
  shows "strtol (ds @ rest) = (int (digits_value ds), length ds, False)"
proof -
  have sp: "takeWhile isspace (ds @ rest) = []" and sg: "hd (ds @ rest) \<noteq> CHR ''-''" "hd (ds @ rest) \<noteq> CHR ''+''"
    using assms(1,2) isdigit_not_special by (cases ds; auto)+
  show ?thesis
    using assms sp sg takeWhile_digits_append [OF assms(1,3)] by (simp add: strtol_def Let_def)
qed

lemma strtol_print_unsigned:
  "rest = [] \<or> \<not> isdigit (hd rest) \<Longrightarrow> int n \<le> LONG_MAX \<Longrightarrow>
     strtol (print_unsigned n @ rest) = (int n, length (print_unsigned n), False)"
  using strtol_digits [OF print_base_10_digits print_base_nonempty, of rest n]
  by (simp add: print_unsigned_def digits_value_print)

end
