(* ===== verification/Client_Io.thy ===== *)
theory Client_Io
  imports Jsmn C_Stdlib
begin

text \<open>
  A client connection (\<open>src/core/client.h\<close>) and what is written to it: the functions of \<open>src/core/client.c\<close> that
  write, and the responses and errors of \<open>src/core/jsonrpc.c\<close>. Pointers into the array of tokens are indexes;
  \<open>c_out\<close> is everything given to \<open>bufferevent_write\<close> so far, \<open>c_io\<close> whether \<open>client->io\<close> is set.
\<close>

subsection \<open>Clients and requests\<close>

record lgtd_jsonrpc_request =
  rq_method :: "int option"
  rq_params :: "int option"
  rq_params_ntokens :: int
  rq_id :: "int option"
  rq_request_ntokens :: int

record lgtd_client =
  c_io :: bool
  c_out :: string
  c_jsmn_tokens :: "jsmntok_t list"
  c_json :: string
  c_current_request :: "lgtd_jsonrpc_request option"

text \<open>\<open>memset\<close> of a client for a pipe.\<close>

definition lgtd_client_open_from_pipe :: lgtd_client where
  "lgtd_client_open_from_pipe =
     \<lparr>c_io = False, c_out = '''', c_jsmn_tokens = [], c_json = '''', c_current_request = None\<rparr>"

subsection \<open>Writing\<close>

definition lgtd_client_write_string :: "string \<Rightarrow> lgtd_client \<Rightarrow> lgtd_client" where
  "lgtd_client_write_string msg client =
     (if c_io client then client\<lparr>c_out := c_out client @ cstr msg\<rparr> else client)"

definition lgtd_client_write_buf :: "string \<Rightarrow> lgtd_client \<Rightarrow> lgtd_client" where
  "lgtd_client_write_buf buf client =
     (if buf \<noteq> [] \<and> c_io client then client\<lparr>c_out := c_out client @ buf\<rparr> else client)"

text \<open>The characters of the request from \<open>start\<close> to before \<open>stop\<close>; reading outside of it has no result.\<close>

definition json_slice :: "string \<Rightarrow> int \<Rightarrow> int \<Rightarrow> string option" where
  "json_slice json start stop =
     (if 0 \<le> start \<and> start \<le> stop \<and> stop \<le> int (length json)
      then Some (take (nat (stop - start)) (drop (nat start) json)) else None)"

definition lgtd_jsonrpc_write_id :: "lgtd_client \<Rightarrow> lgtd_client option" where
  "lgtd_jsonrpc_write_id client =
     (case c_current_request client of
        None \<Rightarrow> Some (lgtd_client_write_string ''null'' client)
      | Some request \<Rightarrow>
          (case rq_id request of
             None \<Rightarrow> Some (lgtd_client_write_string ''null'' client)
           | Some id_token \<Rightarrow> do {
               t \<leftarrow> token_at (c_jsmn_tokens client) id_token;
               let (start, stop) = (if tk_type t = JSMN_STRING then (tk_start t - 1, tk_end t + 1)
                                    else (tk_start t, tk_end t));
               buf \<leftarrow> json_slice (c_json client) start stop;
               Some (lgtd_client_write_buf buf client)
             }))"

subsection \<open>Responses and errors\<close>

abbreviation (input) LGTD_JSONRPC_INVALID_REQUEST :: int where "LGTD_JSONRPC_INVALID_REQUEST \<equiv> -32600"
abbreviation (input) LGTD_JSONRPC_METHOD_NOT_FOUND :: int where "LGTD_JSONRPC_METHOD_NOT_FOUND \<equiv> -32601"
abbreviation (input) LGTD_JSONRPC_INVALID_PARAMS :: int where "LGTD_JSONRPC_INVALID_PARAMS \<equiv> -32602"
abbreviation (input) LGTD_JSONRPC_INTERNAL_ERROR :: int where "LGTD_JSONRPC_INTERNAL_ERROR \<equiv> -32603"

text \<open>\<open>str_code\<close> holds seven characters.\<close>

definition lgtd_jsonrpc_send_error :: "int \<Rightarrow> string \<Rightarrow> lgtd_client \<Rightarrow> lgtd_client option" where
  "lgtd_jsonrpc_send_error code message client =
     do {
       let client = lgtd_client_write_string ''{\"jsonrpc\": \"2.0\", \"id\": '' client;
       client \<leftarrow> lgtd_jsonrpc_write_id client;
       let client = lgtd_client_write_string '', \"error\": {\"code\": '' client;
       let client = lgtd_client_write_string (take 7 (print_int code)) client;
       let client = lgtd_client_write_string '', \"message\": \"'' client;
       let client = lgtd_client_write_string message client;
       Some (lgtd_client_write_string ''\"}}'' client)
     }"

definition lgtd_jsonrpc_start_send_response :: "lgtd_client \<Rightarrow> lgtd_client option" where
  "lgtd_jsonrpc_start_send_response client =
     do {
       let client = lgtd_client_write_string ''{\"jsonrpc\": \"2.0\", \"id\": '' client;
       client \<leftarrow> lgtd_jsonrpc_write_id client;
       Some (lgtd_client_write_string '', \"result\": '' client)
     }"

definition lgtd_jsonrpc_end_send_response :: "lgtd_client \<Rightarrow> lgtd_client" where
  "lgtd_jsonrpc_end_send_response client = lgtd_client_write_string ''}'' client"

definition lgtd_jsonrpc_send_response :: "string \<Rightarrow> lgtd_client \<Rightarrow> lgtd_client option" where
  "lgtd_jsonrpc_send_response result client =
     do {
       let client = lgtd_client_write_string ''{\"jsonrpc\": \"2.0\", \"id\": '' client;
       client \<leftarrow> lgtd_jsonrpc_write_id client;
       let client = lgtd_client_write_string '', \"result\": '' client;
       let client = lgtd_client_write_string result client;
       Some (lgtd_client_write_string ''}'' client)
     }"

text \<open>The functions of \<open>client.c\<close> that forward to them.\<close>

definition lgtd_client_send_response :: "string \<Rightarrow> lgtd_client \<Rightarrow> lgtd_client option" where
  "lgtd_client_send_response msg client = lgtd_jsonrpc_send_response msg client"

definition lgtd_client_start_send_response :: "lgtd_client \<Rightarrow> lgtd_client option" where
  "lgtd_client_start_send_response client = lgtd_jsonrpc_start_send_response client"

definition lgtd_client_end_send_response :: "lgtd_client \<Rightarrow> lgtd_client" where
  "lgtd_client_end_send_response client = lgtd_jsonrpc_end_send_response client"

definition lgtd_client_send_error :: "int \<Rightarrow> string \<Rightarrow> lgtd_client \<Rightarrow> lgtd_client option" where
  "lgtd_client_send_error error msg client = lgtd_jsonrpc_send_error error msg client"

end
