(* ===== verification/Jsonrpc_Values.thy ===== *)
theory Jsonrpc_Values
  imports Client_Io
begin

text \<open>
  The values of a JSON-RPC request (\<open>src/core/jsonrpc.c\<close>): the functions that check the type of a token, and the
  conversions between decimal numbers and the 16 bit integers of the LIFX protocol.
\<close>

subsection \<open>Type checks\<close>

definition json_char :: "string \<Rightarrow> int \<Rightarrow> char" where
  "json_char json i = (if 0 \<le> i \<and> i < int (length json) then json ! nat i else CHR 0x00)"

abbreviation json_at :: "string \<Rightarrow> int \<Rightarrow> string" where
  "json_at json i \<equiv> drop (nat i) json"

definition LGTD_JSONRPC_TOKEN_LEN :: "jsmntok_t \<Rightarrow> int" where
  "LGTD_JSONRPC_TOKEN_LEN t = tk_end t - tk_start t"

definition lgtd_jsonrpc_type_integer :: "jsmntok_t \<Rightarrow> string \<Rightarrow> bool" where
  "lgtd_jsonrpc_type_integer t json =
     (if tk_type t \<noteq> JSMN_PRIMITIVE then False
      else (let (v, n, erange) = strtol (json_at json (tk_start t))
            in tk_start t + int n = tk_end t \<and> \<not> erange))"

text \<open>The loop over the characters: whether the dot and a one before it were seen.\<close>

fun unit_float_chars :: "bool \<Rightarrow> bool \<Rightarrow> string \<Rightarrow> bool" where
  "unit_float_chars dot_seen first_digit_is_one [] = True"
| "unit_float_chars dot_seen first_digit_is_one (c # cs) =
     (if c = CHR ''.'' then (if dot_seen then False else unit_float_chars True first_digit_is_one cs)
      else if dot_seen then
        (if ord c < ord (CHR ''0'') \<or> ord (CHR ''9'') < ord c then False
         else if first_digit_is_one \<and> c \<noteq> CHR ''0'' then False
         else unit_float_chars dot_seen first_digit_is_one cs)
      else if first_digit_is_one then False
      else if c = CHR ''1'' then unit_float_chars dot_seen True cs
      else if c \<noteq> CHR ''0'' then False
      else unit_float_chars dot_seen first_digit_is_one cs)"

definition token_text :: "string \<Rightarrow> jsmntok_t \<Rightarrow> string" where
  "token_text json t = take (nat (LGTD_JSONRPC_TOKEN_LEN t)) (json_at json (tk_start t))"

definition lgtd_jsonrpc_type_float_between_0_and_1 :: "jsmntok_t \<Rightarrow> string \<Rightarrow> bool" where
  "lgtd_jsonrpc_type_float_between_0_and_1 t json =
     (if tk_type t \<noteq> JSMN_PRIMITIVE then False else unit_float_chars False False (token_text json t))"

text \<open>\<open>errno\<close> is set to zero before the first conversion only, so it tells of both.\<close>

definition lgtd_jsonrpc_type_float_between_0_and_360 :: "jsmntok_t \<Rightarrow> string \<Rightarrow> bool" where
  "lgtd_jsonrpc_type_float_between_0_and_360 t json =
     (if tk_type t \<noteq> JSMN_PRIMITIVE then False
      else (let c = json_char json (tk_start t) in
        if c \<noteq> CHR ''-'' \<and> (ord (CHR ''9'') < ord c \<or> ord c < ord (CHR ''0'')) then False
        else (let (intpart, n, erange) = strtol (json_at json (tk_start t)); endptr = tk_start t + int n in
          if endptr \<noteq> tk_end t \<and> json_char json endptr \<noteq> CHR ''.''
             \<or> erange \<or> intpart < 0 \<or> 360 < intpart \<or> intpart = 0 \<and> c = CHR ''-'' then False
          else if endptr = tk_end t then True
          else (let (fracpart, n, erange) = strtol (json_at json (endptr + 1))
                in endptr + 1 + int n = tk_end t \<and> \<not> erange \<and> 0 \<le> fracpart \<and> (intpart < 360 \<or> fracpart = 0)))))"

definition lgtd_jsonrpc_type_number :: "jsmntok_t \<Rightarrow> string \<Rightarrow> bool" where
  "lgtd_jsonrpc_type_number t json =
     (if tk_type t \<noteq> JSMN_PRIMITIVE then False
      else (let c = json_char json (tk_start t) in c = CHR ''-'' \<or> isdigit c))"

definition lgtd_jsonrpc_type_bool :: "jsmntok_t \<Rightarrow> string \<Rightarrow> bool" where
  "lgtd_jsonrpc_type_bool t json =
     (if tk_type t \<noteq> JSMN_PRIMITIVE then False
      else (let c = json_char json (tk_start t) in c = CHR ''t'' \<or> c = CHR ''f''))"

text \<open>The function returns what \<open>memcmp\<close> returns: true for text that differs. \<open>sizeof("null")\<close> is five.\<close>

definition lgtd_jsonrpc_type_null :: "jsmntok_t \<Rightarrow> string \<Rightarrow> bool" where
  "lgtd_jsonrpc_type_null t json =
     (let n = nat (min (tk_size t) 5)
      in take n (json_at json (tk_start t)) \<noteq> take n (''null'' @ [CHR 0x00]))"

definition lgtd_jsonrpc_type_string :: "jsmntok_t \<Rightarrow> string \<Rightarrow> bool" where
  "lgtd_jsonrpc_type_string t json \<longleftrightarrow> tk_type t = JSMN_STRING"

definition lgtd_jsonrpc_type_array :: "jsmntok_t \<Rightarrow> string \<Rightarrow> bool" where
  "lgtd_jsonrpc_type_array t json \<longleftrightarrow> tk_type t = JSMN_ARRAY"

definition lgtd_jsonrpc_type_object :: "jsmntok_t \<Rightarrow> string \<Rightarrow> bool" where
  "lgtd_jsonrpc_type_object t json \<longleftrightarrow> tk_type t = JSMN_OBJECT"

definition lgtd_jsonrpc_type_object_or_array :: "jsmntok_t \<Rightarrow> string \<Rightarrow> bool" where
  "lgtd_jsonrpc_type_object_or_array t json \<longleftrightarrow> tk_type t = JSMN_OBJECT \<or> tk_type t = JSMN_ARRAY"

definition lgtd_jsonrpc_type_string_number_or_null :: "jsmntok_t \<Rightarrow> string \<Rightarrow> bool" where
  "lgtd_jsonrpc_type_string_number_or_null t json \<longleftrightarrow>
     lgtd_jsonrpc_type_number t json \<or> lgtd_jsonrpc_type_null t json \<or> lgtd_jsonrpc_type_string t json"

definition lgtd_jsonrpc_type_string_or_number :: "jsmntok_t \<Rightarrow> string \<Rightarrow> bool" where
  "lgtd_jsonrpc_type_string_or_number t json \<longleftrightarrow> lgtd_jsonrpc_type_string t json \<or> lgtd_jsonrpc_type_number t json"

definition lgtd_jsonrpc_type_string_or_array :: "jsmntok_t \<Rightarrow> string \<Rightarrow> bool" where
  "lgtd_jsonrpc_type_string_or_array t json \<longleftrightarrow> lgtd_jsonrpc_type_string t json \<or> lgtd_jsonrpc_type_array t json"

definition lgtd_jsonrpc_type_string_number_or_array :: "jsmntok_t \<Rightarrow> string \<Rightarrow> bool" where
  "lgtd_jsonrpc_type_string_number_or_array t json \<longleftrightarrow>
     lgtd_jsonrpc_type_string t json \<or> lgtd_jsonrpc_type_number t json \<or> lgtd_jsonrpc_type_array t json"

subsection \<open>Decimal numbers and 16 bit integers\<close>

abbreviation LGTD_JSONRPC_FLOAT_PREC :: int where "LGTD_JSONRPC_FLOAT_PREC \<equiv> 1000000"

text \<open>The digits after the dot, each times its power of ten, down to a millionth.\<close>

fun frac_part :: "string \<Rightarrow> int \<Rightarrow> int" where
  "frac_part [] multiplier = 0"
| "frac_part (c # cs) multiplier =
     (if multiplier = 0 then 0
      else (int (ord c) - int (ord (CHR ''0''))) * multiplier + frac_part cs (multiplier div 10))"

text \<open>C division truncates. The first \<open>len\<close> characters of \<open>s\<close> are the number.\<close>

definition c_div :: "int \<Rightarrow> int \<Rightarrow> int" where
  "c_div a b = (if 0 \<le> a then a div b else - ((- a) div b))"

definition lgtd_jsonrpc_float_range_to_uint16 :: "string \<Rightarrow> nat \<Rightarrow> int \<Rightarrow> int \<Rightarrow> int option" where
  "lgtd_jsonrpc_float_range_to_uint16 s len start stop =
     do {
       c_assert (0 < len);
       c_assert (start < stop);
       let range = stop * LGTD_JSONRPC_FLOAT_PREC - start * LGTD_JSONRPC_FLOAT_PREC;
       let (v, dot, erange) = strtol s;
       let intpart = v * LGTD_JSONRPC_FLOAT_PREC;
       let fracpart = (if dot \<noteq> len \<and> dot < length s \<and> s ! dot = CHR ''.''
                       then frac_part (take (len - (dot + 1)) (drop (dot + 1) s)) (LGTD_JSONRPC_FLOAT_PREC div 10)
                       else 0);
       Some (c_div ((intpart + fracpart) * UINT16_MAX) range)
     }"

text \<open>The largest power of ten that is not above the value, and the loops that print it.\<close>

function top_multiplier :: "int \<Rightarrow> int \<Rightarrow> int" where
  "top_multiplier value multiplier =
     (if 0 < multiplier \<and> 0 < value div (multiplier * 10) then top_multiplier value (multiplier * 10) else multiplier)"
  by pat_completeness auto
termination
  by (relation "measure (\<lambda>(value, multiplier). nat (value - multiplier))") (auto simp: pos_imp_zdiv_pos_iff)

declare top_multiplier.simps [simp del]

definition put :: "nat \<Rightarrow> char \<Rightarrow> string \<Rightarrow> string" where
  "put bufsz c out = (if length out \<noteq> bufsz then out @ [c] else out)"

function leading_zeros :: "nat \<Rightarrow> int \<Rightarrow> int \<Rightarrow> string \<Rightarrow> string" where
  "leading_zeros bufsz multiplier divider out =
     (if 0 < divider \<and> 0 \<le> multiplier \<and> multiplier < LGTD_JSONRPC_FLOAT_PREC div divider \<and> length out \<noteq> bufsz
      then leading_zeros bufsz multiplier (divider * 10) (out @ ''0'') else out)"
  by pat_completeness auto
termination
proof (relation "measure (\<lambda>(bufsz, multiplier, divider, out). nat (1000001 - divider))", simp)
  fix bufsz :: nat and multiplier divider :: int and out :: string
  assume "0 < divider \<and> 0 \<le> multiplier \<and> multiplier < LGTD_JSONRPC_FLOAT_PREC div divider \<and> length out \<noteq> bufsz"
  then have "0 < divider" "0 < LGTD_JSONRPC_FLOAT_PREC div divider" by auto
  then have "divider \<le> 1000000" by (simp add: pos_imp_zdiv_pos_iff)
  with \<open>0 < divider\<close>
  show "((bufsz, multiplier, divider * 10, out @ ''0''), (bufsz, multiplier, divider, out))
      \<in> measure (\<lambda>(bufsz, multiplier, divider, out). nat (1000001 - divider))" by simp
qed

declare leading_zeros.simps [simp del]

text \<open>The values are not negative here, so \<open>div\<close> is the division of C.\<close>

function print_digits :: "nat \<Rightarrow> int \<Rightarrow> int \<Rightarrow> string \<Rightarrow> string" where
  "print_digits bufsz value multiplier out =
     (let out = (if multiplier = LGTD_JSONRPC_FLOAT_PREC div 10
                 then put bufsz (CHR ''.'') (if out = [] then ''0'' else out) else out);
          out = put bufsz (char_of (int (ord (CHR ''0'')) + value div multiplier)) out;
          value' = value - value div multiplier * multiplier;
          multiplier' = multiplier div 10
      in if (value' \<noteq> 0 \<or> LGTD_JSONRPC_FLOAT_PREC \<le> multiplier') \<and> 0 < multiplier' \<and> length out \<noteq> bufsz
         then print_digits bufsz value' multiplier' out else out)"
  by pat_completeness auto
termination
  by (relation "measure (\<lambda>(bufsz, value, multiplier, out). nat multiplier)") auto

declare print_digits.simps [simp del]

definition lgtd_jsonrpc_uint16_range_to_float_string :: "u16 \<Rightarrow> int \<Rightarrow> int \<Rightarrow> nat \<Rightarrow> string option" where
  "lgtd_jsonrpc_uint16_range_to_float_string encoded start stop bufsz =
     do {
       c_assert (1 < bufsz);
       c_assert (start < stop);
       let range = stop * LGTD_JSONRPC_FLOAT_PREC - start * LGTD_JSONRPC_FLOAT_PREC;
       let value = uint encoded * range div UINT16_MAX;
       if value = 0 then Some ''0''
       else do {
         let multiplier = top_multiplier value 1;
         let out = (if multiplier < LGTD_JSONRPC_FLOAT_PREC div 10
                    then leading_zeros bufsz multiplier 10 (put bufsz (CHR ''.'') ''0'') else '''');
         let out = print_digits bufsz value multiplier out;
         c_assert (length out \<le> bufsz);
         Some (take (bufsz - 1) out)
       }
     }"

end
