(* ===== verification/Proto.thy ===== *)
theory Proto
  imports Router Jsonrpc_Values
begin

text \<open>
  The commands of the API (\<open>src/core/proto.c\<close>) with the printing functions of \<open>src/core/utils.c\<close> they use. A command
  takes the client, the list of its targets and the world, and returns the client, with what was
  written to it, and the world.
\<close>

unbundle bit_operations_syntax

type_synonym command = "lgtd_client \<Rightarrow> string list \<Rightarrow> lgtd_world \<Rightarrow> (lgtd_client \<times> lgtd_world) option"

definition SEND_RESULT :: "lgtd_client \<Rightarrow> bool \<Rightarrow> lgtd_client option" where
  "SEND_RESULT client ok = lgtd_client_send_response (if ok then ''true'' else ''false'') client"

text \<open>A command that sends one packet to its targets and answers whether all the targets are valid.\<close>

definition route_and_answer :: "u16 \<Rightarrow> bytes \<Rightarrow> command" where
  "route_and_answer pkt_type pkt client targets w =
     do {
       (ok, w) \<leftarrow> lgtd_router_send targets pkt_type (Some pkt) w;
       client \<leftarrow> SEND_RESULT client ok;
       Some (client, w)
     }"

subsection \<open>Power\<close>

definition lgtd_proto_power_on :: command where
  "lgtd_proto_power_on client targets w =
     route_and_answer LGTD_LIFX_SET_POWER_STATE (power_state_bytes (w_be w) \<lparr>ps_power = LGTD_LIFX_POWER_ON\<rparr>)
       client targets w"

definition lgtd_proto_power_off :: command where
  "lgtd_proto_power_off client targets w =
     route_and_answer LGTD_LIFX_SET_POWER_STATE (power_state_bytes (w_be w) \<lparr>ps_power = LGTD_LIFX_POWER_OFF\<rparr>)
       client targets w"

definition toggle_device :: "bulb_addr \<Rightarrow> lgtd_world \<Rightarrow> lgtd_world option" where
  "toggle_device bulb w =
     do {
       b \<leftarrow> find_bulb bulb w;
       lgtd_router_send_to_device bulb LGTD_LIFX_SET_POWER_STATE
         (Some (power_state_bytes (w_be w) \<lparr>ps_power = NOT (ls_power (b_state b))\<rparr>)) w
     }"

definition lgtd_proto_power_toggle :: command where
  "lgtd_proto_power_toggle client targets w =
     do {
       (devices, w) \<leftarrow> lgtd_router_targets_to_devices targets w;
       case devices of
         None \<Rightarrow> do {
           client \<leftarrow> lgtd_client_send_error LGTD_JSONRPC_INTERNAL_ERROR ''couldn't allocate memory'' client;
           Some (client, w)
         }
       | Some devices \<Rightarrow> do {
           w \<leftarrow> foreach toggle_device devices w;
           client \<leftarrow> SEND_RESULT client True;
           Some (client, w)
         }
     }"

subsection \<open>Colours and waveforms\<close>

definition lgtd_proto_set_light_from_hsbk :: "int \<Rightarrow> int \<Rightarrow> int \<Rightarrow> int \<Rightarrow> int \<Rightarrow> command" where
  "lgtd_proto_set_light_from_hsbk hue saturation brightness kelvin transition_msecs client targets w =
     do {
       c_assert (0 \<le> hue \<and> hue \<le> UINT16_MAX);
       c_assert (0 \<le> saturation \<and> saturation \<le> UINT16_MAX);
       c_assert (0 \<le> brightness \<and> brightness \<le> UINT16_MAX);
       c_assert (2500 \<le> kelvin \<and> kelvin \<le> 9000);
       c_assert (0 \<le> transition_msecs);
       let pkt = \<lparr>lc_stream = 0, lc_hue = of_int hue, lc_saturation = of_int saturation,
                  lc_brightness = of_int brightness, lc_kelvin = of_int kelvin, lc_transition = of_int transition_msecs\<rparr>;
       route_and_answer LGTD_LIFX_SET_LIGHT_COLOR
         (light_color_bytes (w_be w) (lgtd_lifx_wire_encode_light_color (w_be w) pkt)) client targets w
     }"

text \<open>\<open>cycles >= 0\<close> for the bits of a single precision number: not negative (or minus zero) and not a NaN.\<close>

definition float_nonneg :: "u32 \<Rightarrow> bool" where
  "float_nonneg p \<longleftrightarrow> p AND 0x7FFFFFFF \<le> 0x7F800000 \<and> (\<not> bit p 31 \<or> p = 0x80000000)"

definition lgtd_proto_set_waveform ::
  "nat \<Rightarrow> int \<Rightarrow> int \<Rightarrow> int \<Rightarrow> int \<Rightarrow> int \<Rightarrow> u32 \<Rightarrow> int \<Rightarrow> bool \<Rightarrow> command" where
  "lgtd_proto_set_waveform waveform hue saturation brightness kelvin period cycles skew_ratio transient client targets w =
     do {
       c_assert (0 \<le> hue \<and> hue \<le> UINT16_MAX);
       c_assert (0 \<le> saturation \<and> saturation \<le> UINT16_MAX);
       c_assert (0 \<le> brightness \<and> brightness \<le> UINT16_MAX);
       c_assert (2500 \<le> kelvin \<and> kelvin \<le> 9000);
       c_assert (waveform \<le> 4);
       c_assert (-32767 \<le> skew_ratio \<and> skew_ratio \<le> 32768);
       c_assert (0 \<le> period);
       c_assert (float_nonneg cycles);
       let pkt = \<lparr>wf_stream = 0, wf_transient = of_bool transient, wf_hue = of_int hue,
                  wf_saturation = of_int saturation, wf_brightness = of_int brightness, wf_kelvin = of_int kelvin,
                  wf_period = of_int period, wf_cycles = cycles, wf_skew_ratio = of_int skew_ratio,
                  wf_waveform = of_nat waveform\<rparr>;
       route_and_answer LGTD_LIFX_SET_WAVEFORM
         (waveform_bytes (w_be w) (lgtd_lifx_wire_encode_waveform (w_be w) pkt)) client targets w
     }"

subsection \<open>Labels and tags\<close>

definition lgtd_proto_set_label :: "string \<Rightarrow> command" where
  "lgtd_proto_set_label label client targets w =
     route_and_answer LGTD_LIFX_SET_BULB_LABEL
       (label_bytes \<lparr>pl_label = c_strncpy (cstr label) LGTD_LIFX_LABEL_SIZE\<rparr>) client targets w"

text \<open>First the tag ids: each gateway of the devices gets one for the tag, unless there is none left.\<close>

fun allocate_tag_ids :: "tag_ptr \<Rightarrow> string \<Rightarrow> bulb_addr list \<Rightarrow> lgtd_world \<Rightarrow> (bool \<times> lgtd_world) option" where
  "allocate_tag_ids tag tag_label [] w = Some (True, w)"
| "allocate_tag_ids tag tag_label (device # devices) w =
     do {
       b \<leftarrow> find_bulb device w;
       g \<leftarrow> find_gw (b_gw b) w;
       if lgtd_lifx_gateway_get_tag_id tag g = -1
       then do {
         (tag_id, w) \<leftarrow> lgtd_lifx_gateway_allocate_tag_id (b_gw b) (-1) tag_label w;
         if tag_id = -1 then Some (False, w) else allocate_tag_ids tag tag_label devices w
       }
       else allocate_tag_ids tag tag_label devices w
     }"

text \<open>Then the label of the id on every gateway that has the tag.\<close>

definition send_tag_label :: "string \<Rightarrow> lgtd_lifx_site \<Rightarrow> lgtd_world \<Rightarrow> lgtd_world option" where
  "send_tag_label tag_label site w =
     do {
       c_assert (s_tag_id site < LGTD_LIFX_GATEWAY_MAX_TAGS);
       let pkt = \<lparr>tl_tags = LGTD_LIFX_WIRE_TAG_ID_TO_VALUE (s_tag_id site),
                  tl_label = c_strncpy (cstr tag_label) (LGTD_LIFX_LABEL_SIZE - 1) @ [CHR 0x00]\<rparr>;
       g \<leftarrow> find_gw (s_gw site) w;
       g \<leftarrow> lgtd_lifx_gateway_send_to_site (w_be w) (w_client_id w) LGTD_LIFX_SET_TAG_LABELS
              (Some (tag_labels_bytes (w_be w) (lgtd_lifx_wire_encode_tag_labels (w_be w) pkt))) g;
       Some (upd_gw (s_gw site) g w)
     }"

text \<open>\<open>int tag_value\<close>: the value of a tag id cut to 32 bits, sign-extended when it meets the 64 bit tags of a bulb.\<close>

definition int_tag_value :: "nat \<Rightarrow> u64" where
  "int_tag_value tag_id = scast (ucast (LGTD_LIFX_WIRE_TAG_ID_TO_VALUE tag_id) :: u32)"

definition tag_device :: "tag_ptr \<Rightarrow> bulb_addr \<Rightarrow> lgtd_world \<Rightarrow> lgtd_world option" where
  "tag_device tag bulb w =
     do {
       b \<leftarrow> find_bulb bulb w;
       g \<leftarrow> find_gw (b_gw b) w;
       let tag_id = lgtd_lifx_gateway_get_tag_id tag g;
       c_assert (-1 < tag_id \<and> tag_id < int LGTD_LIFX_GATEWAY_MAX_TAGS);
       let tag_value = int_tag_value (nat tag_id);
       if ls_tags (b_state b) AND tag_value = 0
       then lgtd_router_send_to_device bulb LGTD_LIFX_SET_TAGS
              (Some (tags_bytes (w_be w) (lgtd_lifx_wire_encode_tags (w_be w)
                 \<lparr>pt_tags = ls_tags (b_state b) OR tag_value\<rparr>))) w
       else Some w
     }"

definition error_site_alloc :: "tag_ptr \<Rightarrow> lgtd_world \<Rightarrow> lgtd_world option" where
  "error_site_alloc tag w =
     do {
       t \<leftarrow> map_of (w_tags w) tag;
       if t_sites t = [] then lgtd_lifx_tagging_deallocate_tag tag w
       else foreach (\<lambda>site. lgtd_lifx_gateway_deallocate_tag_id (s_gw site) (int (s_tag_id site))) (t_sites t) w
     }"

definition error_tag_alloc :: "lgtd_client \<Rightarrow> lgtd_client option" where
  "error_tag_alloc client =
     lgtd_client_send_error LGTD_JSONRPC_INTERNAL_ERROR ''couldn't allocate new tag'' client"

definition lgtd_proto_tag :: "string \<Rightarrow> command" where
  "lgtd_proto_tag tag_label client targets w =
     do {
       (devices, w) \<leftarrow> lgtd_router_targets_to_devices targets w;
       case devices of
         None \<Rightarrow> do { client \<leftarrow> error_tag_alloc client; Some (client, w) }
       | Some devices \<Rightarrow> do {
           (tag, w) \<leftarrow> (case lgtd_lifx_tagging_find_tag tag_label w of
                         Some tag \<Rightarrow> Some (Some tag, w)
                       | None \<Rightarrow> lgtd_lifx_tagging_allocate_tag tag_label w);
           case tag of
             None \<Rightarrow> do { client \<leftarrow> error_tag_alloc client; Some (client, w) }
           | Some tag \<Rightarrow> do {
               (ok, w) \<leftarrow> allocate_tag_ids tag tag_label devices w;
               if \<not> ok
               then do {
                 w \<leftarrow> error_site_alloc tag w;
                 client \<leftarrow> error_tag_alloc client;
                 Some (client, w)
               }
               else do {
                 t \<leftarrow> map_of (w_tags w) tag;
                 w \<leftarrow> foreach (send_tag_label tag_label) (t_sites t) w;
                 w \<leftarrow> foreach (tag_device tag) devices w;
                 client \<leftarrow> SEND_RESULT client True;
                 Some (client, w)
               }
             }
         }
     }"

definition untag_device :: "tag_ptr \<Rightarrow> bulb_addr \<Rightarrow> lgtd_world \<Rightarrow> lgtd_world option" where
  "untag_device tag bulb w =
     do {
       b \<leftarrow> find_bulb bulb w;
       g \<leftarrow> find_gw (b_gw b) w;
       let tag_id = lgtd_lifx_gateway_get_tag_id tag g;
       if tag_id \<noteq> -1 \<and> ls_tags (b_state b) AND int_tag_value (nat tag_id) \<noteq> 0
       then lgtd_router_send_to_device bulb LGTD_LIFX_SET_TAGS
              (Some (tags_bytes (w_be w) (lgtd_lifx_wire_encode_tags (w_be w)
                 \<lparr>pt_tags = ls_tags (b_state b) AND NOT (int_tag_value (nat tag_id))\<rparr>))) w
       else Some w
     }"

definition lgtd_proto_untag :: "string \<Rightarrow> command" where
  "lgtd_proto_untag tag_label client targets w =
     (case lgtd_lifx_tagging_find_tag tag_label w of
        None \<Rightarrow> do { client \<leftarrow> SEND_RESULT client True; Some (client, w) }
      | Some tag \<Rightarrow> do {
          (devices, w) \<leftarrow> lgtd_router_targets_to_devices targets w;
          case devices of
            None \<Rightarrow> do {
              client \<leftarrow> lgtd_client_send_error LGTD_JSONRPC_INTERNAL_ERROR ''couldn't allocate memory'' client;
              Some (client, w)
            }
          | Some devices \<Rightarrow> do {
              w \<leftarrow> foreach (untag_device tag) devices w;
              client \<leftarrow> SEND_RESULT client True;
              Some (client, w)
            }
        })"

subsection \<open>The state of the bulbs\<close>

text \<open>
  What the C library prints is given: \<open>gmtime_r\<close>, \<open>%f\<close>, and the text of a socket address (\<open>gw->peeraddr\<close>, made
  with \<open>inet_ntop\<close>). \<open>pe_debug\<close> says that the verbosity is \<open>LGTD_DEBUG\<close>.
\<close>

record tm =
  tm_year :: int
  tm_mon :: int
  tm_mday :: int
  tm_hour :: int
  tm_min :: int
  tm_sec :: int
  tm_gmtoff :: int

record print_env =
  pe_debug :: bool
  pe_gmtime_r :: "int \<Rightarrow> tm option"
  pe_float :: "u32 \<Rightarrow> string"
  pe_peeraddr :: "bytes \<Rightarrow> string"

text \<open>\<open>%02d\<close>\<close>

definition print_2 :: "int \<Rightarrow> string" where
  "print_2 i = (let s = print_int i in if length s < 2 then CHR ''0'' # s else s)"

definition LGTD_TM_TO_ISOTIME :: "tm \<Rightarrow> nat \<Rightarrow> int \<Rightarrow> string" where
  "LGTD_TM_TO_ISOTIME tm bufsz usec =
     take (bufsz - 1)
       (print_int (1900 + tm_year tm) @ ''-'' @ print_2 (1 + tm_mon tm) @ ''-'' @ print_2 (tm_mday tm) @ ''T''
        @ print_2 (tm_hour tm) @ '':'' @ print_2 (tm_min tm) @ '':'' @ print_2 (tm_sec tm)
        @ (if usec \<noteq> 0 then ''.'' @ print_int usec else '''')
        @ (if 0 \<le> tm_gmtoff tm then ''+'' else ''-'')
        @ print_2 \<bar>c_div (c_div (tm_gmtoff tm) 60) 60\<bar> @ '':''
        @ print_2 (tm_gmtoff tm - 3600 * c_div (tm_gmtoff tm) 3600))"

definition lgtd_print_nsec_timestamp :: "(int \<Rightarrow> tm option) \<Rightarrow> u64 \<Rightarrow> nat \<Rightarrow> string" where
  "lgtd_print_nsec_timestamp gmtime_r nsec_ts bufsz =
     (let ts = uint nsec_ts div 1000000000 in
      case gmtime_r ts of
        Some tm_utc \<Rightarrow> (let usecs = (uint nsec_ts - ts * 1000000000) div 1000000 in LGTD_TM_TO_ISOTIME tm_utc bufsz usecs)
      | None \<Rightarrow> '''')"

definition lgtd_iee8023mactoa :: "bytes \<Rightarrow> string" where
  "lgtd_iee8023mactoa addr =
     print_hex_byte (addr ! 0) @ '':'' @ print_hex_byte (addr ! 1) @ '':'' @ print_hex_byte (addr ! 2) @ '':''
     @ print_hex_byte (addr ! 3) @ '':'' @ print_hex_byte (addr ! 4) @ '':'' @ print_hex_byte (addr ! 5)"

definition lgtd_lifx_bulb_ip_names :: "lgtd_lifx_bulb_ips \<Rightarrow> string" where
  "lgtd_lifx_bulb_ip_names ip = (case ip of LGTD_LIFX_BULB_MCU_IP \<Rightarrow> ''mcu'' | LGTD_LIFX_BULB_WIFI_IP \<Rightarrow> ''wifi'')"

definition print_word :: "'a::len word \<Rightarrow> string" where
  "print_word x = print_unsigned (unat x)"

text \<open>The texts appended to the buffer for one bulb, in order.\<close>

definition firmware_version :: "u32 \<Rightarrow> string" where
  "firmware_version v = print_word (drop_bit 16 (v AND 0xffff0000)) @ ''.'' @ print_word (v AND 0xffff)"

definition ip_pieces :: "print_env \<Rightarrow> lgtd_lifx_bulb \<Rightarrow> lgtd_lifx_bulb_ips \<Rightarrow> string list" where
  "ip_pieces env b ip_id =
     (let ip = b_ips b ip_id; fw = ip_fw_info ip; st = ip_state ip in
      if pe_debug env
      then ['',\"'' @ lgtd_lifx_bulb_ip_names ip_id @ ''\":{\"firmware_built_at\":\"''
            @ lgtd_print_nsec_timestamp (pe_gmtime_r env) (fw_built_at fw) 64
            @ ''\",\"firmware_installed_at\":\"'' @ lgtd_print_nsec_timestamp (pe_gmtime_r env) (fw_installed_at fw) 64
            @ ''\",\"firmware_version\":\"'' @ firmware_version (fw_version fw)
            @ ''\",\"signal_strength\":'' @ pe_float env (is_signal_strength st)
            @ '',\"tx_bytes\":'' @ print_word (is_tx_bytes st) @ '',\"rx_bytes\":'' @ print_word (is_rx_bytes st)
            @ '',\"temperature\":'' @ print_word (is_temperature st) @ ''}'']
      else ['',\"'' @ lgtd_lifx_bulb_ip_names ip_id @ ''\":{\"firmware_version\":\"''
            @ firmware_version (fw_version fw) @ ''\"}''])"

definition info_pieces :: "print_env \<Rightarrow> lgtd_lifx_bulb \<Rightarrow> string list" where
  "info_pieces env b =
     (let pr = b_product_info b; ri = b_runtime_info b in
      if pe_debug env
      then ['',\"product_info\":{\"vendor_id\":\"'' @ print_hex (unat (pr_vendor_id pr))
            @ ''\",\"product_id\":\"'' @ print_hex (unat (pr_product_id pr)) @ ''\",\"version\":''
            @ print_word (pr_version pr) @ ''}'',
            '',\"runtime_info\":{\"time\":\"'' @ lgtd_print_nsec_timestamp (pe_gmtime_r env) (ri_time ri) 64
            @ ''\",\"uptime\":'' @ print_word (ri_uptime ri div 1000000000)
            @ '',\"downtime\":'' @ print_word (ri_downtime ri div 1000000000) @ ''}}'']
      else [''}''])"

definition PRINT_STRING_OR_NULL :: "string option \<Rightarrow> string" where
  "PRINT_STRING_OR_NULL v = (case v of Some s \<Rightarrow> ''\"'' @ s @ ''\"'' | None \<Rightarrow> ''null'')"

definition bulb_state_pieces ::
  "print_env \<Rightarrow> bulb_addr \<Rightarrow> lgtd_lifx_bulb \<Rightarrow> lgtd_lifx_gateway \<Rightarrow> string list option" where
  "bulb_state_pieces env addr b g =
     do {
       h \<leftarrow> lgtd_jsonrpc_uint16_range_to_float_string (ls_hue (b_state b)) 0 360 16;
       s \<leftarrow> lgtd_jsonrpc_uint16_range_to_float_string (ls_saturation (b_state b)) 0 1 16;
       br \<leftarrow> lgtd_jsonrpc_uint16_range_to_float_string (ls_brightness (b_state b)) 0 1 16;
       let label = (if cstr (ls_label (b_state b)) \<noteq> [] then cstr (ls_label (b_state b))
                    else concat (map print_hex_byte addr));
       Some
         ([''{\"_lifx\":{\"addr\":\"'' @ lgtd_iee8023mactoa addr @ ''\",\"gateway\":{\"site\":\"''
           @ lgtd_iee8023mactoa (g_site g) @ ''\",\"url\":\"tcp://'' @ pe_peeraddr env (g_peer g)
           @ ''\",\"latency\":'' @ print_word (lgtd_lifx_gateway_latency g) @ ''}'']
          @ ip_pieces env b LGTD_LIFX_BULB_MCU_IP @ ip_pieces env b LGTD_LIFX_BULB_WIFI_IP
          @ info_pieces env b
          @ ['',\"_model\":'', PRINT_STRING_OR_NULL (b_model b), '',\"_vendor\":'', PRINT_STRING_OR_NULL (b_vendor b),
             '',\"hsbk\":['' @ h @ '','' @ s @ '','' @ br @ '','' @ print_word (ls_kelvin (b_state b))
             @ ''],\"power\":'' @ (if ls_power (b_state b) = LGTD_LIFX_POWER_ON then ''true'' else ''false'')
             @ '',\"label\":\"'' @ label @ ''\",\"tags\":['' ])
     }"

text \<open>The tags of the bulb that its gateway knows.\<close>

definition write_tag :: "lgtd_world \<Rightarrow> lgtd_lifx_gateway \<Rightarrow> nat \<Rightarrow> bool \<times> lgtd_client \<Rightarrow> (bool \<times> lgtd_client) option" where
  "write_tag w g tag_id s =
     (case s of (comma, client) \<Rightarrow>
        if LGTD_LIFX_WIRE_TAG_ID_TO_VALUE tag_id AND g_tag_ids g \<noteq> 0
        then do {
          tag \<leftarrow> g_tags g ! tag_id;
          t \<leftarrow> map_of (w_tags w) tag;
          let client = lgtd_client_write_string (if comma then '',\"'' else ''\"'') client;
          let client = lgtd_client_write_string (t_label t) client;
          let client = lgtd_client_write_string ''\"'' client;
          Some (True, client)
        }
        else Some (comma, client))"

fun write_devices :: "print_env \<Rightarrow> lgtd_world \<Rightarrow> bulb_addr list \<Rightarrow> lgtd_client \<Rightarrow> lgtd_client option" where
  "write_devices env w [] client = Some client"
| "write_devices env w (addr # devices) client =
     do {
       b \<leftarrow> find_bulb addr w;
       g \<leftarrow> find_gw (b_gw b) w;
       pieces \<leftarrow> bulb_state_pieces env addr b g;
       let (buf, i) = fold (LGTD_SNPRINTF_APPEND 2048) pieces ('''', 0);
       if 2048 \<le> i then write_devices env w devices client
       else do {
         let client = lgtd_client_write_string buf client;
         (comma, client) \<leftarrow> LGTD_LIFX_WIRE_FOREACH_TAG_ID (write_tag w g) (ls_tags (b_state b)) (False, client);
         let client = lgtd_client_write_string (if devices \<noteq> [] then '']},'' else '']}'') client;
         write_devices env w devices client
       }
     }"

definition lgtd_proto_get_light_state :: "print_env \<Rightarrow> command" where
  "lgtd_proto_get_light_state env client targets w =
     do {
       (devices, w) \<leftarrow> lgtd_router_targets_to_devices targets w;
       case devices of
         None \<Rightarrow> do {
           client \<leftarrow> lgtd_client_send_error LGTD_JSONRPC_INTERNAL_ERROR ''couldn't allocate device list'' client;
           Some (client, w)
         }
       | Some devices \<Rightarrow> do {
           client \<leftarrow> lgtd_client_start_send_response client;
           let client = lgtd_client_write_string ''['' client;
           client \<leftarrow> write_devices env w devices client;
           let client = lgtd_client_write_string '']'' client;
           Some (lgtd_client_end_send_response client, w)
         }
     }"

end
