(* ===== verification/Jsonrpc.thy ===== *)
theory Jsonrpc
  imports Proto
begin

text \<open>
  JSON-RPC requests (\<open>src/core/jsonrpc.c\<close>): a request is a list of tokens (the array \<open>client->jsmn_tokens\<close>), of which a
  schema picks the values of a method; pointers to tokens are indexes of the array. Reading a token past the
  end of the array, a null pointer or a failed assertion have no result.
\<close>

subsection \<open>Schemas\<close>

text \<open>
  A schema has one node for each key. \<open>nd_value\<close> and \<open>nd_ntokens\<close> say that the value and the number of its tokens are
  stored (their offset is not -1); the output maps the keys to what was stored.
\<close>

record lgtd_jsonrpc_node =
  nd_key :: string
  nd_value :: bool
  nd_ntokens :: bool
  nd_type_cmp :: "jsmntok_t \<Rightarrow> string \<Rightarrow> bool"
  nd_optional :: bool

definition LGTD_JSONRPC_NODE ::
  "string \<Rightarrow> bool \<Rightarrow> bool \<Rightarrow> (jsmntok_t \<Rightarrow> string \<Rightarrow> bool) \<Rightarrow> bool \<Rightarrow> lgtd_jsonrpc_node" where
  "LGTD_JSONRPC_NODE key val ntokens type_cmp optional =
     \<lparr>nd_key = key, nd_value = val, nd_ntokens = ntokens, nd_type_cmp = type_cmp, nd_optional = optional\<rparr>"

record jsonrpc_output =
  out_values :: "(string \<times> int) list"
  out_ntokens :: "(string \<times> int) list"

definition no_output :: jsonrpc_output where
  "no_output = \<lparr>out_values = [], out_ntokens = []\<rparr>"

subsection \<open>Skipping a container\<close>

text \<open>The loop of \<open>lgtd_jsonrpc_consume_object_or_array\<close> over the members of a container, which calls itself on the
  containers among them.\<close>

function consume_members ::
  "jsmntok_t list \<Rightarrow> int \<Rightarrow> int \<Rightarrow> jsmntype_t \<Rightarrow> int \<Rightarrow> int \<Rightarrow> int option" where
  "consume_members tokens base parsed container_type objsize ti =
     (if objsize \<noteq> 0 \<and> ti < parsed
      then do {
        let ti' = (if container_type = JSMN_OBJECT then ti + 1 else ti);
        t \<leftarrow> token_at tokens (base + ti');
        ti'' \<leftarrow> (if tk_type t = JSMN_OBJECT \<or> tk_type t = JSMN_ARRAY
                 then (if ti' < parsed then consume_members tokens base parsed (tk_type t) (tk_size t) (ti' + 1) else None)
                 else Some (ti' + 1));
        consume_members tokens base parsed container_type (objsize - 1) ti''
      }
      else Some ti)"
  by pat_completeness auto

text \<open>The index never goes back, whatever the rounds do that the loop is made of.\<close>

lemma members_round_grows:
  assumes "do {
      t \<leftarrow> (tok :: jsmntok_t option);
      ti2 \<leftarrow> (if p t then (if q then members t else None) else Some (ti1 + 1));
      rest t ti2
    } = Some r"
    and "ti \<le> ti1"
    and "\<And>t r. tok = Some t \<Longrightarrow> p t \<Longrightarrow> q \<Longrightarrow> members t = Some r \<Longrightarrow> ti1 + 1 \<le> r"
    and "\<And>t ti2 r. tok = Some t \<Longrightarrow> (if p t then (if q then members t else None) else Some (ti1 + 1)) = Some ti2
           \<Longrightarrow> rest t ti2 = Some r \<Longrightarrow> ti2 \<le> r"
  shows "ti \<le> (r :: int)"
proof -
  from assms(1) obtain t ti2 where t: "tok = Some t"
    "(if p t then (if q then members t else None) else Some (ti1 + 1)) = Some ti2" "rest t ti2 = Some r"
    by (auto simp: bind_eq_Some_conv)
  have "ti1 + 1 \<le> ti2" using assms(3) [OF t(1)] t(2) by (auto split: if_splits)
  with assms(2) assms(4) [OF t] show ?thesis by simp
qed

lemma consume_members_grows:
  "consume_members_dom (tokens, base, parsed, container_type, objsize, ti) \<Longrightarrow>
   consume_members tokens base parsed container_type objsize ti = Some ti' \<Longrightarrow> ti \<le> ti'"
proof (induction tokens base parsed container_type objsize ti arbitrary: ti' rule: consume_members.pinduct)
  case (1 tokens base parsed container_type objsize ti)
  show ?case
  proof (cases "objsize \<noteq> 0 \<and> ti < parsed")
    case True
    from "1.prems" show ?thesis
      unfolding consume_members.psimps [OF 1(1)] Let_def if_P [OF True]
      by (rule members_round_grows) (use 1(2,3) [OF True refl] in \<open>auto split: if_splits\<close>)
  qed (use 1 in \<open>auto simp: consume_members.psimps\<close>)
qed

termination consume_members
  by (relation "measure (\<lambda>(tokens, base, parsed, container_type, objsize, ti). nat (parsed - ti))")
    (auto split: if_splits dest!: consume_members_grows)

declare consume_members.simps [simp del]

lemma consume_members_le: "consume_members tokens base parsed container_type objsize ti = Some ti' \<Longrightarrow> ti \<le> ti'"
proof (induction tokens base parsed container_type objsize ti arbitrary: ti' rule: consume_members.induct)
  case (1 tokens base parsed container_type objsize ti)
  show ?case
  proof (cases "objsize \<noteq> 0 \<and> ti < parsed")
    case True
    from "1.prems" show ?thesis
      unfolding consume_members.simps [of tokens base parsed container_type objsize ti] Let_def if_P [OF True]
      by (rule members_round_grows) (use "1.IH" [OF True refl] in \<open>auto split: if_splits\<close>)
  qed (use 1 in \<open>auto simp: consume_members.simps [of tokens base parsed container_type objsize ti]\<close>)
qed

text \<open>\<open>base\<close> is the address of \<open>tokens[0]\<close> in the array; the result is an index relative to it.\<close>

definition lgtd_jsonrpc_consume_object_or_array :: "jsmntok_t list \<Rightarrow> int \<Rightarrow> int \<Rightarrow> int \<Rightarrow> string \<Rightarrow> int option" where
  "lgtd_jsonrpc_consume_object_or_array tokens base ti parsed json =
     do {
       t \<leftarrow> token_at tokens (base + ti);
       c_assert (lgtd_jsonrpc_type_object_or_array t json);
       c_assert (ti < parsed);
       consume_members tokens base parsed (tk_type t) (tk_size t) (ti + 1)
     }"

definition skip_value :: "jsmntok_t list \<Rightarrow> int \<Rightarrow> int \<Rightarrow> int \<Rightarrow> string \<Rightarrow> int option" where
  "skip_value tokens base ti ntokens json =
     do {
       t \<leftarrow> token_at tokens (base + ti);
       if tk_type t = JSMN_OBJECT \<or> tk_type t = JSMN_ARRAY
       then lgtd_jsonrpc_consume_object_or_array tokens base ti ntokens json
       else Some (ti + 1)
     }"

lemma skip_value_grows: "skip_value tokens base ti ntokens json = Some ti' \<Longrightarrow> ti < ti'"
  by (force dest: consume_members_le simp: skip_value_def lgtd_jsonrpc_consume_object_or_array_def bind_eq_Some_conv split: if_splits)

subsection \<open>Picking the values of a schema\<close>

text \<open>
  One round of the loop over the keys of an object, for the key at index \<open>ti\<close>: whether the pair is accepted, the
  output so far, and the index of the next key.
\<close>

definition matches_key :: "string \<Rightarrow> jsmntok_t \<Rightarrow> lgtd_jsonrpc_node \<Rightarrow> bool" where
  "matches_key json t node \<longleftrightarrow> int (length (nd_key node)) = LGTD_JSONRPC_TOKEN_LEN t \<and> token_text json t = nd_key node"

definition store_value :: "lgtd_jsonrpc_node \<Rightarrow> int \<Rightarrow> jsonrpc_output \<Rightarrow> jsonrpc_output" where
  "store_value node i outp =
     (if nd_value node then outp\<lparr>out_values := (nd_key node, i) # out_values outp\<rparr> else outp)"

definition store_ntokens :: "lgtd_jsonrpc_node \<Rightarrow> int \<Rightarrow> jsonrpc_output \<Rightarrow> jsonrpc_output" where
  "store_ntokens node n outp =
     (if nd_ntokens node then outp\<lparr>out_ntokens := (nd_key node, n) # out_ntokens outp\<rparr> else outp)"

definition extract_pair ::
  "lgtd_jsonrpc_node list \<Rightarrow> jsmntok_t list \<Rightarrow> int \<Rightarrow> int \<Rightarrow> string \<Rightarrow> jsmntok_t \<Rightarrow> int \<Rightarrow> jsonrpc_output
   \<Rightarrow> (bool \<times> jsonrpc_output \<times> int) option" where
  "extract_pair schema tokens base ntokens json key ti outp =
     (case List.find (matches_key json key) schema of
        None \<Rightarrow> do { nexti \<leftarrow> skip_value tokens base (ti + 1) ntokens json; Some (True, outp, nexti) }
      | Some node \<Rightarrow> do {
          v \<leftarrow> token_at tokens (base + (ti + 1));
          if \<not> nd_type_cmp node v json
             \<or> nd_value node \<and> map_of (out_values outp) (nd_key node) \<noteq> None then Some (False, outp, ti + 1)
          else do {
            let outp = store_value node (base + (ti + 1)) outp;
            nexti \<leftarrow> skip_value tokens base (ti + 1) ntokens json;
            Some (True, store_ntokens node (nexti - (ti + 1)) outp, nexti)
          }
        })"

lemma extract_pair_grows:
  "extract_pair schema tokens base ntokens json key ti outp = Some (ok, outp', nexti) \<Longrightarrow> ti < nexti"
  by (auto simp: extract_pair_def Let_def bind_eq_Some_conv split: option.splits if_splits dest!: skip_value_grows)

function extract_pairs ::
  "lgtd_jsonrpc_node list \<Rightarrow> jsmntok_t list \<Rightarrow> int \<Rightarrow> int \<Rightarrow> string \<Rightarrow> int \<Rightarrow> jsonrpc_output
   \<Rightarrow> (bool \<times> jsonrpc_output) option" where
  "extract_pairs schema tokens base ntokens json ti outp =
     (if ti < ntokens
      then do {
        key \<leftarrow> token_at tokens (base + ti);
        if tk_type key \<noteq> JSMN_STRING then Some (True, outp)
        else do {
          (ok, outp, nexti) \<leftarrow> extract_pair schema tokens base ntokens json key ti outp;
          if ok then extract_pairs schema tokens base ntokens json nexti outp else Some (False, outp)
        }
      }
      else Some (True, outp))"
  by pat_completeness auto
termination
  by (relation "measure (\<lambda>(schema, tokens, base, ntokens, json, ti, outp). nat (ntokens - ti))")
    (auto dest!: extract_pair_grows)

declare extract_pairs.simps [simp del]

definition lgtd_jsonrpc_extract_values_from_schema_and_dict ::
  "lgtd_jsonrpc_node list \<Rightarrow> jsmntok_t list \<Rightarrow> int \<Rightarrow> int \<Rightarrow> string \<Rightarrow> jsonrpc_output
   \<Rightarrow> (bool \<times> jsonrpc_output) option" where
  "lgtd_jsonrpc_extract_values_from_schema_and_dict schema tokens base ntokens json outp =
     (if ntokens = 0 then Some (False, outp)
      else do {
        t \<leftarrow> token_at tokens base;
        if tk_type t \<noteq> JSMN_OBJECT then Some (False, outp)
        else do {
          (ok, outp) \<leftarrow> extract_pairs schema tokens base ntokens json 1 outp;
          Some (ok \<and> list_all (\<lambda>node. nd_optional node \<or> \<not> nd_value node
                                     \<or> map_of (out_values outp) (nd_key node) \<noteq> None) schema, outp)
        }
      })"

text \<open>The loop over an array: the schema left, the index and the size left, which the condition of the loop decrements.\<close>

fun extract_items ::
  "lgtd_jsonrpc_node list \<Rightarrow> jsmntok_t list \<Rightarrow> int \<Rightarrow> int \<Rightarrow> string \<Rightarrow> int \<Rightarrow> int \<Rightarrow> jsonrpc_output
   \<Rightarrow> (bool \<times> jsonrpc_output) option" where
  "extract_items [] tokens base ntokens json objsize ti outp = Some (objsize = 0, outp)"
| "extract_items (node # nodes) tokens base ntokens json objsize ti outp =
     (if ti < ntokens \<and> objsize \<noteq> 0
      then do {
        v \<leftarrow> token_at tokens (base + ti);
        if \<not> nd_type_cmp node v json then Some (False, outp)
        else do {
          let outp = store_value node (base + ti) outp;
          nexti \<leftarrow> skip_value tokens base ti ntokens json;
          extract_items nodes tokens base ntokens json (objsize - 1) nexti (store_ntokens node (nexti - ti) outp)
        }
      }
      else (let objsize = (if ti < ntokens then objsize - 1 else objsize)
            in Some (objsize = 0 \<or> nd_optional node, outp)))"

definition lgtd_jsonrpc_extract_values_from_schema_and_array ::
  "lgtd_jsonrpc_node list \<Rightarrow> jsmntok_t list \<Rightarrow> int \<Rightarrow> int \<Rightarrow> string \<Rightarrow> jsonrpc_output
   \<Rightarrow> (bool \<times> jsonrpc_output) option" where
  "lgtd_jsonrpc_extract_values_from_schema_and_array schema tokens base ntokens json outp =
     (if ntokens = 0 then Some (False, outp)
      else do {
        t \<leftarrow> token_at tokens base;
        if tk_type t \<noteq> JSMN_ARRAY then Some (False, outp)
        else extract_items schema tokens base ntokens json (tk_size t) 1 outp
      })"

text \<open>The parameters are a pointer to their first token, null when they were omitted.\<close>

definition lgtd_jsonrpc_extract_and_validate_params_against_schema ::
  "lgtd_jsonrpc_node list \<Rightarrow> jsmntok_t list \<Rightarrow> int option \<Rightarrow> int \<Rightarrow> string \<Rightarrow> (bool \<times> jsonrpc_output) option" where
  "lgtd_jsonrpc_extract_and_validate_params_against_schema schema tokens params ntokens json =
     (if ntokens = 0 then Some (list_all nd_optional schema, no_output)
      else do {
        base \<leftarrow> params;
        t \<leftarrow> token_at tokens base;
        if tk_type t = JSMN_OBJECT
        then lgtd_jsonrpc_extract_values_from_schema_and_dict schema tokens base ntokens json no_output
        else if tk_type t = JSMN_ARRAY
        then lgtd_jsonrpc_extract_values_from_schema_and_array schema tokens base ntokens json no_output
        else Some (False, no_output)
      })"

subsection \<open>Requests\<close>

definition request_schema :: "lgtd_jsonrpc_node list" where
  "request_schema =
     [LGTD_JSONRPC_NODE ''jsonrpc'' False False lgtd_jsonrpc_type_string False,
      LGTD_JSONRPC_NODE ''method'' True False lgtd_jsonrpc_type_string False,
      LGTD_JSONRPC_NODE ''params'' True True lgtd_jsonrpc_type_object_or_array True,
      LGTD_JSONRPC_NODE ''id'' True False lgtd_jsonrpc_type_string_number_or_null True]"

definition zero_request :: lgtd_jsonrpc_request where
  "zero_request = \<lparr>rq_method = None, rq_params = None, rq_params_ntokens = 0, rq_id = None, rq_request_ntokens = 0\<rparr>"

text \<open>Whether the request is valid, and the request with what was stored in it.\<close>

definition lgtd_jsonrpc_check_and_extract_request ::
  "jsmntok_t list \<Rightarrow> int \<Rightarrow> int \<Rightarrow> string \<Rightarrow> (bool \<times> lgtd_jsonrpc_request) option" where
  "lgtd_jsonrpc_check_and_extract_request tokens base ntokens json =
     do {
       (ok, outp) \<leftarrow> lgtd_jsonrpc_extract_values_from_schema_and_dict request_schema tokens base ntokens json no_output;
       let request = zero_request\<lparr>rq_method := map_of (out_values outp) ''method'',
                       rq_params := map_of (out_values outp) ''params'',
                       rq_params_ntokens := (case map_of (out_ntokens outp) ''params'' of Some n \<Rightarrow> n | None \<Rightarrow> 0),
                       rq_id := map_of (out_values outp) ''id''\<rparr>;
       if \<not> ok then Some (False, request)
       else Some (True, request\<lparr>rq_request_ntokens := 1 + 2 + 2
              + (if rq_params request \<noteq> None then 1 + rq_params_ntokens request else 0)
              + (if rq_id request \<noteq> None then 2 else 0)\<rparr>)
     }"

subsection \<open>Targets\<close>

text \<open>The tokens from the last one to the first: the list of targets, or the error that was sent.\<close>

fun build_targets ::
  "nat \<Rightarrow> int \<Rightarrow> string list \<Rightarrow> lgtd_client \<Rightarrow> lgtd_world
   \<Rightarrow> (string list option \<times> lgtd_client \<times> lgtd_world) option" where
  "build_targets 0 target targets client w = Some (Some targets, client, w)"
| "build_targets (Suc ti) target targets client w =
     do {
       t \<leftarrow> token_at (c_jsmn_tokens client) (target + int ti);
       if lgtd_jsonrpc_type_string_or_number t (c_json client)
       then do {
         let (ok, w) = ext_call w;
         if \<not> ok
         then do {
           client \<leftarrow> lgtd_jsonrpc_send_error LGTD_JSONRPC_INTERNAL_ERROR ''Can't allocate memory'' client;
           Some (None, client, w)
         }
         else build_targets ti target (token_text (c_json client) t # targets) client w
       }
       else do {
         client \<leftarrow> lgtd_jsonrpc_send_error LGTD_JSONRPC_INVALID_PARAMS ''Invalid parameters'' client;
         Some (None, client, w)
       }
     }"

definition lgtd_jsonrpc_build_target_list ::
  "int option \<Rightarrow> int \<Rightarrow> lgtd_client \<Rightarrow> lgtd_world \<Rightarrow> (string list option \<times> lgtd_client \<times> lgtd_world) option" where
  "lgtd_jsonrpc_build_target_list target target_ntokens client w =
     do {
       target \<leftarrow> target;
       if target_ntokens < 1 then Some (None, client, w)
       else do {
         t \<leftarrow> token_at (c_jsmn_tokens client) target;
         if lgtd_jsonrpc_type_array t (c_json client)
         then build_targets (nat (target_ntokens - 1)) (target + 1) [] client w
         else if target_ntokens \<noteq> 1 then Some (None, client, w)
         else build_targets 1 target [] client w
       }
     }"

subsection \<open>Methods\<close>

type_synonym rpc_method = "lgtd_client \<Rightarrow> lgtd_world \<Rightarrow> (lgtd_client \<times> lgtd_world) option"

definition error_invalid_params :: rpc_method where
  "error_invalid_params client w =
     do {
       client \<leftarrow> lgtd_jsonrpc_send_error LGTD_JSONRPC_INVALID_PARAMS ''Invalid parameters'' client;
       Some (client, w)
     }"

text \<open>The parameters of the current request.\<close>

definition extract_params :: "lgtd_jsonrpc_node list \<Rightarrow> lgtd_client \<Rightarrow> (bool \<times> jsonrpc_output) option" where
  "extract_params schema client =
     do {
       request \<leftarrow> c_current_request client;
       lgtd_jsonrpc_extract_and_validate_params_against_schema schema (c_jsmn_tokens client)
         (rq_params request) (rq_params_ntokens request) (c_json client)
     }"

definition param_token :: "jsonrpc_output \<Rightarrow> string \<Rightarrow> lgtd_client \<Rightarrow> jsmntok_t option" where
  "param_token params key client =
     do { i \<leftarrow> map_of (out_values params) key; token_at (c_jsmn_tokens client) i }"

definition param_ntokens :: "jsonrpc_output \<Rightarrow> string \<Rightarrow> int" where
  "param_ntokens params key = (case map_of (out_ntokens params) key of Some n \<Rightarrow> n | None \<Rightarrow> 0)"

text \<open>\<open>lgtd_jsonrpc_build_target_list\<close> on the target of the parameters, and the command on the list.\<close>

definition call_on_targets :: "jsonrpc_output \<Rightarrow> command \<Rightarrow> rpc_method" where
  "call_on_targets params cmd client w =
     do {
       (targets, client, w) \<leftarrow> lgtd_jsonrpc_build_target_list (map_of (out_values params) ''target'')
                                (param_ntokens params ''target'') client w;
       case targets of
         None \<Rightarrow> Some (client, w)
       | Some targets \<Rightarrow> cmd client targets w
     }"

definition float_param :: "jsonrpc_output \<Rightarrow> string \<Rightarrow> int \<Rightarrow> lgtd_client \<Rightarrow> int option" where
  "float_param params key stop client =
     do {
       t \<leftarrow> param_token params key client;
       lgtd_jsonrpc_float_range_to_uint16 (json_at (c_json client) (tk_start t)) (nat (LGTD_JSONRPC_TOKEN_LEN t)) 0 stop
     }"

text \<open>\<open>strtol\<close> on a parameter, converted to \<open>int\<close>, and whether it failed with \<open>ERANGE\<close>.\<close>

definition int_param :: "jsonrpc_output \<Rightarrow> string \<Rightarrow> lgtd_client \<Rightarrow> (int \<times> bool) option" where
  "int_param params key client =
     do {
       t \<leftarrow> param_token params key client;
       let (v, n, erange) = strtol (json_at (c_json client) (tk_start t));
       Some (int_of_long v, erange)
     }"

definition set_light_from_hsbk_schema :: "lgtd_jsonrpc_node list" where
  "set_light_from_hsbk_schema =
     [LGTD_JSONRPC_NODE ''target'' True True lgtd_jsonrpc_type_string_number_or_array False,
      LGTD_JSONRPC_NODE ''hue'' True False lgtd_jsonrpc_type_float_between_0_and_360 False,
      LGTD_JSONRPC_NODE ''saturation'' True False lgtd_jsonrpc_type_float_between_0_and_1 False,
      LGTD_JSONRPC_NODE ''brightness'' True False lgtd_jsonrpc_type_float_between_0_and_1 False,
      LGTD_JSONRPC_NODE ''kelvin'' True False lgtd_jsonrpc_type_integer False,
      LGTD_JSONRPC_NODE ''transition'' True False lgtd_jsonrpc_type_integer True]"

definition lgtd_jsonrpc_check_and_call_set_light_from_hsbk :: rpc_method where
  "lgtd_jsonrpc_check_and_call_set_light_from_hsbk client w =
     do {
       (ok, params) \<leftarrow> extract_params set_light_from_hsbk_schema client;
       if \<not> ok then error_invalid_params client w
       else do {
         h \<leftarrow> float_param params ''hue'' 360 client;
         s \<leftarrow> float_param params ''saturation'' 1 client;
         b \<leftarrow> float_param params ''brightness'' 1 client;
         (k, erange) \<leftarrow> int_param params ''kelvin'' client;
         if k < 2500 \<or> 9000 < k \<or> erange then error_invalid_params client w
         else do {
           (t, erange) \<leftarrow> (if map_of (out_values params) ''transition'' = None then Some (0, False)
                           else int_param params ''transition'' client);
           if t < 0 \<or> erange then error_invalid_params client w
           else call_on_targets params (lgtd_proto_set_light_from_hsbk h s b k t) client w
         }
       }
     }"

definition set_waveform_schema :: "lgtd_jsonrpc_node list" where
  "set_waveform_schema =
     [LGTD_JSONRPC_NODE ''target'' True True lgtd_jsonrpc_type_string_number_or_array False,
      LGTD_JSONRPC_NODE ''waveform'' True False lgtd_jsonrpc_type_string False,
      LGTD_JSONRPC_NODE ''hue'' True False lgtd_jsonrpc_type_float_between_0_and_360 False,
      LGTD_JSONRPC_NODE ''saturation'' True False lgtd_jsonrpc_type_float_between_0_and_1 False,
      LGTD_JSONRPC_NODE ''brightness'' True False lgtd_jsonrpc_type_float_between_0_and_1 False,
      LGTD_JSONRPC_NODE ''kelvin'' True False lgtd_jsonrpc_type_integer False,
      LGTD_JSONRPC_NODE ''period'' True False lgtd_jsonrpc_type_integer False,
      LGTD_JSONRPC_NODE ''cycles'' True False lgtd_jsonrpc_type_integer False,
      LGTD_JSONRPC_NODE ''skew_ratio'' True False lgtd_jsonrpc_type_float_between_0_and_1 False,
      LGTD_JSONRPC_NODE ''transient'' True False lgtd_jsonrpc_type_bool True]"

text \<open>The conversion of a positive \<open>int\<close> to \<open>float\<close>: 24 bits, rounded to the nearest, ties to even.\<close>

fun bit_length :: "nat \<Rightarrow> nat" where
  "bit_length n = (if n = 0 then 0 else Suc (bit_length (n div 2)))"

declare bit_length.simps [simp del]

definition float_of_int :: "int \<Rightarrow> u32" where
  "float_of_int i =
     (if i \<le> 0 then 0
      else (let e = bit_length (nat i) - 1;
                m = (if e \<le> 23 then i * 2 ^ (23 - e)
                     else (let k = e - 23; q = i div 2 ^ k; r = i mod 2 ^ k
                           in if 2 ^ (k - 1) < r \<or> r = 2 ^ (k - 1) \<and> odd q then q + 1 else q))
            in of_int ((int e + 127) * 2 ^ 23 + (m - 2 ^ 23))))"

definition lgtd_jsonrpc_check_and_call_set_waveform :: rpc_method where
  "lgtd_jsonrpc_check_and_call_set_waveform client w =
     do {
       (ok, params) \<leftarrow> extract_params set_waveform_schema client;
       if \<not> ok then error_invalid_params client w
       else do {
         wt \<leftarrow> param_token params ''waveform'' client;
         waveform \<leftarrow> lgtd_lifx_wire_waveform_string_id_to_type
                       (json_at (c_json client) (tk_start wt)) (LGTD_JSONRPC_TOKEN_LEN wt);
         if waveform = 5 then error_invalid_params client w
         else do {
         h \<leftarrow> float_param params ''hue'' 360 client;
         s \<leftarrow> float_param params ''saturation'' 1 client;
         b \<leftarrow> float_param params ''brightness'' 1 client;
         (k, erange) \<leftarrow> int_param params ''kelvin'' client;
         if k < 2500 \<or> 9000 < k \<or> erange then error_invalid_params client w
         else do {
         (period, erange) \<leftarrow> int_param params ''period'' client;
         if period \<le> 0 \<or> erange then error_invalid_params client w
         else do {
         (cycles, erange) \<leftarrow> int_param params ''cycles'' client;
         if cycles \<le> 0 \<or> erange then error_invalid_params client w
         else do {
         skew_ratio \<leftarrow> float_param params ''skew_ratio'' 1 client;
         let skew_ratio = skew_ratio - UINT16_MAX div 2;
         transient \<leftarrow> (if map_of (out_values params) ''transient'' = None then Some True
                       else do {
                         t \<leftarrow> param_token params ''transient'' client;
                         Some (json_char (c_json client) (tk_start t) = CHR ''t'')
                       });
         call_on_targets params
           (lgtd_proto_set_waveform waveform h s b k period (float_of_int cycles) skew_ratio transient) client w
         }}}}
       }
     }"

definition target_schema :: "lgtd_jsonrpc_node list" where
  "target_schema = [LGTD_JSONRPC_NODE ''target'' True True lgtd_jsonrpc_type_string_number_or_array False]"

text \<open>\<open>lgtd_jsonrpc_extract_target_list\<close> and the methods that only have targets.\<close>

definition lgtd_jsonrpc_extract_target_list ::
  "lgtd_client \<Rightarrow> lgtd_world \<Rightarrow> (string list option \<times> lgtd_client \<times> lgtd_world) option" where
  "lgtd_jsonrpc_extract_target_list client w =
     do {
       (ok, params) \<leftarrow> extract_params target_schema client;
       if \<not> ok
       then do { (client, w) \<leftarrow> error_invalid_params client w; Some (None, client, w) }
       else lgtd_jsonrpc_build_target_list (map_of (out_values params) ''target'')
              (param_ntokens params ''target'') client w
     }"

definition CHECK_AND_CALL_TARGETS_ONLY_METHOD :: "command \<Rightarrow> rpc_method" where
  "CHECK_AND_CALL_TARGETS_ONLY_METHOD proto_method client w =
     do {
       (targets, client, w) \<leftarrow> lgtd_jsonrpc_extract_target_list client w;
       case targets of
         None \<Rightarrow> Some (client, w)
       | Some targets \<Rightarrow> proto_method client targets w
     }"

definition label_schema :: "lgtd_jsonrpc_node list" where
  "label_schema =
     [LGTD_JSONRPC_NODE ''target'' True True lgtd_jsonrpc_type_string_number_or_array False,
      LGTD_JSONRPC_NODE ''label'' True False lgtd_jsonrpc_type_string False]"

definition lgtd_jsonrpc_check_and_call_proto_tag_or_untag_or_set_label :: "(string \<Rightarrow> command) \<Rightarrow> rpc_method" where
  "lgtd_jsonrpc_check_and_call_proto_tag_or_untag_or_set_label proto_fn client w =
     do {
       (ok, params) \<leftarrow> extract_params label_schema client;
       if \<not> ok then error_invalid_params client w
       else call_on_targets params (\<lambda>client targets w. do {
              t \<leftarrow> param_token params ''label'' client;
              let (ok, w) = ext_call w;
              if \<not> ok
              then do {
                client \<leftarrow> lgtd_jsonrpc_send_error LGTD_JSONRPC_INTERNAL_ERROR ''Can't allocate memory'' client;
                Some (client, w)
              }
              else proto_fn (cstr (token_text (c_json client) t)) client targets w
            }) client w
     }"

subsection \<open>Dispatch\<close>

definition methods :: "print_env \<Rightarrow> (string \<times> rpc_method) list" where
  "methods env =
     [(''power_on'', CHECK_AND_CALL_TARGETS_ONLY_METHOD lgtd_proto_power_on),
      (''power_off'', CHECK_AND_CALL_TARGETS_ONLY_METHOD lgtd_proto_power_off),
      (''power_toggle'', CHECK_AND_CALL_TARGETS_ONLY_METHOD lgtd_proto_power_toggle),
      (''set_light_from_hsbk'', lgtd_jsonrpc_check_and_call_set_light_from_hsbk),
      (''set_waveform'', lgtd_jsonrpc_check_and_call_set_waveform),
      (''get_light_state'', CHECK_AND_CALL_TARGETS_ONLY_METHOD (lgtd_proto_get_light_state env)),
      (''tag'', lgtd_jsonrpc_check_and_call_proto_tag_or_untag_or_set_label lgtd_proto_tag),
      (''untag'', lgtd_jsonrpc_check_and_call_proto_tag_or_untag_or_set_label lgtd_proto_untag),
      (''set_label'', lgtd_jsonrpc_check_and_call_proto_tag_or_untag_or_set_label lgtd_proto_set_label)]"

definition lgtd_jsonrpc_batch_prepare_next_part :: "int option \<Rightarrow> lgtd_client \<Rightarrow> lgtd_client" where
  "lgtd_jsonrpc_batch_prepare_next_part batch_sent client =
     (case batch_sent of
        None \<Rightarrow> client
      | Some n \<Rightarrow> if n = 1 then lgtd_client_write_string ''['' client
                  else if n \<noteq> 0 then lgtd_client_write_string '','' client else client)"

text \<open>The answer to a request that is not valid or names no method, after \<open>batch_sent\<close> was incremented.\<close>

definition dispatch_error :: "int \<Rightarrow> string \<Rightarrow> int option \<Rightarrow> lgtd_client \<Rightarrow> lgtd_client option" where
  "dispatch_error error_code error_msg batch_sent client =
     do {
       let client = lgtd_jsonrpc_batch_prepare_next_part batch_sent client;
       client \<leftarrow> lgtd_jsonrpc_send_error error_code error_msg client;
       Some (client\<lparr>c_current_request := None\<rparr>)
     }"

text \<open>
  The result has the number of the tokens of the request and the counter \<open>*batch_sent\<close> (\<open>None\<close> for a null pointer).
\<close>

definition lgtd_jsonrpc_dispatch_one ::
  "print_env \<Rightarrow> int \<Rightarrow> int \<Rightarrow> int option \<Rightarrow> lgtd_client \<Rightarrow> lgtd_world
   \<Rightarrow> (int \<times> int option \<times> lgtd_client \<times> lgtd_world) option" where
  "lgtd_jsonrpc_dispatch_one env base ntokens batch_sent client w =
     do {
       let tokens = c_jsmn_tokens client;
       let batch_sent = map_option (\<lambda>n. n + 1) batch_sent;
       (ok, request) \<leftarrow> lgtd_jsonrpc_check_and_extract_request tokens base ntokens (c_json client);
       if \<not> ok
       then do {
         n \<leftarrow> lgtd_jsonrpc_consume_object_or_array tokens base 0 ntokens (c_json client);
         client \<leftarrow> dispatch_error LGTD_JSONRPC_INVALID_REQUEST ''Invalid request'' batch_sent
                     (client\<lparr>c_current_request := Some (request\<lparr>rq_request_ntokens := n\<rparr>)\<rparr>);
         Some (n, batch_sent, client, w)
       }
       else do {
         let client = client\<lparr>c_current_request := Some request\<rparr>;
         method_index \<leftarrow> rq_method request;
         t \<leftarrow> token_at tokens method_index;
         case List.find (\<lambda>(name, f). int (length name) = LGTD_JSONRPC_TOKEN_LEN t \<and> name = token_text (c_json client) t)
                (methods env) of
           Some (name, method) \<Rightarrow>
             (if rq_id request = None
              then do {
                let client_io = c_io client;
                (client, w) \<leftarrow> method (client\<lparr>c_io := False\<rparr>) w;
                Some (rq_request_ntokens request, map_option (\<lambda>n. n - 1) batch_sent,
                      client\<lparr>c_io := client_io, c_current_request := None\<rparr>, w)
              }
              else do {
                let client = lgtd_jsonrpc_batch_prepare_next_part batch_sent client;
                (client, w) \<leftarrow> method client w;
                Some (rq_request_ntokens request, batch_sent, client\<lparr>c_current_request := None\<rparr>, w)
              })
         | None \<Rightarrow> do {
             client \<leftarrow> dispatch_error LGTD_JSONRPC_METHOD_NOT_FOUND ''Method not found'' batch_sent client;
             Some (rq_request_ntokens request, batch_sent, client, w)
           }
       }
     }"

text \<open>A request has at least one token, so the loop over a batch ends.\<close>

definition counts_pos :: "jsonrpc_output \<Rightarrow> bool" where
  "counts_pos outp \<longleftrightarrow> (\<forall>n\<in>snd ` set (out_ntokens outp). 0 < n)"

lemma counts_pos_store [simp]: "counts_pos (store_value node i outp) = counts_pos outp"
  by (simp add: counts_pos_def store_value_def)

lemma counts_pos_ntokens: "counts_pos outp \<Longrightarrow> 0 < n \<Longrightarrow> counts_pos (store_ntokens node n outp)"
  by (simp add: counts_pos_def store_ntokens_def)

lemma extract_pair_counts:
  "extract_pair schema tokens base ntokens json key ti outp = Some (ok, outp', nexti) \<Longrightarrow> counts_pos outp \<Longrightarrow>
     counts_pos outp'"
  by (auto simp: extract_pair_def Let_def bind_eq_Some_conv split: option.splits if_splits
      intro!: counts_pos_ntokens dest!: skip_value_grows)

lemma extract_pairs_counts:
  "extract_pairs schema tokens base ntokens json ti outp = Some (ok, outp') \<Longrightarrow> counts_pos outp \<Longrightarrow> counts_pos outp'"
proof (induction schema tokens base ntokens json ti outp rule: extract_pairs.induct)
  case (1 schema tokens base ntokens json ti outp)
  show ?case
  proof (cases "ti < ntokens")
    case True
    with 1(2) obtain key where key: "token_at tokens (base + ti) = Some key"
      by (auto simp: extract_pairs.simps [of _ tokens] bind_eq_Some_conv)
    show ?thesis
    proof (cases "tk_type key = JSMN_STRING")
      case str: True
      with 1(2) True key obtain ok' outp1 nexti where
        p: "extract_pair schema tokens base ntokens json key ti outp = Some (ok', outp1, nexti)"
          "(if ok' then extract_pairs schema tokens base ntokens json nexti outp1 else Some (False, outp1)) = Some (ok, outp')"
        by (auto simp: extract_pairs.simps [of schema tokens base ntokens json ti] bind_eq_Some_conv)
      have "counts_pos outp1" by (rule extract_pair_counts [OF p(1) 1(3)])
      with p str 1(1) [OF True key _ p(1) refl refl] show ?thesis by (auto split: if_splits)
    qed (use 1 True key in \<open>auto simp: extract_pairs.simps [of schema tokens base ntokens json ti]\<close>)
  qed (use 1 in \<open>auto simp: extract_pairs.simps [of schema tokens base ntokens json ti]\<close>)
qed

lemma check_and_extract_request_pos:
  assumes "lgtd_jsonrpc_check_and_extract_request tokens base ntokens json = Some (True, request)"
  shows "0 < rq_request_ntokens request"
proof -
  from assms obtain outp where out: "lgtd_jsonrpc_extract_values_from_schema_and_dict request_schema tokens base
      ntokens json no_output = Some (True, outp)"
    and n: "rq_request_ntokens request = 5 + (if map_of (out_values outp) ''params'' \<noteq> None
              then 1 + (case map_of (out_ntokens outp) ''params'' of Some n \<Rightarrow> n | None \<Rightarrow> 0) else 0)
              + (if map_of (out_values outp) ''id'' \<noteq> None then 2 else 0)"
    by (auto simp: lgtd_jsonrpc_check_and_extract_request_def bind_eq_Some_conv Let_def split: if_splits)
  have "counts_pos no_output" by (simp add: counts_pos_def no_output_def)
  with out have "counts_pos outp"
    by (auto simp: lgtd_jsonrpc_extract_values_from_schema_and_dict_def bind_eq_Some_conv
        split: if_splits dest!: extract_pairs_counts)
  then have "0 < n" if "map_of (out_ntokens outp) ''params'' = Some n" for n
    using map_of_SomeD [OF that] by (force simp: counts_pos_def)
  with n show ?thesis by (auto split: option.splits)
qed

lemma dispatch_one_pos:
  assumes "lgtd_jsonrpc_dispatch_one env base ntokens batch_sent client w = Some (n, batch_sent', client', w')"
  shows "0 < n"
proof -
  from assms obtain ok request where
    r: "lgtd_jsonrpc_check_and_extract_request (c_jsmn_tokens client) base ntokens (c_json client) = Some (ok, request)"
    by (auto simp: lgtd_jsonrpc_dispatch_one_def Let_def bind_eq_Some_conv)
  show ?thesis
  proof (cases ok)
    case False
    with assms r have "lgtd_jsonrpc_consume_object_or_array (c_jsmn_tokens client) base 0 ntokens (c_json client) = Some n"
      by (auto simp: lgtd_jsonrpc_dispatch_one_def Let_def bind_eq_Some_conv)
    then show ?thesis
      by (auto simp: lgtd_jsonrpc_consume_object_or_array_def bind_eq_Some_conv dest!: consume_members_le)
  next
    case True
    with assms r obtain i t where t: "rq_method request = Some i" "token_at (c_jsmn_tokens client) i = Some t"
      by (auto simp: lgtd_jsonrpc_dispatch_one_def Let_def bind_eq_Some_conv)
    let ?m = "List.find (\<lambda>(name, f). int (length name) = LGTD_JSONRPC_TOKEN_LEN t \<and> name = token_text (c_json client) t)
        (methods env)"
    have "n = rq_request_ntokens request"
      using assms r True t
      by (cases ?m; cases "the ?m")
        (auto simp: lgtd_jsonrpc_dispatch_one_def Let_def bind_eq_Some_conv split: if_splits)
    with check_and_extract_request_pos r True show ?thesis by simp
  qed
qed

text \<open>The loop over the members of a batch.\<close>

function dispatch_batch ::
  "print_env \<Rightarrow> int \<Rightarrow> int \<Rightarrow> int \<Rightarrow> lgtd_client \<Rightarrow> lgtd_world \<Rightarrow> (int \<times> lgtd_client \<times> lgtd_world) option" where
  "dispatch_batch env parsed ti batch_sent client w =
     (if ti < parsed
      then do {
        tok \<leftarrow> token_at (c_jsmn_tokens client) ti;
        if lgtd_jsonrpc_type_object tok (c_json client)
        then do {
          (n, sent, client, w) \<leftarrow> lgtd_jsonrpc_dispatch_one env ti (parsed - ti) (Some batch_sent) client w;
          batch_sent \<leftarrow> sent;
          dispatch_batch env parsed (ti + n) batch_sent client w
        }
        else do {
          let batch_sent = batch_sent + 1;
          let client = lgtd_jsonrpc_batch_prepare_next_part (Some batch_sent) client;
          client \<leftarrow> lgtd_jsonrpc_send_error LGTD_JSONRPC_INVALID_REQUEST ''Invalid request'' client;
          nexti \<leftarrow> skip_value (c_jsmn_tokens client) 0 ti parsed (c_json client);
          dispatch_batch env parsed nexti batch_sent client w
        }
      }
      else Some (batch_sent, client, w))"
  by pat_completeness auto
termination
  by (relation "measure (\<lambda>(env, parsed, ti, batch_sent, client, w). nat (parsed - ti))")
    (auto dest!: dispatch_one_pos skip_value_grows)

declare dispatch_batch.simps [simp del]

definition lgtd_jsonrpc_dispatch_request ::
  "print_env \<Rightarrow> int \<Rightarrow> lgtd_client \<Rightarrow> lgtd_world \<Rightarrow> (lgtd_client \<times> lgtd_world) option" where
  "lgtd_jsonrpc_dispatch_request env parsed client w =
     do {
       c_assert (0 \<le> parsed);
       let invalid = do {
         client \<leftarrow> lgtd_jsonrpc_send_error LGTD_JSONRPC_INVALID_REQUEST ''Invalid request'' client;
         Some (client, w)
       };
       if parsed = 0 then invalid
       else do {
         t \<leftarrow> token_at (c_jsmn_tokens client) 0;
         if tk_size t = 0 then invalid
         else if \<not> lgtd_jsonrpc_type_array t (c_json client)
         then do {
           (n, sent, client, w) \<leftarrow> lgtd_jsonrpc_dispatch_one env 0 parsed None client w;
           Some (client, w)
         }
         else do {
           (batch_sent, client, w) \<leftarrow> dispatch_batch env parsed 1 0 client w;
           Some (if batch_sent \<noteq> 0 then lgtd_client_write_string '']'' client else client, w)
         }
       }
     }"

end
