(* ===== verification/Client.thy ===== *)
theory Client
  imports Jsonrpc
begin

text \<open>
  Client connections (\<open>src/core/client.c\<close>): opening, closing and the loop that reads requests. The input buffer of
  libevent is the text received and not yet drained; \<open>nbytes\<close> of it are contiguous. Pulling up the whole buffer
  makes all of it contiguous. \<open>reallocarray\<close> is taken to succeed.
\<close>

subsection \<open>Reading requests\<close>

abbreviation (input) LGTD_CLIENT_MAX_REQUEST_BUF_SIZE :: nat where
  "LGTD_CLIENT_MAX_REQUEST_BUF_SIZE \<equiv> 4096"

text \<open>The array from \<open>reallocarray\<close>: its contents are not read before \<open>jsmn_parse\<close> sets them.\<close>

definition fresh_tokens :: "int \<Rightarrow> jsmntok_t list" where
  "fresh_tokens n = replicate (nat n) \<lparr>tk_type = JSMN_UNDEFINED, tk_start = 0, tk_end = 0, tk_size = 0, tk_parent = 0\<rparr>"

text \<open>The first pass counts the tokens and the second one, after the array was allocated, fills them.\<close>

definition parse_request :: "string \<Rightarrow> jsmn_tokens \<Rightarrow> (int \<times> jsmn_tokens) option" where
  "parse_request buf tokens =
     do {
       (rv, tokens) \<leftarrow> jsmn_parse buf jsmn_init tokens;
       if 0 < rv \<and> tokens = None then jsmn_parse buf jsmn_init (Some (fresh_tokens rv)) else Some (rv, tokens)
     }"

text \<open>The request in the first \<open>ntokens\<close> tokens of the array; the result has the size of its text.\<close>

definition dispatch_tokens ::
  "print_env \<Rightarrow> string \<Rightarrow> jsmntok_t list \<Rightarrow> int \<Rightarrow> lgtd_client \<Rightarrow> lgtd_world
   \<Rightarrow> (nat \<times> lgtd_client \<times> lgtd_world) option" where
  "dispatch_tokens env buf tokens ntokens client w =
     do {
       (client, w) \<leftarrow> lgtd_jsonrpc_dispatch_request env ntokens (client\<lparr>c_jsmn_tokens := tokens, c_json := buf\<rparr>) w;
       t \<leftarrow> token_at tokens 0;
       Some (nat (tk_end t), client\<lparr>c_json := ''''\<rparr>, w)
     }"

lemma parse_request_tokens:
  assumes "parse_request buf tokens = Some (rv, Some toks)" "0 < rv"
  shows "tokens_in_text buf (nat rv) toks"
proof -
  have *: "tokens_in_text buf (nat rv) toks" if "jsmn_parse buf jsmn_init (Some ts) = Some (rv, Some toks)" for ts
    using jsmn_parse_result [of buf ts] that assms(2) by auto
  show ?thesis
  proof (cases tokens)
    case (Some ts)
    with assms * show ?thesis
      by (auto simp: parse_request_def bind_eq_Some_conv split: if_splits)
  next
    case None
    from assms obtain r t where r: "jsmn_parse buf jsmn_init None = Some (r, t)"
      by (auto simp: parse_request_def None bind_eq_Some_conv)
    with jsmn_parse_null assms * show ?thesis by (auto simp: parse_request_def None split: if_splits)
  qed
qed

lemma dispatch_tokens_size:
  assumes "parse_request buf tokens = Some (rv, Some toks)"
    and "dispatch_tokens env buf toks rv client w = Some (n, client', w')" "rv \<noteq> 0"
  shows "0 < n"
proof -
  have "0 < rv" using assms(2,3) by (auto simp: dispatch_tokens_def lgtd_jsonrpc_dispatch_request_def bind_eq_Some_conv)
  with parse_request_tokens [OF assms(1)] assms(2) show ?thesis
    by (cases "nat rv") (auto simp: dispatch_tokens_def bind_eq_Some_conv token_at_def tokens_in_text_def
        token_in_text_def list_all_iff split: if_splits)
qed

text \<open>
  The loop. A round parses the contiguous text with the array at hand (\<open>tokens\<close>, null at first and after a
  request) and drains what it is done with; the result is what is left in the buffer.
\<close>

function read_requests ::
  "print_env \<Rightarrow> string \<Rightarrow> nat \<Rightarrow> jsmn_tokens \<Rightarrow> lgtd_client \<Rightarrow> lgtd_world
   \<Rightarrow> (string \<times> lgtd_client \<times> lgtd_world) option" where
  "read_requests env input nbytes tokens client w =
     (if nbytes = 0 \<or> input = [] then Some (input, client, w)
      else do {
        let buf = take nbytes input;
        (rv, tokens) \<leftarrow> parse_request buf tokens;
        if rv = JSMN_ERROR_NOMEM \<or> rv = JSMN_ERROR_INVAL
        then (let input = drop nbytes input in read_requests env input (length input) tokens client w)
        else if rv = JSMN_ERROR_PART \<or> rv = 0
        then (if LGTD_CLIENT_MAX_REQUEST_BUF_SIZE < length input then Some ([], client, w)
              else if length input \<le> nbytes then Some (input, client, w)
              else read_requests env input (length input) tokens client w)
        else do {
          toks \<leftarrow> tokens;
          (request_size, client, w) \<leftarrow> dispatch_tokens env buf toks rv client w;
          let input = drop request_size input;
          read_requests env input (if request_size < nbytes then nbytes - request_size else length input) None client w
        }
      })"
  by pat_completeness auto
termination
  by (relation "measures [\<lambda>(env, input, nbytes, tokens, client, w). length input,
      \<lambda>(env, input, nbytes, tokens, client, w). length input - nbytes]")
    (auto dest!: dispatch_tokens_size)

declare read_requests.simps [simp del]

definition lgtd_client_read_callback ::
  "print_env \<Rightarrow> string \<Rightarrow> nat \<Rightarrow> lgtd_client \<Rightarrow> lgtd_world \<Rightarrow> (string \<times> lgtd_client \<times> lgtd_world) option" where
  "lgtd_client_read_callback env input nbytes client w = read_requests env input nbytes None client w"

subsection \<open>The list of clients\<close>

type_synonym lgtd_client_list = "(nat \<times> lgtd_client) list"

text \<open>
  The calls that may fail are, in order: \<open>calloc\<close>, \<open>bufferevent_socket_new\<close>, \<open>calloc\<close> of the address and
  \<open>bufferevent_enable\<close>.
\<close>

definition lgtd_client_open ::
  "lgtd_client_list \<Rightarrow> lgtd_world \<Rightarrow> (nat option \<times> lgtd_client_list \<times> lgtd_world) option" where
  "lgtd_client_open clients w =
     do {
       let (calloc_ok, w) = ext_call w;
       if \<not> calloc_ok then Some (None, clients, w) else do {
       let (client, w) = fresh_ptr w;
       let (io_ok, w) = ext_call w;
       if \<not> io_ok then Some (None, clients, w) else do {
       let (addr_ok, w) = ext_call w;
       if \<not> addr_ok then Some (None, clients, w) else do {
       let (enable_ok, w) = ext_call w;
       if \<not> enable_ok then Some (None, clients, w) else do {
       w \<leftarrow> lgtd_stats_add Clients 1 w;
       Some (Some client, (client, lgtd_client_open_from_pipe\<lparr>c_io := True\<rparr>) # clients, w)
       }}}}
     }"

definition lgtd_client_close ::
  "nat \<Rightarrow> lgtd_client_list \<times> lgtd_world \<Rightarrow> (lgtd_client_list \<times> lgtd_world) option" where
  "lgtd_client_close client s =
     (case s of (clients, w) \<Rightarrow>
      do {
        c \<leftarrow> map_of clients client;
        c_assert (c_io c);
        w \<leftarrow> lgtd_stats_add Clients (-1) w;
        Some (adel client clients, w)
      })"

definition lgtd_client_close_all ::
  "lgtd_client_list \<times> lgtd_world \<Rightarrow> (lgtd_client_list \<times> lgtd_world) option" where
  "lgtd_client_close_all s = foreach lgtd_client_close (map fst (fst s)) s"

definition lgtd_client_event_callback ::
  "bool \<Rightarrow> nat \<Rightarrow> lgtd_client_list \<times> lgtd_world \<Rightarrow> (lgtd_client_list \<times> lgtd_world) option" where
  "lgtd_client_event_callback error_or_eof client s = (if error_or_eof then lgtd_client_close client s else Some s)"

end
