(* ===== verification/Host_Process.thy ===== *)
theory Host_Process
  imports Sample_World Client
begin

text \<open>
  The process around the event loop: what \<open>src/core/listen.c\<close>, \<open>src/core/pipe.c\<close>, \<open>src/core/daemon.c\<close> and
  \<open>src/core/lightsd.c\<close> keep beside the devices and what they see of the system. Files are names with the kind of the inode behind
  them: two names of the same file are not identified and nobody else changes the files. A call that may fail takes its outcome
  from the environment, and also fails where POSIX says it does. The printed form of an IP address (\<open>inet_ntop\<close>) and the
  databases of users and groups are given by the environment.

  A computation of the process goes on with a value, exits with a status, or crashes: a failed assertion or a pointer to nothing.
\<close>

subsection \<open>Running, exiting, crashing\<close>

datatype 'a run = Run 'a | Exit int | Crash

fun run_then :: "'a run \<Rightarrow> ('a \<Rightarrow> 'b run) \<Rightarrow> 'b run" where
  "run_then (Run x) f = f x"
| "run_then (Exit code) f = Exit code"
| "run_then Crash f = Crash"

lemma run_then_eq_Run: "run_then r f = Run y \<longleftrightarrow> (\<exists>x. r = Run x \<and> f x = Run y)"
  by (cases r) auto

definition or_crash :: "'a option \<Rightarrow> 'a run" where
  "or_crash r = (case r of Some x \<Rightarrow> Run x | None \<Rightarrow> Crash)"

lemma or_crash_eq_Run [simp]: "or_crash r = Run x \<longleftrightarrow> r = Some x"
  by (cases r) (auto simp: or_crash_def)

subsection \<open>State\<close>

datatype inode = Directory | Socket_file | Fifo | Regular

datatype sockaddr =
    Sockaddr_in bytes u16
  | Sockaddr_in6 bytes u16 u32 u32
  | Sockaddr_un string

record lgtd_listen =
  ln_sockaddr :: sockaddr

record lgtd_command_pipe =
  cp_path :: string
  cp_read_buf :: string
  cp_client :: lgtd_client

datatype lgtd_verbosity = LGTD_DEBUG | LGTD_INFO | LGTD_WARN | LGTD_ERR

record lgtd_opts =
  opt_foreground :: bool
  opt_log_timestamps :: bool
  opt_verbosity :: lgtd_verbosity
  opt_user :: "string option"
  opt_group :: "string option"
  opt_syslog :: bool
  opt_syslog_facility :: nat
  opt_syslog_ident :: string
  opt_pidfile :: "string option"

record passwd =
  pw_name :: string
  pw_uid :: nat
  pw_gid :: nat

record group_entry =
  gr_name :: string
  gr_gid :: nat

text \<open>
  \<open>pr_sun_path_size\<close> is the size of the array for the path in \<open>struct sockaddr_un\<close>; \<open>pr_have_setproctitle\<close> whether the C library
  has \<open>setproctitle\<close>. The title is the last one that was set.
\<close>

record lgtd_process =
  pr_files :: "string \<Rightarrow> inode option"
  pr_listeners :: "lgtd_listen list"
  pr_command_pipes :: "lgtd_command_pipe list"
  pr_clients :: lgtd_client_list
  pr_opts :: lgtd_opts
  pr_euid :: nat
  pr_egid :: nat
  pr_groups :: "nat list"
  pr_user_info :: "passwd option"
  pr_group_info :: "group_entry option"
  pr_have_setproctitle :: bool
  pr_proctitle_initialized :: bool
  pr_title :: "string option"
  pr_sun_path_size :: nat
  pr_inet_ntop :: "bytes \<Rightarrow> string"
  pr_getpwnam :: "string \<Rightarrow> passwd option"
  pr_getgrnam :: "string \<Rightarrow> group_entry option"
  pr_getgrgid :: "nat \<Rightarrow> group_entry option"
  pr_world :: lgtd_world

definition sys_call :: "lgtd_process \<Rightarrow> bool \<times> lgtd_process" where
  "sys_call p = (let (ok, w) = ext_call (pr_world p) in (ok, p\<lparr>pr_world := w\<rparr>))"

lemma sys_call_eq: "sys_call p = (w_ext (pr_world p) (w_ext_pos (pr_world p)),
    p\<lparr>pr_world := (pr_world p)\<lparr>w_ext_pos := Suc (w_ext_pos (pr_world p))\<rparr>\<rparr>)"
  by (simp add: sys_call_def ext_call_def)

text \<open>Nothing but the number of calls made changes.\<close>

definition same_process :: "lgtd_process \<Rightarrow> lgtd_process \<Rightarrow> bool" where
  "same_process p q \<longleftrightarrow> (\<exists>n. q = p\<lparr>pr_world := (pr_world p)\<lparr>w_ext_pos := n\<rparr>\<rparr>)"

lemma same_process_refl [simp]: "same_process p p"
  unfolding same_process_def by (rule exI [of _ "w_ext_pos (pr_world p)"]) simp

lemma same_process_trans: "same_process p q \<Longrightarrow> same_process q r \<Longrightarrow> same_process p r"
  by (auto simp: same_process_def)

lemma same_process_sys_call: "same_process p (snd (sys_call p))"
  by (auto simp: sys_call_eq same_process_def)

subsection \<open>Files\<close>

text \<open>\<open>dirname\<close> of the C library.\<close>

definition strip_slashes :: "string \<Rightarrow> string" where
  "strip_slashes s = rev (dropWhile (\<lambda>c. c = CHR ''/'') (rev s))"

definition dirname :: "string \<Rightarrow> string" where
  "dirname s =
     (if s = [] then ''.''
      else if strip_slashes s = [] then ''/''
      else (let d = rev (dropWhile (\<lambda>c. c \<noteq> CHR ''/'') (rev (strip_slashes s))) in
        if d = [] then ''.'' else if strip_slashes d = [] then ''/'' else strip_slashes d))"

datatype stat_result = Stat_error | Stat_enoent | Stat_ok inode

definition sys_stat :: "string \<Rightarrow> lgtd_process \<Rightarrow> stat_result \<times> lgtd_process" where
  "sys_stat path p =
     (let (ok, p) = sys_call p in
      (if \<not> ok then Stat_error else case pr_files p path of None \<Rightarrow> Stat_enoent | Some i \<Rightarrow> Stat_ok i, p))"

text \<open>A call that makes a new inode needs a directory to put it in and a name that is free.\<close>

definition sys_create :: "inode \<Rightarrow> string \<Rightarrow> lgtd_process \<Rightarrow> bool \<times> lgtd_process" where
  "sys_create i path p =
     (let (ok, p) = sys_call p in
      if ok \<and> pr_files p path = None \<and> pr_files p (dirname path) = Some Directory
      then (True, p\<lparr>pr_files := (pr_files p)(path \<mapsto> i)\<rparr>) else (False, p))"

datatype unlink_result = Unlinked | Unlink_enoent | Unlink_error

definition sys_unlink :: "string \<Rightarrow> lgtd_process \<Rightarrow> unlink_result \<times> lgtd_process" where
  "sys_unlink path p =
     (let (ok, p) = sys_call p in
      if \<not> ok \<or> pr_files p path = Some Directory then (Unlink_error, p)
      else if pr_files p path = None then (Unlink_enoent, p)
      else (Unlinked, p\<lparr>pr_files := (pr_files p)(path := None)\<rparr>))"

subsection \<open>Parent directories\<close>

lemma strip_slashes_length: "length (strip_slashes s) \<le> length s"
  using length_dropWhile_le [of _ "rev s"] by (simp add: strip_slashes_def)

lemma dirname_shorter: "dirname s = ''.'' \<or> dirname s = ''/'' \<or> length (dirname s) < length s"
proof (cases "s = [] \<or> strip_slashes s = []")
  case False
  define t where "t = strip_slashes s"
  define d where "d = rev (dropWhile (\<lambda>c. c \<noteq> CHR ''/'') (rev t))"
  have "length (strip_slashes d) < length t" if "strip_slashes d \<noteq> []"
  proof -
    show ?thesis
    proof (cases "d = []")
      case True
      then show ?thesis using that by (simp add: strip_slashes_def)
    next
      case d: False
      then have "last d = CHR ''/''"
        using hd_dropWhile [of "\<lambda>c. c \<noteq> CHR ''/''" "rev t"] unfolding d_def by (simp add: last_rev)
      then obtain e where "rev d = CHR ''/'' # e" using d by (metis append_butlast_last_id rev.simps(2) rev_append rev_rev_ident append_Cons append_Nil)
      then have "length (strip_slashes d) < length d" using length_dropWhile_le [of "\<lambda>c. c = CHR ''/''" e]
        by (simp add: strip_slashes_def flip: length_rev [of d])
      moreover have "length d \<le> length t" using length_dropWhile_le [of _ "rev t"] by (simp add: d_def)
      ultimately show ?thesis by simp
    qed
  qed
  then show ?thesis using False strip_slashes_length [of s] unfolding dirname_def Let_def t_def d_def by auto
qed (auto simp: dirname_def)

lemma dirname_fixed [simp]: "dirname ''.'' = ''.''" "dirname ''/'' = ''/''"
  by (simp_all add: dirname_def strip_slashes_def)

function makedirs :: "string \<Rightarrow> lgtd_process \<Rightarrow> bool \<times> lgtd_process" where
  "makedirs fp p =
     (let (ok, p) = sys_call p in
      if \<not> ok then (False, p) else
      let (ok, p) = sys_call p in
      if \<not> ok then (False, p) else
      if dirname fp = fp then (True, p) else
      let (ok, p) = makedirs (dirname fp) p in
      if \<not> ok then (False, p) else
      case sys_stat (dirname fp) p of
        (Stat_error, p) \<Rightarrow> (False, p)
      | (Stat_enoent, p) \<Rightarrow> sys_create Directory (dirname fp) p
      | (Stat_ok i, p) \<Rightarrow> (i = Directory, p))"
  by pat_completeness auto
termination
proof (relation "measure (\<lambda>(fp, p). if dirname fp = fp then 0 else Suc (length fp))")
  fix fp :: string and p q :: lgtd_process
  assume "dirname fp \<noteq> fp"
  then show "((dirname fp, q), (fp, p)) \<in> measure (\<lambda>(fp, p). if dirname fp = fp then 0 else Suc (length fp))"
    using dirname_shorter [of fp] by auto
qed simp

declare makedirs.simps [simp del]

definition lgtd_daemon_makedirs :: "string \<Rightarrow> lgtd_process \<Rightarrow> bool \<times> lgtd_process" where
  "lgtd_daemon_makedirs filepath p = makedirs filepath p"

text \<open>The directories above a name.\<close>

definition above :: "string \<Rightarrow> string \<Rightarrow> bool" where
  "above fp d \<longleftrightarrow> (\<exists>n. d = (dirname ^^ Suc n) fp)"

lemma above_dirname: "above fp (dirname fp)"
  unfolding above_def by (rule exI [of _ 0]) simp

lemma above_step: "above (dirname fp) d \<Longrightarrow> above fp d"
  unfolding above_def by (metis funpow_Suc_right o_apply)

lemma above_cases: "above fp d \<Longrightarrow> d = dirname fp \<or> above (dirname fp) d"
  unfolding above_def by (metis funpow_Suc_right o_apply funpow_0 not0_implies_Suc)

text \<open>What making the parent directories may do to the files, and to nothing else.\<close>

definition only_dirs :: "string \<Rightarrow> lgtd_process \<Rightarrow> lgtd_process \<Rightarrow> bool" where
  "only_dirs fp p q \<longleftrightarrow> (\<exists>n f. q = p\<lparr>pr_files := f, pr_world := (pr_world p)\<lparr>w_ext_pos := n\<rparr>\<rparr>
     \<and> (\<forall>path. f path = pr_files p path \<or> pr_files p path = None \<and> f path = Some Directory \<and> above fp path))"

lemma only_dirs_same: "same_process p q \<Longrightarrow> only_dirs fp p q"
proof -
  assume "same_process p q"
  then obtain n where "q = p\<lparr>pr_world := (pr_world p)\<lparr>w_ext_pos := n\<rparr>\<rparr>" by (auto simp: same_process_def)
  then have "q = p\<lparr>pr_files := pr_files p, pr_world := (pr_world p)\<lparr>w_ext_pos := n\<rparr>\<rparr>" by simp
  then show ?thesis unfolding only_dirs_def by blast
qed

lemma only_dirs_trans:
  assumes "only_dirs fp p q" "only_dirs fp q r"
  shows "only_dirs fp p r"
proof -
  obtain n f where q: "q = p\<lparr>pr_files := f, pr_world := (pr_world p)\<lparr>w_ext_pos := n\<rparr>\<rparr>"
      "\<forall>path. f path = pr_files p path \<or> pr_files p path = None \<and> f path = Some Directory \<and> above fp path"
    using assms(1) unfolding only_dirs_def by blast
  obtain m g where r: "r = q\<lparr>pr_files := g, pr_world := (pr_world q)\<lparr>w_ext_pos := m\<rparr>\<rparr>"
      "\<forall>path. g path = pr_files q path \<or> pr_files q path = None \<and> g path = Some Directory \<and> above fp path"
    using assms(2) unfolding only_dirs_def by blast
  have "r = p\<lparr>pr_files := g, pr_world := (pr_world p)\<lparr>w_ext_pos := m\<rparr>\<rparr>" using q(1) r(1) by simp
  moreover have "g path = pr_files p path \<or> pr_files p path = None \<and> g path = Some Directory \<and> above fp path" for path
    using q(2) [rule_format, of path] r(2) [rule_format, of path] q(1) by auto
  ultimately show ?thesis unfolding only_dirs_def by blast
qed

lemma only_dirs_up: "only_dirs (dirname fp) p q \<Longrightarrow> only_dirs fp p q"
  unfolding only_dirs_def using above_step by blast

lemma only_dirs_create:
  assumes "sys_create Directory (dirname fp) p = (ok, q)"
  shows "only_dirs fp p q" "ok \<Longrightarrow> pr_files q (dirname fp) = Some Directory"
proof -
  obtain b p1 where p1: "sys_call p = (b, p1)" by fastforce
  then have same: "same_process p p1" using same_process_sys_call [of p] by simp
  have "only_dirs fp p1 q"
  proof (cases "q = p1")
    case False
    then have q: "q = p1\<lparr>pr_files := (pr_files p1)(dirname fp \<mapsto> Directory)\<rparr>" "pr_files p1 (dirname fp) = None"
      using assms p1 by (auto simp: sys_create_def Let_def split: if_splits)
    have "q = p1\<lparr>pr_files := (pr_files p1)(dirname fp \<mapsto> Directory),
        pr_world := (pr_world p1)\<lparr>w_ext_pos := w_ext_pos (pr_world p1)\<rparr>\<rparr>" using q(1) by simp
    moreover have "\<forall>path. ((pr_files p1)(dirname fp \<mapsto> Directory)) path = pr_files p1 path \<or> pr_files p1 path = None
        \<and> ((pr_files p1)(dirname fp \<mapsto> Directory)) path = Some Directory \<and> above fp path"
      using q(2) above_dirname by auto
    ultimately show ?thesis unfolding only_dirs_def by blast
  qed (simp add: only_dirs_same)
  then show "only_dirs fp p q" using only_dirs_trans [OF only_dirs_same [OF same]] by blast
  show "pr_files q (dirname fp) = Some Directory" if ok
    using assms p1 that by (auto simp: sys_create_def Let_def split: if_splits)
qed

lemma only_dirs_keeps: "only_dirs fp p q \<Longrightarrow> pr_files p path = Some i \<Longrightarrow> pr_files q path = Some i"
proof -
  assume "only_dirs fp p q" and p: "pr_files p path = Some i"
  then obtain n f where f: "q = p\<lparr>pr_files := f, pr_world := (pr_world p)\<lparr>w_ext_pos := n\<rparr>\<rparr>"
      "f path = pr_files p path \<or> pr_files p path = None" unfolding only_dirs_def by blast
  then show ?thesis using p by simp
qed

lemma makedirs_only_dirs: "makedirs fp p = (ok, q) \<Longrightarrow> only_dirs fp p q"
proof (induction fp p arbitrary: ok q rule: makedirs.induct)
  case (1 fp p)
  obtain b1 p1 b2 p2 where c: "sys_call p = (b1, p1)" "sys_call p1 = (b2, p2)" by fastforce
  then have same: "same_process p p1" "same_process p p2"
    using same_process_sys_call [of p] same_process_sys_call [of p1] same_process_trans by fastforce+
  note step = "1.prems" [unfolded makedirs.simps [of fp p] Let_def c(1) prod.case]
  consider "q = p1" | "q = p2" | (rec) ok3 p3 where "b1" "b2" "dirname fp \<noteq> fp" "makedirs (dirname fp) p2 = (ok3, p3)"
    using step c(2) by (cases "makedirs (dirname fp) p2") (auto split: if_splits)
  then show ?case
  proof cases
    case rec
    have d3: "only_dirs fp p p3"
      using "1.IH" [OF c(1) [symmetric] refl _ c(2) [symmetric] refl _ rec(3,4)] rec(1,2) only_dirs_up
        only_dirs_trans [OF only_dirs_same [OF same(2)]] by blast
    obtain st p4 where st: "sys_stat (dirname fp) p3 = (st, p4)" by fastforce
    then have s4: "same_process p3 p4" using same_process_sys_call [of p3] by (auto simp: sys_stat_def split: prod.splits)
    have "only_dirs fp p3 q"
    proof (cases "q = p3 \<or> q = p4")
      case False
      then have "sys_create Directory (dirname fp) p4 = (ok, q)"
        using step c(2) rec st by (auto split: if_splits stat_result.splits)
      then show ?thesis using only_dirs_create(1) only_dirs_trans [OF only_dirs_same [OF s4]] by blast
    qed (use s4 only_dirs_same in auto)
    then show ?thesis using only_dirs_trans [OF d3] by blast
  qed (use same only_dirs_same in auto)
qed

lemma above_fixed: "dirname fp = fp \<Longrightarrow> above fp d \<Longrightarrow> d = fp"
proof -
  assume fixed: "dirname fp = fp"
  then have "(dirname ^^ n) fp = fp" for n by (induction n) simp_all
  then show "above fp d \<Longrightarrow> d = fp" using fixed unfolding above_def by auto
qed

lemma makedirs_parents:
  assumes "makedirs fp p = (True, q)" "pr_files p ''.'' = Some Directory" "pr_files p ''/'' = Some Directory" "above fp d"
  shows "pr_files q d = Some Directory"
  using assms
proof (induction fp p arbitrary: q d rule: makedirs.induct)
  case (1 fp p)
  obtain b1 p1 b2 p2 where c: "sys_call p = (b1, p1)" "sys_call p1 = (b2, p2)" by fastforce
  then have files: "pr_files p2 = pr_files p" by (auto simp: sys_call_eq)
  note step = "1.prems"(1) [unfolded makedirs.simps [of fp p] Let_def c(1) prod.case]
  show ?case
  proof (cases "dirname fp = fp")
    case True
    then have "d = fp" "fp = ''.'' \<or> fp = ''/''" using above_fixed "1.prems"(4) dirname_shorter [of fp] by auto
    moreover have "q = p2" using step c(2) True by (auto split: if_splits)
    ultimately show ?thesis using files "1.prems"(2,3) by auto
  next
    case False
    obtain ok3 p3 where m: "makedirs (dirname fp) p2 = (ok3, p3)" by fastforce
    with step c(2) False have b: b1 b2 ok3 by (auto split: if_splits)
    have p3: "pr_files p3 e = Some Directory" if "above (dirname fp) e" for e
      using "1.IH" [OF c(1) [symmetric] refl _ c(2) [symmetric] refl _ False _ _ _ that] m b "1.prems"(2,3) files by simp
    obtain st p4 where st: "sys_stat (dirname fp) p3 = (st, p4)" by fastforce
    then have s4: "pr_files p4 = pr_files p3" by (auto simp: sys_stat_def sys_call_eq)
    consider "st = Stat_enoent" "sys_create Directory (dirname fp) p4 = (True, q)" | "st = Stat_ok Directory" "q = p4"
      using step c(2) False m b st by (auto split: if_splits stat_result.splits)
    then show ?thesis
    proof cases
      case 1
      from only_dirs_create [OF 1(2)] only_dirs_keeps p3 s4 above_cases [OF "1.prems"(4)] show ?thesis by auto
    next
      case 2
      then have "pr_files p3 (dirname fp) = Some Directory"
        using st by (auto simp: sys_stat_def sys_call_eq split: if_splits option.splits)
      with 2 p3 s4 above_cases [OF "1.prems"(4)] show ?thesis by auto
    qed
  qed
qed

text \<open>
  C36: when \<open>lgtd_daemon_makedirs\<close> reports success, every directory above the name exists; whatever it reports, all it did to the
  files is to make some of those directories where there was nothing before. (It always returns: each name is shorter than the
  one it is the directory of, down to the root or the current directory.)
\<close>

theorem makedirs_makes_parents:
  assumes "lgtd_daemon_makedirs fp p = (ok, q)" "pr_files p ''.'' = Some Directory" "pr_files p ''/'' = Some Directory"
  shows "only_dirs fp p q \<and> (ok \<longrightarrow> (\<forall>d. above fp d \<longrightarrow> pr_files q d = Some Directory))"
  using makedirs_only_dirs makedirs_parents assms by (auto simp: lgtd_daemon_makedirs_def)

definition sample_process :: lgtd_process where
  "sample_process =
     \<lparr>pr_files = [''/'' \<mapsto> Directory, ''.'' \<mapsto> Directory, ''/run'' \<mapsto> Directory, ''/run/notes'' \<mapsto> Regular],
      pr_listeners = [], pr_command_pipes = [], pr_clients = [],
      pr_opts = \<lparr>opt_foreground = True, opt_log_timestamps = True, opt_verbosity = LGTD_INFO, opt_user = None, opt_group = None,
        opt_syslog = False, opt_syslog_facility = 3, opt_syslog_ident = ''lightsd'', opt_pidfile = None\<rparr>,
      pr_euid = 0, pr_egid = 0, pr_groups = [0], pr_user_info = None, pr_group_info = None, pr_have_setproctitle = False,
      pr_proctitle_initialized = False, pr_title = None, pr_sun_path_size = 108, pr_inet_ntop = (\<lambda>_. ''127.0.0.1''),
      pr_getpwnam = [''lightsd'' \<mapsto> \<lparr>pw_name = ''lightsd'', pw_uid = 100, pw_gid = 101\<rparr>],
      pr_getgrnam = [''lightsd'' \<mapsto> \<lparr>gr_name = ''lightsd'', gr_gid = 101\<rparr>],
      pr_getgrgid = [101 \<mapsto> \<lparr>gr_name = ''lightsd'', gr_gid = 101\<rparr>], pr_world = sample_world\<rparr>"

theorem makedirs_makes_parents_witness:
  "pr_files (snd (lgtd_daemon_makedirs ''/run/lightsd/socket'' sample_process)) ''/run/lightsd'' = Some Directory"
proof -
  obtain ok q where q: "lgtd_daemon_makedirs ''/run/lightsd/socket'' sample_process = (ok, q)" by fastforce
  have ok: "fst (lgtd_daemon_makedirs ''/run/lightsd/socket'' sample_process)" by code_simp
  have "dirname ''/run/lightsd/socket'' = ''/run/lightsd''" by code_simp
  with above_dirname [of "''/run/lightsd/socket''"] makedirs_makes_parents [OF q] ok q show ?thesis by (simp add: sample_process_def)
qed

end
