(* ===== verification/Process_Title.thy ===== *)
theory Process_Title
  imports Host_Process
begin

text \<open>
  Texts about the process: the addresses and durations of \<open>src/core/utils.c\<close> and the title of the process that
  \<open>src/core/daemon.c\<close> puts together from the listeners, the command pipes and the counters.
\<close>

subsection \<open>Addresses and durations\<close>

text \<open>A path that fills its array has no terminator: reading it as a string runs past its end.\<close>

definition sun_path :: "nat \<Rightarrow> string \<Rightarrow> string option" where
  "sun_path sun_path_size path = (if length path < sun_path_size then Some path else None)"

text \<open>\<open>inet_ntop\<close> into what is left of the buffer, then the port. Without room for the address the daemon aborts.\<close>

definition print_inet :: "string \<Rightarrow> string \<Rightarrow> u16 \<Rightarrow> nat \<Rightarrow> string option" where
  "print_inet open_text ip port buflen =
     (case LGTD_SNPRINTF_APPEND buflen open_text ('''', 0) of (buf, i) \<Rightarrow>
        if length ip < buflen - i
        then Some (fst (LGTD_SNPRINTF_APPEND buflen ('']:'' @ print_unsigned (unat port)) (buf @ ip, i + length ip)))
        else None)"

definition lgtd_sockaddrtoa :: "(bytes \<Rightarrow> string) \<Rightarrow> nat \<Rightarrow> sockaddr \<Rightarrow> nat \<Rightarrow> string option" where
  "lgtd_sockaddrtoa inet_ntop sun_path_size peer buflen =
     do {
       c_assert (1 < buflen);
       case peer of
         Sockaddr_in addr port \<Rightarrow> print_inet ''[::ffff:'' (inet_ntop addr) port buflen
       | Sockaddr_in6 addr port flowinfo scope_id \<Rightarrow> print_inet ''['' (inet_ntop addr) port buflen
       | Sockaddr_un path \<Rightarrow> do {
           path \<leftarrow> sun_path sun_path_size path;
           Some (fst (LGTD_SNPRINTF_APPEND buflen (''at '' @ path) ('''', 0)))
         }
     }"

definition print_02d :: "int \<Rightarrow> string" where
  "print_02d v = (if 0 \<le> v \<and> v < 10 then ''0'' else '''') @ print_int v"

definition lgtd_print_duration :: "u64 \<Rightarrow> nat \<Rightarrow> string option" where
  "lgtd_print_duration secs bufsz =
     do {
       c_assert (0 < bufsz);
       let days = int_of_long (uint secs div (60 * 60 * 24));
       let minutes = int_of_long (uint secs div 60);
       let hours = c_div minutes 60;
       let hours = hours - c_div hours 24 * 24;
       let minutes = minutes - c_div minutes 60 * 60;
       let b = (if days \<noteq> 0 then LGTD_SNPRINTF_APPEND bufsz (print_int days @ '' days '') ('''', 0) else ('''', 0));
       Some (fst (LGTD_SNPRINTF_APPEND bufsz (print_02d hours @ '':'' @ print_02d minutes) b))
     }"

subsection \<open>The title\<close>

abbreviation (input) LGTD_SOCKADDR_STRLEN :: nat where "LGTD_SOCKADDR_STRLEN \<equiv> 128"
abbreviation (input) LGTD_DAEMON_TITLE_SIZE :: nat where "LGTD_DAEMON_TITLE_SIZE \<equiv> 2048"

definition lgtd_daemon_update_proctitle_format_sockaddr :: "lgtd_process \<Rightarrow> sockaddr \<Rightarrow> string option" where
  "lgtd_daemon_update_proctitle_format_sockaddr p sa =
     (case sa of
        Sockaddr_un path \<Rightarrow> sun_path (pr_sun_path_size p) path
      | _ \<Rightarrow> lgtd_sockaddrtoa (pr_inet_ntop p) (pr_sun_path_size p) sa LGTD_SOCKADDR_STRLEN)"

text \<open>\<open>title[i - 1]\<close>: the terminator when the title is full.\<close>

definition last_char :: "string \<times> nat \<Rightarrow> char option" where
  "last_char b = (case b of (buf, i) \<Rightarrow> if i = 0 then None else if i = LGTD_DAEMON_TITLE_SIZE then Some (CHR 0x00) else Some (buf ! (i - 1)))"

definition TITLE_APPEND :: "string \<Rightarrow> string \<times> nat \<Rightarrow> string \<times> nat" where
  "TITLE_APPEND s b = LGTD_SNPRINTF_APPEND LGTD_DAEMON_TITLE_SIZE s b"

definition PREFIX :: "string \<Rightarrow> string \<times> nat \<Rightarrow> string \<times> nat" where
  "PREFIX s b = TITLE_APPEND ((if last_char b = Some (CHR '')'') then ''; '' else '''') @ s) b"

definition ADD_ITEM :: "string \<Rightarrow> string \<times> nat \<Rightarrow> string \<times> nat" where
  "ADD_ITEM s b = TITLE_APPEND ((if last_char b \<noteq> None \<and> last_char b \<noteq> Some (CHR ''('') then '', '' else '''') @ s) b"

definition LOOP :: "string \<Rightarrow> string list \<Rightarrow> string \<times> nat \<Rightarrow> string \<times> nat" where
  "LOOP prefix items b = (if items = [] then b else TITLE_APPEND '')'' (fold ADD_ITEM items (PREFIX (prefix @ ''('') b)))"

fun all_some :: "'a option list \<Rightarrow> 'a list option" where
  "all_some [] = Some []"
| "all_some (x # xs) = do { y \<leftarrow> x; ys \<leftarrow> all_some xs; Some (y # ys) }"

definition lgtd_daemon_update_proctitle :: "lgtd_process \<Rightarrow> lgtd_process option" where
  "lgtd_daemon_update_proctitle p =
     (if \<not> pr_proctitle_initialized p then Some p
      else do {
        let st = w_stats (pr_world p);
        addrs \<leftarrow> all_some (map (lgtd_daemon_update_proctitle_format_sockaddr p \<circ> ln_sockaddr) (pr_listeners p));
        let b = LOOP ''listening_on'' addrs ('''', 0);
        let b = LOOP ''command_pipes'' (map cp_path (pr_command_pipes p)) b;
        let b = (if w_gateways (pr_world p) \<noteq> [] then PREFIX (''lifx_gateways(found='' @ print_int (st_gateways st) @ '')'') b else b);
        let b = PREFIX (''bulbs(found='' @ print_int (st_bulbs st) @ '', on='' @ print_int (st_bulbs_powered_on st) @ '')'') b;
        let b = PREFIX (''clients(connected='' @ print_int (st_clients st) @ '')'') b;
        Some (p\<lparr>pr_title := Some (fst b)\<rparr>)
      })"

text \<open>With \<open>setproctitle\<close> in the C library there is nothing to set up.\<close>

definition lgtd_daemon_setup_proctitle :: "lgtd_process \<Rightarrow> lgtd_process option" where
  "lgtd_daemon_setup_proctitle p =
     (if pr_have_setproctitle p then Some p
      else do {
        p \<leftarrow> lgtd_daemon_update_proctitle p;
        Some (p\<lparr>pr_proctitle_initialized := True\<rparr>)
      })"

lemma update_proctitle_no_listeners:
  "pr_listeners p = [] \<Longrightarrow> \<exists>t. lgtd_daemon_update_proctitle p = Some (p\<lparr>pr_title := t\<rparr>)"
  unfolding lgtd_daemon_update_proctitle_def Let_def
  by (cases "pr_proctitle_initialized p") (auto intro: exI [of _ "pr_title p"])

lemma update_proctitle_title: "lgtd_daemon_update_proctitle p = Some q \<Longrightarrow> \<exists>t. q = p\<lparr>pr_title := t\<rparr>"
  unfolding lgtd_daemon_update_proctitle_def Let_def
  by (cases "pr_proctitle_initialized p") (auto simp: bind_eq_Some_conv intro: exI [of _ "pr_title p"])

subsection \<open>What the title says\<close>

fun join :: "string \<Rightarrow> string list \<Rightarrow> string" where
  "join sep [] = ''''"
| "join sep [x] = x"
| "join sep (x # y # xs) = x @ sep @ join sep (y # xs)"

lemma join_Cons: "join sep (x # xs) = x @ concat (map ((@) sep) xs)"
  by (induction xs arbitrary: x) simp_all

abbreviation at_end :: "string \<Rightarrow> string \<times> nat" where
  "at_end s \<equiv> (s, length s)"

lemma append_fits: "length (s @ t) < LGTD_DAEMON_TITLE_SIZE \<Longrightarrow> TITLE_APPEND t (at_end s) = at_end (s @ t)"
  by (simp add: TITLE_APPEND_def LGTD_SNPRINTF_APPEND_def)

lemma last_char_end: "length s < LGTD_DAEMON_TITLE_SIZE \<Longrightarrow> last_char (at_end s) = (if s = [] then None else Some (last s))"
  by (simp add: last_char_def last_conv_nth)

lemma last_char_start [simp]: "last_char ('''', 0) = None"
  by (simp add: last_char_def)

definition item_ok :: "string \<Rightarrow> bool" where
  "item_ok s \<longleftrightarrow> s \<noteq> [] \<and> last s \<noteq> CHR ''(''"

lemma add_items:
  "length (s @ concat (map ((@) '', '') items)) < LGTD_DAEMON_TITLE_SIZE \<Longrightarrow> item_ok s \<Longrightarrow> list_all item_ok items \<Longrightarrow>
     fold ADD_ITEM items (at_end s) = at_end (s @ concat (map ((@) '', '') items))"
proof (induction items arbitrary: s)
  case (Cons x items)
  have fits: "length (s @ '', '' @ x) < LGTD_DAEMON_TITLE_SIZE" using Cons.prems(1) by simp
  have "ADD_ITEM x (at_end s) = at_end (s @ '', '' @ x)"
    using Cons.prems(2) append_fits [OF fits] fits by (simp add: ADD_ITEM_def last_char_end item_ok_def)
  moreover have "item_ok (s @ '', '' @ x)" using Cons.prems(3) by (simp add: item_ok_def)
  ultimately show ?case using Cons.IH [of "s @ '', '' @ x"] Cons.prems by simp
qed simp

definition section_text :: "string \<Rightarrow> string list \<Rightarrow> string" where
  "section_text prefix items = prefix @ ''('' @ join '', '' items @ '')''"

lemma PREFIX_end:
  "length (s @ ''; '' @ t) < LGTD_DAEMON_TITLE_SIZE \<Longrightarrow> s = [] \<or> last s = CHR '')'' \<Longrightarrow>
     PREFIX t (at_end s) = at_end (if s = [] then t else s @ ''; '' @ t)"
  using append_fits [of s "''; '' @ t"] append_fits [of "[]" t]
  by (cases "s = []") (simp_all add: PREFIX_def last_char_end)

lemma LOOP_end:
  assumes "length (s @ ''; '' @ section_text prefix items) < LGTD_DAEMON_TITLE_SIZE" "s = [] \<or> last s = CHR '')''"
    and "list_all item_ok items" "items \<noteq> []"
  shows "LOOP prefix items (at_end s) = at_end (if s = [] then section_text prefix items else s @ ''; '' @ section_text prefix items)"
proof -
  define u where "u = (if s = [] then prefix @ ''('' else s @ ''; '' @ prefix @ ''('')"
  obtain x xs where items: "items = x # xs" using assms(4) by (cases items) auto
  have len: "length (u @ x @ concat (map ((@) '', '') xs) @ '')'') < LGTD_DAEMON_TITLE_SIZE"
    using assms(1) by (auto simp: u_def section_text_def items join_Cons)
  have "PREFIX (prefix @ ''('') (at_end s) = at_end u"
    using PREFIX_end [of s "prefix @ ''(''"] assms(1,2) by (simp add: u_def section_text_def)
  moreover have "ADD_ITEM x (at_end u) = at_end (u @ x)"
    using append_fits [of u x] len by (simp add: ADD_ITEM_def last_char_end) (simp add: u_def)
  moreover have "fold ADD_ITEM xs (at_end (u @ x)) = at_end ((u @ x) @ concat (map ((@) '', '') xs))"
    by (rule add_items) (use len assms(3) items in \<open>auto simp: item_ok_def\<close>)
  moreover have "TITLE_APPEND '')'' (at_end ((u @ x) @ concat (map ((@) '', '') xs))) = at_end (((u @ x) @ concat (map ((@) '', '') xs)) @ '')'')"
    by (rule append_fits) (use len in simp)
  ultimately have "LOOP prefix items (at_end s) = at_end (((u @ x) @ concat (map ((@) '', '') xs)) @ '')'')"
    by (simp add: LOOP_def items)
  then show ?thesis by (simp add: u_def section_text_def items join_Cons)
qed

text \<open>The title after some sections, each of which ends with a parenthesis.\<close>

definition closed :: "string \<Rightarrow> bool" where
  "closed s \<longleftrightarrow> s \<noteq> [] \<and> last s = CHR '')''"

lemma join_snoc: "join sep (xs @ [x]) = (if xs = [] then x else join sep xs @ sep @ x)"
  by (cases xs) (simp_all add: join_Cons)

lemma join_closed: "list_all closed ss \<Longrightarrow> ss \<noteq> [] \<Longrightarrow> closed (join sep ss)"
  by (cases ss rule: rev_cases) (auto simp: join_snoc closed_def)

lemma join_empty: "list_all closed ss \<Longrightarrow> join sep ss = [] \<longleftrightarrow> ss = []"
  using join_closed [of ss sep] by (cases ss) (auto simp: closed_def)

lemma add_section:
  assumes "list_all closed ss" "length (join ''; '' (ss @ [t])) + 2 < LGTD_DAEMON_TITLE_SIZE"
  shows "PREFIX t (at_end (join ''; '' ss)) = at_end (join ''; '' (ss @ [t]))"
  using PREFIX_end [of "join ''; '' ss" t] join_closed [OF assms(1), of "''; ''"] join_empty [OF assms(1), of "''; ''"] assms(2)
  by (auto simp: join_snoc closed_def)

definition list_section :: "string \<Rightarrow> string list \<Rightarrow> string list" where
  "list_section prefix items = (if items = [] then [] else [section_text prefix items])"

lemma add_list_section:
  assumes "list_all closed ss" "length (join ''; '' (ss @ list_section prefix items)) + 2 < LGTD_DAEMON_TITLE_SIZE" "list_all item_ok items"
  shows "LOOP prefix items (at_end (join ''; '' ss)) = at_end (join ''; '' (ss @ list_section prefix items))"
proof (cases "items = []")
  case True
  then show ?thesis by (simp add: LOOP_def list_section_def)
next
  case False
  then show ?thesis
    using LOOP_end [of "join ''; '' ss" prefix items] join_closed [OF assms(1), of "''; ''"] join_empty [OF assms(1), of "''; ''"] assms(2,3)
    by (auto simp: list_section_def join_snoc closed_def)
qed

lemma closed_section: "list_all closed (list_section prefix items)"
  by (simp add: list_section_def closed_def section_text_def)

definition title_sections :: "lgtd_process \<Rightarrow> string list \<Rightarrow> string list" where
  "title_sections p addrs =
     (let st = w_stats (pr_world p) in
      list_section ''listening_on'' addrs @ list_section ''command_pipes'' (map cp_path (pr_command_pipes p))
      @ (if w_gateways (pr_world p) = [] then [] else [''lifx_gateways(found='' @ print_int (st_gateways st) @ '')''])
      @ [''bulbs(found='' @ print_int (st_bulbs st) @ '', on='' @ print_int (st_bulbs_powered_on st) @ '')'',
         ''clients(connected='' @ print_int (st_clients st) @ '')''])"

lemma join_prefix_length: "length (join sep xs) \<le> length (join sep (xs @ ys))"
proof (induction ys rule: rev_induct)
  case (snoc y ys)
  then show ?case using join_snoc [of sep "xs @ ys" y] by (auto split: if_splits)
qed simp

text \<open>
  Once it is set up, the title of the process lists, in this order and with the separators in the right places, the
  addresses it listens on, the command pipes, the number of gateways when there are any, the bulbs, those that are on and the
  clients: exactly the sections joined by semicolons, whenever that fits the buffer and no address or path is empty or ends with
  an opening parenthesis.
\<close>

theorem proctitle_contents:
  assumes "pr_proctitle_initialized p"
    and "all_some (map (lgtd_daemon_update_proctitle_format_sockaddr p \<circ> ln_sockaddr) (pr_listeners p)) = Some addrs"
    and "length (join ''; '' (title_sections p addrs)) + 2 < LGTD_DAEMON_TITLE_SIZE"
    and "list_all item_ok addrs" "list_all item_ok (map cp_path (pr_command_pipes p))"
  shows "lgtd_daemon_update_proctitle p = Some (p\<lparr>pr_title := Some (join ''; '' (title_sections p addrs))\<rparr>)"
proof -
  define st where "st = w_stats (pr_world p)"
  define l where "l = list_section ''listening_on'' addrs"
  define c where "c = list_section ''command_pipes'' (map cp_path (pr_command_pipes p))"
  define g where "g = (if w_gateways (pr_world p) = [] then [] else [''lifx_gateways(found='' @ print_int (st_gateways st) @ '')''])"
  define b where "b = ''bulbs(found='' @ print_int (st_bulbs st) @ '', on='' @ print_int (st_bulbs_powered_on st) @ '')''"
  define k where "k = ''clients(connected='' @ print_int (st_clients st) @ '')''"
  have all: "title_sections p addrs = l @ c @ g @ [b, k]" by (simp add: title_sections_def Let_def l_def c_def g_def b_def k_def st_def)
  have fits: "length (join ''; '' ss) + 2 < LGTD_DAEMON_TITLE_SIZE" if "l @ c @ g @ [b, k] = ss @ ts" for ss ts
    using join_prefix_length [of "''; ''" ss ts] assms(3) that unfolding all by simp
  have cl: "list_all closed l" "list_all closed c" "list_all closed g" "closed b" "closed k"
    by (simp_all add: l_def c_def closed_section g_def b_def k_def closed_def)
  have s1: "LOOP ''listening_on'' addrs ([], 0) = at_end (join ''; '' l)"
    using add_list_section [of "[]" "''listening_on''" addrs] fits [of l] assms(4) by (simp add: l_def)
  have s2: "LOOP ''command_pipes'' (map cp_path (pr_command_pipes p)) (at_end (join ''; '' l)) = at_end (join ''; '' (l @ c))"
    using add_list_section [OF cl(1) _ assms(5), of "''command_pipes''"] fits [of "l @ c"] by (simp add: c_def)
  have s3: "(if w_gateways (pr_world p) \<noteq> [] then PREFIX (''lifx_gateways(found='' @ print_int (st_gateways st) @ '')'') (at_end (join ''; '' (l @ c)))
      else at_end (join ''; '' (l @ c))) = at_end (join ''; '' (l @ c @ g))"
    using add_section [of "l @ c"] cl fits [of "l @ c @ g"] by (auto simp: g_def)
  have s4: "PREFIX b (at_end (join ''; '' (l @ c @ g))) = at_end (join ''; '' (l @ c @ g @ [b]))"
    using add_section [of "l @ c @ g" b] cl fits [of "l @ c @ g @ [b]"] by simp
  have s5: "PREFIX k (at_end (join ''; '' (l @ c @ g @ [b]))) = at_end (join ''; '' (l @ c @ g @ [b, k]))"
    using add_section [of "l @ c @ g @ [b]" k] cl fits [of "l @ c @ g @ [b, k]"] by simp
  show ?thesis
    unfolding lgtd_daemon_update_proctitle_def Let_def assms(2) all bind.bind_lunit st_def [symmetric] b_def [symmetric]
      k_def [symmetric] s1 s2 s3 s4 s5 using assms(1) by simp
qed

theorem proctitle_contents_witness:
  "lgtd_daemon_update_proctitle (sample_process\<lparr>pr_proctitle_initialized := True,
     pr_listeners := [\<lparr>ln_sockaddr = Sockaddr_un ''/run/s''\<rparr>, \<lparr>ln_sockaddr = Sockaddr_in [127, 0, 0, 1] 1234\<rparr>]\<rparr>) =
   Some (sample_process\<lparr>pr_proctitle_initialized := True,
     pr_listeners := [\<lparr>ln_sockaddr = Sockaddr_un ''/run/s''\<rparr>, \<lparr>ln_sockaddr = Sockaddr_in [127, 0, 0, 1] 1234\<rparr>],
     pr_title := Some ''listening_on(/run/s, [::ffff:127.0.0.1]:1234); lifx_gateways(found=1); bulbs(found=2, on=1); clients(connected=0)''\<rparr>)"
proof -
  define p where "p = sample_process\<lparr>pr_proctitle_initialized := True,
     pr_listeners := [\<lparr>ln_sockaddr = Sockaddr_un ''/run/s''\<rparr>, \<lparr>ln_sockaddr = Sockaddr_in [127, 0, 0, 1] 1234\<rparr>]\<rparr>"
  have addrs: "all_some (map (lgtd_daemon_update_proctitle_format_sockaddr p \<circ> ln_sockaddr) (pr_listeners p)) =
      Some [''/run/s'', ''[::ffff:127.0.0.1]:1234'']" unfolding p_def by code_simp
  have title: "join ''; '' (title_sections p [''/run/s'', ''[::ffff:127.0.0.1]:1234'']) =
      ''listening_on(/run/s, [::ffff:127.0.0.1]:1234); lifx_gateways(found=1); bulbs(found=2, on=1); clients(connected=0)''"
    unfolding p_def by code_simp
  have ok: "list_all item_ok [''/run/s'', ''[::ffff:127.0.0.1]:1234'']" "list_all item_ok (map cp_path (pr_command_pipes p))"
    by (simp_all add: item_ok_def p_def sample_process_def)
  have "pr_proctitle_initialized p" by (simp add: p_def)
  from proctitle_contents [OF this addrs _ ok] show ?thesis unfolding title unfolding p_def by simp
qed

text \<open>
  On a system whose C library has \<open>setproctitle\<close> the title never changes: the setup leaves the flag that
  \<open>lgtd_daemon_update_proctitle\<close> checks unset, so every update returns at once.
\<close>

lemma native_proctitle_never_set:
  assumes "pr_have_setproctitle p" "\<not> pr_proctitle_initialized p"
  shows "lgtd_daemon_setup_proctitle p = Some p \<and> lgtd_daemon_update_proctitle p = Some p"
  using assms by (simp add: lgtd_daemon_setup_proctitle_def lgtd_daemon_update_proctitle_def)

end
