(* ===== verification/Listen.thy ===== *)
theory Listen
  imports Process_Title
begin

text \<open>
  The listeners of \<open>src/core/listen.c\<close>: TCP sockets, Unix sockets and the clients they accept. The addresses
  \<open>evutil_getaddrinfo\<close> finds are given by the environment. Descriptors that are closed and memory that is freed on the error
  paths leave no trace in the state; what those paths do to the files does.
\<close>

subsection \<open>Accepting clients\<close>

text \<open>
  The warning that a client was refused prints the address of a client that is not there. For a client on a Unix socket the
  result of \<open>getsockname\<close> goes to \<open>lgtd_client_open\<close>, which only copies it.
\<close>

definition lgtd_listen_accept_new_client :: "lgtd_listen \<Rightarrow> lgtd_process \<Rightarrow> lgtd_process option" where
  "lgtd_listen_accept_new_client listener p =
     do {
       bufserver \<leftarrow> lgtd_sockaddrtoa (pr_inet_ntop p) (pr_sun_path_size p) (ln_sockaddr listener) LGTD_SOCKADDR_STRLEN;
       (client, clients, w) \<leftarrow> lgtd_client_open (pr_clients p) (pr_world p);
       if client = None then None
       else Some (p\<lparr>pr_clients := clients, pr_world := w\<rparr>)
     }"

subsection \<open>Closing\<close>

definition close_listener :: "lgtd_listen \<Rightarrow> lgtd_process \<Rightarrow> lgtd_process option" where
  "close_listener listener p =
     do {
       p \<leftarrow> (case ln_sockaddr listener of
               Sockaddr_un path \<Rightarrow> do { path \<leftarrow> sun_path (pr_sun_path_size p) path; Some (snd (sys_unlink path p)) }
             | _ \<Rightarrow> Some p);
       addr \<leftarrow> lgtd_sockaddrtoa (pr_inet_ntop p) (pr_sun_path_size p) (ln_sockaddr listener) LGTD_SOCKADDR_STRLEN;
       Some p
     }"

text \<open>The loop takes the first listener off the list until there is none.\<close>

fun close_listeners :: "lgtd_listen list \<Rightarrow> lgtd_process \<Rightarrow> lgtd_process option" where
  "close_listeners [] p = Some p"
| "close_listeners (listener # rest) p =
     do { p \<leftarrow> close_listener listener (p\<lparr>pr_listeners := rest\<rparr>); close_listeners rest p }"

definition lgtd_listen_close_all :: "lgtd_process \<Rightarrow> lgtd_process option" where
  "lgtd_listen_close_all p = do { p \<leftarrow> close_listeners (pr_listeners p) p; lgtd_daemon_update_proctitle p }"

subsection \<open>TCP\<close>

definition sizeof_sockaddr :: "nat \<Rightarrow> sockaddr \<Rightarrow> nat" where
  "sizeof_sockaddr sun_path_size sa =
     (case sa of Sockaddr_in addr port \<Rightarrow> 16 | Sockaddr_in6 addr port flowinfo scope_id \<Rightarrow> 28 | Sockaddr_un path \<Rightarrow> 2 + sun_path_size)"

text \<open>The test for an address that is taken: the same size, and \<open>memcmp\<close> not zero.\<close>

definition taken :: "lgtd_process \<Rightarrow> sockaddr \<Rightarrow> bool" where
  "taken p sa =
     list_ex (\<lambda>l. sizeof_sockaddr (pr_sun_path_size p) (ln_sockaddr l) = sizeof_sockaddr (pr_sun_path_size p) sa \<and> ln_sockaddr l \<noteq> sa)
       (pr_listeners p)"

datatype listen_end = Listen_done | Listen_error | Listen_all

text \<open>The calls that may fail are \<open>calloc\<close> twice and \<open>evconnlistener_new_bind\<close>.\<close>

fun listen_addresses :: "sockaddr list \<Rightarrow> lgtd_process \<Rightarrow> listen_end \<times> lgtd_process" where
  "listen_addresses [] p = (Listen_all, p)"
| "listen_addresses (sa # rest) p =
     (if taken p sa then (Listen_done, p)
      else let (ok, p) = sys_call p in
      if \<not> ok then (Listen_error, p) else
      let (ok, p) = sys_call p in
      if \<not> ok then (Listen_error, p) else
      let (ok, p) = sys_call p in
      if \<not> ok then (Listen_error, p) else
      listen_addresses rest (p\<lparr>pr_listeners := \<lparr>ln_sockaddr = sa\<rparr> # pr_listeners p\<rparr>))"

definition lgtd_listen_open :: "sockaddr list option \<Rightarrow> lgtd_process \<Rightarrow> (bool \<times> lgtd_process) option" where
  "lgtd_listen_open res p =
     (case res of
        None \<Rightarrow> Some (False, p)
      | Some addrs \<Rightarrow>
          (case listen_addresses addrs p of
             (Listen_done, p) \<Rightarrow> Some (True, p)
           | (Listen_error, p) \<Rightarrow> Some (False, p)
           | (Listen_all, p) \<Rightarrow> do { p \<leftarrow> lgtd_daemon_update_proctitle p; Some (True, p) }))"

subsection \<open>Unix sockets\<close>

text \<open>\<open>strcmp\<close> of a stored path: when it fills its array and is the same so far, the comparison runs past its end.\<close>

fun unix_listener_at :: "nat \<Rightarrow> string \<Rightarrow> lgtd_listen list \<Rightarrow> bool option" where
  "unix_listener_at sun_path_size path [] = Some False"
| "unix_listener_at sun_path_size path (l # ls) =
     (case ln_sockaddr l of
        Sockaddr_un stored \<Rightarrow>
          (if stored = path then (if length stored < sun_path_size then Some True else None)
           else unix_listener_at sun_path_size path ls)
      | _ \<Rightarrow> unix_listener_at sun_path_size path ls)"

text \<open>The label \<open>error\<close>: whatever went wrong, the path is unlinked.\<close>

definition unix_open_error :: "string \<Rightarrow> lgtd_process \<Rightarrow> bool \<times> lgtd_process" where
  "unix_open_error path p = (False, snd (sys_unlink path p))"

text \<open>What is at the path already: nothing, or a socket that is removed.\<close>

definition clear_path :: "string \<Rightarrow> lgtd_process \<Rightarrow> bool \<times> lgtd_process" where
  "clear_path path p =
     (case sys_stat path p of
        (Stat_error, p) \<Rightarrow> (False, p)
      | (Stat_enoent, p) \<Rightarrow> (True, p)
      | (Stat_ok Socket_file, p) \<Rightarrow> (let (r, p) = sys_unlink path p in (r \<noteq> Unlink_error, p))
      | (Stat_ok _, p) \<Rightarrow> (False, p))"

text \<open>
  The calls that may fail: \<open>calloc\<close> twice, \<open>socket\<close>, \<open>evutil_make_socket_nonblocking\<close>, those on the path, \<open>bind\<close>, which makes the
  socket file, \<open>chmod\<close> and \<open>evconnlistener_new\<close>.
\<close>

fun sys_calls :: "nat \<Rightarrow> lgtd_process \<Rightarrow> bool \<times> lgtd_process" where
  "sys_calls 0 p = (True, p)"
| "sys_calls (Suc n) p = (let (ok, p) = sys_call p in if ok then sys_calls n p else (False, p))"

definition unix_open_new :: "string \<Rightarrow> lgtd_process \<Rightarrow> bool \<times> lgtd_process" where
  "unix_open_new path p =
     (let (ok, p) = sys_calls 4 p in
      if \<not> ok then unix_open_error path p else
      let (ok, p) = clear_path path p in
      if \<not> ok then unix_open_error path p else
      let (ok, p) = sys_create Socket_file path p in
      if \<not> ok then unix_open_error path p else
      let (ok, p) = sys_calls 2 p in
      if \<not> ok then unix_open_error path p else
      (True, p\<lparr>pr_listeners := \<lparr>ln_sockaddr = Sockaddr_un path\<rparr> # pr_listeners p\<rparr>))"

definition lgtd_listen_unix_open :: "string \<Rightarrow> lgtd_process \<Rightarrow> (bool \<times> lgtd_process) option" where
  "lgtd_listen_unix_open path p =
     (if pr_sun_path_size p < length path then Some (False, p)
      else do {
        open \<leftarrow> unix_listener_at (pr_sun_path_size p) path (pr_listeners p);
        if open then Some (True, p)
        else (case lgtd_daemon_makedirs path p of
                (False, p) \<Rightarrow> Some (False, p)
              | (True, p) \<Rightarrow> Some (unix_open_new path p))
      })"

subsection \<open>Facts\<close>

text \<open>What an operation on a path leaves alone: everything but the files, and the files that are neither it nor above it.\<close>

definition on_path :: "string \<Rightarrow> lgtd_process \<Rightarrow> lgtd_process \<Rightarrow> bool" where
  "on_path path p q \<longleftrightarrow> (\<exists>n f. q = p\<lparr>pr_files := f, pr_world := (pr_world p)\<lparr>w_ext_pos := n\<rparr>\<rparr>
     \<and> (\<forall>x. x \<noteq> path \<longrightarrow> f x = pr_files p x \<or> pr_files p x = None \<and> f x = Some Directory \<and> above path x))"

lemma on_path_files:
  "on_path path p q \<Longrightarrow> x \<noteq> path \<Longrightarrow> pr_files q x = pr_files p x \<or> pr_files p x = None \<and> pr_files q x = Some Directory \<and> above path x"
  by (auto simp: on_path_def)

lemma on_path_rest:
  "on_path path p q \<Longrightarrow> pr_listeners q = pr_listeners p" "on_path path p q \<Longrightarrow> pr_sun_path_size q = pr_sun_path_size p"
  "on_path path p q \<Longrightarrow> w_ext (pr_world q) = w_ext (pr_world p)"
  by (auto simp: on_path_def)

lemma on_path_trans:
  assumes "on_path path p q" "on_path path q r"
  shows "on_path path p r"
proof -
  obtain n f where q: "q = p\<lparr>pr_files := f, pr_world := (pr_world p)\<lparr>w_ext_pos := n\<rparr>\<rparr>" using assms(1) unfolding on_path_def by blast
  obtain m g where r: "r = q\<lparr>pr_files := g, pr_world := (pr_world q)\<lparr>w_ext_pos := m\<rparr>\<rparr>" using assms(2) unfolding on_path_def by blast
  have "g x = pr_files p x \<or> pr_files p x = None \<and> g x = Some Directory \<and> above path x" if "x \<noteq> path" for x
    using on_path_files [OF assms(1) that] on_path_files [OF assms(2) that] r by auto
  moreover have "r = p\<lparr>pr_files := g, pr_world := (pr_world p)\<lparr>w_ext_pos := m\<rparr>\<rparr>" using q r by simp
  ultimately show ?thesis unfolding on_path_def by blast
qed

lemma on_path_only_dirs: "only_dirs path p q \<Longrightarrow> on_path path p q"
  unfolding only_dirs_def on_path_def by blast

lemma on_path_same: "same_process p q \<Longrightarrow> on_path path p q"
  using on_path_only_dirs [OF only_dirs_same] .

lemma on_path_update: "on_path path p (p\<lparr>pr_files := (pr_files p)(path := i)\<rparr>)"
proof -
  have "p\<lparr>pr_files := (pr_files p)(path := i)\<rparr> = p\<lparr>pr_files := (pr_files p)(path := i),
      pr_world := (pr_world p)\<lparr>w_ext_pos := w_ext_pos (pr_world p)\<rparr>\<rparr>" by simp
  then show ?thesis unfolding on_path_def by (metis fun_upd_other)
qed

lemma sys_call_path: "sys_call p = (ok, q) \<Longrightarrow> on_path path p q \<and> pr_files q = pr_files p"
proof
  assume c: "sys_call p = (ok, q)"
  then show "on_path path p q" using on_path_same [OF same_process_sys_call, of path p] by simp
  show "pr_files q = pr_files p" using c by (auto simp: sys_call_eq)
qed

lemma sys_calls_path: "sys_calls n p = (ok, q) \<Longrightarrow> on_path path p q \<and> pr_files q = pr_files p"
proof (induction n arbitrary: p)
  case 0
  then show ?case by (auto intro: on_path_same)
next
  case (Suc n)
  obtain b p1 where p1: "sys_call p = (b, p1)" by fastforce
  from sys_call_path [OF p1, of path] have f: "on_path path p p1" "pr_files p1 = pr_files p" by auto
  show ?case
  proof (cases b)
    case True
    then show ?thesis using Suc.IH [of p1] Suc.prems p1 f on_path_trans by auto
  qed (use Suc.prems p1 f in auto)
qed

lemma sys_unlink_path:
  assumes "sys_unlink path p = (r, q)"
  shows "on_path path p q" "pr_files q path = pr_files p path \<or> pr_files q path = None"
proof -
  obtain b p1 where p1: "sys_call p = (b, p1)" by fastforce
  from sys_call_path [OF p1, of path] have f: "on_path path p p1" "pr_files p1 = pr_files p" by auto
  have "q = p1 \<or> q = p1\<lparr>pr_files := (pr_files p1)(path := None)\<rparr>" using assms p1 by (auto simp: sys_unlink_def split: if_splits)
  then show "on_path path p q" "pr_files q path = pr_files p path \<or> pr_files q path = None"
    using f on_path_trans [OF f(1) on_path_update] by auto
qed

lemma sys_create_path:
  assumes "sys_create i path p = (ok, q)"
  shows "on_path path p q" "ok \<Longrightarrow> pr_files q path = Some i"
proof -
  obtain b p1 where p1: "sys_call p = (b, p1)" by fastforce
  from sys_call_path [OF p1, of path] have f: "on_path path p p1" "pr_files p1 = pr_files p" by auto
  have "q = p1 \<and> \<not> ok \<or> q = p1\<lparr>pr_files := (pr_files p1)(path \<mapsto> i)\<rparr>" using assms p1 by (auto simp: sys_create_def split: if_splits)
  then show "on_path path p q" "ok \<Longrightarrow> pr_files q path = Some i"
    using f on_path_trans [OF f(1) on_path_update] by auto
qed

lemma clear_path_path:
  assumes "clear_path path p = (ok, q)"
  shows "on_path path p q" "pr_files q path = pr_files p path \<or> pr_files q path = None"
    "ok \<Longrightarrow> pr_files p path = None \<or> pr_files p path = Some Socket_file"
proof -
  obtain st p1 where p1: "sys_stat path p = (st, p1)" by fastforce
  have f: "on_path path p p1" "pr_files p1 = pr_files p"
    using p1 sys_call_path [of p _ p1 path] by (auto simp: sys_stat_def split: prod.splits)
  have "q = p1 \<or> (\<exists>r. sys_unlink path p1 = (r, q))"
    using assms p1 by (auto simp: clear_path_def split: stat_result.splits inode.splits prod.splits)
  then show "on_path path p q" "pr_files q path = pr_files p path \<or> pr_files q path = None"
    using f sys_unlink_path on_path_trans by fastforce+
  show "pr_files p path = None \<or> pr_files p path = Some Socket_file" if ok
    using assms p1 that f(2)
    by (auto simp: clear_path_def sys_stat_def sys_call_eq split: stat_result.splits inode.splits prod.splits if_splits option.splits)
qed

text \<open>
  Opening a Unix socket: it is there and listened on, or nothing is new, and what was at the path is still there or gone.
\<close>

definition unix_opened :: "string \<Rightarrow> lgtd_process \<Rightarrow> bool \<Rightarrow> lgtd_process \<Rightarrow> bool" where
  "unix_opened path p ok q \<longleftrightarrow> (\<exists>r. on_path path p r
     \<and> (if ok then q = r\<lparr>pr_listeners := \<lparr>ln_sockaddr = Sockaddr_un path\<rparr> # pr_listeners p\<rparr> \<and> pr_files r path = Some Socket_file
        else q = r \<and> (pr_files p path = None \<or> pr_files r path = pr_files p path \<or> pr_files r path = None)))"

lemma unix_open_error_spec:
  assumes "unix_open_error path x = (ok, q)" "on_path path p x"
    and "pr_files p path = None \<or> pr_files x path = pr_files p path \<or> pr_files x path = None"
  shows "unix_opened path p ok q"
proof -
  have "\<not> ok" "sys_unlink path x = (fst (sys_unlink path x), q)" using assms(1) by (auto simp: unix_open_error_def)
  then show ?thesis
    using sys_unlink_path [of path x "fst (sys_unlink path x)" q] on_path_trans [OF assms(2)] assms(3) by (auto simp: unix_opened_def)
qed

lemma unix_open_new_spec:
  assumes "unix_open_new path p = (ok, q)"
  shows "unix_opened path p ok q"
proof -
  obtain o1 p1 where p1: "sys_calls 4 p = (o1, p1)" by fastforce
  obtain o2 p2 where p2: "clear_path path p1 = (o2, p2)" by fastforce
  obtain o3 p3 where p3: "sys_create Socket_file path p2 = (o3, p3)" by fastforce
  obtain o4 p4 where p4: "sys_calls 2 p3 = (o4, p4)" by fastforce
  have f1: "on_path path p p1" "pr_files p1 = pr_files p" using sys_calls_path [OF p1] by auto
  have f2: "on_path path p p2" by (rule on_path_trans [OF f1(1) clear_path_path(1) [OF p2]])
  have f3: "on_path path p p3" by (rule on_path_trans [OF f2 sys_create_path(1) [OF p3]])
  have f4: "on_path path p p4" "pr_files p4 = pr_files p3" using on_path_trans [OF f3] sys_calls_path [OF p4] by auto
  have a2: "pr_files p2 path = pr_files p path \<or> pr_files p2 path = None" using clear_path_path(2) [OF p2] f1(2) by simp
  have a3: "pr_files p3 path = pr_files p2 path" if "\<not> o3"
    using p3 that by (auto simp: sys_create_def sys_call_eq split: if_splits)
  have s3: "pr_files p3 path = Some Socket_file" if o3 using sys_create_path(2) [OF p3 that] .
  have was: "pr_files p path = None \<or> pr_files p path = Some Socket_file" if o2 using clear_path_path(3) [OF p2 that] f1(2) by simp
  note step = assms [unfolded unix_open_new_def Let_def p1 prod.case p2 p3 p4]
  consider "\<not> o1" | "o1" "\<not> o2" | "o1" "o2" "\<not> o3" | "o1" "o2" "o3" "\<not> o4" | "o1" "o2" "o3" "o4" by blast
  then show ?thesis
  proof cases
    case 1
    then show ?thesis using step unix_open_error_spec [OF _ f1(1)] f1(2) by simp
  next
    case 2
    then show ?thesis using step unix_open_error_spec [OF _ f2] a2 by simp
  next
    case 3
    then show ?thesis using step unix_open_error_spec [OF _ f3] a2 a3 by simp
  next
    case 4
    then show ?thesis using step unix_open_error_spec [OF _ f4(1)] f4(2) s3 was by auto
  next
    case 5
    then show ?thesis using step f4 s3 on_path_rest(1) [OF f4(1)] by (auto simp: unix_opened_def)
  qed
qed

subsection \<open>Invariant\<close>

fun unix_paths :: "lgtd_listen list \<Rightarrow> string list" where
  "unix_paths [] = []"
| "unix_paths (l # ls) = (case ln_sockaddr l of Sockaddr_un path \<Rightarrow> path # unix_paths ls | _ \<Rightarrow> unix_paths ls)"

definition listeners_ok :: "lgtd_process \<Rightarrow> bool" where
  "listeners_ok p \<longleftrightarrow> distinct (unix_paths (pr_listeners p))
     \<and> list_all (\<lambda>path. pr_files p path = Some Socket_file) (unix_paths (pr_listeners p))"

lemma unix_listener_at_paths:
  "unix_listener_at size_un path ls = Some r \<Longrightarrow> r \<longleftrightarrow> path \<in> set (unix_paths ls)"
  by (induction ls) (auto split: sockaddr.splits if_splits)

lemma unix_listener_at_none: "path \<notin> set (unix_paths ls) \<Longrightarrow> unix_listener_at size_un path ls = Some False"
  by (induction ls) (auto split: sockaddr.splits if_splits)

lemma on_path_listeners:
  assumes "on_path path p q" "path \<notin> set (unix_paths (pr_listeners p))" "listeners_ok p"
  shows "listeners_ok q"
proof -
  have "pr_files q x = Some Socket_file" if "x \<in> set (unix_paths (pr_listeners p))" for x
    using on_path_files [OF assms(1), of x] that assms(2,3) by (auto simp: listeners_ok_def list_all_iff)
  then show ?thesis using assms(3) on_path_rest(1) [OF assms(1)] by (simp add: listeners_ok_def list_all_iff)
qed

lemma makedirs_on_path:
  assumes "lgtd_daemon_makedirs path p = (ok, q)"
  shows "on_path path p q" "pr_files p path \<noteq> None \<Longrightarrow> pr_files q path = pr_files p path"
proof -
  have "only_dirs path p q" using makedirs_only_dirs assms by (simp add: lgtd_daemon_makedirs_def)
  then show "on_path path p q" "pr_files p path \<noteq> None \<Longrightarrow> pr_files q path = pr_files p path"
    using on_path_only_dirs only_dirs_keeps by auto
qed

lemma unix_opened_makedirs:
  assumes "lgtd_daemon_makedirs path p = (ok1, p1)" "unix_opened path p1 ok q"
  shows "unix_opened path p ok q"
proof -
  note f = makedirs_on_path [OF assms(1)]
  from assms(2) obtain r where r: "on_path path p1 r"
    "if ok then q = r\<lparr>pr_listeners := \<lparr>ln_sockaddr = Sockaddr_un path\<rparr> # pr_listeners p1\<rparr> \<and> pr_files r path = Some Socket_file
     else q = r \<and> (pr_files p1 path = None \<or> pr_files r path = pr_files p1 path \<or> pr_files r path = None)"
    by (auto simp: unix_opened_def)
  have "pr_files p path = None \<or> pr_files p1 path = pr_files p path" using f(2) by blast
  then show ?thesis using on_path_trans [OF f(1) r(1)] on_path_rest(1) [OF f(1)] r(2) unfolding unix_opened_def
    by (intro exI [of _ r]) (auto split: if_splits)
qed

lemma unix_open_cases:
  assumes "lgtd_listen_unix_open path p = Some (ok, q)"
  shows "q = p \<and> (ok \<longrightarrow> path \<in> set (unix_paths (pr_listeners p)))
    \<or> path \<notin> set (unix_paths (pr_listeners p)) \<and> unix_opened path p ok q"
proof (cases "pr_sun_path_size p < length path")
  case True
  then show ?thesis using assms by (auto simp: lgtd_listen_unix_open_def)
next
  case len: False
  then obtain there where at: "unix_listener_at (pr_sun_path_size p) path (pr_listeners p) = Some there"
    using assms by (auto simp: lgtd_listen_unix_open_def bind_eq_Some_conv)
  note mem = unix_listener_at_paths [OF at]
  show ?thesis
  proof (cases there)
    case True
    then show ?thesis using assms len at mem by (auto simp: lgtd_listen_unix_open_def)
  next
    case False
    obtain o1 p1 where p1: "lgtd_daemon_makedirs path p = (o1, p1)" by fastforce
    have "unix_opened path p1 ok q"
      using assms len at False p1 unix_open_new_spec [of path p1] on_path_same [of p1 p1 path]
      by (cases o1) (auto simp: lgtd_listen_unix_open_def unix_opened_def)
    then show ?thesis using unix_opened_makedirs [OF p1] mem False by simp
  qed
qed

text \<open>
  C20: opening a Unix socket keeps the listeners consistent, whether it works or not: their paths are different and there is a
  socket at each of them. When it reports success there is a listener on the path and a socket at it: one listener was added
  if none was there, and none otherwise; when it reports failure the listeners are the same. Every other name is as it was,
  unless it is that of a directory above the path that was missing and was made. What was at the path when opening fails is
  either still there or gone: the error path unlinks it, even an ordinary file.
\<close>

theorem unix_open_keeps_listeners:
  assumes "listeners_ok p" "lgtd_listen_unix_open path p = Some (ok, q)"
  shows "listeners_ok q
    \<and> pr_listeners q = (if ok \<and> path \<notin> set (unix_paths (pr_listeners p)) then [\<lparr>ln_sockaddr = Sockaddr_un path\<rparr>] else []) @ pr_listeners p
    \<and> (ok \<longrightarrow> path \<in> set (unix_paths (pr_listeners q)) \<and> pr_files q path = Some Socket_file)
    \<and> (\<not> ok \<and> pr_files p path \<noteq> None \<longrightarrow> pr_files q path = pr_files p path \<or> pr_files q path = None)
    \<and> (\<forall>x. x \<noteq> path \<longrightarrow> pr_files q x = pr_files p x
         \<or> pr_files p x = None \<and> pr_files q x = Some Directory \<and> above path x)"
  using unix_open_cases [OF assms(2)]
proof
  assume "q = p \<and> (ok \<longrightarrow> path \<in> set (unix_paths (pr_listeners p)))"
  then show ?thesis using assms(1) by (auto simp: listeners_ok_def list_all_iff)
next
  assume a: "path \<notin> set (unix_paths (pr_listeners p)) \<and> unix_opened path p ok q"
  then obtain r where r: "on_path path p r"
    "if ok then q = r\<lparr>pr_listeners := \<lparr>ln_sockaddr = Sockaddr_un path\<rparr> # pr_listeners p\<rparr> \<and> pr_files r path = Some Socket_file
     else q = r \<and> (pr_files p path = None \<or> pr_files r path = pr_files p path \<or> pr_files r path = None)"
    by (auto simp: unix_opened_def)
  have ls: "listeners_ok r" "pr_listeners r = pr_listeners p"
    using on_path_listeners [OF r(1) _ assms(1)] on_path_rest(1) [OF r(1)] a by auto
  have fs: "pr_files q x = pr_files p x \<or> pr_files p x = None \<and> pr_files q x = Some Directory \<and> above path x" if "x \<noteq> path" for x
    using on_path_files [OF r(1) that] r(2) by (auto split: if_splits)
  show ?thesis using ls fs r(2) a by (auto simp: listeners_ok_def split: if_splits)
qed

text \<open>
  Asking for a Unix socket at the path of an ordinary file destroys the file: the file makes the call fail, as it should, but the
  error path unlinks the path whatever is there.
\<close>

theorem unix_open_deletes_file:
  assumes "pr_files p path = Some Regular" "length path \<le> pr_sun_path_size p" "path \<notin> set (unix_paths (pr_listeners p))"
    and "lgtd_daemon_makedirs path p = (True, p1)" "\<forall>n. w_ext (pr_world p) n"
  shows "\<exists>q. lgtd_listen_unix_open path p = Some (False, q) \<and> pr_files q path = None"
proof -
  have at: "unix_listener_at (pr_sun_path_size p) path (pr_listeners p) = Some False"
    by (rule unix_listener_at_none [OF assms(3)])
  have od: "only_dirs path p p1" using makedirs_only_dirs assms(4) by (simp add: lgtd_daemon_makedirs_def)
  then have f1: "pr_files p1 path = Some Regular" "w_ext (pr_world p1) = w_ext (pr_world p)"
    using only_dirs_keeps [OF od assms(1)] on_path_rest(3) [OF on_path_only_dirs [OF od]] by auto
  have ok: "sys_call x = (True, x\<lparr>pr_world := (pr_world x)\<lparr>w_ext_pos := Suc (w_ext_pos (pr_world x))\<rparr>\<rparr>)"
    if "w_ext (pr_world x) = w_ext (pr_world p)" for x using assms(5) that by (simp add: sys_call_eq)
  have "\<exists>q. unix_open_new path p1 = (False, q) \<and> pr_files q path = None"
    using f1 by (simp add: unix_open_new_def numeral_eq_Suc ok clear_path_def sys_stat_def unix_open_error_def sys_unlink_def)
  then show ?thesis using assms(2,4) at by (auto simp: lgtd_listen_unix_open_def)
qed

text \<open>
  Of the addresses a name stands for, one of each kind is listened on at most: a second address of the same size, say a
  second IPv4 address, ends the loop and success is reported without a listener on it or on the addresses after it, because the
  comparison that should recognise an address that is already there is inverted.
\<close>

theorem second_address_ignored:
  assumes "l \<in> set (pr_listeners p)" "ln_sockaddr l \<noteq> sa"
    and "sizeof_sockaddr (pr_sun_path_size p) (ln_sockaddr l) = sizeof_sockaddr (pr_sun_path_size p) sa"
  shows "lgtd_listen_open (Some (sa # rest)) p = Some (True, p)"
proof -
  have "taken p sa" using assms by (auto simp: taken_def list_ex_iff)
  then show ?thesis by (simp add: lgtd_listen_open_def)
qed

text \<open>Closing: the sockets are gone.\<close>

definition printable :: "lgtd_process \<Rightarrow> lgtd_listen \<Rightarrow> bool" where
  "printable p l \<longleftrightarrow> lgtd_sockaddrtoa (pr_inet_ntop p) (pr_sun_path_size p) (ln_sockaddr l) LGTD_SOCKADDR_STRLEN \<noteq> None"

text \<open>Unlinking a socket takes one call and removes it when the call works.\<close>

lemma sys_unlink_socket:
  "pr_files p path = Some Socket_file \<Longrightarrow>
     snd (sys_unlink path p) = p\<lparr>pr_files := (pr_files p)(path := if w_ext (pr_world p) (w_ext_pos (pr_world p)) then None else pr_files p path),
       pr_world := (pr_world p)\<lparr>w_ext_pos := w_ext_pos (pr_world p) + 1\<rparr>\<rparr>"
  by (auto simp: sys_unlink_def sys_call_eq intro!: lgtd_process.equality)

text \<open>The files once the sockets at the paths were unlinked in turn, the \<open>k\<close>-th of them with the \<open>k\<close>-th call.\<close>

fun unlink_sockets :: "(nat \<Rightarrow> bool) \<Rightarrow> nat \<Rightarrow> string list \<Rightarrow> (string \<Rightarrow> inode option) \<Rightarrow> (string \<Rightarrow> inode option)" where
  "unlink_sockets ok k [] f = f"
| "unlink_sockets ok k (path # paths) f = unlink_sockets ok (k + 1) paths (f(path := if ok k then None else f path))"

lemma unlink_sockets_other: "x \<notin> set paths \<Longrightarrow> unlink_sockets ok k paths f x = f x"
  by (induction paths arbitrary: k f) auto

lemma unlink_sockets_nth:
  "distinct paths \<Longrightarrow> j < length paths \<Longrightarrow> unlink_sockets ok k paths f (paths ! j) = (if ok (k + j) then None else f (paths ! j))"
proof (induction paths arbitrary: j k f)
  case (Cons path paths)
  then show ?case by (cases j) (auto simp: unlink_sockets_other)
qed simp

lemma close_listener_spec:
  assumes "printable p l" "list_all (\<lambda>path. pr_files p path = Some Socket_file) (unix_paths [l])"
  shows "close_listener l p = Some (p\<lparr>
    pr_files := unlink_sockets (w_ext (pr_world p)) (w_ext_pos (pr_world p)) (unix_paths [l]) (pr_files p),
    pr_world := (pr_world p)\<lparr>w_ext_pos := w_ext_pos (pr_world p) + length (unix_paths [l])\<rparr>\<rparr>)"
proof -
  obtain str where pr: "lgtd_sockaddrtoa (pr_inet_ntop p) (pr_sun_path_size p) (ln_sockaddr l) LGTD_SOCKADDR_STRLEN = Some str"
    using assms(1) by (auto simp: printable_def)
  show ?thesis
  proof (cases "ln_sockaddr l")
    case (Sockaddr_un path)
    then have "sun_path (pr_sun_path_size p) path = Some path" using pr
      by (auto simp: lgtd_sockaddrtoa_def sun_path_def bind_eq_Some_conv split: if_splits)
    then show ?thesis using Sockaddr_un pr assms(2) by (simp add: close_listener_def sys_unlink_socket)
  qed (use pr in \<open>simp_all add: close_listener_def\<close>)
qed

lemma unix_paths_Cons: "unix_paths (l # ls) = unix_paths [l] @ unix_paths ls"
  by (cases "ln_sockaddr l") simp_all

lemma unlink_sockets_append:
  "unlink_sockets ok k (xs @ ys) f = unlink_sockets ok (k + length xs) ys (unlink_sockets ok k xs f)"
  by (induction xs arbitrary: k f) simp_all

lemma close_listeners_spec:
  assumes "list_all (printable p) ls" "distinct (unix_paths ls)"
    and "list_all (\<lambda>path. pr_files p path = Some Socket_file) (unix_paths ls)" "ls = [] \<Longrightarrow> pr_listeners p = []"
  shows "close_listeners ls p = Some (p\<lparr>pr_listeners := [],
    pr_files := unlink_sockets (w_ext (pr_world p)) (w_ext_pos (pr_world p)) (unix_paths ls) (pr_files p),
    pr_world := (pr_world p)\<lparr>w_ext_pos := w_ext_pos (pr_world p) + length (unix_paths ls)\<rparr>\<rparr>)"
  using assms
proof (induction ls arbitrary: p)
  case Nil
  then show ?case by simp
next
  case (Cons l ls)
  define p0 where "p0 = p\<lparr>pr_listeners := ls\<rparr>"
  note paths = unix_paths_Cons [of l ls]
  have l: "printable p0 l" "list_all (\<lambda>path. pr_files p0 path = Some Socket_file) (unix_paths [l])"
    using Cons.prems(1,3) unfolding paths by (auto simp: p0_def printable_def list_all_iff simp del: unix_paths.simps)
  define p1 where "p1 = p0\<lparr>
    pr_files := unlink_sockets (w_ext (pr_world p)) (w_ext_pos (pr_world p)) (unix_paths [l]) (pr_files p),
    pr_world := (pr_world p)\<lparr>w_ext_pos := w_ext_pos (pr_world p) + length (unix_paths [l])\<rparr>\<rparr>"
  have step: "close_listener l p0 = Some p1" using close_listener_spec [OF l] by (simp add: p1_def p0_def)
  have "list_all (printable p1) ls" using Cons.prems(1) by (simp add: printable_def p1_def p0_def list_all_iff)
  moreover have "distinct (unix_paths ls)" using Cons.prems(2) unfolding paths by simp
  moreover have "list_all (\<lambda>path. pr_files p1 path = Some Socket_file) (unix_paths ls)"
  proof -
    have "x \<notin> set (unix_paths [l]) \<and> pr_files p x = Some Socket_file" if "x \<in> set (unix_paths ls)" for x
      using Cons.prems(2,3) that unfolding paths by (auto simp: list_all_iff simp del: unix_paths.simps)
    then show ?thesis by (simp add: p1_def list_all_iff unlink_sockets_other del: unix_paths.simps)
  qed
  moreover have "ls = [] \<Longrightarrow> pr_listeners p1 = []" by (simp add: p1_def p0_def)
  ultimately show ?case using Cons.IH [of p1] step unfolding paths unlink_sockets_append
    by (simp add: p0_def p1_def add.assoc del: unix_paths.simps)
qed

text \<open>
  C35: closing the listeners returns for listeners whose addresses \<open>lgtd_sockaddrtoa\<close> can print, and leaves none. Their sockets
  are unlinked in turn, one call for each: the \<open>k\<close>-th is gone when the \<open>k\<close>-th call works and still there when it
  fails, which only gives a warning. Every other file is as it was.
\<close>

theorem listen_close_all_removes_sockets:
  assumes "listeners_ok p" "list_all (printable p) (pr_listeners p)"
  shows "\<exists>q. lgtd_listen_close_all p = Some q \<and> pr_listeners q = []
    \<and> (\<forall>k<length (unix_paths (pr_listeners p)). pr_files q (unix_paths (pr_listeners p) ! k) =
         (if w_ext (pr_world p) (w_ext_pos (pr_world p) + k) then None else Some Socket_file))
    \<and> (\<forall>x. x \<notin> set (unix_paths (pr_listeners p)) \<longrightarrow> pr_files q x = pr_files p x)"
proof -
  let ?paths = "unix_paths (pr_listeners p)"
  define q where "q = p\<lparr>pr_listeners := [],
    pr_files := unlink_sockets (w_ext (pr_world p)) (w_ext_pos (pr_world p)) ?paths (pr_files p),
    pr_world := (pr_world p)\<lparr>w_ext_pos := w_ext_pos (pr_world p) + length ?paths\<rparr>\<rparr>"
  have ok: "distinct ?paths" "\<And>k. k < length ?paths \<Longrightarrow> pr_files p (?paths ! k) = Some Socket_file"
    using assms(1) by (auto simp: listeners_ok_def list_all_length)
  have "close_listeners (pr_listeners p) p = Some q"
    using close_listeners_spec [of p "pr_listeners p"] assms by (simp add: listeners_ok_def q_def)
  moreover obtain t where "lgtd_daemon_update_proctitle q = Some (q\<lparr>pr_title := t\<rparr>)"
    using update_proctitle_no_listeners [of q] by (auto simp: q_def)
  ultimately have "lgtd_listen_close_all p = Some (q\<lparr>pr_title := t\<rparr>)" by (simp add: lgtd_listen_close_all_def)
  then show ?thesis using ok unlink_sockets_nth [OF ok(1)] unlink_sockets_other by (simp add: q_def)
qed

subsection \<open>Examples\<close>

definition listening_process :: lgtd_process where
  "listening_process = sample_process\<lparr>
     pr_files := (pr_files sample_process)(''/run/s'' \<mapsto> Socket_file),
     pr_listeners := [\<lparr>ln_sockaddr = Sockaddr_un ''/run/s''\<rparr>, \<lparr>ln_sockaddr = Sockaddr_in [127, 0, 0, 1] 1234\<rparr>],
     pr_world := sample_world\<lparr>w_ext := (\<lambda>n. True)\<rparr>\<rparr>"

lemma listening_process_ok: "listeners_ok listening_process" "list_all (printable listening_process) (pr_listeners listening_process)"
  by code_simp+

lemma listening_process_files:
  "pr_files listening_process ''/run/notes'' = Some Regular" "''/run/notes'' \<noteq> ''/run/lightsd/t''"
  "''/run/lightsd/t'' \<notin> set (unix_paths (pr_listeners listening_process))"
  by (simp_all add: listening_process_def sample_process_def)

definition failing_process :: lgtd_process where
  "failing_process = listening_process\<lparr>pr_world := sample_world\<lparr>w_ext := (\<lambda>n. False)\<rparr>\<rparr>"

lemma failing_process_ok: "listeners_ok failing_process" "list_all (printable failing_process) (pr_listeners failing_process)"
  by code_simp+

lemma listening_process_calls: "\<forall>n. w_ext (pr_world listening_process) n"
  by (simp add: listening_process_def)

theorem listen_close_all_removes_sockets_witness:
  "(\<exists>q. lgtd_listen_close_all listening_process = Some q \<and> pr_listeners q = [] \<and> pr_files q ''/run/s'' = None
      \<and> pr_files q ''/run/notes'' = Some Regular)
   \<and> (\<exists>q. lgtd_listen_close_all failing_process = Some q \<and> pr_listeners q = [] \<and> pr_files q ''/run/s'' = Some Socket_file)"
proof
  from listen_close_all_removes_sockets [OF listening_process_ok] show
    "\<exists>q. lgtd_listen_close_all listening_process = Some q \<and> pr_listeners q = [] \<and> pr_files q ''/run/s'' = None
      \<and> pr_files q ''/run/notes'' = Some Regular"
    by (auto simp: listening_process_def sample_process_def)
  from listen_close_all_removes_sockets [OF failing_process_ok] show
    "\<exists>q. lgtd_listen_close_all failing_process = Some q \<and> pr_listeners q = [] \<and> pr_files q ''/run/s'' = Some Socket_file"
    by (auto simp: failing_process_def listening_process_def sample_process_def)
qed

theorem unix_open_keeps_listeners_witness:
  "(\<exists>q. lgtd_listen_unix_open ''/run/lightsd/t'' listening_process = Some (True, q) \<and> listeners_ok q
      \<and> pr_listeners q = \<lparr>ln_sockaddr = Sockaddr_un ''/run/lightsd/t''\<rparr> # pr_listeners listening_process
      \<and> pr_files q ''/run/lightsd/t'' = Some Socket_file \<and> pr_files q ''/run/notes'' = Some Regular)
   \<and> (\<exists>q. lgtd_listen_unix_open ''/run/notes'' listening_process = Some (False, q) \<and> listeners_ok q
      \<and> pr_listeners q = pr_listeners listening_process)"
proof
  have "map_option fst (lgtd_listen_unix_open ''/run/lightsd/t'' listening_process) = Some True" by code_simp
  then obtain q where q: "lgtd_listen_unix_open ''/run/lightsd/t'' listening_process = Some (True, q)" by auto
  note r = unix_open_keeps_listeners [OF listening_process_ok(1) q]
  then have "pr_files q ''/run/notes'' = Some Regular" using listening_process_files(1,2) by (metis option.distinct(1))
  with q r show "\<exists>q. lgtd_listen_unix_open ''/run/lightsd/t'' listening_process = Some (True, q) \<and> listeners_ok q
      \<and> pr_listeners q = \<lparr>ln_sockaddr = Sockaddr_un ''/run/lightsd/t''\<rparr> # pr_listeners listening_process
      \<and> pr_files q ''/run/lightsd/t'' = Some Socket_file \<and> pr_files q ''/run/notes'' = Some Regular"
    using listening_process_files(3) by (intro exI [of _ q]) simp
  have "map_option fst (lgtd_listen_unix_open ''/run/notes'' listening_process) = Some False" by code_simp
  then obtain q where q: "lgtd_listen_unix_open ''/run/notes'' listening_process = Some (False, q)" by auto
  then show "\<exists>q. lgtd_listen_unix_open ''/run/notes'' listening_process = Some (False, q) \<and> listeners_ok q
      \<and> pr_listeners q = pr_listeners listening_process"
    using unix_open_keeps_listeners [OF listening_process_ok(1) q] by auto
qed

theorem unix_open_deletes_file_witness:
  "\<exists>q. lgtd_listen_unix_open ''/run/notes'' listening_process = Some (False, q) \<and> pr_files q ''/run/notes'' = None"
proof -
  obtain ok p1 where p1: "lgtd_daemon_makedirs ''/run/notes'' listening_process = (ok, p1)" by fastforce
  have "fst (lgtd_daemon_makedirs ''/run/notes'' listening_process)" by code_simp
  with p1 show ?thesis
    using unix_open_deletes_file [OF _ _ _ _ listening_process_calls, of "''/run/notes''" p1]
    by (simp add: listening_process_def sample_process_def)
qed

theorem second_address_ignored_witness:
  "lgtd_listen_open (Some [Sockaddr_in [10, 0, 0, 1] 1234, Sockaddr_in6 (replicate 16 0) 1234 0 0]) listening_process = Some (True, listening_process)"
  by (rule second_address_ignored [of "\<lparr>ln_sockaddr = Sockaddr_in [127, 0, 0, 1] 1234\<rparr>"])
    (simp_all add: listening_process_def sizeof_sockaddr_def)

end
