(* ===== verification/Gateway_Bulbs.thy ===== *)
theory Gateway_Bulbs
  imports Gateway
begin

text \<open>
  Opening and closing of bulbs and of gateways keep the invariant of the world: the links between bulbs and gateways,
  the reference counts of the tags, the sites of the tags, the counters and the timers.
\<close>

unbundle bit_operations_syntax

subsection \<open>The part of the invariant that is about bulbs\<close>

text \<open>While a gateway is being closed its tags and its timer are gone already; this part of the invariant
  still holds then.\<close>

definition inv_counts :: "lgtd_world \<Rightarrow> bool" where
  "inv_counts w \<longleftrightarrow> st_bulbs (w_stats w) = int (length (w_bulbs w))
     \<and> st_bulbs_powered_on (w_stats w) = int (acount bulb_on (w_bulbs w))"

definition wf_bulbs :: "lgtd_world \<Rightarrow> bool" where
  "wf_bulbs w \<longleftrightarrow> inv_keys w \<and> inv_local w \<and> inv_links w \<and> inv_refs w \<and> inv_counts w"

lemma wf_bulbsD:
  assumes "wf_bulbs w"
  shows "inv_keys w" "inv_local w" "inv_links w" "inv_refs w" "inv_counts w"
  using assms by (simp_all add: wf_bulbs_def)

lemma wf_world_bulbs: "wf_world w \<Longrightarrow> wf_bulbs w"
  by (simp add: wf_world_def wf_bulbs_def inv_stats_def inv_counts_def)

lemma wf_bulbs_bulb:
  assumes "wf_bulbs w" "find_gw i w = Some g" "a \<in> set (g_bulbs g)"
  shows "\<exists>b. find_bulb a w = Some b \<and> b_gw b = i \<and> bulb_local b"
  using assms by (fastforce simp: wf_bulbs_def inv_links_def inv_local_def)

lemma ring_inv_fields [simp]:
  "ring_inv (g\<lparr>g_bulbs := bs\<rparr>) = ring_inv g" "ring_inv (g\<lparr>g_tags := ts\<rparr>) = ring_inv g"
  "ring_inv (g\<lparr>g_tag_ids := ids\<rparr>) = ring_inv g" "ring_inv (g\<lparr>g_last_pkt_at := t\<rparr>) = ring_inv g"
  by (simp_all add: ring_inv_def ring_msgs_def ring_count_def)

subsection \<open>Closing a bulb\<close>

text \<open>The loop that takes the tags of a bulb off the reference counts.\<close>

definition drop_tag :: "nat \<Rightarrow> lgtd_lifx_gateway \<Rightarrow> lgtd_lifx_gateway option" where
  "drop_tag tag_id g = do {
     c_assert (0 < g_tag_refcounts g ! tag_id);
     Some (g\<lparr>g_tag_refcounts := (g_tag_refcounts g)[tag_id := g_tag_refcounts g ! tag_id - 1]\<rparr>)
   }"

lemma drop_tags_loop:
  assumes "distinct ids" "\<forall>k\<in>set ids. k < length (g_tag_refcounts g) \<and> g_tag_refcounts g ! k \<noteq> 0"
  shows "\<exists>r. foreach drop_tag ids g = Some (g\<lparr>g_tag_refcounts := r\<rparr>) \<and> length r = length (g_tag_refcounts g)
     \<and> (\<forall>k<length r. r ! k = (if k \<in> set ids then g_tag_refcounts g ! k - 1 else g_tag_refcounts g ! k))"
  using assms
proof (induction ids arbitrary: g)
  case Nil
  show ?case by (rule exI [of _ "g_tag_refcounts g"]) simp
next
  case (Cons i ids)
  define h where "h = g\<lparr>g_tag_refcounts := (g_tag_refcounts g)[i := g_tag_refcounts g ! i - 1]\<rparr>"
  have "drop_tag i g = Some h" using Cons.prems by (simp add: drop_tag_def h_def word_greater_zero_iff)
  moreover have "\<forall>k\<in>set ids. k < length (g_tag_refcounts h) \<and> g_tag_refcounts h ! k \<noteq> 0"
    using Cons.prems by (auto simp: h_def nth_list_update)
  ultimately obtain r where r: "foreach drop_tag (i # ids) g = Some (h\<lparr>g_tag_refcounts := r\<rparr>)"
      "length r = length (g_tag_refcounts h)"
      "\<forall>k<length r. r ! k = (if k \<in> set ids then g_tag_refcounts h ! k - 1 else g_tag_refcounts h ! k)"
    using Cons.IH [of h] Cons.prems(1) by auto
  show ?case
    by (rule exI [of _ r]) (use r Cons.prems in \<open>auto simp: h_def nth_list_update\<close>)
qed

lemma count_tagged_bulbs_eq:
  assumes "a \<notin> set addrs" "\<forall>c\<in>set addrs. find_bulb c w \<noteq> None" "k < 64"
  shows "count_tagged_bulbs w a k addrs = Some (tag_count (w_bulbs w) addrs k)"
proof -
  have "foreach (\<lambda>gw_bulb n. do {
         c_assert (gw_bulb \<noteq> a);
         b \<leftarrow> find_bulb gw_bulb w;
         Some (if LGTD_LIFX_WIRE_TAG_ID_TO_VALUE k AND ls_tags (b_state b) \<noteq> 0 then Suc n else n)
       }) addrs m = Some (m + tag_count (w_bulbs w) addrs k)" for m
    using assms(1,2)
  proof (induction addrs arbitrary: m)
    case (Cons c addrs)
    then obtain b where b: "find_bulb c w = Some b" by auto
    have "LGTD_LIFX_WIRE_TAG_ID_TO_VALUE k AND bulb_tags b \<noteq> 0 \<longleftrightarrow> bit (bulb_tags b) k"
      using and_TAG_ID_TO_VALUE [of "bulb_tags b" k] assms(3) by (simp add: and.commute)
    with Cons b show ?case by (auto simp: tag_count_def)
  qed (simp add: tag_count_def)
  then show ?thesis by (simp add: count_tagged_bulbs_def)
qed

lemma tag_count_adel:
  assumes "a \<notin> set addrs"
  shows "tag_count (adel a bulbs) addrs k = tag_count bulbs addrs k"
  unfolding tag_count_def using assms by (intro arg_cong [of _ _ length] filter_cong) auto

lemma tag_count_remove1:
  assumes "distinct addrs" "a \<in> set addrs" "map_of bulbs a = Some b"
  shows "tag_count bulbs (remove1 a addrs) k + of_bool (bit (bulb_tags b) k) = tag_count bulbs addrs k"
  using assms by (induction addrs) (auto simp: tag_count_def)

lemma adel_amod [simp]: "adel k (amod k f xs) = adel k xs"
  by (induction xs) auto

lemma amod_const: "distinct (map fst xs) \<Longrightarrow> map_of xs k = Some v \<Longrightarrow> amod k (\<lambda>_. f v) xs = amod k f xs"
  by (induction xs) (auto simp: amod_id)

text \<open>The bulb leaves the list of its gateway and the table; the counters and the counts of its tags follow.\<close>

definition closed_bulb :: "gw_ptr \<Rightarrow> bulb_addr \<Rightarrow> lgtd_world \<Rightarrow> u8 list \<Rightarrow> lgtd_stats \<Rightarrow> lgtd_world" where
  "closed_bulb gw a w refs st = w\<lparr>w_gateways := amod gw (\<lambda>g. g\<lparr>g_tag_refcounts := refs, g_bulbs := remove1 a (g_bulbs g)\<rparr>) (w_gateways w),
     w_bulbs := adel a (w_bulbs w), w_stats := st\<rparr>"

lemma closed_bulb_wf:
  assumes "wf_bulbs w" "find_gw gw w = Some g" "a \<in> set (g_bulbs g)" "find_bulb a w = Some b"
    and refs: "length refs = 64" "\<forall>k<64. unat (refs ! k) + of_bool (bit (bulb_tags b) k) = unat (g_tag_refcounts g ! k)"
    and st: "st_bulbs st = st_bulbs (w_stats w) - 1"
      "st_bulbs_powered_on st = st_bulbs_powered_on (w_stats w) - of_bool (bulb_on b)"
  shows "wf_bulbs (closed_bulb gw a w refs st)" (is "wf_bulbs ?w")
proof -
  note d = wf_bulbsD [OF assms(1)]
  have bgw: "b_gw b = gw" using wf_bulbs_bulb [OF assms(1-3)] assms(4) by auto
  have loc: "gw_local g" using d(2) assms(2) by (simp add: inv_local_def)
  then have dist: "distinct (g_bulbs g)" by (simp add: gw_local_def)
  have only: "a \<notin> set (g_bulbs h)" if "find_gw i w = Some h" "i \<noteq> gw" for i h
    using wf_bulbs_bulb [OF assms(1) that(1), of a] that(2) assms(4) bgw by auto
  have keys: "distinct (map fst (w_bulbs w))" using d(1) by (auto simp: inv_keys_def intro: rb_inv_distinct)
  have "length (adel a (w_bulbs w)) + 1 = length (w_bulbs w)"
    using acount_adel [OF keys assms(4), of "\<lambda>_. True"] by (simp add: acount_def comp_def)
  moreover have "acount bulb_on (adel a (w_bulbs w)) + of_bool (bulb_on b) = acount bulb_on (w_bulbs w)"
    by (rule acount_adel [OF keys assms(4)])
  ultimately have "inv_counts ?w" using d(5) st by (auto simp: inv_counts_def closed_bulb_def)
  moreover have "inv_keys ?w"
    using d(1) rb_inv_remove [of fst "w_bulbs w" a] by (simp add: inv_keys_def closed_bulb_def rb_remove_fst)
  moreover have "inv_local ?w"
  proof -
    have "gw_local (g\<lparr>g_tag_refcounts := refs, g_bulbs := remove1 a (g_bulbs g)\<rparr>)"
      using loc refs(1) by (auto simp: gw_local_def length_remove1 distinct_remove1)
    with d(2) assms(2) show ?thesis by (auto simp: inv_local_def closed_bulb_def split: if_splits)
  qed
  moreover have "inv_links ?w"
    using d(3) assms(2-4) bgw dist only
    by (fastforce simp: inv_links_def closed_bulb_def split: if_splits)
  moreover have "inv_refs ?w"
  proof -
    have "unat (refs ! k) = tag_count (adel a (w_bulbs w)) (remove1 a (g_bulbs g)) k" if "k < 64" for k
      using tag_count_adel [of a "remove1 a (g_bulbs g)" "w_bulbs w" k] dist refs(2) that d(4) assms(2)
        tag_count_remove1 [OF dist assms(3,4), of k] by (auto simp: inv_refs_def)
    with d(4) assms(2) only show ?thesis
      by (auto simp: inv_refs_def closed_bulb_def tag_count_adel split: if_splits)
  qed
  ultimately show ?thesis by (simp add: wf_bulbs_def)
qed

lemma remove_and_close_bulb_spec:
  assumes "wf_bulbs w" "find_gw gw w = Some g" "a \<in> set (g_bulbs g)"
  shows "\<exists>refs st. lgtd_lifx_gateway_remove_and_close_bulb gw a w = Some (closed_bulb gw a w refs st)
     \<and> wf_bulbs (closed_bulb gw a w refs st) \<and> length refs = 64
     \<and> st_gateways st = st_gateways (w_stats w) \<and> st_clients st = st_clients (w_stats w)"
proof -
  note d = wf_bulbsD [OF assms(1)]
  obtain b where b: "find_bulb a w = Some b" "b_gw b = gw" "bulb_local b" using wf_bulbs_bulb [OF assms] by blast
  have loc: "gw_local g" using d(2) assms(2) by (simp add: inv_local_def)
  then have dist: "distinct (g_bulbs g)" and len: "length (g_tag_refcounts g) = 64" by (simp_all add: gw_local_def)
  have cnt: "unat (g_tag_refcounts g ! k) = tag_count (w_bulbs w) (g_bulbs g) k" if "k < 64" for k
    using d(4) assms(2) that by (simp add: inv_refs_def)
  have pos: "g_tag_refcounts g ! k \<noteq> 0" if "bit (bulb_tags b) k" for k
    using cnt [of k] tag_count_pos [OF assms(3) b(1) that] bit_u64_less [OF that] by (metis less_irrefl unat_0)
  from drop_tags_loop [of "tag_ids_of (bulb_tags b)" g] pos len obtain r where
    r: "foreach drop_tag (tag_ids_of (bulb_tags b)) g = Some (g\<lparr>g_tag_refcounts := r\<rparr>)" "length r = 64"
      "\<forall>k<64. r ! k = (if bit (bulb_tags b) k then g_tag_refcounts g ! k - 1 else g_tag_refcounts g ! k)"
    using bit_u64_less by (auto simp: tag_ids_of_iff)
  have ur: "unat (r ! k) + of_bool (bit (bulb_tags b) k) = unat (g_tag_refcounts g ! k)" if "k < 64" for k
    using r(3) that pos unat_minus_one [of "g_tag_refcounts g ! k"] by (auto simp: unat_gt_0)
  define g' where "g' = g\<lparr>g_tag_refcounts := r, g_bulbs := remove1 a (g_bulbs g)\<rparr>"
  define w1 where "w1 = upd_gw gw g' w"
  have w1: "find_bulb a w1 = Some b" "find_gw gw w1 = Some g'" using b(1) assms(2) by (simp_all add: w1_def)
  have check: "do { n \<leftarrow> count_tagged_bulbs w1 a k (g_bulbs g'); c_assert (unat (g_tag_refcounts g' ! k) = n) } = Some ()"
    if k: "k \<in> set (tag_ids_of (bulb_tags b))" for k
  proof -
    have k: "k < 64" "bit (bulb_tags b) k" using k bit_u64_less by (auto simp: tag_ids_of_iff)
    have "a \<notin> set (g_bulbs g')" using dist by (simp add: g'_def)
    moreover have "\<forall>c\<in>set (g_bulbs g'). find_bulb c w1 \<noteq> None"
      using wf_bulbs_bulb [OF assms(1,2)] by (force simp: g'_def w1_def dest: notin_set_remove1)
    ultimately have "count_tagged_bulbs w1 a k (g_bulbs g') = Some (tag_count (w_bulbs w1) (g_bulbs g') k)"
      using count_tagged_bulbs_eq k(1) by blast
    with ur [OF k(1)] k cnt tag_count_remove1 [OF dist assms(3) b(1), of k] show ?thesis
      by (simp add: g'_def w1_def c_assert_def)
  qed
  have loop: "foreach (\<lambda>k u. do { n \<leftarrow> count_tagged_bulbs w1 a k (g_bulbs g'); c_assert (unat (g_tag_refcounts g' ! k) = n) })
      (tag_ids_of (bulb_tags b)) () = Some ()"
    using foreach_total [where P = "\<lambda>_. True" and s = "()" and xs = "tag_ids_of (bulb_tags b)"
      and f = "\<lambda>k u. do { n \<leftarrow> count_tagged_bulbs w1 a k (g_bulbs g'); c_assert (unat (g_tag_refcounts g' ! k) = n) }"] check
    by auto
  define st where "st = (w_stats w)\<lparr>st_bulbs := st_bulbs (w_stats w) - 1,
     st_bulbs_powered_on := st_bulbs_powered_on (w_stats w) - of_bool (bulb_on b)\<rparr>"
  have "0 < length (w_bulbs w)" using b(1) by (cases "w_bulbs w") auto
  moreover have "bulb_on b \<Longrightarrow> 0 < acount bulb_on (w_bulbs w)" by (rule acount_pos [OF b(1)])
  ultimately have stats: "0 \<le> st_bulbs (w_stats w) - 1" "bulb_on b \<Longrightarrow> 0 \<le> st_bulbs_powered_on (w_stats w) - 1"
    using d(5) by (auto simp: inv_counts_def)
  have "lgtd_lifx_gateway_remove_and_close_bulb gw a w = lgtd_lifx_bulb_close a w1"
    using r(1) assms(2) b(1)
    by (simp add: lgtd_lifx_gateway_remove_and_close_bulb_def foreach_tag_id_eq drop_tag_def [abs_def] w1_def g'_def)
  also have "\<dots> = Some (w1\<lparr>w_stats := st, w_bulbs := adel a (w_bulbs w)\<rparr>)"
    using w1 b(2) loop stats
    by (simp add: lgtd_lifx_bulb_close_def foreach_tag_id_eq lgtd_stats_add_def rb_remove_fst st_def)
      (simp add: w1_def upd_gw_def)
  also have "w1\<lparr>w_stats := st, w_bulbs := adel a (w_bulbs w)\<rparr> = closed_bulb gw a w r st"
  proof -
    have "amod gw (\<lambda>_. g') (w_gateways w) =
        amod gw (\<lambda>g. g\<lparr>g_tag_refcounts := r, g_bulbs := remove1 a (g_bulbs g)\<rparr>) (w_gateways w)"
      using d(1) amod_const [OF _ assms(2), of "\<lambda>g. g\<lparr>g_tag_refcounts := r, g_bulbs := remove1 a (g_bulbs g)\<rparr>"]
      by (simp add: inv_keys_def g'_def)
    then show ?thesis by (simp add: w1_def upd_gw_def closed_bulb_def)
  qed
  finally have "lgtd_lifx_gateway_remove_and_close_bulb gw a w = Some (closed_bulb gw a w r st)" .
  moreover have "wf_bulbs (closed_bulb gw a w r st)"
    by (rule closed_bulb_wf [OF assms b(1) r(2)]) (use ur in \<open>auto simp: st_def\<close>)
  ultimately show ?thesis using r(2) by (intro exI [of _ r] exI [of _ st]) (simp add: st_def)
qed

subsection \<open>Closing a gateway\<close>

lemma tags_frame_steady: "tags_frame w w' \<Longrightarrow> steady w w'"
  by (simp add: tags_frame_def steady_def)

text \<open>Every round closes the first bulb of the list, until the list is empty.\<close>

lemma close_bulbs_loop:
  assumes "wf_bulbs w" "find_gw gw w = Some g"
  shows "\<exists>w' g'. foreach (lgtd_lifx_gateway_remove_and_close_bulb gw) (g_bulbs g) w = Some w' \<and> wf_bulbs w'
     \<and> find_gw gw w' = Some g' \<and> g_bulbs g' = [] \<and> (\<forall>i. i \<noteq> gw \<longrightarrow> find_gw i w' = find_gw i w)
     \<and> map fst (w_gateways w') = map fst (w_gateways w)
     \<and> adel gw (w_gateways w') = adel gw (w_gateways w)
     \<and> w_bulbs w' = filter (\<lambda>(a, b). a \<notin> set (g_bulbs g)) (w_bulbs w) \<and> w_tags w' = w_tags w
     \<and> w_timers w' = w_timers w \<and> steady w w' \<and> w_next_ptr w' = w_next_ptr w \<and> w_clock_pos w' = w_clock_pos w
     \<and> st_gateways (w_stats w') = st_gateways (w_stats w)"
  using assms
proof (induction "g_bulbs g" arbitrary: w g)
  case Nil
  then show ?case by (intro exI [of _ w] exI [of _ g]) auto
next
  case (Cons a as)
  have bulbs: "g_bulbs g = a # as" using Cons.hyps(2) by simp
  then have "a \<in> set (g_bulbs g)" by simp
  from remove_and_close_bulb_spec [OF Cons.prems this] obtain refs st where
    w1: "lgtd_lifx_gateway_remove_and_close_bulb gw a w = Some (closed_bulb gw a w refs st)"
      "wf_bulbs (closed_bulb gw a w refs st)"
      "st_gateways st = st_gateways (w_stats w)" "st_clients st = st_clients (w_stats w)" by blast
  define w1 where "w1 = closed_bulb gw a w refs st"
  define g1 where "g1 = g\<lparr>g_tag_refcounts := refs, g_bulbs := as\<rparr>"
  have g1: "find_gw gw w1 = Some g1" "as = g_bulbs g1"
    using Cons.prems(2) bulbs by (simp_all add: w1_def closed_bulb_def g1_def)
  have keep: "adel gw (w_gateways w1) = adel gw (w_gateways w)" "map fst (w_gateways w1) = map fst (w_gateways w)"
    by (simp_all add: w1_def closed_bulb_def adel_amod)
  have other: "find_gw i w1 = find_gw i w" if "i \<noteq> gw" for i
    using that by (simp add: w1_def closed_bulb_def)
  have rest: "w_tags w1 = w_tags w" "w_timers w1 = w_timers w" "steady w w1" "w_next_ptr w1 = w_next_ptr w"
    "st_gateways (w_stats w1) = st_gateways (w_stats w)" "w_bulbs w1 = adel a (w_bulbs w)" "w_clock_pos w1 = w_clock_pos w"
    using w1 by (simp_all add: w1_def closed_bulb_def steady_def)
  have fil: "filter (\<lambda>(c, b). c \<notin> set as) (adel a (w_bulbs w)) = filter (\<lambda>(c, b). c \<notin> set (a # as)) (w_bulbs w)"
    by (auto simp: adel_def intro!: filter_cong)
  from Cons.hyps(1) [OF g1(2) w1(2) [folded w1_def] g1(1)] obtain w' g' where
    IH: "foreach (lgtd_lifx_gateway_remove_and_close_bulb gw) as w1 = Some w'" "wf_bulbs w'"
      "find_gw gw w' = Some g'" "g_bulbs g' = []" "\<forall>i. i \<noteq> gw \<longrightarrow> find_gw i w' = find_gw i w1"
      "map fst (w_gateways w') = map fst (w_gateways w1)"
      "adel gw (w_gateways w') = adel gw (w_gateways w1)"
      "w_bulbs w' = filter (\<lambda>(a, b). a \<notin> set as) (w_bulbs w1)" "w_tags w' = w_tags w1" "w_timers w' = w_timers w1"
      "steady w1 w'" "w_next_ptr w' = w_next_ptr w1" "st_gateways (w_stats w') = st_gateways (w_stats w1)"
      "w_clock_pos w' = w_clock_pos w1"
    unfolding g1(2) [symmetric] by blast
  have "foreach (lgtd_lifx_gateway_remove_and_close_bulb gw) (g_bulbs g) w = Some w'"
    using IH(1) w1(1) by (simp add: bulbs w1_def)
  moreover have "w_bulbs w' = filter (\<lambda>(a, b). a \<notin> set (g_bulbs g)) (w_bulbs w)"
    using IH(8) fil by (simp add: rest bulbs)
  ultimately show ?case
    using IH(2-7) IH(9-14) keep other rest steady_trans [OF rest(3) IH(11)] by (intro exI [of _ w'] exI [of _ g']) simp
qed

lemma close_tags_loop:
  assumes "wf_tags w" "\<forall>k<64. \<forall>p. ts ! k = Some p \<longleftrightarrow> has_site w p gw k" "n \<le> 64"
  shows "\<exists>w'. foreach (\<lambda>i w. case ts ! i of Some tag \<Rightarrow> lgtd_lifx_tagging_decref tag gw w | None \<Rightarrow> Some w) [0..<n] w = Some w'
     \<and> wf_tags w' \<and> tags_frame w w' \<and> (\<forall>q g j. has_site w' q g j \<longleftrightarrow> has_site w q g j \<and> \<not> (g = gw \<and> j < n))"
  using assms(3)
proof (induction n)
  case 0
  then show ?case using assms(1) by auto
next
  case (Suc n)
  then obtain w1 where w1: "foreach (\<lambda>i w. case ts ! i of Some tag \<Rightarrow> lgtd_lifx_tagging_decref tag gw w | None \<Rightarrow> Some w) [0..<n] w = Some w1"
    "wf_tags w1" "tags_frame w w1" "\<forall>q g j. has_site w1 q g j \<longleftrightarrow> has_site w q g j \<and> \<not> (g = gw \<and> j < n)"
    by auto
  show ?case
  proof (cases "ts ! n")
    case None
    then have "\<not> has_site w q gw n" for q using assms(2) Suc.prems by (metis Suc_le_lessD option.distinct(1))
    with None w1 show ?thesis by (auto simp: foreach_append less_Suc_eq)
  next
    case (Some p)
    then have site: "has_site w q gw n \<longleftrightarrow> q = p" for q using assms(2) Suc.prems by (metis Suc_le_lessD option.inject)
    then have "has_site w1 p gw n" using w1(4) by simp
    then obtain t where "map_of (w_tags w1) p = Some t" by (auto simp: has_site_def)
    from decref_spec [OF w1(2) this, of gw] obtain w' where
      w': "lgtd_lifx_tagging_decref p gw w1 = Some w'" "wf_tags w'" "tags_frame w1 w'"
        "\<forall>q g j. has_site w' q g j \<longleftrightarrow> has_site w1 q g j \<and> \<not> (q = p \<and> g = gw)" by blast
    have "has_site w' q g j \<longleftrightarrow> has_site w q g j \<and> \<not> (g = gw \<and> j < Suc n)" for q g j
      using w'(4) w1(4) site has_site_unique [OF assms(1), of q gw n j] by (auto simp: less_Suc_eq)
    with Some w'(1,2) w1(1) tags_frame_trans [OF w1(3) w'(3)] show ?thesis by (simp add: foreach_append)
  qed
qed

lemma wf_bulbs_cong:
  assumes "wf_bulbs w" "w_client_id w' = w_client_id w" "w_gateways w' = w_gateways w" "w_bulbs w' = w_bulbs w"
    and "w_next_ptr w \<le> w_next_ptr w'" "st_bulbs (w_stats w') = st_bulbs (w_stats w)"
    and "st_bulbs_powered_on (w_stats w') = st_bulbs_powered_on (w_stats w)"
  shows "wf_bulbs w'"
  using assms by (auto simp: wf_bulbs_def inv_defs inv_counts_def dest: order_less_le_trans)

lemma wf_world_timer:
  assumes "wf_world w" "find_gw gw w = Some g"
  shows "timer_callback w p = Some (Refresh_callback gw) \<longleftrightarrow> p = g_refresh_timer g"
proof -
  have "gw_timer w gw = Some p \<longleftrightarrow> timer_callback w p = Some (Refresh_callback gw)"
    using wf_worldD(7) [OF assms(1)] unfolding inv_timers_def by blast
  then show ?thesis using assms(2) by (auto simp: gw_timer_def)
qed

text \<open>Taking a gateway without bulbs off the list.\<close>

lemma wf_world_drop_gateway:
  assumes w: "wf_world w" "find_gw gw w = Some g"
    and w': "wf_bulbs w'" "find_gw gw w' = Some g'" "g_bulbs g' = []" "adel gw (w_gateways w') = adel gw (w_gateways w)"
      "w_timers w' = adel (g_refresh_timer g) (w_timers w)" "w_next_ptr w \<le> w_next_ptr w'"
      "wf_tags w'" "\<forall>q i k. has_site w' q i k \<longleftrightarrow> has_site w q i k \<and> i \<noteq> gw"
      "st_gateways (w_stats w') = st_gateways (w_stats w) - 1" "st_clients (w_stats w') = st_clients (w_stats w)"
  shows "wf_world (w'\<lparr>w_gateways := adel gw (w_gateways w)\<rparr>)" (is "wf_world ?w")
proof -
  note d = wf_worldD [OF w(1)] and d' = wf_bulbsD [OF w'(1)]
  have gws: "find_gw i ?w = (if i = gw then None else find_gw i w')" for i
    using map_of_adel [of gw "w_gateways w'" i] w'(4) by simp
  then have gws2: "find_gw i ?w = (if i = gw then None else find_gw i w)" for i by simp
  have link: "b_gw b \<noteq> gw" if "find_bulb a w' = Some b" for a b
    using d'(3) w'(2,3) that by (fastforce simp: inv_links_def)
  have cb: "timer_callback ?w p = (if p = g_refresh_timer g then None else timer_callback w p)" for p
    by (simp add: timer_callback_def w'(5))
  have tm: "gw_timer ?w i = (if i = gw then None else gw_timer w i)" for i
    unfolding gw_timer_def gws2 by simp
  have own: "timer_callback w p = Some (Refresh_callback gw) \<longleftrightarrow> p = g_refresh_timer g" for p
    by (rule wf_world_timer [OF w])
  then have "timer_callback w (g_refresh_timer g) = Some (Refresh_callback gw)" by simp
  then have own2: "timer_callback w (g_refresh_timer g) = Some (Refresh_callback i) \<longleftrightarrow> i = gw" for i by auto
  show ?thesis
  proof (rule wf_worldI)
    show "inv_keys ?w" using d'(1) by (auto simp: inv_keys_def set_adel simp flip: w'(4))
    show "inv_local ?w" using d'(2) unfolding inv_local_def gws by auto
    show "inv_links ?w" using d'(3) link unfolding inv_links_def gws by (auto split: if_splits)
    show "inv_refs ?w" using d'(4) unfolding inv_refs_def gws by auto
    show "inv_tags ?w" using d(5) w'(7,8) unfolding inv_tags_def gws2 by (auto split: if_splits)
    have "length (adel gw (w_gateways w)) + 1 = length (w_gateways w)"
      using acount_adel [OF _ w(2), of "\<lambda>_. True"] d(1) by (simp add: acount_def comp_def inv_keys_def)
    with d(6) d'(5) w'(9,10) show "inv_stats ?w" by (auto simp: inv_stats_def inv_counts_def)
    show "inv_timers ?w" unfolding inv_timers_def cb tm
      using d(7) own own2 w'(6) by (auto simp: inv_timers_def w'(5) set_adel dest: order_less_le_trans)
  qed
qed

definition without_gateway :: "gw_ptr \<Rightarrow> lgtd_lifx_gateway \<Rightarrow> lgtd_world \<Rightarrow> lgtd_world \<Rightarrow> bool" where
  "without_gateway gw g w w' \<longleftrightarrow> w_gateways w' = adel gw (w_gateways w)
     \<and> w_bulbs w' = filter (\<lambda>(a, b). a \<notin> set (g_bulbs g)) (w_bulbs w)
     \<and> w_timers w' = adel (g_refresh_timer g) (w_timers w) \<and> w_clock_pos w' = w_clock_pos w
     \<and> (\<forall>q i k. has_site w' q i k \<longleftrightarrow> has_site w q i k \<and> i \<noteq> gw)"

lemma gateway_close_spec:
  assumes "wf_world w" "find_gw gw w = Some g"
  shows "\<exists>w'. lgtd_lifx_gateway_close gw w = Some w' \<and> wf_world w' \<and> without_gateway gw g w w' \<and> steady w w'"
proof -
  note d = wf_worldD [OF assms(1)]
  define w1 where "w1 = w\<lparr>w_stats := (w_stats w)\<lparr>st_gateways := st_gateways (w_stats w) - 1\<rparr>,
    w_timers := adel (g_refresh_timer g) (w_timers w)\<rparr>"
  have "w_gateways w \<noteq> []" using assms(2) by auto
  then have "0 \<le> st_gateways (w_stats w) - 1" using d(6) by (cases "w_gateways w") (auto simp: inv_stats_def)
  moreover obtain t where "map_of (w_timers w) (g_refresh_timer g) = Some t"
    using wf_world_timer [OF assms, of "g_refresh_timer g"] by (auto simp: timer_callback_def)
  ultimately have start: "Option.bind (lgtd_stats_add Gateways (-1) w) (lgtd_timer_stop (g_refresh_timer g)) = Some w1"
    by (simp add: lgtd_stats_add_def lgtd_timer_stop_def w1_def)
  have "wf_tags w1" "\<forall>k<64. \<forall>p. g_tags g ! k = Some p \<longleftrightarrow> has_site w1 p gw k"
    using d(5) assms(2) by (auto simp: w1_def inv_tags_def)
  from close_tags_loop [OF this order_refl] obtain w2 where
    w2: "foreach (\<lambda>i w. case g_tags g ! i of Some tag \<Rightarrow> lgtd_lifx_tagging_decref tag gw w | None \<Rightarrow> Some w) [0..<64] w1 = Some w2"
      "wf_tags w2" "tags_frame w1 w2" "\<forall>q h j. has_site w2 q h j \<longleftrightarrow> has_site w1 q h j \<and> \<not> (h = gw \<and> j < 64)"
    by blast
  have "wf_bulbs w2"
    by (rule wf_bulbs_cong [OF wf_world_bulbs [OF assms(1)]]) (use w2(3) in \<open>auto simp: tags_frame_def w1_def\<close>)
  moreover have "find_gw gw w2 = Some g" using assms(2) w2(3) by (simp add: tags_frame_def w1_def)
  ultimately obtain w3 g' where
    w3: "foreach (lgtd_lifx_gateway_remove_and_close_bulb gw) (g_bulbs g) w2 = Some w3" "wf_bulbs w3"
      "find_gw gw w3 = Some g'" "g_bulbs g' = []" "adel gw (w_gateways w3) = adel gw (w_gateways w2)"
      "w_bulbs w3 = filter (\<lambda>(a, b). a \<notin> set (g_bulbs g)) (w_bulbs w2)" "w_tags w3 = w_tags w2"
      "w_timers w3 = w_timers w2" "steady w2 w3" "w_next_ptr w3 = w_next_ptr w2"
      "st_gateways (w_stats w3) = st_gateways (w_stats w2)" "w_clock_pos w3 = w_clock_pos w2"
    using close_bulbs_loop by blast
  have "has_site w3 q i k \<longleftrightarrow> has_site w2 q i k" "has_site w1 q i k \<longleftrightarrow> has_site w q i k" for q i k
    using w3(7) by (simp_all add: has_site_def w1_def)
  then have sites: "\<forall>q i k. has_site w3 q i k \<longleftrightarrow> has_site w q i k \<and> i \<noteq> gw"
    using w2(4) d(5) by (auto simp: inv_tags_def)
  have eqs: "w_gateways w2 = w_gateways w" "w_bulbs w2 = w_bulbs w" "w_timers w2 = adel (g_refresh_timer g) (w_timers w)"
    using w2(3) by (simp_all add: tags_frame_def w1_def)
  have "steady w w3" using w2(3) w3(9) by (auto simp: steady_def tags_frame_def w1_def)
  moreover have "wf_world (w3\<lparr>w_gateways := adel gw (w_gateways w)\<rparr>)"
  proof (rule wf_world_drop_gateway [OF assms w3(2-4)])
    show "adel gw (w_gateways w3) = adel gw (w_gateways w)" using w3(5) eqs by simp
    show "w_timers w3 = adel (g_refresh_timer g) (w_timers w)" using w3(8) eqs by simp
    show "wf_tags w3" using w2(2) w3(7,10) by (simp add: wf_tags_def tag_labels_def)
    show "\<forall>q i k. has_site w3 q i k \<longleftrightarrow> has_site w q i k \<and> i \<noteq> gw" by (rule sites)
    show "st_gateways (w_stats w3) = st_gateways (w_stats w) - 1"
      using w3(11) w2(3) by (simp add: tags_frame_def w1_def)
  qed (use \<open>steady w w3\<close> in \<open>simp_all add: steady_def\<close>)
  moreover have "lgtd_lifx_gateway_close gw w = Some (w3\<lparr>w_gateways := adel gw (w_gateways w)\<rparr>)"
    using start w2(1) w3(1,5) assms(2) eqs by (simp add: lgtd_lifx_gateway_close_def bind_eq_Some_conv) auto
  ultimately show ?thesis
    using w3(6,8,12) w2(3) eqs sites by (auto simp: without_gateway_def steady_def tags_frame_def w1_def)
qed

subsection \<open>Opening a bulb\<close>

text \<open>The gateways stay, with their peers.\<close>

definition keeps_gateways :: "lgtd_world \<Rightarrow> lgtd_world \<Rightarrow> bool" where
  "keeps_gateways w w' \<longleftrightarrow> steady w w' \<and> map fst (w_gateways w') = map fst (w_gateways w)
     \<and> (\<forall>i. map_option g_peer (find_gw i w') = map_option g_peer (find_gw i w))"

lemma keeps_gateways_refl [simp]: "keeps_gateways w w"
  by (simp add: keeps_gateways_def)

lemma keeps_gateways_trans: "keeps_gateways w w' \<Longrightarrow> keeps_gateways w' w'' \<Longrightarrow> keeps_gateways w w''"
  by (auto simp: keeps_gateways_def intro: steady_trans)

lemma keeps_gateways_find:
  "keeps_gateways w w' \<Longrightarrow> find_gw i w = Some g \<Longrightarrow> \<exists>g'. find_gw i w' = Some g' \<and> g_peer g' = g_peer g"
  unfolding keeps_gateways_def by (metis map_option_eq_Some option.simps(9))

lemma same_devices_keeps:
  assumes "same_devices w w'"
  shows "keeps_gateways w w'"
proof -
  have "map_option g_peer x = map_option (\<lambda>(_, _, _, p, _). p) (map_option gw_links x)" for x
    by (simp add: option.map_comp comp_def gw_links_def)
  then have "map_option g_peer (find_gw i w') = map_option g_peer (find_gw i w)" for i
    using assms by (simp add: same_devices_def)
  with assms show ?thesis by (simp add: keeps_gateways_def same_devices_def)
qed

lemma acount_rb_insert:
  "a \<notin> fst ` set xs \<Longrightarrow> acount P (rb_insert fst (a, b) xs) = acount P xs + of_bool (P b)"
  by (induction xs) auto

lemma amod_rb_insert:
  "a \<notin> fst ` set xs \<Longrightarrow> amod a (\<lambda>_. b) (rb_insert fst (a, c) xs) = rb_insert fst (a, b) xs"
  by (induction xs) (auto simp: amod_id)

lemma wf_world_next_ptr:
  assumes "wf_world w" "w_next_ptr w \<le> n"
  shows "wf_world (w\<lparr>w_next_ptr := n\<rparr>)"
proof -
  have "inv_timers (w\<lparr>w_next_ptr := n\<rparr>)"
    by (rule inv_timers_cong [OF wf_worldD(7) [OF assms(1)]])
      (use assms(2) in \<open>auto simp: timer_callback_def gw_timer_def fun_eq_iff\<close>)
  with assms show ?thesis
    by (auto simp: wf_world_def inv_keys_def inv_local_def inv_links_def inv_refs_def inv_tags_def inv_stats_def wf_tags_def
        tag_labels_def)
qed

lemma timer_start_spec:
  assumes "0 < ms"
  shows "\<exists>r e n t. lgtd_timer_start now persistent ms cb w =
       Some (r, if r = None then w\<lparr>w_ext_pos := e, w_next_ptr := n\<rparr>
                else w\<lparr>w_ext_pos := e, w_next_ptr := Suc (w_next_ptr w), w_timers := (w_next_ptr w, t) # w_timers w\<rparr>)
     \<and> w_next_ptr w \<le> n \<and> tm_callback t = cb \<and> (r = None \<or> r = Some (w_next_ptr w))"
proof (cases "w_ext w (w_ext_pos w)")
  case False
  then show ?thesis using assms
    by (intro exI [of _ None] exI [of _ "Suc (w_ext_pos w)"] exI [of _ "w_next_ptr w"]
        exI [of _ "\<lparr>tm_callback = cb, tm_persistent = persistent, tm_timeout = ms, tm_activations = 0\<rparr>"])
      (simp add: lgtd_timer_start_def ext_call_def)
next
  case ok: True
  show ?thesis
  proof (cases "w_ext w (Suc (w_ext_pos w)) \<and> w_ext w (Suc (Suc (w_ext_pos w)))")
    case True
    with ok assms show ?thesis
      by (intro exI [of _ "Some (w_next_ptr w)"] exI [of _ "w_ext_pos w + 3"] exI [of _ "w_next_ptr w"]
          exI [of _ "\<lparr>tm_callback = cb, tm_persistent = persistent, tm_timeout = ms, tm_activations = if now then 1 else 0\<rparr>"])
        (simp add: lgtd_timer_start_def ext_call_def fresh_ptr_def numeral_3_eq_3)
  next
    case False
    with ok assms show ?thesis
      by (intro exI [of _ None] exI [of _ "w_ext_pos w + (if w_ext w (Suc (w_ext_pos w)) then 3 else 2)"]
          exI [of _ "Suc (w_next_ptr w)"]
          exI [of _ "\<lparr>tm_callback = cb, tm_persistent = persistent, tm_timeout = ms, tm_activations = 0\<rparr>"])
        (auto simp: lgtd_timer_start_def ext_call_def fresh_ptr_def numeral_3_eq_3)
  qed
qed

lemma wf_world_set_timers:
  assumes "wf_world w" "inv_timers (w\<lparr>w_timers := ts\<rparr>)"
  shows "wf_world (w\<lparr>w_timers := ts\<rparr>)"
proof -
  have "inv_keys (w\<lparr>w_timers := ts\<rparr>) = inv_keys w" "inv_local (w\<lparr>w_timers := ts\<rparr>) = inv_local w"
    "inv_links (w\<lparr>w_timers := ts\<rparr>) = inv_links w" "inv_refs (w\<lparr>w_timers := ts\<rparr>) = inv_refs w"
    "inv_tags (w\<lparr>w_timers := ts\<rparr>) = inv_tags w" "inv_stats (w\<lparr>w_timers := ts\<rparr>) = inv_stats w"
    by (simp_all add: inv_keys_def inv_local_def inv_links_def inv_refs_def inv_tags_def inv_stats_def)
  with assms show ?thesis by (simp add: wf_world_def)
qed

lemma wf_world_fetch_timer:
  assumes "wf_world w" "tm_callback t = Fetch_hardware_info a" "list_ex (\<lambda>x. x \<noteq> 0) a"
  shows "wf_world (w\<lparr>w_next_ptr := Suc (w_next_ptr w), w_timers := (w_next_ptr w, t) # w_timers w\<rparr>)" (is "wf_world ?w")
proof -
  note d = wf_worldD [OF assms(1)]
  let ?v = "w\<lparr>w_next_ptr := Suc (w_next_ptr w)\<rparr>"
  have v: "wf_world ?v" by (rule wf_world_next_ptr [OF assms(1)]) simp
  have old: "timer_callback w (w_next_ptr w) = None"
    using d(7) by (force simp: inv_timers_def timer_callback_def map_of_eq_None_iff)
  have cb: "timer_callback ?w p = (if p = w_next_ptr w then Some (Fetch_hardware_info a) else timer_callback w p)" for p
    using assms(2) by (simp add: timer_callback_def)
  have "inv_timers ?w" unfolding inv_timers_def cb
    using d(7) old assms(3) by (auto simp: inv_timers_def gw_timer_def less_Suc_eq split: if_splits)
  with v show ?thesis by (intro wf_world_set_timers [OF v, simplified])
qed

lemma wf_world_new_bulb:
  assumes "wf_world w" "find_gw gw w = Some g" "find_bulb a w = None" "length a = 6" "length (g_bulbs g) < 255"
    and b: "b_gw b = gw" "bulb_local b" "bulb_tags b = 0" "\<not> bulb_on b"
    and st: "st = (w_stats w)\<lparr>st_bulbs := st_bulbs (w_stats w) + 1\<rparr>"
  shows "wf_world (upd_gw gw (g\<lparr>g_bulbs := a # g_bulbs g\<rparr>) (w\<lparr>w_bulbs := rb_insert fst (a, b) (w_bulbs w), w_stats := st\<rparr>))"
    (is "wf_world ?w")
proof -
  note d = wf_worldD [OF assms(1)]
  have new: "a \<notin> fst ` set (w_bulbs w)" using assms(3) by (simp add: map_of_eq_None_iff)
  note bulbs = map_of_rb_insert [of "(a, b)" "w_bulbs w", simplified, OF new]
  have out: "a \<notin> set (g_bulbs h)" if "find_gw i w = Some h" for i h
    using d(3) that assms(3) by (fastforce simp: inv_links_def)
  have loc: "gw_local g" by (rule wf_world_gw [OF assms(1,2)])
  have cnt: "tag_count (rb_insert fst (a, b) (w_bulbs w)) addrs k = tag_count (w_bulbs w) addrs k"
    if "a \<notin> set addrs" for addrs k
    unfolding tag_count_def bulbs using that by (intro arg_cong [of _ _ length] filter_cong) auto
  have cnt2: "tag_count (rb_insert fst (a, b) (w_bulbs w)) (a # addrs) k = tag_count (w_bulbs w) addrs k"
    if "a \<notin> set addrs" for addrs k
    using cnt [OF that, of k] b(3) by (simp add: tag_count_def bulbs)
  show ?thesis
  proof (rule wf_worldI)
    show "inv_keys ?w" using d(1) by (simp add: inv_keys_def upd_gw_def rb_inv_insert)
    show "inv_local ?w" using d(2) loc out [OF assms(2)] assms(4,5) b(2)
      by (auto simp: inv_local_def upd_gw_def bulbs gw_local_def split: if_splits)
    show "inv_links ?w" using d(3) assms(2,3) b(1) out
      by (fastforce simp: inv_links_def upd_gw_def bulbs split: if_splits)
    show "inv_refs ?w" using d(4) assms(2) out
      by (auto simp: inv_refs_def upd_gw_def cnt cnt2 split: if_splits)
    show "inv_tags ?w" using d(5) assms(2) by (auto simp: inv_tags_def upd_gw_def split: if_splits)
    show "inv_stats ?w"
      using d(6) acount_rb_insert [OF new, of bulb_on b] acount_rb_insert [OF new, of "\<lambda>_. True" b] b(4)
      by (auto simp: inv_stats_def upd_gw_def st acount_def comp_def)
    show "inv_timers ?w" using assms(2)
      by (intro inv_timers_cong [OF d(7)]) (auto simp: timer_callback_def gw_timer_def upd_gw_def fun_eq_iff)
  qed
qed

text \<open>The bulb is found, or opened, or memory runs out.\<close>

lemma bulb_local_calloc [simp]: "bulb_local ((calloc_bulb gw)\<lparr>b_last_light_state_at := t\<rparr>)"
  by (simp add: bulb_local_def calloc_bulb_def)

lemma get_or_open_bulb_spec:
  assumes "wf_world w" "find_gw gw w = Some g" "length a = 6" "list_ex (\<lambda>x. x \<noteq> 0) a"
    and "find_bulb a w = None \<Longrightarrow> length (g_bulbs g) < 255"
  shows "\<exists>ok w'. lgtd_lifx_gateway_get_or_open_bulb gw a w = Some (ok, w') \<and> wf_world w' \<and> keeps_gateways w w'
     \<and> w_tags w' = w_tags w \<and> (ok \<longrightarrow> find_bulb a w' \<noteq> None)"
proof (cases "find_bulb a w")
  case (Some b)
  then show ?thesis using assms(1) by (auto simp: lgtd_lifx_gateway_get_or_open_bulb_def)
next
  case None
  show ?thesis
  proof (cases "w_ext w (w_ext_pos w)")
    case False
    then show ?thesis using None assms(1)
      by (auto simp: lgtd_lifx_gateway_get_or_open_bulb_def lgtd_lifx_bulb_open_def ext_call_def keeps_gateways_def steady_def)
  next
    case True
    define b where "b = (calloc_bulb gw)\<lparr>b_last_light_state_at := w_clock w (w_clock_pos w)\<rparr>"
    define st where "st = (w_stats w)\<lparr>st_bulbs := st_bulbs (w_stats w) + 1\<rparr>"
    define v where "v = w\<lparr>w_ext_pos := Suc (w_ext_pos w), w_clock_pos := Suc (w_clock_pos w)\<rparr>"
    define w1 where "w1 = w\<lparr>w_ext_pos := Suc (w_ext_pos w), w_stats := st, w_clock_pos := Suc (w_clock_pos w),
      w_bulbs := rb_insert fst (a, b) (w_bulbs w)\<rparr>"
    have w1: "w1 = v\<lparr>w_bulbs := rb_insert fst (a, b) (w_bulbs w), w_stats := st\<rparr>"
      by (simp add: w1_def v_def)
    define g' where "g' = g\<lparr>g_bulbs := a # g_bulbs g\<rparr>"
    have new: "a \<notin> fst ` set (w_bulbs w)" using None by (simp add: map_of_eq_None_iff)
    have ins: "amod a (\<lambda>_. b) (rb_insert fst (a, calloc_bulb gw) (w_bulbs w)) = rb_insert fst (a, b) (w_bulbs w)"
      using new by (rule amod_rb_insert)
    have nn: "0 \<le> st_bulbs (w_stats w) + 1" using wf_worldD(6) [OF assms(1)] by (simp add: inv_stats_def)
    obtain r e n t where r: "lgtd_timer_start True True 5000 (Fetch_hardware_info a) w1 =
         Some (r, if r = None then w1\<lparr>w_ext_pos := e, w_next_ptr := n\<rparr>
                  else w1\<lparr>w_ext_pos := e, w_next_ptr := Suc (w_next_ptr w1), w_timers := (w_next_ptr w1, t) # w_timers w1\<rparr>)"
      "w_next_ptr w1 \<le> n" "tm_callback t = Fetch_hardware_info a"
      using timer_start_spec [of 5000 True True "Fetch_hardware_info a" w1] by auto
    define w2 where "w2 = (if r = None then w1\<lparr>w_ext_pos := e, w_next_ptr := n\<rparr>
                  else w1\<lparr>w_ext_pos := e, w_next_ptr := Suc (w_next_ptr w1), w_timers := (w_next_ptr w1, t) # w_timers w1\<rparr>)"
    have gws: "w_gateways w2 = w_gateways w" "w_tags w2 = w_tags w" by (simp_all add: w2_def w1_def v_def)
    have "lgtd_lifx_bulb_open gw a w = Some (True, w2)"
      using True nn r(1) map_of_rb_insert [of "(a, calloc_bulb gw)" "w_bulbs w"] new ins
      by (simp add: lgtd_lifx_bulb_open_def ext_call_def lgtd_stats_add_def lgtd_time_monotonic_msecs_def upd_bulb_def
          w2_def flip: st_def b_def w1_def)
    then have "lgtd_lifx_gateway_get_or_open_bulb gw a w = Some (True, upd_gw gw g' w2)"
      using None assms(2) gws by (simp add: lgtd_lifx_gateway_get_or_open_bulb_def g'_def)
    moreover have "wf_world (upd_gw gw g' w2)"
    proof -
      have wf1: "wf_world (upd_gw gw g' w1)"
        unfolding w1 g'_def v_def
        by (rule wf_world_new_bulb [of "w\<lparr>w_ext_pos := Suc (w_ext_pos w), w_clock_pos := Suc (w_clock_pos w)\<rparr>", simplified])
          (use assms None in \<open>simp_all add: b_def st_def, simp_all add: calloc_bulb_def\<close>)
      have "upd_gw gw g' w2 = (if r = None then (upd_gw gw g' w1)\<lparr>w_ext_pos := e, w_next_ptr := n\<rparr>
          else (upd_gw gw g' w1)\<lparr>w_ext_pos := e, w_next_ptr := Suc (w_next_ptr w1), w_timers := (w_next_ptr w1, t) # w_timers w1\<rparr>)"
        by (simp add: w2_def upd_gw_def)
      then show ?thesis
        using wf_world_next_ptr [of "(upd_gw gw g' w1)\<lparr>w_ext_pos := e\<rparr>" n] wf1 r(2)
          wf_world_fetch_timer [of "(upd_gw gw g' w1)\<lparr>w_ext_pos := e\<rparr>" t a] r(3) assms(4) by simp
    qed
    moreover have "keeps_gateways w (upd_gw gw g' w2)"
      using assms(2) gws r(2) by (auto simp: keeps_gateways_def steady_def upd_gw_def w2_def w1_def v_def st_def g'_def)
    moreover have "find_bulb a (upd_gw gw g' w2) \<noteq> None"
      using map_of_rb_insert [of "(a, b)" "w_bulbs w"] new by (simp add: w2_def w1_def v_def)
    ultimately show ?thesis using gws by auto
  qed
qed

subsection \<open>Timers\<close>

lemma wf_world_timer_fields:
  assumes "wf_world w" "\<And>t. tm_callback (f t) = tm_callback t"
  shows "wf_world (w\<lparr>w_timers := amod p f (w_timers w)\<rparr>)"
proof (rule wf_world_set_timers [OF assms(1)])
  have "timer_callback (w\<lparr>w_timers := amod p f (w_timers w)\<rparr>) = timer_callback w"
    using assms(2) by (auto simp: timer_callback_def fun_eq_iff option.map_comp comp_def)
  then show "inv_timers (w\<lparr>w_timers := amod p f (w_timers w)\<rparr>)"
    by (intro inv_timers_cong [OF wf_worldD(7) [OF assms(1)]]) (auto simp: gw_timer_def fun_eq_iff)
qed

lemma refresh_timer_ok:
  assumes "wf_world w" "find_gw gw w = Some g"
  shows "\<exists>w'. lgtd_timer_reschedule (g_refresh_timer g) ms w = Some w' \<and> wf_world w' \<and> same_devices w w'"
    and "\<exists>w'. lgtd_timer_activate (g_refresh_timer g) w = Some w' \<and> wf_world w' \<and> same_devices w w'"
proof -
  obtain t where t: "map_of (w_timers w) (g_refresh_timer g) = Some t"
    using wf_world_timer [OF assms, of "g_refresh_timer g"] by (auto simp: timer_callback_def)
  have same: "same_devices w (w\<lparr>w_timers := amod p f (w_timers w)\<rparr>)" for p f
    by (simp add: same_devices_def steady_def)
  show "\<exists>w'. lgtd_timer_reschedule (g_refresh_timer g) ms w = Some w' \<and> wf_world w' \<and> same_devices w w'"
    using t same wf_world_timer_fields [OF assms(1), of "\<lambda>t. t\<lparr>tm_timeout := ms\<rparr>"]
    by (simp add: lgtd_timer_reschedule_def)
  show "\<exists>w'. lgtd_timer_activate (g_refresh_timer g) w = Some w' \<and> wf_world w' \<and> same_devices w w'"
    using t same wf_world_timer_fields [OF assms(1), of "\<lambda>t. t\<lparr>tm_activations := Suc (tm_activations t)\<rparr>"]
    by (simp add: lgtd_timer_activate_def)
qed

subsection \<open>Opening a gateway\<close>

text \<open>The first seven calls all succeed, or nothing but a number of calls is left of the attempt.\<close>

definition gateway_calls_ok :: "lgtd_world \<Rightarrow> bool" where
  "gateway_calls_ok w \<longleftrightarrow> list_all (\<lambda>k. w_ext w (w_ext_pos w + k)) [0..<7]"

lemma gateway_open_fails:
  assumes "\<not> gateway_calls_ok w"
  shows "\<exists>e n. lgtd_lifx_gateway_open peer site t w = Some (None, w\<lparr>w_next_ptr := n, w_ext_pos := e\<rparr>) \<and> w_next_ptr w \<le> n"
proof -
  define F where "F = (\<lambda>r. \<exists>e n. r = Some (None :: gw_ptr option, w\<lparr>w_next_ptr := n, w_ext_pos := e\<rparr>) \<and> w_next_ptr w \<le> n)"
  have F: "F (Some (None, w\<lparr>w_ext_pos := e\<rparr>))" "F (Some (None, w\<lparr>w_next_ptr := Suc (w_next_ptr w), w_ext_pos := e\<rparr>))" for e
    unfolding F_def by (rule exI [of _ e], rule exI [of _ "w_next_ptr w"], simp) (intro exI conjI, rule refl, simp)
  have "F (lgtd_lifx_gateway_open peer site t w)"
    using assms
    by (simp add: lgtd_lifx_gateway_open_def ext_call_def fresh_ptr_def F gateway_calls_ok_def upt_rec)
  then show ?thesis by (simp add: F_def)
qed

lemma gw_local_calloc: "length site = 6 \<Longrightarrow> gw_local (calloc_gateway peer site t timer)"
  by (simp add: gw_local_def calloc_gateway_def ring_inv_def ring_msgs_def ring_count_def)

lemma wf_world_new_gateway:
  assumes "wf_world w" "length site = 6" "tm_callback tm = Refresh_callback (w_next_ptr w)"
    and st: "st = (w_stats w)\<lparr>st_gateways := st_gateways (w_stats w) + 1\<rparr>"
  shows "wf_world (w\<lparr>w_next_ptr := Suc (Suc (w_next_ptr w)), w_timers := (Suc (w_next_ptr w), tm) # w_timers w,
    w_gateways := (w_next_ptr w, calloc_gateway peer site t (Suc (w_next_ptr w))) # w_gateways w, w_stats := st\<rparr>)"
    (is "wf_world ?w")
proof -
  let ?n = "w_next_ptr w" and ?g = "calloc_gateway peer site t (Suc (w_next_ptr w))"
  note d = wf_worldD [OF assms(1)]
  have fresh: "?n \<notin> fst ` set (w_gateways w)" using d(1) by (auto simp: inv_keys_def)
  then have none: "find_gw ?n w = None" by (simp add: map_of_eq_None_iff)
  have gws: "find_gw i ?w = (if i = ?n then Some ?g else find_gw i w)" for i by simp
  have site: "\<not> has_site w p ?n k" for p k using d(5) none unfolding inv_tags_def by blast
  have cb: "timer_callback ?w p = (if p = Suc ?n then Some (Refresh_callback ?n) else timer_callback w p)" for p
    using assms(3) by (simp add: timer_callback_def)
  have gt: "gw_timer ?w i = (if i = ?n then Some (Suc ?n) else gw_timer w i)" for i
    by (simp add: gw_timer_def calloc_gateway_def)
  have bound: "p < ?n" if "timer_callback w p = Some c" for p c
    using d(7) that by (force simp: inv_timers_def timer_callback_def dest: map_of_SomeD)
  have own: "timer_callback w p \<noteq> Some (Refresh_callback ?n)" for p
  proof -
    have "gw_timer w ?n = None" using none by (simp add: gw_timer_def)
    with d(7) show ?thesis unfolding inv_timers_def by (metis option.distinct(1))
  qed
  show ?thesis
  proof (rule wf_worldI)
    show "inv_keys ?w" using d(1) fresh by (auto simp: inv_keys_def less_Suc_eq)
    show "inv_local ?w" using d(2) gw_local_calloc [OF assms(2)] unfolding inv_local_def gws by auto
    have "b_gw b \<noteq> ?n" if "find_bulb a w = Some b" for a b
      using d(3) that none by (fastforce simp: inv_links_def)
    with d(3) show "inv_links ?w" unfolding inv_links_def gws by (auto simp: calloc_gateway_def split: if_splits)
    show "inv_refs ?w" using d(4) unfolding inv_refs_def gws
      by (auto simp: calloc_gateway_def tag_count_def split: if_splits)
    have "wf_tags ?w" using d(5) by (auto simp: inv_tags_def wf_tags_def tag_labels_def less_Suc_eq)
    with d(5) site show "inv_tags ?w" unfolding inv_tags_def gws by (auto simp: calloc_gateway_def split: if_splits)
    show "inv_stats ?w" using d(6) by (auto simp: inv_stats_def st)
    show "inv_timers ?w" unfolding inv_timers_def cb gt
      using d(7) own bound by (auto simp: inv_timers_def less_Suc_eq split: if_splits) fastforce+
  qed
qed

lemma watchdog_spec:
  assumes "w_gateways w \<noteq> []" "w_exit w = None"
  shows "\<exists>e s x. lgtd_lifx_discovery_start_watchdog w = Some (w\<lparr>w_ext_pos := e, w_watchdog_started := s, w_exit := x\<rparr>)"
proof -
  define F where "F = (\<lambda>r. \<exists>e s x. r = Some (w\<lparr>w_ext_pos := e, w_watchdog_started := s, w_exit := x\<rparr>))"
  have "F (Some (w\<lparr>w_ext_pos := e\<rparr>))" for e
    unfolding F_def by (rule exI [of _ e], rule exI [of _ "w_watchdog_started w"], rule exI [of _ "w_exit w"]) simp
  moreover have "F (Some (w\<lparr>w_ext_pos := e, w_watchdog_started := s\<rparr>))" for e s
    unfolding F_def by (rule exI [of _ e], rule exI [of _ s], rule exI [of _ "w_exit w"]) simp
  moreover have "F (Some (w\<lparr>w_ext_pos := e, w_exit := x\<rparr>))" for e x
    unfolding F_def by (rule exI [of _ e], rule exI [of _ "w_watchdog_started w"], rule exI [of _ x]) simp
  ultimately have "F (lgtd_lifx_discovery_start_watchdog w)"
    using assms by (simp add: lgtd_lifx_discovery_start_watchdog_def ext_call_def lgtd_err_def)
  then show ?thesis by (simp add: F_def)
qed

definition with_gateway :: "bytes \<Rightarrow> bytes \<Rightarrow> lgtd_time_mono_t \<Rightarrow> lgtd_world \<Rightarrow> gw_ptr option \<Rightarrow> lgtd_world \<Rightarrow> bool" where
  "with_gateway peer site t w r w' \<longleftrightarrow> steady w w' \<and> w_bulbs w' = w_bulbs w \<and> w_tags w' = w_tags w
     \<and> (case r of None \<Rightarrow> w_gateways w' = w_gateways w
        | Some gw \<Rightarrow> gw \<notin> fst ` set (w_gateways w)
            \<and> (\<exists>timer. w_gateways w' = (gw, calloc_gateway peer site t timer) # w_gateways w))"

lemma gateway_open_spec:
  assumes "wf_world w" "length site = 6" "w_exit w = None"
  shows "\<exists>r w'. lgtd_lifx_gateway_open peer site t w = Some (r, w')
     \<and> (w_exit w' = None \<longrightarrow> wf_world w' \<and> with_gateway peer site t w r w')"
proof (cases "gateway_calls_ok w")
  case False
  from gateway_open_fails [OF False] obtain e n where
    "lgtd_lifx_gateway_open peer site t w = Some (None, w\<lparr>w_next_ptr := n, w_ext_pos := e\<rparr>)" "w_next_ptr w \<le> n" by blast
  then show ?thesis using wf_world_next_ptr [OF assms(1)] by (simp add: with_gateway_def steady_def)
next
  case True
  let ?n = "w_next_ptr w"
  define v where "v = w\<lparr>w_next_ptr := Suc ?n, w_ext_pos := w_ext_pos w + 7\<rparr>"
  obtain r e n tm where r: "lgtd_timer_start True False 800 (Refresh_callback ?n) v =
       Some (r, if r = None then v\<lparr>w_ext_pos := e, w_next_ptr := n\<rparr>
                else v\<lparr>w_ext_pos := e, w_next_ptr := Suc (w_next_ptr v), w_timers := (w_next_ptr v, tm) # w_timers v\<rparr>)"
    "w_next_ptr v \<le> n" "tm_callback tm = Refresh_callback ?n" "r = None \<or> r = Some (w_next_ptr v)"
    using timer_start_spec [of 800 True False "Refresh_callback ?n" v] by auto
  have v: "Suc (Suc (Suc (Suc (Suc (Suc (Suc (w_ext_pos w))))))) = w_ext_pos w + 7" by simp
  have eq: "lgtd_lifx_gateway_open peer site t w = do {
       (timer, w) \<leftarrow> lgtd_timer_start True False 800 (Refresh_callback ?n) v;
       case timer of
         None \<Rightarrow> Some (None, w)
       | Some refresh_timer \<Rightarrow> do {
           let w = w\<lparr>w_gateways := (?n, calloc_gateway peer site t refresh_timer) # w_gateways w\<rparr>;
           w \<leftarrow> lgtd_lifx_discovery_start_watchdog w;
           if w_exit w \<noteq> None then Some (Some ?n, w) else do {
             w \<leftarrow> lgtd_stats_add Gateways 1 w;
             Some (Some ?n, w)
           }
         }
     }"
    using True by (simp add: lgtd_lifx_gateway_open_def gateway_calls_ok_def upt_rec ext_call_def fresh_ptr_def v_def v)
      (simp cong: option.case_cong if_cong)
  show ?thesis
  proof (cases r)
    case None
    then have "lgtd_lifx_gateway_open peer site t w = Some (None, v\<lparr>w_ext_pos := e, w_next_ptr := n\<rparr>)"
      using r(1) by (simp add: eq)
    moreover have "wf_world (v\<lparr>w_ext_pos := e, w_next_ptr := n\<rparr>)"
      using wf_world_next_ptr [of "w\<lparr>w_ext_pos := e\<rparr>" n] assms(1) r(2) by (simp add: v_def)
    ultimately show ?thesis using r(2) by (simp add: with_gateway_def steady_def v_def)
  next
    case (Some p)
    then have p: "p = Suc ?n" using r(4) by (simp add: v_def)
    define w1 where "w1 = v\<lparr>w_ext_pos := e, w_next_ptr := Suc (Suc ?n), w_timers := (Suc ?n, tm) # w_timers w,
      w_gateways := (?n, calloc_gateway peer site t (Suc ?n)) # w_gateways w\<rparr>"
    obtain e' s x where wd: "lgtd_lifx_discovery_start_watchdog w1 = Some (w1\<lparr>w_ext_pos := e', w_watchdog_started := s, w_exit := x\<rparr>)"
      using watchdog_spec [of w1] assms(3) by (auto simp: w1_def v_def)
    define st where "st = (w_stats w)\<lparr>st_gateways := st_gateways (w_stats w) + 1\<rparr>"
    define w2 where "w2 = w1\<lparr>w_ext_pos := e', w_watchdog_started := s, w_exit := x\<rparr>"
    have nn: "0 \<le> st_gateways (w_stats w) + 1" using wf_worldD(6) [OF assms(1)] by (simp add: inv_stats_def)
    have "lgtd_lifx_gateway_open peer site t w = Some (Some ?n, if x = None then w2\<lparr>w_stats := st\<rparr> else w2)"
      using r(1) Some p wd nn by (simp add: eq w2_def w1_def v_def lgtd_stats_add_def st_def)
    moreover have "wf_world (w2\<lparr>w_stats := st\<rparr>)"
    proof -
      have "w2\<lparr>w_stats := st\<rparr> = (w\<lparr>w_next_ptr := Suc (Suc ?n), w_timers := (Suc ?n, tm) # w_timers w,
          w_gateways := (?n, calloc_gateway peer site t (Suc ?n)) # w_gateways w, w_stats := st\<rparr>)
          \<lparr>w_ext_pos := e', w_watchdog_started := s, w_exit := x\<rparr>"
        by (simp add: w2_def w1_def v_def)
      with wf_world_new_gateway [OF assms(1,2) r(3) st_def, of peer t] show ?thesis by simp
    qed
    moreover have "?n \<notin> fst ` set (w_gateways w)" using wf_worldD(1) [OF assms(1)] by (auto simp: inv_keys_def)
    ultimately show ?thesis using assms(3) by (auto simp: with_gateway_def steady_def w2_def w1_def v_def st_def)
  qed
qed

end
