(* ===== verification/Gateway_Inv.thy ===== *)
theory Gateway_Inv
  imports Gateway_Bulbs
begin

text \<open>
  The packet handlers, the receive loop and the event callbacks of \<open>src/lifx/gateway.c\<close> and of
  \<open>src/lifx/wire_proto.c\<close> keep the invariant of the world and never fail an assertion, for packets
  that make sense: what is asked of a packet is the predicate \<open>packet_sane\<close>.
\<close>

unbundle bit_operations_syntax

subsection \<open>Tag ids\<close>

lemma wf_world_sites:
  assumes "wf_world w" "tags_frame w w'" "wf_tags w'" "has_site w' = has_site w"
  shows "wf_world w'"
proof -
  have "inv_timers w'"
    by (rule inv_timers_cong [OF wf_worldD(7) [OF assms(1)]])
      (use assms(2) in \<open>auto simp: tags_frame_def timer_callback_def gw_timer_def fun_eq_iff\<close>)
  moreover have "inv_keys w'"
    using wf_worldD(1) [OF assms(1)] assms(2) by (auto simp: inv_keys_def tags_frame_def dest: order_less_le_trans)
  moreover have "w_gateways w' = w_gateways w" "w_bulbs w' = w_bulbs w" "w_stats w' = w_stats w"
    using assms(2) by (simp_all add: tags_frame_def)
  ultimately show ?thesis
    using wf_worldD [OF assms(1)] assms(3,4)
    by (intro wf_worldI) (simp_all add: inv_local_def inv_links_def inv_refs_def inv_tags_def inv_stats_def)
qed

lemma wf_world_tags_frame:
  assumes "wf_world w" "tags_frame w w'" "w_tags w' = w_tags w"
  shows "wf_world w'"
proof (rule wf_world_sites [OF assms(1,2)])
  show "wf_tags w'" using wf_worldD(5) [OF assms(1)] assms(2,3)
    by (auto simp: inv_tags_def wf_tags_def tag_labels_def tags_frame_def dest: order_less_le_trans)
  show "has_site w' = has_site w" using assms(3) by (simp add: has_site_def fun_eq_iff)
qed

lemma inv_links_cong:
  assumes "w_bulbs w' = w_bulbs w" "\<And>i. map_option g_bulbs (find_gw i w') = map_option g_bulbs (find_gw i w)"
  shows "inv_links w' = inv_links w"
proof -
  have "inv_links w \<longleftrightarrow>
     (\<forall>a b. find_bulb a w = Some b \<longrightarrow> (\<exists>as. map_option g_bulbs (find_gw (b_gw b) w) = Some as \<and> a \<in> set as))
     \<and> (\<forall>i as a. map_option g_bulbs (find_gw i w) = Some as \<longrightarrow> a \<in> set as \<longrightarrow> (\<exists>b. find_bulb a w = Some b \<and> b_gw b = i))" for w
    by (simp add: inv_links_def) blast
  then show ?thesis by (simp only: assms)
qed

text \<open>A slot of a gateway and the sites of the tags change together.\<close>

lemma wf_world_set_slot:
  assumes "wf_world w" "find_gw gw w = Some g" "tags_frame w w'" "wf_tags w'" "k < 64"
    and other: "\<And>q i j. i \<noteq> gw \<or> j \<noteq> k \<Longrightarrow> has_site w' q i j \<longleftrightarrow> has_site w q i j"
    and slot: "\<And>q. has_site w' q gw k \<longleftrightarrow> v = Some q"
    and ids: "\<And>j. j < 64 \<Longrightarrow> bit ids j \<longleftrightarrow> (if j = k then v \<noteq> None else bit (g_tag_ids g) j)"
  shows "wf_world (upd_gw gw (g\<lparr>g_tag_ids := ids, g_tags := (g_tags g)[k := v]\<rparr>) w')" (is "wf_world ?w")
proof -
  note d = wf_worldD [OF assms(1)]
  note f = assms(3) [unfolded tags_frame_def]
  have loc: "gw_local g" by (rule wf_world_gw [OF assms(1,2)])
  then have len: "length (g_tags g) = 64" by (simp add: gw_local_def)
  have gws: "find_gw i ?w = (if i = gw then Some (g\<lparr>g_tag_ids := ids, g_tags := (g_tags g)[k := v]\<rparr>) else find_gw i w)" for i
    using assms(2) f by simp
  have loc': "gw_local (g\<lparr>g_tag_ids := ids, g_tags := (g_tags g)[k := v]\<rparr>)"
    using loc ids len by (auto simp: gw_local_def nth_list_update)
  have site: "has_site ?w q i j \<longleftrightarrow> (if i = gw \<and> j = k then v = Some q else has_site w q i j)" for q i j
    using other slot by (simp add: upd_gw_def)
  show ?thesis
  proof (rule wf_worldI)
    show "inv_keys ?w" using d(1) f by (auto simp: inv_keys_def upd_gw_def dest: order_less_le_trans)
    show "inv_local ?w" using d(2) loc' f unfolding inv_local_def gws by auto
    have "map_option g_bulbs (find_gw i ?w) = map_option g_bulbs (find_gw i w)" for i
      using assms(2) unfolding gws by simp
    then show "inv_links ?w" using d(3) f inv_links_cong [of ?w w] by simp
    show "inv_refs ?w" using d(4) assms(2) f unfolding inv_refs_def gws by auto
    have "wf_tags ?w" using assms(4) by (simp add: upd_gw_def)
    with d(5) assms(2,5) len show "inv_tags ?w"
      unfolding inv_tags_def gws site by (auto simp: nth_list_update split: if_splits)
    show "inv_stats ?w" using d(6) f by (simp add: inv_stats_def upd_gw_def)
    show "inv_timers ?w" using assms(2) f
      by (intro inv_timers_cong [OF d(7)]) (auto simp: timer_callback_def gw_timer_def upd_gw_def fun_eq_iff)
  qed
qed

text \<open>No other gateway, no bulb and no timer changes.\<close>

definition only_tags :: "lgtd_world \<Rightarrow> lgtd_world \<Rightarrow> bool" where
  "only_tags w w' \<longleftrightarrow> keeps_gateways w w' \<and> w_bulbs w' = w_bulbs w \<and> w_timers w' = w_timers w
     \<and> (\<forall>i. map_option g_bulbs (find_gw i w') = map_option g_bulbs (find_gw i w))
     \<and> (\<forall>i. map_option g_site (find_gw i w') = map_option g_site (find_gw i w))"

lemma only_tags_refl [simp]: "only_tags w w"
  by (simp add: only_tags_def)

lemma only_tags_trans: "only_tags w w' \<Longrightarrow> only_tags w' w'' \<Longrightarrow> only_tags w w''"
  by (auto simp: only_tags_def intro: keeps_gateways_trans)

lemma tags_frame_only: "tags_frame w w' \<Longrightarrow> only_tags w w'"
  by (auto simp: only_tags_def tags_frame_def keeps_gateways_def steady_def)

lemma only_tags_slot:
  assumes "tags_frame w w'" "find_gw gw w = Some g"
  shows "only_tags w (upd_gw gw (g\<lparr>g_tag_ids := ids, g_tags := ts\<rparr>) w')"
  using assms by (auto simp: only_tags_def tags_frame_def keeps_gateways_def steady_def upd_gw_def)

text \<open>The label has no site on the gateway, or exactly the one it is to get.\<close>

definition label_free :: "lgtd_world \<Rightarrow> gw_ptr \<Rightarrow> string \<Rightarrow> int \<Rightarrow> bool" where
  "label_free w gw label tag_id \<longleftrightarrow> length (cstr label) < LGTD_LIFX_LABEL_SIZE
     \<and> (\<forall>p j. lgtd_lifx_tagging_find_tag label w = Some p \<longrightarrow> has_site w p gw j \<longrightarrow> tag_id = int j)"

definition allocated :: "lgtd_world \<Rightarrow> gw_ptr \<Rightarrow> nat \<Rightarrow> string \<Rightarrow> lgtd_world \<Rightarrow> bool" where
  "allocated w gw k label w' \<longleftrightarrow> (\<exists>p. lgtd_lifx_tagging_find_tag label w' = Some p
     \<and> (lgtd_lifx_tagging_find_tag label w = Some p
        \<or> (lgtd_lifx_tagging_find_tag label w = None \<and> (\<forall>i j. \<not> has_site w p i j)))
     \<and> (\<forall>q i j. has_site w' q i j \<longleftrightarrow> has_site w q i j \<or> (q = p \<and> i = gw \<and> j = k)))"

lemma allocate_at:
  assumes "wf_world w" "find_gw gw w = Some g" "k < 64" "\<not> bit (g_tag_ids g) k" "length (cstr label) < 32"
    and free: "\<And>p j. lgtd_lifx_tagging_find_tag label w = Some p \<Longrightarrow> has_site w p gw j \<Longrightarrow> j = k"
  shows "\<exists>r w'. do {
      (tag, w) \<leftarrow> lgtd_lifx_tagging_incref label gw k w;
      case tag of
        None \<Rightarrow> Some (-1, w)
      | Some p \<Rightarrow> do {
          g \<leftarrow> find_gw gw w;
          let g = g\<lparr>g_tag_ids := g_tag_ids g OR LGTD_LIFX_WIRE_TAG_ID_TO_VALUE k, g_tags := (g_tags g)[k := Some p]\<rparr>;
          Some (int k, upd_gw gw g w)
        }
    } = Some (r, w') \<and> wf_world w' \<and> only_tags w w' \<and> (r = -1 \<and> w_tags w' = w_tags w \<or> r = int k \<and> allocated w gw k label w')"
proof -
  have wt: "wf_tags w" using wf_worldD(5) [OF assms(1)] by (simp add: inv_tags_def)
  from incref_spec [OF wt assms(5,3), of gw] free obtain r w1 where
    w1: "lgtd_lifx_tagging_incref label gw k w = Some (r, w1)" "wf_tags w1" "tags_frame w w1" "incref_result w label gw k r w1"
    by metis
  show ?thesis
  proof (cases r)
    case None
    with w1 wf_world_tags_frame [OF assms(1) w1(3)] tags_frame_only [OF w1(3)] show ?thesis
      by (simp add: incref_result_def)
  next
    case (Some p)
    let ?g = "g\<lparr>g_tag_ids := g_tag_ids g OR LGTD_LIFX_WIRE_TAG_ID_TO_VALUE k, g_tags := (g_tags g)[k := Some p]\<rparr>"
    have g1: "find_gw gw w1 = Some g" using assms(2) w1(3) by (simp add: tags_frame_def)
    have sites: "\<And>q i j. has_site w1 q i j \<longleftrightarrow> has_site w q i j \<or> (q = p \<and> i = gw \<and> j = k)"
      using w1(4) Some by (simp add: incref_result_def)
    have "g_tags g ! k = None" using wf_world_gw [OF assms(1,2)] assms(3,4) by (simp add: gw_local_def)
    then have none: "\<not> has_site w q gw k" for q
      using wf_worldD(5) [OF assms(1)] assms(2,3) unfolding inv_tags_def by (metis option.distinct(1))
    have "wf_world (upd_gw gw ?g w1)"
      by (rule wf_world_set_slot [OF assms(1,2) w1(3,2) assms(3)]) (use sites none in \<open>auto simp: bit_or_iff\<close>)
    moreover have "only_tags w (upd_gw gw ?g w1)" by (rule only_tags_slot [OF w1(3) assms(2)])
    moreover have "allocated w gw k label (upd_gw gw ?g w1)"
    proof -
      have "lgtd_lifx_tagging_find_tag label (upd_gw gw ?g w1) = lgtd_lifx_tagging_find_tag label w1"
        by (simp add: lgtd_lifx_tagging_find_tag_def)
      moreover have "has_site (upd_gw gw ?g w1) = has_site w1" by (simp add: upd_gw_def)
      ultimately show ?thesis using w1(4) Some by (auto simp: allocated_def incref_result_def)
    qed
    ultimately show ?thesis using w1(1) Some g1 by simp
  qed
qed

lemma first_free_id:
  assumes "lgtd_lifx_wire_bitscan64_forward (NOT ids) = r" "r \<noteq> -1"
  shows "\<exists>k. r = int k \<and> k < 64 \<and> \<not> bit ids k"
proof -
  from assms obtain k ks where k: "tag_ids_of (NOT ids) = k # ks" "r = int k"
    by (auto simp: bitscan_eq split: list.splits)
  then have "bit (NOT ids) k" by (metis list.set_intros(1) tag_ids_of_iff)
  with k(2) bit_u64_less [OF this] show ?thesis by (auto simp: bit_not_iff)
qed

lemma allocate_tag_id_spec:
  assumes "wf_world w" "find_gw gw w = Some g" "-1 \<le> tag_id" "tag_id < 64"
    and free: "0 \<le> tag_id \<and> bit (g_tag_ids g) (nat tag_id) \<or> label_free w gw label tag_id"
  shows "\<exists>r w'. lgtd_lifx_gateway_allocate_tag_id gw tag_id label w = Some (r, w') \<and> wf_world w' \<and> only_tags w w'
     \<and> (r = -1 \<and> w_tags w' = w_tags w \<or> 0 \<le> r \<and> r < 64 \<and> (tag_id = -1 \<or> r = tag_id)
          \<and> (tag_id \<noteq> -1 \<and> w' = w \<and> bit (g_tag_ids g) (nat r) \<or> allocated w gw (nat r) label w'))"
proof -
  define k where "k = (if tag_id = -1 then lgtd_lifx_wire_bitscan64_forward (NOT (g_tag_ids g)) else tag_id)"
  have eq: "lgtd_lifx_gateway_allocate_tag_id gw tag_id label w =
      (if k = -1 then Some (-1, w)
       else if \<not> bit (g_tag_ids g) (nat k) then do {
         (tag, w) \<leftarrow> lgtd_lifx_tagging_incref label gw (nat k) w;
         case tag of
           None \<Rightarrow> Some (-1, w)
         | Some p \<Rightarrow> do {
             g \<leftarrow> find_gw gw w;
             let g = g\<lparr>g_tag_ids := g_tag_ids g OR LGTD_LIFX_WIRE_TAG_ID_TO_VALUE (nat k),
                       g_tags := (g_tags g)[nat k := Some p]\<rparr>;
             Some (k, upd_gw gw g w)
           }
       }
       else Some (k, w))"
    using assms(3,4) and_TAG_ID_TO_VALUE [of "g_tag_ids g" "nat k"]
    unfolding lgtd_lifx_gateway_allocate_tag_id_def Let_def assms(2) bind.bind_lunit k_def [symmetric] by auto
  consider "k = -1" | "k \<noteq> -1" "bit (g_tag_ids g) (nat k)" | "k \<noteq> -1" "\<not> bit (g_tag_ids g) (nat k)" by blast
  then show ?thesis
  proof cases
    case 1
    then show ?thesis using assms(1) by (simp add: eq)
  next
    case 2
    then have "tag_id \<noteq> -1" using first_free_id [of "g_tag_ids g" k] by (auto simp: k_def)
    with 2 show ?thesis using assms(1,3,4) by (simp add: eq k_def)
  next
    case 3
    obtain n where n: "k = int n" "n < 64"
    proof (cases "tag_id = -1")
      case True
      then show ?thesis using first_free_id [of "g_tag_ids g" k] 3(1) that by (auto simp: k_def)
    next
      case False
      then show ?thesis using assms(3,4) that [of "nat tag_id"] by (simp add: k_def)
    qed
    have lf: "label_free w gw label tag_id" using free 3 by (auto simp: k_def split: if_splits)
    have "j = n" if "lgtd_lifx_tagging_find_tag label w = Some p" "has_site w p gw j" for p j
      using lf that n k_def by (auto simp: label_free_def)
    then have "\<exists>r w'. lgtd_lifx_gateway_allocate_tag_id gw tag_id label w = Some (r, w') \<and> wf_world w' \<and> only_tags w w'
       \<and> (r = -1 \<and> w_tags w' = w_tags w \<or> r = int n \<and> allocated w gw n label w')"
      using allocate_at [OF assms(1,2) n(2), of label] 3 lf n(2) unfolding eq unfolding n(1)
      by (simp add: label_free_def cong: option.case_cong)
    then show ?thesis using n k_def by (auto split: if_splits)
  qed
qed

lemma deallocate_tag_id_spec:
  assumes "wf_world w" "find_gw gw w = Some g" "0 \<le> tag_id" "tag_id < 64"
  shows "\<exists>w'. lgtd_lifx_gateway_deallocate_tag_id gw tag_id w = Some w' \<and> wf_world w' \<and> only_tags w w'
     \<and> (\<forall>q i j. has_site w' q i j \<longleftrightarrow> has_site w q i j \<and> \<not> (i = gw \<and> j = nat tag_id))"
proof (cases "bit (g_tag_ids g) (nat tag_id)")
  case False
  then have "g_tags g ! nat tag_id = None" using wf_world_gw [OF assms(1,2)] assms(3,4) by (simp add: gw_local_def)
  then have "\<not> has_site w q gw (nat tag_id)" for q
    using wf_worldD(5) [OF assms(1)] assms(2-4) unfolding inv_tags_def
    by (metis nat_less_iff of_nat_numeral option.distinct(1))
  then show ?thesis
    using assms False and_TAG_ID_TO_VALUE [of "g_tag_ids g" "nat tag_id"]
    by (auto simp: lgtd_lifx_gateway_deallocate_tag_id_def)
next
  case True
  let ?k = "nat tag_id"
  have k: "?k < 64" using assms(3,4) by simp
  then obtain p where p: "g_tags g ! ?k = Some p" using True wf_world_gw [OF assms(1,2)] by (auto simp: gw_local_def)
  note t = wf_worldD(5) [OF assms(1), unfolded inv_tags_def]
  have slot: "has_site w q gw ?k \<longleftrightarrow> q = p" for q using t assms(2) k p by (metis option.inject)
  then obtain tg where tg: "map_of (w_tags w) p = Some tg" by (auto simp: has_site_def)
  from decref_spec [OF t [THEN conjunct1] tg, of gw] obtain w1 where
    w1: "lgtd_lifx_tagging_decref p gw w = Some w1" "wf_tags w1" "tags_frame w w1"
      "\<forall>q g j. has_site w1 q g j \<longleftrightarrow> has_site w q g j \<and> \<not> (q = p \<and> g = gw)" by blast
  have g1: "find_gw gw w1 = Some g" using assms(2) w1(3) by (simp add: tags_frame_def)
  let ?g = "g\<lparr>g_tag_ids := g_tag_ids g AND NOT (LGTD_LIFX_WIRE_TAG_ID_TO_VALUE ?k), g_tags := (g_tags g)[?k := None]\<rparr>"
  have only: "has_site w p gw j \<longleftrightarrow> j = ?k" for j
    using slot has_site_unique [OF t [THEN conjunct1], of p gw j ?k] by auto
  have "wf_world (upd_gw gw ?g w1)"
    by (rule wf_world_set_slot [OF assms(1,2) w1(3,2) k])
      (use w1(4) only slot k in \<open>auto simp: bit_and_iff bit_not_iff\<close>)
  moreover have "has_site (upd_gw gw ?g w1) q i j \<longleftrightarrow> has_site w q i j \<and> \<not> (i = gw \<and> j = ?k)" for q i j
    using w1(4) only slot by (auto simp: upd_gw_def)
  moreover have "lgtd_lifx_gateway_deallocate_tag_id gw tag_id w = Some (upd_gw gw ?g w1)"
    using assms True p w1(1) g1 and_TAG_ID_TO_VALUE [of "g_tag_ids g" ?k]
    by (simp add: lgtd_lifx_gateway_deallocate_tag_id_def)
  ultimately show ?thesis using only_tags_slot [OF w1(3) assms(2)] by blast
qed

lemma allocate_known_id:
  assumes "find_gw gw w = Some g" "bit (g_tag_ids g) k"
  shows "lgtd_lifx_gateway_allocate_tag_id gw (int k) label w = Some (int k, w)"
  using assms bit_u64_less [OF assms(2)] and_TAG_ID_TO_VALUE [of "g_tag_ids g" k]
  by (simp add: lgtd_lifx_gateway_allocate_tag_id_def)

subsection \<open>Handlers\<close>

text \<open>What is asked of a device address: not zero, and room for the bulb on the gateway when it is new.\<close>

definition device_sane :: "lgtd_world \<Rightarrow> gw_ptr \<Rightarrow> bulb_addr \<Rightarrow> bool" where
  "device_sane w gw a \<longleftrightarrow> length a = LGTD_LIFX_ADDR_LENGTH \<and> list_ex (\<lambda>x. x \<noteq> 0) a
     \<and> (case find_gw gw w of None \<Rightarrow> True | Some g \<Rightarrow> find_bulb a w = None \<longrightarrow> length (g_bulbs g) < 255)"

definition keeps :: "lgtd_world \<Rightarrow> lgtd_world option \<Rightarrow> bool" where
  "keeps w r \<longleftrightarrow> (\<exists>w'. r = Some w' \<and> wf_world w' \<and> keeps_gateways w w')"

lemma keepsI: "\<exists>w'. r = Some w' \<and> wf_world w' \<and> same_devices w w' \<Longrightarrow> keeps w r"
  by (auto simp: keeps_def dest: same_devices_keeps)

lemma keeps_Some: "wf_world w \<Longrightarrow> keeps w (Some w)"
  by (simp add: keeps_def)

lemma keeps_bind:
  assumes "keeps w r" "\<And>w'. r = Some w' \<Longrightarrow> wf_world w' \<Longrightarrow> keeps_gateways w w' \<Longrightarrow> keeps w' (f w')"
  shows "keeps w (Option.bind r f)"
proof -
  obtain w1 where w1: "r = Some w1" "wf_world w1" "keeps_gateways w w1" using assms(1) by (auto simp: keeps_def)
  from assms(2) [OF this] obtain w2 where "f w1 = Some w2" "wf_world w2" "keeps_gateways w1 w2" by (auto simp: keeps_def)
  with w1(1) keeps_gateways_trans [OF w1(3)] show ?thesis by (auto simp: keeps_def)
qed

lemma get_bulb_or_return_keeps:
  assumes "wf_world w" "find_gw gw w = Some g" "device_sane w gw a"
    and "\<And>w' b. wf_world w' \<Longrightarrow> keeps_gateways w w' \<Longrightarrow> find_bulb a w' = Some b \<Longrightarrow> keeps w' (rest w')"
  shows "keeps w (LGTD_LIFX_GATEWAY_GET_BULB_OR_RETURN gw a rest w)"
proof -
  from get_or_open_bulb_spec [OF assms(1,2), of a] assms(2,3) obtain ok w1 where
    w1: "lgtd_lifx_gateway_get_or_open_bulb gw a w = Some (ok, w1)" "wf_world w1" "keeps_gateways w w1"
      "ok \<longrightarrow> find_bulb a w1 \<noteq> None" by (auto simp: device_sane_def)
  show ?thesis
  proof (cases ok)
    case True
    then obtain b where "find_bulb a w1 = Some b" using w1(4) by auto
    from assms(4) [OF w1(2,3) this] keeps_gateways_trans [OF w1(3)] w1(1) True show ?thesis
      by (auto simp: keeps_def LGTD_LIFX_GATEWAY_GET_BULB_OR_RETURN_def)
  qed (use w1 in \<open>simp add: keeps_def LGTD_LIFX_GATEWAY_GET_BULB_OR_RETURN_def\<close>)
qed

lemma send_get_all_light_state_keeps:
  assumes "wf_world w" "find_gw gw w = Some g"
  shows "\<exists>w'. send_get_all_light_state gw w = Some w' \<and> wf_world w' \<and> same_devices w w'"
proof -
  have "length (g_site g) = 6" "ring_inv g" using wf_world_gw [OF assms] by (simp_all add: gw_local_def)
  from send_get_all_light_state_ok [OF this(1) wf_world_client [OF assms(1)] this(2), of "w_be w"] obtain g' where
    g': "lgtd_lifx_gateway_send_get_all_light_state (w_be w) (w_client_id w) g = Some g'" "queue_frame g g'" "ring_inv g'" by blast
  have "send_get_all_light_state gw w = Some (upd_gw gw g' w)" using assms(2) g'(1) by (simp add: send_get_all_light_state_def)
  with wf_world_upd_gw [OF assms queue_frame_core [OF g'(2)] g'(3)] same_devices_upd_gw [OF assms(2) g'(2)]
  show ?thesis by blast
qed

text \<open>The second half of \<open>handle_light_status\<close>: the check that a power command has been applied.\<close>

lemma check_power_keeps:
  assumes "wf_world w" "find_bulb a w = Some b"
  shows "keeps w (if b_expected_power_on b = ls_power (b_state b)
      then Some (upd_bulb a (b\<lparr>b_dirty_at := 0\<rparr>) w)
      else lgtd_router_send_to_device a LGTD_LIFX_SET_POWER_STATE
             (Some (power_state_bytes (w_be w)
                \<lparr>ps_power = if b_expected_power_on b \<noteq> 0 then LGTD_LIFX_POWER_ON else LGTD_LIFX_POWER_OFF\<rparr>)) w)"
proof (cases "b_expected_power_on b = ls_power (b_state b)")
  case True
  have "length (ls_label (b_state b)) = 32" using wf_world_bulb [OF assms] by (simp add: bulb_local_def)
  then have "wf_world (upd_bulb a (b\<lparr>b_dirty_at := 0\<rparr>) w)"
    by (intro wf_world_upd_bulb [OF assms]) (simp_all add: bulb_core_eq_def)
  with True same_devices_upd_bulb [OF assms(2)] show ?thesis by (intro keepsI) auto
next
  case False
  with send_to_device_wf [OF assms, of LGTD_LIFX_SET_POWER_STATE] show ?thesis by (intro keepsI) simp
qed

lemma refresh_after_keeps:
  assumes "wf_world w" "find_gw gw w = Some g"
  shows "keeps w (if lgtd_lifx_gateway_latency g < 800
      then lgtd_timer_reschedule (g_refresh_timer g)
             (LGTD_LIFX_GATEWAY_MIN_REFRESH_INTERVAL_MSECS - uint (lgtd_lifx_gateway_latency g)) w
      else if \<not> g_pending_refresh_req g then send_get_all_light_state gw w
      else Some w)"
  using refresh_timer_ok(1) [OF assms] send_get_all_light_state_keeps [OF assms] keeps_Some [OF assms(1)]
  by (auto intro: keepsI)

lemma handle_light_status_keeps:
  assumes "wf_world w" "find_gw gw w = Some g" "device_sane w gw (hdr_device_addr hdr)" "length (ls_label pkt) = 32"
    and "ls_power pkt = LGTD_LIFX_POWER_OFF \<or> ls_power pkt = LGTD_LIFX_POWER_ON"
  shows "keeps w (lgtd_lifx_gateway_handle_light_status gw hdr pkt w)"
  unfolding lgtd_lifx_gateway_handle_light_status_def Let_def
proof (rule get_bulb_or_return_keeps [OF assms(1-3)])
  let ?a = "hdr_device_addr hdr"
  fix w1 b1 assume w1: "wf_world w1" "keeps_gateways w w1" "find_bulb ?a w1 = Some b1"
  obtain g1 where g1: "find_gw gw w1 = Some g1" using keeps_gateways_find [OF w1(2) assms(2)] by blast
  from set_light_state_wf [OF w1(1,3) assms(4,5), of "g_last_pkt_at g1"] obtain w2 where
    w2: "lgtd_lifx_bulb_set_light_state ?a pkt (g_last_pkt_at g1) w1 = Some w2" "wf_world w2" "same_devices w1 w2"
      "find_bulb ?a w2 = Some (b1\<lparr>b_last_light_state_at := g_last_pkt_at g1, b_state := pkt\<rparr>)" by blast
  define b where "b = b1\<lparr>b_last_light_state_at := g_last_pkt_at g1, b_state := pkt\<rparr>"
  have b: "find_bulb ?a w2 = Some b" using w2(4) by (simp add: b_def)
  obtain bg where bg: "find_gw (b_gw b) w2 = Some bg" using wf_world_bulb [OF w2(2) b] by blast
  let ?check = "if b_dirty_at b \<noteq> 0 \<and> b_dirty_at b < b_last_light_state_at b \<and> 400 < g_last_pkt_at bg - b_dirty_at b
      then (if b_expected_power_on b = ls_power (b_state b)
            then Some (upd_bulb ?a (b\<lparr>b_dirty_at := 0\<rparr>) w2)
            else lgtd_router_send_to_device ?a LGTD_LIFX_SET_POWER_STATE
                   (Some (power_state_bytes (w_be w2)
                      \<lparr>ps_power = if b_expected_power_on b \<noteq> 0 then LGTD_LIFX_POWER_ON else LGTD_LIFX_POWER_OFF\<rparr>)) w2)
      else Some w2"
  have "keeps w2 ?check" using check_power_keeps [OF w2(2) b] keeps_Some [OF w2(2)] by simp
  then have "keeps w2 (Option.bind ?check (\<lambda>w. do {
      g \<leftarrow> find_gw gw w;
      if lgtd_lifx_gateway_latency g < 800
      then lgtd_timer_reschedule (g_refresh_timer g)
             (LGTD_LIFX_GATEWAY_MIN_REFRESH_INTERVAL_MSECS - uint (lgtd_lifx_gateway_latency g)) w
      else if \<not> g_pending_refresh_req g then send_get_all_light_state gw w
      else Some w }))" (is "keeps w2 ?r")
  proof (rule keeps_bind)
    fix w3 assume w3: "wf_world w3" "keeps_gateways w2 w3"
    obtain g2 where "find_gw gw w2 = Some g2" using keeps_gateways_find [OF same_devices_keeps [OF w2(3)] g1] by blast
    then obtain g3 where "find_gw gw w3 = Some g3" using keeps_gateways_find [OF w3(2)] by blast
    with refresh_after_keeps [OF w3(1) this] show "keeps w3 (do {
      g \<leftarrow> find_gw gw w3;
      if lgtd_lifx_gateway_latency g < 800
      then lgtd_timer_reschedule (g_refresh_timer g)
             (LGTD_LIFX_GATEWAY_MIN_REFRESH_INTERVAL_MSECS - uint (lgtd_lifx_gateway_latency g)) w3
      else if \<not> g_pending_refresh_req g then send_get_all_light_state gw w3
      else Some w3 })" by simp
  qed
  then have "keeps w1 ?r" using keeps_gateways_trans [OF same_devices_keeps [OF w2(3)]] by (auto simp: keeps_def)
  then show "keeps w1 (do {
          g \<leftarrow> find_gw gw w1;
          w \<leftarrow> lgtd_lifx_bulb_set_light_state ?a pkt (g_last_pkt_at g) w1;
          b \<leftarrow> find_bulb ?a w;
          bulb_gw \<leftarrow> find_gw (b_gw b) w;
          w \<leftarrow> (if b_dirty_at b \<noteq> 0 \<and> b_dirty_at b < b_last_light_state_at b
                   \<and> 400 < g_last_pkt_at bulb_gw - b_dirty_at b
                then (if b_expected_power_on b = ls_power (b_state b)
                      then Some (upd_bulb ?a (b\<lparr>b_dirty_at := 0\<rparr>) w)
                      else lgtd_router_send_to_device ?a LGTD_LIFX_SET_POWER_STATE
                             (Some (power_state_bytes (w_be w)
                                \<lparr>ps_power = if b_expected_power_on b \<noteq> 0 then LGTD_LIFX_POWER_ON
                                           else LGTD_LIFX_POWER_OFF\<rparr>)) w)
                else Some w);
          g \<leftarrow> find_gw gw w;
          if lgtd_lifx_gateway_latency g < 800
          then lgtd_timer_reschedule (g_refresh_timer g)
                 (LGTD_LIFX_GATEWAY_MIN_REFRESH_INTERVAL_MSECS - uint (lgtd_lifx_gateway_latency g)) w
          else if \<not> g_pending_refresh_req g then send_get_all_light_state gw w
          else Some w
        })"
    using g1 w2(1) b bg by simp
qed

text \<open>The handlers that only set attributes of the bulb.\<close>

lemma handle_attributes_keeps:
  assumes "wf_world w" "find_gw gw w = Some g" "device_sane w gw (hdr_device_addr hdr)"
  shows "ps_power pw = LGTD_LIFX_POWER_OFF \<or> ps_power pw = LGTD_LIFX_POWER_ON \<Longrightarrow>
      keeps w (lgtd_lifx_gateway_handle_power_state gw hdr pw w)"
    and "keeps w (lgtd_lifx_gateway_handle_tags gw hdr tgs w)"
    and "keeps w (lgtd_lifx_gateway_handle_product_info gw hdr pr w)"
    and "keeps w (lgtd_lifx_gateway_handle_runtime_info gw hdr ri w)"
    and "keeps w (lgtd_lifx_gateway_handle_ambient_light gw hdr al w)"
    and "32 \<le> length (pl_label lb) \<Longrightarrow> keeps w (lgtd_lifx_gateway_handle_bulb_label gw hdr lb w)"
    and "hdr_packet_type hdr = LGTD_LIFX_MESH_INFO \<or> hdr_packet_type hdr = LGTD_LIFX_WIFI_INFO \<Longrightarrow>
      keeps w (lgtd_lifx_gateway_handle_ip_state gw hdr ips w)"
    and "hdr_packet_type hdr = LGTD_LIFX_MESH_FIRMWARE \<or> hdr_packet_type hdr = LGTD_LIFX_WIFI_FIRMWARE_STATE \<Longrightarrow>
      keeps w (lgtd_lifx_gateway_handle_ip_firmware_info gw hdr fw w)"
proof -
  note rule = get_bulb_or_return_keeps [OF assms]
  show "keeps w (lgtd_lifx_gateway_handle_power_state gw hdr pw w)"
    if "ps_power pw = LGTD_LIFX_POWER_OFF \<or> ps_power pw = LGTD_LIFX_POWER_ON"
    unfolding lgtd_lifx_gateway_handle_power_state_def
    by (rule rule, rule keepsI) (use set_power_state_wf that in blast)
  show "keeps w (lgtd_lifx_gateway_handle_tags gw hdr tgs w)"
    unfolding lgtd_lifx_gateway_handle_tags_def by (rule rule, rule keepsI) (use set_tags_wf in blast)
  show "keeps w (lgtd_lifx_gateway_handle_product_info gw hdr pr w)"
    unfolding lgtd_lifx_gateway_handle_product_info_def by (rule rule, rule keepsI) (use set_attributes_wf(3) in blast)
  show "keeps w (lgtd_lifx_gateway_handle_runtime_info gw hdr ri w)"
    unfolding lgtd_lifx_gateway_handle_runtime_info_def assms(2) bind.bind_lunit
    by (rule rule, rule keepsI) (use set_attributes_wf(4) in blast)
  show "keeps w (lgtd_lifx_gateway_handle_ambient_light gw hdr al w)"
    unfolding lgtd_lifx_gateway_handle_ambient_light_def by (rule rule, rule keepsI) (use set_attributes_wf(5) in blast)
  show "keeps w (lgtd_lifx_gateway_handle_bulb_label gw hdr lb w)" if "32 \<le> length (pl_label lb)"
    unfolding lgtd_lifx_gateway_handle_bulb_label_def by (rule rule, rule keepsI) (use set_label_wf that in blast)
  have ips: "keeps w (LGTD_LIFX_GATEWAY_GET_BULB_OR_RETURN gw (hdr_device_addr hdr)
      (lgtd_lifx_bulb_set_ip_state (hdr_device_addr hdr) ip ips t) w)" for ip t
    by (rule rule, rule keepsI) (use set_attributes_wf(1) in blast)
  have fws: "keeps w (LGTD_LIFX_GATEWAY_GET_BULB_OR_RETURN gw (hdr_device_addr hdr)
      (lgtd_lifx_bulb_set_ip_firmware_info (hdr_device_addr hdr) ip fw t) w)" for ip t
    by (rule rule, rule keepsI) (use set_attributes_wf(2) in blast)
  show "keeps w (lgtd_lifx_gateway_handle_ip_state gw hdr ips w)"
    if "hdr_packet_type hdr = LGTD_LIFX_MESH_INFO \<or> hdr_packet_type hdr = LGTD_LIFX_WIFI_INFO"
    using that ips assms(2) by (auto simp: lgtd_lifx_gateway_handle_ip_state_def)
  show "keeps w (lgtd_lifx_gateway_handle_ip_firmware_info gw hdr fw w)"
    if "hdr_packet_type hdr = LGTD_LIFX_MESH_FIRMWARE \<or> hdr_packet_type hdr = LGTD_LIFX_WIFI_FIRMWARE_STATE"
    using that fws assms(2) by (auto simp: lgtd_lifx_gateway_handle_ip_firmware_info_def)
qed

text \<open>
  Tag labels. A label that already names a tag of the gateway under another id fails an assertion
  (\<open>tagging_incref_conflict_aborts\<close>), so the new id must be alone in the packet and free for the label.
\<close>

definition labels_sane :: "lgtd_world \<Rightarrow> gw_ptr \<Rightarrow> lgtd_lifx_packet_tag_labels \<Rightarrow> bool" where
  "labels_sane w gw pkt \<longleftrightarrow> tl_label pkt ! 0 = CHR 0x00
     \<or> (case find_gw gw w of None \<Rightarrow> True
        | Some g \<Rightarrow> (\<forall>k\<in>set (tag_ids_of (tl_tags pkt)). bit (g_tag_ids g) k)
            \<or> (\<exists>k. tag_ids_of (tl_tags pkt) = [k] \<and> label_free w gw (tl_label pkt) (int k)))"

lemma only_tags_keeps: "only_tags w w' \<Longrightarrow> keeps_gateways w w'"
  by (simp add: only_tags_def)

lemma foreach_keeps:
  assumes "wf_world w" "find_gw gw w = Some g"
    and "\<And>x w' g'. x \<in> set xs \<Longrightarrow> wf_world w' \<Longrightarrow> keeps_gateways w w' \<Longrightarrow> find_gw gw w' = Some g' \<Longrightarrow> keeps w' (f x w')"
  shows "keeps w (foreach f xs w)"
proof -
  have "\<exists>w''. f x w' = Some w'' \<and> wf_world w'' \<and> keeps_gateways w w''"
    if x: "x \<in> set xs" and w': "wf_world w' \<and> keeps_gateways w w'" for x w'
  proof -
    obtain g' where "find_gw gw w' = Some g'" using keeps_gateways_find w' assms(2) by blast
    from assms(3) [OF x _ _ this] w' obtain w'' where "f x w' = Some w''" "wf_world w''" "keeps_gateways w' w''"
      by (auto simp: keeps_def)
    with w' keeps_gateways_trans show ?thesis by blast
  qed
  with foreach_total [where P = "\<lambda>w'. wf_world w' \<and> keeps_gateways w w'" and f = f and xs = xs and s = w] assms(1)
  show ?thesis by (simp add: keeps_def)
qed

lemma handle_tag_labels_keeps:
  assumes "wf_world w" "find_gw gw w = Some g" "labels_sane w gw pkt"
  shows "keeps w (lgtd_lifx_gateway_handle_tag_labels gw pkt w)"
proof -
  let ?body = "\<lambda>tag_id w. if tl_label pkt ! 0 \<noteq> CHR 0x00
       then do { (_, w) \<leftarrow> lgtd_lifx_gateway_allocate_tag_id gw (int tag_id) (tl_label pkt) w; Some w }
       else do {
         g \<leftarrow> find_gw gw w;
         if g_tags g ! tag_id \<noteq> None then lgtd_lifx_gateway_deallocate_tag_id gw (int tag_id) w else Some w
       }"
  have "keeps w (foreach ?body (tag_ids_of (tl_tags pkt)) w)"
  proof (cases "tl_label pkt ! 0 = CHR 0x00")
    case True
    show ?thesis
    proof (rule foreach_keeps [OF assms(1,2)])
      fix x w' g' assume x: "x \<in> set (tag_ids_of (tl_tags pkt))" and w': "wf_world w'" "find_gw gw w' = Some g'"
      have "int x < 64" using x bit_u64_less by (auto simp: tag_ids_of_iff)
      from deallocate_tag_id_spec [OF w' _ this] w' True keeps_Some [OF w'(1)] show "keeps w' (?body x w')"
        by (auto simp: keeps_def dest: only_tags_keeps)
    qed
  next
    case False
    with assms(2,3) consider "\<forall>k\<in>set (tag_ids_of (tl_tags pkt)). bit (g_tag_ids g) k"
      | k where "tag_ids_of (tl_tags pkt) = [k]" "label_free w gw (tl_label pkt) (int k)"
      by (auto simp: labels_sane_def)
    then show ?thesis
    proof cases
      case 1
      have "foreach ?body ks w = Some w" if "\<forall>k\<in>set ks. bit (g_tag_ids g) k" for ks
        using that False allocate_known_id [OF assms(2)] by (induction ks) auto
      with 1 keeps_Some [OF assms(1)] show ?thesis by simp
    next
      case 2
      then have "k < 64" using bit_u64_less by (metis list.set_intros(1) tag_ids_of_iff)
      with allocate_tag_id_spec [OF assms(1,2), of "int k" "tl_label pkt"] 2(2) obtain r w' where
        "lgtd_lifx_gateway_allocate_tag_id gw (int k) (tl_label pkt) w = Some (r, w')" "wf_world w'" "only_tags w w'" by auto
      with 2(1) False show ?thesis by (auto simp: keeps_def dest: only_tags_keeps)
    qed
  qed
  then show ?thesis by (simp add: lgtd_lifx_gateway_handle_tag_labels_def foreach_tag_id_eq)
qed

subsection \<open>Received packets\<close>

text \<open>
  What the decoders guarantee to the handlers, whatever bytes were received: the power of a bulb is on or off, labels have
  their 32 characters and the label of a tag its terminator.
\<close>

definition payload_fits :: "lgtd_lifx_handler \<Rightarrow> lgtd_lifx_packet \<Rightarrow> bool" where
  "payload_fits handle payload =
     (case handle of
        Handle_null \<Rightarrow> True
      | Handle_enosys \<Rightarrow> True
      | Handle_pan_gateway \<Rightarrow> (\<exists>pkt. payload = Pan_gateway pkt)
      | Handle_tag_labels \<Rightarrow> (\<exists>pkt. payload = Tag_labels pkt \<and> length (cstr (tl_label pkt)) < LGTD_LIFX_LABEL_SIZE)
      | Handle_light_status \<Rightarrow> (\<exists>pkt. payload = Light_status pkt \<and> length (ls_label pkt) = LGTD_LIFX_LABEL_SIZE
          \<and> (ls_power pkt = LGTD_LIFX_POWER_OFF \<or> ls_power pkt = LGTD_LIFX_POWER_ON))
      | Handle_power_state \<Rightarrow> (\<exists>pkt. payload = Power_state pkt
          \<and> (ps_power pkt = LGTD_LIFX_POWER_OFF \<or> ps_power pkt = LGTD_LIFX_POWER_ON))
      | Handle_tags \<Rightarrow> (\<exists>pkt. payload = Tags pkt)
      | Handle_ip_state \<Rightarrow> (\<exists>pkt. payload = Ip_state pkt)
      | Handle_ip_firmware_info \<Rightarrow> (\<exists>pkt. payload = Ip_firmware_info pkt)
      | Handle_product_info \<Rightarrow> (\<exists>pkt. payload = Product_info pkt)
      | Handle_runtime_info \<Rightarrow> (\<exists>pkt. payload = Runtime_info pkt)
      | Handle_bulb_label \<Rightarrow> (\<exists>bs. payload = Raw bs \<and> LGTD_LIFX_LABEL_SIZE \<le> length bs)
      | Handle_ambient_light \<Rightarrow> (\<exists>pkt. payload = Ambient_light pkt))"

text \<open>Every entry of the packet table pairs a handler with the decoder of its payload.\<close>

fun decoder_of :: "lgtd_lifx_handler \<Rightarrow> lgtd_lifx_decoder" where
  "decoder_of Handle_pan_gateway = Decode_pan_gateway"
| "decoder_of Handle_tag_labels = Decode_tag_labels"
| "decoder_of Handle_light_status = Decode_light_status"
| "decoder_of Handle_power_state = Decode_power_state"
| "decoder_of Handle_tags = Decode_tags"
| "decoder_of Handle_ip_state = Decode_ip_state"
| "decoder_of Handle_ip_firmware_info = Decode_ip_firmware_info"
| "decoder_of Handle_product_info = Decode_product_info"
| "decoder_of Handle_runtime_info = Decode_runtime_info"
| "decoder_of Handle_ambient_light = Decode_ambient_light"
| "decoder_of _ = Decode_null"

fun types_of :: "lgtd_lifx_handler \<Rightarrow> u16 \<Rightarrow> bool" where
  "types_of Handle_ip_state t \<longleftrightarrow> t = LGTD_LIFX_MESH_INFO \<or> t = LGTD_LIFX_WIFI_INFO"
| "types_of Handle_ip_firmware_info t \<longleftrightarrow> t = LGTD_LIFX_MESH_FIRMWARE \<or> t = LGTD_LIFX_WIFI_FIRMWARE_STATE"
| "types_of _ t \<longleftrightarrow> True"

lemma packet_table_consistent:
  "info \<in> set packet_table \<Longrightarrow> pi_decode info = decoder_of (pi_handle info) \<and> types_of (pi_handle info) (pi_type info)"
proof -
  have "list_all (\<lambda>info. pi_decode info = decoder_of (pi_handle info) \<and> types_of (pi_handle info) (pi_type info)) packet_table"
    by (simp add: packet_table_defs)
  then show "info \<in> set packet_table \<Longrightarrow> pi_decode info = decoder_of (pi_handle info) \<and> types_of (pi_handle info) (pi_type info)"
    by (auto simp: list_all_iff)
qed

lemma length_string_of_bytes [simp]: "length (string_of_bytes bs) = length bs"
  by (simp add: string_of_bytes_def)

lemma cstr_terminated: "i < length s \<Longrightarrow> length (cstr (s[i := CHR 0x00])) \<le> i"
proof (induction s arbitrary: i)
  case (Cons c s)
  then show ?case by (cases i) (auto simp: cstr_def)
qed simp

lemma decode_payload_fits:
  assumes "52 \<le> length bs"
  shows "payload_fits handle (decode_payload be (decoder_of handle) bs)"
proof -
  have "length (cstr ((string_of_bytes (fld 8 32 bs))[31 := CHR 0x00])) \<le> 31"
    by (rule cstr_terminated) (use assms in \<open>simp add: fld_def\<close>)
  with assms show ?thesis
    by (cases handle) (auto simp: payload_fits_def lgtd_lifx_wire_decode_light_status_def light_status_of_bytes_def
      lgtd_lifx_wire_decode_power_state_def lgtd_lifx_wire_decode_tag_labels_def tag_labels_of_bytes_def fld_def)
qed

text \<open>What is left to ask of a packet: its device address and its tag labels make sense.\<close>

definition packet_sane :: "lgtd_world \<Rightarrow> gw_ptr \<Rightarrow> lgtd_lifx_handler \<Rightarrow> lgtd_lifx_packet_header \<Rightarrow> lgtd_lifx_packet \<Rightarrow> bool" where
  "packet_sane w gw handle hdr payload =
     (if handle \<in> {Handle_null, Handle_enosys, Handle_pan_gateway} then True
      else if handle = Handle_tag_labels
      then (case payload of Tag_labels pkt \<Rightarrow> labels_sane w gw pkt | _ \<Rightarrow> False)
      else device_sane w gw (hdr_device_addr hdr))"

lemma call_handler_keeps:
  assumes "wf_world w" "find_gw gw w = Some g" "packet_sane w gw handle hdr payload" "payload_fits handle payload"
    and "types_of handle (hdr_packet_type hdr)" "lgtd_lifx_wire_get_packet_info (hdr_packet_type hdr) \<noteq> None"
  shows "keeps w (call_handler handle gw hdr payload w)"
proof -
  note dev = handle_attributes_keeps [OF assms(1,2)] handle_light_status_keeps [OF assms(1,2)]
  have lbl: "32 \<le> length bs \<Longrightarrow> 32 \<le> length (pl_label (label_of_bytes bs))" for bs
    by (simp add: label_of_bytes_def fld_def)
  from assms(3-6) handle_tag_labels_keeps [OF assms(1,2)] keeps_Some [OF assms(1)] show ?thesis
    by (cases handle) (auto simp: call_handler_def packet_sane_def payload_fits_def intro!: dev lbl)
qed

subsection \<open>A packet\<close>

text \<open>The gateways stay, others may be added.\<close>

definition gws_stay :: "lgtd_world \<Rightarrow> lgtd_world \<Rightarrow> bool" where
  "gws_stay w w' \<longleftrightarrow> steady w w' \<and> (\<forall>i g. find_gw i w = Some g \<longrightarrow> (\<exists>g'. find_gw i w' = Some g' \<and> g_peer g' = g_peer g))"

lemma gws_stay_refl [simp]: "gws_stay w w"
  by (simp add: gws_stay_def)

lemma gws_stay_trans:
  assumes "gws_stay w w'" "gws_stay w' w''"
  shows "gws_stay w w''"
  unfolding gws_stay_def
proof (intro conjI allI impI)
  show "steady w w''" using assms steady_trans by (auto simp: gws_stay_def)
  fix i g assume "find_gw i w = Some g"
  then obtain g' where g': "find_gw i w' = Some g'" "g_peer g' = g_peer g" using assms(1) by (auto simp: gws_stay_def)
  then obtain g'' where "find_gw i w'' = Some g''" "g_peer g'' = g_peer g'" using assms(2) unfolding gws_stay_def by blast
  with g' show "\<exists>g'. find_gw i w'' = Some g' \<and> g_peer g' = g_peer g" by simp
qed

lemma keeps_gateways_stay: "keeps_gateways w w' \<Longrightarrow> gws_stay w w'"
  unfolding gws_stay_def using keeps_gateways_find [of w w'] by (auto simp: keeps_gateways_def [of w w'])

lemma with_gateway_stay: "with_gateway peer site t w r w' \<Longrightarrow> gws_stay w w'"
  by (cases r) (auto simp: gws_stay_def with_gateway_def map_of_eq_None_iff split: if_splits
    dest: map_of_SomeD intro: rev_image_eqI)

text \<open>The daemon goes on in good order, or it has decided to exit.\<close>

definition safe :: "lgtd_world \<Rightarrow> lgtd_world option \<Rightarrow> bool" where
  "safe w r \<longleftrightarrow> (\<exists>w'. r = Some w' \<and> (w_exit w' = None \<longrightarrow> wf_world w' \<and> gws_stay w w'))"

lemma keeps_safe: "keeps w r \<Longrightarrow> safe w r"
  by (auto simp: keeps_def safe_def intro: keeps_gateways_stay)

definition datagram_sane ::
  "lgtd_world \<Rightarrow> gw_ptr option \<Rightarrow> bytes \<Rightarrow> lgtd_lifx_handler \<Rightarrow> lgtd_lifx_packet_header \<Rightarrow> lgtd_lifx_packet \<Rightarrow> bool" where
  "datagram_sane w gw peer handle hdr payload \<longleftrightarrow> peer \<noteq> [] \<and> length (hdr_site hdr) = LGTD_LIFX_ADDR_LENGTH
     \<and> (case gw of
          Some i \<Rightarrow> map_option g_peer (find_gw i w) = Some peer \<and> packet_sane w i handle hdr payload
        | None \<Rightarrow> (case lgtd_lifx_gateway_get peer w of Some i \<Rightarrow> packet_sane w i handle hdr payload | None \<Rightarrow> True))"

lemma packet_sane_received:
  assumes "find_gw i w = Some g"
  shows "packet_sane (upd_gw i (g\<lparr>g_last_pkt_at := t\<rparr>) w) i handle hdr payload = packet_sane w i handle hdr payload"
proof -
  have "has_site (upd_gw i (g\<lparr>g_last_pkt_at := t\<rparr>) w) = has_site w" by (simp add: upd_gw_def)
  moreover have "lgtd_lifx_tagging_find_tag l (upd_gw i (g\<lparr>g_last_pkt_at := t\<rparr>) w) = lgtd_lifx_tagging_find_tag l w" for l
    by (simp add: lgtd_lifx_tagging_find_tag_def)
  ultimately show ?thesis
    using assms by (simp add: packet_sane_def device_sane_def labels_sane_def label_free_def cong: lgtd_lifx_packet.case_cong)
qed

lemma gateway_get_Some:
  assumes "wf_world w" "lgtd_lifx_gateway_get peer w = Some i"
  shows "\<exists>g. find_gw i w = Some g \<and> g_peer g = peer"
proof -
  from assms(2) obtain g where "(i, g) \<in> set (w_gateways w)" "g_peer g = peer"
    by (auto simp: lgtd_lifx_gateway_get_def dest!: find_SomeD)
  with wf_worldD(1) [OF assms(1)] show ?thesis by (auto simp: inv_keys_def)
qed

lemma dispatch_packet_safe:
  assumes "wf_world w" "find_gw i w = Some g" "packet_sane w i (pi_handle info) hdr payload"
    and "lgtd_lifx_wire_get_packet_info (hdr_packet_type hdr) = Some info" "payload_fits (pi_handle info) payload"
  shows "keeps w (do {
      g \<leftarrow> find_gw i w;
      let w = (if pi_handle info \<noteq> Handle_enosys then upd_gw i (g\<lparr>g_last_pkt_at := t\<rparr>) w else w);
      call_handler (pi_handle info) i hdr payload w
    })"
proof -
  have types: "types_of (pi_handle info) (hdr_packet_type hdr)"
    using assms(4) packet_table_consistent [of info] by (auto simp: get_packet_info_Some)
  define w1 where "w1 = (if pi_handle info \<noteq> Handle_enosys then upd_gw i (g\<lparr>g_last_pkt_at := t\<rparr>) w else w)"
  have "ring_inv g" using wf_world_gw [OF assms(1,2)] by (simp add: gw_local_def)
  then have "wf_world (upd_gw i (g\<lparr>g_last_pkt_at := t\<rparr>) w)"
    by (intro wf_world_upd_gw [OF assms(1,2)]) (simp_all add: gw_core_eq_def)
  then have wf: "wf_world w1" using assms(1) by (simp add: w1_def)
  obtain g1 where g1: "find_gw i w1 = Some g1" using assms(2) by (cases "pi_handle info = Handle_enosys") (auto simp: w1_def)
  have "packet_sane w1 i (pi_handle info) hdr payload"
    using assms(3) packet_sane_received [OF assms(2)] by (auto simp: w1_def)
  from call_handler_keeps [OF wf g1 this assms(5) types] assms(4)
  have "keeps w1 (call_handler (pi_handle info) i hdr payload w1)" by simp
  moreover have "keeps_gateways w w1"
    using assms(2) by (auto simp: w1_def keeps_gateways_def steady_def upd_gw_def)
  ultimately have "keeps w (call_handler (pi_handle info) i hdr payload w1)"
    using keeps_gateways_trans [of w w1] by (auto simp: keeps_def)
  then show ?thesis using assms(2) by (simp add: w1_def)
qed

lemma handle_packet_safe:
  assumes "wf_world w" "w_exit w = None" "datagram_sane w gw peer (pi_handle info) hdr payload" "received_at \<noteq> 0"
    and "lgtd_lifx_wire_get_packet_info (hdr_packet_type hdr) = Some info" "payload_fits (pi_handle info) payload"
  shows "safe w (lgtd_lifx_gateway_handle_packet gw peer info hdr payload received_at w)"
proof -
  note peer = assms(3) [unfolded datagram_sane_def, THEN conjunct1]
  note go = dispatch_packet_safe [OF _ _ _ assms(5,6), where t = received_at]
  show ?thesis
  proof (cases gw)
    case (Some i)
    then obtain g where g: "find_gw i w = Some g" "g_peer g = peer" "packet_sane w i (pi_handle info) hdr payload"
      using assms(3) by (auto simp: datagram_sane_def)
    from keeps_safe [OF go [OF assms(1) g(1,3)]] g Some peer assms(2,4) show ?thesis
      by (simp add: lgtd_lifx_gateway_handle_packet_def)
  next
    case None
    show ?thesis
    proof (cases "lgtd_lifx_gateway_get peer w")
      case (Some i)
      then obtain g where g: "find_gw i w = Some g" using gateway_get_Some [OF assms(1)] by blast
      have "packet_sane w i (pi_handle info) hdr payload" using assms(3) None Some by (simp add: datagram_sane_def)
      from keeps_safe [OF go [OF assms(1) g this]] g Some None peer assms(2,4) show ?thesis
        by (simp add: lgtd_lifx_gateway_handle_packet_def)
    next
      case unknown: None
      show ?thesis
      proof (cases "hdr_packet_type hdr = LGTD_LIFX_PAN_GATEWAY")
        case False
        then show ?thesis using None unknown peer assms(1,2,4)
          by (simp add: lgtd_lifx_gateway_handle_packet_def safe_def)
      next
        case True
        then have pan: "pi_handle info = Handle_pan_gateway"
          using assms(5) by (auto simp: get_packet_info_eq packet_table_defs)
        have "length (hdr_site hdr) = 6" using assms(3) by (simp add: datagram_sane_def)
        from gateway_open_spec [OF assms(1) this assms(2), of peer received_at] obtain r w1 where
          w1: "lgtd_lifx_gateway_open peer (hdr_site hdr) received_at w = Some (r, w1)"
            "w_exit w1 = None \<longrightarrow> wf_world w1 \<and> with_gateway peer (hdr_site hdr) received_at w r w1" by (elim exE conjE)
        show ?thesis
        proof (cases "w_exit w1 = None \<and> r \<noteq> None")
          case False
          then show ?thesis using w1 None unknown peer assms(4) True with_gateway_stay
            by (cases r) (auto simp: lgtd_lifx_gateway_handle_packet_def safe_def)
        next
          case ok: True
          then obtain i where i: "r = Some i" by auto
          with ok w1 obtain g where g: "find_gw i w1 = Some g" by (auto simp: with_gateway_def)
          have "packet_sane w1 i (pi_handle info) hdr payload" by (simp add: packet_sane_def pan)
          from go [OF _ g this] ok w1(2) have k: "keeps w1 (do {
              g \<leftarrow> find_gw i w1;
              let w = (if pi_handle info \<noteq> Handle_enosys then upd_gw i (g\<lparr>g_last_pkt_at := received_at\<rparr>) w1 else w1);
              call_handler (pi_handle info) i hdr payload w
            })" by simp
          from keeps_safe [OF this] ok i w1 None unknown peer assms(4) True
            gws_stay_trans [OF with_gateway_stay] show ?thesis
            by (auto simp: lgtd_lifx_gateway_handle_packet_def safe_def)
        qed
      qed
    qed
  qed
qed

subsection \<open>The receive loop\<close>

text \<open>
  What is asked of the datagrams, along the run of the loop: each of them makes sense in the world it is received in.
  The buffer is the one of 4096 bytes on the stack, and the clock does not read zero.
\<close>

fun recvs_sane :: "gw_ptr option \<Rightarrow> recv_result list \<Rightarrow> lgtd_world \<Rightarrow> bool" where
  "recvs_sane gw [] w \<longleftrightarrow> True"
| "recvs_sane gw (Recv_interrupted # rs) w \<longleftrightarrow> recvs_sane gw rs w"
| "recvs_sane gw (Recv_error # rs) w \<longleftrightarrow> True"
| "recvs_sane gw (Recv_data peer nbytes buf # rs) w \<longleftrightarrow>
     (let (received_at, w) = lgtd_time_monotonic_msecs w;
          hdr = lgtd_lifx_wire_decode_header (w_be w) (header_of_bytes (w_be w) buf)
      in length buf = 4096 \<and> received_at \<noteq> 0
         \<and> (if nbytes < LGTD_LIFX_PACKET_HEADER_SIZE \<or> unat (hdr_size hdr) \<noteq> nbytes then True
            else if hdr_packet_type hdr = LGTD_LIFX_GET_PAN_GATEWAY then recvs_sane gw rs w
            else (case lgtd_lifx_wire_get_packet_info (hdr_packet_type hdr) of
                    None \<Rightarrow> recvs_sane gw rs w
                  | Some pkt_info \<Rightarrow>
                      if hdr_protocol hdr AND LGTD_LIFX_PROTOCOL_ADDRESSABLE (w_be w) = 0 then recvs_sane gw rs w
                      else (let pkt = decode_payload (w_be w) (pi_decode pkt_info) (drop LGTD_LIFX_PACKET_HEADER_SIZE buf)
                            in datagram_sane w gw peer (pi_handle pkt_info) hdr pkt
                               \<and> (case lgtd_lifx_gateway_handle_packet gw peer pkt_info hdr pkt received_at w of
                                    Some w' \<Rightarrow> w_exit w' = None \<longrightarrow> recvs_sane gw rs w'
                                  | None \<Rightarrow> True)))))"

definition safe_receive :: "lgtd_world \<Rightarrow> (bool \<times> lgtd_world) option \<Rightarrow> bool" where
  "safe_receive w r \<longleftrightarrow> (\<exists>ok w'. r = Some (ok, w') \<and> (w_exit w' = None \<longrightarrow> wf_world w' \<and> gws_stay w w'))"

lemma safe_receive_trans: "gws_stay w w' \<Longrightarrow> safe_receive w' r \<Longrightarrow> safe_receive w r"
  by (auto simp: safe_receive_def intro: gws_stay_trans)

lemma safe_receive_here: "wf_world w' \<Longrightarrow> gws_stay w w' \<Longrightarrow> safe_receive w (Some (ok, w'))"
  by (simp add: safe_receive_def)

lemma handle_receive_safe:
  assumes "wf_world w" "w_exit w = None" "recvs_sane gw rs w"
  shows "safe_receive w (lgtd_lifx_wire_handle_receive gw rs w)"
  using assms
proof (induction rs arbitrary: w)
  case Nil
  then show ?case by (simp add: safe_receive_here)
next
  case (Cons r rs)
  show ?case
  proof (cases r)
    case Recv_interrupted
    with Cons show ?thesis by simp
  next
    case Recv_error
    with Cons show ?thesis by (simp add: safe_receive_here)
  next
    case (Recv_data peer nbytes buf)
    define t where "t = w_clock w (w_clock_pos w)"
    define w1 where "w1 = w\<lparr>w_clock_pos := Suc (w_clock_pos w)\<rparr>"
    define hdr where "hdr = lgtd_lifx_wire_decode_header (w_be w1) (header_of_bytes (w_be w1) buf)"
    have clock: "lgtd_time_monotonic_msecs w = (t, w1)" by (simp add: lgtd_time_monotonic_msecs_def t_def w1_def)
    have w1: "wf_world w1" "w_exit w1 = None" "gws_stay w w1"
      using Cons.prems by (simp_all add: w1_def gws_stay_def steady_def)
    note sane = Cons.prems(3) [unfolded Recv_data recvs_sane.simps clock Let_def prod.case, folded hdr_def]
    note eq = lgtd_lifx_wire_handle_receive.simps(4) [of gw peer nbytes buf rs w, unfolded clock Let_def prod.case, folded hdr_def]
    show ?thesis
    proof (cases "nbytes < LGTD_LIFX_PACKET_HEADER_SIZE \<or> unat (hdr_size hdr) \<noteq> nbytes")
      case True
      then show ?thesis using safe_receive_here [OF w1(1,3)] unfolding Recv_data eq by auto
    next
      case False
      note len = this
      show ?thesis
      proof (cases "hdr_packet_type hdr = LGTD_LIFX_GET_PAN_GATEWAY \<or> lgtd_lifx_wire_get_packet_info (hdr_packet_type hdr) = None
          \<or> hdr_protocol hdr AND LGTD_LIFX_PROTOCOL_ADDRESSABLE (w_be w1) = 0")
        case True
        then have eq': "lgtd_lifx_wire_handle_receive gw (Recv_data peer nbytes buf # rs) w = lgtd_lifx_wire_handle_receive gw rs w1"
          using len unfolding eq by (auto split: option.splits)
        have "recvs_sane gw rs w1" using sane len True by (auto split: option.splits if_splits)
        then have "safe_receive w1 (lgtd_lifx_wire_handle_receive gw rs w1)"
          by (rule Cons.IH [OF w1(1,2)])
        then show ?thesis unfolding Recv_data eq' by (rule safe_receive_trans [OF w1(3)])
      next
        case False
        then obtain info where info: "lgtd_lifx_wire_get_packet_info (hdr_packet_type hdr) = Some info" by auto
        define pkt where "pkt = decode_payload (w_be w1) (pi_decode info) (drop LGTD_LIFX_PACKET_HEADER_SIZE buf)"
        have buf: "length buf = 4096" "t \<noteq> 0" using sane by simp_all
        have dec: "pi_decode info = decoder_of (pi_handle info)"
          using info packet_table_consistent [of info] by (simp add: get_packet_info_Some)
        have fits: "payload_fits (pi_handle info) pkt"
          unfolding pkt_def dec by (rule decode_payload_fits) (simp add: buf)
        have sane': "datagram_sane w1 gw peer (pi_handle info) hdr pkt"
            "case lgtd_lifx_gateway_handle_packet gw peer info hdr pkt t w1 of
               Some w' \<Rightarrow> w_exit w' = None \<longrightarrow> recvs_sane gw rs w' | None \<Rightarrow> True"
          using sane len False info unfolding pkt_def by simp_all
        from handle_packet_safe [OF w1(1,2) sane'(1) buf(2) info fits] obtain w2 where
          w2: "lgtd_lifx_gateway_handle_packet gw peer info hdr pkt t w1 = Some w2"
            "w_exit w2 = None \<longrightarrow> wf_world w2 \<and> gws_stay w1 w2" unfolding safe_def by (elim exE conjE)
        have eq': "lgtd_lifx_wire_handle_receive gw (Recv_data peer nbytes buf # rs) w =
            (if w_exit w2 \<noteq> None then Some (True, w2) else lgtd_lifx_wire_handle_receive gw rs w2)"
          using len False info w2(1) unfolding eq pkt_def by simp
        show ?thesis
        proof (cases "w_exit w2")
          case (Some e)
          then show ?thesis unfolding Recv_data eq' by (auto simp: safe_receive_def)
        next
          case None
          then have "recvs_sane gw rs w2" using sane'(2) w2(1) by simp
          with None have "safe_receive w2 (lgtd_lifx_wire_handle_receive gw rs w2)"
            using Cons.IH [of w2] w2(2) by simp
          with None w2(2) gws_stay_trans [OF w1(3)] show ?thesis unfolding Recv_data eq'
            by (auto intro: safe_receive_trans)
        qed
      qed
    qed
  qed
qed

subsection \<open>Event callbacks\<close>

text \<open>A callback returns, and leaves a world in good order unless it has decided to exit.\<close>

definition goes_on :: "lgtd_world \<Rightarrow> lgtd_world option \<Rightarrow> bool" where
  "goes_on w r \<longleftrightarrow> (\<exists>w'. r = Some w' \<and> (w_exit w' = None \<longrightarrow> wf_world w' \<and> steady w w'))"

lemma safe_goes_on: "safe w r \<Longrightarrow> goes_on w r"
  by (auto simp: safe_def goes_on_def gws_stay_def)

lemma keeps_goes_on: "keeps w r \<Longrightarrow> goes_on w r"
  by (simp add: keeps_safe safe_goes_on)

lemma goes_on_here: "wf_world w' \<Longrightarrow> steady w w' \<Longrightarrow> goes_on w (Some w')"
  by (simp add: goes_on_def)

lemma goes_on_trans: "steady w w' \<Longrightarrow> goes_on w' r \<Longrightarrow> goes_on w r"
  by (auto simp: goes_on_def intro: steady_trans)

lemma broadcast_discovery_goes_on:
  assumes "wf_world w" "ep_write_ev (w_broadcast_endpoint w)"
  shows "goes_on w (do { (ok, w) \<leftarrow> lgtd_lifx_broadcast_discovery w; Some (if ok then w else lgtd_err 1 w) })"
  using assms by (simp add: lgtd_lifx_broadcast_discovery_def ext_call_def goes_on_def lgtd_err_def steady_def)

lemma drop_gw_goes_on:
  assumes "wf_world w" "find_gw gw w = Some g" "ep_write_ev (w_broadcast_endpoint w)"
  shows "goes_on w (drop_gw_and_restart_discovery gw w)"
proof -
  from gateway_close_spec [OF assms(1,2)] obtain w1 where
    w1: "lgtd_lifx_gateway_close gw w = Some w1" "wf_world w1" "steady w w1" by blast
  then have "goes_on w1 (do { (ok, w) \<leftarrow> lgtd_lifx_broadcast_discovery w1; Some (if ok then w else lgtd_err 1 w) })"
    using assms(3) by (intro broadcast_discovery_goes_on) (simp_all add: steady_def)
  with w1 show ?thesis unfolding drop_gw_and_restart_discovery_def by (simp add: goes_on_trans)
qed

text \<open>A write event finds a message to write, and the kernel writes no more of it than it was given.\<close>

definition write_sane :: "int \<Rightarrow> lgtd_lifx_gateway \<Rightarrow> bool" where
  "write_sane nbytes g \<longleftrightarrow> (case ring_msgs g of [] \<Rightarrow> False | m # _ \<Rightarrow> -1 \<le> nbytes \<and> nbytes \<le> msg_size m)"

lemma write_event_core:
  assumes "ring_inv g" "write_sane nbytes g"
  shows "(\<exists>g'. lgtd_lifx_gateway_write_event nbytes again buf_len now g = Some (True, g'))
     \<or> (\<exists>g'. lgtd_lifx_gateway_write_event nbytes again buf_len now g = Some (False, g') \<and> gw_core_eq g g' \<and> ring_inv g'
          \<and> g_peer g' = g_peer g)"
proof (cases "nbytes = -1 \<and> \<not> again")
  case True
  then show ?thesis using assms(1) by (simp add: lgtd_lifx_gateway_write_event_def ring_inv_def)
next
  case False
  from assms(2) obtain m ms where "ring_msgs g = m # ms" "nbytes \<le> msg_size m"
    by (auto simp: write_sane_def split: list.splits)
  from ring_write_inv_le [OF assms(1) this] have "ring_inv (ring_write nbytes g)" .
  moreover have "gw_core_eq g (ring_write nbytes g)" "g_peer (ring_write nbytes g) = g_peer g"
    by (simp_all add: gw_core_eq_def ring_write_def Let_def)
  ultimately show ?thesis
    using write_event_eq [OF assms(1), of nbytes again buf_len now] False
    by (auto simp: write_event_result_def gw_core_eq_def Let_def)
qed

definition socket_event_sane :: "bool \<Rightarrow> bool \<Rightarrow> bool \<Rightarrow> recv_result list \<Rightarrow> int \<Rightarrow> gw_ptr \<Rightarrow> lgtd_world \<Rightarrow> bool" where
  "socket_event_sane ev_timeout ev_read ev_write recvs nbytes gw w \<longleftrightarrow>
     find_gw gw w \<noteq> None \<and> ep_write_ev (w_broadcast_endpoint w)
     \<and> (ev_read \<longrightarrow> recvs_sane (Some gw) recvs w)
     \<and> (case (if ev_read then lgtd_lifx_wire_handle_receive (Some gw) recvs w else Some (True, w)) of
          Some (ok, w') \<Rightarrow> ev_write \<longrightarrow> (case find_gw gw w' of Some g \<Rightarrow> write_sane nbytes g | None \<Rightarrow> True)
        | None \<Rightarrow> True)"

lemma socket_event_goes_on:
  assumes "wf_world w" "w_exit w = None" "socket_event_sane ev_timeout ev_read ev_write recvs nbytes gw w"
  shows "goes_on w (lgtd_lifx_gateway_socket_event_callback ev_timeout ev_read ev_write recvs nbytes again buf_len gw w)"
proof (cases ev_timeout)
  case True
  then show ?thesis
    using assms drop_gw_goes_on by (auto simp: lgtd_lifx_gateway_socket_event_callback_def socket_event_sane_def)
next
  case False
  let ?r = "if ev_read then lgtd_lifx_wire_handle_receive (Some gw) recvs w else Some (True, w)"
  obtain g where g: "find_gw gw w = Some g" using assms(3) by (auto simp: socket_event_sane_def)
  have "safe_receive w ?r"
    using handle_receive_safe [OF assms(1,2), of "Some gw" recvs] assms(1,3)
    by (auto simp: socket_event_sane_def safe_receive_here)
  then obtain ok w1 where w1: "?r = Some (ok, w1)" "w_exit w1 = None \<longrightarrow> wf_world w1 \<and> gws_stay w w1"
    unfolding safe_receive_def by (elim exE conjE)
  have eq: "lgtd_lifx_gateway_socket_event_callback ev_timeout ev_read ev_write recvs nbytes again buf_len gw w =
      (if w_exit w1 \<noteq> None then Some w1
       else if \<not> ok then drop_gw_and_restart_discovery gw w1
       else if ev_write then do {
         g \<leftarrow> find_gw gw w1;
         let (now, w') = lgtd_time_monotonic_msecs w1;
         (drop_gw, g) \<leftarrow> lgtd_lifx_gateway_write_event nbytes again buf_len now g;
         if drop_gw then drop_gw_and_restart_discovery gw w1
         else Some (upd_gw gw g w')
       }
       else Some w1)"
    using False unfolding lgtd_lifx_gateway_socket_event_callback_def w1(1) by simp
  show ?thesis
  proof (cases "w_exit w1")
    case (Some e)
    then show ?thesis unfolding eq by (auto simp: goes_on_def)
  next
    case None
    with w1(2) have wf: "wf_world w1" and stay: "gws_stay w w1" by simp_all
    then obtain g1 where g1: "find_gw gw w1 = Some g1" using g unfolding gws_stay_def by blast
    have st: "steady w w1" using stay by (simp add: gws_stay_def)
    then have ep: "ep_write_ev (w_broadcast_endpoint w1)" using assms(3) by (simp add: socket_event_sane_def steady_def)
    note drop = goes_on_trans [OF st drop_gw_goes_on [OF wf g1 ep]]
    show ?thesis
    proof (cases "ok \<and> ev_write")
      case False
      then show ?thesis using None drop goes_on_here [OF wf st] unfolding eq by (auto simp: None)
    next
      case True
      have inv: "ring_inv g1" using wf_world_gw [OF wf g1] by (simp add: gw_local_def)
      have "write_sane nbytes g1" using assms(3) w1(1) g1 True by (simp add: socket_event_sane_def)
      from write_event_core [OF inv this, of again buf_len "w_clock w1 (w_clock_pos w1)"] show ?thesis
      proof (elim disjE exE conjE)
        fix g2 assume "lgtd_lifx_gateway_write_event nbytes again buf_len (w_clock w1 (w_clock_pos w1)) g1 = Some (True, g2)"
        then show ?thesis using True None g1 drop unfolding eq by (simp add: lgtd_time_monotonic_msecs_def)
      next
        fix g2 assume g2: "lgtd_lifx_gateway_write_event nbytes again buf_len (w_clock w1 (w_clock_pos w1)) g1 = Some (False, g2)"
          "gw_core_eq g1 g2" "ring_inv g2"
        let ?w = "upd_gw gw g2 (w1\<lparr>w_clock_pos := Suc (w_clock_pos w1)\<rparr>)"
        have "wf_world ?w" by (rule wf_world_upd_gw [of _ _ g1]) (use wf g1 g2 in simp_all)
        moreover have "steady w ?w" using st by (simp add: steady_def)
        ultimately show ?thesis using True None g1 g2(1) unfolding eq
          by (simp add: lgtd_time_monotonic_msecs_def goes_on_here)
      qed
    qed
  qed
qed

end
