(* ===== verification/Router_Inv.thy ===== *)
theory Router_Inv
  imports Gateway_Inv Router Sample_World
begin

text \<open>
  What the router promises: a command reaches, for each of its targets, exactly the gateways that the target stands for,
  the invariant is kept and nothing else of the devices changes; and a list of targets is resolved to the devices it
  denotes, each of them once.
\<close>

subsection \<open>Packets delivered to gateways\<close>

text \<open>The devices stay, and so do the states of the lights.\<close>

definition same_lights :: "lgtd_world \<Rightarrow> lgtd_world \<Rightarrow> bool" where
  "same_lights w w' \<longleftrightarrow> same_devices w w'
     \<and> (\<forall>a. map_option b_state (find_bulb a w') = map_option b_state (find_bulb a w))"

lemma same_lights_refl [simp]: "same_lights w w"
  by (simp add: same_lights_def)

lemma same_lights_trans: "same_lights w w' \<Longrightarrow> same_lights w' w'' \<Longrightarrow> same_lights w w''"
  by (simp add: same_lights_def same_devices_trans [of w w' w''])

lemma same_lights_bulb:
  assumes "same_lights w w'" "find_bulb a w = Some b"
  shows "\<exists>b'. find_bulb a w' = Some b' \<and> b_gw b' = b_gw b \<and> b_state b' = b_state b"
  using same_devices_bulb [of w w' a b] assms by (auto simp: same_lights_def) (metis option.inject option.map(2))

lemma same_lights_gw:
  "same_lights w w' \<Longrightarrow> find_gw i w = Some g \<Longrightarrow> \<exists>g'. find_gw i w' = Some g' \<and> gw_links g' = gw_links g"
  using same_devices_gw by (auto simp: same_lights_def)

text \<open>
  A step that delivers packets of a type with a payload: for the gateway \<open>i\<close> to the addressees \<open>k i\<close>, in their order. Its
  output queue, messages and bytes, is extended by them as far as there is room.
\<close>

type_synonym addressee = "lgtd_lifx_target_type \<times> lgtd_lifx_target"

definition delivers ::
  "u16 \<Rightarrow> bytes option \<Rightarrow> (gw_ptr \<Rightarrow> addressee list) \<Rightarrow> lgtd_world \<Rightarrow> lgtd_world option \<Rightarrow> bool" where
  "delivers ptype pkt k w r \<longleftrightarrow> (\<exists>w'. r = Some w' \<and> wf_world w' \<and> same_lights w w'
     \<and> (\<forall>i g. find_gw i w = Some g \<longrightarrow>
          (\<exists>g'. find_gw i w' = Some g' \<and> g_site g' = g_site g
             \<and> out_queue g' = fold (queue_packet (w_client_id w) (g_site g) ptype pkt) (k i) (out_queue g))))"

lemma delivers_none: "wf_world w \<Longrightarrow> delivers ptype pkt (\<lambda>_. []) w (Some w)"
  by (simp add: delivers_def)

lemma same_lights_client: "same_lights w w' \<Longrightarrow> w_client_id w' = w_client_id w"
  by (simp add: same_lights_def same_devices_def steady_def)

lemma delivers_bind:
  assumes "delivers ptype pkt k w r"
    and "\<And>w'. r = Some w' \<Longrightarrow> wf_world w' \<Longrightarrow> same_lights w w' \<Longrightarrow> delivers ptype pkt k' w' (f w')"
  shows "delivers ptype pkt (\<lambda>i. k i @ k' i) w (Option.bind r f)"
proof -
  let ?q = "\<lambda>g. queue_packet (w_client_id w) (g_site g) ptype pkt"
  from assms(1) obtain w1 where w1: "r = Some w1" "wf_world w1" "same_lights w w1"
    "\<And>i g. find_gw i w = Some g \<Longrightarrow> \<exists>g'. find_gw i w1 = Some g' \<and> g_site g' = g_site g \<and> out_queue g' = fold (?q g) (k i) (out_queue g)"
    by (auto simp: delivers_def)
  from assms(2) [OF w1(1-3)] obtain w2 where w2: "f w1 = Some w2" "wf_world w2" "same_lights w1 w2"
    "\<And>i g. find_gw i w1 = Some g \<Longrightarrow> \<exists>g'. find_gw i w2 = Some g' \<and> g_site g' = g_site g \<and> out_queue g' = fold (?q g) (k' i) (out_queue g)"
    by (auto simp: delivers_def same_lights_client [OF w1(3)])
  have "\<exists>g'. find_gw i w2 = Some g' \<and> g_site g' = g_site g \<and> out_queue g' = fold (?q g) (k i @ k' i) (out_queue g)"
    if "find_gw i w = Some g" for i g
  proof -
    from w1(4) [OF that] obtain g1 where g1: "find_gw i w1 = Some g1" "g_site g1 = g_site g" "out_queue g1 = fold (?q g) (k i) (out_queue g)"
      by blast
    from w2(4) [OF g1(1)] g1(2,3) show ?thesis by auto
  qed
  then show ?thesis using w1(1) w2(1,2) same_lights_trans [OF w1(3) w2(3)] by (auto simp: delivers_def)
qed

lemma delivers_foreach:
  assumes "wf_world w"
    and "\<And>x w'. x \<in> set xs \<Longrightarrow> wf_world w' \<Longrightarrow> same_lights w w' \<Longrightarrow> delivers ptype pkt (k x) w' (f x w')"
  shows "delivers ptype pkt (\<lambda>i. concat (map (\<lambda>x. k x i) xs)) w (foreach f xs w)"
  using assms
proof (induction xs arbitrary: w)
  case Nil
  then show ?case by (simp add: delivers_none)
next
  case (Cons x xs)
  have "delivers ptype pkt (\<lambda>i. k x i @ concat (map (\<lambda>x. k x i) xs)) w (Option.bind (f x w) (foreach f xs))"
  proof (rule delivers_bind)
    show "delivers ptype pkt (k x) w (f x w)" using Cons.prems by simp
    fix w' assume w': "wf_world w'" "same_lights w w'"
    show "delivers ptype pkt (\<lambda>i. concat (map (\<lambda>x. k x i) xs)) w' (foreach f xs w')"
      using Cons.IH [OF w'(1)] Cons.prems(2) same_lights_trans [OF w'(2)] by simp
  qed
  then show ?case by simp
qed

subsection \<open>One packet\<close>

text \<open>One packet on one gateway.\<close>

abbreviation only_on :: "gw_ptr \<Rightarrow> addressee \<Rightarrow> gw_ptr \<Rightarrow> addressee list" where
  "only_on gw addr i \<equiv> (if i = gw then [addr] else [])"

lemma router_enqueue_delivers:
  assumes "wf_world w" "find_gw gw w = Some g" "payload_ok ptype pkt" "wf_target tt target (Some (g_site g))"
  shows "delivers ptype pkt (only_on gw (tt, target)) w (router_enqueue gw tt target ptype pkt w)"
proof -
  have inv: "ring_inv g" using wf_world_gw [OF assms(1,2)] by (simp add: gw_local_def)
  from enqueue_queue [OF assms(4) wf_world_client [OF assms(1)] assms(3) inv, of "w_be w"] obtain info hdr g' where
    h: "lgtd_lifx_wire_setup_header (w_be w) (w_client_id w) tt target (Some (g_site g)) ptype = Some (info, hdr)"
      "lgtd_lifx_gateway_enqueue_packet (w_be w) hdr info pkt g = Some g'" "queue_frame g g'" "ring_inv g'"
      "out_queue g' = queue_packet (w_client_id w) (g_site g) ptype pkt (tt, target) (out_queue g)" by blast
  have "same_lights w (upd_gw gw g' w)"
    using same_devices_upd_gw [OF assms(2) h(3)] by (simp add: same_lights_def)
  moreover have "g_site g' = g_site g" using h(3) by (simp add: queue_frame_def)
  ultimately show ?thesis
    using assms(2) h(1,2,5) wf_world_upd_gw [OF assms(1,2) queue_frame_core [OF h(3)] h(4)]
    by (auto simp: delivers_def router_enqueue_def)
qed

lemma mark_dirty_wf:
  assumes "wf_world w" "find_bulb a w = Some b"
  shows "wf_world (upd_bulb a (mark_dirty be now bs b) w) \<and> same_lights w (upd_bulb a (mark_dirty be now bs b) w)"
proof -
  have "wf_world (upd_bulb a (mark_dirty be now bs b) w)"
    by (rule wf_world_upd_bulb [OF assms])
      (use wf_world_bulb [OF assms] in \<open>auto simp: mark_dirty_def bulb_core_eq_def bulb_local_def\<close>)
  moreover have "same_lights w (upd_bulb a (mark_dirty be now bs b) w)"
    using same_devices_upd_bulb [OF assms(2), of "mark_dirty be now bs b"] assms(2)
    by (auto simp: same_lights_def mark_dirty_def)
  ultimately show ?thesis ..
qed

lemma delivers_quietly:
  "wf_world w' \<Longrightarrow> same_lights w w' \<Longrightarrow> w_gateways w' = w_gateways w \<Longrightarrow> delivers ptype pkt' (\<lambda>_. []) w (Some w')"
  by (simp add: delivers_def)

lemma mark_bulbs_dirty_delivers:
  assumes "wf_world w" "find_gw gw w = Some g" "pkt = Some bs"
  shows "delivers ptype pkt' (\<lambda>_. []) w (mark_bulbs_dirty gw test pkt w)"
proof -
  let ?v = "w\<lparr>w_clock_pos := Suc (w_clock_pos w)\<rparr>" and ?now = "w_clock w (w_clock_pos w)"
  let ?f = "\<lambda>bulb w. do { b \<leftarrow> find_bulb bulb w;
      if test b then do { payload \<leftarrow> pkt; Some (upd_bulb bulb (mark_dirty (w_be w) ?now payload b) w) } else Some w }"
  have v: "wf_world ?v" "same_lights w ?v" using assms(1) by (simp_all add: same_lights_def)
  have "delivers ptype pkt' (\<lambda>i. concat (map (\<lambda>x. (\<lambda>_ _. []) x i) (g_bulbs g))) ?v (foreach ?f (g_bulbs g) ?v)"
  proof (rule delivers_foreach [OF v(1)])
    fix a w' assume a: "a \<in> set (g_bulbs g)" "wf_world w'" "same_lights ?v w'"
    obtain b where "find_bulb a ?v = Some b" using wf_bulbs_bulb [OF wf_world_bulbs [OF assms(1)] assms(2) a(1)] by auto
    with same_lights_bulb [OF a(3)] obtain b' where b': "find_bulb a w' = Some b'" by blast
    show "delivers ptype pkt' (\<lambda>_. []) w' (?f a w')"
      using b' assms(3) mark_dirty_wf [OF a(2) b', of "w_be w'" ?now bs] delivers_none [OF a(2)]
      by (auto intro!: delivers_quietly)
  qed
  then have "delivers ptype pkt' (\<lambda>_. []) ?v (foreach ?f (g_bulbs g) ?v)" by (simp add: map_replicate_const)
  then show ?thesis using assms(2) same_lights_trans [OF v(2)]
    by (auto simp: mark_bulbs_dirty_def lgtd_time_monotonic_msecs_def delivers_def)
qed

lemma send_to_device_delivers:
  assumes "wf_world w" "find_bulb a w = Some b" "payload_ok ptype pkt" "ptype = LGTD_LIFX_SET_POWER_STATE \<Longrightarrow> pkt \<noteq> None"
  shows "delivers ptype pkt (only_on (b_gw b) (LGTD_LIFX_TARGET_DEVICE, Target_addr a)) w (lgtd_router_send_to_device a ptype pkt w)"
proof -
  obtain g where s: "sendable w a b g" using wf_world_sendable [OF assms(1,2)] by blast
  then have g: "find_gw (b_gw b) w = Some g" by (simp add: sendable_def)
  define k where "k w = (if ptype = LGTD_LIFX_SET_POWER_STATE
       then do { payload \<leftarrow> pkt; Some (upd_bulb a (mark_dirty (w_be w) (w_clock w (w_clock_pos w)) payload b)
                                (w\<lparr>w_clock_pos := Suc (w_clock_pos w)\<rparr>)) } else Some w)" for w
  have split: "lgtd_router_send_to_device a ptype pkt w =
      Option.bind (router_enqueue (b_gw b) LGTD_LIFX_TARGET_DEVICE (Target_addr a) ptype pkt w) k"
    using assms(2) g by (auto simp: lgtd_router_send_to_device_def router_enqueue_def k_def lgtd_time_monotonic_msecs_def
        Let_def split: Option.bind_splits)
  have bulbs: "find_bulb a w' = Some b" if "router_enqueue (b_gw b) LGTD_LIFX_TARGET_DEVICE (Target_addr a) ptype pkt w = Some w'" for w'
    using that assms(2) by (auto simp: router_enqueue_def bind_eq_Some_conv)
  have "wf_target LGTD_LIFX_TARGET_DEVICE (Target_addr a) (Some (g_site g))" using s by (simp add: wf_target_def sendable_def)
  from router_enqueue_delivers [OF assms(1) g assms(3) this] obtain w1 where
    w1: "router_enqueue (b_gw b) LGTD_LIFX_TARGET_DEVICE (Target_addr a) ptype pkt w = Some w1" "wf_world w1" "same_lights w w1"
      "\<And>i g. find_gw i w = Some g \<Longrightarrow>
        \<exists>g'. find_gw i w1 = Some g' \<and> g_site g' = g_site g \<and> out_queue g' = fold (queue_packet (w_client_id w) (g_site g) ptype pkt)
          (only_on (b_gw b) (LGTD_LIFX_TARGET_DEVICE, Target_addr a) i) (out_queue g)"
    by (auto simp: delivers_def)
  define w2 where "w2 = w1\<lparr>w_clock_pos := Suc (w_clock_pos w1)\<rparr>"
  have w2: "wf_world w2" "same_lights w w2" "find_bulb a w2 = Some b" "w_gateways w2 = w_gateways w1"
    using w1(2,3) bulbs [OF w1(1)] by (simp_all add: w2_def same_lights_def)
  show ?thesis
  proof (cases "ptype = LGTD_LIFX_SET_POWER_STATE")
    case False
    then show ?thesis using w1 unfolding split by (auto simp: k_def delivers_def)
  next
    case True
    then obtain bs where bs: "pkt = Some bs" using assms(4) by auto
    let ?w = "upd_bulb a (mark_dirty (w_be w1) (w_clock w1 (w_clock_pos w1)) bs b) w2"
    have "wf_world ?w \<and> same_lights w2 ?w" by (rule mark_dirty_wf [OF w2(1,3)])
    moreover have "Option.bind (Some w1) k = Some ?w" using True bs by (simp add: k_def w2_def)
    ultimately show ?thesis using w1(4) same_lights_trans [OF w2(2)] w2(4) unfolding split w1(1)
      by (auto simp: delivers_def)
  qed
qed

subsection \<open>Several devices\<close>

lemma delivers_cong:
  assumes "delivers ptype pkt k w r" "\<And>i g. find_gw i w = Some g \<Longrightarrow> k' i = k i"
  shows "delivers ptype pkt k' w r"
  using assms by (auto simp: delivers_def)

lemma concat_if: "concat (map (\<lambda>x. if P x then [f x] else []) xs) = map f (filter P xs)"
  by (induction xs) auto

lemma distinct_filter_eq: "distinct xs \<Longrightarrow> filter (\<lambda>x. i = x) xs = (if i \<in> set xs then [i] else [])"
  by (induction xs) auto

text \<open>A payload fit for a packet that a command sends.\<close>

abbreviation sends_payload :: "u16 \<Rightarrow> bytes option \<Rightarrow> bool" where
  "sends_payload ptype pkt \<equiv> payload_ok ptype pkt \<and> pkt \<noteq> None"

lemma enqueue_and_mark_delivers:
  assumes "wf_world w" "find_gw gw w = Some g" "sends_payload ptype pkt" "wf_target tt target (Some (g_site g))"
  shows "delivers ptype pkt (only_on gw (tt, target)) w
     (Option.bind (router_enqueue gw tt target ptype pkt w)
        (\<lambda>w. if ptype = LGTD_LIFX_SET_POWER_STATE then mark_bulbs_dirty gw test pkt w else Some w))"
proof -
  have "delivers ptype pkt (\<lambda>i. only_on gw (tt, target) i @ (\<lambda>_. []) i) w
     (Option.bind (router_enqueue gw tt target ptype pkt w)
        (\<lambda>w. if ptype = LGTD_LIFX_SET_POWER_STATE then mark_bulbs_dirty gw test pkt w else Some w))"
  proof (rule delivers_bind [OF router_enqueue_delivers [OF assms(1,2) _ assms(4)]])
    show "payload_ok ptype pkt" using assms(3) by simp
    fix w' assume w': "wf_world w'" "same_lights w w'"
    obtain g' where "find_gw gw w' = Some g'" using same_lights_gw [OF w'(2) assms(2)] by blast
    then show "delivers ptype pkt (\<lambda>_. []) w'
        (if ptype = LGTD_LIFX_SET_POWER_STATE then mark_bulbs_dirty gw test pkt w' else Some w')"
      using mark_bulbs_dirty_delivers [OF w'(1)] delivers_none [OF w'(1)] assms(3) by auto
  qed
  then show ?thesis by simp
qed

lemma wf_world_site: "wf_world w \<Longrightarrow> find_gw i w = Some g \<Longrightarrow> length (g_site g) = 6"
  using wf_world_gw by (fastforce simp: gw_local_def)

text \<open>Everything: no device and no tag.\<close>

abbreviation everything :: addressee where
  "everything \<equiv> (LGTD_LIFX_TARGET_ALL_DEVICES, LGTD_LIFX_UNSPEC_TARGET)"

lemma router_broadcast_delivers:
  assumes "wf_world w" "sends_payload ptype pkt"
  shows "delivers ptype pkt (\<lambda>_. [everything]) w (lgtd_router_broadcast ptype pkt w)"
proof -
  have "delivers ptype pkt (\<lambda>i. concat (map (\<lambda>gw. only_on gw everything i) (map fst (w_gateways w)))) w
      (lgtd_router_broadcast ptype pkt w)"
    unfolding lgtd_router_broadcast_def
  proof (rule delivers_foreach [OF assms(1)])
    fix gw w' assume gw: "gw \<in> set (map fst (w_gateways w))" "wf_world w'" "same_lights w w'"
    then obtain g where g: "find_gw gw w = Some g" by (auto dest: weak_map_of_SomeI)
    obtain g' where g': "find_gw gw w' = Some g'" using same_lights_gw [OF gw(3) g] by blast
    have "wf_target LGTD_LIFX_TARGET_ALL_DEVICES LGTD_LIFX_UNSPEC_TARGET (Some (g_site g'))"
      using wf_world_site [OF gw(2) g'] by (simp add: wf_target_def)
    from enqueue_and_mark_delivers [OF gw(2) g' assms(2) this]
    show "delivers ptype pkt (only_on gw everything) w'
        (Option.bind (router_enqueue gw LGTD_LIFX_TARGET_ALL_DEVICES (Target_tags 0) ptype pkt w')
          (\<lambda>w. if ptype = LGTD_LIFX_SET_POWER_STATE then mark_bulbs_dirty gw (\<lambda>_. True) pkt w else Some w))" .
  qed
  then show ?thesis
  proof (rule delivers_cong)
    fix i g assume "find_gw i w = Some g"
    then have "i \<in> set (map fst (w_gateways w))" by (metis domI dom_map_of_conv_image_fst list.set_map)
    moreover have "distinct (map fst (w_gateways w))" using wf_worldD(1) [OF assms(1)] by (simp add: inv_keys_def)
    ultimately show "[everything] = concat (map (\<lambda>gw. only_on gw everything i) (map fst (w_gateways w)))"
      by (simp only: concat_if distinct_filter_eq if_True list.map)
  qed
qed

lemma has_site_member:
  "map_of (w_tags w) p = Some t \<Longrightarrow> site \<in> set (t_sites t) \<Longrightarrow> has_site w p (s_gw site) (s_tag_id site)"
  by (cases site) (simp add: has_site_def)

lemma wf_world_has_site:
  assumes "wf_world w" "has_site w p i k"
  shows "k < 64 \<and> (\<exists>g. find_gw i w = Some g \<and> g_tags g ! k = Some p)"
proof -
  note d = wf_worldD(5) [OF assms(1), unfolded inv_tags_def]
  from d assms(2) have k: "k < 64" "find_gw i w \<noteq> None" by blast+
  then obtain g where "find_gw i w = Some g" by blast
  with d assms(2) k(1) show ?thesis by blast
qed

text \<open>A tag goes by the id that it has at a site.\<close>

definition tag_addressee :: "lgtd_lifx_site \<Rightarrow> addressee" where
  "tag_addressee site = (LGTD_LIFX_TARGET_TAGS, Target_tags (LGTD_LIFX_WIRE_TAG_ID_TO_VALUE (s_tag_id site)))"

lemma send_to_tag_delivers:
  assumes "wf_world w" "map_of (w_tags w) tag = Some t" "sends_payload ptype pkt"
  shows "delivers ptype pkt (\<lambda>i. map tag_addressee (filter (\<lambda>site. i = s_gw site) (t_sites t))) w
     (lgtd_router_send_to_tag tag ptype pkt w)"
proof -
  let ?f = "\<lambda>site w. do {
           let tag_value = LGTD_LIFX_WIRE_TAG_ID_TO_VALUE (s_tag_id site);
           g \<leftarrow> find_gw (s_gw site) w;
           c_assert (g_tags g ! s_tag_id site = Some tag);
           w \<leftarrow> router_enqueue (s_gw site) LGTD_LIFX_TARGET_TAGS (Target_tags tag_value) ptype pkt w;
           if ptype = LGTD_LIFX_SET_POWER_STATE
           then mark_bulbs_dirty (s_gw site) (\<lambda>b. ls_tags (b_state b) AND tag_value \<noteq> 0) pkt w
           else Some w
         }"
  have "delivers ptype pkt (\<lambda>i. concat (map (\<lambda>site. only_on (s_gw site) (tag_addressee site) i) (t_sites t))) w (foreach ?f (t_sites t) w)"
  proof (rule delivers_foreach [OF assms(1)])
    fix site w' assume s: "site \<in> set (t_sites t)" "wf_world w'" "same_lights w w'"
    have "w_tags w' = w_tags w" using s(3) by (simp add: same_lights_def same_devices_def)
    then have "has_site w' tag (s_gw site) (s_tag_id site)" using has_site_member [of w' tag t site] s(1) assms(2) by simp
    from wf_world_has_site [OF s(2) this] obtain g where
      g: "find_gw (s_gw site) w' = Some g" "g_tags g ! s_tag_id site = Some tag" by blast
    have "wf_target LGTD_LIFX_TARGET_TAGS (Target_tags v) (Some (g_site g))" for v
      using wf_world_site [OF s(2) g(1)] by (simp add: wf_target_def)
    from enqueue_and_mark_delivers [OF s(2) g(1) assms(3) this] g
    show "delivers ptype pkt (only_on (s_gw site) (tag_addressee site)) w' (?f site w')" unfolding tag_addressee_def by (simp add: Let_def)
  qed
  then show ?thesis using assms(2) by (simp add: lgtd_router_send_to_tag_def concat_if)
qed

abbreviation device :: "bulb_addr \<Rightarrow> addressee" where
  "device a \<equiv> (LGTD_LIFX_TARGET_DEVICE, Target_addr a)"

text \<open>A bulb with the label on the gateway.\<close>

definition labelled_on :: "lgtd_world \<Rightarrow> string \<Rightarrow> gw_ptr \<Rightarrow> bulb_addr \<Rightarrow> bool" where
  "labelled_on w label i a = (case find_bulb a w of Some b \<Rightarrow> lgtd_lifx_bulb_has_label b label \<and> b_gw b = i | None \<Rightarrow> False)"

lemma send_to_label_delivers:
  assumes "wf_world w" "sends_payload ptype pkt"
  shows "delivers ptype pkt (\<lambda>i. map device (filter (labelled_on w label i) (map fst (w_bulbs w)))) w
     (lgtd_router_send_to_label label ptype pkt w)"
proof -
  have "delivers ptype pkt (\<lambda>i. concat (map (\<lambda>a. if labelled_on w label i a then [device a] else []) (map fst (w_bulbs w)))) w
     (lgtd_router_send_to_label label ptype pkt w)"
    unfolding lgtd_router_send_to_label_def
  proof (rule delivers_foreach [OF assms(1)])
    fix a w' assume a: "a \<in> set (map fst (w_bulbs w))" "wf_world w'" "same_lights w w'"
    then obtain b where b: "find_bulb a w = Some b" by (auto dest: weak_map_of_SomeI)
    from same_lights_bulb [OF a(3) b] obtain b' where b': "find_bulb a w' = Some b'" "b_gw b' = b_gw b" "b_state b' = b_state b"
      by blast
    have l: "lgtd_lifx_bulb_has_label b' label = lgtd_lifx_bulb_has_label b label"
      by (simp add: lgtd_lifx_bulb_has_label_def b'(3))
    show "delivers ptype pkt (\<lambda>i. if labelled_on w label i a then [device a] else []) w'
       (Option.bind (find_bulb a w') (\<lambda>b. if lgtd_lifx_bulb_has_label b label
          then lgtd_router_send_to_device a ptype pkt w' else Some w'))"
    proof (cases "lgtd_lifx_bulb_has_label b label")
      case True
      have "labelled_on w label i a \<longleftrightarrow> i = b_gw b'" for i using True b b' by (auto simp: labelled_on_def)
      then show ?thesis using send_to_device_delivers [OF a(2) b'(1)] assms(2) b'(1) True l by simp
    next
      case False
      then have "\<not> labelled_on w label i a" for i using b by (simp add: labelled_on_def)
      then show ?thesis using False b'(1) l delivers_none [OF a(2)] by simp
    qed
  qed
  then show ?thesis by (simp only: concat_if)
qed

subsection \<open>The targets of a command\<close>

definition target_device :: "string \<Rightarrow> lgtd_world \<Rightarrow> bulb_addr option" where
  "target_device target w = (if isxdigit (hd target) then lgtd_router_device_addr_to_device target w else None)"

text \<open>Which targets are valid, and the packets each gateway gets for a target.\<close>

definition valid_target :: "lgtd_world \<Rightarrow> string \<Rightarrow> bool" where
  "valid_target w target = (let target = cstr target in
     target \<noteq> '''' \<and> (hd target = CHR ''#'' \<longrightarrow> lgtd_lifx_tagging_find_tag (tl target) w \<noteq> None))"

definition packets_for :: "lgtd_world \<Rightarrow> gw_ptr \<Rightarrow> string \<Rightarrow> addressee list" where
  "packets_for w i target =
     (let target = cstr target in
      if target = ''*'' then [everything]
      else if target = '''' then []
      else if hd target = CHR ''#'' then
        (case Option.bind (lgtd_lifx_tagging_find_tag (tl target) w) (map_of (w_tags w)) of
           Some t \<Rightarrow> map tag_addressee (filter (\<lambda>site. i = s_gw site) (t_sites t))
         | None \<Rightarrow> [])
      else
        (case target_device target w of
           Some a \<Rightarrow> (case find_bulb a w of Some b \<Rightarrow> if i = b_gw b then [device a] else [] | None \<Rightarrow> [])
         | None \<Rightarrow> map device (filter (labelled_on w target i) (map fst (w_bulbs w)))))"

lemma target_device_Some: "target_device target w = Some a \<Longrightarrow> find_bulb a w \<noteq> None"
  by (auto simp: target_device_def lgtd_router_device_addr_to_device_def Let_def split: if_splits prod.splits)

lemma send_one_delivers:
  assumes "wf_world w" "sends_payload ptype pkt"
  shows "\<exists>w'. lgtd_router_send_one target ptype pkt w = Some (valid_target w target, w')
     \<and> delivers ptype pkt (\<lambda>i. packets_for w i target) w (Some w')"
proof -
  define s where "s = cstr target"
  have *: "delivers ptype pkt k w r \<Longrightarrow> \<exists>w'. Option.bind r (\<lambda>w. Some (True, w)) = Some (True, w') \<and> delivers ptype pkt k w (Some w')" for k r
    by (auto simp: delivers_def)
  note defs = lgtd_router_send_one_def valid_target_def packets_for_def s_def [symmetric] target_device_def [symmetric]
  consider "s = ''*''" | "s = ''''" | "s \<noteq> ''*''" "s \<noteq> ''''" "hd s = CHR ''#''" | "s \<noteq> ''*''" "s \<noteq> ''''" "hd s \<noteq> CHR ''#''" by blast
  then show ?thesis
  proof cases
    case 1
    then show ?thesis using * [OF router_broadcast_delivers [OF assms]] by (simp add: defs)
  next
    case 2
    then show ?thesis using delivers_none [OF assms(1)] by (simp add: defs)
  next
    case 3
    show ?thesis
    proof (cases "lgtd_lifx_tagging_find_tag (tl s) w")
      case None
      then show ?thesis using 3 delivers_none [OF assms(1)] by (simp add: defs)
    next
      case (Some tag)
      then obtain t where t: "map_of (w_tags w) tag = Some t"
        using find_tag_Some wf_worldD(5) [OF assms(1)] by (fastforce simp: inv_tags_def)
      then show ?thesis using 3 Some * [OF send_to_tag_delivers [OF assms(1) t assms(2)]] by (simp add: defs)
    qed
  next
    case 4
    show ?thesis
    proof (cases "target_device s w")
      case None
      then show ?thesis using 4 * [OF send_to_label_delivers [OF assms, of s]] by (simp add: defs)
    next
      case (Some a)
      then obtain b where b: "find_bulb a w = Some b" using target_device_Some by blast
      show ?thesis using 4 Some b * [OF send_to_device_delivers [OF assms(1) b]] assms(2) by (simp add: defs)
    qed
  qed
qed

lemma same_lights_target:
  assumes "same_lights w w'"
  shows "valid_target w' = valid_target w" "packets_for w' = packets_for w"
proof -
  have tags: "w_tags w' = w_tags w" and keys: "map fst (w_bulbs w') = map fst (w_bulbs w)" and be: "w_be w' = w_be w"
    using assms by (simp_all add: same_lights_def same_devices_def steady_def)
  have find: "lgtd_lifx_tagging_find_tag l w' = lgtd_lifx_tagging_find_tag l w" for l
    by (simp add: lgtd_lifx_tagging_find_tag_def tags)
  have bulb: "map_option (\<lambda>b. (b_gw b, b_state b)) (find_bulb a w') = map_option (\<lambda>b. (b_gw b, b_state b)) (find_bulb a w)" for a
  proof -
    have "map_option b_gw (find_bulb a w') = map_option b_gw (find_bulb a w)"
      "map_option b_state (find_bulb a w') = map_option b_state (find_bulb a w)"
      using assms by (simp_all add: same_lights_def same_devices_def)
    then show ?thesis by (cases "find_bulb a w"; cases "find_bulb a w'") auto
  qed
  have dom: "find_bulb a w' = None \<longleftrightarrow> find_bulb a w = None" for a
    using bulb [of a] by (cases "find_bulb a w"; cases "find_bulb a w'") auto
  have dev: "target_device t w' = target_device t w" for t
  proof -
    have "map_option (\<lambda>_. x) (find_bulb a w') = map_option (\<lambda>_. x) (find_bulb a w)" for a and x :: bulb_addr
      using dom [of a] by (cases "find_bulb a w"; cases "find_bulb a w'") auto
    then show ?thesis
      by (simp add: target_device_def lgtd_router_device_addr_to_device_def be Let_def split: prod.splits)
  qed
  have lab: "labelled_on w' l i = labelled_on w l i" for l i
  proof
    fix a
    show "labelled_on w' l i a = labelled_on w l i a" using bulb [of a]
      by (cases "find_bulb a w"; cases "find_bulb a w'") (auto simp: labelled_on_def lgtd_lifx_bulb_has_label_def)
  qed
  have on: "(case find_bulb a w' of Some b \<Rightarrow> if i = b_gw b then [device a] else [] | None \<Rightarrow> []) =
      (case find_bulb a w of Some b \<Rightarrow> if i = b_gw b then [device a] else [] | None \<Rightarrow> [])" for a i
    using bulb [of a] by (cases "find_bulb a w"; cases "find_bulb a w'") auto
  show "valid_target w' = valid_target w" by (simp add: valid_target_def find fun_eq_iff)
  show "packets_for w' = packets_for w"
    unfolding packets_for_def find dev lab keys tags on fun_eq_iff by simp
qed

lemma router_send_spec:
  assumes "wf_world w" "payload_ok ptype (Some pkt)"
  shows "\<exists>w'. lgtd_router_send targets ptype (Some pkt) w = Some (list_all (valid_target w) targets, w')
     \<and> delivers ptype (Some pkt) (\<lambda>i. concat (map (packets_for w i) targets)) w (Some w')"
proof -
  define f where "f = (\<lambda>target (rv, w). do {
      (ok, w) \<leftarrow> lgtd_router_send_one target ptype (Some pkt) w; Some (rv \<and> ok, w :: lgtd_world) })"
  have "\<exists>w'. foreach f targets (rv, w) = Some (rv \<and> list_all (valid_target w) targets, w')
      \<and> delivers ptype (Some pkt) (\<lambda>i. concat (map (packets_for w i) targets)) w (Some w')" for rv
    using assms(1)
  proof (induction targets arbitrary: w rv)
    case Nil
    then show ?case by (simp add: delivers_none)
  next
    case (Cons t ts)
    from send_one_delivers [OF Cons.prems, of ptype "Some pkt" t] assms(2) obtain w1 where
      w1: "lgtd_router_send_one t ptype (Some pkt) w = Some (valid_target w t, w1)"
        "delivers ptype (Some pkt) (\<lambda>i. packets_for w i t) w (Some w1)" by blast
    then have wf: "wf_world w1" "same_lights w w1" by (simp_all add: delivers_def)
    from Cons.IH [OF wf(1), of "rv \<and> valid_target w t"] obtain w2 where
      w2: "foreach f ts (rv \<and> valid_target w t, w1) = Some ((rv \<and> valid_target w t) \<and> list_all (valid_target w) ts, w2)"
        "delivers ptype (Some pkt) (\<lambda>i. concat (map (packets_for w i) ts)) w1 (Some w2)"
      unfolding same_lights_target [OF wf(2)] by blast
    have "delivers ptype (Some pkt) (\<lambda>i. packets_for w i t @ concat (map (packets_for w i) ts)) w
        (Option.bind (Some w1) (\<lambda>_. Some w2))"
      by (rule delivers_bind [OF w1(2)]) (use w2(2) in simp)
    then show ?case using w1(1) w2(1) by (simp add: f_def)
  qed
  from this [of True] show ?thesis by (simp add: lgtd_router_send_def f_def)
qed

text \<open>
  C7: A command reaches exactly its targets, as far as there is room: for a packet with a payload of at least the size of its type,
  sending it to a list of targets returns, answers whether all the targets are valid (not empty, and an existing tag after a
  hash sign), keeps the invariant and the state of every light, and queues on each gateway, in the order of the targets, one
  packet addressed to everything for \<open>*\<close>, one addressed to the tag id for each of its sites of a tag, one addressed to the
  device for a hardware address and for each of its devices with a label. Each packet is a message in the ring and, in the
  buffer, the header for the client, the addressee and the site with the payload; it is dropped when there are 16 messages in
  the ring.
\<close>

theorem router_send_delivers:
  assumes "wf_world w" "payload_ok ptype (Some pkt)"
  shows "\<exists>w'. lgtd_router_send targets ptype (Some pkt) w = Some (list_all (valid_target w) targets, w')
     \<and> wf_world w' \<and> same_lights w w'
     \<and> (\<forall>i g. find_gw i w = Some g \<longrightarrow> (\<exists>g'. find_gw i w' = Some g'
          \<and> (ring_msgs g', g_write_buf g') =
              fold (queue_packet (w_client_id w) (g_site g) ptype (Some pkt)) (concat (map (packets_for w i) targets))
                (ring_msgs g, g_write_buf g)))"
  using router_send_spec [OF assms, of targets] unfolding delivers_def out_queue_def by blast

theorem router_send_delivers_witness:
  "\<exists>w'. lgtd_router_send [''#kitchen'', ''lamp''] LGTD_LIFX_SET_POWER_STATE (Some [0xff, 0xff]) sample_world = Some (True, w')
     \<and> wf_world w' \<and> (\<exists>g'. find_gw 1 w' = Some g'
          \<and> ring_msgs g' = replicate 2 \<lparr>msg_type = LGTD_LIFX_SET_POWER_STATE, msg_size = 38\<rparr>
          \<and> g_write_buf g' =
              [[38, 0, 0, 0x34, 1, 0, 0, 0, 1, 0, 0, 0, 0, 0, 0, 0, 1, 2, 3, 4, 5, 6, 1, 0,
                 0, 0, 0, 0, 0, 0, 0, 0, 21, 0, 0, 0], [0xff, 0xff],
               [38, 0, 0, 0x14, 1, 0, 0, 0, 1, 2, 3, 4, 5, 6, 0, 0, 1, 2, 3, 4, 5, 6, 1, 0,
                 0, 0, 0, 0, 0, 0, 0, 0, 21, 0, 0, 0], [0xff, 0xff]])"
proof -
  let ?ts = "[''#kitchen'', ''lamp'']" and ?pkt = "Some [0xff, 0xff] :: bytes option"
  have tag: "lgtd_lifx_tagging_find_tag ''kitchen'' sample_world = Some 3"
    by (simp add: lgtd_lifx_tagging_find_tag_def cstr_def replicate_numeral)
  have valid: "list_all (valid_target sample_world) ?ts" by (simp add: valid_target_def cstr_def tag)
  have q: "ring_msgs sample_gateway = []" "g_write_buf sample_gateway = []"
    by (simp_all add: sample_gateway_def calloc_gateway_def ring_msgs_def ring_count_def)
  have "packets_for sample_world 1 ''#kitchen'' = [(LGTD_LIFX_TARGET_TAGS, Target_tags 1)]"
    "packets_for sample_world 1 ''lamp'' = [device [1, 2, 3, 4, 5, 6]]"
    by (simp_all add: packets_for_def cstr_def tag target_device_def isxdigit_def isdigit_def labelled_on_def sample_bulb_def
        Let_def calloc_bulb_def lgtd_lifx_bulb_has_label_def replicate_numeral tag_addressee_def LGTD_LIFX_WIRE_TAG_ID_TO_VALUE_def)
  then have n: "concat (map (packets_for sample_world 1) ?ts) =
      [(LGTD_LIFX_TARGET_TAGS, Target_tags 1), device [1, 2, 3, 4, 5, 6]]" by simp
  have "payload_ok LGTD_LIFX_SET_POWER_STATE ?pkt" by simp
  from router_send_delivers [OF wf_sample_world this, of ?ts] obtain w' where
    w': "lgtd_router_send ?ts LGTD_LIFX_SET_POWER_STATE ?pkt sample_world = Some (True, w')" "wf_world w'"
      "\<forall>i g. find_gw i sample_world = Some g \<longrightarrow> (\<exists>g'. find_gw i w' = Some g' \<and> (ring_msgs g', g_write_buf g') =
         fold (queue_packet (w_client_id sample_world) (g_site g) LGTD_LIFX_SET_POWER_STATE ?pkt)
           (concat (map (packets_for sample_world i) ?ts)) (ring_msgs g, g_write_buf g))"
    using valid by (elim exE conjE) simp
  have "find_gw 1 sample_world = Some sample_gateway" by simp
  from w'(3) [rule_format, OF this, unfolded n q] obtain g' where g': "find_gw 1 w' = Some g'" "(ring_msgs g', g_write_buf g') =
      fold (queue_packet (w_client_id sample_world) (g_site sample_gateway) LGTD_LIFX_SET_POWER_STATE ?pkt)
        [(LGTD_LIFX_TARGET_TAGS, Target_tags 1), device [1, 2, 3, 4, 5, 6]] ([], [])" by blast
  have info: "lgtd_lifx_wire_get_packet_info LGTD_LIFX_SET_POWER_STATE =
      Some \<lparr>pi_name = ''SET_POWER_STATE'', pi_type = LGTD_LIFX_SET_POWER_STATE, pi_size = 2,
            pi_decode = Decode_null, pi_encode = Encode_null, pi_handle = Handle_null\<rparr>"
    by (simp add: get_packet_info_eq packet_table_defs)
  have "g_site sample_gateway = [1, 2, 3, 4, 5, 6]" "w_client_id sample_world = 1" by (simp_all add: sample_gateway_def calloc_gateway_def)
  with g'(2) have "ring_msgs g' = replicate 2 \<lparr>msg_type = LGTD_LIFX_SET_POWER_STATE, msg_size = 38\<rparr>"
    "g_write_buf g' = datagram 1 [1, 2, 3, 4, 5, 6] LGTD_LIFX_SET_POWER_STATE ?pkt (LGTD_LIFX_TARGET_TAGS, Target_tags 1)
      @ datagram 1 [1, 2, 3, 4, 5, 6] LGTD_LIFX_SET_POWER_STATE ?pkt (device [1, 2, 3, 4, 5, 6])"
    by (simp_all add: queue_packet_def message_of_def info packet_msg_def numeral_2_eq_2)
  with w'(1,2) g'(1) show ?thesis
    by (simp add: datagram_def info header_image_def target_image_def site_image_def le_bytes_numeral replicate_numeral)
qed

subsection \<open>Resolving targets\<close>

text \<open>Which devices a target stands for.\<close>

definition target_denotes :: "lgtd_world \<Rightarrow> bulb_addr \<Rightarrow> string \<Rightarrow> bool" where
  "target_denotes w a target =
     (let target = cstr target in
      case find_bulb a w of
        None \<Rightarrow> False
      | Some b \<Rightarrow>
          if target = ''*'' then True
          else if target = '''' then False
          else if hd target = CHR ''#'' then
            (case Option.bind (lgtd_lifx_tagging_find_tag (tl target) w) (map_of (w_tags w)) of
               Some t \<Rightarrow> list_ex (\<lambda>site. s_gw site = b_gw b \<and> bit (bulb_tags b) (s_tag_id site)) (t_sites t)
             | None \<Rightarrow> False)
          else
            (case target_device target w of
               Some a' \<Rightarrow> a = a'
             | None \<Rightarrow> lgtd_lifx_bulb_has_label b target))"

text \<open>
  A step that adds the devices of a set to a list without duplicates, or reports that an allocation failed; the world only moves
  on in the outcomes of the calls.
\<close>

definition collects :: "lgtd_world \<Rightarrow> bulb_addr set \<Rightarrow> (bulb_addr list option \<times> lgtd_world) option \<Rightarrow> bool" where
  "collects w S r \<longleftrightarrow> (\<exists>res e. r = Some (res, w\<lparr>w_ext_pos := e\<rparr>) \<and> w_ext_pos w \<le> e
     \<and> (case res of
          Some devices \<Rightarrow> distinct devices \<and> set devices = S
        | None \<Rightarrow> \<exists>n. w_ext_pos w \<le> n \<and> n < e \<and> \<not> w_ext w n))"

lemma collects_here: "distinct devices \<Longrightarrow> collects w (set devices) (Some (Some devices, w))"
  unfolding collects_def by (rule exI [of _ "Some devices"], rule exI [of _ "w_ext_pos w"]) simp

lemma collects_bind:
  assumes "collects w S r"
    and "\<And>devices e. distinct devices \<Longrightarrow> set devices = S \<Longrightarrow> w_ext_pos w \<le> e \<Longrightarrow> collects (w\<lparr>w_ext_pos := e\<rparr>) T (f devices (w\<lparr>w_ext_pos := e\<rparr>))"
  shows "collects w T (Option.bind r (\<lambda>(res, w). case res of None \<Rightarrow> Some (None, w) | Some devices \<Rightarrow> f devices w))"
proof -
  from assms(1) obtain res e where r: "r = Some (res, w\<lparr>w_ext_pos := e\<rparr>)" "w_ext_pos w \<le> e"
    "case res of Some devices \<Rightarrow> distinct devices \<and> set devices = S | None \<Rightarrow> \<exists>n. w_ext_pos w \<le> n \<and> n < e \<and> \<not> w_ext w n"
    unfolding collects_def by blast
  show ?thesis
  proof (cases res)
    case None
    then show ?thesis using r by (auto simp: collects_def)
  next
    case (Some devices)
    let ?v = "w\<lparr>w_ext_pos := e\<rparr>"
    have "collects ?v T (f devices ?v)" using assms(2) r Some by simp
    then obtain res' e' where
      r': "f devices ?v = Some (res', ?v\<lparr>w_ext_pos := e'\<rparr>)" "w_ext_pos ?v \<le> e'" "case res' of Some devices \<Rightarrow> distinct devices \<and> set devices = T
         | None \<Rightarrow> \<exists>n. w_ext_pos ?v \<le> n \<and> n < e' \<and> \<not> w_ext ?v n"
      unfolding collects_def by blast
    then show ?thesis using r(1,2) Some unfolding collects_def
      by (intro exI [of _ res'] exI [of _ e']) (auto split: option.splits dest: order_trans)
  qed
qed

lemma insert_if_not_in_list_collects:
  assumes "distinct devices"
  shows "collects w (insert a (set devices)) (Some (lgtd_router_insert_device_if_not_in_list devices a w))"
proof (cases "a \<in> set devices")
  case True
  then show ?thesis using collects_here [OF assms, of w]
    by (simp add: lgtd_router_insert_device_if_not_in_list_def insert_absorb)
next
  case False
  then show ?thesis using assms
    by (auto simp: lgtd_router_insert_device_if_not_in_list_def ext_call_def collects_def Let_def)
qed

lemma insert_devices_if_collects:
  assumes "distinct devices" "\<forall>a\<in>set bulbs. find_bulb a w \<noteq> None"
  shows "collects w (set devices \<union> {a \<in> set bulbs. \<exists>b. find_bulb a w = Some b \<and> test b}) (insert_devices_if test bulbs devices w)"
  using assms
proof (induction bulbs arbitrary: devices w)
  case Nil
  then show ?case using collects_here by simp
next
  case (Cons a bulbs)
  then obtain b where b: "find_bulb a w = Some b" by auto
  show ?case
  proof (cases "test b")
    case False
    with Cons b have "collects w (set devices \<union> {a \<in> set bulbs. \<exists>b. find_bulb a w = Some b \<and> test b})
        (insert_devices_if test bulbs devices w)" by simp
    moreover have "{c \<in> set (a # bulbs). \<exists>b. find_bulb c w = Some b \<and> test b} = {c \<in> set bulbs. \<exists>b. find_bulb c w = Some b \<and> test b}"
      using b False by auto
    ultimately show ?thesis using b False by simp
  next
    case True
    let ?T = "insert a (set devices) \<union> {a \<in> set bulbs. \<exists>b. find_bulb a w = Some b \<and> test b}"
    have "collects w ?T (Option.bind (Some (lgtd_router_insert_device_if_not_in_list devices a w))
        (\<lambda>(res, w). case res of None \<Rightarrow> Some (None, w) | Some devices \<Rightarrow> insert_devices_if test bulbs devices w))"
    proof (rule collects_bind [OF insert_if_not_in_list_collects [OF Cons.prems(1)]])
      fix devices' :: "bulb_addr list" and e assume "distinct devices'" and eq: "set devices' = insert a (set devices)"
      with Cons.IH [of devices' "w\<lparr>w_ext_pos := e\<rparr>"] Cons.prems(2)
      show "collects (w\<lparr>w_ext_pos := e\<rparr>) ?T (insert_devices_if test bulbs devices' (w\<lparr>w_ext_pos := e\<rparr>))" by simp
    qed
    moreover have "?T = set devices \<union> {c \<in> set (a # bulbs). \<exists>b. find_bulb c w = Some b \<and> test b}" using b True by auto
    ultimately show ?thesis using b True by (auto simp: case_prod_unfold split: option.splits)
  qed
qed

lemma case_option_False_iff: "(case x of None \<Rightarrow> False | Some b \<Rightarrow> P b) \<longleftrightarrow> (\<exists>b. x = Some b \<and> P b)"
  by (cases x) auto

lemma insert_tagged_collects:
  assumes "wf_world w" "distinct devices" "\<forall>site\<in>set sites. find_gw (s_gw site) w \<noteq> None \<and> s_tag_id site < 64"
  shows "collects w (set devices \<union> {a. \<exists>b. find_bulb a w = Some b
       \<and> list_ex (\<lambda>site. s_gw site = b_gw b \<and> bit (bulb_tags b) (s_tag_id site)) sites}) (insert_tagged_devices sites devices w)"
  using assms
proof (induction sites arbitrary: devices w)
  case Nil
  then show ?case using collects_here by simp
next
  case (Cons site sites)
  then obtain g where g: "find_gw (s_gw site) w = Some g" by auto
  let ?test = "\<lambda>b. ls_tags (b_state b) AND LGTD_LIFX_WIRE_TAG_ID_TO_VALUE (s_tag_id site) \<noteq> 0"
  let ?tagged = "\<lambda>sites. {a. \<exists>b. find_bulb a w = Some b
       \<and> list_ex (\<lambda>site. s_gw site = b_gw b \<and> bit (bulb_tags b) (s_tag_id site)) sites}"
  let ?S = "set devices \<union> {a \<in> set (g_bulbs g). \<exists>b. find_bulb a w = Some b \<and> ?test b}"
  have on: "a \<in> set (g_bulbs g) \<longleftrightarrow> b_gw b = s_gw site" if "find_bulb a w = Some b" for a b
    using wf_world_bulb [OF Cons.prems(1) that] wf_bulbs_bulb [OF wf_world_bulbs [OF Cons.prems(1)] g] that g by fastforce
  have "?test b \<longleftrightarrow> bit (bulb_tags b) (s_tag_id site)" for b
    by (simp add: and_TAG_ID_TO_VALUE)
  then have S: "?S = set devices \<union> ?tagged [site]" using on by auto
  have "collects w (set devices \<union> ?tagged (site # sites))
      (Option.bind (insert_devices_if ?test (g_bulbs g) devices w)
        (\<lambda>(res, w). case res of None \<Rightarrow> Some (None, w) | Some devices \<Rightarrow> insert_tagged_devices sites devices w))"
  proof (rule collects_bind)
    have "\<forall>a\<in>set (g_bulbs g). find_bulb a w \<noteq> None"
      using wf_bulbs_bulb [OF wf_world_bulbs [OF Cons.prems(1)] g] by fastforce
    then show "collects w ?S (insert_devices_if ?test (g_bulbs g) devices w)"
      by (rule insert_devices_if_collects [OF Cons.prems(2)])
    fix devices' :: "bulb_addr list" and e assume d: "distinct devices'" "set devices' = ?S"
    have "set devices' \<union> ?tagged sites = set devices \<union> ?tagged (site # sites)" unfolding d(2) S by auto
    with Cons.IH [of "w\<lparr>w_ext_pos := e\<rparr>" devices'] d(1) Cons.prems(1,3)
    show "collects (w\<lparr>w_ext_pos := e\<rparr>) (set devices \<union> ?tagged (site # sites))
        (insert_tagged_devices sites devices' (w\<lparr>w_ext_pos := e\<rparr>))" by simp
  qed
  then show ?case using g by (simp add: Let_def)
qed

lemma insert_target_collects:
  assumes "wf_world w" "distinct devices" "cstr target \<noteq> ''*''"
  shows "collects w (set devices \<union> {a. target_denotes w a target}) (insert_target target devices w)"
proof -
  define s where "s = cstr target"
  note defs = insert_target_def target_denotes_def s_def [symmetric] target_device_def [symmetric]
  have star: "s \<noteq> ''*''" using assms(3) by (simp add: s_def)
  consider "s = ''''" | "s \<noteq> ''''" "hd s = CHR ''#''" | "s \<noteq> ''''" "hd s \<noteq> CHR ''#''" by blast
  then show ?thesis
  proof cases
    case 1
    then show ?thesis using collects_here [OF assms(2)] by (simp add: defs case_option_False_iff)
  next
    case 2
    show ?thesis
    proof (cases "lgtd_lifx_tagging_find_tag (tl s) w")
      case None
      then show ?thesis using 2 star collects_here [OF assms(2)] by (simp add: defs case_option_False_iff)
    next
      case (Some tag)
      then obtain t where t: "map_of (w_tags w) tag = Some t"
        using find_tag_Some wf_worldD(5) [OF assms(1)] by (fastforce simp: inv_tags_def)
      have "\<forall>site\<in>set (t_sites t). find_gw (s_gw site) w \<noteq> None \<and> s_tag_id site < 64"
      proof
        fix site assume "site \<in> set (t_sites t)"
        with t have "has_site w tag (s_gw site) (s_tag_id site)" by (rule has_site_member)
        from wf_world_has_site [OF assms(1) this] show "find_gw (s_gw site) w \<noteq> None \<and> s_tag_id site < 64" by auto
      qed
      from insert_tagged_collects [OF assms(1,2) this] 2 star Some t show ?thesis
        by (simp add: defs case_option_False_iff)
    qed
  next
    case 3
    show ?thesis
    proof (cases "target_device s w")
      case None
      have "\<forall>a\<in>set (map fst (w_bulbs w)). find_bulb a w \<noteq> None" by (auto simp: map_of_eq_None_iff)
      moreover have "a \<in> set (map fst (w_bulbs w))" if "find_bulb a w = Some b" for a b
        using map_of_SomeD [OF that] by force
      then have "{a \<in> set (map fst (w_bulbs w)). \<exists>b. find_bulb a w = Some b \<and> lgtd_lifx_bulb_has_label b s} =
          {a. \<exists>b. find_bulb a w = Some b \<and> lgtd_lifx_bulb_has_label b s}" by blast
      ultimately show ?thesis using 3 star None
          insert_devices_if_collects [OF assms(2), of "map fst (w_bulbs w)" w "\<lambda>b. lgtd_lifx_bulb_has_label b s"]
        by (simp add: defs case_option_False_iff)
    next
      case (Some a)
      obtain b where b: "find_bulb a w = Some b" using target_device_Some [OF Some] by blast
      have "{c. target_denotes w c target} = {a}"
        using 3 star Some b by (auto simp: defs case_option_False_iff)
      then show ?thesis using 3 star Some insert_if_not_in_list_collects [OF assms(2), of w a] by (simp add: defs)
    qed
  qed
qed

lemma insert_all_collects:
  assumes "distinct (bulbs @ devices)"
  shows "collects w (set bulbs \<union> set devices) (Some (insert_all_devices bulbs devices w))"
  using assms
proof (induction bulbs arbitrary: devices w)
  case Nil
  then show ?case using collects_here by simp
next
  case (Cons a bulbs)
  show ?case
  proof (cases "w_ext w (w_ext_pos w)")
    case False
    then show ?thesis by (auto simp: collects_def ext_call_def)
  next
    case True
    let ?v = "w\<lparr>w_ext_pos := Suc (w_ext_pos w)\<rparr>"
    from Cons.IH [of "a # devices" ?v] Cons.prems
    have "collects ?v (set bulbs \<union> set (a # devices)) (Some (insert_all_devices bulbs (a # devices) ?v))" by auto
    then obtain res e where "insert_all_devices bulbs (a # devices) ?v = (res, ?v\<lparr>w_ext_pos := e\<rparr>)" "w_ext_pos ?v \<le> e"
      "case res of Some devices' \<Rightarrow> distinct devices' \<and> set devices' = set bulbs \<union> set (a # devices)
         | None \<Rightarrow> \<exists>n. w_ext_pos ?v \<le> n \<and> n < e \<and> \<not> w_ext ?v n"
      unfolding collects_def by blast
    with True show ?thesis unfolding collects_def
      by (intro exI [of _ res] exI [of _ e]) (auto simp: ext_call_def split: option.splits intro: Suc_leD)
  qed
qed

lemma target_denotes_ext [simp]: "target_denotes (w\<lparr>w_ext_pos := e\<rparr>) = target_denotes w"
proof -
  have tag: "lgtd_lifx_tagging_find_tag l (w\<lparr>w_ext_pos := e\<rparr>) = lgtd_lifx_tagging_find_tag l w" for l
    by (simp add: lgtd_lifx_tagging_find_tag_def)
  have dev: "target_device t (w\<lparr>w_ext_pos := e\<rparr>) = target_device t w" for t
    by (simp add: target_device_def lgtd_router_device_addr_to_device_def Let_def split: prod.splits)
  have "w_bulbs (w\<lparr>w_ext_pos := e\<rparr>) = w_bulbs w" "w_tags (w\<lparr>w_ext_pos := e\<rparr>) = w_tags w" by simp_all
  then show ?thesis unfolding target_denotes_def fun_eq_iff tag dev by metis
qed

lemma collect_devices_collects:
  assumes "wf_world w" "distinct devices" "\<forall>a\<in>set devices. find_bulb a w \<noteq> None"
  shows "collects w (set devices \<union> {a. list_ex (target_denotes w a) targets}) (collect_devices targets devices w)"
  using assms
proof (induction targets arbitrary: devices w)
  case Nil
  then show ?case using collects_here by simp
next
  case (Cons t ts)
  show ?case
  proof (cases "cstr t = ''*''")
    case True
    have "find_bulb a w \<noteq> None \<longleftrightarrow> a \<in> set (map fst (w_bulbs w))" for a by (auto simp: map_of_eq_None_iff)
    moreover have "target_denotes w a t \<longleftrightarrow> find_bulb a w \<noteq> None" for a
      using True by (auto simp: target_denotes_def split: option.splits)
    moreover have "find_bulb a w \<noteq> None" if "target_denotes w a u" for a u
      using that by (auto simp: target_denotes_def Let_def split: option.splits)
    ultimately have "set devices \<union> {a. list_ex (target_denotes w a) (t # ts)} = set (map fst (w_bulbs w)) \<union> set []"
      using Cons.prems(3) by (auto simp: list_ex_iff)
    then show ?thesis using True insert_all_collects [of "map fst (w_bulbs w)" "[]" w] wf_world_bulb_keys [OF Cons.prems(1)] by simp
  next
    case False
    let ?T = "set devices \<union> {a. list_ex (target_denotes w a) (t # ts)}"
    have "collects w ?T (Option.bind (insert_target t devices w)
        (\<lambda>(res, w). case res of None \<Rightarrow> Some (None, w) | Some devices \<Rightarrow> collect_devices ts devices w))"
    proof (rule collects_bind [OF insert_target_collects [OF Cons.prems(1,2) False]])
      fix devices' :: "bulb_addr list" and e
      assume d: "distinct devices'" "set devices' = set devices \<union> {a. target_denotes w a t}"
      have "\<forall>a\<in>set devices'. find_bulb a (w\<lparr>w_ext_pos := e\<rparr>) \<noteq> None"
        using Cons.prems(3) d(2) by (auto simp: target_denotes_def Let_def split: option.splits)
      moreover have "set devices' \<union> {a. list_ex (target_denotes w a) ts} = ?T" unfolding d(2) by auto
      ultimately show "collects (w\<lparr>w_ext_pos := e\<rparr>) ?T (collect_devices ts devices' (w\<lparr>w_ext_pos := e\<rparr>))"
        using Cons.IH [of "w\<lparr>w_ext_pos := e\<rparr>" devices'] d(1) Cons.prems(1) by simp
    qed
    then show ?thesis using False by simp
  qed
qed

lemma targets_to_devices_spec:
  assumes "wf_world w"
  shows "collects w {a. list_ex (target_denotes w a) targets} (lgtd_router_targets_to_devices targets w)"
proof (cases "w_ext w (w_ext_pos w)")
  case False
  then show ?thesis by (auto simp: lgtd_router_targets_to_devices_def collects_def ext_call_def)
next
  case True
  let ?v = "w\<lparr>w_ext_pos := Suc (w_ext_pos w)\<rparr>"
  have "collects ?v {a. list_ex (target_denotes w a) targets} (collect_devices targets [] ?v)"
    using collect_devices_collects [of ?v "[]" targets] assms by simp
  then obtain res e where "collect_devices targets [] ?v = Some (res, ?v\<lparr>w_ext_pos := e\<rparr>)" "w_ext_pos ?v \<le> e"
    "case res of Some devices' \<Rightarrow> distinct devices' \<and> set devices' = {a. list_ex (target_denotes w a) targets}
       | None \<Rightarrow> \<exists>n. w_ext_pos ?v \<le> n \<and> n < e \<and> \<not> w_ext ?v n"
    unfolding collects_def by blast
  with True show ?thesis unfolding collects_def
    by (intro exI [of _ res] exI [of _ e])
      (auto simp: lgtd_router_targets_to_devices_def ext_call_def split: option.splits intro: Suc_leD)
qed

text \<open>
  C8: A list of targets is resolved to the devices it denotes: unless an allocation fails, when nothing is left behind, the
  result holds every device that one of the targets stands for (everything, a tag, an address or a label), exactly once,
  and no other device; the world does not change.
\<close>

theorem targets_to_devices_denotation:
  assumes "wf_world w"
  shows "\<exists>res e. lgtd_router_targets_to_devices targets w = Some (res, w\<lparr>w_ext_pos := e\<rparr>)
     \<and> (case res of
          Some devices \<Rightarrow> distinct devices \<and> (\<forall>a. a \<in> set devices \<longleftrightarrow> list_ex (target_denotes w a) targets)
        | None \<Rightarrow> \<exists>n. w_ext_pos w \<le> n \<and> n < e \<and> \<not> w_ext w n)"
proof -
  from targets_to_devices_spec [OF assms, of targets] obtain res e where
    "lgtd_router_targets_to_devices targets w = Some (res, w\<lparr>w_ext_pos := e\<rparr>)"
    "case res of Some devices \<Rightarrow> distinct devices \<and> set devices = {a. list_ex (target_denotes w a) targets}
       | None \<Rightarrow> \<exists>n. w_ext_pos w \<le> n \<and> n < e \<and> \<not> w_ext w n"
    unfolding collects_def by blast
  then show ?thesis by (intro exI [of _ res] exI [of _ e]) (auto split: option.splits)
qed

theorem targets_to_devices_denotation_witness:
  "\<exists>devices e. lgtd_router_targets_to_devices [''#kitchen'', ''lamp''] sample_world = Some (Some devices, sample_world\<lparr>w_ext_pos := e\<rparr>)
     \<and> distinct devices \<and> [1, 2, 3, 4, 5, 6] \<in> set devices \<and> [1, 2, 3, 4, 5, 7] \<notin> set devices"
proof -
  have tag: "lgtd_lifx_tagging_find_tag ''kitchen'' sample_world = Some 3"
    by (simp add: lgtd_lifx_tagging_find_tag_def cstr_def replicate_numeral)
  have "target_denotes sample_world [1, 2, 3, 4, 5, 6] ''#kitchen''" "\<not> target_denotes sample_world [1, 2, 3, 4, 5, 7] ''#kitchen''"
    "\<not> target_denotes sample_world [1, 2, 3, 4, 5, 7] ''lamp''"
    by (simp_all add: target_denotes_def cstr_def tag target_device_def isxdigit_def isdigit_def sample_bulb_def Let_def
        calloc_bulb_def lgtd_lifx_bulb_has_label_def replicate_numeral)
  with targets_to_devices_denotation [OF wf_sample_world, of "[''#kitchen'', ''lamp'']"] show ?thesis
    by (auto split: option.splits)
qed

end
