(* ===== verification/Api_Inv.thy ===== *)
theory Api_Inv
  imports Router_Inv Proto
begin

text \<open>
  The commands of the API keep the invariant of the world, return, and answer their client with exactly one JSON-RPC
  response.
\<close>

unbundle bit_operations_syntax

subsection \<open>Answers\<close>

text \<open>The text of the id of the current request, when it can be read.\<close>

definition id_text :: "lgtd_client \<Rightarrow> string option" where
  "id_text client =
     (case Option.bind (c_current_request client) rq_id of
        None \<Rightarrow> Some ''null''
      | Some id_token \<Rightarrow> do {
          t \<leftarrow> token_at (c_jsmn_tokens client) id_token;
          if tk_type t = JSMN_STRING then json_slice (c_json client) (tk_start t - 1) (tk_end t + 1)
          else json_slice (c_json client) (tk_start t) (tk_end t)
        })"

definition reply :: "string \<Rightarrow> lgtd_client \<Rightarrow> lgtd_client" where
  "reply text client = (if c_io client then client\<lparr>c_out := c_out client @ text\<rparr> else client)"

lemma reply_reply [simp]: "reply t (reply s client) = reply (s @ t) client"
  by (simp add: reply_def)

lemma write_string_reply: "lgtd_client_write_string msg client = reply (cstr msg) client"
  by (simp add: lgtd_client_write_string_def reply_def)

lemma write_buf_reply: "lgtd_client_write_buf buf client = reply buf client"
  by (simp add: lgtd_client_write_buf_def reply_def)

lemma reply_fields [simp]:
  "c_current_request (reply s client) = c_current_request client" "c_jsmn_tokens (reply s client) = c_jsmn_tokens client"
  "c_json (reply s client) = c_json client" "c_io (reply s client) = c_io client"
  by (simp_all add: reply_def)

lemma id_text_reply [simp]: "id_text (reply s client) = id_text client"
  unfolding id_text_def reply_fields ..

lemma write_id_eq: "lgtd_jsonrpc_write_id client = map_option (\<lambda>s. reply s client) (id_text client)"
proof -
  have "cstr ''null'' = ''null''" by (simp add: cstr_def)
  then show ?thesis
    by (auto simp: lgtd_jsonrpc_write_id_def id_text_def write_string_reply write_buf_reply split: option.splits)
      (auto split: Option.bind_splits if_splits)
qed

definition response_text :: "string \<Rightarrow> string \<Rightarrow> string" where
  "response_text i result = ''{\"jsonrpc\": \"2.0\", \"id\": '' @ i @ '', \"result\": '' @ result @ ''}''"

definition error_text :: "string \<Rightarrow> int \<Rightarrow> string \<Rightarrow> string" where
  "error_text i code message =
     ''{\"jsonrpc\": \"2.0\", \"id\": '' @ i @ '', \"error\": {\"code\": '' @ take 7 (print_int code)
     @ '', \"message\": \"'' @ message @ ''\"}}''"

lemma send_response_eq:
  assumes "id_text client = Some i" "cstr result = result"
  shows "lgtd_client_send_response result client = Some (reply (response_text i result) client)"
proof -
  have "cstr ''{\"jsonrpc\": \"2.0\", \"id\": '' = ''{\"jsonrpc\": \"2.0\", \"id\": ''"
    "cstr '', \"result\": '' = '', \"result\": ''" "cstr ''}'' = ''}''" by (simp_all add: cstr_def)
  then show ?thesis using assms
    by (simp add: lgtd_client_send_response_def lgtd_jsonrpc_send_response_def write_string_reply write_id_eq
        response_text_def Let_def)
qed

lemma SEND_RESULT_eq:
  assumes "id_text client = Some i"
  shows "SEND_RESULT client ok = Some (reply (response_text i (if ok then ''true'' else ''false'')) client)"
  using send_response_eq [OF assms, of "if ok then ''true'' else ''false''"] by (simp add: SEND_RESULT_def cstr_def)

lemma digit_char_no_nul: "d < 10 \<Longrightarrow> digit_char d \<noteq> CHR 0x00"
proof
  assume d: "d < 10" and "digit_char d = CHR 0x00"
  then have "of_char (digit_char d) = (0::nat)" by simp
  with d show False by (simp add: of_char_of)
qed

lemma print_base_no_nul: "CHR 0x00 \<notin> set (print_base 10 n)"
proof (induction n rule: less_induct)
  case (less n)
  have "digit_char n \<noteq> CHR 0x00" if "n < 10" using digit_char_no_nul [OF that] .
  moreover have "digit_char (n mod 10) \<noteq> CHR 0x00" by (rule digit_char_no_nul) simp
  ultimately show ?case using less.IH [of "n div 10"]
    by (subst print_base.simps) (auto simp del: digit_char.simps)
qed

lemma print_int_no_nul: "CHR 0x00 \<notin> set (print_int i)"
  using print_base_no_nul by (simp add: print_int_def print_unsigned_def)

lemma cstr_take_print_int: "cstr (take n (print_int i)) = take n (print_int i)"
proof (rule cstr_no_nul)
  have "CHR 0x00 \<notin> set (print_int i)" by (rule print_int_no_nul)
  then show "CHR 0x00 \<notin> set (take n (print_int i))" using in_set_takeD by metis
qed

lemma send_error_eq:
  assumes "id_text client = Some i" "cstr message = message"
  shows "lgtd_client_send_error code message client = Some (reply (error_text i code message) client)"
proof -
  have "cstr ''{\"jsonrpc\": \"2.0\", \"id\": '' = ''{\"jsonrpc\": \"2.0\", \"id\": ''" "cstr ''\"}}'' = ''\"}}''"
    "cstr '', \"error\": {\"code\": '' = '', \"error\": {\"code\": ''"
    "cstr '', \"message\": \"'' = '', \"message\": \"''" by (simp_all add: cstr_def)
  then show ?thesis using assms
    by (simp add: lgtd_client_send_error_def lgtd_jsonrpc_send_error_def write_string_reply write_id_eq
        error_text_def Let_def cstr_take_print_int)
qed

text \<open>A command answers: it returns, in a world that satisfies the invariant, with a text given to the client.\<close>

definition answers :: "(string \<Rightarrow> bool) \<Rightarrow> lgtd_client \<Rightarrow> lgtd_world \<Rightarrow> (lgtd_client \<times> lgtd_world) option \<Rightarrow> bool" where
  "answers P client w r \<longleftrightarrow> (\<exists>text w'. r = Some (reply text client, w') \<and> P text \<and> wf_world w' \<and> keeps_gateways w w')"

lemma answersI:
  "r = Some (reply text client, w') \<Longrightarrow> P text \<Longrightarrow> wf_world w' \<Longrightarrow> keeps_gateways w w' \<Longrightarrow> answers P client w r"
  by (auto simp: answers_def)

lemma same_lights_keeps: "same_lights w w' \<Longrightarrow> keeps_gateways w w'"
  by (simp add: same_lights_def same_devices_keeps)

lemma keeps_ext_pos [simp]: "keeps_gateways w (w\<lparr>w_ext_pos := e\<rparr>)"
  by (simp add: keeps_gateways_def steady_def)

subsection \<open>Commands that send one packet\<close>

lemma route_and_answer_answers:
  assumes "wf_world w" "id_text client = Some i" "payload_ok ptype (Some pkt)"
  shows "answers (\<lambda>text. text = response_text i (if list_all (valid_target w) targets then ''true'' else ''false''))
     client w (route_and_answer ptype pkt client targets w)"
proof -
  obtain w' where w': "lgtd_router_send targets ptype (Some pkt) w = Some (list_all (valid_target w) targets, w')"
    "wf_world w'" "same_lights w w'" using router_send_spec [OF assms(1,3), of targets] by (auto simp: delivers_def)
  show ?thesis
    by (rule answersI [OF _ refl w'(2) same_lights_keeps [OF w'(3)]])
      (simp add: route_and_answer_def w'(1) SEND_RESULT_eq [OF assms(2)])
qed

lemma toggle_devices_ok:
  assumes "wf_world w" "\<forall>a\<in>set devices. find_bulb a w \<noteq> None"
  shows "\<exists>w'. foreach toggle_device devices w = Some w' \<and> wf_world w' \<and> same_lights w w'"
proof -
  have step: "\<exists>w''. toggle_device a w' = Some w'' \<and> wf_world w'' \<and> same_lights w w''"
    if a: "a \<in> set devices" and w': "wf_world w' \<and> same_lights w w'" for a w'
  proof -
    obtain b where "find_bulb a w = Some b" using assms(2) a by blast
    with w' obtain b' where b': "find_bulb a w' = Some b'" using same_lights_bulb by blast
    let ?pkt = "Some (power_state_bytes (w_be w') \<lparr>ps_power = NOT (ls_power (b_state b'))\<rparr>)"
    have "delivers LGTD_LIFX_SET_POWER_STATE ?pkt (only_on (b_gw b') (device a)) w' (toggle_device a w')"
      using send_to_device_delivers [of w' a b' LGTD_LIFX_SET_POWER_STATE ?pkt] w' b' by (simp add: toggle_device_def)
    then show ?thesis using w' same_lights_trans unfolding delivers_def by blast
  qed
  show ?thesis using foreach_total [where P = "\<lambda>w'. wf_world w' \<and> same_lights w w'" and f = toggle_device and xs = devices and s = w]
      step assms(1) by simp
qed

text \<open>A call of the environment from now on, an allocation in these commands, fails.\<close>

definition some_call_fails :: "lgtd_world \<Rightarrow> bool" where
  "some_call_fails w \<longleftrightarrow> (\<exists>n\<ge>w_ext_pos w. \<not> w_ext w n)"

text \<open>A step for the devices that the targets denote, and the answer when the list cannot be allocated.\<close>

definition denoted_devices :: "lgtd_world \<Rightarrow> string list \<Rightarrow> bulb_addr list \<Rightarrow> bool" where
  "denoted_devices w targets devices \<longleftrightarrow> distinct devices \<and> set devices = {a. list_ex (target_denotes w a) targets}"

lemma with_devices_answers:
  assumes "wf_world w" "id_text client = Some i"
    and "\<And>devices e. list_all (\<lambda>a. find_bulb a w \<noteq> None) devices \<Longrightarrow> denoted_devices w targets devices \<Longrightarrow>
       answers P client (w\<lparr>w_ext_pos := e\<rparr>) (f devices (w\<lparr>w_ext_pos := e\<rparr>))"
    and "\<And>e. some_call_fails w \<Longrightarrow> answers P client (w\<lparr>w_ext_pos := e\<rparr>) (h (w\<lparr>w_ext_pos := e\<rparr>))"
  shows "answers P client w (Option.bind (lgtd_router_targets_to_devices targets w)
     (\<lambda>(devices, w). case devices of None \<Rightarrow> h w | Some devices \<Rightarrow> f devices w))"
proof -
  from targets_to_devices_spec [OF assms(1), of targets] obtain res e where
    r: "lgtd_router_targets_to_devices targets w = Some (res, w\<lparr>w_ext_pos := e\<rparr>)"
      "case res of Some devices \<Rightarrow> distinct devices \<and> set devices = {a. list_ex (target_denotes w a) targets}
         | None \<Rightarrow> \<exists>n. w_ext_pos w \<le> n \<and> n < e \<and> \<not> w_ext w n"
    unfolding collects_def by blast
  have tr: "answers P client (w\<lparr>w_ext_pos := e\<rparr>) r \<Longrightarrow> answers P client w r" for r
    using keeps_gateways_trans [OF keeps_ext_pos] unfolding answers_def by blast
  show ?thesis
  proof (cases res)
    case None
    then have "some_call_fails w" using r(2) by (auto simp: some_call_fails_def)
    then show ?thesis using r None tr [OF assms(4)] by simp
  next
    case (Some devices)
    have "find_bulb a w \<noteq> None" if "target_denotes w a t" for a t
      using that by (auto simp: target_denotes_def Let_def split: option.splits)
    then have "list_all (\<lambda>a. find_bulb a w \<noteq> None) devices" using r(2) Some by (auto simp: list_all_iff list_ex_iff)
    then show ?thesis using r Some tr [OF assms(3)] by (simp add: denoted_devices_def)
  qed
qed

text \<open>The answers of the commands that allocate: done, or an internal error when something fails.\<close>

definition acknowledges :: "string \<Rightarrow> string \<Rightarrow> bool \<Rightarrow> string \<Rightarrow> bool" where
  "acknowledges i msg fails text \<longleftrightarrow>
     text = response_text i ''true'' \<or> fails \<and> text = error_text i LGTD_JSONRPC_INTERNAL_ERROR msg"

lemma error_answers:
  assumes "wf_world w" "id_text client = Some i" "cstr msg = msg" "P (error_text i code msg)"
  shows "answers P client w (Option.bind (lgtd_client_send_error code msg client) (\<lambda>client. Some (client, w)))"
  by (rule answersI [where P = P, OF _ assms(4) assms(1)]) (simp_all add: send_error_eq [OF assms(2,3)])

lemma result_answers:
  assumes "id_text client = Some i" "r = Some w'" "wf_world w'" "keeps_gateways w w'"
    and "P (response_text i (if ok then ''true'' else ''false''))"
  shows "answers P client w (Option.bind r (\<lambda>w. Option.bind (SEND_RESULT client ok) (\<lambda>client. Some (client, w))))"
  by (rule answersI [where P = P, OF _ assms(5) assms(3,4)]) (simp add: SEND_RESULT_eq [OF assms(1)] assms(2))

lemma memory_answers:
  assumes "wf_world w" "id_text client = Some i"
  shows "answers (acknowledges i ''couldn't allocate memory'' True) client w (Option.bind (lgtd_client_send_error LGTD_JSONRPC_INTERNAL_ERROR
     ''couldn't allocate memory'' client) (\<lambda>client. Some (client, w)))"
  by (rule error_answers [OF assms]) (auto simp: cstr_def acknowledges_def)

lemma power_toggle_answers:
  assumes "wf_world w" "id_text client = Some i"
  shows "answers (acknowledges i ''couldn't allocate memory'' (some_call_fails w)) client w (lgtd_proto_power_toggle client targets w)"
  unfolding lgtd_proto_power_toggle_def
proof (rule with_devices_answers [OF assms])
  fix devices e assume "list_all (\<lambda>a. find_bulb a w \<noteq> None) devices"
  then obtain w' where "foreach toggle_device devices (w\<lparr>w_ext_pos := e\<rparr>) = Some w'" "wf_world w'"
    "same_lights (w\<lparr>w_ext_pos := e\<rparr>) w'"
    using toggle_devices_ok [of "w\<lparr>w_ext_pos := e\<rparr>" devices] assms(1) by (auto simp: list_all_iff)
  from result_answers [OF assms(2) this(1,2) same_lights_keeps [OF this(3)], where ok = True]
  show "answers (acknowledges i ''couldn't allocate memory'' (some_call_fails w)) client (w\<lparr>w_ext_pos := e\<rparr>) (do { w \<leftarrow> foreach toggle_device devices (w\<lparr>w_ext_pos := e\<rparr>);
      client \<leftarrow> SEND_RESULT client True; Some (client, w) })" by (simp add: acknowledges_def)
next
  fix e assume fails: "some_call_fails w"
  show "answers (acknowledges i ''couldn't allocate memory'' (some_call_fails w)) client (w\<lparr>w_ext_pos := e\<rparr>) (Option.bind (lgtd_client_send_error LGTD_JSONRPC_INTERNAL_ERROR
     ''couldn't allocate memory'' client) (\<lambda>client. Some (client, w\<lparr>w_ext_pos := e\<rparr>)))"
    using memory_answers [of "w\<lparr>w_ext_pos := e\<rparr>" client i] assms fails by simp
qed

subsection \<open>Tags\<close>

lemma foreach_same_devices:
  assumes "wf_world w"
    and "\<And>x w'. x \<in> set xs \<Longrightarrow> wf_world w' \<Longrightarrow> same_devices w w' \<Longrightarrow> \<exists>w''. f x w' = Some w'' \<and> wf_world w'' \<and> same_devices w' w''"
  shows "\<exists>w'. foreach f xs w = Some w' \<and> wf_world w' \<and> same_devices w w'"
proof (rule foreach_total)
  show "wf_world w \<and> same_devices w w" using assms(1) by simp
  fix x w' assume "x \<in> set xs" "wf_world w' \<and> same_devices w w'"
  with assms(2) obtain w'' where "f x w' = Some w''" "wf_world w''" "same_devices w' w''" by blast
  then show "\<exists>w''. f x w' = Some w'' \<and> wf_world w'' \<and> same_devices w w''"
    using same_devices_trans [of w w' w''] \<open>wf_world w' \<and> same_devices w w'\<close> by auto
qed

lemma send_tags_wf:
  assumes "wf_world w" "find_bulb a w = Some b"
  shows "\<exists>w'. lgtd_router_send_to_device a LGTD_LIFX_SET_TAGS (Some (tags_bytes be pkt)) w = Some w'
     \<and> wf_world w' \<and> same_devices w w'"
  by (rule send_to_device_wf [OF assms]) simp_all

lemma untag_device_wf:
  assumes "wf_world w" "find_bulb a w = Some b"
  shows "\<exists>w'. untag_device tag a w = Some w' \<and> wf_world w' \<and> same_devices w w'"
proof -
  obtain g where "find_gw (b_gw b) w = Some g" using wf_world_bulb [OF assms] by blast
  then show ?thesis using assms send_tags_wf [OF assms] by (simp add: untag_device_def Let_def)
qed

lemma untag_answers:
  assumes "wf_world w" "id_text client = Some i"
  shows "answers (acknowledges i ''couldn't allocate memory'' (some_call_fails w)) client w (lgtd_proto_untag label client targets w)"
proof (cases "lgtd_lifx_tagging_find_tag label w")
  case None
  then show ?thesis using result_answers [OF assms(2) refl assms(1) keeps_gateways_refl, of "acknowledges i ''couldn't allocate memory'' (some_call_fails w)" True]
    by (simp add: lgtd_proto_untag_def acknowledges_def)
next
  case (Some tag)
  have "answers (acknowledges i ''couldn't allocate memory'' (some_call_fails w)) client w (Option.bind (lgtd_router_targets_to_devices targets w)
     (\<lambda>(devices, w). case devices of
        None \<Rightarrow> Option.bind (lgtd_client_send_error LGTD_JSONRPC_INTERNAL_ERROR ''couldn't allocate memory'' client)
          (\<lambda>client. Some (client, w))
      | Some devices \<Rightarrow> Option.bind (foreach (untag_device tag) devices w)
          (\<lambda>w. Option.bind (SEND_RESULT client True) (\<lambda>client. Some (client, w)))))"
  proof (rule with_devices_answers [OF assms])
    fix devices e assume d: "list_all (\<lambda>a. find_bulb a w \<noteq> None) devices"
    let ?v = "w\<lparr>w_ext_pos := e\<rparr>"
    have "\<exists>w'. foreach (untag_device tag) devices ?v = Some w' \<and> wf_world w' \<and> same_devices ?v w'"
    proof (rule foreach_same_devices)
      show "wf_world ?v" using assms(1) by simp
      fix a w' assume a: "a \<in> set devices" "wf_world w'" "same_devices ?v w'"
      then obtain b where "find_bulb a ?v = Some b" using d by (auto simp: list_all_iff)
      with same_devices_bulb [OF a(3)] obtain b' where "find_bulb a w' = Some b'" by blast
      then show "\<exists>w''. untag_device tag a w' = Some w'' \<and> wf_world w'' \<and> same_devices w' w''" by (rule untag_device_wf [OF a(2)])
    qed
    then obtain w' where w': "foreach (untag_device tag) devices ?v = Some w'" "wf_world w'" "same_devices ?v w'" by blast
    show "answers (acknowledges i ''couldn't allocate memory'' (some_call_fails w)) client ?v (Option.bind (foreach (untag_device tag) devices ?v)
          (\<lambda>w. Option.bind (SEND_RESULT client True) (\<lambda>client. Some (client, w))))"
      by (rule result_answers [OF assms(2) w'(1,2) same_devices_keeps [OF w'(3)]]) (simp add: acknowledges_def)
  next
    fix e assume fails: "some_call_fails w"
    show "answers (acknowledges i ''couldn't allocate memory'' (some_call_fails w)) client (w\<lparr>w_ext_pos := e\<rparr>) (Option.bind (lgtd_client_send_error LGTD_JSONRPC_INTERNAL_ERROR
       ''couldn't allocate memory'' client) (\<lambda>client. Some (client, w\<lparr>w_ext_pos := e\<rparr>)))"
      using memory_answers [of "w\<lparr>w_ext_pos := e\<rparr>" client i] assms fails by simp
  qed
  then show ?thesis using Some by (simp add: lgtd_proto_untag_def)
qed

lemma get_tag_id_site:
  assumes "wf_world w" "find_gw i w = Some g"
  shows "lgtd_lifx_gateway_get_tag_id tag g = -1 \<longleftrightarrow> (\<forall>j. \<not> has_site w tag i j)"
    and "lgtd_lifx_gateway_get_tag_id tag g \<noteq> -1 \<Longrightarrow>
      0 \<le> lgtd_lifx_gateway_get_tag_id tag g \<and> lgtd_lifx_gateway_get_tag_id tag g < 64"
proof -
  let ?P = "\<lambda>k. g_tags g ! k = Some tag"
  have site: "has_site w tag i k \<longleftrightarrow> k < 64 \<and> ?P k" for k
    using wf_worldD(5) [OF assms(1)] assms(2) unfolding inv_tags_def by blast
  have bit: "bit (g_tag_ids g) k" if "k < 64" "?P k" for k
    using wf_world_gw [OF assms] that by (simp add: gw_local_def)
  have "List.find ?P (tag_ids_of (g_tag_ids g)) = None \<longleftrightarrow> (\<forall>k. \<not> has_site w tag i k)"
    unfolding find_None_iff tag_ids_of_iff site using bit bit_u64_less by blast
  then show "lgtd_lifx_gateway_get_tag_id tag g = -1 \<longleftrightarrow> (\<forall>j. \<not> has_site w tag i j)"
    by (auto simp: lgtd_lifx_gateway_get_tag_id_def split: option.splits)
  show "0 \<le> lgtd_lifx_gateway_get_tag_id tag g \<and> lgtd_lifx_gateway_get_tag_id tag g < 64"
    if "lgtd_lifx_gateway_get_tag_id tag g \<noteq> -1"
    using that bit_u64_less
    by (auto simp: lgtd_lifx_gateway_get_tag_id_def tag_ids_of_iff dest!: find_SomeD split: option.splits)
qed

definition more_sites :: "lgtd_world \<Rightarrow> lgtd_world \<Rightarrow> bool" where
  "more_sites w w' \<longleftrightarrow> (\<forall>p i j. has_site w p i j \<longrightarrow> has_site w' p i j)"

lemma allocate_one_tag_id:
  assumes "wf_world w" "lgtd_lifx_tagging_find_tag label w = Some tag" "length (cstr label) < 32"
    and "find_gw gw w = Some g" "lgtd_lifx_gateway_get_tag_id tag g = -1"
  shows "\<exists>r w'. lgtd_lifx_gateway_allocate_tag_id gw (-1) label w = Some (r, w') \<and> wf_world w' \<and> only_tags w w'
     \<and> lgtd_lifx_tagging_find_tag label w' = Some tag \<and> more_sites w w' \<and> (r \<noteq> -1 \<longrightarrow> (\<exists>j. has_site w' tag gw j))"
proof -
  have "label_free w gw label (-1)"
    using assms(2,3) get_tag_id_site(1) [OF assms(1,4), of tag] assms(5) by (auto simp: label_free_def)
  with allocate_tag_id_spec [OF assms(1,4), of "-1" label] obtain r w' where
    w': "lgtd_lifx_gateway_allocate_tag_id gw (-1) label w = Some (r, w')" "wf_world w'" "only_tags w w'"
      "r = -1 \<and> w_tags w' = w_tags w \<or> 0 \<le> r \<and> allocated w gw (nat r) label w'" by auto
  from w'(4) have "lgtd_lifx_tagging_find_tag label w' = Some tag \<and> more_sites w w' \<and> (r \<noteq> -1 \<longrightarrow> (\<exists>j. has_site w' tag gw j))"
    using assms(2) by (auto simp: allocated_def more_sites_def lgtd_lifx_tagging_find_tag_def has_site_def)
  then show ?thesis using w'(1-3) by auto
qed

lemma only_tags_bulb: "only_tags w w' \<Longrightarrow> w_bulbs w' = w_bulbs w"
  by (simp add: only_tags_def)

lemma allocate_tag_ids_spec:
  assumes "wf_world w" "lgtd_lifx_tagging_find_tag label w = Some tag" "length (cstr label) < 32"
    and "list_all (\<lambda>a. find_bulb a w \<noteq> None) devices"
  shows "\<exists>ok w'. allocate_tag_ids tag label devices w = Some (ok, w') \<and> wf_world w' \<and> only_tags w w'
     \<and> lgtd_lifx_tagging_find_tag label w' = Some tag \<and> more_sites w w'
     \<and> (ok \<longrightarrow> list_all (\<lambda>a. \<forall>b. find_bulb a w = Some b \<longrightarrow> (\<exists>j. has_site w' tag (b_gw b) j)) devices)"
  using assms
proof (induction devices arbitrary: w)
  case Nil
  then show ?case by (auto simp: more_sites_def)
next
  case (Cons a devices)
  then obtain b where b: "find_bulb a w = Some b" by auto
  obtain g where g: "find_gw (b_gw b) w = Some g" using wf_world_bulb [OF Cons.prems(1) b] by blast
  show ?case
  proof (cases "lgtd_lifx_gateway_get_tag_id tag g = -1")
    case False
    then obtain j where j: "has_site w tag (b_gw b) j" using get_tag_id_site(1) [OF Cons.prems(1) g] by blast
    from Cons.IH [OF Cons.prems(1-3)] Cons.prems(4) obtain ok w' where
      "allocate_tag_ids tag label devices w = Some (ok, w')" "wf_world w'" "only_tags w w'"
      "lgtd_lifx_tagging_find_tag label w' = Some tag" "more_sites w w'"
      "ok \<longrightarrow> list_all (\<lambda>a. \<forall>b. find_bulb a w = Some b \<longrightarrow> (\<exists>j. has_site w' tag (b_gw b) j)) devices"
      unfolding list.pred_inject by blast
    moreover from this(5) j have "has_site w' tag (b_gw b) j" by (simp add: more_sites_def)
    ultimately show ?thesis using b g False by auto
  next
    case True
    from allocate_one_tag_id [OF Cons.prems(1-3) g True] obtain r w1 where
      w1: "lgtd_lifx_gateway_allocate_tag_id (b_gw b) (-1) label w = Some (r, w1)" "wf_world w1" "only_tags w w1"
        "lgtd_lifx_tagging_find_tag label w1 = Some tag" "more_sites w w1" "r \<noteq> -1 \<longrightarrow> (\<exists>j. has_site w1 tag (b_gw b) j)" by blast
    show ?thesis
    proof (cases "r = -1")
      case True
      then show ?thesis using w1 b g \<open>lgtd_lifx_gateway_get_tag_id tag g = -1\<close> by auto
    next
      case False
      then obtain j where j: "has_site w1 tag (b_gw b) j" using w1(6) by blast
      have bulbs: "w_bulbs w1 = w_bulbs w" by (rule only_tags_bulb [OF w1(3)])
      from Cons.IH [OF w1(2,4) Cons.prems(3)] Cons.prems(4) obtain ok w' where
        w': "allocate_tag_ids tag label devices w1 = Some (ok, w')" "wf_world w'" "only_tags w1 w'"
          "lgtd_lifx_tagging_find_tag label w' = Some tag" "more_sites w1 w'"
          "ok \<longrightarrow> list_all (\<lambda>a. \<forall>b. find_bulb a w = Some b \<longrightarrow> (\<exists>j. has_site w' tag (b_gw b) j)) devices"
        unfolding list.pred_inject bulbs by blast
      have "has_site w' tag (b_gw b) j" "more_sites w w'" using w'(5) w1(5) j by (simp_all add: more_sites_def)
      then show ?thesis using w' w1(1) b g True False only_tags_trans [OF w1(3) w'(3)] by auto
    qed
  qed
qed

lemma send_tag_label_wf:
  assumes "wf_world w" "has_site w tag (s_gw site) (s_tag_id site)"
  shows "\<exists>w'. send_tag_label label site w = Some w' \<and> wf_world w' \<and> same_devices w w'"
proof -
  from wf_world_has_site [OF assms] obtain g where g: "find_gw (s_gw site) w = Some g" "s_tag_id site < 64" by blast
  have loc: "length (g_site g) = 6" "ring_inv g" using wf_world_gw [OF assms(1) g(1)] by (simp_all add: gw_local_def)
  let ?pkt = "lgtd_lifx_wire_encode_tag_labels (w_be w) \<lparr>tl_tags = LGTD_LIFX_WIRE_TAG_ID_TO_VALUE (s_tag_id site),
       tl_label = c_strncpy (cstr label) 31 @ [CHR 0x00]\<rparr>"
  have "payload_ok LGTD_LIFX_SET_TAG_LABELS (Some (tag_labels_bytes (w_be w) ?pkt))"
    by (simp add: lgtd_lifx_wire_encode_tag_labels_def c_strncpy_def)
  from send_to_site_ok [OF loc(1) wf_world_client [OF assms(1)] this loc(2), of "w_be w"] obtain g' where
    g': "lgtd_lifx_gateway_send_to_site_impl (w_be w) (w_client_id w) LGTD_LIFX_SET_TAG_LABELS
       (Some (tag_labels_bytes (w_be w) ?pkt)) g = Some g'" "queue_frame g g'" "ring_inv g'" by blast
  then show ?thesis
    using g wf_world_upd_gw [OF assms(1) g(1) queue_frame_core [OF g'(2)] g'(3)] same_devices_upd_gw [OF g(1) g'(2)]
    by (simp add: send_tag_label_def lgtd_lifx_gateway_send_to_site_def)
qed

lemma tag_device_wf:
  assumes "wf_world w" "find_bulb a w = Some b" "has_site w tag (b_gw b) j"
  shows "\<exists>w'. tag_device tag a w = Some w' \<and> wf_world w' \<and> same_devices w w'"
proof -
  obtain g where g: "find_gw (b_gw b) w = Some g" using wf_world_bulb [OF assms(1,2)] by blast
  have "lgtd_lifx_gateway_get_tag_id tag g \<noteq> -1" using get_tag_id_site(1) [OF assms(1) g] assms(3) by blast
  from get_tag_id_site(2) [OF assms(1) g this] show ?thesis
    using g assms send_tags_wf [OF assms(1,2)] by (simp add: tag_device_def Let_def)
qed

text \<open>The tag of the command: found, or created without a site, unless there is no memory.\<close>

lemma find_or_allocate_tag:
  assumes "wf_world w" "length (cstr label) < 32"
  shows "\<exists>r w'. (case lgtd_lifx_tagging_find_tag label w of
        Some tag \<Rightarrow> Some (Some tag, w) | None \<Rightarrow> lgtd_lifx_tagging_allocate_tag label w) = Some (r, w')
     \<and> wf_world w' \<and> only_tags w w' \<and> (\<forall>tag. r = Some tag \<longrightarrow> lgtd_lifx_tagging_find_tag label w' = Some tag)"
proof (cases "lgtd_lifx_tagging_find_tag label w")
  case (Some tag)
  then show ?thesis using assms(1) by simp
next
  case none: None
  have wt: "wf_tags w" using wf_worldD(5) [OF assms(1)] by (simp add: inv_tags_def)
  have new: "cstr label \<notin> set (tag_labels w)" using none by (simp add: find_tag_None)
  from allocate_tag_spec [OF wt assms(2) new] obtain r w' where
    w': "lgtd_lifx_tagging_allocate_tag label w = Some (r, w')" "tags_frame w w'"
      "case r of None \<Rightarrow> w_tags w' = w_tags w
        | Some p \<Rightarrow> p \<notin> fst ` set (w_tags w) \<and> p < w_next_ptr w' \<and>
            (\<exists>t. w_tags w' = (p, t) # w_tags w \<and> wf_tag t \<and> t_sites t = [] \<and> cstr (t_label t) = cstr label)" by blast
  show ?thesis
  proof (cases r)
    case None
    then show ?thesis using w' wf_world_tags_frame [OF assms(1) w'(2)] tags_frame_only [OF w'(2)] none by simp
  next
    case (Some p)
    with w'(3) obtain t where t: "p \<notin> fst ` set (w_tags w)" "p < w_next_ptr w'" "w_tags w' = (p, t) # w_tags w" "wf_tag t"
      "t_sites t = []" "cstr (t_label t) = cstr label" by auto
    have le: "w_next_ptr w \<le> w_next_ptr w'" using w'(2) by (simp add: tags_frame_def)
    have "wf_tags w'" by (rule wf_tags_Cons [OF wt t(3) le t(1,2,4)]) (use new t(6) in simp)
    moreover have "map_of (w_tags w) p = None" using t(1) by (simp add: map_of_eq_None_iff)
    then have "has_site w' = has_site w" using t(3,5) by (auto simp: has_site_def fun_eq_iff)
    ultimately have "wf_world w'" by (rule wf_world_sites [OF assms(1) w'(2)])
    moreover have "lgtd_lifx_tagging_find_tag label w' = Some p" using t(3,6) by (simp add: lgtd_lifx_tagging_find_tag_def)
    ultimately show ?thesis using w'(1) Some none tags_frame_only [OF w'(2)] by simp
  qed
qed

lemma error_site_alloc_keeps:
  assumes "wf_world w" "map_of (w_tags w) tag = Some t"
  shows "keeps w (error_site_alloc tag w)"
proof (cases "t_sites t = []")
  case True
  let ?w = "w\<lparr>w_tags := adel tag (w_tags w)\<rparr>"
  have frame: "tags_frame w ?w" by (simp add: tags_frame_def)
  have "wf_tags ?w" by (rule wf_tags_adel) (use wf_worldD(5) [OF assms(1)] in \<open>simp_all add: inv_tags_def\<close>)
  moreover have "has_site ?w = has_site w" using True assms(2) by (auto simp: has_site_def fun_eq_iff)
  ultimately have "wf_world ?w" by (rule wf_world_sites [OF assms(1) frame])
  then show ?thesis using True assms(2) only_tags_keeps [OF tags_frame_only [OF frame]]
    by (simp add: error_site_alloc_def lgtd_lifx_tagging_deallocate_tag_def keeps_def)
next
  case False
  have "\<exists>w'. foreach (\<lambda>site. lgtd_lifx_gateway_deallocate_tag_id (s_gw site) (int (s_tag_id site))) (t_sites t) w = Some w'
      \<and> wf_world w' \<and> keeps_gateways w w'"
  proof (rule foreach_total)
    show "wf_world w \<and> keeps_gateways w w" using assms(1) by simp
    fix site w' assume s: "site \<in> set (t_sites t)" "wf_world w' \<and> keeps_gateways w w'"
    then have "has_site w tag (s_gw site) (s_tag_id site)" using has_site_member [OF assms(2) s(1)] by simp
    from wf_world_has_site [OF assms(1) this] obtain g where g: "find_gw (s_gw site) w = Some g" "s_tag_id site < 64" by blast
    obtain g' where "find_gw (s_gw site) w' = Some g'" using keeps_gateways_find [OF _ g(1)] s(2) by blast
    from deallocate_tag_id_spec [OF _ this, of "int (s_tag_id site)"] s(2) g(2) obtain w'' where
      "lgtd_lifx_gateway_deallocate_tag_id (s_gw site) (int (s_tag_id site)) w' = Some w''" "wf_world w''" "only_tags w' w''" by auto
    then show "\<exists>w''. lgtd_lifx_gateway_deallocate_tag_id (s_gw site) (int (s_tag_id site)) w' = Some w''
        \<and> wf_world w'' \<and> keeps_gateways w w''" using s(2) keeps_gateways_trans only_tags_keeps by blast
  qed
  then show ?thesis using assms(2) False by (simp add: error_site_alloc_def keeps_def)
qed

text \<open>The packets of the command, once every gateway of the devices has an id for the tag.\<close>

lemma send_tag_labels_loop:
  assumes "wf_world w" "map_of (w_tags w) tag = Some t"
  shows "\<exists>w'. foreach (send_tag_label label) (t_sites t) w = Some w' \<and> wf_world w' \<and> same_devices w w'"
proof (rule foreach_same_devices [OF assms(1)])
  fix site w' assume s: "site \<in> set (t_sites t)" "wf_world w'" "same_devices w w'"
  have "w_tags w' = w_tags w" using s(3) by (simp add: same_devices_def)
  then have "has_site w' tag (s_gw site) (s_tag_id site)" using has_site_member [of w' tag t site] s(1) assms(2) by simp
  then show "\<exists>w''. send_tag_label label site w' = Some w'' \<and> wf_world w'' \<and> same_devices w' w''"
    by (rule send_tag_label_wf [OF s(2)])
qed

lemma tag_devices_loop:
  assumes "wf_world w" "list_all (\<lambda>a. \<exists>b j. find_bulb a w = Some b \<and> has_site w tag (b_gw b) j) devices"
  shows "\<exists>w'. foreach (tag_device tag) devices w = Some w' \<and> wf_world w' \<and> same_devices w w'"
proof (rule foreach_same_devices [OF assms(1)])
  fix a w' assume a: "a \<in> set devices" "wf_world w'" "same_devices w w'"
  then obtain b j where b: "find_bulb a w = Some b" "has_site w tag (b_gw b) j" using assms(2) by (auto simp: list_all_iff)
  from same_devices_bulb [OF a(3) b(1)] obtain b' where b': "find_bulb a w' = Some b'" "b_gw b' = b_gw b" by blast
  have "has_site w' tag (b_gw b') j" using a(3) b(2) b'(2) by (simp add: same_devices_def has_site_def)
  then show "\<exists>w''. tag_device tag a w' = Some w'' \<and> wf_world w'' \<and> same_devices w' w''" by (rule tag_device_wf [OF a(2) b'(1)])
qed

lemma tag_alloc_answers:
  assumes "wf_world w" "id_text client = Some i"
  shows "answers (acknowledges i ''couldn't allocate new tag'' True) client w (Option.bind (error_tag_alloc client) (\<lambda>client. Some (client, w)))"
  unfolding error_tag_alloc_def by (rule error_answers [OF assms]) (auto simp: cstr_def acknowledges_def)

lemma answers_after:
  "keeps_gateways w w' \<Longrightarrow> answers P client w' r \<Longrightarrow> answers P client w r"
  using keeps_gateways_trans unfolding answers_def by blast

lemma tag_found_answers:
  assumes "wf_world w" "id_text client = Some i" "lgtd_lifx_tagging_find_tag label w = Some tag" "length (cstr label) < 32"
    and "list_all (\<lambda>a. find_bulb a w \<noteq> None) devices"
  shows "answers (acknowledges i ''couldn't allocate new tag'' True) client w (do {
      (ok, w) \<leftarrow> allocate_tag_ids tag label devices w;
      if \<not> ok then do { w \<leftarrow> error_site_alloc tag w; client \<leftarrow> error_tag_alloc client; Some (client, w) }
      else do {
        t \<leftarrow> map_of (w_tags w) tag;
        w \<leftarrow> foreach (send_tag_label label) (t_sites t) w;
        w \<leftarrow> foreach (tag_device tag) devices w;
        client \<leftarrow> SEND_RESULT client True;
        Some (client, w)
      }
    })"
proof -
  from allocate_tag_ids_spec [OF assms(1,3,4,5)] obtain ok w1 where
    w1: "allocate_tag_ids tag label devices w = Some (ok, w1)" "wf_world w1" "only_tags w w1"
      "lgtd_lifx_tagging_find_tag label w1 = Some tag"
      "ok \<longrightarrow> list_all (\<lambda>a. \<forall>b. find_bulb a w = Some b \<longrightarrow> (\<exists>j. has_site w1 tag (b_gw b) j)) devices" by blast
  have k1: "keeps_gateways w w1" by (rule only_tags_keeps [OF w1(3)])
  obtain t where t: "map_of (w_tags w1) tag = Some t"
    using find_tag_Some [OF _ w1(4)] wf_worldD(5) [OF w1(2)] by (auto simp: inv_tags_def)
  show ?thesis
  proof (cases ok)
    case False
    from error_site_alloc_keeps [OF w1(2) t] obtain w2 where
      "error_site_alloc tag w1 = Some w2" "wf_world w2" "keeps_gateways w1 w2" by (auto simp: keeps_def)
    then show ?thesis using answers_after [OF keeps_gateways_trans [OF k1] tag_alloc_answers [OF _ assms(2)]] w1(1) False by simp
  next
    case True
    from send_tag_labels_loop [OF w1(2) t, of label] obtain w2 where
      w2: "foreach (send_tag_label label) (t_sites t) w1 = Some w2" "wf_world w2" "same_devices w1 w2" by blast
    have "find_bulb a w1 = find_bulb a w" for a using only_tags_bulb [OF w1(3)] by simp
    then have "list_all (\<lambda>a. \<exists>b j. find_bulb a w1 = Some b \<and> has_site w1 tag (b_gw b) j) devices"
      using w1(5) True assms(5) by (fastforce simp: list_all_iff)
    moreover have "has_site w2 = has_site w1" using w2(3) by (simp add: same_devices_def has_site_def fun_eq_iff)
    ultimately have "list_all (\<lambda>a. \<exists>b j. find_bulb a w2 = Some b \<and> has_site w2 tag (b_gw b) j) devices"
      using same_devices_bulb [OF w2(3)] by (fastforce simp: list_all_iff)
    from tag_devices_loop [OF w2(2) this] obtain w3 where
      w3: "foreach (tag_device tag) devices w2 = Some w3" "wf_world w3" "same_devices w2 w3" by blast
    have "keeps_gateways w w3"
      using keeps_gateways_trans [OF k1 keeps_gateways_trans [OF same_devices_keeps [OF w2(3)] same_devices_keeps [OF w3(3)]]] .
    from result_answers [OF assms(2) w3(1,2) this, of "acknowledges i ''couldn't allocate new tag'' True" True] show ?thesis
      using w1(1) t w2(1) True by (simp add: acknowledges_def)
  qed
qed

lemma tag_answers:
  assumes "wf_world w" "id_text client = Some i" "length (cstr label) < 32"
  shows "answers (acknowledges i ''couldn't allocate new tag'' True) client w (lgtd_proto_tag label client targets w)"
  unfolding lgtd_proto_tag_def
proof (rule with_devices_answers [OF assms(1,2)])
  fix devices e assume d: "list_all (\<lambda>a. find_bulb a w \<noteq> None) devices"
  let ?v = "w\<lparr>w_ext_pos := e\<rparr>"
  have "wf_world ?v" using assms(1) by simp
  from find_or_allocate_tag [OF this assms(3)] obtain r w1 where
    w1: "(case lgtd_lifx_tagging_find_tag label ?v of
        Some tag \<Rightarrow> Some (Some tag, ?v) | None \<Rightarrow> lgtd_lifx_tagging_allocate_tag label ?v) = Some (r, w1)"
      "wf_world w1" "only_tags ?v w1" "\<forall>tag. r = Some tag \<longrightarrow> lgtd_lifx_tagging_find_tag label w1 = Some tag" by blast
  have d1: "list_all (\<lambda>a. find_bulb a w1 \<noteq> None) devices" using d only_tags_bulb [OF w1(3)] by simp
  note after = answers_after [OF only_tags_keeps [OF w1(3)]]
  show "answers (acknowledges i ''couldn't allocate new tag'' True) client ?v (do {
      (tag, w) \<leftarrow> (case lgtd_lifx_tagging_find_tag label ?v of
                    Some tag \<Rightarrow> Some (Some tag, ?v) | None \<Rightarrow> lgtd_lifx_tagging_allocate_tag label ?v);
      case tag of
        None \<Rightarrow> do { client \<leftarrow> error_tag_alloc client; Some (client, w) }
      | Some tag \<Rightarrow> do {
          (ok, w) \<leftarrow> allocate_tag_ids tag label devices w;
          if \<not> ok then do { w \<leftarrow> error_site_alloc tag w; client \<leftarrow> error_tag_alloc client; Some (client, w) }
          else do {
            t \<leftarrow> map_of (w_tags w) tag;
            w \<leftarrow> foreach (send_tag_label label) (t_sites t) w;
            w \<leftarrow> foreach (tag_device tag) devices w;
            client \<leftarrow> SEND_RESULT client True;
            Some (client, w)
          }
        }
    })"
  proof (cases r)
    case None
    then show ?thesis using after [OF tag_alloc_answers [OF w1(2) assms(2)]] by (simp add: w1(1))
  next
    case (Some tag)
    then show ?thesis using after [OF tag_found_answers [OF w1(2) assms(2) _ assms(3) d1]] w1(4) by (simp add: w1(1))
  qed
next
  fix e
  show "answers (acknowledges i ''couldn't allocate new tag'' True) client (w\<lparr>w_ext_pos := e\<rparr>) (Option.bind (error_tag_alloc client)
     (\<lambda>client. Some (client, w\<lparr>w_ext_pos := e\<rparr>)))"
    by (rule tag_alloc_answers) (use assms in simp_all)
qed

subsection \<open>The state of the lights\<close>

lemma length_put: "length out \<le> n \<Longrightarrow> length (put n c out) \<le> n"
  by (auto simp: put_def)

lemma length_leading_zeros: "length out \<le> n \<Longrightarrow> length (leading_zeros n m d out) \<le> n"
proof (induction n m d out rule: leading_zeros.induct)
  case (1 bufsz multiplier divider out)
  then show ?case by (subst leading_zeros.simps) auto
qed

lemma length_print_digits: "1 \<le> n \<Longrightarrow> length out \<le> n \<Longrightarrow> length (print_digits n v m out) \<le> n"
proof (induction n v m out rule: print_digits.induct)
  case (1 bufsz "value" multiplier out)
  define out1 where "out1 = (if multiplier = LGTD_JSONRPC_FLOAT_PREC div 10
      then put bufsz (CHR ''.'') (if out = [] then ''0'' else out) else out)"
  define out2 where "out2 = put bufsz (char_of (int (ord (CHR ''0'')) + value div multiplier)) out1"
  have "length out1 \<le> bufsz" using 1(2,3) by (auto simp: out1_def intro: length_put)
  then have "length out2 \<le> bufsz" by (simp add: out2_def length_put)
  then show ?case using 1(1) [OF out1_def out2_def refl refl] 1(2)
    unfolding print_digits.simps [of bufsz "value" multiplier out] Let_def out1_def [symmetric] out2_def [symmetric]
    by simp
qed

lemma uint16_to_float_string_fits:
  assumes "1 < n" "start < stop"
  shows "\<exists>s. lgtd_jsonrpc_uint16_range_to_float_string x start stop n = Some s \<and> length s < n"
proof -
  define v where "v = uint x * (stop * LGTD_JSONRPC_FLOAT_PREC - start * LGTD_JSONRPC_FLOAT_PREC) div UINT16_MAX"
  define m where "m = top_multiplier v 1"
  define out where "out = (if m < LGTD_JSONRPC_FLOAT_PREC div 10
      then leading_zeros n m 10 (put n (CHR ''.'') ''0'') else '''')"
  have "length out \<le> n" using assms(1) by (auto simp: out_def intro!: length_leading_zeros length_put)
  then have len: "length (print_digits n v m out) \<le> n" using length_print_digits assms(1) by simp
  have "lgtd_jsonrpc_uint16_range_to_float_string x start stop n =
      (if v = 0 then Some ''0'' else Some (take (n - 1) (print_digits n v m out)))"
    unfolding lgtd_jsonrpc_uint16_range_to_float_string_def Let_def v_def [symmetric] m_def [symmetric] out_def [symmetric]
    using assms len by simp
  then show ?thesis using assms(1) by auto
qed

text \<open>The text for a list of devices: for each its state, the labels of the tags that its gateway knows, and a comma but for the last.\<close>

definition quoted :: "string \<Rightarrow> string" where
  "quoted l = ''\"'' @ l @ ''\"''"

definition comma_separated :: "string list \<Rightarrow> string" where
  "comma_separated ls = (case ls of [] \<Rightarrow> [] | l # ls \<Rightarrow> l @ concat (map ((@) '','') ls))"

definition known_label :: "lgtd_world \<Rightarrow> lgtd_lifx_gateway \<Rightarrow> nat \<Rightarrow> string" where
  "known_label w g tag_id =
     (case Option.bind (g_tags g ! tag_id) (map_of (w_tags w)) of Some t \<Rightarrow> cstr (t_label t) | None \<Rightarrow> [])"

definition known_labels :: "lgtd_world \<Rightarrow> lgtd_lifx_gateway \<Rightarrow> nat list \<Rightarrow> string list" where
  "known_labels w g ks = map (\<lambda>k. quoted (known_label w g k)) (filter (bit (g_tag_ids g)) ks)"

lemma known_labels_simps [simp]:
  "known_labels w g [] = []"
  "known_labels w g (k # ks) = (if bit (g_tag_ids g) k then [quoted (known_label w g k)] else []) @ known_labels w g ks"
  by (simp_all add: known_labels_def)

definition device_text :: "print_env \<Rightarrow> lgtd_world \<Rightarrow> bool \<Rightarrow> bulb_addr \<Rightarrow> string" where
  "device_text env w is_last addr =
     (case find_bulb addr w of
        None \<Rightarrow> []
      | Some b \<Rightarrow>
          (case find_gw (b_gw b) w of
             None \<Rightarrow> []
           | Some g \<Rightarrow>
               (case bulb_state_pieces env addr b g of
                  None \<Rightarrow> []
                | Some pieces \<Rightarrow>
                    if 2048 \<le> length (concat pieces) then []
                    else cstr (concat pieces) @ comma_separated (known_labels w g (tag_ids_of (ls_tags (b_state b))))
                         @ (if is_last then '']}'' else '']},''))))"

fun devices_text :: "print_env \<Rightarrow> lgtd_world \<Rightarrow> bulb_addr list \<Rightarrow> string" where
  "devices_text env w [] = []"
| "devices_text env w (addr # devices) = device_text env w (devices = []) addr @ devices_text env w devices"

lemma devices_text_ext [simp]: "devices_text env (w\<lparr>w_ext_pos := e\<rparr>) = devices_text env w"
proof
  fix devices
  have "known_labels (w\<lparr>w_ext_pos := e\<rparr>) = known_labels w" by (simp add: known_labels_def known_label_def fun_eq_iff)
  then show "devices_text env (w\<lparr>w_ext_pos := e\<rparr>) devices = devices_text env w devices"
    by (induction devices) (simp_all add: device_text_def cong: option.case_cong if_cong)
qed

lemma snprintf_append_all:
  "snd (fold (LGTD_SNPRINTF_APPEND n) pieces (buf, length buf)) = min (length buf + length (concat pieces)) (max n (length buf))
   \<and> (length buf + length (concat pieces) < n \<longrightarrow> fst (fold (LGTD_SNPRINTF_APPEND n) pieces (buf, length buf)) = buf @ concat pieces)"
  if "length buf < n"
  using that
proof (induction pieces arbitrary: buf)
  case (Cons x xs)
  have full: "snd (fold (LGTD_SNPRINTF_APPEND n) ys (b, n)) = n" for ys b
    by (induction ys arbitrary: b) (simp_all add: LGTD_SNPRINTF_APPEND_def)
  show ?case
  proof (cases "length buf + length x < n")
    case True
    then have "LGTD_SNPRINTF_APPEND n x (buf, length buf) = (buf @ x, length (buf @ x))" by (simp add: LGTD_SNPRINTF_APPEND_def)
    then show ?thesis using Cons.IH [of "buf @ x"] True by (auto simp: add.assoc)
  next
    case False
    then have "min (length buf + length x) n = n" by simp
    then have "LGTD_SNPRINTF_APPEND n x (buf, length buf) = (buf @ take (n - length buf - 1) x, n)" by (simp add: LGTD_SNPRINTF_APPEND_def)
    then show ?thesis using full False Cons.prems by simp
  qed
qed simp

lemma write_tags_text:
  assumes "wf_world w" "find_gw i w = Some g"
  shows "\<exists>comma'. foreach (write_tag w g) ks (comma, client) =
     Some (comma', reply (if comma then concat (map ((@) '','') (known_labels w g ks)) else comma_separated (known_labels w g ks)) client)"
proof (induction ks arbitrary: comma client)
  case Nil
  then show ?case by (simp add: reply_def comma_separated_def)
next
  case (Cons k ks)
  have c: "cstr '',\"'' = '',\"''" "cstr ''\"'' = ''\"''" by (simp_all add: cstr_def)
  show ?case
  proof (cases "bit (g_tag_ids g) k")
    case False
    then have "\<not> (LGTD_LIFX_WIRE_TAG_ID_TO_VALUE k AND g_tag_ids g \<noteq> 0)"
      using and_TAG_ID_TO_VALUE [of "g_tag_ids g" k] by (simp add: and.commute)
    then have "write_tag w g k (comma, client) = Some (comma, client)" by (simp add: write_tag_def)
    then show ?thesis using Cons [of comma client] False by (cases comma) simp_all
  next
    case True
    then have k: "LGTD_LIFX_WIRE_TAG_ID_TO_VALUE k AND g_tag_ids g \<noteq> 0" "k < 64"
      using and_TAG_ID_TO_VALUE [of "g_tag_ids g" k] bit_u64_less [OF True] by (simp_all add: and.commute)
    obtain p where p: "g_tags g ! k = Some p" using wf_world_gw [OF assms] True k(2) by (auto simp: gw_local_def)
    then have "has_site w p i k" using wf_worldD(5) [OF assms(1)] assms(2) k(2) by (auto simp: inv_tags_def)
    then obtain t where t: "map_of (w_tags w) p = Some t" by (auto simp: has_site_def)
    let ?s = "(if comma then '','' else []) @ quoted (known_label w g k)"
    have "write_tag w g k (comma, client) = Some (True, reply ?s client)"
      using k(1) p t by (simp add: write_tag_def write_string_reply Let_def known_label_def quoted_def c)
    then show ?thesis using Cons [of True "reply ?s client"] True by (cases comma) (simp_all add: comma_separated_def)
  qed
qed

lemma write_devices_text:
  assumes "wf_world w" "list_all (\<lambda>a. find_bulb a w \<noteq> None) devices"
  shows "write_devices env w devices client = Some (reply (devices_text env w devices) client)"
  using assms(2)
proof (induction devices arbitrary: client)
  case Nil
  then show ?case by (simp add: reply_def)
next
  case (Cons a devices)
  then obtain b where b: "find_bulb a w = Some b" by auto
  obtain g where g: "find_gw (b_gw b) w = Some g" using wf_world_bulb [OF assms(1) b] by blast
  obtain pieces where p: "bulb_state_pieces env a b g = Some pieces"
    using uint16_to_float_string_fits [of 16 0 360 "ls_hue (b_state b)"]
      uint16_to_float_string_fits [of 16 0 1 "ls_saturation (b_state b)"]
      uint16_to_float_string_fits [of 16 0 1 "ls_brightness (b_state b)"]
    by (auto simp: bulb_state_pieces_def Let_def)
  obtain buf i where bi: "fold (LGTD_SNPRINTF_APPEND 2048) pieces ('''', 0) = (buf, i)"
    by (cases "fold (LGTD_SNPRINTF_APPEND 2048) pieces ('''', 0)")
  have i: "i = min (length (concat pieces)) 2048" "length (concat pieces) < 2048 \<Longrightarrow> buf = concat pieces"
    using snprintf_append_all [of "''''" 2048 pieces] bi by auto
  have IH: "write_devices env w devices client = Some (reply (devices_text env w devices) client)" for client
    using Cons by simp
  show ?case
  proof (cases "2048 \<le> length (concat pieces)")
    case True
    then show ?thesis using IH [of client] b g p bi i(1) by (simp add: device_text_def)
  next
    case False
    obtain comma where t: "LGTD_LIFX_WIRE_FOREACH_TAG_ID (write_tag w g) (ls_tags (b_state b)) (False, reply (cstr buf) client) =
        Some (comma, reply (comma_separated (known_labels w g (tag_ids_of (ls_tags (b_state b))))) (reply (cstr buf) client))"
      using write_tags_text [OF assms(1) g, of "tag_ids_of (ls_tags (b_state b))" False "reply (cstr buf) client"] by (auto simp: foreach_tag_id_eq)
    have "cstr (if devices \<noteq> [] then '']},'' else '']}'') = (if devices = [] then '']}'' else '']},'')" by (simp add: cstr_def)
    then show ?thesis using False b g p bi i t IH by (simp add: write_string_reply Let_def device_text_def)
  qed
qed

text \<open>The answer to a request for the state of the devices the targets denote, in some order.\<close>

definition light_state_answer :: "print_env \<Rightarrow> lgtd_world \<Rightarrow> string list \<Rightarrow> string \<Rightarrow> string \<Rightarrow> bool" where
  "light_state_answer env w targets i text \<longleftrightarrow>
     (\<exists>devices. denoted_devices w targets devices \<and> text = response_text i (''['' @ devices_text env w devices @ '']''))
     \<or> some_call_fails w \<and> text = error_text i LGTD_JSONRPC_INTERNAL_ERROR ''couldn't allocate device list''"

lemma get_light_state_answers:
  assumes "wf_world w" "id_text client = Some i"
  shows "answers (light_state_answer env w targets i) client w (lgtd_proto_get_light_state env client targets w)"
  unfolding lgtd_proto_get_light_state_def
proof (rule with_devices_answers [OF assms])
  fix devices e assume d: "list_all (\<lambda>a. find_bulb a w \<noteq> None) devices" "denoted_devices w targets devices"
  let ?v = "w\<lparr>w_ext_pos := e\<rparr>" and ?start = "''{\"jsonrpc\": \"2.0\", \"id\": '' @ i @ '', \"result\": ''"
  have c: "cstr ''{\"jsonrpc\": \"2.0\", \"id\": '' = ''{\"jsonrpc\": \"2.0\", \"id\": ''"
    "cstr '', \"result\": '' = '', \"result\": ''" "cstr ''}'' = ''}''" "cstr ''['' = ''[''" "cstr '']'' = '']''"
    by (simp_all add: cstr_def)
  have start: "lgtd_client_start_send_response client = Some (reply ?start client)"
    using assms(2) by (simp add: lgtd_client_start_send_response_def lgtd_jsonrpc_start_send_response_def write_string_reply
        write_id_eq c Let_def)
  have "wf_world ?v" "list_all (\<lambda>a. find_bulb a ?v \<noteq> None) devices" using assms(1) d(1) by simp_all
  note t = write_devices_text [OF this, of env "reply (?start @ ''['') client"]
  show "answers (light_state_answer env w targets i) client ?v (do {
      client \<leftarrow> lgtd_client_start_send_response client;
      let client = lgtd_client_write_string ''['' client;
      client \<leftarrow> write_devices env ?v devices client;
      let client = lgtd_client_write_string '']'' client;
      Some (lgtd_client_end_send_response client, ?v)
    })"
  proof (rule answersI)
    show "light_state_answer env w targets i (response_text i (''['' @ devices_text env w devices @ '']''))"
      using d(2) by (auto simp: light_state_answer_def)
    show "wf_world ?v" "keeps_gateways ?v ?v" using assms(1) by simp_all
  qed (use t in \<open>simp add: start write_string_reply c Let_def lgtd_client_end_send_response_def
      lgtd_jsonrpc_end_send_response_def response_text_def\<close>)
next
  fix e assume "some_call_fails w"
  then show "answers (light_state_answer env w targets i) client (w\<lparr>w_ext_pos := e\<rparr>)
     (Option.bind (lgtd_client_send_error LGTD_JSONRPC_INTERNAL_ERROR ''couldn't allocate device list'' client)
        (\<lambda>client. Some (client, w\<lparr>w_ext_pos := e\<rparr>)))"
    by (intro error_answers) (use assms in \<open>auto simp: cstr_def light_state_answer_def\<close>)
qed

subsection \<open>Every command\<close>

text \<open>The commands with their arguments, as the JSON-RPC methods call them.\<close>

datatype api_call =
    Power_on
  | Power_off
  | Power_toggle
  | Set_light_from_hsbk int int int int int
  | Set_waveform nat int int int int int u32 int bool
  | Set_label string
  | Tag string
  | Untag string
  | Get_light_state

fun run_call :: "print_env \<Rightarrow> api_call \<Rightarrow> command" where
  "run_call env Power_on = lgtd_proto_power_on"
| "run_call env Power_off = lgtd_proto_power_off"
| "run_call env Power_toggle = lgtd_proto_power_toggle"
| "run_call env (Set_light_from_hsbk h s b k t) = lgtd_proto_set_light_from_hsbk h s b k t"
| "run_call env (Set_waveform form h s b k p c sk tr) = lgtd_proto_set_waveform form h s b k p c sk tr"
| "run_call env (Set_label label) = lgtd_proto_set_label label"
| "run_call env (Tag label) = lgtd_proto_tag label"
| "run_call env (Untag label) = lgtd_proto_untag label"
| "run_call env Get_light_state = lgtd_proto_get_light_state env"

text \<open>The arguments the assertions of the commands accept.\<close>

definition hsbk_ok :: "int \<Rightarrow> int \<Rightarrow> int \<Rightarrow> int \<Rightarrow> bool" where
  "hsbk_ok h s b k \<longleftrightarrow> 0 \<le> h \<and> h \<le> UINT16_MAX \<and> 0 \<le> s \<and> s \<le> UINT16_MAX \<and> 0 \<le> b \<and> b \<le> UINT16_MAX
     \<and> 2500 \<le> k \<and> k \<le> 9000"

fun call_ok :: "api_call \<Rightarrow> bool" where
  "call_ok (Set_light_from_hsbk h s b k t) = (hsbk_ok h s b k \<and> 0 \<le> t)"
| "call_ok (Set_waveform form h s b k p c sk tr) =
     (hsbk_ok h s b k \<and> form \<le> 4 \<and> -32767 \<le> sk \<and> sk \<le> 32768 \<and> 0 \<le> p \<and> float_nonneg c)"
| "call_ok (Tag label) = (length (cstr label) < LGTD_LIFX_LABEL_SIZE)"
| "call_ok _ = True"

text \<open>The text a command may answer with.\<close>

definition answer_for :: "print_env \<Rightarrow> api_call \<Rightarrow> lgtd_world \<Rightarrow> string list \<Rightarrow> string \<Rightarrow> string \<Rightarrow> bool" where
  "answer_for env call w targets i text =
     (case call of
        Power_toggle \<Rightarrow> acknowledges i ''couldn't allocate memory'' (some_call_fails w) text
      | Untag label \<Rightarrow> acknowledges i ''couldn't allocate memory'' (some_call_fails w) text
      | Tag label \<Rightarrow> acknowledges i ''couldn't allocate new tag'' True text
      | Get_light_state \<Rightarrow> light_state_answer env w targets i text
      | _ \<Rightarrow> text = response_text i (if list_all (valid_target w) targets then ''true'' else ''false''))"

text \<open>The packet of a command that sends one, as it is on the wire.\<close>

fun call_packet :: "api_call \<Rightarrow> (u16 \<times> bytes) option" where
  "call_packet Power_on = Some (LGTD_LIFX_SET_POWER_STATE, [0xff, 0xff])"
| "call_packet Power_off = Some (LGTD_LIFX_SET_POWER_STATE, [0, 0])"
| "call_packet (Set_light_from_hsbk h s b k t) = Some (LGTD_LIFX_SET_LIGHT_COLOR,
     [0] @ le_bytes 2 (of_int h :: u16) @ le_bytes 2 (of_int s :: u16) @ le_bytes 2 (of_int b :: u16)
     @ le_bytes 2 (of_int k :: u16) @ le_bytes 4 (of_int t :: u32))"
| "call_packet (Set_waveform form h s b k p c sk tr) = Some (LGTD_LIFX_SET_WAVEFORM,
     [0, of_bool tr] @ le_bytes 2 (of_int h :: u16) @ le_bytes 2 (of_int s :: u16) @ le_bytes 2 (of_int b :: u16)
     @ le_bytes 2 (of_int k :: u16) @ le_bytes 4 (of_int p :: u32) @ le_bytes 4 c @ le_bytes 2 (of_int sk :: u16) @ [of_nat form])"
| "call_packet (Set_label label) = Some (LGTD_LIFX_SET_BULB_LABEL, bytes_of_string (c_strncpy (cstr label) LGTD_LIFX_LABEL_SIZE))"
| "call_packet _ = None"

lemma power_image: "power_state_bytes be \<lparr>ps_power = LGTD_LIFX_POWER_ON\<rparr> = [0xff, 0xff]"
  "power_state_bytes be \<lparr>ps_power = LGTD_LIFX_POWER_OFF\<rparr> = [0, 0]"
  by (cases be; simp add: power_state_bytes_def, code_simp)+

lemma run_call_routes:
  assumes "call_ok call" "call_packet call = Some (ptype, pkt)"
  shows "run_call env call = route_and_answer ptype pkt" "payload_ok ptype (Some pkt)"
proof -
  have "run_call env call client targets w = route_and_answer ptype pkt client targets w" for client targets w
    using assms by (cases call) (auto simp: lgtd_proto_power_on_def lgtd_proto_power_off_def power_image
        lgtd_proto_set_light_from_hsbk_def lgtd_proto_set_waveform_def lgtd_proto_set_label_def hsbk_ok_def Let_def
        light_color_bytes_def lgtd_lifx_wire_encode_light_color_def waveform_bytes_def
        lgtd_lifx_wire_encode_waveform_def lgtd_lifx_wire_htolefloat_def label_bytes_def)
  then show "run_call env call = route_and_answer ptype pkt" by (simp add: fun_eq_iff)
  show "payload_ok ptype (Some pkt)" using assms(2) by (cases call) (auto simp: c_strncpy_def)
qed

lemma run_call_responds:
  assumes "wf_world w" "id_text client = Some i" "call_ok call"
  shows "answers (answer_for env call w targets i) client w (run_call env call client targets w)"
proof (cases "call_packet call")
  case None
  then show ?thesis
    using power_toggle_answers [OF assms(1,2)] untag_answers [OF assms(1,2)] tag_answers [OF assms(1,2)]
      get_light_state_answers [OF assms(1,2)] assms(3)
    by (cases call) (simp_all add: answer_for_def [abs_def])
next
  case (Some packet)
  obtain ptype pkt where packet: "call_packet call = Some (ptype, pkt)" using Some by (cases packet) simp
  note r = run_call_routes(1) [OF assms(3) packet, of env] run_call_routes(2) [OF assms(3) packet]
  show ?thesis unfolding r(1) using route_and_answer_answers [OF assms(1,2) r(2), of targets] packet
    by (cases call) (simp_all add: answer_for_def [abs_def])
qed

text \<open>
  C4: Every command of the API answers exactly once: from every state of the daemon that satisfies the invariant, for every list of
  targets and every argument its assertions admit, no assertion fails and no pointer dangles, the invariant holds afterwards, and
  what the client gets is one text, with the id of its request. For a command that sends one packet it is the result true or
  false, true exactly when all the targets are valid. For toggling and untagging it is the result true or, if a call of the
  environment fails, the error that memory could not be allocated; for tagging true or the error that the tag could not. For
  \<open>get_light_state\<close> it is the list of the states of exactly the devices the targets denote, each once, or if a call of the
  environment fails the error that the list could not be allocated.
\<close>

theorem api_commands_answer:
  assumes "wf_world w" "id_text client = Some i" "call_ok call"
  shows "\<exists>s w'. run_call env call client targets w = Some (reply s client, w') \<and> answer_for env call w targets i s \<and> wf_world w'"
  using run_call_responds [OF assms, of env targets] by (auto simp: answers_def)

text \<open>
  C9: The commands that change lights send what they say: turning on or off, a colour, a waveform or a label returns the answer
  whether all the targets are valid and queues on each gateway, for each addressee of the targets on it in their order, one datagram
  with the header for the addressee and the payload of the command in little endian (\<open>0xffff\<close> for on and 0 for off), or drops it
  when 16 messages are queued. No state of a light changes before the device reports it.
\<close>

theorem light_commands_send:
  assumes "wf_world w" "id_text client = Some i" "call_ok call" "call_packet call = Some (ptype, pkt)"
  shows "\<exists>w'. run_call env call client targets w =
       Some (reply (response_text i (if list_all (valid_target w) targets then ''true'' else ''false'')) client, w')
     \<and> wf_world w' \<and> same_lights w w'
     \<and> (\<forall>j g. find_gw j w = Some g \<longrightarrow> (\<exists>g'. find_gw j w' = Some g'
          \<and> (ring_msgs g', g_write_buf g') =
              fold (queue_packet (w_client_id w) (g_site g) ptype (Some pkt)) (concat (map (packets_for w j) targets))
                (ring_msgs g, g_write_buf g)))"
proof -
  note r = run_call_routes(1) [OF assms(3,4), of env] run_call_routes(2) [OF assms(3,4)]
  from router_send_spec [OF assms(1) r(2), of targets] obtain w' where
    w': "lgtd_router_send targets ptype (Some pkt) w = Some (list_all (valid_target w) targets, w')"
      "delivers ptype (Some pkt) (\<lambda>j. concat (map (packets_for w j) targets)) w (Some w')" by blast
  then have "run_call env call client targets w =
      Some (reply (response_text i (if list_all (valid_target w) targets then ''true'' else ''false'')) client, w')"
    unfolding r(1) by (simp add: route_and_answer_def SEND_RESULT_eq [OF assms(2)])
  then show ?thesis using w'(2) unfolding delivers_def out_queue_def by blast
qed

definition sample_client :: lgtd_client where
  "sample_client = \<lparr>c_io = True, c_out = '''', c_jsmn_tokens = [], c_json = '''', c_current_request = None\<rparr>"

definition sample_env :: print_env where
  "sample_env = \<lparr>pe_debug = False, pe_gmtime_r = (\<lambda>_. None), pe_float = (\<lambda>_. ''0.000000''), pe_peeraddr = (\<lambda>_. [])\<rparr>"

lemma sample_client_id: "id_text sample_client = Some ''null''"
  by (simp add: id_text_def sample_client_def)

theorem api_commands_answer_witness:
  "(\<exists>s w'. run_call sample_env (Tag ''den'') sample_client [''*''] (sample_world\<lparr>w_ext := (\<lambda>n. n < 6)\<rparr>) = Some (sample_client\<lparr>c_out := s\<rparr>, w')
     \<and> (s = response_text ''null'' ''true'' \<or> s = error_text ''null'' (-32603) ''couldn't allocate new tag'') \<and> wf_world w')
   \<and> (\<exists>w'. run_call sample_env Power_off sample_client [''lamp'', ''#attic''] sample_world =
       Some (sample_client\<lparr>c_out := ''{\"jsonrpc\": \"2.0\", \"id\": null, \"result\": false}''\<rparr>, w'))"
proof
  have "wf_world (sample_world\<lparr>w_ext := (\<lambda>n. n < 6)\<rparr>)" "call_ok (Tag ''den'')" using wf_sample_world by (simp_all add: cstr_def)
  then show "\<exists>s w'. run_call sample_env (Tag ''den'') sample_client [''*''] (sample_world\<lparr>w_ext := (\<lambda>n. n < 6)\<rparr>) = Some (sample_client\<lparr>c_out := s\<rparr>, w')
     \<and> (s = response_text ''null'' ''true'' \<or> s = error_text ''null'' (-32603) ''couldn't allocate new tag'') \<and> wf_world w'"
    using api_commands_answer [of "sample_world\<lparr>w_ext := (\<lambda>n. n < 6)\<rparr>" sample_client "''null''" "Tag ''den''" sample_env "[''*'']"]
      sample_client_id by (auto simp: reply_def answer_for_def acknowledges_def) (auto simp: sample_client_def)
  have "\<not> valid_target sample_world ''#attic''"
    by (simp add: valid_target_def cstr_def lgtd_lifx_tagging_find_tag_def replicate_numeral)
  then show "\<exists>w'. run_call sample_env Power_off sample_client [''lamp'', ''#attic''] sample_world =
       Some (sample_client\<lparr>c_out := ''{\"jsonrpc\": \"2.0\", \"id\": null, \"result\": false}''\<rparr>, w')"
    using api_commands_answer [OF wf_sample_world sample_client_id, of Power_off sample_env "[''lamp'', ''#attic'']"]
    by (auto simp: reply_def answer_for_def response_text_def) (auto simp: sample_client_def)
qed

theorem light_commands_send_witness:
  "\<exists>w' g'. run_call sample_env Power_on sample_client [''*''] sample_world =
       Some (sample_client\<lparr>c_out := ''{\"jsonrpc\": \"2.0\", \"id\": null, \"result\": true}''\<rparr>, w')
     \<and> find_gw 1 w' = Some g' \<and> g_write_buf g' =
         [[38, 0, 0, 0x34, 1, 0, 0, 0, 0, 0, 0, 0, 0, 0, 0, 0, 1, 2, 3, 4, 5, 6, 1, 0, 0, 0, 0, 0, 0, 0, 0, 0, 21, 0, 0, 0], [0xff, 0xff]]"
proof -
  have valid: "list_all (valid_target sample_world) [''*'']" by (simp add: valid_target_def cstr_def)
  have "call_ok Power_on" "call_packet Power_on = Some (LGTD_LIFX_SET_POWER_STATE, [0xff, 0xff])" by simp_all
  from light_commands_send [OF wf_sample_world sample_client_id this, of sample_env "[''*'']"] obtain w' where
    w': "run_call sample_env Power_on sample_client [''*''] sample_world = Some (reply (response_text ''null'' ''true'') sample_client, w')"
      "\<forall>j g. find_gw j sample_world = Some g \<longrightarrow> (\<exists>g'. find_gw j w' = Some g' \<and> (ring_msgs g', g_write_buf g') =
        fold (queue_packet (w_client_id sample_world) (g_site g) LGTD_LIFX_SET_POWER_STATE (Some [0xff, 0xff]))
          (concat (map (packets_for sample_world j) [''*''])) (ring_msgs g, g_write_buf g))"
    using valid by (elim exE conjE) simp
  have q: "concat (map (packets_for sample_world 1) [''*'']) = [everything]" by (simp add: packets_for_def cstr_def)
  have gw: "find_gw 1 sample_world = Some sample_gateway" by simp
  from w'(2) [rule_format, OF gw, unfolded q] obtain g' where
    g': "find_gw 1 w' = Some g'" "(ring_msgs g', g_write_buf g') =
      fold (queue_packet (w_client_id sample_world) (g_site sample_gateway) LGTD_LIFX_SET_POWER_STATE (Some [0xff, 0xff]))
        [everything] (ring_msgs sample_gateway, g_write_buf sample_gateway)" by blast
  have "ring_msgs sample_gateway = []" "g_write_buf sample_gateway = []" "g_site sample_gateway = [1, 2, 3, 4, 5, 6]"
    by (simp_all add: sample_gateway_def calloc_gateway_def ring_msgs_def ring_count_def)
  with g'(2) have "g_write_buf g' =
      datagram (w_client_id sample_world) [1, 2, 3, 4, 5, 6] LGTD_LIFX_SET_POWER_STATE (Some [0xff, 0xff]) everything"
    by (simp add: queue_packet_def)
  moreover have "lgtd_lifx_wire_get_packet_info LGTD_LIFX_SET_POWER_STATE =
      Some \<lparr>pi_name = ''SET_POWER_STATE'', pi_type = LGTD_LIFX_SET_POWER_STATE, pi_size = 2,
            pi_decode = Decode_null, pi_encode = Encode_null, pi_handle = Handle_null\<rparr>"
    by (simp add: get_packet_info_eq packet_table_defs)
  ultimately have "g_write_buf g' =
      [[38, 0, 0, 0x34, 1, 0, 0, 0, 0, 0, 0, 0, 0, 0, 0, 0, 1, 2, 3, 4, 5, 6, 1, 0, 0, 0, 0, 0, 0, 0, 0, 0, 21, 0, 0, 0], [0xff, 0xff]]"
    by (simp add: datagram_def header_image_def target_image_def site_image_def le_bytes_numeral replicate_numeral)
  then show ?thesis using w'(1) g'(1) by (auto simp: reply_def response_text_def sample_client_def)
qed

text \<open>
  The text of a 16 bit value in a range, for instance of a hue in the interval from 0 to 360, always fits the buffer it is
  printed to: the function returns, its last assertion holds, and the result has room for its terminator.
\<close>

theorem uint16_range_to_float_string_bounded:
  assumes "1 < bufsz" "start < stop"
  shows "\<exists>s. lgtd_jsonrpc_uint16_range_to_float_string encoded start stop bufsz = Some s \<and> length s < bufsz"
  by (rule uint16_to_float_string_fits [OF assms])

theorem uint16_range_to_float_string_bounded_witness:
  "\<exists>s. lgtd_jsonrpc_uint16_range_to_float_string 0xffff 0 360 4 = Some s \<and> length s < 4"
  using uint16_range_to_float_string_bounded [of 4 0 360 "0xffff"] by simp

end
