(* ===== verification/Rpc_Inv.thy ===== *)
theory Rpc_Inv
  imports Api_Inv Client
begin

text \<open>
  Whatever a client sends, the state of the daemon keeps its invariant: the requests that are not valid are refused before
  they reach a command, and the commands keep it.
\<close>

subsection \<open>Commands and methods\<close>

text \<open>When the step returns, the invariant holds, the gateways are the same and the client is still connected if it was.\<close>

definition sound :: "lgtd_client \<Rightarrow> lgtd_world \<Rightarrow> (lgtd_client \<times> lgtd_world) option \<Rightarrow> bool" where
  "sound client w r \<longleftrightarrow>
     (\<forall>client' w'. r = Some (client', w') \<longrightarrow> wf_world w' \<and> keeps_gateways w w' \<and> c_io client' = c_io client)"

lemma sound_None [simp]: "sound client w None"
  by (simp add: sound_def)

lemma sound_Some: "wf_world w' \<Longrightarrow> keeps_gateways w w' \<Longrightarrow> c_io client' = c_io client \<Longrightarrow> sound client w (Some (client', w'))"
  by (simp add: sound_def)

lemma sound_trans: "keeps_gateways w w' \<Longrightarrow> sound client w' r \<Longrightarrow> sound client w r"
  using keeps_gateways_trans unfolding sound_def by blast

lemma answers_sound: "answers P client w r \<Longrightarrow> sound client w r"
  by (auto simp: answers_def sound_def)

text \<open>Without a readable id no answer is written, and the commands do not return.\<close>

lemma no_id_no_answer:
  assumes "id_text client = None"
  shows "SEND_RESULT client ok = None" "lgtd_client_send_error code msg client = None"
    "lgtd_client_start_send_response client = None"
  using assms
  by (simp_all add: SEND_RESULT_def lgtd_client_send_response_def lgtd_jsonrpc_send_response_def lgtd_client_send_error_def
      lgtd_jsonrpc_send_error_def lgtd_client_start_send_response_def lgtd_jsonrpc_start_send_response_def
      write_string_reply write_id_eq Let_def)

lemma bind_never: "(\<And>x. f x = None) \<Longrightarrow> Option.bind r f = None"
  by (cases r) simp_all

lemma run_call_no_id:
  assumes "id_text client = None"
  shows "run_call env call client targets w = None"
proof -
  note no = no_id_no_answer [OF assms]
  have "route_and_answer ptype pkt client targets w = None" for ptype pkt
    by (auto simp: route_and_answer_def no intro!: bind_never)
  then show ?thesis
    by (cases call)
      (auto simp: no lgtd_proto_power_on_def lgtd_proto_power_off_def lgtd_proto_power_toggle_def
        lgtd_proto_set_light_from_hsbk_def lgtd_proto_set_waveform_def lgtd_proto_set_label_def lgtd_proto_tag_def
        lgtd_proto_untag_def lgtd_proto_get_light_state_def error_tag_alloc_def Let_def
        intro!: bind_never split: option.splits)
qed

lemma long_label_unknown:
  assumes "wf_world w" "32 \<le> length (cstr label)"
  shows "lgtd_lifx_tagging_find_tag label w = None"
proof (rule ccontr)
  assume "lgtd_lifx_tagging_find_tag label w \<noteq> None"
  then obtain p where p: "lgtd_lifx_tagging_find_tag label w = Some p" by blast
  have wt: "wf_tags w" using wf_worldD(5) [OF assms(1)] by (simp add: inv_tags_def)
  from find_tag_Some [OF wt p] obtain t where t: "map_of (w_tags w) p = Some t" "cstr (t_label t) = cstr label" by blast
  with wf_tags_lookup [OF wt t(1)] assms(2) show False by (simp add: wf_tag_def)
qed

lemma long_tag_sound:
  assumes "wf_world w" "id_text client = Some i" "32 \<le> length (cstr label)"
  shows "sound client w (lgtd_proto_tag label client targets w)"
proof -
  from targets_to_devices_spec [OF assms(1), of targets] obtain res e where
    r: "lgtd_router_targets_to_devices targets w = Some (res, w\<lparr>w_ext_pos := e\<rparr>)" unfolding collects_def by blast
  have wf: "wf_world (w\<lparr>w_ext_pos := e\<rparr>)" using assms(1) by simp
  show ?thesis
  proof (cases res)
    case None
    then show ?thesis using sound_trans [OF keeps_ext_pos answers_sound [OF tag_alloc_answers [OF wf assms(2)]]] r
      by (simp add: lgtd_proto_tag_def)
  next
    case (Some devices)
    then show ?thesis using r long_label_unknown [OF wf assms(3)] assms(3)
      by (simp add: lgtd_proto_tag_def lgtd_lifx_tagging_allocate_tag_def)
  qed
qed

lemma run_call_sound:
  assumes "wf_world w"
  shows "sound client w (run_call env call client targets w)"
proof (cases "id_text client")
  case None
  then show ?thesis by (simp add: run_call_no_id)
next
  case (Some i)
  show ?thesis
  proof (cases "call_ok call")
    case True
    from run_call_responds [OF assms Some this] show ?thesis by (rule answers_sound)
  next
    case False
    then consider (light) h s b k t where "call = Set_light_from_hsbk h s b k t" "\<not> (hsbk_ok h s b k \<and> 0 \<le> t)"
      | (wave) form h s b k p c sk tr where "call = Set_waveform form h s b k p c sk tr"
          "\<not> (hsbk_ok h s b k \<and> form \<le> 4 \<and> -32767 \<le> sk \<and> sk \<le> 32768 \<and> 0 \<le> p \<and> float_nonneg c)"
      | (tag) label where "call = Tag label" "32 \<le> length (cstr label)"
      by (cases call) auto
    then show ?thesis
    proof cases
      case light
      then show ?thesis by (auto simp: lgtd_proto_set_light_from_hsbk_def c_assert_def hsbk_ok_def)
    next
      case wave
      then show ?thesis by (auto simp: lgtd_proto_set_waveform_def c_assert_def hsbk_ok_def)
    next
      case tag
      then show ?thesis using long_tag_sound [OF assms Some] by simp
    qed
  qed
qed

lemma send_error_io: "lgtd_jsonrpc_send_error code msg client = Some client' \<Longrightarrow> c_io client' = c_io client"
  by (auto simp: lgtd_jsonrpc_send_error_def write_string_reply write_id_eq bind_eq_Some_conv)

lemma error_sound: "wf_world w \<Longrightarrow> sound client w (Option.bind (lgtd_jsonrpc_send_error code msg client) (\<lambda>client. Some (client, w)))"
  using send_error_io by (cases "lgtd_jsonrpc_send_error code msg client") (auto intro: sound_Some)

lemma invalid_params_sound: "wf_world w \<Longrightarrow> sound client w (error_invalid_params client w)"
  unfolding error_invalid_params_def by (rule error_sound)

lemma build_targets_world:
  "build_targets n target targets client w = Some (res, client', w') \<Longrightarrow> (\<exists>e. w' = w\<lparr>w_ext_pos := e\<rparr>) \<and> c_io client' = c_io client"
proof (induction n arbitrary: targets w)
  case 0
  then have "w' = w\<lparr>w_ext_pos := w_ext_pos w\<rparr>" "c_io client' = c_io client" by simp_all
  then show ?case by blast
next
  case (Suc n)
  let ?v = "w\<lparr>w_ext_pos := Suc (w_ext_pos w)\<rparr>"
  from Suc.prems obtain t where t: "token_at (c_jsmn_tokens client) (target + int n) = Some t"
    by (auto simp: bind_eq_Some_conv)
  consider (invalid) "lgtd_jsonrpc_send_error (-32602) ''Invalid parameters'' client = Some client'" "w' = w"
    | (memory) "lgtd_jsonrpc_send_error (-32603) ''Can't allocate memory'' client = Some client'" "w' = ?v"
    | (more) targets' where "build_targets n target targets' client ?v = Some (res, client', w')"
    using Suc.prems t by (auto simp: ext_call_def bind_eq_Some_conv split: if_splits)
  then show ?case
  proof cases
    case invalid
    then have "w' = w\<lparr>w_ext_pos := w_ext_pos w\<rparr>" by simp
    then show ?thesis using send_error_io [OF invalid(1)] by blast
  next
    case memory
    then show ?thesis using send_error_io [OF memory(1)] by blast
  next
    case more
    from Suc.IH [OF this] obtain e where "w' = ?v\<lparr>w_ext_pos := e\<rparr>" "c_io client' = c_io client" by blast
    then have "w' = w\<lparr>w_ext_pos := e\<rparr>" by simp
    then show ?thesis using \<open>c_io client' = c_io client\<close> by blast
  qed
qed

lemma build_target_list_world:
  assumes "lgtd_jsonrpc_build_target_list target n client w = Some (res, client', w')"
  shows "(\<exists>e. w' = w\<lparr>w_ext_pos := e\<rparr>) \<and> c_io client' = c_io client"
proof -
  have "w = w\<lparr>w_ext_pos := w_ext_pos w\<rparr>" by simp
  then have refl: "\<exists>e. w = w\<lparr>w_ext_pos := e\<rparr>" by blast
  from assms have "w' = w \<and> client' = client \<or> (\<exists>n t. build_targets n t [] client w = Some (res, client', w'))"
    by (auto simp: lgtd_jsonrpc_build_target_list_def bind_eq_Some_conv split: if_splits simp del: build_targets.simps)
  then show ?thesis using refl build_targets_world by blast
qed

lemma call_on_targets_sound:
  assumes "wf_world w" "\<And>client targets w. wf_world w \<Longrightarrow> sound client w (cmd client targets w)"
  shows "sound client w (call_on_targets params cmd client w)"
proof (cases "lgtd_jsonrpc_build_target_list (map_of (out_values params) ''target'') (param_ntokens params ''target'') client w")
  case (Some r)
  obtain res client' w' where r: "r = (res, client', w')" by (cases r)
  with build_target_list_world Some obtain e where e: "w' = w\<lparr>w_ext_pos := e\<rparr>" and io: "c_io client' = c_io client" by blast
  have wf: "wf_world w'" using assms(1) e by simp
  have k: "keeps_gateways w w'" by (simp add: e)
  have "sound client w' (cmd client' targets w')" for targets using assms(2) [OF wf, of client'] io by (simp add: sound_def)
  then show ?thesis using Some r wf k io sound_trans [OF k]
    by (auto simp: call_on_targets_def intro: sound_Some split: option.splits)
qed (simp add: call_on_targets_def)

lemma targets_only_sound:
  assumes "wf_world w" "\<And>client targets w. wf_world w \<Longrightarrow> sound client w (cmd client targets w)"
  shows "sound client w (CHECK_AND_CALL_TARGETS_ONLY_METHOD cmd client w)"
proof -
  have "CHECK_AND_CALL_TARGETS_ONLY_METHOD cmd client w =
      Option.bind (extract_params target_schema client) (\<lambda>(ok, params).
        if \<not> ok then error_invalid_params client w else call_on_targets params cmd client w)"
    by (auto simp: CHECK_AND_CALL_TARGETS_ONLY_METHOD_def lgtd_jsonrpc_extract_target_list_def call_on_targets_def
        split: Option.bind_splits option.splits if_splits)
  then show ?thesis using call_on_targets_sound [OF assms] invalid_params_sound [OF assms(1)]
    by (auto split: Option.bind_splits)
qed

lemma label_method_sound:
  assumes "wf_world w" "\<And>label client targets w. wf_world w \<Longrightarrow> sound client w (cmd label client targets w)"
  shows "sound client w (lgtd_jsonrpc_check_and_call_proto_tag_or_untag_or_set_label cmd client w)"
proof -
  have "sound client w' (do {
      t \<leftarrow> param_token params ''label'' client;
      let (ok, w) = ext_call w';
      if \<not> ok then do {
        client \<leftarrow> lgtd_jsonrpc_send_error LGTD_JSONRPC_INTERNAL_ERROR ''Can't allocate memory'' client;
        Some (client, w)
      }
      else cmd (cstr (token_text (c_json client) t)) client targets w
    })" if "wf_world w'" for params client targets w'
    using sound_trans [OF keeps_ext_pos error_sound] sound_trans [OF keeps_ext_pos assms(2)] that
    by (auto simp: ext_call_def split: Option.bind_splits)
  then have "sound client w (call_on_targets params (\<lambda>client targets w. do {
      t \<leftarrow> param_token params ''label'' client;
      let (ok, w) = ext_call w;
      if \<not> ok then do {
        client \<leftarrow> lgtd_jsonrpc_send_error LGTD_JSONRPC_INTERNAL_ERROR ''Can't allocate memory'' client;
        Some (client, w)
      }
      else cmd (cstr (token_text (c_json client) t)) client targets w
    }) client w)" for params
    by (rule call_on_targets_sound [OF assms(1)])
  then show ?thesis using invalid_params_sound [OF assms(1)]
    by (auto simp: lgtd_jsonrpc_check_and_call_proto_tag_or_untag_or_set_label_def split: Option.bind_splits)
qed

lemma sound_bindp: "(\<And>x. sound client w (f x)) \<Longrightarrow> sound client w (Option.bind r f)"
  by (cases r) simp_all

lemma set_light_sound:
  assumes "wf_world w"
  shows "sound client w (lgtd_jsonrpc_check_and_call_set_light_from_hsbk client w)"
proof -
  have "sound client w (call_on_targets params (lgtd_proto_set_light_from_hsbk h s b k t) client w)" for params h s b k t
    by (rule call_on_targets_sound [OF assms]) (use run_call_sound [where call = "Set_light_from_hsbk h s b k t"] in simp)
  then show ?thesis using invalid_params_sound [OF assms]
    by (auto simp: lgtd_jsonrpc_check_and_call_set_light_from_hsbk_def intro!: sound_bindp)
qed

lemma set_waveform_sound:
  assumes "wf_world w"
  shows "sound client w (lgtd_jsonrpc_check_and_call_set_waveform client w)"
proof -
  have "sound client w (call_on_targets params (lgtd_proto_set_waveform form h s b k p c sk tr) client w)" for params form h s b k p c sk tr
    by (rule call_on_targets_sound [OF assms]) (use run_call_sound [where call = "Set_waveform form h s b k p c sk tr"] in simp)
  then show ?thesis using invalid_params_sound [OF assms]
    by (auto simp: lgtd_jsonrpc_check_and_call_set_waveform_def Let_def intro!: sound_bindp)
qed

lemma methods_sound:
  assumes "wf_world w" "(name, mth) \<in> set (methods env)"
  shows "sound client w (mth client w)"
proof -
  have cmd: "wf_world w \<Longrightarrow> sound client w (lgtd_proto_power_on client targets w)"
    "wf_world w \<Longrightarrow> sound client w (lgtd_proto_power_off client targets w)"
    "wf_world w \<Longrightarrow> sound client w (lgtd_proto_power_toggle client targets w)"
    "wf_world w \<Longrightarrow> sound client w (lgtd_proto_get_light_state env client targets w)"
    "wf_world w \<Longrightarrow> sound client w (lgtd_proto_tag label client targets w)"
    "wf_world w \<Longrightarrow> sound client w (lgtd_proto_untag label client targets w)"
    "wf_world w \<Longrightarrow> sound client w (lgtd_proto_set_label label client targets w)" for client targets w label
    using run_call_sound [where w = w and call = Power_on and env = env and client = client] run_call_sound [where w = w and call = Power_off and env = env and client = client]
      run_call_sound [where w = w and call = Power_toggle and env = env and client = client] run_call_sound [where w = w and call = Get_light_state and env = env and client = client]
      run_call_sound [where w = w and call = "Tag label" and env = env and client = client] run_call_sound [where w = w and call = "Untag label" and env = env and client = client]
      run_call_sound [where w = w and call = "Set_label label" and env = env and client = client] by simp_all
  from assms(2) show ?thesis
    by (auto simp: methods_def intro: targets_only_sound [OF assms(1)] label_method_sound [OF assms(1)] cmd
        set_light_sound [OF assms(1)] set_waveform_sound [OF assms(1)])
qed

subsection \<open>Requests\<close>

lemma prepare_next_part_io [simp]: "c_io (lgtd_jsonrpc_batch_prepare_next_part batch_sent client) = c_io client"
  by (simp add: lgtd_jsonrpc_batch_prepare_next_part_def write_string_reply split: option.splits)

lemma dispatch_error_io: "dispatch_error code msg batch_sent client = Some client' \<Longrightarrow> c_io client' = c_io client"
  by (auto simp: dispatch_error_def bind_eq_Some_conv dest!: send_error_io)

lemma dispatch_one_world:
  assumes "wf_world w" "lgtd_jsonrpc_dispatch_one env base ntokens batch_sent client w = Some (n, sent, client', w')"
  shows "wf_world w' \<and> keeps_gateways w w' \<and> c_io client' = c_io client"
proof -
  from assms(2) obtain ok request where
    r: "lgtd_jsonrpc_check_and_extract_request (c_jsmn_tokens client) base ntokens (c_json client) = Some (ok, request)"
    by (auto simp: lgtd_jsonrpc_dispatch_one_def Let_def bind_eq_Some_conv)
  show ?thesis
  proof (cases ok)
    case False
    with assms r show ?thesis
      by (auto simp: lgtd_jsonrpc_dispatch_one_def Let_def bind_eq_Some_conv dest!: dispatch_error_io)
  next
    case True
    with assms r obtain i t where t: "rq_method request = Some i" "token_at (c_jsmn_tokens client) i = Some t"
      by (auto simp: lgtd_jsonrpc_dispatch_one_def Let_def bind_eq_Some_conv)
    let ?m = "List.find (\<lambda>(name, f). int (length name) = LGTD_JSONRPC_TOKEN_LEN t \<and> name = token_text (c_json client) t)
        (methods env)"
    show ?thesis
    proof (cases ?m)
      case None
      with assms r True t show ?thesis
        by (auto simp: lgtd_jsonrpc_dispatch_one_def Let_def bind_eq_Some_conv dest!: dispatch_error_io)
    next
      case (Some nm)
      obtain name mth where nm: "nm = (name, mth)" by (cases nm)
      have "(name, mth) \<in> set (methods env)" using find_SomeD [OF Some] nm by auto
      note m = methods_sound [OF assms(1) this, unfolded sound_def, rule_format]
      from assms(2) r True t Some nm obtain c c' where
        "mth c w = Some (c', w')" "c_io c' = c_io c \<longrightarrow> c_io client' = c_io client"
        by (auto simp: lgtd_jsonrpc_dispatch_one_def Let_def bind_eq_Some_conv split: if_splits)
      with m [OF this(1)] show ?thesis by simp
    qed
  qed
qed

lemma dispatch_batch_world:
  "dispatch_batch env parsed ti batch_sent client w = Some (sent, client', w') \<Longrightarrow> wf_world w \<Longrightarrow>
     wf_world w' \<and> keeps_gateways w w' \<and> c_io client' = c_io client"
proof (induction env parsed ti batch_sent client w arbitrary: sent client' w' rule: dispatch_batch.induct)
  case (1 env parsed ti batch_sent client w)
  show ?case
  proof (cases "ti < parsed")
    case False
    with "1.prems" show ?thesis by (auto simp: dispatch_batch.simps [of env parsed ti])
  next
    case True
    with "1.prems"(1) obtain tok where tok: "token_at (c_jsmn_tokens client) ti = Some tok"
      by (auto simp: dispatch_batch.simps [of env parsed ti] bind_eq_Some_conv)
    show ?thesis
    proof (cases "lgtd_jsonrpc_type_object tok (c_json client)")
      case obj: True
      with "1.prems"(1) True tok obtain n bs c1 w1 where
        d: "lgtd_jsonrpc_dispatch_one env ti (parsed - ti) (Some batch_sent) client w = Some (n, Some bs, c1, w1)"
          "dispatch_batch env parsed (ti + n) bs c1 w1 = Some (sent, client', w')"
        by (auto simp: dispatch_batch.simps [of env parsed ti] bind_eq_Some_conv)
      from dispatch_one_world [OF "1.prems"(2) d(1)] have w1: "wf_world w1" "keeps_gateways w w1" "c_io c1 = c_io client" by simp_all
      from "1.IH"(1) [OF True tok obj d(1) refl refl refl refl d(2) w1(1)] keeps_gateways_trans [OF w1(2)] w1(3) show ?thesis by metis
    next
      case False
      let ?c = "lgtd_jsonrpc_batch_prepare_next_part (Some (batch_sent + 1)) client"
      from False "1.prems"(1) True tok obtain c1 nexti where
        d: "lgtd_jsonrpc_send_error (-32600) ''Invalid request'' ?c = Some c1"
          "skip_value (c_jsmn_tokens c1) 0 ti parsed (c_json c1) = Some nexti"
          "dispatch_batch env parsed nexti (batch_sent + 1) c1 w = Some (sent, client', w')"
        by (auto simp: dispatch_batch.simps [of env parsed ti] bind_eq_Some_conv Let_def)
      from "1.IH"(2) [OF True tok False refl refl d(1,2,3) "1.prems"(2)] send_error_io [OF d(1)] show ?thesis by simp
    qed
  qed
qed

lemma dispatch_request_world:
  assumes "wf_world w" "lgtd_jsonrpc_dispatch_request env parsed client w = Some (client', w')"
  shows "wf_world w' \<and> keeps_gateways w w' \<and> c_io client' = c_io client"
proof -
  have "w' = w \<and> c_io client' = c_io client
      \<or> (\<exists>n sent. lgtd_jsonrpc_dispatch_one env 0 parsed None client w = Some (n, sent, client', w'))
      \<or> (\<exists>sent c. dispatch_batch env parsed 1 0 client w = Some (sent, c, w') \<and> c_io client' = c_io c)"
    using assms(2)
    by (auto simp: lgtd_jsonrpc_dispatch_request_def Let_def bind_eq_Some_conv write_string_reply split: if_splits dest: send_error_io)
  then show ?thesis using assms(1) dispatch_one_world [OF assms(1)] dispatch_batch_world [OF _ assms(1)] by auto
qed

lemma read_requests_world:
  "read_requests env inp nbytes tokens client w = Some (rest, client', w') \<Longrightarrow> wf_world w \<Longrightarrow>
     wf_world w' \<and> keeps_gateways w w' \<and> c_io client' = c_io client"
proof (induction env inp nbytes tokens client w arbitrary: rest client' w' rule: read_requests.induct)
  case (1 env inp nbytes tokens client w)
  show ?case
  proof (cases "nbytes = 0 \<or> inp = []")
    case True
    with "1.prems" show ?thesis by (auto simp: read_requests.simps [of env inp nbytes tokens client w])
  next
    case False
    with "1.prems"(1) obtain rv toks where p: "parse_request (take nbytes inp) tokens = Some (rv, toks)"
      by (auto simp: read_requests.simps [of env inp nbytes tokens client w] bind_eq_Some_conv Let_def)
    note step = "1.prems"(1) [unfolded read_requests.simps [of env inp nbytes tokens client w] if_not_P [OF False] Let_def p bind.bind_lunit prod.case]
    consider (bad) "rv = JSMN_ERROR_NOMEM \<or> rv = JSMN_ERROR_INVAL"
      | (part) "\<not> (rv = JSMN_ERROR_NOMEM \<or> rv = JSMN_ERROR_INVAL)" "rv = JSMN_ERROR_PART \<or> rv = 0"
      | (ok) "\<not> (rv = JSMN_ERROR_NOMEM \<or> rv = JSMN_ERROR_INVAL)" "\<not> (rv = JSMN_ERROR_PART \<or> rv = 0)" by blast
    then show ?thesis
    proof cases
      case bad
      with step have "read_requests env (drop nbytes inp) (length (drop nbytes inp)) toks client w = Some (rest, client', w')"
        by simp
      from "1.IH"(1) [OF False refl p refl bad refl this "1.prems"(2)] show ?thesis .
    next
      case part
      from step part consider "w' = w" "client' = client"
        | "\<not> LGTD_CLIENT_MAX_REQUEST_BUF_SIZE < length inp" "\<not> length inp \<le> nbytes"
          "read_requests env inp (length inp) toks client w = Some (rest, client', w')"
        by (auto split: if_splits)
      then show ?thesis
      proof cases
        case 1
        then show ?thesis using "1.prems"(2) by simp
      next
        case 2
        from "1.IH"(2) [OF False refl p refl part 2 "1.prems"(2)] show ?thesis .
      qed
    next
      case ok
      with step obtain ts n c1 w1 where d: "toks = Some ts" "dispatch_tokens env (take nbytes inp) ts rv client w = Some (n, c1, w1)"
        "read_requests env (drop n inp) (if n < nbytes then nbytes - n else length (drop n inp)) None c1 w1 = Some (rest, client', w')"
        by (auto simp: bind_eq_Some_conv)
      from d(2) obtain c0 where
        c0: "lgtd_jsonrpc_dispatch_request env rv (client\<lparr>c_jsmn_tokens := ts, c_json := take nbytes inp\<rparr>) w = Some (c0, w1)"
          "c_io c1 = c_io c0" by (auto simp: dispatch_tokens_def bind_eq_Some_conv)
      from dispatch_request_world [OF "1.prems"(2) c0(1)] c0(2) have
        w1: "wf_world w1" "keeps_gateways w w1" "c_io c1 = c_io client" by simp_all
      from "1.IH"(3) [OF False refl p refl ok d(1,2) refl refl refl d(3) w1(1)] keeps_gateways_trans [OF w1(2)] w1(3) show ?thesis by metis
    qed
  qed
qed

text \<open>
  C3: No client can corrupt the state of the daemon: whatever bytes arrive on a connection, in whatever pieces, the world after
  the read callback satisfies the invariant again and has the same gateways, when the callback returns.
\<close>

theorem requests_keep_invariant:
  assumes "wf_world w" "lgtd_client_read_callback env inp nbytes client w = Some (rest, client', w')"
  shows "wf_world w' \<and> keeps_gateways w w'"
  using read_requests_world assms by (auto simp: lgtd_client_read_callback_def)

subsection \<open>A request from end to end\<close>

definition power_on_request :: string where
  "power_on_request = ''{\"jsonrpc\":\"2.0\",\"method\":\"power_on\",\"params\":[\"*\"],\"id\":1}''"

definition power_on_tokens :: "jsmntok_t list" where
  "power_on_tokens =
     [\<lparr>tk_type = JSMN_OBJECT, tk_start = 0, tk_end = 59, tk_size = 4, tk_parent = -1\<rparr>,
      \<lparr>tk_type = JSMN_STRING, tk_start = 2, tk_end = 9, tk_size = 1, tk_parent = 0\<rparr>,
      \<lparr>tk_type = JSMN_STRING, tk_start = 12, tk_end = 15, tk_size = 0, tk_parent = 1\<rparr>,
      \<lparr>tk_type = JSMN_STRING, tk_start = 18, tk_end = 24, tk_size = 1, tk_parent = 0\<rparr>,
      \<lparr>tk_type = JSMN_STRING, tk_start = 27, tk_end = 35, tk_size = 0, tk_parent = 3\<rparr>,
      \<lparr>tk_type = JSMN_STRING, tk_start = 38, tk_end = 44, tk_size = 1, tk_parent = 0\<rparr>,
      \<lparr>tk_type = JSMN_ARRAY, tk_start = 46, tk_end = 51, tk_size = 1, tk_parent = 5\<rparr>,
      \<lparr>tk_type = JSMN_STRING, tk_start = 48, tk_end = 49, tk_size = 0, tk_parent = 6\<rparr>,
      \<lparr>tk_type = JSMN_STRING, tk_start = 53, tk_end = 55, tk_size = 1, tk_parent = 0\<rparr>,
      \<lparr>tk_type = JSMN_PRIMITIVE, tk_start = 57, tk_end = 58, tk_size = 0, tk_parent = 8\<rparr>]"

definition power_on_parsed :: lgtd_jsonrpc_request where
  "power_on_parsed =
     \<lparr>rq_method = Some 4, rq_params = Some 6, rq_params_ntokens = 2, rq_id = Some 9, rq_request_ntokens = 10\<rparr>"

lemma power_on_parse: "parse_request power_on_request None = Some (10, Some power_on_tokens)"
  by code_simp

lemma power_on_check:
  "lgtd_jsonrpc_check_and_extract_request power_on_tokens 0 10 power_on_request = Some (True, power_on_parsed)"
  by code_simp

lemma power_on_params:
  "lgtd_jsonrpc_extract_and_validate_params_against_schema target_schema power_on_tokens (Some 6) 2 power_on_request =
     Some (True, \<lparr>out_values = [(''target'', 7)], out_ntokens = [(''target'', 1)]\<rparr>)"
  by code_simp

lemma power_on_texts:
  "token_at power_on_tokens 4 = Some (power_on_tokens ! 4)" "token_text power_on_request (power_on_tokens ! 4) = ''power_on''"
  "LGTD_JSONRPC_TOKEN_LEN (power_on_tokens ! 4) = 8"
  "token_at power_on_tokens 0 = Some (power_on_tokens ! 0)" "tk_size (power_on_tokens ! 0) = 4" "tk_end (power_on_tokens ! 0) = 59"
  "lgtd_jsonrpc_type_array (power_on_tokens ! 0) power_on_request = False"
  "lgtd_jsonrpc_type_array (power_on_tokens ! 7) power_on_request = False"
  "token_at power_on_tokens 7 = Some (power_on_tokens ! 7)" "token_text power_on_request (power_on_tokens ! 7) = ''*''"
  "lgtd_jsonrpc_type_string_or_number (power_on_tokens ! 7) power_on_request = True"
  "length power_on_request = 59"
  by code_simp+

lemma power_on_id:
  assumes "c_jsmn_tokens client = power_on_tokens" "c_json client = power_on_request" "c_current_request client = Some power_on_parsed"
  shows "id_text client = Some ''1''"
proof -
  have "(do { t \<leftarrow> token_at power_on_tokens 9;
      if tk_type t = JSMN_STRING then json_slice power_on_request (tk_start t - 1) (tk_end t + 1)
      else json_slice power_on_request (tk_start t) (tk_end t) }) = Some ''1''" by code_simp
  then show ?thesis unfolding id_text_def assms by (simp add: power_on_parsed_def)
qed

lemma power_on_spec:
  assumes "wf_world w" "w_ext w (w_ext_pos w)"
  shows "\<exists>c' w'. lgtd_client_read_callback env power_on_request (length power_on_request) client w = Some ('''', c', w')
     \<and> c_out c' = c_out (reply (response_text ''1'' ''true'') client) \<and> wf_world w'
     \<and> (\<forall>i g. find_gw i w = Some g \<longrightarrow> (\<exists>g'. find_gw i w' = Some g'
          \<and> out_queue g' = queue_packet (w_client_id w) (g_site g) LGTD_LIFX_SET_POWER_STATE (Some [0xff, 0xff]) everything (out_queue g)))"
proof -
  define c where "c = client\<lparr>c_jsmn_tokens := power_on_tokens, c_json := power_on_request, c_current_request := Some power_on_parsed\<rparr>"
  define v where "v = w\<lparr>w_ext_pos := Suc (w_ext_pos w)\<rparr>"
  have v: "wf_world v" "w_gateways v = w_gateways w" using assms(1) by (simp_all add: v_def)
  have c: "c_jsmn_tokens c = power_on_tokens" "c_json c = power_on_request" by (simp_all add: c_def)
  have id: "id_text c = Some ''1''" by (rule power_on_id) (simp_all add: c_def)
  have valid: "list_all (valid_target v) [''*'']" by (simp add: valid_target_def cstr_def)
  have one: "concat (map (packets_for v i) [''*'']) = [everything]" for i by (simp add: packets_for_def cstr_def)
  have "payload_ok LGTD_LIFX_SET_POWER_STATE (Some [0xff, 0xff])" by simp
  from router_send_spec [OF v(1) this, of "[''*'']", unfolded one] valid obtain w' where
    w': "lgtd_router_send [''*''] LGTD_LIFX_SET_POWER_STATE (Some [0xff, 0xff]) v = Some (True, w')"
      "delivers LGTD_LIFX_SET_POWER_STATE (Some [0xff, 0xff]) (\<lambda>i. [everything]) v (Some w')" by auto
  have cmd: "lgtd_proto_power_on c [''*''] v = Some (reply (response_text ''1'' ''true'') c, w')"
    by (simp add: lgtd_proto_power_on_def power_image route_and_answer_def w'(1) SEND_RESULT_eq [OF id])
  have params: "extract_params target_schema c = Some (True, \<lparr>out_values = [(''target'', 7)], out_ntokens = [(''target'', 1)]\<rparr>)"
    using power_on_params by (simp add: extract_params_def c_def power_on_parsed_def)
  have mth: "CHECK_AND_CALL_TARGETS_ONLY_METHOD lgtd_proto_power_on c w = Some (reply (response_text ''1'' ''true'') c, w')"
    using assms(2) cmd
    by (simp add: CHECK_AND_CALL_TARGETS_ONLY_METHOD_def lgtd_jsonrpc_extract_target_list_def params lgtd_jsonrpc_build_target_list_def
        param_ntokens_def c power_on_texts ext_call_def v_def [symmetric])
  have "lgtd_jsonrpc_dispatch_one env 0 10 None (client\<lparr>c_jsmn_tokens := power_on_tokens, c_json := power_on_request\<rparr>) w =
      Some (10, None, (reply (response_text ''1'' ''true'') c)\<lparr>c_current_request := None\<rparr>, w')"
    using mth
    by (simp add: lgtd_jsonrpc_dispatch_one_def power_on_check power_on_parsed_def power_on_texts methods_def
        lgtd_jsonrpc_batch_prepare_next_part_def c_def)
  then have "dispatch_tokens env power_on_request power_on_tokens 10 client w =
      Some (59, (reply (response_text ''1'' ''true'') c)\<lparr>c_current_request := None, c_json := ''''\<rparr>, w')"
    by (simp add: dispatch_tokens_def lgtd_jsonrpc_dispatch_request_def power_on_texts)
  then have "lgtd_client_read_callback env power_on_request (length power_on_request) client w =
      Some ('''', (reply (response_text ''1'' ''true'') c)\<lparr>c_current_request := None, c_json := ''''\<rparr>, w')"
    using power_on_parse power_on_texts(12)
    by (auto simp: lgtd_client_read_callback_def read_requests.simps)
  moreover have "w_client_id v = w_client_id w" by (simp add: v_def)
  ultimately show ?thesis using w'(2) v(2) by (auto simp: c_def reply_def delivers_def)
qed

text \<open>
  From the bytes of one request to the queues of the gateways: a client that sends the text to turn everything on gets, when the
  list of targets can be allocated, the response that it was done, the whole request is drained from its buffer, the invariant holds
  afterwards and every gateway has one more packet in its queue, addressed to everything with the payload for on, unless there
  are 16 messages in it.
\<close>

theorem power_on_end_to_end:
  assumes "wf_world w" "w_ext w (w_ext_pos w)"
  shows "\<exists>c' w'. lgtd_client_read_callback env power_on_request (length power_on_request) client w = Some ('''', c', w')
     \<and> c_out c' = c_out (reply (response_text ''1'' ''true'') client) \<and> wf_world w'
     \<and> (\<forall>i g. find_gw i w = Some g \<longrightarrow> (\<exists>g'. find_gw i w' = Some g'
          \<and> out_queue g' = queue_packet (w_client_id w) (g_site g) LGTD_LIFX_SET_POWER_STATE (Some [0xff, 0xff]) everything (out_queue g)))"
  by (rule power_on_spec [OF assms])

theorem requests_keep_invariant_witness:
  "\<exists>c' w'. lgtd_client_read_callback sample_env power_on_request (length power_on_request) sample_client sample_world = Some ('''', c', w')
     \<and> wf_world w' \<and> keeps_gateways sample_world w'"
proof -
  have "w_ext sample_world (w_ext_pos sample_world)" by simp
  from power_on_spec [OF wf_sample_world this, of sample_env sample_client] obtain c' w' where
    r: "lgtd_client_read_callback sample_env power_on_request (length power_on_request) sample_client sample_world = Some ('''', c', w')"
    by blast
  from requests_keep_invariant [OF wf_sample_world r] r show ?thesis by blast
qed

end
