(* ===== verification/Command_Pipe.thy ===== *)
theory Command_Pipe
  imports Listen Rpc_Inv
begin

text \<open>
  The command pipes of \<open>src/core/pipe.c\<close>: named pipes that take JSON-RPC requests and answer nothing. What the calls of
  \<open>evbuffer_read\<close> give in one run of the callback is a list from the environment, which ends like \<open>EAGAIN\<close>. A pipe is identified by
  its path: opening one that is open already does nothing. \<open>reallocarray\<close> is taken to succeed.
\<close>

subsection \<open>Requests\<close>

datatype pipe_read = Pipe_data string | Pipe_eof | Pipe_eintr | Pipe_eagain | Pipe_error

text \<open>The text that was read: requests are taken off its front; what cannot become a request is thrown away.\<close>

function pipe_requests ::
  "print_env \<Rightarrow> string \<Rightarrow> lgtd_client \<Rightarrow> lgtd_world \<Rightarrow> (string \<times> lgtd_client \<times> lgtd_world) option" where
  "pipe_requests env buf client w =
     (case parse_request buf None of
        None \<Rightarrow> None
      | Some (rv, tokens) \<Rightarrow>
          if rv = JSMN_ERROR_NOMEM \<or> rv = JSMN_ERROR_INVAL then Some ('''', client, w)
          else if rv = JSMN_ERROR_PART \<or> rv = 0
          then Some (if LGTD_CLIENT_MAX_REQUEST_BUF_SIZE \<le> length buf then '''' else buf, client, w)
          else (case tokens of
                  None \<Rightarrow> None
                | Some toks \<Rightarrow>
                    (case dispatch_tokens env buf toks rv client w of
                       None \<Rightarrow> None
                     | Some (request_size, client, w) \<Rightarrow>
                         if length buf \<le> request_size then Some (drop request_size buf, client, w)
                         else pipe_requests env (drop request_size buf) client w)))"
  by pat_completeness auto
termination
  by (relation "measure (\<lambda>(env, buf, client, w). length buf)") (auto dest!: dispatch_tokens_size)

declare pipe_requests.simps [simp del]

text \<open>The loop around \<open>evbuffer_read\<close>; the result tells whether the pipe has to be opened again.\<close>

fun pipe_read_loop ::
  "print_env \<Rightarrow> pipe_read list \<Rightarrow> lgtd_command_pipe \<Rightarrow> lgtd_world \<Rightarrow> (bool \<times> lgtd_command_pipe \<times> lgtd_world) option" where
  "pipe_read_loop env [] pipe w = Some (False, pipe, w)"
| "pipe_read_loop env (Pipe_eagain # rs) pipe w = Some (False, pipe, w)"
| "pipe_read_loop env (Pipe_eof # rs) pipe w = Some (True, pipe, w)"
| "pipe_read_loop env (Pipe_error # rs) pipe w = Some (True, pipe, w)"
| "pipe_read_loop env (Pipe_eintr # rs) pipe w = pipe_read_loop env rs pipe w"
| "pipe_read_loop env (Pipe_data s # rs) pipe w =
     do {
       (buf, client, w) \<leftarrow> pipe_requests env (cp_read_buf pipe @ s) (cp_client pipe) w;
       pipe_read_loop env rs (pipe\<lparr>cp_read_buf := buf, cp_client := client\<rparr>) w
     }"

subsection \<open>Opening and closing\<close>

definition find_pipe :: "string \<Rightarrow> lgtd_process \<Rightarrow> lgtd_command_pipe option" where
  "find_pipe path p = List.find (\<lambda>pipe. cp_path pipe = path) (pr_command_pipes p)"

text \<open>\<open>_lgtd_command_pipe_close\<close> and \<open>lgtd_command_pipe_close\<close>.\<close>

definition pipe_close :: "string \<Rightarrow> lgtd_process \<Rightarrow> lgtd_process" where
  "pipe_close path p = p\<lparr>pr_command_pipes := filter (\<lambda>pipe. cp_path pipe \<noteq> path) (pr_command_pipes p)\<rparr>"

definition lgtd_command_pipe_close :: "string \<Rightarrow> lgtd_process \<Rightarrow> lgtd_process" where
  "lgtd_command_pipe_close path p = snd (sys_unlink path (pipe_close path p))"

datatype mkfifo_result = Mkfifo_ok | Mkfifo_eexist | Mkfifo_error

definition sys_mkfifo :: "string \<Rightarrow> lgtd_process \<Rightarrow> mkfifo_result \<times> lgtd_process" where
  "sys_mkfifo path p =
     (let (ok, p) = sys_call p in
      if \<not> ok then (Mkfifo_error, p)
      else if pr_files p path \<noteq> None then (Mkfifo_eexist, p)
      else if pr_files p (dirname path) = Some Directory
      then (Mkfifo_ok, p\<lparr>pr_files := (pr_files p)(path \<mapsto> Fifo)\<rparr>) else (Mkfifo_error, p))"

text \<open>
  \<open>_lgtd_command_pipe_open\<close>. After \<open>calloc\<close>, \<open>stat\<close> and \<open>mkfifo\<close> the calls that may fail are \<open>chmod\<close>, \<open>open\<close>,
  \<open>evutil_make_socket_nonblocking\<close>, \<open>event_new\<close>, \<open>evbuffer_new\<close> and \<open>event_add\<close>. The client of the pipe is zeroed by \<open>calloc\<close>.
\<close>

definition pipe_open_new :: "string \<Rightarrow> lgtd_process \<Rightarrow> bool \<times> lgtd_process" where
  "pipe_open_new path p =
     (let (ok, p) = sys_call p in
      if \<not> ok then (False, p) else
      let (st, p) = sys_stat path p in
      if st \<noteq> Stat_enoent \<and> st \<noteq> Stat_ok Fifo then (False, p) else
      let (r, p) = sys_mkfifo path p in
      if r = Mkfifo_error then (False, p) else
      let (ok, p) = sys_calls 6 p in
      if \<not> ok then (False, p) else
      (True, p\<lparr>pr_command_pipes :=
         \<lparr>cp_path = path, cp_read_buf = '''', cp_client = lgtd_client_open_from_pipe\<rparr> # pr_command_pipes p\<rparr>))"

definition pipe_open :: "string \<Rightarrow> lgtd_process \<Rightarrow> bool \<times> lgtd_process" where
  "pipe_open path p =
     (if find_pipe path p \<noteq> None then (True, p)
      else case lgtd_daemon_makedirs path p of
             (False, p) \<Rightarrow> (False, p)
           | (True, p) \<Rightarrow> pipe_open_new path p)"

definition lgtd_command_pipe_reset :: "string \<Rightarrow> lgtd_process \<Rightarrow> lgtd_process" where
  "lgtd_command_pipe_reset path p = snd (pipe_open path (pipe_close path p))"

definition lgtd_command_pipe_open :: "string \<Rightarrow> lgtd_process \<Rightarrow> bool \<times> lgtd_process" where
  "lgtd_command_pipe_open path p = pipe_open path p"

fun close_pipes :: "string list \<Rightarrow> lgtd_process \<Rightarrow> lgtd_process" where
  "close_pipes [] p = p"
| "close_pipes (path # paths) p = close_pipes paths (lgtd_command_pipe_close path p)"

definition lgtd_command_pipe_close_all :: "lgtd_process \<Rightarrow> lgtd_process" where
  "lgtd_command_pipe_close_all p = close_pipes (map cp_path (pr_command_pipes p)) p"

definition lgtd_command_pipe_read_callback :: "print_env \<Rightarrow> pipe_read list \<Rightarrow> string \<Rightarrow> lgtd_process \<Rightarrow> lgtd_process option" where
  "lgtd_command_pipe_read_callback env reads path p =
     do {
       pipe \<leftarrow> find_pipe path p;
       (reset, pipe, w) \<leftarrow> pipe_read_loop env reads pipe (pr_world p);
       let p = p\<lparr>pr_world := w,
                 pr_command_pipes := map (\<lambda>q. if cp_path q = path then pipe else q) (pr_command_pipes p)\<rparr>;
       Some (if reset then lgtd_command_pipe_reset path p else p)
     }"

subsection \<open>Facts about requests\<close>

lemma pipe_requests_world:
  "pipe_requests env buf client w = Some (rest, client', w') \<Longrightarrow> wf_world w \<Longrightarrow>
     wf_world w' \<and> keeps_gateways w w' \<and> c_io client' = c_io client \<and> length rest < LGTD_CLIENT_MAX_REQUEST_BUF_SIZE"
proof (induction env buf client w rule: pipe_requests.induct)
  case (1 env buf client w)
  obtain rv tokens where p: "parse_request buf None = Some (rv, tokens)"
    using "1.prems"(1) by (auto simp: pipe_requests.simps [of env buf] split: option.splits)
  note step = "1.prems"(1) [unfolded pipe_requests.simps [of env buf] p option.case prod.case]
  consider (drop) "rv = -1 \<or> rv = -2" | (part) "rv = -3 \<or> rv = 0" | (ok) "\<not> (rv = -1 \<or> rv = -2)" "\<not> (rv = -3 \<or> rv = 0)" by blast
  then show ?case
  proof cases
    case drop
    then show ?thesis using step "1.prems"(2) by auto
  next
    case part
    then show ?thesis using step "1.prems"(2) by (auto split: if_splits)
  next
    case ok
    with step obtain toks n c1 w1 where d: "tokens = Some toks" "dispatch_tokens env buf toks rv client w = Some (n, c1, w1)"
        "(if length buf \<le> n then Some (drop n buf, c1, w1) else pipe_requests env (drop n buf) c1 w1) = Some (rest, client', w')"
      by (auto split: option.splits)
    from d(2) obtain c0 where
      c0: "lgtd_jsonrpc_dispatch_request env rv (client\<lparr>c_jsmn_tokens := toks, c_json := buf\<rparr>) w = Some (c0, w1)" "c_io c1 = c_io c0"
      by (auto simp: dispatch_tokens_def bind_eq_Some_conv)
    from dispatch_request_world [OF "1.prems"(2) c0(1)] c0(2) have
      w1: "wf_world w1" "keeps_gateways w w1" "c_io c1 = c_io client" by simp_all
    show ?thesis
    proof (cases "length buf \<le> n")
      case True
      then show ?thesis using d(3) w1 by auto
    next
      case False
      then have "pipe_requests env (drop n buf) c1 w1 = Some (rest, client', w')" using d(3) by simp
      from "1.IH" [OF p refl ok d(1) d(2) refl refl False this w1(1)] keeps_gateways_trans [OF w1(2)] w1(3) show ?thesis by auto
    qed
  qed
qed

lemma pipe_read_loop_world:
  "pipe_read_loop env reads pipe w = Some (reset, pipe', w') \<Longrightarrow> wf_world w \<Longrightarrow> length (cp_read_buf pipe) < LGTD_CLIENT_MAX_REQUEST_BUF_SIZE \<Longrightarrow>
     wf_world w' \<and> keeps_gateways w w' \<and> cp_path pipe' = cp_path pipe \<and> c_io (cp_client pipe') = c_io (cp_client pipe)
     \<and> length (cp_read_buf pipe') < LGTD_CLIENT_MAX_REQUEST_BUF_SIZE"
proof (induction env reads pipe w rule: pipe_read_loop.induct)
  case (6 env s rs pipe w)
  then obtain buf client w1 where r: "pipe_requests env (cp_read_buf pipe @ s) (cp_client pipe) w = Some (buf, client, w1)"
      "pipe_read_loop env rs (pipe\<lparr>cp_read_buf := buf, cp_client := client\<rparr>) w1 = Some (reset, pipe', w')"
    by (auto simp: bind_eq_Some_conv)
  note w1 = pipe_requests_world [OF r(1) "6.prems"(2)]
  from "6.IH" [OF r(1) refl refl r(2)] w1 keeps_gateways_trans [of w w1 w'] show ?case by auto
qed auto

subsection \<open>The pipes of the process\<close>

definition pipes_ok :: "lgtd_process \<Rightarrow> bool" where
  "pipes_ok p \<longleftrightarrow> distinct (map cp_path (pr_command_pipes p))
     \<and> list_all (\<lambda>pipe. \<not> c_io (cp_client pipe) \<and> length (cp_read_buf pipe) < LGTD_CLIENT_MAX_REQUEST_BUF_SIZE) (pr_command_pipes p)"

abbreviation other_pipes :: "string \<Rightarrow> lgtd_process \<Rightarrow> lgtd_command_pipe list" where
  "other_pipes path p \<equiv> filter (\<lambda>pipe. cp_path pipe \<noteq> path) (pr_command_pipes p)"

lemma find_pipe_None: "find_pipe path p = None \<longleftrightarrow> path \<notin> cp_path ` set (pr_command_pipes p)"
  by (auto simp: find_pipe_def find_None_iff)

lemma find_pipe_Some: "find_pipe path p = Some pipe \<Longrightarrow> pipe \<in> set (pr_command_pipes p) \<and> cp_path pipe = path"
  by (auto simp: find_pipe_def find_Some_iff)

lemma sys_mkfifo_path: "sys_mkfifo path p = (r, q) \<Longrightarrow> on_path path p q"
proof -
  assume c: "sys_mkfifo path p = (r, q)"
  obtain b p1 where p1: "sys_call p = (b, p1)" by fastforce
  from sys_call_path [OF p1, of path] have f: "on_path path p p1" by auto
  have "q = p1 \<or> q = p1\<lparr>pr_files := (pr_files p1)(path \<mapsto> Fifo)\<rparr>" using c p1 by (auto simp: sys_mkfifo_def split: if_splits)
  then show ?thesis using f on_path_trans [OF f on_path_update] by auto
qed

lemma sys_stat_path: "sys_stat path p = (st, q) \<Longrightarrow> on_path path p q"
  using sys_call_path [of p _ q path] by (auto simp: sys_stat_def split: prod.splits)

text \<open>Opening a pipe adds it, with nothing in its buffer, or leaves the pipes as they were.\<close>

lemma pipe_open_new_spec:
  assumes "pipe_open_new path p = (ok, q)"
  shows "\<exists>r. on_path path p r \<and> q = (if ok then r\<lparr>pr_command_pipes :=
    \<lparr>cp_path = path, cp_read_buf = '''', cp_client = lgtd_client_open_from_pipe\<rparr> # pr_command_pipes r\<rparr> else r)"
proof -
  obtain o1 p1 where p1: "sys_call p = (o1, p1)" by fastforce
  obtain st p2 where p2: "sys_stat path p1 = (st, p2)" by fastforce
  obtain r p3 where p3: "sys_mkfifo path p2 = (r, p3)" by fastforce
  obtain o4 p4 where p4: "sys_calls 6 p3 = (o4, p4)" by fastforce
  have f1: "on_path path p p1" using sys_call_path [OF p1] by simp
  have f2: "on_path path p p2" by (rule on_path_trans [OF f1 sys_stat_path [OF p2]])
  have f3: "on_path path p p3" by (rule on_path_trans [OF f2 sys_mkfifo_path [OF p3]])
  have f4: "on_path path p p4" using on_path_trans [OF f3] sys_calls_path [OF p4] by simp
  note step = assms [unfolded pipe_open_new_def Let_def p1 prod.case p2 p3 p4]
  consider "\<not> o1" | "o1" "st \<noteq> Stat_enoent \<and> st \<noteq> Stat_ok Fifo" | "o1" "st = Stat_enoent \<or> st = Stat_ok Fifo" "r = Mkfifo_error"
    | "o1" "st = Stat_enoent \<or> st = Stat_ok Fifo" "r \<noteq> Mkfifo_error" "\<not> o4"
    | "o1" "st = Stat_enoent \<or> st = Stat_ok Fifo" "r \<noteq> Mkfifo_error" "o4" by blast
  then show ?thesis
  proof cases
    case 1
    then show ?thesis using step f1 by auto
  next
    case 2
    then show ?thesis using step f2 by auto
  next
    case 3
    then show ?thesis using step f3 by auto
  next
    case 4
    then have "\<not> (st \<noteq> Stat_enoent \<and> st \<noteq> Stat_ok Fifo)" by blast
    then show ?thesis using step f4 4 by auto
  next
    case 5
    then have "\<not> (st \<noteq> Stat_enoent \<and> st \<noteq> Stat_ok Fifo)" by blast
    then show ?thesis using step f4 5 by auto
  qed
qed

lemma on_path_pipes: "on_path path p q \<Longrightarrow> pr_command_pipes q = pr_command_pipes p"
  by (auto simp: on_path_def)

lemma on_path_world: "on_path path p q \<Longrightarrow> \<exists>n. pr_world q = (pr_world p)\<lparr>w_ext_pos := n\<rparr>"
  by (auto simp: on_path_def)

lemma pipe_open_spec:
  assumes "pipe_open path p = (ok, q)"
  shows "\<exists>r. on_path path p r \<and> (q = r \<or> find_pipe path p = None \<and> q = r\<lparr>pr_command_pipes :=
    \<lparr>cp_path = path, cp_read_buf = '''', cp_client = lgtd_client_open_from_pipe\<rparr> # pr_command_pipes r\<rparr>)"
proof (cases "find_pipe path p")
  case (Some pipe)
  then show ?thesis using assms by (auto simp: pipe_open_def intro: on_path_same)
next
  case None
  obtain o1 p1 where p1: "lgtd_daemon_makedirs path p = (o1, p1)" by fastforce
  have f1: "on_path path p p1" using on_path_only_dirs [OF makedirs_only_dirs] p1 by (simp add: lgtd_daemon_makedirs_def)
  show ?thesis
  proof (cases o1)
    case True
    then have "pipe_open_new path p1 = (ok, q)" using assms None p1 by (simp add: pipe_open_def)
    from pipe_open_new_spec [OF this] obtain r where "on_path path p1 r" "q = (if ok then r\<lparr>pr_command_pipes :=
        \<lparr>cp_path = path, cp_read_buf = '''', cp_client = lgtd_client_open_from_pipe\<rparr> # pr_command_pipes r\<rparr> else r)" by blast
    then show ?thesis using on_path_trans [OF f1] None by (intro exI [of _ r]) auto
  next
    case False
    then show ?thesis using assms None p1 f1 by (auto simp: pipe_open_def)
  qed
qed

lemma pipe_open_ok:
  assumes "pipes_ok p" "pipe_open path p = (ok, q)"
  shows "pipes_ok q" "other_pipes path q = other_pipes path p" "\<exists>n. pr_world q = (pr_world p)\<lparr>w_ext_pos := n\<rparr>"
proof -
  obtain r where r: "on_path path p r" "q = r \<or> find_pipe path p = None \<and> q = r\<lparr>pr_command_pipes :=
    \<lparr>cp_path = path, cp_read_buf = '''', cp_client = lgtd_client_open_from_pipe\<rparr> # pr_command_pipes r\<rparr>"
    using pipe_open_spec [OF assms(2)] by blast
  then show "pipes_ok q" "other_pipes path q = other_pipes path p" "\<exists>n. pr_world q = (pr_world p)\<lparr>w_ext_pos := n\<rparr>"
    using assms(1) on_path_pipes [OF r(1)] on_path_world [OF r(1)] find_pipe_None [of path p]
    by (auto simp: pipes_ok_def lgtd_client_open_from_pipe_def)
qed

lemma pipe_close_ok: "pipes_ok p \<Longrightarrow> pipes_ok (pipe_close path p) \<and> other_pipes path (pipe_close path p) = other_pipes path p"
  by (auto simp: pipes_ok_def pipe_close_def list_all_iff distinct_map inj_on_def)

lemma pipe_callback_keeps:
  assumes "wf_world (pr_world p)" "pipes_ok p" "lgtd_command_pipe_read_callback env reads path p = Some q"
  shows "wf_world (pr_world q) \<and> keeps_gateways (pr_world p) (pr_world q) \<and> pipes_ok q \<and> other_pipes path q = other_pipes path p"
proof -
  obtain pipe reset pipe' w where r: "find_pipe path p = Some pipe" "pipe_read_loop env reads pipe (pr_world p) = Some (reset, pipe', w)"
      "q = (let p = p\<lparr>pr_world := w, pr_command_pipes := map (\<lambda>q. if cp_path q = path then pipe' else q) (pr_command_pipes p)\<rparr>
            in if reset then lgtd_command_pipe_reset path p else p)"
    using assms(3) by (auto simp: lgtd_command_pipe_read_callback_def bind_eq_Some_conv Let_def)
  define p1 where "p1 = p\<lparr>pr_world := w, pr_command_pipes := map (\<lambda>q. if cp_path q = path then pipe' else q) (pr_command_pipes p)\<rparr>"
  note pipe = find_pipe_Some [OF r(1)]
  then have pb: "\<not> c_io (cp_client pipe)" "length (cp_read_buf pipe) < LGTD_CLIENT_MAX_REQUEST_BUF_SIZE"
    using assms(2) by (auto simp: pipes_ok_def list_all_iff)
  note w = pipe_read_loop_world [OF r(2) assms(1) pb(2)]
  have paths: "map cp_path (pr_command_pipes p1) = map cp_path (pr_command_pipes p)" using w pipe by (auto simp: p1_def)
  have "list_all (\<lambda>pipe. \<not> c_io (cp_client pipe) \<and> length (cp_read_buf pipe) < LGTD_CLIENT_MAX_REQUEST_BUF_SIZE) (pr_command_pipes p1)"
    using assms(2) w pb by (auto simp: pipes_ok_def p1_def list_all_iff)
  then have ok1: "pipes_ok p1" using assms(2) unfolding pipes_ok_def paths by simp
  have same1: "other_pipes path p1 = other_pipes path p"
    using w pipe by (auto simp: p1_def filter_map o_def intro!: map_idI cong: filter_cong)
  note p1 = ok1 same1
  show ?thesis
  proof (cases reset)
    case True
    obtain ok q1 where q1: "pipe_open path (pipe_close path p1) = (ok, q1)" by fastforce
    then have q: "q = q1" using r(3) True by (simp add: p1_def [symmetric] lgtd_command_pipe_reset_def)
    from pipe_open_ok [OF _ q1] pipe_close_ok [OF p1(1), of path] p1(2) obtain n where
      "pipes_ok q" "other_pipes path q = other_pipes path p" "pr_world q = w\<lparr>w_ext_pos := n\<rparr>"
      unfolding q by (auto simp: p1_def pipe_close_def)
    moreover have "keeps_gateways (pr_world p) (w\<lparr>w_ext_pos := n\<rparr>)" using w by (simp add: keeps_gateways_def steady_def)
    ultimately show ?thesis using w by simp
  next
    case False
    then have "q = p1" using r(3) by (simp add: p1_def)
    then show ?thesis using p1 w by (simp add: p1_def)
  qed
qed

text \<open>
  C19: whatever arrives on a command pipe, in whatever pieces, with whatever errors: when the callback returns the devices satisfy
  their invariant and have the same gateways, less than a full buffer of text is kept for the next run, the pipe still answers
  nobody, and the other pipes are as they were.
\<close>

theorem command_pipe_keeps_invariant:
  assumes "wf_world (pr_world p)" "pipes_ok p" "lgtd_command_pipe_read_callback env reads path p = Some q"
  shows "wf_world (pr_world q) \<and> keeps_gateways (pr_world p) (pr_world q) \<and> pipes_ok q \<and> other_pipes path q = other_pipes path p"
  by (rule pipe_callback_keeps [OF assms])

text \<open>
  When the other end of a command pipe is closed, the pipe is opened again: it is still among the pipes, once, with an empty
  buffer and a fresh client, and the named pipe is still there, if the system allows it.
\<close>

theorem command_pipe_reopens_on_eof:
  assumes "find_pipe path p = Some pipe" "pr_files p path = Some Fifo" "\<forall>n. w_ext (pr_world p) n"
    and "lgtd_daemon_makedirs path (pipe_close path p) = (True, p1)"
  shows "\<exists>q. lgtd_command_pipe_read_callback env [Pipe_eof] path p = Some q \<and> pr_files q path = Some Fifo
    \<and> pr_command_pipes q = \<lparr>cp_path = path, cp_read_buf = '''', cp_client = lgtd_client_open_from_pipe\<rparr> # other_pipes path p"
proof -
  have od: "only_dirs path (pipe_close path p) p1" using makedirs_only_dirs assms(4) by (simp add: lgtd_daemon_makedirs_def)
  have f1: "pr_files p1 path = Some Fifo" using only_dirs_keeps [OF od, of path Fifo] assms(2) by (simp add: pipe_close_def)
  have p1: "w_ext (pr_world p1) = w_ext (pr_world p)" "pr_command_pipes p1 = other_pipes path p"
    using on_path_rest(3) [OF on_path_only_dirs [OF od]] on_path_pipes [OF on_path_only_dirs [OF od]] by (auto simp: pipe_close_def)
  have ok: "sys_call x = (True, x\<lparr>pr_world := (pr_world x)\<lparr>w_ext_pos := Suc (w_ext_pos (pr_world x))\<rparr>\<rparr>)"
    if "w_ext (pr_world x) = w_ext (pr_world p)" for x using assms(3) that by (simp add: sys_call_eq)
  have "\<exists>q. pipe_open_new path p1 = (True, q) \<and> pr_files q path = Some Fifo
      \<and> pr_command_pipes q = \<lparr>cp_path = path, cp_read_buf = '''', cp_client = lgtd_client_open_from_pipe\<rparr> # other_pipes path p"
    using f1 p1 by (simp add: pipe_open_new_def numeral_eq_Suc ok sys_stat_def sys_mkfifo_def)
  then obtain q where q: "pipe_open_new path p1 = (True, q)" "pr_files q path = Some Fifo"
    "pr_command_pipes q = \<lparr>cp_path = path, cp_read_buf = '''', cp_client = lgtd_client_open_from_pipe\<rparr> # other_pipes path p" by blast
  have close: "find_pipe path (pipe_close path p) = None" by (auto simp: find_pipe_None pipe_close_def)
  have "lgtd_command_pipe_read_callback env [Pipe_eof] path p =
      Some (lgtd_command_pipe_reset path (p\<lparr>pr_command_pipes := map (\<lambda>q. if cp_path q = path then pipe else q) (pr_command_pipes p)\<rparr>))"
    using assms(1) by (simp add: lgtd_command_pipe_read_callback_def)
  moreover have "pipe_close path (p\<lparr>pr_command_pipes := map (\<lambda>q. if cp_path q = path then pipe else q) (pr_command_pipes p)\<rparr>) = pipe_close path p"
  proof -
    have "filter (\<lambda>q. cp_path q \<noteq> path) (map (\<lambda>q. if cp_path q = path then pipe else q) (pr_command_pipes p)) = other_pipes path p"
      using find_pipe_Some [OF assms(1)] by (auto simp: filter_map o_def intro!: map_idI cong: filter_cong)
    then show ?thesis by (simp add: pipe_close_def)
  qed
  ultimately show ?thesis using q close assms(4) by (simp add: lgtd_command_pipe_reset_def pipe_open_def)
qed

subsection \<open>Examples\<close>

definition piping_process :: lgtd_process where
  "piping_process = sample_process\<lparr>
     pr_files := (pr_files sample_process)(''/run/p'' \<mapsto> Fifo),
     pr_command_pipes := [\<lparr>cp_path = ''/run/p'', cp_read_buf = '''', cp_client = lgtd_client_open_from_pipe\<rparr>],
     pr_world := sample_world\<lparr>w_ext := (\<lambda>n. True)\<rparr>\<rparr>"

lemma piping_process_ok: "wf_world (pr_world piping_process)" "pipes_ok piping_process"
  using wf_sample_world by (simp_all add: piping_process_def pipes_ok_def lgtd_client_open_from_pipe_def)

theorem command_pipe_keeps_invariant_witness:
  "\<exists>q. lgtd_command_pipe_read_callback sample_env [Pipe_eintr, Pipe_data ''{\"jsonrpc'', Pipe_eagain] ''/run/p'' piping_process = Some q
    \<and> wf_world (pr_world q) \<and> pipes_ok q"
proof -
  have "map_option (\<lambda>(rest, client, w). rest) (pipe_requests sample_env ''{\"jsonrpc'' lgtd_client_open_from_pipe (pr_world piping_process)) = Some ''{\"jsonrpc''"
    by code_simp
  then obtain c w where "pipe_requests sample_env ''{\"jsonrpc'' lgtd_client_open_from_pipe (pr_world piping_process) = Some (''{\"jsonrpc'', c, w)" by auto
  then obtain q where q: "lgtd_command_pipe_read_callback sample_env [Pipe_eintr, Pipe_data ''{\"jsonrpc'', Pipe_eagain] ''/run/p'' piping_process = Some q"
    by (simp add: lgtd_command_pipe_read_callback_def find_pipe_def piping_process_def)
  from command_pipe_keeps_invariant [OF piping_process_ok q] q show ?thesis by blast
qed

theorem command_pipe_reopens_on_eof_witness:
  "\<exists>q. lgtd_command_pipe_read_callback sample_env [Pipe_eof] ''/run/p'' piping_process = Some q \<and> pr_files q ''/run/p'' = Some Fifo
    \<and> pr_command_pipes q = [\<lparr>cp_path = ''/run/p'', cp_read_buf = '''', cp_client = lgtd_client_open_from_pipe\<rparr>]"
proof -
  obtain ok p1 where p1: "lgtd_daemon_makedirs ''/run/p'' (pipe_close ''/run/p'' piping_process) = (ok, p1)" by fastforce
  have "fst (lgtd_daemon_makedirs ''/run/p'' (pipe_close ''/run/p'' piping_process))" by code_simp
  with p1 show ?thesis
    using command_pipe_reopens_on_eof [of "''/run/p''" piping_process _ p1 sample_env] by (simp add: find_pipe_def piping_process_def)
qed

end
