(* ===== verification/Discovery.thy ===== *)
theory Discovery
  imports Gateway
begin

text \<open>
  Discovery of the gateways: the broadcast socket (\<open>src/lifx/broadcast.c\<close>), the timers that broadcast discovery
  packets and the watchdog that drops silent devices (\<open>src/lifx/discovery.c\<close>). What the kernel answers
  (\<open>getifaddrs\<close>, \<open>sendto\<close>, \<open>recvfrom\<close>) is an input.
\<close>

subsection \<open>The broadcast socket\<close>

definition lgtd_lifx_broadcast_close :: "lgtd_world \<Rightarrow> lgtd_world" where
  "lgtd_lifx_broadcast_close w =
     w\<lparr>w_broadcast_endpoint := \<lparr>ep_socket = False, ep_read_ev = False, ep_write_ev = False\<rparr>\<rparr>"

text \<open>
  The calls that may fail are, in order: \<open>socket\<close>, \<open>setsockopt\<close>, \<open>evutil_make_listen_socket_reuseable\<close>,
  \<open>evutil_make_socket_nonblocking\<close>, \<open>bind\<close>, both \<open>event_new\<close> and \<open>event_add\<close>.
\<close>

definition lgtd_lifx_broadcast_setup :: "lgtd_world \<Rightarrow> (bool \<times> lgtd_world) option" where
  "lgtd_lifx_broadcast_setup w =
     do {
       c_assert (\<not> ep_socket (w_broadcast_endpoint w));
       c_assert (\<not> ep_read_ev (w_broadcast_endpoint w));
       c_assert (\<not> ep_write_ev (w_broadcast_endpoint w));
       let (socket_ok, w) = ext_call w;
       if \<not> socket_ok then Some (False, w) else do {
       let (broadcast_ok, w) = ext_call w;
       if \<not> broadcast_ok then Some (False, lgtd_lifx_broadcast_close w) else do {
       let (reuseable_ok, w) = ext_call w;
       if \<not> reuseable_ok then Some (False, lgtd_lifx_broadcast_close w) else do {
       let (nonblocking_ok, w) = ext_call w;
       if \<not> nonblocking_ok then Some (False, lgtd_lifx_broadcast_close w) else do {
       let (bind_ok, w) = ext_call w;
       if \<not> bind_ok then Some (False, lgtd_lifx_broadcast_close w) else do {
       let (read_ok, w) = ext_call w;
       let (write_ok, w) = ext_call w;
       if \<not> read_ok \<or> \<not> write_ok then Some (False, lgtd_lifx_broadcast_close w) else do {
       let (add_ok, w) = ext_call w;
       if \<not> add_ok then Some (False, lgtd_lifx_broadcast_close w)
       else Some (True, w\<lparr>w_broadcast_endpoint := \<lparr>ep_socket = True, ep_read_ev = True, ep_write_ev = True\<rparr>\<rparr>)
       }}}}}}
     }"

text \<open>
  The results of the successive calls to \<open>sendto\<close>: interrupted, or the number of bytes sent (-1 for an error). The
  loop ends at the first call that was not interrupted.
\<close>

datatype sendto_result = Send_interrupted | Send_bytes int

fun lgtd_lifx_broadcast_send_packet :: "int \<Rightarrow> sendto_result list \<Rightarrow> (bool \<times> sendto_result list) option" where
  "lgtd_lifx_broadcast_send_packet pkt_sz [] = None"
| "lgtd_lifx_broadcast_send_packet pkt_sz (Send_interrupted # rs) = lgtd_lifx_broadcast_send_packet pkt_sz rs"
| "lgtd_lifx_broadcast_send_packet pkt_sz (Send_bytes nbytes # rs) = Some (nbytes = pkt_sz, rs)"

text \<open>An interface: its broadcast address if it has one, with its family, its flags and whether it has a netmask.\<close>

record ifaddrs =
  ifa_broadaddr :: "(bool \<times> bytes) option"
  ifa_broadcast :: bool
  ifa_netmask :: bool

definition broadcast_target :: "ifaddrs \<Rightarrow> bytes option" where
  "broadcast_target ifa =
     (case ifa_broadaddr ifa of
        Some (af_inet, addr) \<Rightarrow> if ifa_broadcast ifa \<and> af_inet \<and> ifa_netmask ifa then Some addr else None
      | None \<Rightarrow> None)"

fun broadcast_on :: "ifaddrs list \<Rightarrow> bool \<Rightarrow> sendto_result list \<Rightarrow> (bool \<times> sendto_result list) option" where
  "broadcast_on [] ok rs = Some (ok, rs)"
| "broadcast_on (ifa # ifaddrs) ok rs =
     (case broadcast_target ifa of
        None \<Rightarrow> broadcast_on ifaddrs ok rs
      | Some addr \<Rightarrow> do {
          (sent, rs) \<leftarrow> lgtd_lifx_broadcast_send_packet (int LGTD_LIFX_PACKET_HEADER_SIZE) rs;
          broadcast_on ifaddrs (sent \<or> ok) rs
        })"

text \<open>\<open>interfaces\<close> is \<open>None\<close> when \<open>getifaddrs\<close> fails: the packet then goes to \<open>INADDR_BROADCAST\<close>.\<close>

definition lgtd_lifx_broadcast_handle_write ::
  "ifaddrs list option \<Rightarrow> sendto_result list \<Rightarrow> lgtd_world \<Rightarrow> (bool \<times> lgtd_world) option" where
  "lgtd_lifx_broadcast_handle_write interfaces rs w =
     do {
       c_assert (ep_socket (w_broadcast_endpoint w));
       (pkt_info, get_pan_gateway) \<leftarrow> lgtd_lifx_wire_setup_header (w_be w) (w_client_id w)
          LGTD_LIFX_TARGET_ALL_DEVICES LGTD_LIFX_UNSPEC_TARGET None LGTD_LIFX_GET_PAN_GATEWAY;
       (ok, rs) \<leftarrow> (case interfaces of
                     None \<Rightarrow> lgtd_lifx_broadcast_send_packet (int LGTD_LIFX_PACKET_HEADER_SIZE) rs
                   | Some ifaddrs \<Rightarrow> broadcast_on ifaddrs False rs);
       if ok then do {
         let (del_ok, w) = ext_call w;
         Some (True, if del_ok then w else lgtd_err 1 w)
       }
       else Some (False, w)
     }"

definition broadcast_error_reset :: "lgtd_world \<Rightarrow> lgtd_world option" where
  "broadcast_error_reset w =
     do {
       (ok, w) \<leftarrow> lgtd_lifx_broadcast_setup (lgtd_lifx_broadcast_close w);
       Some w
     }"

definition lgtd_lifx_broadcast_event_callback ::
  "bool \<Rightarrow> bool \<Rightarrow> bool \<Rightarrow> recv_result list \<Rightarrow> ifaddrs list option \<Rightarrow> sendto_result list \<Rightarrow> lgtd_world
   \<Rightarrow> lgtd_world option" where
  "lgtd_lifx_broadcast_event_callback ev_timeout ev_read ev_write recvs interfaces sends w =
     (if ev_timeout then broadcast_error_reset w
      else do {
        (ok, w) \<leftarrow> (if ev_read then lgtd_lifx_wire_handle_receive None recvs w else Some (True, w));
        if w_exit w \<noteq> None then Some w
        else if \<not> ok then broadcast_error_reset w
        else do {
          (ok, w) \<leftarrow> (if ev_write then lgtd_lifx_broadcast_handle_write interfaces sends w else Some (True, w));
          if w_exit w \<noteq> None then Some w
          else if \<not> ok then broadcast_error_reset w
          else Some w
        }
      })"

subsection \<open>Timers of the discovery\<close>

abbreviation (input) LGTD_LIFX_DISCOVERY_DEVICE_TIMEOUT_MSECS :: int where
  "LGTD_LIFX_DISCOVERY_DEVICE_TIMEOUT_MSECS \<equiv> 20000"
abbreviation (input) LGTD_LIFX_DISCOVERY_DEVICE_FORCE_REFRESH_MSECS :: int where
  "LGTD_LIFX_DISCOVERY_DEVICE_FORCE_REFRESH_MSECS \<equiv> 2000"
abbreviation (input) LGTD_LIFX_DISCOVERY_ACTIVE_DISCOVERY_INTERVAL_MSECS :: int where
  "LGTD_LIFX_DISCOVERY_ACTIVE_DISCOVERY_INTERVAL_MSECS \<equiv> 2000"
abbreviation (input) LGTD_LIFX_DISCOVERY_PASSIVE_DISCOVERY_INTERVAL_MSECS :: int where
  "LGTD_LIFX_DISCOVERY_PASSIVE_DISCOVERY_INTERVAL_MSECS \<equiv> 10000"

definition lgtd_lifx_discovery_timeout_event_callback :: "lgtd_world \<Rightarrow> lgtd_world option" where
  "lgtd_lifx_discovery_timeout_event_callback w =
     do {
       let timeout = (if w_gateways w = [] then LGTD_LIFX_DISCOVERY_ACTIVE_DISCOVERY_INTERVAL_MSECS
                      else min (w_discovery_timeout w * 2) LGTD_LIFX_DISCOVERY_PASSIVE_DISCOVERY_INTERVAL_MSECS);
       let (add_ok, w) = ext_call (w\<lparr>w_discovery_timeout := timeout\<rparr>);
       if \<not> add_ok then Some (lgtd_err 1 w)
       else do {
         (ok, w) \<leftarrow> lgtd_lifx_broadcast_discovery w;
         Some (if ok then w else lgtd_err 1 w)
       }
     }"

text \<open>A difference of two times read as an \<open>int\<close>.\<close>

definition lag :: "lgtd_time_mono_t \<Rightarrow> lgtd_time_mono_t \<Rightarrow> int" where
  "lag now t = sint (ucast (now - t) :: u32)"

definition lgtd_lifx_gateway_msecs_since_last_update ::
  "lgtd_lifx_gateway \<Rightarrow> lgtd_world \<Rightarrow> lgtd_time_mono_t \<times> lgtd_world" where
  "lgtd_lifx_gateway_msecs_since_last_update gw w =
     (let (now, w) = lgtd_time_monotonic_msecs w in (now - g_last_pkt_at gw, w))"

text \<open>The watchdog: one round for a bulb, one for a gateway. The flag is \<open>start_discovery\<close>.\<close>

definition watch_bulb :: "lgtd_time_mono_t \<Rightarrow> bulb_addr \<Rightarrow> bool \<times> lgtd_world \<Rightarrow> (bool \<times> lgtd_world) option" where
  "watch_bulb now bulb s =
     (case s of (start_discovery, w) \<Rightarrow>
      do {
        b \<leftarrow> find_bulb bulb w;
        if LGTD_LIFX_DISCOVERY_DEVICE_TIMEOUT_MSECS \<le> lag now (b_last_light_state_at b)
        then do {
          w \<leftarrow> lgtd_lifx_gateway_remove_and_close_bulb (b_gw b) bulb w;
          Some (True, w)
        }
        else Some (start_discovery, w)
      })"

definition watch_gateway :: "gw_ptr \<Rightarrow> bool \<times> lgtd_world \<Rightarrow> (bool \<times> lgtd_world) option" where
  "watch_gateway gw s =
     (case s of (start_discovery, w) \<Rightarrow>
      do {
        g \<leftarrow> find_gw gw w;
        let (since, w) = lgtd_lifx_gateway_msecs_since_last_update g w;
        let gw_lag = lag since 0;
        if LGTD_LIFX_DISCOVERY_DEVICE_TIMEOUT_MSECS \<le> gw_lag
        then do {
          w \<leftarrow> lgtd_lifx_gateway_close gw w;
          Some (True, w)
        }
        else if LGTD_LIFX_DISCOVERY_DEVICE_FORCE_REFRESH_MSECS \<le> gw_lag
        then do {
          w \<leftarrow> lgtd_lifx_gateway_force_refresh gw w;
          Some (start_discovery, w)
        }
        else Some (start_discovery, w)
      })"

definition lgtd_lifx_discovery_watchdog_interval_callback :: "lgtd_world \<Rightarrow> lgtd_world option" where
  "lgtd_lifx_discovery_watchdog_interval_callback w =
     do {
       let (now, w) = lgtd_time_monotonic_msecs w;
       (start_discovery, w) \<leftarrow> foreach (watch_bulb now) (map fst (w_bulbs w)) (False, w);
       (start_discovery, w) \<leftarrow> foreach watch_gateway (map fst (w_gateways w)) (start_discovery, w);
       if start_discovery
       then do {
         (ok, w) \<leftarrow> lgtd_lifx_broadcast_discovery w;
         Some w
       }
       else Some w
     }"

text \<open>\<open>pending\<close> is what \<open>evtimer_pending\<close> answers.\<close>

definition lgtd_lifx_discovery_start :: "bool \<Rightarrow> lgtd_world \<Rightarrow> lgtd_world option" where
  "lgtd_lifx_discovery_start pending w =
     do {
       c_assert (\<not> pending);
       lgtd_lifx_discovery_timeout_event_callback
         (w\<lparr>w_discovery_timeout := LGTD_LIFX_DISCOVERY_ACTIVE_DISCOVERY_INTERVAL_MSECS\<rparr>)
     }"

text \<open>The two events, whether they exist.\<close>

record lgtd_discovery_events =
  dv_timeout_ev :: bool
  dv_watchdog_ev :: bool

definition lgtd_lifx_discovery_close :: "lgtd_discovery_events \<Rightarrow> lgtd_discovery_events" where
  "lgtd_lifx_discovery_close ev =
     (let ev = (if dv_timeout_ev ev then ev\<lparr>dv_timeout_ev := False\<rparr> else ev)
      in if dv_watchdog_ev ev then ev\<lparr>dv_watchdog_ev := False\<rparr> else ev)"

definition lgtd_lifx_discovery_setup ::
  "lgtd_discovery_events \<Rightarrow> lgtd_world \<Rightarrow> (bool \<times> lgtd_discovery_events \<times> lgtd_world) option" where
  "lgtd_lifx_discovery_setup ev w =
     do {
       c_assert (\<not> dv_watchdog_ev ev);
       c_assert (\<not> dv_timeout_ev ev);
       let (timeout_ok, w) = ext_call w;
       let (watchdog_ok, w) = ext_call w;
       let ev = \<lparr>dv_timeout_ev = timeout_ok, dv_watchdog_ev = watchdog_ok\<rparr>;
       if timeout_ok \<and> watchdog_ok then Some (True, ev, w)
       else Some (False, lgtd_lifx_discovery_close ev, w)
     }"

end
