(* ===== verification/Discovery_Inv.thy ===== *)
theory Discovery_Inv
  imports Gateway_Inv Discovery Sample_World
begin

text \<open>
  The timers of gateways and bulbs, the watchdog and the broadcast socket keep the invariant of the world; and the
  watchdog drops exactly the devices that have been silent for too long.
\<close>

subsection \<open>Timers of gateways and bulbs\<close>

lemma refresh_callback_keeps:
  assumes "wf_world w" "find_gw gw w = Some g"
  shows "keeps w (lgtd_lifx_gateway_refresh_callback gw w)"
proof -
  from send_get_all_light_state_keeps [OF assms] obtain w1 where
    w1: "send_get_all_light_state gw w = Some w1" "wf_world w1" "same_devices w w1" by blast
  from same_devices_gw [OF w1(3) assms(2)] obtain g1 where "find_gw gw w1 = Some g1" by blast
  with refresh_timer_ok(1) [OF w1(2) this] w1 same_devices_trans [OF w1(3)] show ?thesis
    by (intro keepsI) (auto simp: lgtd_lifx_gateway_refresh_callback_def)
qed

lemma stop_fetch_timer:
  assumes "wf_world w" "timer_callback w p = Some (Fetch_hardware_info a)"
  shows "\<exists>w'. lgtd_timer_stop p w = Some w' \<and> wf_world w' \<and> keeps_gateways w w'"
proof -
  let ?w = "w\<lparr>w_timers := adel p (w_timers w)\<rparr>"
  note d = wf_worldD [OF assms(1)]
  obtain t where t: "map_of (w_timers w) p = Some t" using assms(2) by (auto simp: timer_callback_def)
  have cb: "timer_callback ?w q = (if q = p then None else timer_callback w q)" for q
    by (simp add: timer_callback_def)
  have gt: "gw_timer ?w = gw_timer w" by (simp add: gw_timer_def fun_eq_iff)
  have "inv_timers ?w" unfolding inv_timers_def cb gt
    using d(7) assms(2) by (auto simp: inv_timers_def set_adel)
  then have "wf_world ?w" by (rule wf_world_set_timers [OF assms(1)])
  then show ?thesis using t by (simp add: lgtd_timer_stop_def keeps_gateways_def steady_def)
qed

lemma RESEND_IF_wf:
  assumes "wf_world w" "find_bulb a w = Some b" "payload_ok ptype None" "ptype \<noteq> LGTD_LIFX_SET_POWER_STATE"
  shows "\<exists>s w'. RESEND_IF test ptype a stop w = Some (s, w') \<and> wf_world w' \<and> same_devices w w' \<and> w_timers w' = w_timers w"
proof -
  obtain g where "sendable w a b g" using wf_world_sendable [OF assms(1,2)] by blast
  from send_to_device_ok [OF this assms(3,4)] send_to_device_wf [OF assms(1-3)] assms(4) obtain g' where
    "lgtd_router_send_to_device a ptype None w = Some (upd_gw (b_gw b) g' w)"
    "wf_world (upd_gw (b_gw b) g' w)" "same_devices w (upd_gw (b_gw b) g' w)" by auto
  then show ?thesis using assms(1) by (auto simp: RESEND_IF_def)
qed

lemma fetch_hardware_info_keeps:
  assumes "wf_world w" "timer_callback w p = Some (Fetch_hardware_info a)"
  shows "keeps w (lgtd_lifx_bulb_fetch_hardware_info p a w)"
proof -
  have nz: "list_ex (\<lambda>x. x \<noteq> 0) a" using wf_worldD(7) [OF assms(1)] assms(2) unfolding inv_timers_def by blast
  show ?thesis
  proof (cases "find_bulb a w")
    case None
    then show ?thesis using stop_fetch_timer [OF assms] nz by (simp add: lgtd_lifx_bulb_fetch_hardware_info_def keeps_def)
  next
    case (Some b)
    obtain s1 w1 where w1: "RESEND_IF (pr_vendor_id (b_product_info b) = 0) LGTD_LIFX_GET_VERSION a True w = Some (s1, w1)"
      "wf_world w1" "same_devices w w1" "w_timers w1 = w_timers w"
      using RESEND_IF_wf [OF assms(1) Some, of LGTD_LIFX_GET_VERSION "pr_vendor_id (b_product_info b) = 0" True] by auto
    obtain b1 where "find_bulb a w1 = Some b1" using same_devices_bulb [OF w1(3) Some] by blast
    with RESEND_IF_wf [OF w1(2) this, of LGTD_LIFX_GET_MESH_FIRMWARE
        "fw_version (ip_fw_info (b_ips b LGTD_LIFX_BULB_MCU_IP)) = 0" s1] obtain s2 w2 where
      w2: "RESEND_IF (fw_version (ip_fw_info (b_ips b LGTD_LIFX_BULB_MCU_IP)) = 0) LGTD_LIFX_GET_MESH_FIRMWARE a s1 w1 = Some (s2, w2)"
        "wf_world w2" "same_devices w1 w2" "w_timers w2 = w_timers w1" by auto
    have s02: "same_devices w w2" by (rule same_devices_trans [OF w1(3) w2(3)])
    define w2' where "w2' = w2\<lparr>w_clock_pos := Suc (w_clock_pos w2)\<rparr>"
    obtain b2 where b2: "find_bulb a w2' = Some b2" using same_devices_bulb [OF s02 Some] by (auto simp: w2'_def)
    have wf2': "wf_world w2'" using w2(2) by (simp add: w2'_def)
    define r where "r = (if fw_version (ip_fw_info (b_ips b LGTD_LIFX_BULB_WIFI_IP)) = 0
        then (let (now, w) = lgtd_time_monotonic_msecs w2
              in RESEND_IF (now - ip_state_updated_at (b_ips b LGTD_LIFX_BULB_MCU_IP) < 20000)
                   LGTD_LIFX_GET_WIFI_FIRMWARE_STATE a s2 w)
        else Some (s2, w2))"
    have "\<exists>s3 w3. r = Some (s3, w3) \<and> wf_world w3 \<and> same_devices w w3 \<and> w_timers w3 = w_timers w"
    proof (cases "fw_version (ip_fw_info (b_ips b LGTD_LIFX_BULB_WIFI_IP)) = 0")
      case False
      then show ?thesis using w2 w1 s02 by (simp add: r_def)
    next
      case True
      obtain s3 w3 where "r = Some (s3, w3)" "wf_world w3" "same_devices w2' w3" "w_timers w3 = w_timers w2'"
        using RESEND_IF_wf [OF wf2' b2, of LGTD_LIFX_GET_WIFI_FIRMWARE_STATE
          "fst (lgtd_time_monotonic_msecs w2) - ip_state_updated_at (b_ips b LGTD_LIFX_BULB_MCU_IP) < 20000" s2] True
        by (auto simp: r_def lgtd_time_monotonic_msecs_def w2'_def)
      moreover have "same_devices w w2'" using s02 by (simp add: w2'_def)
      ultimately show ?thesis using same_devices_trans [of w w2' w3] w1(4) w2(4) by (auto simp: w2'_def)
    qed
    then obtain s3 w3 where w3: "r = Some (s3, w3)" "wf_world w3" "same_devices w w3" "w_timers w3 = w_timers w" by blast
    have "keeps w3 (if s3 then lgtd_timer_stop p w3 else Some w3)"
      using stop_fetch_timer [OF w3(2), of p a] assms(2) w3(2,4) by (auto simp: keeps_def timer_callback_def)
    then have "keeps w (if s3 then lgtd_timer_stop p w3 else Some w3)"
      using keeps_gateways_trans [OF same_devices_keeps [OF w3(3)]] by (auto simp: keeps_def)
    moreover have "lgtd_lifx_bulb_fetch_hardware_info p a w = (if s3 then lgtd_timer_stop p w3 else Some w3)"
      using nz Some w1(1) w2(1) w3(1) by (simp add: lgtd_lifx_bulb_fetch_hardware_info_def flip: r_def)
    ultimately show ?thesis by simp
  qed
qed

subsection \<open>The watchdog\<close>

lemma closed_bulb_wf_world:
  assumes "wf_world w" "find_gw gw w = Some g" "wf_bulbs (closed_bulb gw a w refs st)" "length refs = 64"
    and "st_gateways st = st_gateways (w_stats w)" "st_clients st = st_clients (w_stats w)"
  shows "wf_world (closed_bulb gw a w refs st)" (is "wf_world ?w")
proof -
  note d = wf_worldD [OF assms(1)] and d' = wf_bulbsD [OF assms(3)]
  have gws: "find_gw i ?w = (if i = gw then Some (g\<lparr>g_tag_refcounts := refs, g_bulbs := remove1 a (g_bulbs g)\<rparr>) else find_gw i w)" for i
    using assms(2) by (simp add: closed_bulb_def)
  have "has_site ?w = has_site w" "wf_tags ?w = wf_tags w" by (simp_all add: closed_bulb_def)
  then have "inv_tags ?w" using d(5) assms(2) unfolding inv_tags_def gws by auto
  moreover have "inv_stats ?w" using d(6) d'(5) assms(5,6) by (simp add: inv_stats_def inv_counts_def closed_bulb_def)
  moreover have "inv_timers ?w" using gws assms(2)
    by (intro inv_timers_cong [OF d(7)]) (auto simp: timer_callback_def gw_timer_def closed_bulb_def fun_eq_iff)
  ultimately show ?thesis using d' by (intro wf_worldI)
qed

lemma remove_and_close_bulb_wf:
  assumes "wf_world w" "find_bulb a w = Some b"
  shows "\<exists>w'. lgtd_lifx_gateway_remove_and_close_bulb (b_gw b) a w = Some w' \<and> wf_world w' \<and> keeps_gateways w w'
     \<and> w_bulbs w' = adel a (w_bulbs w) \<and> w_clock_pos w' = w_clock_pos w
     \<and> (\<forall>i. map_option g_last_pkt_at (find_gw i w') = map_option g_last_pkt_at (find_gw i w))"
proof -
  obtain g where g: "find_gw (b_gw b) w = Some g" "a \<in> set (g_bulbs g)" using wf_world_bulb [OF assms] by blast
  from remove_and_close_bulb_spec [OF wf_world_bulbs [OF assms(1)] g] obtain refs st where
    r: "lgtd_lifx_gateway_remove_and_close_bulb (b_gw b) a w = Some (closed_bulb (b_gw b) a w refs st)"
      "wf_bulbs (closed_bulb (b_gw b) a w refs st)" "length refs = 64"
      "st_gateways st = st_gateways (w_stats w)" "st_clients st = st_clients (w_stats w)" by blast
  from closed_bulb_wf_world [OF assms(1) g(1) r(2-5)] r(1,5) g(1) show ?thesis
    by (auto simp: keeps_gateways_def steady_def closed_bulb_def)
qed

text \<open>A bulb is silent when its last light state is too old.\<close>

definition silent_bulb :: "lgtd_time_mono_t \<Rightarrow> lgtd_lifx_bulb \<Rightarrow> bool" where
  "silent_bulb now b \<longleftrightarrow> LGTD_LIFX_DISCOVERY_DEVICE_TIMEOUT_MSECS \<le> lag now (b_last_light_state_at b)"

lemma watch_bulbs_loop:
  assumes "wf_world w" "distinct as" "\<forall>a\<in>set as. find_bulb a w \<noteq> None"
  shows "\<exists>w'. foreach (watch_bulb now) as (sd, w) =
       Some (sd \<or> (\<exists>a\<in>set as. \<exists>b. find_bulb a w = Some b \<and> silent_bulb now b), w')
     \<and> wf_world w' \<and> keeps_gateways w w' \<and> w_clock_pos w' = w_clock_pos w
     \<and> (\<forall>i. map_option g_last_pkt_at (find_gw i w') = map_option g_last_pkt_at (find_gw i w))
     \<and> (\<forall>a b. find_bulb a w' = Some b \<longleftrightarrow> find_bulb a w = Some b \<and> \<not> (a \<in> set as \<and> silent_bulb now b))"
  using assms
proof (induction as arbitrary: w sd)
  case Nil
  then show ?case by (intro exI [of _ w]) simp
next
  case (Cons a as)
  then obtain b where b: "find_bulb a w = Some b" by auto
  show ?case
  proof (cases "silent_bulb now b")
    case False
    have "watch_bulb now a (sd, w) = Some (sd, w)" using b False by (simp add: watch_bulb_def silent_bulb_def)
    with Cons.IH [OF Cons.prems(1), of sd] Cons.prems(2,3) b False show ?thesis by auto
  next
    case True
    from remove_and_close_bulb_wf [OF Cons.prems(1) b] obtain w1 where
      w1: "lgtd_lifx_gateway_remove_and_close_bulb (b_gw b) a w = Some w1" "wf_world w1" "keeps_gateways w w1"
        "w_bulbs w1 = adel a (w_bulbs w)" "w_clock_pos w1 = w_clock_pos w"
        "\<forall>i. map_option g_last_pkt_at (find_gw i w1) = map_option g_last_pkt_at (find_gw i w)" by blast
    have step: "watch_bulb now a (sd, w) = Some (True, w1)" using b True w1(1) by (simp add: watch_bulb_def silent_bulb_def)
    have "distinct as" "\<forall>c\<in>set as. find_bulb c w1 \<noteq> None" using Cons.prems(2,3) w1(4) by auto
    from Cons.IH [OF w1(2) this, of True] obtain w2 where
      w2: "foreach (watch_bulb now) as (True, w1) = Some (True, w2)" "wf_world w2" "keeps_gateways w1 w2"
        "w_clock_pos w2 = w_clock_pos w1" "\<forall>i. map_option g_last_pkt_at (find_gw i w2) = map_option g_last_pkt_at (find_gw i w1)"
        "\<forall>c d. find_bulb c w2 = Some d \<longleftrightarrow> find_bulb c w1 = Some d \<and> \<not> (c \<in> set as \<and> silent_bulb now d)" by auto
    have "find_bulb c w2 = Some d \<longleftrightarrow> find_bulb c w = Some d \<and> \<not> (c \<in> set (a # as) \<and> silent_bulb now d)" for c d
      using w2(6) w1(4) b True by auto
    moreover have "foreach (watch_bulb now) (a # as) (sd, w) = Some (True, w2)" using step w2(1) by simp
    moreover have "\<exists>c\<in>set (a # as). \<exists>b. find_bulb c w = Some b \<and> silent_bulb now b" using b True by auto
    ultimately show ?thesis
      using w2(2,4,5) w1(5,6) keeps_gateways_trans [OF w1(3) w2(3)] by (intro exI [of _ w2]) simp
  qed
qed

text \<open>
  A gateway is silent when the last packet is too old at the reading of the clock in its round: the \<open>n\<close>-th gateway of the list
  is looked at with the \<open>n\<close>-th next reading.
\<close>

definition silent_gateway :: "lgtd_world \<Rightarrow> gw_ptr list \<Rightarrow> gw_ptr \<Rightarrow> bool" where
  "silent_gateway w gws gw \<longleftrightarrow> (\<exists>n<length gws. gws ! n = gw \<and> (\<exists>g. find_gw gw w = Some g
     \<and> LGTD_LIFX_DISCOVERY_DEVICE_TIMEOUT_MSECS \<le> lag (w_clock w (w_clock_pos w + n) - g_last_pkt_at g) 0))"

lemma silent_gateway_cong:
  assumes "w_clock w' = w_clock w" "w_clock_pos w' = w_clock_pos w"
    and "map_option g_last_pkt_at (find_gw i w') = map_option g_last_pkt_at (find_gw i w)"
  shows "silent_gateway w' ks i \<longleftrightarrow> silent_gateway w ks i"
  using assms unfolding silent_gateway_def by (cases "find_gw i w'"; cases "find_gw i w") auto

lemma silent_gateway_Cons:
  assumes "k \<notin> set ks" "w_clock w1 = w_clock w" "w_clock_pos w1 = Suc (w_clock_pos w)"
    and "\<And>j. j \<noteq> k \<Longrightarrow> map_option g_last_pkt_at (find_gw j w1) = map_option g_last_pkt_at (find_gw j w)"
  shows "silent_gateway w (k # ks) j \<longleftrightarrow> (if j = k then silent_gateway w [k] k else silent_gateway w1 ks j)"
proof (cases "j = k")
  case True
  then show ?thesis using assms(1) by (auto simp: silent_gateway_def less_Suc_eq_0_disj nth_Cons')
next
  case False
  have "(\<exists>g. find_gw j w1 = Some g \<and> P (g_last_pkt_at g)) \<longleftrightarrow> (\<exists>g. find_gw j w = Some g \<and> P (g_last_pkt_at g))" for P
    using assms(4) [OF False] by (cases "find_gw j w"; cases "find_gw j w1") auto
  note this [of "\<lambda>t. LGTD_LIFX_DISCOVERY_DEVICE_TIMEOUT_MSECS \<le> lag (w_clock w (Suc (w_clock_pos w + n)) - t) 0" for n]
  with False show ?thesis unfolding silent_gateway_def assms(2,3)
    by (auto simp: less_Suc_eq_0_disj)
qed

lemma map_of_filter_fst: "map_of (filter (\<lambda>(k, v). P k) xs) k = (if P k then map_of xs k else None)"
  by (induction xs) auto

lemma find_without_gateway:
  assumes "wf_world w" "find_gw gw w = Some g" "without_gateway gw g w w'"
  shows "find_bulb a w' = Some b \<longleftrightarrow> find_bulb a w = Some b \<and> b_gw b \<noteq> gw"
    and "find_gw i w' = (if i = gw then None else find_gw i w)"
proof -
  have *: "a \<in> set (g_bulbs g) \<longleftrightarrow> b_gw b = gw" if "find_bulb a w = Some b" for b
    using wf_world_bulb [OF assms(1) that] wf_bulbs_bulb [OF wf_world_bulbs [OF assms(1)] assms(2)] that assms(2) by fastforce
  have "find_bulb a w' = (if a \<in> set (g_bulbs g) then None else find_bulb a w)"
    using assms(3) by (auto simp: without_gateway_def map_of_filter_fst)
  then show "find_bulb a w' = Some b \<longleftrightarrow> find_bulb a w = Some b \<and> b_gw b \<noteq> gw"
    using * by (cases "find_bulb a w") auto
  show "find_gw i w' = (if i = gw then None else find_gw i w)" using assms(3) by (simp add: without_gateway_def)
qed

lemma watch_gateway_spec:
  assumes "wf_world w" "find_gw gw w = Some g"
  shows "\<exists>w'. watch_gateway gw (sd, w) = Some (sd \<or> silent_gateway w [gw] gw, w') \<and> wf_world w' \<and> steady w w'
     \<and> w_clock_pos w' = Suc (w_clock_pos w)
     \<and> (\<forall>i. find_gw i w' = (if i = gw \<and> silent_gateway w [gw] gw then None else find_gw i w))
     \<and> (\<forall>a b. find_bulb a w' = Some b \<longleftrightarrow> find_bulb a w = Some b \<and> \<not> (b_gw b = gw \<and> silent_gateway w [gw] gw))"
proof -
  define v where "v = w\<lparr>w_clock_pos := Suc (w_clock_pos w)\<rparr>"
  define l where "l = lag (w_clock w (w_clock_pos w) - g_last_pkt_at g) 0"
  have v: "wf_world v" "find_gw gw v = Some g" "steady w v" using assms by (simp_all add: v_def steady_def)
  have silent: "silent_gateway w [gw] gw \<longleftrightarrow> 20000 \<le> l" using assms(2) by (simp add: silent_gateway_def l_def)
  have step: "watch_gateway gw (sd, w) =
      (if 20000 \<le> l then Option.bind (lgtd_lifx_gateway_close gw v) (\<lambda>w. Some (True, w))
       else if 2000 \<le> l then Option.bind (lgtd_timer_activate (g_refresh_timer g) v) (\<lambda>w. Some (sd, w))
       else Some (sd, v))"
    using assms(2) by (simp add: watch_gateway_def lgtd_lifx_gateway_msecs_since_last_update_def lgtd_time_monotonic_msecs_def
        lgtd_lifx_gateway_force_refresh_def l_def v_def Let_def)
  consider "20000 \<le> l" | "2000 \<le> l" "\<not> 20000 \<le> l" | "\<not> 2000 \<le> l" "\<not> 20000 \<le> l" by linarith
  then show ?thesis
  proof cases
    case 1
    from gateway_close_spec [OF v(1,2)] obtain w' where
      w': "lgtd_lifx_gateway_close gw v = Some w'" "wf_world w'" "without_gateway gw g v w'" "steady v w'" by blast
    moreover have "w_clock_pos w' = Suc (w_clock_pos w)" using w'(3) by (simp add: without_gateway_def v_def)
    ultimately show ?thesis using 1 silent step find_without_gateway [OF v(1,2) w'(3)] steady_trans [OF v(3) w'(4)]
      by (auto simp: v_def)
  next
    case 2
    from refresh_timer_ok(2) [OF v(1,2)] obtain w' where
      w': "lgtd_timer_activate (g_refresh_timer g) v = Some w'" "wf_world w'" "same_devices v w'" by blast
    have "w_gateways w' = w_gateways w \<and> w_bulbs w' = w_bulbs w \<and> w_clock_pos w' = Suc (w_clock_pos w)"
      using w'(1) by (auto simp: lgtd_timer_activate_def v_def bind_eq_Some_conv)
    moreover have "steady v w'" using w'(3) by (simp add: same_devices_def)
    ultimately show ?thesis using 2 silent step w'(1,2) steady_trans [OF v(3)] by auto
  next
    case 3
    then show ?thesis using silent step v by (simp add: v_def)
  qed
qed

lemma watch_gateways_loop:
  assumes "wf_world w" "distinct ks" "\<forall>k\<in>set ks. find_gw k w \<noteq> None"
  shows "\<exists>w'. foreach watch_gateway ks (sd, w) = Some (sd \<or> (\<exists>k. silent_gateway w ks k), w') \<and> wf_world w' \<and> steady w w'
     \<and> (\<forall>i. find_gw i w' = (if silent_gateway w ks i then None else find_gw i w))
     \<and> (\<forall>a b. find_bulb a w' = Some b \<longleftrightarrow> find_bulb a w = Some b \<and> \<not> silent_gateway w ks (b_gw b))"
  using assms
proof (induction ks arbitrary: w sd)
  case Nil
  then show ?case by (intro exI [of _ w]) (simp add: silent_gateway_def)
next
  case (Cons k ks)
  then obtain g where g: "find_gw k w = Some g" by auto
  from watch_gateway_spec [OF Cons.prems(1) g, of sd] obtain w1 where
    w1: "watch_gateway k (sd, w) = Some (sd \<or> silent_gateway w [k] k, w1)" "wf_world w1" "steady w w1"
      "w_clock_pos w1 = Suc (w_clock_pos w)"
      "\<And>i. find_gw i w1 = (if i = k \<and> silent_gateway w [k] k then None else find_gw i w)"
      "\<And>a b. find_bulb a w1 = Some b \<longleftrightarrow> find_bulb a w = Some b \<and> \<not> (b_gw b = k \<and> silent_gateway w [k] k)" by blast
  have "w_clock w1 = w_clock w" using w1(3) by (simp add: steady_def)
  moreover have "map_option g_last_pkt_at (find_gw j w1) = map_option g_last_pkt_at (find_gw j w)" if "j \<noteq> k" for j
    using that by (simp add: w1(5))
  ultimately have split: "silent_gateway w (k # ks) j \<longleftrightarrow> (if j = k then silent_gateway w [k] k else silent_gateway w1 ks j)" for j
    using silent_gateway_Cons [of k ks w1 w j] w1(4) Cons.prems(2) by simp
  have k: "\<not> silent_gateway w1 ks k" using Cons.prems(2) by (auto simp: silent_gateway_def)
  have "distinct ks" "\<forall>j\<in>set ks. find_gw j w1 \<noteq> None" using Cons.prems(2,3) by (auto simp: w1(5))
  from Cons.IH [OF w1(2) this, of "sd \<or> silent_gateway w [k] k"] obtain w2 where
    w2: "foreach watch_gateway ks (sd \<or> silent_gateway w [k] k, w1) =
        Some ((sd \<or> silent_gateway w [k] k) \<or> (\<exists>k. silent_gateway w1 ks k), w2)" "wf_world w2" "steady w1 w2"
      "\<And>i. find_gw i w2 = (if silent_gateway w1 ks i then None else find_gw i w1)"
      "\<And>a b. find_bulb a w2 = Some b \<longleftrightarrow> find_bulb a w1 = Some b \<and> \<not> silent_gateway w1 ks (b_gw b)" by blast
  have "(\<exists>j. silent_gateway w (k # ks) j) \<longleftrightarrow> silent_gateway w [k] k \<or> (\<exists>j. silent_gateway w1 ks j)"
    using split k by metis
  then have "foreach watch_gateway (k # ks) (sd, w) = Some (sd \<or> (\<exists>j. silent_gateway w (k # ks) j), w2)"
    using w1(1) w2(1) by simp
  moreover have "find_gw i w2 = (if silent_gateway w (k # ks) i then None else find_gw i w)" for i
    using k by (auto simp: w2(4) w1(5) split)
  moreover have "find_bulb a w2 = Some b \<longleftrightarrow> find_bulb a w = Some b \<and> \<not> silent_gateway w (k # ks) (b_gw b)" for a b
    using k by (auto simp: w2(5) w1(6) split)
  ultimately show ?case using w2(2) steady_trans [OF w1(3) w2(3)] by blast
qed

text \<open>Whether there is anything to drop, and what is left when the silent devices are dropped.\<close>

definition watchdog_drops :: "lgtd_world \<Rightarrow> bool" where
  "watchdog_drops w \<longleftrightarrow>
     (let now = fst (lgtd_time_monotonic_msecs w);
          silent = silent_gateway (snd (lgtd_time_monotonic_msecs w)) (map fst (w_gateways w))
      in (\<exists>a b. find_bulb a w = Some b \<and> silent_bulb now b) \<or> (\<exists>i. silent i))"

definition without_silent_devices :: "lgtd_world \<Rightarrow> lgtd_world \<Rightarrow> bool" where
  "without_silent_devices w w' \<longleftrightarrow>
     (let now = fst (lgtd_time_monotonic_msecs w);
          silent = silent_gateway (snd (lgtd_time_monotonic_msecs w)) (map fst (w_gateways w))
      in (\<forall>i. find_gw i w' \<noteq> None \<longleftrightarrow> find_gw i w \<noteq> None \<and> \<not> silent i)
       \<and> (\<forall>a b. find_bulb a w' = Some b \<longleftrightarrow> find_bulb a w = Some b \<and> \<not> silent_bulb now b \<and> \<not> silent (b_gw b)))"

lemma watchdog_callback_spec:
  assumes "wf_world w"
  shows "if watchdog_drops w \<and> \<not> ep_write_ev (w_broadcast_endpoint w) then lgtd_lifx_discovery_watchdog_interval_callback w = None
     else \<exists>w'. lgtd_lifx_discovery_watchdog_interval_callback w = Some w' \<and> wf_world w' \<and> steady w w' \<and> without_silent_devices w w'"
proof -
  define now v where "now = w_clock w (w_clock_pos w)" and "v = w\<lparr>w_clock_pos := Suc (w_clock_pos w)\<rparr>"
  have v: "wf_world v" "w_bulbs v = w_bulbs w" "w_gateways v = w_gateways w" using assms(1) by (simp_all add: v_def)
  have "\<forall>a\<in>set (map fst (w_bulbs v)). find_bulb a v \<noteq> None" by (auto simp: map_of_eq_None_iff)
  from watch_bulbs_loop [OF v(1) wf_world_bulb_keys [OF v(1)] this, of now False] obtain sd w1 where
    w1: "foreach (watch_bulb now) (map fst (w_bulbs v)) (False, v) = Some (sd, w1)" "wf_world w1" "keeps_gateways v w1"
      "w_clock_pos w1 = w_clock_pos v" "\<forall>i. map_option g_last_pkt_at (find_gw i w1) = map_option g_last_pkt_at (find_gw i v)"
      "\<forall>a b. find_bulb a w1 = Some b \<longleftrightarrow> find_bulb a v = Some b \<and> \<not> (a \<in> set (map fst (w_bulbs v)) \<and> silent_bulb now b)"
      "sd \<longleftrightarrow> (\<exists>a\<in>set (map fst (w_bulbs v)). \<exists>b. find_bulb a v = Some b \<and> silent_bulb now b)"
    by auto
  have keys: "map fst (w_gateways w1) = map fst (w_gateways w)" using w1(3) v(3) by (simp add: keeps_gateways_def)
  have "distinct (map fst (w_gateways w1))" using wf_worldD(1) [OF w1(2)] by (simp add: inv_keys_def)
  moreover have "\<forall>i\<in>set (map fst (w_gateways w1)). find_gw i w1 \<noteq> None" by (auto simp: map_of_eq_None_iff)
  ultimately obtain sd' w2 where
    w2: "foreach watch_gateway (map fst (w_gateways w1)) (sd, w1) = Some (sd', w2)" "wf_world w2" "steady w1 w2"
      "\<forall>i. find_gw i w2 = (if silent_gateway w1 (map fst (w_gateways w1)) i then None else find_gw i w1)"
      "\<forall>a b. find_bulb a w2 = Some b \<longleftrightarrow> find_bulb a w1 = Some b \<and> \<not> silent_gateway w1 (map fst (w_gateways w1)) (b_gw b)"
      "sd' \<longleftrightarrow> sd \<or> (\<exists>k. silent_gateway w1 (map fst (w_gateways w1)) k)"
    using watch_gateways_loop [OF w1(2), of "map fst (w_gateways w1)" sd] by blast
  have st: "w_clock w1 = w_clock v" "w_broadcast_endpoint w1 = w_broadcast_endpoint w" using w1(3)
    by (simp_all add: keeps_gateways_def steady_def v_def)
  have silent: "silent_gateway w1 ks i \<longleftrightarrow> silent_gateway v ks i" for ks i
    using silent_gateway_cong [OF st(1) w1(4) w1(5) [rule_format]] .
  have "find_gw i w1 \<noteq> None \<longleftrightarrow> find_gw i w \<noteq> None" for i
    using w1(5) [rule_format, of i] v(3) by (cases "find_gw i w1"; cases "find_gw i v") auto
  then have gws: "find_gw i w2 \<noteq> None \<longleftrightarrow> find_gw i w \<noteq> None \<and> \<not> silent_gateway v (map fst (w_gateways w)) i" for i
    using w2(4) by (simp add: silent keys)
  have key: "a \<in> set (map fst (w_bulbs w))" if "find_bulb a w = Some b" for a b using map_of_SomeD [OF that] by force
  then have bulbs: "find_bulb a w2 = Some b \<longleftrightarrow>
      find_bulb a w = Some b \<and> \<not> silent_bulb now b \<and> \<not> silent_gateway v (map fst (w_gateways w)) (b_gw b)" for a b
    using w2(5) w1(6) v(2) by (auto simp: silent keys)
  have clock: "lgtd_time_monotonic_msecs w = (now, v)" by (simp add: lgtd_time_monotonic_msecs_def now_def v_def)
  have sd': "sd' \<longleftrightarrow> watchdog_drops w"
  proof -
    have "sd \<longleftrightarrow> (\<exists>a b. find_bulb a w = Some b \<and> silent_bulb now b)" unfolding w1(7) v(2) using key by blast
    then show ?thesis using w2(6) by (simp add: watchdog_drops_def clock silent keys)
  qed
  have ep: "w_broadcast_endpoint w2 = w_broadcast_endpoint w" using st(2) w2(3) by (simp add: steady_def)
  have "lgtd_lifx_discovery_watchdog_interval_callback w =
      (if sd' then if ep_write_ev (w_broadcast_endpoint w) then Some (snd (ext_call w2)) else None else Some w2)"
    using w1(1) w2(1) ep by (simp add: lgtd_lifx_discovery_watchdog_interval_callback_def clock
        lgtd_lifx_broadcast_discovery_def ext_call_def)
  moreover have "steady w w2" using w1(3) w2(3) by (simp add: keeps_gateways_def steady_def v_def)
  moreover have "without_silent_devices w w2" using gws bulbs by (simp add: without_silent_devices_def clock)
  ultimately show ?thesis using w2(2) sd'
    by (auto simp: ext_call_def steady_def without_silent_devices_def)
qed

text \<open>
  C10: The watchdog drops exactly the devices that were silent for 20 seconds: from any well-formed world the
  callback keeps the invariant, closes every bulb whose last light state is too old and every gateway whose
  last packet is too old, with all the bulbs behind it, and keeps every other bulb unchanged and every other gateway. It returns
  unless there is a device to drop and the broadcast socket has no write event: then the assertion of
  \<open>lgtd_lifx_broadcast_discovery\<close> fails.
\<close>

theorem watchdog_drops_silent_devices:
  assumes "wf_world w"
  shows "if watchdog_drops w \<and> \<not> ep_write_ev (w_broadcast_endpoint w) then lgtd_lifx_discovery_watchdog_interval_callback w = None
     else \<exists>w'. lgtd_lifx_discovery_watchdog_interval_callback w = Some w' \<and> wf_world w'
       \<and> (let now = fst (lgtd_time_monotonic_msecs w);
              silent = silent_gateway (snd (lgtd_time_monotonic_msecs w)) (map fst (w_gateways w))
          in (\<forall>i. find_gw i w' \<noteq> None \<longleftrightarrow> find_gw i w \<noteq> None \<and> \<not> silent i)
           \<and> (\<forall>a b. find_bulb a w' = Some b \<longleftrightarrow>
                find_bulb a w = Some b \<and> \<not> silent_bulb now b \<and> \<not> silent (b_gw b)))"
  using watchdog_callback_spec [OF assms] unfolding without_silent_devices_def by (auto split: if_splits)

theorem watchdog_drops_silent_devices_witness:
  "(\<exists>w'. lgtd_lifx_discovery_watchdog_interval_callback (sample_world\<lparr>w_clock := (\<lambda>_. 20500)\<rparr>) = Some w' \<and> wf_world w'
     \<and> find_bulb [1, 2, 3, 4, 5, 7] w' = None \<and> find_bulb [1, 2, 3, 4, 5, 6] w' = Some sample_bulb \<and> find_gw 1 w' \<noteq> None)
   \<and> lgtd_lifx_discovery_watchdog_interval_callback (sample_world\<lparr>w_clock := (\<lambda>_. 20500),
       w_broadcast_endpoint := \<lparr>ep_socket = False, ep_read_ev = False, ep_write_ev = False\<rparr>\<rparr>) = None"
proof
  let ?w = "sample_world\<lparr>w_clock := (\<lambda>_. 20500)\<rparr>"
  define silent where "silent = silent_gateway (?w\<lparr>w_clock_pos := 1\<rparr>) [1]"
  have wf: "wf_world ?w" using wf_sample_world by simp
  have ep: "ep_write_ev (w_broadcast_endpoint ?w)" by simp
  from watchdog_drops_silent_devices [OF wf] ep obtain w' where
    w': "lgtd_lifx_discovery_watchdog_interval_callback ?w = Some w'" "wf_world w'"
      "\<And>i. find_gw i w' \<noteq> None \<longleftrightarrow> find_gw i ?w \<noteq> None \<and> \<not> silent i"
      "\<And>a b. find_bulb a w' = Some b \<longleftrightarrow> find_bulb a ?w = Some b \<and> \<not> silent_bulb 20500 b \<and> \<not> silent (b_gw b)"
    unfolding silent_def by (auto simp: lgtd_time_monotonic_msecs_def Let_def)
  have "\<not> silent_bulb 20500 sample_bulb" "\<not> silent 1" "b_gw sample_bulb = 1" and sb: "silent_bulb 20500 (calloc_bulb 1)"
    by (simp_all add: silent_bulb_def lag_def sample_bulb_def calloc_bulb_def silent_def silent_gateway_def
        sample_gateway_def calloc_gateway_def)
  with w'(3) [of 1] w'(4) have "find_gw 1 w' \<noteq> None" "find_bulb [1, 2, 3, 4, 5, 6] w' = Some sample_bulb"
    "\<And>b. find_bulb [1, 2, 3, 4, 5, 7] w' \<noteq> Some b" by auto
  with w'(1,2) show "\<exists>w'. lgtd_lifx_discovery_watchdog_interval_callback ?w = Some w' \<and> wf_world w'
     \<and> find_bulb [1, 2, 3, 4, 5, 7] w' = None \<and> find_bulb [1, 2, 3, 4, 5, 6] w' = Some sample_bulb \<and> find_gw 1 w' \<noteq> None"
    by (meson not_None_eq)
  let ?v = "sample_world\<lparr>w_clock := (\<lambda>_. 20500),
       w_broadcast_endpoint := \<lparr>ep_socket = False, ep_read_ev = False, ep_write_ev = False\<rparr>\<rparr>"
  have "find_bulb [1, 2, 3, 4, 5, 7] ?v = Some (calloc_bulb 1)" by simp
  with sb have "watchdog_drops ?v" unfolding watchdog_drops_def Let_def lgtd_time_monotonic_msecs_def by auto
  moreover have "wf_world ?v" using wf_sample_world by simp
  ultimately show "lgtd_lifx_discovery_watchdog_interval_callback ?v = None"
    using watchdog_drops_silent_devices [of ?v] by simp
qed

subsection \<open>The broadcast socket\<close>

definition ep_closed :: lgtd_lifx_broadcast_endpoint where
  "ep_closed = \<lparr>ep_socket = False, ep_read_ev = False, ep_write_ev = False\<rparr>"

definition ep_open :: lgtd_lifx_broadcast_endpoint where
  "ep_open = \<lparr>ep_socket = True, ep_read_ev = True, ep_write_ev = True\<rparr>"

lemma broadcast_setup_spec:
  assumes "w_broadcast_endpoint w = ep_closed"
  shows "\<exists>e ok. lgtd_lifx_broadcast_setup w =
     Some (ok, w\<lparr>w_ext_pos := e, w_broadcast_endpoint := if ok then ep_open else ep_closed\<rparr>)"
proof -
  have same: "w\<lparr>w_ext_pos := e, w_broadcast_endpoint := ep_closed\<rparr> = w\<lparr>w_ext_pos := e\<rparr>" for e
    using assms by simp
  define F where "F r \<longleftrightarrow> (\<exists>e ok. r = Some (ok, w\<lparr>w_ext_pos := e, w_broadcast_endpoint := if ok then ep_open else ep_closed\<rparr>))" for r
  have "F (Some (False, w\<lparr>w_ext_pos := e\<rparr>))" "F (Some (False, w\<lparr>w_ext_pos := e, w_broadcast_endpoint := ep_closed\<rparr>))"
    "F (Some (True, w\<lparr>w_ext_pos := e, w_broadcast_endpoint := ep_open\<rparr>))" for e
    unfolding F_def using same [of e] by (metis (full_types))+
  then have "F (lgtd_lifx_broadcast_setup w)"
    using assms by (simp add: lgtd_lifx_broadcast_setup_def lgtd_lifx_broadcast_close_def ext_call_def ep_closed_def ep_open_def
        Let_def)
  then show ?thesis unfolding F_def .
qed

lemma error_reset_spec:
  "\<exists>e ok. broadcast_error_reset w = Some (w\<lparr>w_ext_pos := e, w_broadcast_endpoint := if ok then ep_open else ep_closed\<rparr>)"
proof -
  let ?v = "lgtd_lifx_broadcast_close w"
  have "w_broadcast_endpoint ?v = ep_closed" by (simp add: lgtd_lifx_broadcast_close_def ep_closed_def)
  from broadcast_setup_spec [OF this] obtain e ok where
    "lgtd_lifx_broadcast_setup ?v = Some (ok, ?v\<lparr>w_ext_pos := e, w_broadcast_endpoint := if ok then ep_open else ep_closed\<rparr>)" by blast
  then have "broadcast_error_reset w = Some (w\<lparr>w_ext_pos := e, w_broadcast_endpoint := if ok then ep_open else ep_closed\<rparr>)"
    by (simp add: broadcast_error_reset_def lgtd_lifx_broadcast_close_def)
  then show ?thesis by blast
qed

text \<open>How many of the calls to \<open>sendto\<close> were not interrupted; a packet needs one of them per target.\<close>

definition sends_done :: "sendto_result list \<Rightarrow> nat" where
  "sends_done rs = length (filter (\<lambda>r. r \<noteq> Send_interrupted) rs)"

definition send_targets :: "ifaddrs list option \<Rightarrow> nat" where
  "send_targets interfaces =
     (case interfaces of None \<Rightarrow> 1 | Some ifs \<Rightarrow> length (filter (\<lambda>i. broadcast_target i \<noteq> None) ifs))"

lemma send_packet_returns:
  "0 < sends_done rs \<Longrightarrow> \<exists>ok rs'. lgtd_lifx_broadcast_send_packet n rs = Some (ok, rs') \<and> sends_done rs = Suc (sends_done rs')"
proof (induction rs)
  case (Cons r rs)
  then show ?case by (cases r) (auto simp: sends_done_def)
qed (simp add: sends_done_def)

lemma broadcast_on_returns:
  "send_targets (Some ifs) \<le> sends_done rs \<Longrightarrow> \<exists>ok rs'. broadcast_on ifs sent rs = Some (ok, rs')"
proof (induction ifs arbitrary: sent rs)
  case (Cons i ifs)
  show ?case
  proof (cases "broadcast_target i")
    case None
    then show ?thesis using Cons by (simp add: send_targets_def)
  next
    case (Some addr)
    then have "Suc (send_targets (Some ifs)) \<le> sends_done rs" using Cons.prems by (simp add: send_targets_def)
    moreover from this send_packet_returns [of rs "int LGTD_LIFX_PACKET_HEADER_SIZE"] obtain ok rs' where
      "lgtd_lifx_broadcast_send_packet (int LGTD_LIFX_PACKET_HEADER_SIZE) rs = Some (ok, rs')" "sends_done rs = Suc (sends_done rs')"
      by auto
    ultimately show ?thesis using Some Cons.IH [of rs' "ok \<or> sent"] by simp
  qed
qed simp

lemma broadcast_handle_write_returns:
  assumes "ep_socket (w_broadcast_endpoint w)" "w_client_id w \<noteq> 0" "send_targets interfaces \<le> sends_done rs"
  shows "\<exists>ok e x. lgtd_lifx_broadcast_handle_write interfaces rs w = Some (ok, w\<lparr>w_ext_pos := e, w_exit := x\<rparr>)"
proof -
  have "wf_target LGTD_LIFX_TARGET_ALL_DEVICES LGTD_LIFX_UNSPEC_TARGET None" by (simp add: wf_target_def)
  moreover obtain info where "lgtd_lifx_wire_get_packet_info LGTD_LIFX_GET_PAN_GATEWAY = Some info"
    by (simp add: get_packet_info_eq packet_table_defs)
  ultimately obtain info hdr where h: "lgtd_lifx_wire_setup_header (w_be w) (w_client_id w)
      LGTD_LIFX_TARGET_ALL_DEVICES LGTD_LIFX_UNSPEC_TARGET None LGTD_LIFX_GET_PAN_GATEWAY = Some (info, hdr)"
    using setup_header_Some assms(2) by blast
  obtain ok rs' where s: "(case interfaces of
        None \<Rightarrow> lgtd_lifx_broadcast_send_packet (int LGTD_LIFX_PACKET_HEADER_SIZE) rs
      | Some ifaddrs \<Rightarrow> broadcast_on ifaddrs False rs) = Some (ok, rs')"
  proof (cases interfaces)
    case None
    then show ?thesis using that send_packet_returns [of rs "int LGTD_LIFX_PACKET_HEADER_SIZE"] assms(3)
      by (auto simp: send_targets_def)
  next
    case (Some ifs)
    then show ?thesis using that broadcast_on_returns [of ifs rs False] assms(3) by auto
  qed
  have plain: "\<exists>e x. w = w\<lparr>w_ext_pos := e, w_exit := x\<rparr>" "\<exists>e x. w\<lparr>w_ext_pos := n\<rparr> = w\<lparr>w_ext_pos := e, w_exit := x\<rparr>" for n
    by (rule exI [of _ "w_ext_pos w"] exI [of _ n], rule exI [of _ "w_exit w"], simp)+
  show ?thesis
    unfolding lgtd_lifx_broadcast_handle_write_def h s c_assert_def
    using assms(1) plain by (auto simp: ext_call_def lgtd_err_def)
qed

text \<open>
  A step that returns, in a world that satisfies the invariant unless it ended the process; the number of clients stays and
  addresses are not used again.
\<close>

definition alive :: "lgtd_world \<Rightarrow> lgtd_world option \<Rightarrow> bool" where
  "alive w r \<longleftrightarrow> (\<exists>w'. r = Some w' \<and> (w_exit w' = None \<longrightarrow> wf_world w'
     \<and> st_clients (w_stats w') = st_clients (w_stats w) \<and> w_next_ptr w \<le> w_next_ptr w'))"

lemma goes_on_alive: "goes_on w r \<Longrightarrow> alive w r"
  by (auto simp: goes_on_def alive_def steady_def)

lemma keeps_alive: "keeps w r \<Longrightarrow> alive w r"
  by (simp add: goes_on_alive keeps_goes_on)

lemma alive_trans: "steady w w' \<Longrightarrow> alive w' r \<Longrightarrow> alive w r"
  by (auto simp: alive_def steady_def)

lemma alive_discovery:
  assumes "wf_world w" "ep_write_ev (w_broadcast_endpoint w)"
  shows "alive w (lgtd_lifx_discovery_timeout_event_callback w)"
  using assms by (simp add: lgtd_lifx_discovery_timeout_event_callback_def lgtd_lifx_broadcast_discovery_def ext_call_def
      alive_def lgtd_err_def Let_def)

lemma alive_error_reset: "wf_world w \<Longrightarrow> alive w (broadcast_error_reset w)"
  using error_reset_spec [of w] by (auto simp: alive_def)

definition broadcast_event_sane :: "bool \<Rightarrow> bool \<Rightarrow> recv_result list \<Rightarrow> ifaddrs list option \<Rightarrow> sendto_result list \<Rightarrow> lgtd_world \<Rightarrow> bool" where
  "broadcast_event_sane ev_read ev_write recvs interfaces sends w \<longleftrightarrow>
     ep_socket (w_broadcast_endpoint w) \<and> (ev_read \<longrightarrow> recvs_sane None recvs w)
     \<and> (ev_write \<longrightarrow> send_targets interfaces \<le> sends_done sends)"

lemma alive_broadcast_event:
  assumes "wf_world w" "w_exit w = None" "broadcast_event_sane ev_read ev_write recvs interfaces sends w"
  shows "alive w (lgtd_lifx_broadcast_event_callback ev_timeout ev_read ev_write recvs interfaces sends w)"
proof (cases ev_timeout)
  case True
  then show ?thesis using alive_error_reset [OF assms(1)] by (simp add: lgtd_lifx_broadcast_event_callback_def)
next
  case False
  let ?r = "if ev_read then lgtd_lifx_wire_handle_receive None recvs w else Some (True, w)"
  have "safe_receive w ?r"
    using handle_receive_safe [OF assms(1,2), of None recvs] assms(1,3) safe_receive_here [OF assms(1), of w]
    by (auto simp: broadcast_event_sane_def)
  then obtain ok w1 where w1: "?r = Some (ok, w1)" "w_exit w1 = None \<longrightarrow> wf_world w1 \<and> gws_stay w w1"
    unfolding safe_receive_def by (elim exE conjE)
  define wr where "wr = (if ev_write then lgtd_lifx_broadcast_handle_write interfaces sends w1 else Some (True, w1))"
  have eq: "lgtd_lifx_broadcast_event_callback ev_timeout ev_read ev_write recvs interfaces sends w =
      (if w_exit w1 \<noteq> None then Some w1 else if \<not> ok then broadcast_error_reset w1
       else Option.bind wr (\<lambda>(ok, w). if w_exit w \<noteq> None then Some w else if \<not> ok then broadcast_error_reset w else Some w))"
    using False unfolding lgtd_lifx_broadcast_event_callback_def w1(1) wr_def by simp
  show ?thesis
  proof (cases "w_exit w1")
    case (Some x)
    then show ?thesis unfolding eq by (simp add: alive_def)
  next
    case None
    with w1(2) have wf: "wf_world w1" and st: "steady w w1" by (simp_all add: gws_stay_def)
    have "\<exists>ok e x. wr = Some (ok, w1\<lparr>w_ext_pos := e, w_exit := x\<rparr>)"
    proof (cases ev_write)
      case True
      then show ?thesis using broadcast_handle_write_returns [of w1 interfaces sends] assms(3) st wf_world_client [OF wf]
        by (auto simp: wr_def broadcast_event_sane_def steady_def)
    next
      case False
      then have "wr = Some (True, w1\<lparr>w_ext_pos := w_ext_pos w1, w_exit := w_exit w1\<rparr>)" by (simp add: wr_def)
      then show ?thesis by blast
    qed
    then obtain ok' e x where "wr = Some (ok', w1\<lparr>w_ext_pos := e, w_exit := x\<rparr>)" by blast
    then have "alive w1 (if \<not> ok then broadcast_error_reset w1
       else Option.bind wr (\<lambda>(ok, w). if w_exit w \<noteq> None then Some w else if \<not> ok then broadcast_error_reset w else Some w))"
      using alive_error_reset [OF wf] alive_error_reset [of "w1\<lparr>w_ext_pos := e, w_exit := x\<rparr>"] wf by (auto simp: alive_def)
    then show ?thesis using alive_trans [OF st] None unfolding eq by simp
  qed
qed

end
