(* ===== verification/Daemon.thy ===== *)
theory Daemon
  imports Discovery_Inv Rpc_Inv
begin

text \<open>
  The daemon as a whole: the clients and the world, the events the main loop of libevent delivers to the
  callbacks of the components, and what holds in every state that a run can reach.
\<close>

subsection \<open>Events\<close>

type_synonym daemon = "lgtd_client_list \<times> lgtd_world"

datatype daemon_event =
    Gateway_socket bool bool bool "recv_result list" int bool nat gw_ptr
  | Broadcast_socket bool bool bool "recv_result list" "ifaddrs list option" "sendto_result list"
  | Timer_expired timer_ptr
  | Discovery_timeout
  | Watchdog_interval
  | Client_accepted
  | Client_input nat string nat
  | Client_event nat bool

text \<open>The callback of a timer.\<close>

definition run_timer :: "timer_ptr \<Rightarrow> lgtd_world \<Rightarrow> lgtd_world option" where
  "run_timer p w =
     do {
       callback \<leftarrow> timer_callback w p;
       case callback of
         Refresh_callback gw \<Rightarrow> lgtd_lifx_gateway_refresh_callback gw w
       | Fetch_hardware_info addr \<Rightarrow> lgtd_lifx_bulb_fetch_hardware_info p addr w
     }"

definition on_world :: "lgtd_client_list \<Rightarrow> lgtd_world option \<Rightarrow> daemon option" where
  "on_world clients r = map_option (\<lambda>w. (clients, w)) r"

fun run_event :: "print_env \<Rightarrow> daemon_event \<Rightarrow> daemon \<Rightarrow> daemon option" where
  "run_event env (Gateway_socket ev_timeout ev_read ev_write recvs nbytes again buf_len gw) (clients, w) =
     on_world clients (lgtd_lifx_gateway_socket_event_callback ev_timeout ev_read ev_write recvs nbytes again buf_len gw w)"
| "run_event env (Broadcast_socket ev_timeout ev_read ev_write recvs interfaces sends) (clients, w) =
     on_world clients (lgtd_lifx_broadcast_event_callback ev_timeout ev_read ev_write recvs interfaces sends w)"
| "run_event env (Timer_expired p) (clients, w) = on_world clients (run_timer p w)"
| "run_event env Discovery_timeout (clients, w) = on_world clients (lgtd_lifx_discovery_timeout_event_callback w)"
| "run_event env Watchdog_interval (clients, w) = on_world clients (lgtd_lifx_discovery_watchdog_interval_callback w)"
| "run_event env Client_accepted (clients, w) =
     map_option (\<lambda>(client, clients, w). (clients, w)) (lgtd_client_open clients w)"
| "run_event env (Client_input client inp nbytes) (clients, w) =
     do {
       c \<leftarrow> map_of clients client;
       (rest, c, w) \<leftarrow> lgtd_client_read_callback env inp nbytes c w;
       Some (amod client (\<lambda>_. c) clients, w)
     }"
| "run_event env (Client_event client error_or_eof) s = lgtd_client_event_callback error_or_eof client s"

text \<open>
  What is asked of an event. It comes for a socket, a timer or a client that exists, with results that the system calls can
  give, and the clock does not read zero when a datagram comes. The write event of the broadcast socket exists when an event of a
  gateway, the discovery or a watchdog that drops something needs it. A datagram is of the peer the socket is connected to; a
  packet about a device has an address that is not zero and, when the device is new, fewer than 255 bulbs on the gateway; a packet
  with a label of a tag has a terminated label and gives at most one tag id that the gateway did not have, which the label does not
  contradict (\<open>recvs_sane\<close>, \<open>datagram_sane\<close>, \<open>device_sane\<close> and \<open>labels_sane\<close>). The code does not check these: where an address is zero, a
  label conflicts or the write event is missing, an assertion fails.
\<close>

fun event_ok :: "daemon_event \<Rightarrow> daemon \<Rightarrow> bool" where
  "event_ok (Gateway_socket ev_timeout ev_read ev_write recvs nbytes again buf_len gw) (clients, w) =
     socket_event_sane ev_timeout ev_read ev_write recvs nbytes gw w"
| "event_ok (Broadcast_socket ev_timeout ev_read ev_write recvs interfaces sends) (clients, w) =
     broadcast_event_sane ev_read ev_write recvs interfaces sends w"
| "event_ok (Timer_expired p) (clients, w) = (map_of (w_timers w) p \<noteq> None)"
| "event_ok Discovery_timeout (clients, w) = ep_write_ev (w_broadcast_endpoint w)"
| "event_ok Watchdog_interval (clients, w) = (watchdog_drops w \<longrightarrow> ep_write_ev (w_broadcast_endpoint w))"
| "event_ok (Client_event client error_or_eof) (clients, w) = (map_of clients client \<noteq> None)"
| "event_ok _ _ = True"

text \<open>The state at the start: no device and no client.\<close>

definition initial_state :: "daemon \<Rightarrow> bool" where
  "initial_state s \<longleftrightarrow> (case s of (clients, w) \<Rightarrow> clients = [] \<and> w_client_id w \<noteq> 0 \<and> w_gateways w = [] \<and> w_bulbs w = [] \<and> w_tags w = []
     \<and> w_timers w = [] \<and> w_stats w = \<lparr>st_gateways = 0, st_bulbs = 0, st_bulbs_powered_on = 0, st_clients = 0\<rparr> \<and> w_exit w = None)"

text \<open>
  The main loop, over any callbacks: \<open>reached\<close> are the states after some events, \<open>run_events\<close> runs the callbacks of a
  list of events until the process ends, \<open>events_ok\<close> are the lists in which every event may come when it does.
\<close>

inductive reached :: "('s \<Rightarrow> bool) \<Rightarrow> ('e \<Rightarrow> 's \<Rightarrow> 's option) \<Rightarrow> ('s \<Rightarrow> bool) \<Rightarrow> ('e \<Rightarrow> 's \<Rightarrow> bool) \<Rightarrow> 's \<Rightarrow> bool"
  for init run stopped ok where
  start: "init s \<Longrightarrow> reached init run stopped ok s"
| step: "reached init run stopped ok s \<Longrightarrow> \<not> stopped s \<Longrightarrow> ok e s \<Longrightarrow> run e s = Some s' \<Longrightarrow> reached init run stopped ok s'"

fun run_events :: "('e \<Rightarrow> 's \<Rightarrow> 's option) \<Rightarrow> ('s \<Rightarrow> bool) \<Rightarrow> 'e list \<Rightarrow> 's \<Rightarrow> 's option" where
  "run_events run stopped [] s = Some s"
| "run_events run stopped (e # es) s = (if stopped s then Some s else Option.bind (run e s) (run_events run stopped es))"

fun events_ok :: "('e \<Rightarrow> 's \<Rightarrow> 's option) \<Rightarrow> ('s \<Rightarrow> bool) \<Rightarrow> ('e \<Rightarrow> 's \<Rightarrow> bool) \<Rightarrow> 'e list \<Rightarrow> 's \<Rightarrow> bool" where
  "events_ok run stopped ok [] s = True"
| "events_ok run stopped ok (e # es) s =
     (stopped s \<or> ok e s \<and> (case run e s of None \<Rightarrow> True | Some s' \<Rightarrow> events_ok run stopped ok es s'))"

definition exited :: "daemon \<Rightarrow> bool" where
  "exited s \<longleftrightarrow> w_exit (snd s) \<noteq> None"

text \<open>The contract between the loop and its callbacks, and what it gives for every run.\<close>

locale callbacks =
  fixes init :: "'s \<Rightarrow> bool" and run :: "'e \<Rightarrow> 's \<Rightarrow> 's option" and stopped :: "'s \<Rightarrow> bool" and ok :: "'e \<Rightarrow> 's \<Rightarrow> bool"
    and inv :: "'s \<Rightarrow> bool"
  assumes init_inv: "init s \<Longrightarrow> inv s"
    and run_inv: "inv s \<Longrightarrow> \<not> stopped s \<Longrightarrow> ok e s \<Longrightarrow> run e s = Some s' \<Longrightarrow> \<not> stopped s' \<Longrightarrow> inv s'"
begin

lemma reached_inv: "reached init run stopped ok s \<Longrightarrow> \<not> stopped s \<Longrightarrow> inv s"
proof (induction rule: reached.induct)
  case (start s)
  then show ?case by (simp add: init_inv)
next
  case (step s e s')
  then show ?case using run_inv by blast
qed

lemma run_events_inv:
  "inv s \<Longrightarrow> events_ok run stopped ok es s \<Longrightarrow> run_events run stopped es s = Some s' \<Longrightarrow> \<not> stopped s' \<Longrightarrow> inv s'"
proof (induction es arbitrary: s)
  case (Cons e es)
  have run: "\<not> stopped s" using Cons.prems(3,4) by (cases "stopped s") auto
  with Cons.prems obtain s1 where s1: "run e s = Some s1" "run_events run stopped es s1 = Some s'" "events_ok run stopped ok es s1"
    by (auto simp: bind_eq_Some_conv)
  moreover have "\<not> stopped s1" using s1(2) Cons.prems(4) by (cases es) (auto split: if_splits)
  ultimately show ?case using Cons run run_inv [of s e s1] by simp
qed simp

end

locale returning_callbacks = callbacks +
  fixes returns :: "'b \<Rightarrow> bool"
  assumes run_returns: "inv s \<Longrightarrow> \<not> stopped s \<Longrightarrow> ok e s \<Longrightarrow> returns e \<Longrightarrow> \<exists>s'. run e s = Some s'"
begin

lemma run_events_return:
  "stopped s \<or> inv s \<Longrightarrow> list_all returns es \<Longrightarrow> events_ok run stopped ok es s \<Longrightarrow> \<exists>s'. run_events run stopped es s = Some s'"
proof (induction es arbitrary: s)
  case (Cons e es)
  show ?case
  proof (cases "stopped s")
    case False
    with Cons.prems run_returns obtain s' where s': "run e s = Some s'" by auto
    then have "stopped s' \<or> inv s'" using False Cons.prems run_inv [of s e s'] by auto
    then show ?thesis using Cons.IH [of s'] Cons.prems s' False by simp
  qed simp
qed simp

end

subsection \<open>The invariant of the daemon\<close>

text \<open>The clients are connected, at most as far as addresses were given out, and counted.\<close>

definition wf_clients :: "daemon \<Rightarrow> bool" where
  "wf_clients s \<longleftrightarrow> (case s of (clients, w) \<Rightarrow> distinct (map fst clients) \<and> st_clients (w_stats w) = int (length clients)
     \<and> (\<forall>(p, c)\<in>set clients. p < w_next_ptr w \<and> c_io c))"

definition wf_daemon :: "daemon \<Rightarrow> bool" where
  "wf_daemon s \<longleftrightarrow> wf_world (snd s) \<and> wf_clients s"

lemma initial_wf:
  assumes "initial_state s"
  shows "wf_daemon s"
proof -
  obtain clients w where s: "s = (clients, w)" by (cases s)
  have w: "clients = []" "w_client_id w \<noteq> 0" "w_gateways w = []" "w_bulbs w = []" "w_tags w = []" "w_timers w = []"
    "w_stats w = \<lparr>st_gateways = 0, st_bulbs = 0, st_bulbs_powered_on = 0, st_clients = 0\<rparr>"
    using assms by (simp_all add: initial_state_def s)
  have "\<not> has_site w p i k" for p i k by (simp add: has_site_def w)
  then have "wf_world w"
    by (intro wf_worldI) (simp_all add: inv_defs w rb_inv_def wf_tags_def tag_labels_def timer_callback_def gw_timer_def)
  then show ?thesis by (simp add: wf_daemon_def wf_clients_def s w)
qed

text \<open>A step that ends the process, or leaves the daemon in order.\<close>

definition carries_on :: "daemon option \<Rightarrow> bool" where
  "carries_on r \<longleftrightarrow> (\<exists>s'. r = Some s' \<and> (w_exit (snd s') = None \<longrightarrow> wf_daemon s'))"

lemma alive_carries_on:
  assumes "wf_daemon (clients, w)" "alive w r"
  shows "carries_on (on_world clients r)"
proof -
  from assms(2) obtain w' where w': "r = Some w'" "w_exit w' = None \<longrightarrow> wf_world w'
     \<and> st_clients (w_stats w') = st_clients (w_stats w) \<and> w_next_ptr w \<le> w_next_ptr w'" by (auto simp: alive_def)
  then show ?thesis using assms(1) unfolding carries_on_def on_world_def wf_daemon_def wf_clients_def
    by (intro exI [of _ "(clients, w')"]) (force simp: split_beta dest: order_less_le_trans)
qed

lemma timer_alive:
  assumes "wf_world w" "map_of (w_timers w) p \<noteq> None"
  shows "alive w (run_timer p w)"
proof -
  obtain cb where cb: "timer_callback w p = Some cb" using assms(2) by (auto simp: timer_callback_def)
  show ?thesis
  proof (cases cb)
    case (Refresh_callback gw)
    then have "gw_timer w gw = Some p" using wf_worldD(7) [OF assms(1)] cb by (simp add: inv_timers_def)
    then obtain g where "find_gw gw w = Some g" by (auto simp: gw_timer_def)
    from keeps_alive [OF refresh_callback_keeps [OF assms(1) this]] show ?thesis
      using cb Refresh_callback by (simp add: run_timer_def)
  next
    case (Fetch_hardware_info a)
    then show ?thesis using keeps_alive [OF fetch_hardware_info_keeps [OF assms(1)]] cb by (simp add: run_timer_def)
  qed
qed

lemma wf_world_set_clients:
  assumes "wf_world w" "0 \<le> n"
  shows "wf_world (w\<lparr>w_stats := (w_stats w)\<lparr>st_clients := n\<rparr>\<rparr>)" (is "wf_world ?w")
proof -
  note d = wf_worldD [OF assms(1)]
  have "inv_keys ?w = inv_keys w" "inv_local ?w = inv_local w" "inv_links ?w = inv_links w" "inv_refs ?w = inv_refs w"
    "inv_tags ?w = inv_tags w" by (simp_all add: inv_keys_def inv_local_def inv_links_def inv_refs_def inv_tags_def)
  moreover have "inv_timers ?w" by (rule inv_timers_cong [OF d(7)]) (simp_all add: timer_callback_def gw_timer_def fun_eq_iff)
  moreover have "inv_stats ?w" using d(6) assms(2) by (simp add: inv_stats_def)
  ultimately show ?thesis using d by (intro wf_worldI) simp_all
qed

lemma client_open_cases:
  assumes "0 \<le> st_clients (w_stats w)"
  shows "(\<exists>e n. lgtd_client_open clients w = Some (None, clients, w\<lparr>w_ext_pos := e, w_next_ptr := n\<rparr>) \<and> w_next_ptr w \<le> n)
     \<or> (\<exists>e c. lgtd_client_open clients w = Some (Some (w_next_ptr w), (w_next_ptr w, c) # clients,
          (w\<lparr>w_ext_pos := e, w_next_ptr := Suc (w_next_ptr w)\<rparr>)\<lparr>w_stats := (w_stats w)\<lparr>st_clients := st_clients (w_stats w) + 1\<rparr>\<rparr>)
          \<and> c_io c)"
proof -
  define F where "F r \<longleftrightarrow> (\<exists>e n. r = Some (None, clients, w\<lparr>w_ext_pos := e, w_next_ptr := n\<rparr>) \<and> w_next_ptr w \<le> n)
     \<or> (\<exists>e c. r = Some (Some (w_next_ptr w), (w_next_ptr w, c) # clients,
          (w\<lparr>w_ext_pos := e, w_next_ptr := Suc (w_next_ptr w)\<rparr>)\<lparr>w_stats := (w_stats w)\<lparr>st_clients := st_clients (w_stats w) + 1\<rparr>\<rparr>)
          \<and> c_io c)" for r
  have "w\<lparr>w_ext_pos := e\<rparr> = w\<lparr>w_ext_pos := e, w_next_ptr := w_next_ptr w\<rparr>" for e by simp
  then have "F (Some (None, clients, w\<lparr>w_ext_pos := e\<rparr>))" for e unfolding F_def by (metis order_refl)
  moreover have "w\<lparr>w_next_ptr := Suc (w_next_ptr w), w_ext_pos := e\<rparr> = w\<lparr>w_ext_pos := e, w_next_ptr := Suc (w_next_ptr w)\<rparr>" for e
    by simp
  then have "F (Some (None, clients, w\<lparr>w_next_ptr := Suc (w_next_ptr w), w_ext_pos := e\<rparr>))" for e
    unfolding F_def by (metis le_SucI order_refl)
  moreover have "F (Some (Some (w_next_ptr w), (w_next_ptr w, lgtd_client_open_from_pipe\<lparr>c_io := True\<rparr>) # clients,
      w\<lparr>w_next_ptr := Suc (w_next_ptr w), w_ext_pos := e, w_stats := (w_stats w)\<lparr>st_clients := st_clients (w_stats w) + 1\<rparr>\<rparr>))" for e
    unfolding F_def by (rule disjI2, rule exI [of _ e], rule exI [of _ "lgtd_client_open_from_pipe\<lparr>c_io := True\<rparr>"]) simp
  ultimately have "F (lgtd_client_open clients w)"
    using assms by (simp add: lgtd_client_open_def ext_call_def fresh_ptr_def lgtd_stats_add_def)
  then show ?thesis unfolding F_def .
qed

lemma client_open_carries_on:
  assumes "wf_daemon (clients, w)"
  shows "carries_on (run_event env Client_accepted (clients, w))"
proof -
  have wf: "wf_world w" and cl: "wf_clients (clients, w)" using assms by (simp_all add: wf_daemon_def)
  have n: "st_clients (w_stats w) = int (length clients)" using cl by (simp add: wf_clients_def)
  have next_ptr: "wf_world (w\<lparr>w_ext_pos := e, w_next_ptr := n\<rparr>)" if "w_next_ptr w \<le> n" for e n
    using wf_world_next_ptr [of "w\<lparr>w_ext_pos := e\<rparr>" n] wf that by simp
  have "0 \<le> st_clients (w_stats w)" using n by simp
  from client_open_cases [OF this, of clients] show ?thesis
  proof (elim disjE exE conjE)
    fix e n assume "lgtd_client_open clients w = Some (None, clients, w\<lparr>w_ext_pos := e, w_next_ptr := n\<rparr>)" "w_next_ptr w \<le> n"
    then show ?thesis using next_ptr cl by (fastforce simp: carries_on_def wf_daemon_def wf_clients_def)
  next
    fix e c assume r: "lgtd_client_open clients w = Some (Some (w_next_ptr w), (w_next_ptr w, c) # clients,
        (w\<lparr>w_ext_pos := e, w_next_ptr := Suc (w_next_ptr w)\<rparr>)\<lparr>w_stats := (w_stats w)\<lparr>st_clients := st_clients (w_stats w) + 1\<rparr>\<rparr>)" "c_io c"
    have "wf_world ((w\<lparr>w_ext_pos := e, w_next_ptr := Suc (w_next_ptr w)\<rparr>)\<lparr>w_stats := (w_stats w)\<lparr>st_clients := st_clients (w_stats w) + 1\<rparr>\<rparr>)"
      using wf_world_set_clients [OF next_ptr, of "Suc (w_next_ptr w)" "st_clients (w_stats w) + 1" e] n by simp
    moreover have "w_next_ptr w \<notin> fst ` set clients" using cl by (fastforce simp: wf_clients_def)
    ultimately show ?thesis using r cl n by (fastforce simp: carries_on_def wf_daemon_def wf_clients_def)
  qed
qed

lemma client_close_carries_on:
  assumes "wf_daemon (clients, w)" "map_of clients client \<noteq> None"
  shows "carries_on (run_event env (Client_event client eof) (clients, w))"
proof (cases eof)
  case False
  then show ?thesis using assms(1) by (simp add: lgtd_client_event_callback_def carries_on_def)
next
  case True
  have wf: "wf_world w" and cl: "wf_clients (clients, w)" using assms(1) by (simp_all add: wf_daemon_def)
  obtain c where c: "map_of clients client = Some c" using assms(2) by blast
  then have m: "(client, c) \<in> set clients" by (rule map_of_SomeD)
  then have "clients \<noteq> []" by auto
  have d: "distinct (map fst clients)" and n: "st_clients (w_stats w) = int (length clients)" using cl by (simp_all add: wf_clients_def)
  have len: "int (length (adel client clients)) = int (length clients) - 1"
    using acount_adel [OF d c, of "\<lambda>_. True"] by (simp add: acount_def)
  have "0 \<le> st_clients (w_stats w) - 1" using n \<open>clients \<noteq> []\<close> by (cases clients) auto
  then have "wf_world (w\<lparr>w_stats := (w_stats w)\<lparr>st_clients := st_clients (w_stats w) - 1\<rparr>\<rparr>)"
    by (rule wf_world_set_clients [OF wf])
  moreover have "c_io c" using cl m by (auto simp: wf_clients_def)
  moreover have "wf_clients (adel client clients, w\<lparr>w_stats := (w_stats w)\<lparr>st_clients := st_clients (w_stats w) - 1\<rparr>\<rparr>)"
    using cl len n d by (auto simp: wf_clients_def set_adel)
  ultimately show ?thesis using True c \<open>0 \<le> st_clients (w_stats w) - 1\<close>
    by (simp add: lgtd_client_event_callback_def lgtd_client_close_def lgtd_stats_add_def carries_on_def wf_daemon_def)
qed

text \<open>What a client sends is handled if its requests are: then the invariant holds.\<close>

lemma client_input_wf:
  assumes "wf_daemon (clients, w)" "run_event env (Client_input client inp nbytes) (clients, w) = Some s'"
  shows "wf_daemon s'"
proof -
  from assms(2) obtain c rest c' w' where c: "map_of clients client = Some c"
      "read_requests env inp nbytes None c w = Some (rest, c', w')" "s' = (amod client (\<lambda>_. c') clients, w')"
    by (auto simp: bind_eq_Some_conv lgtd_client_read_callback_def)
  have wf: "wf_world w" and cl: "wf_clients (clients, w)" using assms(1) by (simp_all add: wf_daemon_def)
  from read_requests_world [OF c(2) wf] have w': "wf_world w'" "steady w w'" "c_io c' = c_io c"
    by (simp_all add: keeps_gateways_def)
  have "c_io c" using cl map_of_SomeD [OF c(1)] by (auto simp: wf_clients_def)
  then have "p < w_next_ptr w' \<and> c_io d" if "(p, d) \<in> set (amod client (\<lambda>_. c') clients)" for p d
    using cl w'(2,3) that by (auto simp: wf_clients_def steady_def amod_def split: if_splits)
  then have "wf_clients s'" using cl w'(2) by (auto simp: wf_clients_def c(3) steady_def simp del: set_map)
  then show ?thesis using w'(1) by (simp add: wf_daemon_def c(3))
qed

fun returns_event :: "daemon_event \<Rightarrow> bool" where
  "returns_event (Client_input _ _ _) = False"
| "returns_event _ = True"

lemma event_carries_on:
  assumes "wf_daemon s" "\<not> exited s" "event_ok ev s" "returns_event ev"
  shows "carries_on (run_event env ev s)"
proof -
  obtain clients w where s: "s = (clients, w)" by (cases s)
  have wf: "wf_daemon (clients, w)" "wf_world w" "w_exit w = None" using assms(1,2) by (simp_all add: s wf_daemon_def exited_def)
  note on_world = alive_carries_on [OF wf(1)]
  show ?thesis
  proof (cases ev)
    case Gateway_socket
    then show ?thesis using assms(3) on_world [OF goes_on_alive [OF socket_event_goes_on [OF wf(2,3)]]] by (simp add: s)
  next
    case Broadcast_socket
    then show ?thesis using assms(3) on_world [OF alive_broadcast_event [OF wf(2,3)]] by (simp add: s)
  next
    case Timer_expired
    then show ?thesis using assms(3) on_world [OF timer_alive [OF wf(2)]] by (simp add: s)
  next
    case Discovery_timeout
    then show ?thesis using assms(3) on_world [OF alive_discovery [OF wf(2)]] by (simp add: s)
  next
    case Watchdog_interval
    then have "\<not> (watchdog_drops w \<and> \<not> ep_write_ev (w_broadcast_endpoint w))" using assms(3) by (simp add: s)
    with watchdog_callback_spec [OF wf(2)] have "alive w (lgtd_lifx_discovery_watchdog_interval_callback w)"
      by (auto simp: alive_def steady_def)
    then show ?thesis using Watchdog_interval on_world by (simp add: s)
  next
    case Client_accepted
    then show ?thesis using client_open_carries_on [OF wf(1)] by (simp add: s)
  next
    case Client_input
    then show ?thesis using assms(4) by simp
  next
    case Client_event
    then show ?thesis using client_close_carries_on [OF wf(1)] assms(3) by (simp add: s)
  qed
qed

interpretation daemon_loop: returning_callbacks initial_state "run_event env" exited event_ok wf_daemon returns_event for env
proof
  show "initial_state s \<Longrightarrow> wf_daemon s" for s by (rule initial_wf)
next
  fix s e s'
  assume a: "wf_daemon s" "\<not> exited s" "event_ok e s" "run_event env e s = Some s'" "\<not> exited s'"
  show "wf_daemon s'"
  proof (cases "returns_event e")
    case True
    from event_carries_on [OF a(1-3) this, of env] a(4,5) show ?thesis by (auto simp: carries_on_def exited_def)
  next
    case False
    then obtain client inp nbytes where "e = Client_input client inp nbytes" by (cases e) simp_all
    then show ?thesis using client_input_wf a(1,4) by (cases s) blast
  qed
next
  show "wf_daemon s \<Longrightarrow> \<not> exited s \<Longrightarrow> event_ok e s \<Longrightarrow> returns_event e \<Longrightarrow> \<exists>s'. run_event env e s = Some s'" for s e
    using event_carries_on [of s e env] by (auto simp: carries_on_def)
qed

subsection \<open>Every run\<close>


subsection \<open>An example run\<close>

text \<open>A bulb of the sample network reports that it is on, in a datagram of its gateway.\<close>

definition power_datagram :: bytes where
  "power_datagram = [38, 0, 0, 0x14, 0, 0, 0, 0, 1, 2, 3, 4, 5, 7, 0, 0, 1, 2, 3, 4, 5, 6, 0, 0, 0, 0, 0, 0, 0, 0, 0, 0, 0x16, 0, 0, 0,
     0xff, 0xff] @ replicate 4058 0"

definition power_received :: daemon_event where
  "power_received = Gateway_socket False True False [Recv_data [127, 0, 0, 1] 38 power_datagram] 0 False 0 1"

definition sample_events :: "daemon_event list" where
  "sample_events = [Client_accepted, Discovery_timeout, Client_event 4 False, Client_event 4 True, power_received]"

lemma power_datagram_header:
  "length power_datagram = 4096"
  "lgtd_lifx_wire_decode_header False (header_of_bytes False power_datagram) =
     \<lparr>hdr_size = 38, hdr_protocol = 0x1400, hdr_source = 0, hdr_target = [1, 2, 3, 4, 5, 7, 0, 0], hdr_site = [1, 2, 3, 4, 5, 6],
      hdr_flags = 0, hdr_seqn = 0, hdr_at_time = 0, hdr_packet_type = 0x16, hdr_reserved = [0, 0]\<rparr>"
proof -
  show "length power_datagram = 4096" by (simp add: power_datagram_def)
  have "fld i n power_datagram = fld i n (take 38 power_datagram)" if "i + n \<le> 38" for i n
    using that by (simp add: fld_def drop_take min_def)
  then have "header_of_bytes False power_datagram = header_of_bytes False (take 38 power_datagram)"
    by (simp add: header_of_bytes_def)
  also have "take 38 power_datagram = [38, 0, 0, 0x14, 0, 0, 0, 0, 1, 2, 3, 4, 5, 7, 0, 0, 1, 2, 3, 4, 5, 6, 0, 0, 0, 0, 0, 0, 0, 0, 0, 0, 0x16, 0, 0, 0, 0xff, 0xff]"
    by (simp add: power_datagram_def)
  finally show "lgtd_lifx_wire_decode_header False (header_of_bytes False power_datagram) =
     \<lparr>hdr_size = 38, hdr_protocol = 0x1400, hdr_source = 0, hdr_target = [1, 2, 3, 4, 5, 7, 0, 0], hdr_site = [1, 2, 3, 4, 5, 6],
      hdr_flags = 0, hdr_seqn = 0, hdr_at_time = 0, hdr_packet_type = 0x16, hdr_reserved = [0, 0]\<rparr>"
    by (simp add: header_of_bytes_def fld_def lgtd_lifx_wire_decode_header_def Let_def host_of_def htole16_def
        LGTD_LIFX_PROTOCOL_VERSION_MASK_def LGTD_LIFX_PROTOCOL_FLAGS_MASK_def LGTD_LIFX_PROTOCOL_TAGGED_def)
qed

lemma power_received_ok:
  assumes "w_gateways w = [(1, sample_gateway)]" "w_bulbs w = w_bulbs sample_world" "w_be w = False"
    and "ep_write_ev (w_broadcast_endpoint w)" "w_clock w (w_clock_pos w) \<noteq> 0"
  shows "event_ok power_received (clients, w)"
proof -
  have "map_option pi_handle (lgtd_lifx_wire_get_packet_info LGTD_LIFX_POWER_STATE) = Some Handle_power_state"
    by (simp add: get_packet_info_eq packet_table_defs)
  then obtain info where "lgtd_lifx_wire_get_packet_info LGTD_LIFX_POWER_STATE = Some info" "pi_handle info = Handle_power_state" by auto
  then have "recvs_sane (Some 1) [Recv_data [127, 0, 0, 1] 38 power_datagram] w"
    using assms by (auto simp: lgtd_time_monotonic_msecs_def power_datagram_header Let_def datagram_sane_def packet_sane_def
        device_sane_def hdr_device_addr_def sample_gateway_def calloc_gateway_def split: option.splits)
  then show ?thesis using assms by (auto simp: power_received_def socket_event_sane_def split: option.splits)
qed

lemma sample_events_run:
  "wf_daemon ([], sample_world)" "\<not> exited ([], sample_world)" "list_all returns_event sample_events"
  "events_ok (run_event env) exited event_ok sample_events ([], sample_world)"
proof -
  show "wf_daemon ([], sample_world)" by (simp add: wf_daemon_def wf_clients_def wf_sample_world)
  show "\<not> exited ([], sample_world)" by (simp add: exited_def)
  show "list_all returns_event sample_events" by (simp add: sample_events_def power_received_def)
  show "events_ok (run_event env) exited event_ok sample_events ([], sample_world)"
    by (simp add: sample_events_def exited_def lgtd_client_open_def ext_call_def fresh_ptr_def lgtd_stats_add_def
        on_world_def lgtd_lifx_discovery_timeout_event_callback_def lgtd_lifx_broadcast_discovery_def
        lgtd_client_event_callback_def lgtd_client_close_def lgtd_client_open_from_pipe_def power_received_ok split: option.splits)
qed


end
