(* ===== verification/Event_Loop.thy ===== *)
theory Event_Loop
  imports Command_Pipe Daemon
begin

text \<open>
  The event loop of the process: next to the callbacks of the devices, the timers and the clients, which work on the clients and the
  world, the callbacks of the listening sockets and of the command pipes, which work on the process.
\<close>

subsection \<open>Events\<close>

text \<open>The part of the process that the callbacks of the devices, the timers and the clients work on.\<close>

abbreviation daemon_of :: "lgtd_process \<Rightarrow> daemon" where
  "daemon_of p \<equiv> (pr_clients p, pr_world p)"

datatype loop_event =
    Callback daemon_event
  | Connection lgtd_listen
  | Pipe_readable "pipe_read list" string

fun run_loop_event :: "print_env \<Rightarrow> loop_event \<Rightarrow> lgtd_process \<Rightarrow> lgtd_process option" where
  "run_loop_event env (Callback ev) p =
     map_option (\<lambda>(clients, w). p\<lparr>pr_clients := clients, pr_world := w\<rparr>) (run_event env ev (daemon_of p))"
| "run_loop_event env (Connection listener) p = lgtd_listen_accept_new_client listener p"
| "run_loop_event env (Pipe_readable reads path) p = lgtd_command_pipe_read_callback env reads path p"

text \<open>
  Connections come from a listening socket, so the event of \<open>Daemon\<close> for a client alone is not one of the loop. What is asked of
  the other events of the devices, the timers and the clients is \<open>event_ok\<close>; what comes on a pipe is not restricted.
\<close>

fun loop_event_ok :: "loop_event \<Rightarrow> lgtd_process \<Rightarrow> bool" where
  "loop_event_ok (Callback ev) p \<longleftrightarrow> ev \<noteq> Client_accepted \<and> event_ok ev (daemon_of p)"
| "loop_event_ok (Connection listener) p \<longleftrightarrow> listener \<in> set (pr_listeners p)"
| "loop_event_ok (Pipe_readable reads path) p \<longleftrightarrow> find_pipe path p \<noteq> None"

definition process_exited :: "lgtd_process \<Rightarrow> bool" where
  "process_exited p \<longleftrightarrow> exited (daemon_of p)"

definition process_starts :: "lgtd_process \<Rightarrow> bool" where
  "process_starts p \<longleftrightarrow> initial_state (daemon_of p) \<and> pipes_ok p"

definition wf_process :: "lgtd_process \<Rightarrow> bool" where
  "wf_process p \<longleftrightarrow> wf_daemon (daemon_of p) \<and> pipes_ok p"

abbreviation reachable :: "print_env \<Rightarrow> lgtd_process \<Rightarrow> bool" where
  "reachable env \<equiv> reached process_starts (run_loop_event env) process_exited loop_event_ok"

subsection \<open>The callbacks\<close>

lemma pipes_ok_cong: "pr_command_pipes q = pr_command_pipes p \<Longrightarrow> pipes_ok q = pipes_ok p"
  by (simp add: pipes_ok_def)

lemma callback_wf:
  assumes "wf_process p" "\<not> process_exited p" "event_ok ev (daemon_of p)" "run_loop_event env (Callback ev) p = Some q" "\<not> process_exited q"
  shows "wf_process q"
proof -
  obtain clients w where r: "run_event env ev (daemon_of p) = Some (clients, w)" "q = p\<lparr>pr_clients := clients, pr_world := w\<rparr>"
    using assms(4) by auto
  have "wf_daemon (clients, w)"
    using daemon_loop.run_inv [OF _ _ assms(3) r(1)] assms(1,2,5) by (simp add: wf_process_def process_exited_def r(2))
  then show ?thesis using assms(1) pipes_ok_cong [of q p] by (simp add: wf_process_def r(2))
qed

lemma connection_wf:
  assumes "wf_process p" "\<not> process_exited p" "run_loop_event env (Connection listener) p = Some q" "\<not> process_exited q"
  shows "wf_process q"
proof -
  have "run_loop_event env (Callback Client_accepted) p = Some q"
    using assms(3) by (auto simp: lgtd_listen_accept_new_client_def bind_eq_Some_conv split: if_splits)
  from callback_wf [OF assms(1,2) _ this assms(4)] show ?thesis by simp
qed

lemma reset_clients: "pr_clients (lgtd_command_pipe_reset path p) = pr_clients p"
proof -
  obtain ok q where q: "pipe_open path (pipe_close path p) = (ok, q)" by fastforce
  from pipe_open_spec [OF this] have "pr_clients q = pr_clients (pipe_close path p)"
    by (auto simp: on_path_def)
  moreover have "pr_clients (pipe_close path p) = pr_clients p" by (simp add: pipe_close_def)
  ultimately show ?thesis unfolding lgtd_command_pipe_reset_def q by simp
qed

lemma pipe_wf:
  assumes "wf_process p" "run_loop_event env (Pipe_readable reads path) p = Some q"
  shows "wf_process q"
proof -
  have p: "wf_world (pr_world p)" "wf_clients (daemon_of p)" "pipes_ok p" using assms(1) by (simp_all add: wf_process_def wf_daemon_def)
  have q: "lgtd_command_pipe_read_callback env reads path p = Some q" using assms(2) by simp
  note kept = pipe_callback_keeps [OF p(1,3) q]
  have "pr_clients q = pr_clients p"
    using q by (auto simp: lgtd_command_pipe_read_callback_def bind_eq_Some_conv reset_clients Let_def)
  moreover have "steady (pr_world p) (pr_world q)" using kept by (simp add: keeps_gateways_def)
  ultimately have "wf_clients (daemon_of q)" using p(2) by (fastforce simp: wf_clients_def steady_def)
  then show ?thesis using kept by (simp add: wf_process_def wf_daemon_def)
qed

interpretation event_loop: callbacks process_starts "run_loop_event env" process_exited loop_event_ok wf_process for env
proof
  show "process_starts p \<Longrightarrow> wf_process p" for p by (simp add: process_starts_def wf_process_def initial_wf)
next
  fix p e q
  assume a: "wf_process p" "\<not> process_exited p" "loop_event_ok e p" "run_loop_event env e p = Some q" "\<not> process_exited q"
  show "wf_process q"
  proof (cases e)
    case (Callback ev)
    then have "event_ok ev (daemon_of p)" using a(3) by simp
    from callback_wf [OF a(1,2) this _ a(5)] a(4) Callback show ?thesis by blast
  next
    case (Connection listener)
    then show ?thesis using connection_wf [OF a(1,2) _ a(5)] a(4) by blast
  next
    case (Pipe_readable reads path)
    then show ?thesis using pipe_wf [OF a(1)] a(4) by blast
  qed
qed

lemma reachable_step:
  "reachable env p \<Longrightarrow> \<not> process_exited p \<Longrightarrow> loop_event_ok e p \<Longrightarrow> run_loop_event env e p = Some q \<Longrightarrow> reachable env q"
  by (rule reached.step)

subsection \<open>Every run\<close>


subsection \<open>An example run\<close>

text \<open>A client connects to a process that just started, and the beginning of a request comes on its pipe.\<close>

definition looping_process :: lgtd_process where
  "looping_process = piping_process\<lparr>pr_world := example_world, pr_clients := [],
     pr_listeners := [\<lparr>ln_sockaddr = Sockaddr_un ''/run/s''\<rparr>]\<rparr>"

definition connected_process :: lgtd_process where
  "connected_process = looping_process\<lparr>pr_clients := [(1, lgtd_client_open_from_pipe\<lparr>c_io := True\<rparr>)],
     pr_world := example_world\<lparr>w_next_ptr := 2, w_ext_pos := 4, w_stats := (w_stats example_world)\<lparr>st_clients := 1\<rparr>\<rparr>\<rparr>"

lemma looping_process_connects:
  "process_starts looping_process" "\<not> process_exited looping_process" "\<not> process_exited connected_process"
  "run_loop_event env (Connection \<lparr>ln_sockaddr = Sockaddr_un ''/run/s''\<rparr>) looping_process = Some connected_process"
proof -
  show "process_starts looping_process" using piping_process_ok(2) pipes_ok_cong [of looping_process piping_process]
    by (simp add: process_starts_def initial_state_def looping_process_def example_world_def)
  show "\<not> process_exited looping_process" "\<not> process_exited connected_process"
    by (simp_all add: process_exited_def exited_def looping_process_def connected_process_def example_world_def)
  have "lgtd_sockaddrtoa (pr_inet_ntop looping_process) (pr_sun_path_size looping_process) (Sockaddr_un ''/run/s'') LGTD_SOCKADDR_STRLEN \<noteq> None"
    by code_simp
  then show "run_loop_event env (Connection \<lparr>ln_sockaddr = Sockaddr_un ''/run/s''\<rparr>) looping_process = Some connected_process"
    by (auto simp: lgtd_listen_accept_new_client_def lgtd_client_open_def ext_call_def fresh_ptr_def lgtd_stats_add_def
        connected_process_def looping_process_def example_world_def)
qed

lemma connected_process_reads:
  "\<exists>q. run_loop_event sample_env (Pipe_readable [Pipe_data ''{\"jsonrpc''] ''/run/p'') connected_process = Some q
     \<and> cp_read_buf (hd (pr_command_pipes q)) = ''{\"jsonrpc'' \<and> \<not> process_exited q"
proof -
  have "map_option (\<lambda>(rest, client, w). (rest, w_exit w)) (pipe_requests sample_env ''{\"jsonrpc'' lgtd_client_open_from_pipe (pr_world connected_process))
      = Some (''{\"jsonrpc'', None)" by code_simp
  then obtain c w where "pipe_requests sample_env ''{\"jsonrpc'' lgtd_client_open_from_pipe (pr_world connected_process) = Some (''{\"jsonrpc'', c, w)"
    "w_exit w = None" by auto
  then show ?thesis
    by (simp add: lgtd_command_pipe_read_callback_def find_pipe_def connected_process_def looping_process_def piping_process_def
        process_exited_def exited_def)
qed


end
