(* ===== verification/Sys_Tree.thy ===== *)
theory Sys_Tree
  imports Lightsd_Prelude
begin

text \<open>
  The red-black trees of \<open>src/compat/generic/sys/tree.h\<close>, pointer by pointer. An element is an address; \<open>rbh_entries\<close>
  is the \<open>RB_ENTRY\<close> of every element that is allocated, \<open>None\<close> as a pointer is \<open>NULL\<close>. Following or writing through
  \<open>NULL\<close>, or an element that is not allocated, has no result. The macros that \<open>RB_GENERATE\<close> makes into functions take
  the comparison function as an argument. \<open>RB_AUGMENT\<close> is empty here and left out; the argument \<open>tmp\<close> of the rotations
  is a scratch variable. \<open>RB_PREV\<close> and the reverse walks have no users in lightsd and are left out, as are splay trees.
\<close>

subsection \<open>Entries\<close>

type_synonym rb_ptr = "nat option"

datatype rb_color = RB_BLACK | RB_RED

record rb_entry =
  rbe_left :: rb_ptr
  rbe_right :: rb_ptr
  rbe_parent :: rb_ptr
  rbe_color :: rb_color

record rb_head =
  rbh_root :: rb_ptr
  rbh_entries :: "nat \<Rightarrow> rb_entry option"

definition rb_get :: "(rb_entry \<Rightarrow> 'a) \<Rightarrow> rb_ptr \<Rightarrow> rb_head \<Rightarrow> 'a option" where
  "rb_get field elm head = map_option field (Option.bind elm (rbh_entries head))"

definition rb_set :: "(rb_entry \<Rightarrow> rb_entry) \<Rightarrow> rb_ptr \<Rightarrow> rb_head \<Rightarrow> rb_head option" where
  "rb_set f elm head =
     do {
       e \<leftarrow> elm;
       entry \<leftarrow> rbh_entries head e;
       Some (head\<lparr>rbh_entries := (rbh_entries head)(e \<mapsto> f entry)\<rparr>)
     }"

definition RB_LEFT :: "rb_ptr \<Rightarrow> rb_head \<Rightarrow> rb_ptr option" where
  "RB_LEFT = rb_get rbe_left"

definition RB_RIGHT :: "rb_ptr \<Rightarrow> rb_head \<Rightarrow> rb_ptr option" where
  "RB_RIGHT = rb_get rbe_right"

definition RB_PARENT :: "rb_ptr \<Rightarrow> rb_head \<Rightarrow> rb_ptr option" where
  "RB_PARENT = rb_get rbe_parent"

definition RB_COLOR :: "rb_ptr \<Rightarrow> rb_head \<Rightarrow> rb_color option" where
  "RB_COLOR = rb_get rbe_color"

definition set_RB_LEFT :: "rb_ptr \<Rightarrow> rb_ptr \<Rightarrow> rb_head \<Rightarrow> rb_head option" where
  "set_RB_LEFT elm v = rb_set (\<lambda>e. e\<lparr>rbe_left := v\<rparr>) elm"

definition set_RB_RIGHT :: "rb_ptr \<Rightarrow> rb_ptr \<Rightarrow> rb_head \<Rightarrow> rb_head option" where
  "set_RB_RIGHT elm v = rb_set (\<lambda>e. e\<lparr>rbe_right := v\<rparr>) elm"

definition set_RB_PARENT :: "rb_ptr \<Rightarrow> rb_ptr \<Rightarrow> rb_head \<Rightarrow> rb_head option" where
  "set_RB_PARENT elm v = rb_set (\<lambda>e. e\<lparr>rbe_parent := v\<rparr>) elm"

definition set_RB_COLOR :: "rb_ptr \<Rightarrow> rb_color \<Rightarrow> rb_head \<Rightarrow> rb_head option" where
  "set_RB_COLOR elm c = rb_set (\<lambda>e. e\<lparr>rbe_color := c\<rparr>) elm"

definition RB_SET :: "rb_ptr \<Rightarrow> rb_ptr \<Rightarrow> rb_head \<Rightarrow> rb_head option" where
  "RB_SET elm parent = rb_set (\<lambda>e. \<lparr>rbe_left = None, rbe_right = None, rbe_parent = parent, rbe_color = RB_RED\<rparr>) elm"

definition RB_SET_BLACKRED :: "rb_ptr \<Rightarrow> rb_ptr \<Rightarrow> rb_head \<Rightarrow> rb_head option" where
  "RB_SET_BLACKRED black red head =
     do { head \<leftarrow> set_RB_COLOR black RB_BLACK head; set_RB_COLOR red RB_RED head }"

text \<open>What takes the place of \<open>elm\<close> below its parent, or at the root; the parent is read anew.\<close>

definition relink_parent :: "rb_ptr \<Rightarrow> rb_ptr \<Rightarrow> rb_ptr \<Rightarrow> rb_head \<Rightarrow> rb_head option" where
  "relink_parent parent elm child head =
     (if parent \<noteq> None then do {
        left \<leftarrow> RB_LEFT parent head;
        if left = elm then set_RB_LEFT parent child head else set_RB_RIGHT parent child head
      } else Some (head\<lparr>rbh_root := child\<rparr>))"

subsection \<open>Rotations\<close>

definition RB_ROTATE_LEFT :: "rb_ptr \<Rightarrow> rb_head \<Rightarrow> rb_head option" where
  "RB_ROTATE_LEFT elm head =
     do {
       tmp \<leftarrow> RB_RIGHT elm head;
       left \<leftarrow> RB_LEFT tmp head;
       head \<leftarrow> set_RB_RIGHT elm left head;
       head \<leftarrow> (if left \<noteq> None then set_RB_PARENT left elm head else Some head);
       parent \<leftarrow> RB_PARENT elm head;
       head \<leftarrow> set_RB_PARENT tmp parent head;
       head \<leftarrow> relink_parent parent elm tmp head;
       head \<leftarrow> set_RB_LEFT tmp elm head;
       set_RB_PARENT elm tmp head
     }"

text \<open>Here too a node is compared with the left child of its parent.\<close>

definition RB_ROTATE_RIGHT :: "rb_ptr \<Rightarrow> rb_head \<Rightarrow> rb_head option" where
  "RB_ROTATE_RIGHT elm head =
     do {
       tmp \<leftarrow> RB_LEFT elm head;
       right \<leftarrow> RB_RIGHT tmp head;
       head \<leftarrow> set_RB_LEFT elm right head;
       head \<leftarrow> (if right \<noteq> None then set_RB_PARENT right elm head else Some head);
       parent \<leftarrow> RB_PARENT elm head;
       head \<leftarrow> set_RB_PARENT tmp parent head;
       head \<leftarrow> relink_parent parent elm tmp head;
       head \<leftarrow> set_RB_RIGHT tmp elm head;
       set_RB_PARENT elm tmp head
     }"

subsection \<open>Insertion\<close>

definition is_red :: "rb_ptr \<Rightarrow> rb_head \<Rightarrow> bool option" where
  "is_red elm head = (if elm \<noteq> None then map_option (\<lambda>c. c = RB_RED) (RB_COLOR elm head) else Some False)"

text \<open>A round of \<open>RB_INSERT_COLOR\<close>, for a parent that is a left and for one that is a right child.\<close>

definition insert_color_left :: "rb_ptr \<Rightarrow> rb_ptr \<Rightarrow> rb_ptr \<Rightarrow> rb_head \<Rightarrow> (rb_ptr \<times> rb_head) option" where
  "insert_color_left gparent parent elm head =
     do {
       tmp \<leftarrow> RB_RIGHT gparent head;
       red \<leftarrow> is_red tmp head;
       if red then do {
         head \<leftarrow> set_RB_COLOR tmp RB_BLACK head;
         head \<leftarrow> RB_SET_BLACKRED parent gparent head;
         Some (gparent, head)
       } else do {
         right \<leftarrow> RB_RIGHT parent head;
         (parent, elm, head) \<leftarrow>
           (if right = elm then do { head \<leftarrow> RB_ROTATE_LEFT parent head; Some (elm, parent, head) }
            else Some (parent, elm, head));
         head \<leftarrow> RB_SET_BLACKRED parent gparent head;
         head \<leftarrow> RB_ROTATE_RIGHT gparent head;
         Some (elm, head)
       }
     }"

definition insert_color_right :: "rb_ptr \<Rightarrow> rb_ptr \<Rightarrow> rb_ptr \<Rightarrow> rb_head \<Rightarrow> (rb_ptr \<times> rb_head) option" where
  "insert_color_right gparent parent elm head =
     do {
       tmp \<leftarrow> RB_LEFT gparent head;
       red \<leftarrow> is_red tmp head;
       if red then do {
         head \<leftarrow> set_RB_COLOR tmp RB_BLACK head;
         head \<leftarrow> RB_SET_BLACKRED parent gparent head;
         Some (gparent, head)
       } else do {
         left \<leftarrow> RB_LEFT parent head;
         (parent, elm, head) \<leftarrow>
           (if left = elm then do { head \<leftarrow> RB_ROTATE_RIGHT parent head; Some (elm, parent, head) }
            else Some (parent, elm, head));
         head \<leftarrow> RB_SET_BLACKRED parent gparent head;
         head \<leftarrow> RB_ROTATE_LEFT gparent head;
         Some (elm, head)
       }
     }"

partial_function (option) insert_color_loop :: "rb_ptr \<Rightarrow> rb_head \<Rightarrow> rb_head option" where
  [code]: "insert_color_loop elm head =
     do {
       parent \<leftarrow> RB_PARENT elm head;
       red \<leftarrow> is_red parent head;
       if red then do {
         gparent \<leftarrow> RB_PARENT parent head;
         left \<leftarrow> RB_LEFT gparent head;
         r \<leftarrow> (if parent = left then insert_color_left gparent parent elm head
               else insert_color_right gparent parent elm head);
         insert_color_loop (fst r) (snd r)
       } else Some head
     }"

definition RB_INSERT_COLOR :: "rb_ptr \<Rightarrow> rb_head \<Rightarrow> rb_head option" where
  "RB_INSERT_COLOR elm head =
     do { head \<leftarrow> insert_color_loop elm head; set_RB_COLOR (rbh_root head) RB_BLACK head }"

text \<open>The descent: the element with an equal key, or the last element seen and the outcome of the last comparison.\<close>

partial_function (option) insert_descend ::
  "(nat \<Rightarrow> nat \<Rightarrow> int) \<Rightarrow> nat \<Rightarrow> rb_ptr \<Rightarrow> rb_ptr \<Rightarrow> int \<Rightarrow> rb_head \<Rightarrow> (rb_ptr \<times> rb_ptr \<times> int) option" where
  [code]: "insert_descend cmp elm tmp parent cmpval head =
     (case tmp of
        None \<Rightarrow> Some (None, parent, cmpval)
      | Some t \<Rightarrow>
          (let cmpval = cmp elm t in
           if cmpval < 0 then do { left \<leftarrow> RB_LEFT tmp head; insert_descend cmp elm left tmp cmpval head }
           else if 0 < cmpval then do { right \<leftarrow> RB_RIGHT tmp head; insert_descend cmp elm right tmp cmpval head }
           else Some (tmp, tmp, cmpval)))"

definition RB_INSERT :: "(nat \<Rightarrow> nat \<Rightarrow> int) \<Rightarrow> nat \<Rightarrow> rb_head \<Rightarrow> (rb_ptr \<times> rb_head) option" where
  "RB_INSERT cmp elm head =
     do {
       (found, parent, cmpval) \<leftarrow> insert_descend cmp elm (rbh_root head) None 0 head;
       if found \<noteq> None then Some (found, head) else do {
         head \<leftarrow> RB_SET (Some elm) parent head;
         head \<leftarrow> (if parent \<noteq> None then
                    (if cmpval < 0 then set_RB_LEFT parent (Some elm) head else set_RB_RIGHT parent (Some elm) head)
                  else Some (head\<lparr>rbh_root := Some elm\<rparr>));
         head \<leftarrow> RB_INSERT_COLOR (Some elm) head;
         Some (None, head)
       }
     }"

subsection \<open>Removal\<close>

text \<open>\<open>elm == NULL || RB_COLOR(elm) == RB_BLACK\<close>\<close>

definition is_black :: "rb_ptr \<Rightarrow> rb_head \<Rightarrow> bool option" where
  "is_black elm head = (if elm = None then Some True else map_option (\<lambda>c. c = RB_BLACK) (RB_COLOR elm head))"

text \<open>
  A round of \<open>RB_REMOVE_COLOR\<close>, for an element that is a left and for one that is a right child: the new \<open>elm\<close> and
  \<open>parent\<close>, and whether the loop was left with \<open>break\<close>.
\<close>

definition remove_color_left :: "rb_ptr \<Rightarrow> rb_head \<Rightarrow> (rb_ptr \<times> rb_ptr \<times> bool \<times> rb_head) option" where
  "remove_color_left parent head =
     do {
       tmp \<leftarrow> RB_RIGHT parent head;
       color \<leftarrow> RB_COLOR tmp head;
       (tmp, head) \<leftarrow>
         (if color = RB_RED then do {
            head \<leftarrow> RB_SET_BLACKRED tmp parent head;
            head \<leftarrow> RB_ROTATE_LEFT parent head;
            tmp \<leftarrow> RB_RIGHT parent head;
            Some (tmp, head)
          } else Some (tmp, head));
       left \<leftarrow> RB_LEFT tmp head;
       left_black \<leftarrow> is_black left head;
       right \<leftarrow> RB_RIGHT tmp head;
       right_black \<leftarrow> is_black right head;
       if left_black \<and> right_black then do {
         head \<leftarrow> set_RB_COLOR tmp RB_RED head;
         up \<leftarrow> RB_PARENT parent head;
         Some (parent, up, False, head)
       } else do {
         (tmp, head) \<leftarrow>
           (if right_black then do {
              head \<leftarrow> (if left \<noteq> None then set_RB_COLOR left RB_BLACK head else Some head);
              head \<leftarrow> set_RB_COLOR tmp RB_RED head;
              head \<leftarrow> RB_ROTATE_RIGHT tmp head;
              tmp \<leftarrow> RB_RIGHT parent head;
              Some (tmp, head)
            } else Some (tmp, head));
         color \<leftarrow> RB_COLOR parent head;
         head \<leftarrow> set_RB_COLOR tmp color head;
         head \<leftarrow> set_RB_COLOR parent RB_BLACK head;
         right \<leftarrow> RB_RIGHT tmp head;
         head \<leftarrow> (if right \<noteq> None then set_RB_COLOR right RB_BLACK head else Some head);
         head \<leftarrow> RB_ROTATE_LEFT parent head;
         Some (rbh_root head, parent, True, head)
       }
     }"

definition remove_color_right :: "rb_ptr \<Rightarrow> rb_head \<Rightarrow> (rb_ptr \<times> rb_ptr \<times> bool \<times> rb_head) option" where
  "remove_color_right parent head =
     do {
       tmp \<leftarrow> RB_LEFT parent head;
       color \<leftarrow> RB_COLOR tmp head;
       (tmp, head) \<leftarrow>
         (if color = RB_RED then do {
            head \<leftarrow> RB_SET_BLACKRED tmp parent head;
            head \<leftarrow> RB_ROTATE_RIGHT parent head;
            tmp \<leftarrow> RB_LEFT parent head;
            Some (tmp, head)
          } else Some (tmp, head));
       left \<leftarrow> RB_LEFT tmp head;
       left_black \<leftarrow> is_black left head;
       right \<leftarrow> RB_RIGHT tmp head;
       right_black \<leftarrow> is_black right head;
       if left_black \<and> right_black then do {
         head \<leftarrow> set_RB_COLOR tmp RB_RED head;
         up \<leftarrow> RB_PARENT parent head;
         Some (parent, up, False, head)
       } else do {
         (tmp, head) \<leftarrow>
           (if left_black then do {
              head \<leftarrow> (if right \<noteq> None then set_RB_COLOR right RB_BLACK head else Some head);
              head \<leftarrow> set_RB_COLOR tmp RB_RED head;
              head \<leftarrow> RB_ROTATE_LEFT tmp head;
              tmp \<leftarrow> RB_LEFT parent head;
              Some (tmp, head)
            } else Some (tmp, head));
         color \<leftarrow> RB_COLOR parent head;
         head \<leftarrow> set_RB_COLOR tmp color head;
         head \<leftarrow> set_RB_COLOR parent RB_BLACK head;
         left \<leftarrow> RB_LEFT tmp head;
         head \<leftarrow> (if left \<noteq> None then set_RB_COLOR left RB_BLACK head else Some head);
         head \<leftarrow> RB_ROTATE_RIGHT parent head;
         Some (rbh_root head, parent, True, head)
       }
     }"

partial_function (option) remove_color_loop :: "rb_ptr \<Rightarrow> rb_ptr \<Rightarrow> rb_head \<Rightarrow> (rb_ptr \<times> rb_head) option" where
  [code]: "remove_color_loop parent elm head =
     do {
       black \<leftarrow> is_black elm head;
       if black \<and> elm \<noteq> rbh_root head then do {
         left \<leftarrow> RB_LEFT parent head;
         r \<leftarrow> (if left = elm then remove_color_left parent head else remove_color_right parent head);
         (case r of (elm, parent, stop, head) \<Rightarrow>
            if stop then Some (elm, head) else remove_color_loop parent elm head)
       } else Some (elm, head)
     }"

definition RB_REMOVE_COLOR :: "rb_ptr \<Rightarrow> rb_ptr \<Rightarrow> rb_head \<Rightarrow> rb_head option" where
  "RB_REMOVE_COLOR parent elm head =
     do {
       (elm, head) \<leftarrow> remove_color_loop parent elm head;
       if elm \<noteq> None then set_RB_COLOR elm RB_BLACK head else Some head
     }"

text \<open>\<open>while ((left = RB_LEFT(elm))) elm = left;\<close>\<close>

partial_function (option) leftmost :: "rb_ptr \<Rightarrow> rb_head \<Rightarrow> rb_ptr option" where
  [code]: "leftmost elm head = do { left \<leftarrow> RB_LEFT elm head; if left \<noteq> None then leftmost left head else Some elm }"

text \<open>An element with at most one child gives its place to it: what both branches of \<open>RB_REMOVE\<close> do.\<close>

definition unlink :: "rb_ptr \<Rightarrow> rb_ptr \<Rightarrow> rb_ptr \<Rightarrow> rb_head \<Rightarrow> rb_head option" where
  "unlink elm child parent head =
     do {
       head \<leftarrow> (if child \<noteq> None then set_RB_PARENT child parent head else Some head);
       relink_parent parent elm child head
     }"

text \<open>\<open>(elm)->field = (old)->field\<close> and the pointers to \<open>old\<close>.\<close>

definition take_place :: "rb_ptr \<Rightarrow> rb_ptr \<Rightarrow> rb_head \<Rightarrow> rb_head option" where
  "take_place elm old head =
     do {
       entry \<leftarrow> rb_get id old head;
       head \<leftarrow> rb_set (\<lambda>_. entry) elm head;
       up \<leftarrow> RB_PARENT old head;
       head \<leftarrow> relink_parent up old elm head;
       left \<leftarrow> RB_LEFT old head;
       head \<leftarrow> set_RB_PARENT left elm head;
       right \<leftarrow> RB_RIGHT old head;
       if right \<noteq> None then set_RB_PARENT right elm head else Some head
     }"

definition RB_REMOVE :: "nat \<Rightarrow> rb_head \<Rightarrow> (rb_ptr \<times> rb_head) option" where
  "RB_REMOVE old head =
     do {
       left \<leftarrow> RB_LEFT (Some old) head;
       right \<leftarrow> RB_RIGHT (Some old) head;
       (parent, child, color, head) \<leftarrow>
         (if left \<noteq> None \<and> right \<noteq> None then do {
            elm \<leftarrow> leftmost right head;
            child \<leftarrow> RB_RIGHT elm head;
            parent \<leftarrow> RB_PARENT elm head;
            color \<leftarrow> RB_COLOR elm head;
            head \<leftarrow> unlink elm child parent head;
            up \<leftarrow> RB_PARENT elm head;
            let parent = (if up = Some old then elm else parent);
            head \<leftarrow> take_place elm (Some old) head;
            Some (parent, child, color, head)
          } else do {
            let child = (if left = None then right else left);
            parent \<leftarrow> RB_PARENT (Some old) head;
            color \<leftarrow> RB_COLOR (Some old) head;
            head \<leftarrow> unlink (Some old) child parent head;
            Some (parent, child, color, head)
          });
       head \<leftarrow> (if color = RB_BLACK then RB_REMOVE_COLOR parent child head else Some head);
       Some (Some old, head)
     }"

subsection \<open>Searching\<close>

partial_function (option) find_from :: "(nat \<Rightarrow> nat \<Rightarrow> int) \<Rightarrow> nat \<Rightarrow> rb_ptr \<Rightarrow> rb_head \<Rightarrow> rb_ptr option" where
  [code]: "find_from cmp elm tmp head =
     (case tmp of
        None \<Rightarrow> Some None
      | Some t \<Rightarrow>
          (let cmpval = cmp elm t in
           if cmpval < 0 then do { left \<leftarrow> RB_LEFT tmp head; find_from cmp elm left head }
           else if 0 < cmpval then do { right \<leftarrow> RB_RIGHT tmp head; find_from cmp elm right head }
           else Some tmp))"

definition RB_FIND :: "(nat \<Rightarrow> nat \<Rightarrow> int) \<Rightarrow> nat \<Rightarrow> rb_head \<Rightarrow> rb_ptr option" where
  "RB_FIND cmp elm head = find_from cmp elm (rbh_root head) head"

partial_function (option) nfind_from :: "(nat \<Rightarrow> nat \<Rightarrow> int) \<Rightarrow> nat \<Rightarrow> rb_ptr \<Rightarrow> rb_ptr \<Rightarrow> rb_head \<Rightarrow> rb_ptr option" where
  [code]: "nfind_from cmp elm tmp res head =
     (case tmp of
        None \<Rightarrow> Some res
      | Some t \<Rightarrow>
          (let cmpval = cmp elm t in
           if cmpval < 0 then do { left \<leftarrow> RB_LEFT tmp head; nfind_from cmp elm left tmp head }
           else if 0 < cmpval then do { right \<leftarrow> RB_RIGHT tmp head; nfind_from cmp elm right res head }
           else Some tmp))"

definition RB_NFIND :: "(nat \<Rightarrow> nat \<Rightarrow> int) \<Rightarrow> nat \<Rightarrow> rb_head \<Rightarrow> rb_ptr option" where
  "RB_NFIND cmp elm head = nfind_from cmp elm (rbh_root head) None head"

subsection \<open>Walking\<close>

partial_function (option) climb_from_right :: "rb_ptr \<Rightarrow> rb_head \<Rightarrow> rb_ptr option" where
  [code]: "climb_from_right elm head =
     do {
       parent \<leftarrow> RB_PARENT elm head;
       if parent = None then Some elm else do {
         right \<leftarrow> RB_RIGHT parent head;
         if elm = right then climb_from_right parent head else Some elm
       }
     }"

definition RB_NEXT :: "rb_ptr \<Rightarrow> rb_head \<Rightarrow> rb_ptr option" where
  "RB_NEXT elm head =
     do {
       right \<leftarrow> RB_RIGHT elm head;
       if right \<noteq> None then leftmost right head
       else do {
         parent \<leftarrow> RB_PARENT elm head;
         left \<leftarrow> (if parent \<noteq> None then RB_LEFT parent head else Some None);
         if parent \<noteq> None \<and> elm = left then Some parent
         else do { elm \<leftarrow> climb_from_right elm head; RB_PARENT elm head }
       }
     }"

partial_function (option) minmax_from :: "int \<Rightarrow> rb_ptr \<Rightarrow> rb_ptr \<Rightarrow> rb_head \<Rightarrow> rb_ptr option" where
  [code]: "minmax_from val tmp parent head =
     (case tmp of
        None \<Rightarrow> Some parent
      | Some _ \<Rightarrow> do {
          next_tmp \<leftarrow> (if val < 0 then RB_LEFT tmp head else RB_RIGHT tmp head);
          minmax_from val next_tmp tmp head
        })"

definition RB_MINMAX :: "int \<Rightarrow> rb_head \<Rightarrow> rb_ptr option" where
  "RB_MINMAX val head = minmax_from val (rbh_root head) None head"

abbreviation RB_NEGINF :: int where "RB_NEGINF \<equiv> -1"
abbreviation RB_INF :: int where "RB_INF \<equiv> 1"

text \<open>
  The elements \<open>RB_FOREACH\<close> visits from an element on, and from the first, when the body does not change the tree; and
  \<open>RB_FOREACH_SAFE\<close>, which reads the next element before it runs the body.
\<close>

partial_function (option) walk :: "rb_ptr \<Rightarrow> rb_head \<Rightarrow> nat list option" where
  [code]: "walk x head =
     (case x of
        None \<Rightarrow> Some []
      | Some e \<Rightarrow> do {
          y \<leftarrow> RB_NEXT x head;
          rest \<leftarrow> walk y head;
          Some (e # rest)
        })"

definition RB_FOREACH :: "rb_head \<Rightarrow> nat list option" where
  "RB_FOREACH head = do { x \<leftarrow> RB_MINMAX RB_NEGINF head; walk x head }"

partial_function (option) walk_safe :: "(nat \<Rightarrow> rb_head \<Rightarrow> rb_head option) \<Rightarrow> rb_ptr \<Rightarrow> rb_head \<Rightarrow> rb_head option" where
  [code]: "walk_safe body x head =
     (case x of
        None \<Rightarrow> Some head
      | Some e \<Rightarrow> do {
          y \<leftarrow> RB_NEXT x head;
          head \<leftarrow> body e head;
          walk_safe body y head
        })"

definition RB_FOREACH_SAFE :: "(nat \<Rightarrow> rb_head \<Rightarrow> rb_head option) \<Rightarrow> rb_head \<Rightarrow> rb_head option" where
  "RB_FOREACH_SAFE body head = do { x \<leftarrow> RB_MINMAX RB_NEGINF head; walk_safe body x head }"

end
