(* ===== verification/Sys_Tree_Shape.thy ===== *)
theory Sys_Tree_Shape
  imports Sys_Tree
begin

text \<open>
  The trees that the pointers of \<open>sys/tree.h\<close> form. A tree of addresses is laid out in the entries; a position in it is a path
  with a subtree at its end. Colouring, rotations and relinking act on the subtree at such a position and leave every
  entry outside of the tree alone. The two mirror images of each operation are instances of one operation with a side.
\<close>

subsection \<open>Trees and paths\<close>

datatype ptree = Tip | Bin rb_color ptree nat ptree

fun root_ptr :: "ptree \<Rightarrow> rb_ptr" where
  "root_ptr Tip = None"
| "root_ptr (Bin c l x r) = Some x"

fun inorder :: "ptree \<Rightarrow> nat list" where
  "inorder Tip = []"
| "inorder (Bin c l x r) = inorder l @ x # inorder r"

text \<open>A node with its subtree on a side (the left one for \<open>True\<close>) and its other subtree.\<close>

definition node :: "bool \<Rightarrow> rb_color \<Rightarrow> ptree \<Rightarrow> nat \<Rightarrow> ptree \<Rightarrow> ptree" where
  "node side c t x s = (if side then Bin c t x s else Bin c s x t)"

text \<open>A step of a path: the side it goes to, the colour and the address of the node, and its other subtree.\<close>

type_synonym path = "(bool \<times> rb_color \<times> nat \<times> ptree) list"

fun plug :: "path \<Rightarrow> ptree \<Rightarrow> ptree" where
  "plug [] t = t"
| "plug ((side, c, x, s) # k) t = plug k (node side c t x s)"

fun parent_ptr :: "path \<Rightarrow> rb_ptr" where
  "parent_ptr [] = None"
| "parent_ptr ((side, c, x, s) # k) = Some x"

fun before :: "path \<Rightarrow> nat list" where
  "before [] = []"
| "before ((side, c, x, s) # k) = before k @ (if side then [] else inorder s @ [x])"

fun after :: "path \<Rightarrow> nat list" where
  "after [] = []"
| "after ((side, c, x, s) # k) = (if side then x # inorder s else []) @ after k"

lemma root_ptr_None [simp]: "root_ptr t = None \<longleftrightarrow> t = Tip" "None = root_ptr t \<longleftrightarrow> t = Tip"
  by (cases t; simp)+

lemma root_ptr_in: "root_ptr t = Some x \<Longrightarrow> x \<in> set (inorder t)"
  by (cases t) auto

lemma node_simps [simp]: "root_ptr (node side c t x s) = Some x" "node side c t x s \<noteq> Tip"
  "set (inorder (node side c t x s)) = insert x (set (inorder t) \<union> set (inorder s))"
  "distinct (inorder (node side c t x s)) \<longleftrightarrow> x \<notin> set (inorder t) \<union> set (inorder s) \<and> distinct (inorder t) \<and> distinct (inorder s)
     \<and> set (inorder t) \<inter> set (inorder s) = {}"
  by (auto simp: node_def)

lemma node_cases: "t \<noteq> Tip \<Longrightarrow> \<exists>c l x r. t = node side c l x r"
  by (cases t; cases side) (auto simp: node_def)

lemma Bin_node: "Bin c l x r = node True c l x r"
  by (simp add: node_def)

lemma node_swap: "node (\<not> side) c t x s = node side c s x t"
  by (simp add: node_def)

lemma inorder_plug: "inorder (plug k t) = before k @ inorder t @ after k"
  by (induction k t rule: plug.induct) (auto simp: node_def)

lemma plug_append: "plug (j @ k) t = plug k (plug j t)"
  by (induction j t rule: plug.induct) auto

lemma root_ptr_plug: "k \<noteq> [] \<Longrightarrow> root_ptr (plug k t) = root_ptr (plug k t')"
  by (induction k arbitrary: t t' rule: rev_induct) (auto simp: plug_append)

lemma inorder_rotate: "inorder (node side d (node side c a x b) y e) = inorder (node side c a x (node side d b y e))"
  by (simp add: node_def)

subsection \<open>Layout\<close>

type_synonym entries = "nat \<Rightarrow> rb_entry option"

abbreviation head_of :: "rb_ptr \<Rightarrow> entries \<Rightarrow> rb_head" where
  "head_of r h \<equiv> \<lparr>rbh_root = r, rbh_entries = h\<rparr>"

definition entry :: "bool \<Rightarrow> rb_color \<Rightarrow> rb_ptr \<Rightarrow> rb_ptr \<Rightarrow> rb_ptr \<Rightarrow> rb_entry" where
  "entry side c p l r = \<lparr>rbe_left = (if side then l else r), rbe_right = (if side then r else l), rbe_parent = p, rbe_color = c\<rparr>"

fun laid_out :: "entries \<Rightarrow> rb_ptr \<Rightarrow> ptree \<Rightarrow> bool" where
  "laid_out h p Tip \<longleftrightarrow> True"
| "laid_out h p (Bin c l x r) \<longleftrightarrow> h x = Some (entry True c p (root_ptr l) (root_ptr r))
     \<and> laid_out h (Some x) l \<and> laid_out h (Some x) r"

lemma laid_out_node [simp]:
  "laid_out h p (node side c l x r) \<longleftrightarrow> h x = Some (entry side c p (root_ptr l) (root_ptr r))
     \<and> laid_out h (Some x) l \<and> laid_out h (Some x) r"
  by (auto simp: node_def entry_def)

fun path_laid_out :: "entries \<Rightarrow> path \<Rightarrow> rb_ptr \<Rightarrow> bool" where
  "path_laid_out h [] p \<longleftrightarrow> True"
| "path_laid_out h ((side, c, x, s) # k) p \<longleftrightarrow> h x = Some (entry side c (parent_ptr k) p (root_ptr s))
     \<and> laid_out h (Some x) s \<and> path_laid_out h k (Some x)"

fun path_nodes :: "path \<Rightarrow> nat set" where
  "path_nodes [] = {}"
| "path_nodes ((side, c, x, s) # k) = insert x (set (inorder s)) \<union> path_nodes k"

fun path_distinct :: "path \<Rightarrow> bool" where
  "path_distinct [] \<longleftrightarrow> True"
| "path_distinct ((side, c, x, s) # k) \<longleftrightarrow> distinct (inorder s) \<and> x \<notin> set (inorder s) \<and> x \<notin> path_nodes k
     \<and> set (inorder s) \<inter> path_nodes k = {} \<and> path_distinct k"

definition at_path :: "rb_head \<Rightarrow> path \<Rightarrow> ptree \<Rightarrow> bool" where
  "at_path head k t \<longleftrightarrow> rbh_root head = root_ptr (plug k t) \<and> laid_out (rbh_entries head) (parent_ptr k) t
     \<and> path_laid_out (rbh_entries head) k (root_ptr t) \<and> distinct (inorder t) \<and> path_distinct k
     \<and> set (inorder t) \<inter> path_nodes k = {}"

abbreviation represents :: "rb_head \<Rightarrow> ptree \<Rightarrow> bool" where
  "represents head t \<equiv> at_path head [] t"

lemma at_path_move: "at_path head ((side, c, x, s) # k) t \<longleftrightarrow> at_path head k (node side c t x s)"
  by (auto simp: at_path_def)

lemma at_path_plug: "at_path head (j @ k) t \<longleftrightarrow> at_path head k (plug j t)"
  by (induction j t rule: plug.induct) (simp_all add: at_path_move)

lemma at_path_represents: "at_path head k t \<longleftrightarrow> represents head (plug k t)"
  using at_path_plug [of head k "[]"] by simp

lemma laid_out_cong: "(\<And>x. x \<in> set (inorder t) \<Longrightarrow> h' x = h x) \<Longrightarrow> laid_out h' p t = laid_out h p t"
  by (induction t arbitrary: p) simp_all

lemma path_laid_out_cong: "(\<And>x. x \<in> path_nodes k \<Longrightarrow> h' x = h x) \<Longrightarrow> path_laid_out h' k p = path_laid_out h k p"
  by (induction h k p rule: path_laid_out.induct) (auto cong: laid_out_cong)

lemma laid_out_upd [simp]: "x \<notin> set (inorder t) \<Longrightarrow> laid_out (h(x := v)) p t = laid_out h p t"
  by (rule laid_out_cong) auto

lemma path_laid_out_upd [simp]: "x \<notin> path_nodes k \<Longrightarrow> path_laid_out (h(x := v)) k p = path_laid_out h k p"
  by (rule path_laid_out_cong) auto

lemma path_nodes_eq: "path_nodes k = set (before k) \<union> set (after k)"
  by (induction k rule: path_nodes.induct) auto

text \<open>The elements of the tree, and that nothing but their entries is written.\<close>

definition nodes_at :: "path \<Rightarrow> ptree \<Rightarrow> nat set" where
  "nodes_at k t = path_nodes k \<union> set (inorder t)"

lemma nodes_at_plug: "nodes_at k t = set (inorder (plug k t))"
  by (auto simp: nodes_at_def inorder_plug path_nodes_eq)

definition only_touches :: "nat set \<Rightarrow> rb_head \<Rightarrow> rb_head \<Rightarrow> bool" where
  "only_touches N head head' \<longleftrightarrow> (\<forall>x. x \<notin> N \<longrightarrow> rbh_entries head' x = rbh_entries head x)"

lemma only_touches_refl [simp]: "only_touches N head head"
  by (simp add: only_touches_def)

lemma only_touches_trans: "only_touches N head head' \<Longrightarrow> only_touches N head' head'' \<Longrightarrow> only_touches N head head''"
  by (simp add: only_touches_def)

text \<open>A step that turns the subtree at a position into another one over the same elements.\<close>

definition reshapes :: "path \<Rightarrow> ptree \<Rightarrow> ptree \<Rightarrow> rb_head \<Rightarrow> rb_head option \<Rightarrow> bool" where
  "reshapes k t t' head r \<longleftrightarrow> (\<exists>head'. r = Some head' \<and> at_path head' k t' \<and> only_touches (nodes_at k t) head head')"

subsection \<open>The two sides\<close>

definition child :: "bool \<Rightarrow> rb_ptr \<Rightarrow> rb_head \<Rightarrow> rb_ptr option" where
  "child side = (if side then RB_LEFT else RB_RIGHT)"

definition set_child :: "bool \<Rightarrow> rb_ptr \<Rightarrow> rb_ptr \<Rightarrow> rb_head \<Rightarrow> rb_head option" where
  "set_child side = (if side then set_RB_LEFT else set_RB_RIGHT)"

text \<open>The rotation that lifts the other child of a node to the given side.\<close>

definition rb_rotate :: "bool \<Rightarrow> rb_ptr \<Rightarrow> rb_head \<Rightarrow> rb_head option" where
  "rb_rotate side elm head =
     do {
       tmp \<leftarrow> child (\<not> side) elm head;
       inner \<leftarrow> child side tmp head;
       head \<leftarrow> set_child (\<not> side) elm inner head;
       head \<leftarrow> (if inner \<noteq> None then set_RB_PARENT inner elm head else Some head);
       parent \<leftarrow> RB_PARENT elm head;
       head \<leftarrow> set_RB_PARENT tmp parent head;
       head \<leftarrow> relink_parent parent elm tmp head;
       head \<leftarrow> set_child side tmp elm head;
       set_RB_PARENT elm tmp head
     }"

lemma rotate_sides: "RB_ROTATE_LEFT = rb_rotate True" "RB_ROTATE_RIGHT = rb_rotate False"
  by (simp_all add: fun_eq_iff rb_rotate_def RB_ROTATE_LEFT_def RB_ROTATE_RIGHT_def child_def set_child_def)

lemma read_fields:
  assumes "h x = Some (entry side c p l r)"
  shows "child side (Some x) (head_of q h) = Some l" "child (\<not> side) (Some x) (head_of q h) = Some r"
    "RB_PARENT (Some x) (head_of q h) = Some p" "RB_COLOR (Some x) (head_of q h) = Some c"
  using assms by (simp_all add: child_def RB_LEFT_def RB_RIGHT_def RB_PARENT_def RB_COLOR_def rb_get_def entry_def)

lemma write_fields:
  assumes "h x = Some (entry side c p l r)"
  shows "set_child side (Some x) l' (head_of q h) = Some (head_of q (h(x \<mapsto> entry side c p l' r)))"
    "set_child (\<not> side) (Some x) r' (head_of q h) = Some (head_of q (h(x \<mapsto> entry side c p l r')))"
    "set_RB_PARENT (Some x) p' (head_of q h) = Some (head_of q (h(x \<mapsto> entry side c p' l r)))"
    "set_RB_COLOR (Some x) c' (head_of q h) = Some (head_of q (h(x \<mapsto> entry side c' p l r)))"
  using assms by (simp_all add: set_child_def set_RB_LEFT_def set_RB_RIGHT_def set_RB_PARENT_def set_RB_COLOR_def rb_set_def entry_def)

lemma read_node:
  assumes "at_path head k (node side c l x r)"
  shows "child side (Some x) head = Some (root_ptr l)" "child (\<not> side) (Some x) head = Some (root_ptr r)"
    "RB_PARENT (Some x) head = Some (parent_ptr k)" "RB_COLOR (Some x) head = Some c"
proof -
  obtain q h where head: "head = head_of q h" by (cases head)
  have "h x = Some (entry side c (parent_ptr k) (root_ptr l) (root_ptr r))" using assms by (simp add: at_path_def head)
  from read_fields [of h x, OF this, of q] show "child side (Some x) head = Some (root_ptr l)"
    "child (\<not> side) (Some x) head = Some (root_ptr r)" "RB_PARENT (Some x) head = Some (parent_ptr k)" "RB_COLOR (Some x) head = Some c"
    by (simp_all add: head)
qed

lemma set_color_reshapes:
  assumes "at_path head k (node side c l x r)"
  shows "reshapes k (node side c l x r) (node side d l x r) head (set_RB_COLOR (Some x) d head)"
proof -
  obtain q h where head: "head = head_of q h" by (cases head)
  have "h x = Some (entry side c (parent_ptr k) (root_ptr l) (root_ptr r))" using assms by (simp add: at_path_def head)
  from write_fields(4) [of h x, OF this] have run: "set_RB_COLOR (Some x) d head = Some (head_of q (h(x \<mapsto> entry side d (parent_ptr k) (root_ptr l) (root_ptr r))))"
    by (simp add: head)
  moreover have "root_ptr (plug k (node side d l x r)) = root_ptr (plug k (node side c l x r))"
    using root_ptr_plug by (cases "k = []") (simp, metis)
  ultimately show ?thesis using assms by (auto simp: reshapes_def at_path_def head only_touches_def nodes_at_def)
qed

subsection \<open>Rotations\<close>

lemma relink_path:
  assumes "path_laid_out h k (Some x)" "path_distinct k" "x \<notin> path_nodes k"
  shows "\<exists>h'. relink_parent (parent_ptr k) (Some x) q (head_of r h) = Some (head_of (if k = [] then q else r) h')
     \<and> path_laid_out h' k q \<and> (\<forall>y. y \<notin> path_nodes k \<longrightarrow> h' y = h y)"
proof (cases k)
  case Nil
  then show ?thesis by (auto simp: relink_parent_def)
next
  case (Cons f j)
  obtain side c p s where f: "f = (side, c, p, s)" by (cases f)
  have "root_ptr s \<noteq> Some x" using assms(3) root_ptr_in [of s x] by (auto simp: Cons f)
  then show ?thesis using assms
    by (cases side) (auto simp: Cons f relink_parent_def RB_LEFT_def rb_get_def set_RB_LEFT_def set_RB_RIGHT_def rb_set_def entry_def)
qed

lemma set_parent_of:
  assumes "laid_out h p t" "distinct (inorder t)"
  shows "\<exists>h'. (if root_ptr t \<noteq> None then set_RB_PARENT (root_ptr t) q (head_of r h) else Some (head_of r h)) = Some (head_of r h')
     \<and> laid_out h' q t \<and> (\<forall>y. y \<notin> set (inorder t) \<longrightarrow> h' y = h y)"
  using assms by (cases t) (auto simp: set_RB_PARENT_def rb_set_def entry_def)

lemma rotate_reshapes:
  assumes "at_path head k (node side c a x (node side d b y e))"
  shows "reshapes k (node side c a x (node side d b y e)) (node side d (node side c a x b) y e) head (rb_rotate side (Some x) head)"
proof -
  obtain r h where head: "head = head_of r h" by (cases head)
  note at = assms [unfolded at_path_def head, simplified]
  define h1 where "h1 = h(x \<mapsto> entry side c (parent_ptr k) (root_ptr a) (root_ptr b))"
  have b: "laid_out h1 (Some y) b" "distinct (inorder b)" using at by (auto simp: h1_def)
  from set_parent_of [OF b, of "Some x" r] obtain h2 where
    h2: "(if root_ptr b \<noteq> None then set_RB_PARENT (root_ptr b) (Some x) (head_of r h1) else Some (head_of r h1)) = Some (head_of r h2)"
      "laid_out h2 (Some x) b" "\<forall>z. z \<notin> set (inorder b) \<longrightarrow> h2 z = h1 z" by blast
  define h3 where "h3 = h2(y \<mapsto> entry side d (parent_ptr k) (root_ptr b) (root_ptr e))"
  have old: "h3 z = h z" if "z \<notin> set (inorder b)" "z \<noteq> x" "z \<noteq> y" for z using h2(3) that by (simp add: h3_def h1_def)
  have "path_laid_out h3 k (Some x) = path_laid_out h k (Some x)"
    by (rule path_laid_out_cong) (use at old in auto)
  with at have "path_laid_out h3 k (Some x)" "path_distinct k" "x \<notin> path_nodes k" by auto
  from relink_path [OF this, of "Some y" r] obtain h4 where
    h4: "relink_parent (parent_ptr k) (Some x) (Some y) (head_of r h3) = Some (head_of (if k = [] then Some y else r) h4)"
      "path_laid_out h4 k (Some y)" "\<forall>z. z \<notin> path_nodes k \<longrightarrow> h4 z = h3 z" by blast
  have hx: "h x = Some (entry side c (parent_ptr k) (root_ptr a) (Some y))" "h y = Some (entry side d (Some x) (root_ptr b) (root_ptr e))"
    using at by auto
  have h2xy: "h2 x = Some (entry side c (parent_ptr k) (root_ptr a) (root_ptr b))" "h2 y = h y" using h2(3) at by (auto simp: h1_def)
  have h4xy: "h4 x = h2 x" "h4 y = Some (entry side d (parent_ptr k) (root_ptr b) (root_ptr e))"
    using h4(3) at by (auto simp: h3_def)
  define h5 where "h5 = h4(y \<mapsto> entry side d (parent_ptr k) (Some x) (root_ptr e), x \<mapsto> entry side c (Some y) (root_ptr a) (root_ptr b))"
  note s2 = write_fields(3) [of h2 y, OF h2xy(2) [unfolded hx], of "parent_ptr k" r, folded h3_def]
  have s5: "Option.bind (set_child side (Some y) (Some x) (head_of q h4)) (set_RB_PARENT (Some x) (Some y)) = Some (head_of q h5)" for q
    using write_fields(1) [of h4 y, OF h4xy(2), of "Some x" q] write_fields(3) [of "h4(y \<mapsto> entry side d (parent_ptr k) (Some x) (root_ptr e))" x side c] h4xy h2xy at
    by (auto simp: h5_def)
  have run: "rb_rotate side (Some x) head = Some (head_of (if k = [] then Some y else r) h5)"
    by (simp only: rb_rotate_def head read_fields [of h x, OF hx(1)] read_fields [of h y, OF hx(2)] write_fields(2) [of h x, OF hx(1)] h1_def [symmetric] h2(1)
        read_fields(3) [of h2 x, OF h2xy(1)] s2 h4(1) s5 bind.bind_lunit)
  have new: "h5 z = h z" if "z \<notin> path_nodes k" "z \<notin> set (inorder b)" "z \<noteq> x" "z \<noteq> y" for z
    using that old h4(3) by (simp add: h5_def)
  have apart: "z \<notin> path_nodes k" "z \<notin> set (inorder b)" "z \<noteq> x" "z \<noteq> y" if "z \<in> set (inorder a) \<union> set (inorder e)" for z
    using at that by auto
  have ae: "laid_out h5 (Some y) e = laid_out h (Some y) e" "laid_out h5 (Some x) a = laid_out h (Some x) a"
    by (rule laid_out_cong, rule new; use apart in blast)+
  have "laid_out h5 (Some x) b = laid_out h2 (Some x) b"
  proof (rule laid_out_cong)
    fix z assume "z \<in> set (inorder b)"
    then have "z \<notin> path_nodes k" "z \<noteq> x" "z \<noteq> y" using at by auto
    then show "h5 z = h2 z" using h4(3) by (simp add: h5_def h3_def)
  qed
  moreover have "path_laid_out h5 k (Some y)" using h4(2) at by (simp add: h5_def)
  moreover have "h5 x = Some (entry side c (Some y) (root_ptr a) (root_ptr b))" "h5 y = Some (entry side d (parent_ptr k) (Some x) (root_ptr e))"
    using at by (auto simp: h5_def)
  moreover have "r = root_ptr (plug k (node side d (node side c a x b) y e))" if "k \<noteq> []" using at root_ptr_plug [OF that] by metis
  ultimately have "at_path (head_of (if k = [] then Some y else r) h5) k (node side d (node side c a x b) y e)"
    unfolding at_path_def using at ae h2(2) by auto
  moreover have "only_touches (nodes_at k (node side c a x (node side d b y e))) head (head_of (if k = [] then Some y else r) h5)"
    using new by (auto simp: only_touches_def nodes_at_def head)
  ultimately show ?thesis using run by (auto simp: reshapes_def)
qed

end
