(* ===== verification/Sys_Tree_Insert.thy ===== *)
theory Sys_Tree_Insert
  imports Sys_Tree_Shape Rb_Table
begin

text \<open>
  The colours of the trees of \<open>sys/tree.h\<close> and \<open>RB_INSERT_COLOR\<close>: it ends, keeps the elements and their order and makes
  the tree a red-black tree again.
\<close>

subsection \<open>Red-black trees\<close>

fun color_of :: "ptree \<Rightarrow> rb_color" where
  "color_of Tip = RB_BLACK"
| "color_of (Bin c l x r) = c"

text \<open>No red node has a red child, and every way down has the given number of black nodes.\<close>

fun balanced :: "nat \<Rightarrow> ptree \<Rightarrow> bool" where
  "balanced n Tip \<longleftrightarrow> n = 0"
| "balanced n (Bin RB_RED l x r) \<longleftrightarrow> balanced n l \<and> balanced n r \<and> color_of l = RB_BLACK \<and> color_of r = RB_BLACK"
| "balanced n (Bin RB_BLACK l x r) \<longleftrightarrow> 0 < n \<and> balanced (n - 1) l \<and> balanced (n - 1) r"

fun path_balanced :: "path \<Rightarrow> rb_color \<Rightarrow> nat \<Rightarrow> bool" where
  "path_balanced [] c n \<longleftrightarrow> c = RB_BLACK"
| "path_balanced ((side, RB_RED, x, s) # k) c n \<longleftrightarrow> c = RB_BLACK \<and> color_of s = RB_BLACK \<and> balanced n s \<and> path_balanced k RB_RED n"
| "path_balanced ((side, RB_BLACK, x, s) # k) c n \<longleftrightarrow> balanced n s \<and> path_balanced k RB_BLACK (Suc n)"

definition red_black :: "ptree \<Rightarrow> bool" where
  "red_black t \<longleftrightarrow> color_of t = RB_BLACK \<and> (\<exists>n. balanced n t)"

fun paint :: "rb_color \<Rightarrow> ptree \<Rightarrow> ptree" where
  "paint d Tip = Tip"
| "paint d (Bin c l x r) = Bin d l x r"

lemma color_of_node [simp]: "color_of (node side c l x r) = c"
  by (simp add: node_def)

lemma balanced_node [simp]:
  "balanced n (node side RB_RED l x r) \<longleftrightarrow> balanced n l \<and> balanced n r \<and> color_of l = RB_BLACK \<and> color_of r = RB_BLACK"
  "balanced n (node side RB_BLACK l x r) \<longleftrightarrow> 0 < n \<and> balanced (n - 1) l \<and> balanced (n - 1) r"
  by (auto simp: node_def)

lemma balanced_node_any:
  "balanced n (node side c l x r) \<longleftrightarrow> (if c = RB_RED then balanced n l \<and> balanced n r \<and> color_of l = RB_BLACK \<and> color_of r = RB_BLACK
     else 0 < n \<and> balanced (n - 1) l \<and> balanced (n - 1) r)"
  by (cases c) simp_all

lemma balanced_plug: "path_balanced k (color_of t) n \<Longrightarrow> balanced n t \<Longrightarrow> red_black (plug k t)"
proof (induction k "color_of t" n arbitrary: t rule: path_balanced.induct)
  case (1 n)
  then show ?case by (auto simp: red_black_def)
next
  case (2 side x s k n)
  then show ?case using "2.hyps" [of "node side RB_RED t x s"] by simp
next
  case (3 side x s k n)
  then show ?case using "3.hyps" [of "node side RB_BLACK t x s"] by simp
qed

lemma path_balanced_plug: "red_black (plug k t) \<Longrightarrow> \<exists>n. balanced n t \<and> path_balanced k (color_of t) n"
proof (induction k t rule: plug.induct)
  case (1 t)
  then show ?case by (simp add: red_black_def)
next
  case (2 side c x s k t)
  then obtain n where n: "balanced n (node side c t x s)" "path_balanced k c n" by auto
  show ?case
  proof (cases c)
    case RB_RED
    then show ?thesis using n by auto
  next
    case RB_BLACK
    then show ?thesis using n by (intro exI [of _ "n - 1"]) simp
  qed
qed

lemma path_balanced_black: "path_balanced k c n \<Longrightarrow> path_balanced k RB_BLACK n"
  by (induction k c n rule: path_balanced.induct) simp_all

lemma balanced_paint: "balanced n t \<Longrightarrow> \<exists>m. balanced m (paint RB_BLACK t)"
proof (cases t)
  case (Bin c l x r)
  moreover assume "balanced n t"
  ultimately show ?thesis by (cases c) (auto intro: exI [of _ "Suc n"])
qed auto

lemma inorder_paint [simp]: "inorder (paint c t) = inorder t"
  by (cases t) simp_all

declare node_swap [simp]

subsection \<open>Steps\<close>

text \<open>The steps of the algorithms on a whole tree, wherever in it the node is.\<close>

lemma color_step:
  assumes "represents head t" "t = plug k (node side c l x r)"
  obtains head' where "set_RB_COLOR (Some x) d head = Some head'" "represents head' (plug k (node side d l x r))"
    "only_touches (set (inorder t)) head head'"
  using set_color_reshapes [of head k side c l x r d] assms at_path_represents
  by (auto simp: reshapes_def nodes_at_plug)

lemma rotate_step:
  assumes "represents head t" "t = plug k (node side c a x (node side d b y e))"
  obtains head' where "rb_rotate side (Some x) head = Some head'" "represents head' (plug k (node side d (node side c a x b) y e))"
    "only_touches (set (inorder t)) head head'"
  using rotate_reshapes [of head k side c a x d b y e] assms at_path_represents
  by (auto simp: reshapes_def nodes_at_plug)

lemma read_step:
  assumes "represents head t" "t = plug k (node side c l x r)"
  shows "child side (Some x) head = Some (root_ptr l)" "child (\<not> side) (Some x) head = Some (root_ptr r)"
    "RB_PARENT (Some x) head = Some (parent_ptr k)" "RB_COLOR (Some x) head = Some c"
    "is_red (Some x) head = Some (c = RB_RED)"
  using read_node [of head k side c l x r] assms at_path_represents by (simp_all add: is_red_def)

text \<open>Reading the colour of a subtree that may be empty.\<close>

lemma is_red_step:
  assumes "represents head t" "t = plug k s"
  shows "is_red (root_ptr s) head = Some (color_of s = RB_RED)" "is_black (root_ptr s) head = Some (color_of s = RB_BLACK)"
  using assms at_path_represents [of head k s]
  by (cases s; auto simp: is_red_def is_black_def at_path_def RB_COLOR_def rb_get_def entry_def)+

subsection \<open>After an insertion\<close>

definition insert_color_side :: "bool \<Rightarrow> rb_ptr \<Rightarrow> rb_ptr \<Rightarrow> rb_ptr \<Rightarrow> rb_head \<Rightarrow> (rb_ptr \<times> rb_head) option" where
  "insert_color_side side gparent parent elm head =
     do {
       tmp \<leftarrow> child (\<not> side) gparent head;
       red \<leftarrow> is_red tmp head;
       if red then do {
         head \<leftarrow> set_RB_COLOR tmp RB_BLACK head;
         head \<leftarrow> RB_SET_BLACKRED parent gparent head;
         Some (gparent, head)
       } else do {
         inner \<leftarrow> child (\<not> side) parent head;
         (parent, elm, head) \<leftarrow>
           (if inner = elm then do { head \<leftarrow> rb_rotate side parent head; Some (elm, parent, head) }
            else Some (parent, elm, head));
         head \<leftarrow> RB_SET_BLACKRED parent gparent head;
         head \<leftarrow> rb_rotate (\<not> side) gparent head;
         Some (elm, head)
       }
     }"

lemma insert_color_sides: "insert_color_left = insert_color_side True" "insert_color_right = insert_color_side False"
  by (simp_all add: fun_eq_iff insert_color_side_def insert_color_left_def insert_color_right_def child_def rotate_sides cong: if_cong)

lemma insert_red_uncle:
  assumes "represents head t" "t = plug k (node side c (node sd d u p s) g (node True RB_RED a y b))"
  shows "\<exists>head'. insert_color_side side (Some g) (Some p) elm head = Some (Some g, head')
     \<and> represents head' (plug k (node side RB_RED (node sd RB_BLACK u p s) g (node True RB_BLACK a y b)))
     \<and> only_touches (set (inorder t)) head head'"
proof -
  let ?P = "node sd d u p s" and ?y = "node True RB_RED a y b" and ?y' = "node True RB_BLACK a y b"
  have t1: "t = plug ((\<not> side, c, g, ?P) # k) ?y" using assms(2) by simp
  note g = read_step [OF assms]
  from color_step [OF assms(1) t1, of RB_BLACK] obtain h1 where
    h1: "set_RB_COLOR (Some y) RB_BLACK head = Some h1" "represents h1 (plug ((\<not> side, c, g, ?P) # k) ?y')"
      "only_touches (set (inorder t)) head h1" .
  from color_step [OF h1(2), of "(side, c, g, ?y') # k" sd d u p s RB_BLACK] obtain h2 where
    h2: "set_RB_COLOR (Some p) RB_BLACK h1 = Some h2" "represents h2 (plug ((side, c, g, ?y') # k) (node sd RB_BLACK u p s))"
      "only_touches (set (inorder t)) h1 h2" by (auto simp: assms(2) inorder_plug)
  from color_step [OF h2(2), of k side c "node sd RB_BLACK u p s" g ?y' RB_RED] obtain h3 where
    h3: "set_RB_COLOR (Some g) RB_RED h2 = Some h3" "represents h3 (plug k (node side RB_RED (node sd RB_BLACK u p s) g ?y'))"
      "only_touches (set (inorder t)) h2 h3" by (auto simp: assms(2) inorder_plug)
  show ?thesis
    using g read_step(5) [OF assms(1) t1] h1 h2 h3 only_touches_trans [OF h1(3) only_touches_trans [OF h2(3) h3(3)]]
    by (simp add: insert_color_side_def RB_SET_BLACKRED_def)
qed

text \<open>Both nodes get their colours and the grandparent goes down.\<close>

lemma insert_black_uncle_end:
  assumes "represents head t" "t = plug k (node side c (node side d u p s) g v)"
  shows "\<exists>head'. do { head \<leftarrow> RB_SET_BLACKRED (Some p) (Some g) head; head \<leftarrow> rb_rotate (\<not> side) (Some g) head; Some (e, head) } = Some (e, head')
     \<and> represents head' (plug k (node side RB_BLACK u p (node side RB_RED s g v))) \<and> only_touches (set (inorder t)) head head'"
proof -
  have "t = plug ((side, c, g, v) # k) (node side d u p s)" using assms(2) by simp
  from color_step [OF assms(1) this, of RB_BLACK] obtain h1 where
    h1: "set_RB_COLOR (Some p) RB_BLACK head = Some h1" "represents h1 (plug ((side, c, g, v) # k) (node side RB_BLACK u p s))"
      "only_touches (set (inorder t)) head h1" .
  from color_step [OF h1(2), of k side c "node side RB_BLACK u p s" g v RB_RED] obtain h2 where
    h2: "set_RB_COLOR (Some g) RB_RED h1 = Some h2" "represents h2 (plug k (node side RB_RED (node side RB_BLACK u p s) g v))"
      "only_touches (set (inorder t)) h1 h2" by (auto simp: assms(2) inorder_plug)
  from rotate_step [OF h2(2), of k "\<not> side" RB_RED v g RB_BLACK s p u] obtain h3 where
    h3: "rb_rotate (\<not> side) (Some g) h2 = Some h3" "represents h3 (plug k (node side RB_BLACK u p (node side RB_RED s g v)))"
      "only_touches (set (inorder t)) h2 h3" by (auto simp: assms(2) inorder_plug)
  show ?thesis using h1 h2 h3 only_touches_trans [OF h1(3) only_touches_trans [OF h2(3) h3(3)]]
    by (simp add: RB_SET_BLACKRED_def)
qed

lemma insert_black_uncle_outer:
  assumes "represents head t" "t = plug k (node side c (node side d u p s) g v)" "color_of v = RB_BLACK"
    "root_ptr s \<noteq> Some e"
  shows "\<exists>head'. insert_color_side side (Some g) (Some p) (Some e) head = Some (Some e, head')
     \<and> represents head' (plug k (node side RB_BLACK u p (node side RB_RED s g v))) \<and> only_touches (set (inorder t)) head head'"
proof -
  have "t = plug ((side, c, g, v) # k) (node side d u p s)" "t = plug ((\<not> side, c, g, node side d u p s) # k) v"
    using assms(2) by simp_all
  note r = read_step [OF assms(1,2)] read_step [OF assms(1) this(1)] is_red_step [OF assms(1) this(2)]
  show ?thesis using r assms(3,4) insert_black_uncle_end [OF assms(1,2), of "Some e"] by (simp add: insert_color_side_def)
qed

lemma insert_black_uncle_inner:
  assumes "represents head t" "t = plug k (node side c (node side d u p (node side f a x b)) g v)" "color_of v = RB_BLACK"
  shows "\<exists>head'. insert_color_side side (Some g) (Some p) (Some x) head = Some (Some p, head')
     \<and> represents head' (plug k (node side RB_BLACK (node side d u p a) x (node side RB_RED b g v)))
     \<and> only_touches (set (inorder t)) head head'"
proof -
  have t: "t = plug ((side, c, g, v) # k) (node side d u p (node side f a x b))"
    "t = plug ((\<not> side, c, g, node side d u p (node side f a x b)) # k) v"
    using assms(2) by simp_all
  note r = read_step [OF assms(1,2)] read_step [OF assms(1) t(1)] is_red_step [OF assms(1) t(2)]
  from rotate_step [OF assms(1) t(1)] obtain h1 where
    h1: "rb_rotate side (Some p) head = Some h1" "represents h1 (plug ((side, c, g, v) # k) (node side f (node side d u p a) x b))"
      "only_touches (set (inorder t)) head h1" .
  have "plug ((side, c, g, v) # k) (node side f (node side d u p a) x b) = plug k (node side c (node side f (node side d u p a) x b) g v)"
    by simp
  moreover have eq: "set (inorder (plug ((side, c, g, v) # k) (node side f (node side d u p a) x b))) = set (inorder t)"
    by (auto simp: assms(2) inorder_plug)
  ultimately obtain h2 where
    h2: "do { head \<leftarrow> RB_SET_BLACKRED (Some x) (Some g) h1; head \<leftarrow> rb_rotate (\<not> side) (Some g) head; Some (Some p, head) } = Some (Some p, h2)"
      "represents h2 (plug k (node side RB_BLACK (node side d u p a) x (node side RB_RED b g v)))" "only_touches (set (inorder t)) h1 h2"
    using insert_black_uncle_end [OF h1(2), of k side c f _ x b g v "Some p", unfolded eq] by blast
  show ?thesis using r assms(3) h1 h2 only_touches_trans [OF h1(3) h2(3)] by (simp add: insert_color_side_def)
qed

lemma insert_color_end:
  assumes "at_path head k (node sd RB_RED a x b)" "k = [] \<or> (\<exists>side p s j. k = (side, RB_BLACK, p, s) # j)"
  shows "insert_color_loop (Some x) head = Some head"
proof -
  have rep: "represents head (plug k (node sd RB_RED a x b))" using assms(1) at_path_represents by blast
  note r = read_step [OF rep refl]
  from assms(2) show ?thesis
  proof (elim disjE exE)
    assume "k = []"
    then show ?thesis using r by (simp add: insert_color_loop.simps is_red_def)
  next
    fix side p s j assume k: "k = (side, RB_BLACK, p, s) # j"
    have "is_red (Some p) head = Some False" using read_step(5) [OF rep, of j side RB_BLACK _ p s] by (simp add: k)
    then show ?thesis using r by (simp add: insert_color_loop.simps k)
  qed
qed

lemma insert_color_step:
  assumes "represents head (plug i (node side RB_BLACK (node d RB_RED (node sd RB_RED a x b) p s) g v))" "root_ptr v \<noteq> Some p"
  shows "insert_color_loop (Some x) head =
     Option.bind (insert_color_side side (Some g) (Some p) (Some x) head) (\<lambda>r. insert_color_loop (fst r) (snd r))"
proof -
  note x = read_step [OF assms(1), of "(d, RB_RED, p, s) # (side, RB_BLACK, g, v) # i" sd RB_RED a x b, simplified]
  note p = read_step [OF assms(1), of "(side, RB_BLACK, g, v) # i" d RB_RED _ p s, simplified]
  note g = read_step [OF assms(1) refl]
  have "RB_LEFT (Some g) head = Some (if side then Some p else root_ptr v)" using g(1,2) by (cases side) (simp_all add: child_def)
  then show ?thesis using x p g assms(2) by (cases side) (simp_all add: insert_color_loop.simps [of "Some x"] insert_color_sides)
qed

text \<open>With a black uncle the round is the last one.\<close>

lemma insert_round_black:
  assumes "represents head t" "t = plug i (node side RB_BLACK (node d RB_RED (node sd RB_RED a x b) p s) g v)"
    and "balanced n (node sd RB_RED a x b)" "color_of s = RB_BLACK" "balanced n s" "balanced n v" "path_balanced i RB_BLACK (Suc n)"
    and "color_of v = RB_BLACK" "root_ptr s \<noteq> Some x"
  shows "\<exists>e head' t'. insert_color_side side (Some g) (Some p) (Some x) head = Some (e, head') \<and> insert_color_loop e head' = Some head'
     \<and> represents head' t' \<and> red_black t' \<and> inorder t' = inorder t \<and> only_touches (set (inorder t)) head head'"
proof (cases "d = side")
  case True
  let ?t = "node sd RB_RED a x b"
  let ?t1 = "node side RB_BLACK ?t p (node side RB_RED s g v)"
  from insert_black_uncle_outer [OF assms(1), of i side RB_BLACK RB_RED ?t p s g v x] assms(2,8,9) True obtain h1 where
    h1: "insert_color_side side (Some g) (Some p) (Some x) head = Some (Some x, h1)" "represents h1 (plug i ?t1)"
      "only_touches (set (inorder t)) head h1" by auto
  have "at_path h1 ((side, RB_BLACK, p, node side RB_RED s g v) # i) ?t"
    by (rule at_path_represents [THEN iffD2]) (use h1(2) in simp)
  from insert_color_end [OF this] have "insert_color_loop (Some x) h1 = Some h1" by blast
  moreover have "balanced (Suc n) ?t1" using assms(3-8) by simp
  then have "red_black (plug i ?t1)" using balanced_plug [of i ?t1 "Suc n"] assms(7) by simp
  moreover have "inorder (plug i ?t1) = inorder t" by (simp add: assms(2) True inorder_plug) (simp add: node_def)
  ultimately show ?thesis using h1 by auto
next
  case False
  then have d: "d = (\<not> side)" by simp
  obtain xa xb where x: "node sd RB_RED a x b = node side RB_RED xa x xb" "balanced n xa" "balanced n xb" "color_of xa = RB_BLACK" "color_of xb = RB_BLACK"
    using assms(3) by (cases "sd = side") (auto simp: node_def)
  let ?t1 = "node side RB_BLACK (node side RB_RED s p xa) x (node side RB_RED xb g v)"
  from insert_black_uncle_inner [OF assms(1), of i side RB_BLACK RB_RED s p RB_RED xa x xb g v] assms(2,8) d x(1) obtain h1 where
    h1: "insert_color_side side (Some g) (Some p) (Some x) head = Some (Some p, h1)" "represents h1 (plug i ?t1)"
      "only_touches (set (inorder t)) head h1" by auto
  have "at_path h1 ((side, RB_BLACK, x, node side RB_RED xb g v) # i) (node side RB_RED s p xa)"
    by (rule at_path_represents [THEN iffD2]) (use h1(2) in simp)
  from insert_color_end [OF this] have "insert_color_loop (Some p) h1 = Some h1" by blast
  moreover have "balanced (Suc n) ?t1" using x assms(4-8) by simp
  then have "red_black (plug i ?t1)" using balanced_plug [of i ?t1 "Suc n"] assms(7) by simp
  moreover have "inorder (plug i ?t1) = inorder t" by (simp add: assms(2) d x(1) inorder_plug) (simp add: node_def)
  ultimately show ?thesis using h1 by auto
qed

lemma insert_color_loop_spec:
  "at_path head k (node sd RB_RED a x b) \<Longrightarrow> balanced n (node sd RB_RED a x b) \<Longrightarrow> path_balanced k RB_BLACK n \<Longrightarrow>
   \<exists>head' t' m. insert_color_loop (Some x) head = Some head' \<and> represents head' t' \<and> balanced m t'
     \<and> inorder t' = inorder (plug k (node sd RB_RED a x b)) \<and> only_touches (nodes_at k (node sd RB_RED a x b)) head head'"
proof (induction k arbitrary: head sd a x b n rule: length_induct)
  case (1 k)
  let ?t = "node sd RB_RED a x b"
  have rep: "represents head (plug k ?t)" using "1.prems"(1) at_path_represents by blast
  show ?case
  proof (cases "k = [] \<or> (\<exists>side p s j. k = (side, RB_BLACK, p, s) # j)")
    case True
    have "\<exists>m. balanced m (plug k ?t)"
    proof (cases "k = []")
      case True
      then show ?thesis using "1.prems"(2) by auto
    next
      case False
      then have "path_balanced k RB_RED n" using True "1.prems"(3) by auto
      then show ?thesis using balanced_plug [of k ?t n] "1.prems"(2) by (simp add: red_black_def)
    qed
    then show ?thesis using insert_color_end [OF "1.prems"(1) True] rep by auto
  next
    case False
    then obtain d p s j where k: "k = (d, RB_RED, p, s) # j" by (metis (full_types) neq_Nil_conv prod_cases4 rb_color.exhaust)
    then have bal: "color_of s = RB_BLACK" "balanced n s" "path_balanced j RB_RED n" using "1.prems"(3) by simp_all
    then obtain side g v i where j: "j = (side, RB_BLACK, g, v) # i"
      by (metis (full_types) neq_Nil_conv prod_cases4 rb_color.exhaust path_balanced.simps(1,2) rb_color.distinct(1))
    let ?T = "plug k ?t"
    have v: "balanced n v" "path_balanced i RB_BLACK (Suc n)" using bal(3) by (simp_all add: j)
    have T: "?T = plug i (node side RB_BLACK (node d RB_RED ?t p s) g v)" by (simp add: k j)
    have apart: "root_ptr v \<noteq> Some p" "root_ptr s \<noteq> Some x"
      using "1.prems"(1) root_ptr_in [of v p] root_ptr_in [of s x] by (auto simp: at_path_def k j)
    note step = insert_color_step [OF rep [unfolded T] apart(1), folded T]
    note bt = "1.prems"(2) [simplified]
    show ?thesis
    proof (cases "color_of v = RB_RED")
      case True
      then obtain va y vb where y: "v = node True RB_RED va y vb" by (cases v) (auto simp: node_def)
      let ?t1 = "node side RB_RED (node d RB_BLACK ?t p s) g (node True RB_BLACK va y vb)"
      from insert_red_uncle [OF rep, of i side RB_BLACK d RB_RED ?t p s g va y vb "Some x"] obtain h1 where
        h1: "insert_color_side side (Some g) (Some p) (Some x) head = Some (Some g, h1)" "represents h1 (plug i ?t1)"
          "only_touches (set (inorder ?T)) head h1" using T y by auto
      have "at_path h1 i ?t1" using h1(2) at_path_represents by blast
      moreover have "balanced (Suc n) ?t1" using bt bal v(1) by (simp add: y)
      moreover have "length i < length k" by (simp add: k j)
      ultimately obtain h2 t' m where
        h2: "insert_color_loop (Some g) h1 = Some h2" "represents h2 t'" "balanced m t'" "inorder t' = inorder (plug i ?t1)"
          "only_touches (nodes_at i ?t1) h1 h2" using "1.IH" v(2) by blast
      have io: "inorder (plug i ?t1) = inorder ?T" by (simp add: T y inorder_plug) (simp add: node_def)
      then have "only_touches (set (inorder ?T)) h1 h2" using h2(5) by (simp add: nodes_at_plug)
      from only_touches_trans [OF h1(3) this] show ?thesis using h1(1) h2 step io by (auto simp: nodes_at_plug)
    next
      case False
      then have "color_of v = RB_BLACK" by (cases "color_of v") simp_all
      from insert_round_black [OF rep T "1.prems"(2) bal(1,2) v this apart(2)] obtain e h1 t1 where
        "insert_color_side side (Some g) (Some p) (Some x) head = Some (e, h1)" "insert_color_loop e h1 = Some h1"
        "represents h1 t1" "red_black t1" "inorder t1 = inorder ?T" "only_touches (set (inorder ?T)) head h1" by blast
      then show ?thesis using step by (auto simp: nodes_at_plug red_black_def)
    qed
  qed
qed

lemma RB_INSERT_COLOR_spec:
  assumes "at_path head k (node sd RB_RED a x b)" "balanced n (node sd RB_RED a x b)" "path_balanced k RB_BLACK n"
  shows "\<exists>head' t'. RB_INSERT_COLOR (Some x) head = Some head' \<and> represents head' t' \<and> red_black t'
     \<and> inorder t' = inorder (plug k (node sd RB_RED a x b)) \<and> only_touches (nodes_at k (node sd RB_RED a x b)) head head'"
proof -
  let ?T = "plug k (node sd RB_RED a x b)"
  from insert_color_loop_spec [OF assms] obtain h1 t1 m where
    h1: "insert_color_loop (Some x) head = Some h1" "represents h1 t1" "balanced m t1" "inorder t1 = inorder ?T"
      "only_touches (set (inorder ?T)) head h1" unfolding nodes_at_plug by blast
  then have "t1 \<noteq> Tip" by (auto simp: inorder_plug node_def split: if_splits)
  then obtain c l y r where t1: "t1 = node True c l y r" using node_cases by blast
  from color_step [OF h1(2), of "[]" True c l y r RB_BLACK] obtain h2 where
    h2: "set_RB_COLOR (Some y) RB_BLACK h1 = Some h2" "represents h2 (node True RB_BLACK l y r)" "only_touches (set (inorder t1)) h1 h2"
    by (auto simp: t1)
  have "rbh_root h1 = Some y" using h1(2) by (simp add: at_path_def t1)
  moreover have "red_black (node True RB_BLACK l y r)" using balanced_paint [OF h1(3)] by (simp add: t1 node_def red_black_def)
  moreover have "inorder (node True RB_BLACK l y r) = inorder ?T" using h1(4) by (simp add: t1 node_def)
  ultimately show ?thesis using h1 h2 only_touches_trans [OF h1(5)] unfolding nodes_at_plug RB_INSERT_COLOR_def by auto
qed

subsection \<open>Insertion\<close>

text \<open>A tree of \<open>sys/tree.h\<close> that holds the elements of a list, in the order of the list.\<close>

definition holds :: "rb_head \<Rightarrow> nat list \<Rightarrow> bool" where
  "holds head xs \<longleftrightarrow> (\<exists>t. represents head t \<and> red_black t \<and> inorder t = xs)"

lemma rb_insert_between:
  "\<forall>y\<in>set xs. key y < key e \<Longrightarrow> \<forall>y\<in>set ys. key e < key y \<Longrightarrow> rb_insert key e (xs @ ys) = xs @ e # ys"
  by (induction xs) (auto, cases ys, auto)

lemma rb_insert_found: "rb_inv key xs \<Longrightarrow> key e \<in> key ` set xs \<Longrightarrow> rb_insert key e xs = xs"
  by (induction xs) (auto simp: rb_inv_def)

lemma rb_find_Some: "rb_find key k xs = Some y \<Longrightarrow> y \<in> set xs \<and> key y = k"
  by (induction xs) (auto simp: rb_find_def split: if_splits)

text \<open>The outcome of the last comparison tells the side of the last step.\<close>

fun sided :: "path \<Rightarrow> int \<Rightarrow> bool" where
  "sided [] cm \<longleftrightarrow> True"
| "sided ((side, c, x, s) # k) cm \<longleftrightarrow> side = (cm < 0)"

text \<open>The end of a way down from the end of the path \<open>k\<close>: an element with the key, or the place for a new one.\<close>

definition new_place :: "(nat \<Rightarrow> 'k::linorder) \<Rightarrow> nat \<Rightarrow> ptree \<Rightarrow> path \<Rightarrow> path \<Rightarrow> int \<Rightarrow> bool" where
  "new_place key e t k j cm \<longleftrightarrow> plug j Tip = t \<and> (\<forall>y\<in>set (before j). key y < key e) \<and> (\<forall>y\<in>set (after j). key e < key y) \<and> sided (j @ k) cm"

definition descended :: "(nat \<Rightarrow> 'k::linorder) \<Rightarrow> nat \<Rightarrow> ptree \<Rightarrow> path \<Rightarrow> (rb_ptr \<times> rb_ptr \<times> int) option \<Rightarrow> bool" where
  "descended key e t k r \<longleftrightarrow> (case rb_find key (key e) (inorder t) of
      Some y \<Rightarrow> \<exists>cm. r = Some (Some y, Some y, cm)
    | None \<Rightarrow> \<exists>j cm. r = Some (None, parent_ptr (j @ k), cm) \<and> new_place key e t k j cm)"

lemma before_append: "before (j @ k) = before k @ before j" "after (j @ k) = after j @ after k"
  by (induction j) auto

lemma new_place_step:
  assumes "new_place key e t ((side, c, x, s) # k) j cm"
    and "if side then key e < key x else key x < key e" "\<forall>y\<in>set (inorder s). if side then key x < key y else key y < key x"
  shows "new_place key e (node side c t x s) k (j @ [(side, c, x, s)]) cm"
proof -
  have "\<forall>y\<in>set (inorder s). if side then key e < key y else key y < key e"
    using assms(2,3) by (cases side) (auto intro: less_trans)
  then show ?thesis using assms(1,2) by (cases side; cases j) (auto simp: new_place_def plug_append before_append)
qed

lemma descended_step:
  assumes "descended key e t ((side, c, x, s) # k) r" "rb_find key (key e) (inorder (node side c t x s)) = rb_find key (key e) (inorder t)"
    and "if side then key e < key x else key x < key e" "\<forall>y\<in>set (inorder s). if side then key x < key y else key y < key x"
  shows "descended key e (node side c t x s) k r"
proof (cases "rb_find key (key e) (inorder t)")
  case None
  with assms(1) obtain j cm where j: "r = Some (None, parent_ptr (j @ (side, c, x, s) # k), cm)" "new_place key e t ((side, c, x, s) # k) j cm"
    by (auto simp: descended_def)
  show ?thesis unfolding descended_def assms(2) None option.case
    using j(1) new_place_step [OF j(2) assms(3,4)] by (intro exI [of _ "j @ [(side, c, x, s)]"] exI [of _ cm]) simp
next
  case (Some y)
  then show ?thesis using assms(1,2) by (simp add: descended_def)
qed

text \<open>The new element is linked below the last element of the way down.\<close>

lemma link_new:
  assumes "at_path head k Tip" "e \<notin> path_nodes k" "rbh_entries head e = Some v"
    and "sided k cm"
  shows "\<exists>head'. do {
       head \<leftarrow> RB_SET (Some e) (parent_ptr k) head;
       (if parent_ptr k \<noteq> None then
          (if cm < 0 then set_RB_LEFT (parent_ptr k) (Some e) head else set_RB_RIGHT (parent_ptr k) (Some e) head)
        else Some (head\<lparr>rbh_root := Some e\<rparr>)) } = Some head'
     \<and> at_path head' k (node True RB_RED Tip e Tip) \<and> only_touches (insert e (path_nodes k)) head head'"
proof -
  obtain r h where head: "head = head_of r h" by (cases head)
  note at = assms(1) [unfolded at_path_def head, simplified]
  let ?h = "h(e \<mapsto> entry True RB_RED (parent_ptr k) None None)"
  have set: "RB_SET (Some e) (parent_ptr k) head = Some (head_of r ?h)"
    using assms(3) by (simp add: RB_SET_def rb_set_def head entry_def)
  show ?thesis
  proof (cases k)
    case Nil
    then show ?thesis using set by (auto simp: at_path_def only_touches_def head)
  next
    case (Cons f j)
    obtain side c p s where f: "f = (side, c, p, s)" by (cases f)
    have k: "k = (side, c, p, s) # j" by (simp add: Cons f)
    have side: "side \<longleftrightarrow> cm < 0" using assms(4) by (simp add: k)
    have p: "?h p = Some (entry side c (parent_ptr j) None (root_ptr s))" using at assms(2) by (auto simp: k)
    let ?h' = "?h(p \<mapsto> entry side c (parent_ptr j) (Some e) (root_ptr s))"
    have "set_child side (Some p) (Some e) (head_of r ?h) = Some (head_of r ?h')" by (rule write_fields(1) [of ?h p, OF p])
    then have run: "(if cm < 0 then set_RB_LEFT (Some p) (Some e) (head_of r ?h) else set_RB_RIGHT (Some p) (Some e) (head_of r ?h)) = Some (head_of r ?h')"
      using side by (simp add: set_child_def split: if_splits)
    have "r = root_ptr (plug k (node True RB_RED Tip e Tip))" using at root_ptr_plug [of k] by (metis k list.distinct(1))
    then have "at_path (head_of r ?h') k (node True RB_RED Tip e Tip)" using at assms(2) by (auto simp: at_path_def k)
    moreover have "only_touches (insert e (path_nodes k)) head (head_of r ?h')" by (simp add: only_touches_def k head)
    ultimately show ?thesis using set run by (cases "cm < 0") (simp_all add: k)
  qed
qed

text \<open>What the comparison function of a tree has to be.\<close>

locale rb_compare =
  fixes cmp :: "nat \<Rightarrow> nat \<Rightarrow> int" and key :: "nat \<Rightarrow> 'k::linorder"
  assumes cmp_less: "cmp x y < 0 \<longleftrightarrow> key x < key y" and cmp_eq: "cmp x y = 0 \<longleftrightarrow> key x = key y"
begin

lemma cmp_greater: "0 < cmp x y \<longleftrightarrow> key y < key x"
  using cmp_less [of x y] cmp_eq [of x y] by (metis linorder_less_linear order_less_imp_not_less)

lemma insert_descend_spec:
  "at_path head k t \<Longrightarrow> rb_inv key (inorder t) \<Longrightarrow> sided k cm \<Longrightarrow>
     descended key e t k (insert_descend cmp e (root_ptr t) (parent_ptr k) cm head)"
proof (induction t arbitrary: k cm)
  case Tip
  then show ?case by (auto simp: descended_def new_place_def rb_find_def insert_descend.simps intro!: exI [of _ "[]"])
next
  case (Bin c l x r)
  have rep: "represents head (plug k (node True c l x r))" using Bin.prems(1) at_path_represents by (simp add: Bin_node)
  note x = read_step [OF rep refl]
  have inv: "rb_inv key (inorder l)" "rb_inv key (inorder r)" "\<forall>y\<in>set (inorder l). key y < key x" "\<forall>y\<in>set (inorder r). key x < key y"
    using Bin.prems(2) by (auto simp: rb_inv_def sorted_wrt_append)
  consider (less) "key e < key x" | (same) "key e = key x" | (greater) "key x < key e" by (rule linorder_cases)
  then show ?case
  proof cases
    case less
    then have "\<forall>y\<in>set (x # inorder r). key e < key y" using inv(4) by auto
    then have f: "rb_find key (key e) (inorder (node True c l x r)) = rb_find key (key e) (inorder l)"
      using rb_find_below [of "x # inorder r" "key e" key] by (auto simp: rb_find_def find_append node_def split: option.splits)
    have "at_path head ((True, c, x, r) # k) l" using Bin.prems(1) by (simp add: at_path_move Bin_node)
    from Bin.IH(1) [OF this inv(1), of "cmp e x"] have "descended key e l ((True, c, x, r) # k) (insert_descend cmp e (root_ptr l) (Some x) (cmp e x) head)"
      using less cmp_less [of e x] by simp
    from descended_step [OF this f] show ?thesis using less inv(4) cmp_less [of e x] x
      by (simp add: Bin_node insert_descend.simps [of cmp e "Some x"] child_def)
  next
    case same
    then have "rb_find key (key e) (inorder l) = None" using inv(3) by (auto simp: rb_find_def find_None_iff)
    then have "rb_find key (key e) (inorder (Bin c l x r)) = Some x" using same by (simp add: rb_find_def find_append)
    then show ?thesis using same cmp_eq [of e x] by (simp add: insert_descend.simps descended_def)
  next
    case greater
    then have "rb_find key (key e) (inorder l) = None" using inv(3) by (auto simp: rb_find_def find_None_iff)
    then have f: "rb_find key (key e) (inorder (node False c r x l)) = rb_find key (key e) (inorder r)"
      using greater by (auto simp: rb_find_def find_append node_def)
    have "at_path head ((False, c, x, l) # k) r" using Bin.prems(1) by (simp add: at_path_move node_def)
    from Bin.IH(2) [OF this inv(2), of "cmp e x"] have "descended key e r ((False, c, x, l) # k) (insert_descend cmp e (root_ptr r) (Some x) (cmp e x) head)"
      using greater cmp_greater [of e x] by simp
    from descended_step [OF this f] have "descended key e (node False c r x l) k (insert_descend cmp e (root_ptr r) (Some x) (cmp e x) head)"
      using greater inv(3) by simp
    then show ?thesis using greater cmp_greater [of e x] x
      by (simp add: node_def insert_descend.simps [of cmp e "Some x"] child_def)
  qed
qed

lemma RB_INSERT_spec:
  assumes "holds head xs" "rb_inv key xs" "rbh_entries head e \<noteq> None"
  shows "\<exists>head'. RB_INSERT cmp e head = Some (rb_find key (key e) xs, head') \<and> holds head' (rb_insert key e xs)
     \<and> only_touches (insert e (set xs)) head head'"
proof -
  obtain t where t: "represents head t" "red_black t" "inorder t = xs" using assms(1) by (auto simp: holds_def)
  have root: "rbh_root head = root_ptr t" using t(1) by (simp add: at_path_def)
  have d: "descended key e t [] (insert_descend cmp e (rbh_root head) None 0 head)"
    using insert_descend_spec [OF t(1), of 0 e] assms(2) by (simp add: t(3) root)
  show ?thesis
  proof (cases "rb_find key (key e) xs")
    case (Some y)
    then have "key e \<in> key ` set xs" using rb_find_Some [OF Some] by (metis image_eqI)
    with rb_insert_found [OF assms(2) this] Some d assms(1) show ?thesis by (auto simp: descended_def t(3) RB_INSERT_def)
  next
    case None
    with d obtain k cm where k: "insert_descend cmp e (rbh_root head) None 0 head = Some (None, parent_ptr k, cm)"
      "plug k Tip = t" "\<forall>y\<in>set (before k). key y < key e" "\<forall>y\<in>set (after k). key e < key y" "sided k cm"
      by (auto simp: descended_def t(3) new_place_def)
    have xs: "xs = before k @ after k" using t(3) k(2) inorder_plug [of k Tip] by simp
    have at: "at_path head k Tip" by (rule at_path_represents [THEN iffD2]) (use t(1) k(2) in simp)
    have "e \<notin> path_nodes k" using k(3,4) by (auto simp: path_nodes_eq)
    with link_new [OF at _ _ k(5)] assms(3) obtain h1 where
      h1: "do {
         head \<leftarrow> RB_SET (Some e) (parent_ptr k) head;
         (if parent_ptr k \<noteq> None then
            (if cm < 0 then set_RB_LEFT (parent_ptr k) (Some e) head else set_RB_RIGHT (parent_ptr k) (Some e) head)
          else Some (head\<lparr>rbh_root := Some e\<rparr>)) } = Some h1"
        "at_path h1 k (node True RB_RED Tip e Tip)" "only_touches (insert e (path_nodes k)) head h1" by blast
    from path_balanced_plug [of k Tip] t(2) k(2) have "path_balanced k RB_BLACK 0" by auto
    from RB_INSERT_COLOR_spec [OF h1(2) _ this] obtain h2 t2 where
      h2: "RB_INSERT_COLOR (Some e) h1 = Some h2" "represents h2 t2" "red_black t2" "inorder t2 = before k @ e # after k"
        "only_touches (insert e (path_nodes k)) h1 h2" by (auto simp: inorder_plug nodes_at_def node_def)
    have "RB_INSERT cmp e head = Some (None, h2)"
      using h1(1) h2(1) by (simp add: RB_INSERT_def k(1)) (auto simp: bind_eq_Some_conv)
    moreover have "holds h2 (rb_insert key e xs)"
      using h2 rb_insert_between [OF k(3,4)] by (auto simp: holds_def xs)
    moreover have "path_nodes k = set xs" by (auto simp: path_nodes_eq xs)
    ultimately show ?thesis using None only_touches_trans [OF h1(3) h2(5)] by auto
  qed
qed

end


end
