(* ===== verification/Sys_Tree_Remove.thy ===== *)
theory Sys_Tree_Remove
  imports Sys_Tree_Insert
begin

text \<open>
  \<open>RB_REMOVE_COLOR\<close> and \<open>RB_REMOVE\<close> of \<open>sys/tree.h\<close>: they end, take out the element and nothing else, and make the tree a
  red-black tree again.
\<close>

subsection \<open>A round of the loop\<close>

text \<open>The two mirror images as one, first the step for a red sibling, then the rest.\<close>

definition black_sibling :: "bool \<Rightarrow> rb_ptr \<Rightarrow> rb_head \<Rightarrow> (rb_ptr \<times> rb_head) option" where
  "black_sibling side parent head =
     do {
       tmp \<leftarrow> child (\<not> side) parent head;
       color \<leftarrow> RB_COLOR tmp head;
       if color = RB_RED then do {
         head \<leftarrow> RB_SET_BLACKRED tmp parent head;
         head \<leftarrow> rb_rotate side parent head;
         tmp \<leftarrow> child (\<not> side) parent head;
         Some (tmp, head)
       } else Some (tmp, head)
     }"

definition red_outer :: "bool \<Rightarrow> rb_ptr \<Rightarrow> rb_ptr \<Rightarrow> rb_ptr \<Rightarrow> rb_head \<Rightarrow> (rb_ptr \<times> rb_head) option" where
  "red_outer side parent tmp inner head =
     do {
       head \<leftarrow> (if inner \<noteq> None then set_RB_COLOR inner RB_BLACK head else Some head);
       head \<leftarrow> set_RB_COLOR tmp RB_RED head;
       head \<leftarrow> rb_rotate (\<not> side) tmp head;
       tmp \<leftarrow> child (\<not> side) parent head;
       Some (tmp, head)
     }"

definition lift_sibling :: "bool \<Rightarrow> rb_ptr \<Rightarrow> rb_ptr \<Rightarrow> rb_head \<Rightarrow> (rb_ptr \<times> rb_ptr \<times> bool \<times> rb_head) option" where
  "lift_sibling side parent tmp head =
     do {
       color \<leftarrow> RB_COLOR parent head;
       head \<leftarrow> set_RB_COLOR tmp color head;
       head \<leftarrow> set_RB_COLOR parent RB_BLACK head;
       outer \<leftarrow> child (\<not> side) tmp head;
       head \<leftarrow> (if outer \<noteq> None then set_RB_COLOR outer RB_BLACK head else Some head);
       head \<leftarrow> rb_rotate side parent head;
       Some (rbh_root head, parent, True, head)
     }"

definition with_black_sibling :: "bool \<Rightarrow> rb_ptr \<Rightarrow> rb_ptr \<Rightarrow> rb_head \<Rightarrow> (rb_ptr \<times> rb_ptr \<times> bool \<times> rb_head) option" where
  "with_black_sibling side parent tmp head =
     do {
       left \<leftarrow> RB_LEFT tmp head;
       left_black \<leftarrow> is_black left head;
       right \<leftarrow> RB_RIGHT tmp head;
       right_black \<leftarrow> is_black right head;
       if left_black \<and> right_black then do {
         head \<leftarrow> set_RB_COLOR tmp RB_RED head;
         up \<leftarrow> RB_PARENT parent head;
         Some (parent, up, False, head)
       } else do {
         (tmp, head) \<leftarrow> (if (if side then right_black else left_black)
                         then red_outer side parent tmp (if side then left else right) head else Some (tmp, head));
         lift_sibling side parent tmp head
       }
     }"

definition remove_color_side :: "bool \<Rightarrow> rb_ptr \<Rightarrow> rb_head \<Rightarrow> (rb_ptr \<times> rb_ptr \<times> bool \<times> rb_head) option" where
  "remove_color_side side parent head =
     do { (tmp, head) \<leftarrow> black_sibling side parent head; with_black_sibling side parent tmp head }"

lemma remove_color_sides: "remove_color_left = remove_color_side True" "remove_color_right = remove_color_side False"
  by (simp_all add: fun_eq_iff remove_color_left_def remove_color_right_def remove_color_side_def black_sibling_def
      with_black_sibling_def red_outer_def lift_sibling_def child_def rotate_sides bind_assoc split_beta
      if_distrib [of "\<lambda>m. Option.bind m _"] cong: if_cong)

text \<open>What each of the steps does to the tree.\<close>

lemma black_sibling_black:
  assumes "represents head t" "t = plug k (node side c a p (node side RB_BLACK b y e))"
  shows "black_sibling side (Some p) head = Some (Some y, head)"
proof -
  have "t = plug ((\<not> side, c, p, a) # k) (node side RB_BLACK b y e)" using assms(2) by simp
  from read_step(4) [OF assms(1) this] read_step [OF assms] show ?thesis by (simp add: black_sibling_def)
qed

lemma black_sibling_red:
  assumes "represents head t" "t = plug k (node side c a p (node side RB_RED b y e))"
  shows "\<exists>head'. black_sibling side (Some p) head = Some (root_ptr b, head')
     \<and> represents head' (plug k (node side RB_BLACK (node side RB_RED a p b) y e)) \<and> only_touches (set (inorder t)) head head'"
proof -
  have t: "t = plug ((\<not> side, c, p, a) # k) (node side RB_RED b y e)" using assms(2) by simp
  from color_step [OF assms(1) t, of RB_BLACK] obtain h1 where
    h1: "set_RB_COLOR (Some y) RB_BLACK head = Some h1" "represents h1 (plug ((\<not> side, c, p, a) # k) (node side RB_BLACK b y e))"
      "only_touches (set (inorder t)) head h1" .
  from color_step [OF h1(2), of k side c a p "node side RB_BLACK b y e" RB_RED] obtain h2 where
    h2: "set_RB_COLOR (Some p) RB_RED h1 = Some h2" "represents h2 (plug k (node side RB_RED a p (node side RB_BLACK b y e)))"
      "only_touches (set (inorder t)) h1 h2" by (auto simp: assms(2) inorder_plug)
  from rotate_step [OF h2(2) refl] obtain h3 where
    h3: "rb_rotate side (Some p) h2 = Some h3" "represents h3 (plug k (node side RB_BLACK (node side RB_RED a p b) y e))"
      "only_touches (set (inorder t)) h2 h3" by (auto simp: assms(2) inorder_plug)
  have "child (\<not> side) (Some p) h3 = Some (root_ptr b)"
    using read_step(2) [OF h3(2), of "(side, RB_BLACK, y, e) # k" side RB_RED a p b] by simp
  with h1 h2 h3 read_step [OF assms] read_step(4) [OF assms(1) t] only_touches_trans [OF h1(3) only_touches_trans [OF h2(3) h3(3)]]
  show ?thesis by (simp add: black_sibling_def RB_SET_BLACKRED_def)
qed

lemma red_outer_spec:
  assumes "represents head t" "t = plug k (node side c a p (node side RB_BLACK (node side d b z e) y f))"
  shows "\<exists>head'. red_outer side (Some p) (Some y) (Some z) head = Some (Some z, head')
     \<and> represents head' (plug k (node side c a p (node side RB_BLACK b z (node side RB_RED e y f))))
     \<and> only_touches (set (inorder t)) head head'"
proof -
  have t: "t = plug ((side, RB_BLACK, y, f) # (\<not> side, c, p, a) # k) (node side d b z e)" using assms(2) by simp
  from color_step [OF assms(1) t, of RB_BLACK] obtain h1 where
    h1: "set_RB_COLOR (Some z) RB_BLACK head = Some h1" "represents h1 (plug ((side, RB_BLACK, y, f) # (\<not> side, c, p, a) # k) (node side RB_BLACK b z e))"
      "only_touches (set (inorder t)) head h1" .
  from color_step [OF h1(2), of "(\<not> side, c, p, a) # k" side RB_BLACK "node side RB_BLACK b z e" y f RB_RED] obtain h2 where
    h2: "set_RB_COLOR (Some y) RB_RED h1 = Some h2" "represents h2 (plug ((\<not> side, c, p, a) # k) (node side RB_RED (node side RB_BLACK b z e) y f))"
      "only_touches (set (inorder t)) h1 h2" by (auto simp: assms(2) inorder_plug)
  from rotate_step [OF h2(2), of "(\<not> side, c, p, a) # k" "\<not> side" RB_RED f y RB_BLACK e z b] obtain h3 where
    h3: "rb_rotate (\<not> side) (Some y) h2 = Some h3" "represents h3 (plug k (node side c a p (node side RB_BLACK b z (node side RB_RED e y f))))"
      "only_touches (set (inorder t)) h2 h3" by (auto simp: assms(2) inorder_plug)
  from h1 h2 h3 read_step(2) [OF h3(2) refl] only_touches_trans [OF h1(3) only_touches_trans [OF h2(3) h3(3)]]
  show ?thesis by (simp add: red_outer_def)
qed

lemma lift_sibling_spec:
  assumes "represents head t" "t = plug k (node side c a p (node side RB_BLACK b y (node side RB_RED e z f)))"
  shows "\<exists>head'. lift_sibling side (Some p) (Some y) head = Some (rbh_root head', Some p, True, head')
     \<and> represents head' (plug k (node side c (node side RB_BLACK a p b) y (node side RB_BLACK e z f)))
     \<and> only_touches (set (inorder t)) head head'"
proof -
  let ?z = "node side RB_RED e z f" and ?z' = "node side RB_BLACK e z f"
  have t: "t = plug ((\<not> side, c, p, a) # k) (node side RB_BLACK b y ?z)" using assms(2) by simp
  from color_step [OF assms(1) t, of c] obtain h1 where
    h1: "set_RB_COLOR (Some y) c head = Some h1" "represents h1 (plug ((\<not> side, c, p, a) # k) (node side c b y ?z))"
      "only_touches (set (inorder t)) head h1" .
  from color_step [OF h1(2), of k side c a p "node side c b y ?z" RB_BLACK] obtain h2 where
    h2: "set_RB_COLOR (Some p) RB_BLACK h1 = Some h2" "represents h2 (plug k (node side RB_BLACK a p (node side c b y ?z)))"
      "only_touches (set (inorder t)) h1 h2" by (auto simp: assms(2) inorder_plug)
  have outer: "child (\<not> side) (Some y) h2 = Some (Some z)"
    using read_step(2) [OF h2(2), of "(\<not> side, RB_BLACK, p, a) # k" side c b y ?z] by simp
  from color_step [OF h2(2), of "(\<not> side, c, y, b) # (\<not> side, RB_BLACK, p, a) # k" side RB_RED e z f RB_BLACK] obtain h3 where
    h3: "set_RB_COLOR (Some z) RB_BLACK h2 = Some h3" "represents h3 (plug k (node side RB_BLACK a p (node side c b y ?z')))"
      "only_touches (set (inorder t)) h2 h3" by (auto simp: assms(2) inorder_plug)
  from rotate_step [OF h3(2) refl] obtain h4 where
    h4: "rb_rotate side (Some p) h3 = Some h4" "represents h4 (plug k (node side c (node side RB_BLACK a p b) y ?z'))"
      "only_touches (set (inorder t)) h3 h4" by (auto simp: assms(2) inorder_plug)
  from h1 h2 h3 h4 outer read_step [OF assms] only_touches_trans [OF h1(3) only_touches_trans [OF h2(3) only_touches_trans [OF h3(3) h4(3)]]]
  show ?thesis by (simp add: lift_sibling_def)
qed

lemma sibling_children:
  assumes "represents head t" "t = plug k (node side c a p (node side RB_BLACK b y e))"
  shows "RB_LEFT (Some y) head = Some (root_ptr (if side then b else e))" "RB_RIGHT (Some y) head = Some (root_ptr (if side then e else b))"
    "is_black (root_ptr b) head = Some (color_of b = RB_BLACK)" "is_black (root_ptr e) head = Some (color_of e = RB_BLACK)"
proof -
  have t: "t = plug ((\<not> side, c, p, a) # k) (node side RB_BLACK b y e)" "t = plug ((side, RB_BLACK, y, e) # (\<not> side, c, p, a) # k) b"
    "t = plug ((\<not> side, RB_BLACK, y, b) # (\<not> side, c, p, a) # k) e" using assms(2) by simp_all
  show "RB_LEFT (Some y) head = Some (root_ptr (if side then b else e))" "RB_RIGHT (Some y) head = Some (root_ptr (if side then e else b))"
    using read_step(1,2) [OF assms(1) t(1)] by (cases side; simp add: child_def)+
  show "is_black (root_ptr b) head = Some (color_of b = RB_BLACK)" "is_black (root_ptr e) head = Some (color_of e = RB_BLACK)"
    using is_red_step(2) [OF assms(1) t(2)] is_red_step(2) [OF assms(1) t(3)] by simp_all
qed

lemma sibling_becomes_red:
  assumes "represents head t" "t = plug k (node side c a p (node side RB_BLACK b y e))" "color_of b = RB_BLACK" "color_of e = RB_BLACK"
  shows "\<exists>head'. with_black_sibling side (Some p) (Some y) head = Some (Some p, parent_ptr k, False, head')
     \<and> represents head' (plug k (node side c a p (node side RB_RED b y e))) \<and> only_touches (set (inorder t)) head head'"
proof -
  note ch = sibling_children [OF assms(1,2)]
  have "t = plug ((\<not> side, c, p, a) # k) (node side RB_BLACK b y e)" using assms(2) by simp
  from color_step [OF assms(1) this, of RB_RED] obtain h1 where
    h1: "set_RB_COLOR (Some y) RB_RED head = Some h1" "represents h1 (plug k (node side c a p (node side RB_RED b y e)))"
      "only_touches (set (inorder t)) head h1" by auto
  show ?thesis using ch h1 read_step(3) [OF h1(2) refl] assms(3,4) by (cases side) (simp_all add: with_black_sibling_def)
qed

lemma red_node: "color_of t = RB_RED \<Longrightarrow> \<exists>l x r. t = node side RB_RED l x r"
  by (cases t; cases side) (auto simp: node_def)

lemma sibling_lifted:
  assumes "represents head t" "t = plug k (node side c a p (node side RB_BLACK b y e))"
    and "\<not> (color_of b = RB_BLACK \<and> color_of e = RB_BLACK)" "balanced n a" "balanced n b" "balanced n e"
  shows "\<exists>head' t'. with_black_sibling side (Some p) (Some y) head = Some (rbh_root head', Some p, True, head')
     \<and> represents head' (plug k t') \<and> color_of t' = c \<and> balanced (if c = RB_RED then Suc n else Suc (Suc n)) t'
     \<and> inorder (plug k t') = inorder t \<and> only_touches (set (inorder t)) head head'"
proof (cases "color_of e")
  case RB_RED
  then obtain ea z ef where e: "e = node side RB_RED ea z ef" using red_node by blast
  let ?t' = "node side c (node side RB_BLACK a p b) y (node side RB_BLACK ea z ef)"
  from lift_sibling_spec [OF assms(1) assms(2) [unfolded e]] obtain h1 where
    h1: "lift_sibling side (Some p) (Some y) head = Some (rbh_root h1, Some p, True, h1)" "represents h1 (plug k ?t')"
      "only_touches (set (inorder t)) head h1" by blast
  have "with_black_sibling side (Some p) (Some y) head = Some (rbh_root h1, Some p, True, h1)"
    using sibling_children [OF assms(1,2)] RB_RED h1(1) by (cases side) (simp_all add: with_black_sibling_def)
  moreover have "inorder (plug k ?t') = inorder t" by (simp add: assms(2) e inorder_plug) (simp add: node_def)
  moreover have "balanced (if c = RB_RED then Suc n else Suc (Suc n)) ?t'" using assms(4-6) by (cases c) (simp_all add: e)
  ultimately show ?thesis using h1 by (intro exI [of _ h1] exI [of _ ?t']) simp
next
  case RB_BLACK
  with assms(3) have "color_of b = RB_RED" by (cases "color_of b") simp_all
  then obtain ba z be where b: "b = node side RB_RED ba z be" using red_node by blast
  let ?t' = "node side c (node side RB_BLACK a p ba) z (node side RB_BLACK be y e)"
  from red_outer_spec [OF assms(1) assms(2) [unfolded b]] obtain h1 where
    h1: "red_outer side (Some p) (Some y) (Some z) head = Some (Some z, h1)"
      "represents h1 (plug k (node side c a p (node side RB_BLACK ba z (node side RB_RED be y e))))"
      "only_touches (set (inorder t)) head h1" by blast
  from lift_sibling_spec [OF h1(2) refl] obtain h2 where
    h2: "lift_sibling side (Some p) (Some z) h1 = Some (rbh_root h2, Some p, True, h2)" "represents h2 (plug k ?t')"
      "only_touches (set (inorder (plug k (node side c a p (node side RB_BLACK ba z (node side RB_RED be y e)))))) h1 h2" by blast
  have io: "inorder (plug k (node side c a p (node side RB_BLACK ba z (node side RB_RED be y e)))) = inorder t"
    "inorder (plug k ?t') = inorder t" by (simp_all add: assms(2) b inorder_plug) (simp_all add: node_def)
  have "with_black_sibling side (Some p) (Some y) head = Some (rbh_root h2, Some p, True, h2)"
    using sibling_children [OF assms(1,2)] RB_BLACK h1(1) h2(1) by (cases side) (simp_all add: with_black_sibling_def b)
  moreover have "balanced (if c = RB_RED then Suc n else Suc (Suc n)) ?t'" using assms(4-6) by (cases c) (simp_all add: b)
  ultimately show ?thesis using h1(3) h2 io only_touches_trans [OF h1(3)] by (intro exI [of _ h2] exI [of _ ?t']) simp
qed

subsection \<open>The loop\<close>

text \<open>A tree that is one black node short below its path, unless its root is red.\<close>

definition short :: "nat \<Rightarrow> ptree \<Rightarrow> bool" where
  "short n t \<longleftrightarrow> balanced (if color_of t = RB_RED then Suc n else n) (paint RB_BLACK t)"

definition recolored :: "rb_head \<Rightarrow> ptree \<Rightarrow> rb_head option \<Rightarrow> bool" where
  "recolored head t r \<longleftrightarrow> (\<exists>head' t'. r = Some head' \<and> represents head' t' \<and> red_black t' \<and> inorder t' = inorder t
     \<and> only_touches (set (inorder t)) head head')"

lemma recolored_after:
  "only_touches (set (inorder t)) head head1 \<Longrightarrow> inorder t1 = inorder t \<Longrightarrow> recolored head1 t1 r \<Longrightarrow> recolored head t r"
  by (auto simp: recolored_def intro: only_touches_trans)

definition make_black :: "rb_ptr \<Rightarrow> rb_head \<Rightarrow> rb_head option" where
  "make_black elm head = (if elm \<noteq> None then set_RB_COLOR elm RB_BLACK head else Some head)"

lemma RB_REMOVE_COLOR_step:
  "RB_REMOVE_COLOR parent elm head =
     do {
       black \<leftarrow> is_black elm head;
       if black \<and> elm \<noteq> rbh_root head then do {
         left \<leftarrow> RB_LEFT parent head;
         r \<leftarrow> (if left = elm then remove_color_left parent head else remove_color_right parent head);
         (case r of (elm, parent, stop, head) \<Rightarrow> if stop then make_black elm head else RB_REMOVE_COLOR parent elm head)
       } else make_black elm head
     }"
  unfolding RB_REMOVE_COLOR_def remove_color_loop.simps [of parent elm head] make_black_def
  by (simp add: bind_assoc split_beta if_distrib [of "\<lambda>m. Option.bind m _"] cong: if_cong)

lemma make_black_spec:
  assumes "at_path head k t" "red_black (plug k (paint RB_BLACK t))"
  shows "recolored head (plug k t) (make_black (root_ptr t) head)"
proof (cases "t = Tip")
  case True
  then show ?thesis using assms at_path_represents by (auto simp: make_black_def recolored_def)
next
  case False
  then obtain c l x r where t: "t = node True c l x r" using node_cases by blast
  have "represents head (plug k t)" using assms(1) at_path_represents by blast
  from color_step [OF this, of k True c l x r RB_BLACK] obtain h1 where
    h1: "set_RB_COLOR (Some x) RB_BLACK head = Some h1" "represents h1 (plug k (node True RB_BLACK l x r))"
      "only_touches (set (inorder (plug k t))) head h1" using t by auto
  moreover have "red_black (plug k (node True RB_BLACK l x r))" using assms(2) by (simp add: t node_def)
  moreover have "inorder (plug k (node True RB_BLACK l x r)) = inorder (plug k t)" by (simp add: t inorder_plug) (simp add: node_def)
  ultimately show ?thesis unfolding recolored_def make_black_def
    by (intro exI [of _ h1] exI [of _ "plug k (node True RB_BLACK l x r)"]) (simp add: t)
qed

lemma remove_color_red:
  assumes "at_path head k t" "color_of t = RB_RED" "short n t" "path_balanced k RB_BLACK (Suc n)"
  shows "recolored head (plug k t) (RB_REMOVE_COLOR parent (root_ptr t) head)"
proof -
  have "represents head (plug k t)" using assms(1) at_path_represents by blast
  from is_red_step(2) [OF this refl] have "is_black (root_ptr t) head = Some False" using assms(2) by simp
  moreover have "color_of (paint RB_BLACK t) = RB_BLACK" by (cases t) simp_all
  then have "red_black (plug k (paint RB_BLACK t))"
    using balanced_plug [of k "paint RB_BLACK t" "Suc n"] assms(2-4) by (simp add: short_def)
  ultimately show ?thesis using make_black_spec [OF assms(1)] by (simp add: RB_REMOVE_COLOR_step)
qed

lemma paint_black: "color_of t = RB_BLACK \<Longrightarrow> paint RB_BLACK t = t"
  by (cases t) simp_all

lemma short_black: "color_of t = RB_BLACK \<Longrightarrow> short n t \<longleftrightarrow> balanced n t"
  by (simp add: short_def paint_black)

lemma paint_node [simp]: "paint d (node side c l x r) = node side d l x r"
  by (simp add: node_def)

text \<open>A round when the sibling is black: it ends the loop, or goes on one level up.\<close>

lemma round_black_sibling:
  assumes "represents head t" "t = plug k (node side c a p w)" "color_of w = RB_BLACK" "balanced (Suc n) w" "balanced n a"
    "color_of a = RB_BLACK" "path_balanced k c (if c = RB_RED then Suc n else Suc (Suc n))"
    and up: "\<And>head' t' m. c = RB_BLACK \<Longrightarrow> at_path head' k t' \<Longrightarrow> short m t' \<Longrightarrow> path_balanced k RB_BLACK (Suc m) \<Longrightarrow>
      recolored head' (plug k t') (RB_REMOVE_COLOR (parent_ptr k) (root_ptr t') head')"
  shows "recolored head t (do {
      r \<leftarrow> with_black_sibling side (Some p) (root_ptr w) head;
      (case r of (elm, parent, stop, head) \<Rightarrow> if stop then make_black elm head else RB_REMOVE_COLOR parent elm head) })"
proof -
  have "w \<noteq> Tip" using assms(4) by auto
  then obtain b y e where w: "w = node side RB_BLACK b y e" using assms(3) node_cases [of w side] by auto
  have be: "balanced n b" "balanced n e" using assms(4) by (simp_all add: w)
  note t = assms(2) [unfolded w]
  show ?thesis
  proof (cases "color_of b = RB_BLACK \<and> color_of e = RB_BLACK")
    case True
    let ?t = "node side c a p (node side RB_RED b y e)"
    from sibling_becomes_red [OF assms(1) t] True obtain h1 where
      h1: "with_black_sibling side (Some p) (Some y) head = Some (Some p, parent_ptr k, False, h1)" "represents h1 (plug k ?t)"
        "only_touches (set (inorder t)) head h1" by blast
    have at: "at_path h1 k ?t" using h1(2) at_path_represents by blast
    have "recolored h1 (plug k ?t) (RB_REMOVE_COLOR (parent_ptr k) (root_ptr ?t) h1)"
    proof (cases c)
      case RB_BLACK
      then have "short (Suc n) ?t" "path_balanced k RB_BLACK (Suc (Suc n))" using True be assms(5,6,7) by (simp_all add: short_black)
      from up [OF RB_BLACK at this] show ?thesis .
    next
      case RB_RED
      then have "short n ?t" "path_balanced k RB_BLACK (Suc n)" using True be assms(5,6,7) path_balanced_black by (auto simp: short_def)
      from remove_color_red [OF at _ this] RB_RED show ?thesis by simp
    qed
    moreover have "inorder (plug k ?t) = inorder t" by (simp add: t inorder_plug) (simp add: node_def)
    ultimately show ?thesis using recolored_after [OF h1(3)] h1(1) by (simp add: w)
  next
    case False
    from sibling_lifted [OF assms(1) t False assms(5) be] obtain h1 t1 where
      h1: "with_black_sibling side (Some p) (Some y) head = Some (rbh_root h1, Some p, True, h1)" "represents h1 (plug k t1)"
        "color_of t1 = c" "balanced (if c = RB_RED then Suc n else Suc (Suc n)) t1" "inorder (plug k t1) = inorder t"
        "only_touches (set (inorder t)) head h1" by blast
    have rb: "red_black (plug k t1)" using balanced_plug [of k t1] h1(3,4) assms(7) by simp
    then have "recolored h1 (plug k t1) (make_black (root_ptr (plug k t1)) h1)"
      using make_black_spec [of h1 "[]" "plug k t1"] h1(2) paint_black by (auto simp: red_black_def)
    moreover have "rbh_root h1 = root_ptr (plug k t1)" using h1(2) by (simp add: at_path_def)
    ultimately show ?thesis using recolored_after [OF h1(6,5)] h1(1) by (simp add: w)
  qed
qed

lemma root_on_path: "k \<noteq> [] \<Longrightarrow> \<exists>x\<in>path_nodes k. root_ptr (plug k t) = Some x"
  by (induction k arbitrary: t rule: rev_induct) (auto simp: plug_append path_nodes_eq before_append)

text \<open>A round of the loop is the one for its side.\<close>

lemma remove_color_round:
  assumes "at_path head ((side, c, p, w) # k) t" "color_of t = RB_BLACK" "w \<noteq> Tip"
  shows "RB_REMOVE_COLOR (Some p) (root_ptr t) head = do {
      r \<leftarrow> remove_color_side side (Some p) head;
      (case r of (elm, parent, stop, head) \<Rightarrow> if stop then make_black elm head else RB_REMOVE_COLOR parent elm head) }"
proof -
  let ?k = "(side, c, p, w) # k"
  have rep: "represents head (plug ?k t)" using assms(1) at_path_represents by blast
  from root_on_path [of ?k t] obtain x where x: "x \<in> path_nodes ?k" "root_ptr (plug ?k t) = Some x" by blast
  then have root: "root_ptr t \<noteq> rbh_root head"
    using assms(1) root_ptr_in [of t x] unfolding at_path_def by auto
  have "RB_LEFT (Some p) head = Some (root_ptr (if side then t else w))"
    using read_step(1,2) [OF rep, of k side c t p w] by (cases side) (simp_all add: child_def)
  moreover have "root_ptr w \<noteq> root_ptr t"
    using assms(1,3) root_ptr_in [of w] root_ptr_in [of t] by (cases w; cases t) (auto simp: at_path_def)
  ultimately show ?thesis using root is_red_step(2) [OF rep refl] assms(2)
    by (cases side) (simp_all add: RB_REMOVE_COLOR_step [of "Some p" "root_ptr t"] remove_color_sides)
qed

lemma RB_REMOVE_COLOR_spec:
  "at_path head k t \<Longrightarrow> short n t \<Longrightarrow> path_balanced k RB_BLACK (Suc n) \<Longrightarrow>
     recolored head (plug k t) (RB_REMOVE_COLOR (parent_ptr k) (root_ptr t) head)"
proof (induction k arbitrary: head t n)
  case Nil
  show ?case
  proof (cases "color_of t")
    case RB_RED
    then show ?thesis using remove_color_red [OF Nil(1) _ Nil(2,3)] by simp
  next
    case RB_BLACK
    then have "red_black t" using Nil(2) by (auto simp: red_black_def short_black)
    moreover have "rbh_root head = root_ptr t" "is_black (root_ptr t) head = Some True"
      using Nil(1) is_red_step(2) [OF Nil(1), of "[]" t] RB_BLACK by (simp_all add: at_path_def)
    ultimately show ?thesis using make_black_spec [OF Nil(1)] RB_BLACK by (simp add: RB_REMOVE_COLOR_step paint_black)
  qed
next
  case (Cons f k)
  obtain side c p w where f: "f = (side, c, p, w)" by (cases f)
  show ?case
  proof (cases "color_of t")
    case RB_RED
    then show ?thesis using remove_color_red [OF Cons.prems(1) _ Cons.prems(2,3)] by simp
  next
    case RB_BLACK
    have rep: "represents head (plug (f # k) t)" using Cons.prems(1) at_path_represents by blast
    have bal: "balanced n t" "balanced (Suc n) w" "path_balanced k c (if c = RB_RED then Suc n else Suc (Suc n))" "c = RB_RED \<longrightarrow> color_of w = RB_BLACK"
      using Cons.prems(2,3) RB_BLACK by (cases c; simp add: short_black f)+
    have "w \<noteq> Tip" using bal(2) by auto
    note round = remove_color_round [OF Cons.prems(1) [unfolded f] RB_BLACK this]
    let ?rest = "\<lambda>(elm, parent, stop, head). if stop then make_black elm head else RB_REMOVE_COLOR parent elm head"
    have "recolored head (plug (f # k) t) (Option.bind (remove_color_side side (Some p) head) ?rest)"
    proof (cases "color_of w")
      case wb: RB_BLACK
      with \<open>w \<noteq> Tip\<close> obtain b y e where w: "w = node side RB_BLACK b y e" using node_cases [of w side] by auto
      have T: "plug (f # k) t = plug k (node side c t p w)" by (simp add: f)
      from round_black_sibling [OF rep T wb bal(2,1) RB_BLACK bal(3) Cons.IH] black_sibling_black [OF rep, of k side c t p b y e]
      show ?thesis by (simp add: remove_color_side_def f w)
    next
      case RB_RED
      then have c: "c = RB_BLACK" using bal(4) by (cases c) simp_all
      from RB_RED obtain b y e where w: "w = node side RB_RED b y e" using red_node by blast
      let ?T = "plug ((side, RB_BLACK, y, e) # k) (node side RB_RED t p b)"
      have T: "plug (f # k) t = plug k (node side c t p (node side RB_RED b y e))" by (simp add: f w)
      from black_sibling_red [OF rep T] obtain h1 where
        h1: "black_sibling side (Some p) head = Some (root_ptr b, h1)" "represents h1 ?T"
          "only_touches (set (inorder (plug (f # k) t))) head h1" by auto
      have "path_balanced ((side, RB_BLACK, y, e) # k) RB_RED (Suc n)" "balanced (Suc n) b" "color_of b = RB_BLACK"
        using bal(2,3) by (simp_all add: w c)
      with round_black_sibling [OF h1(2) refl, of n] bal(1) RB_BLACK
      have "recolored h1 ?T (Option.bind (with_black_sibling side (Some p) (root_ptr b) h1) ?rest)" by simp
      moreover have "inorder ?T = inorder (plug (f # k) t)" unfolding T by (simp add: inorder_plug) (simp add: node_def)
      ultimately show ?thesis using recolored_after [OF h1(3)] h1(1) by (simp add: remove_color_side_def)
    qed
    then show ?thesis using round by (simp add: f)
  qed
qed

subsection \<open>Taking an element out\<close>

lemma unlink_spec:
  assumes "at_path head k (node side c s x Tip)"
  shows "\<exists>head'. unlink (Some x) (root_ptr s) (parent_ptr k) head = Some head' \<and> at_path head' k s
     \<and> rbh_entries head' x = rbh_entries head x \<and> only_touches (nodes_at k s) head head'"
proof -
  obtain r h where head: "head = head_of r h" by (cases head)
  note at = assms [unfolded at_path_def head, simplified]
  from set_parent_of [of h "Some x" s "parent_ptr k" r] at obtain h1 where
    h1: "(if root_ptr s \<noteq> None then set_RB_PARENT (root_ptr s) (parent_ptr k) (head_of r h) else Some (head_of r h)) = Some (head_of r h1)"
      "laid_out h1 (parent_ptr k) s" "\<forall>y. y \<notin> set (inorder s) \<longrightarrow> h1 y = h y" by blast
  have "path_laid_out h1 k (Some x) = path_laid_out h k (Some x)"
    by (rule path_laid_out_cong) (use at h1(3) in auto)
  then have "path_laid_out h1 k (Some x)" "path_distinct k" "x \<notin> path_nodes k" using at by simp_all
  from relink_path [OF this, of "root_ptr s" r] obtain h2 where
    h2: "relink_parent (parent_ptr k) (Some x) (root_ptr s) (head_of r h1) = Some (head_of (if k = [] then root_ptr s else r) h2)"
      "path_laid_out h2 k (root_ptr s)" "\<forall>y. y \<notin> path_nodes k \<longrightarrow> h2 y = h1 y" by blast
  have "laid_out h2 (parent_ptr k) s = laid_out h1 (parent_ptr k) s"
    by (rule laid_out_cong) (use at h2(3) in auto)
  moreover have "r = root_ptr (plug k s)" if "k \<noteq> []" using at root_ptr_plug [OF that] by metis
  ultimately have "at_path (head_of (if k = [] then root_ptr s else r) h2) k s" unfolding at_path_def using at h1(2) h2(2) by auto
  moreover have "unlink (Some x) (root_ptr s) (parent_ptr k) head = Some (head_of (if k = [] then root_ptr s else r) h2)"
    by (simp only: unlink_def head h1(1) h2(1) bind.bind_lunit)
  moreover have "h2 x = h x" using at h1(3) h2(3) by simp
  moreover have "only_touches (nodes_at k s) head (head_of (if k = [] then root_ptr s else r) h2)"
    using h1(3) h2(3) by (simp add: only_touches_def nodes_at_def head)
  ultimately show ?thesis by (simp add: head)
qed

lemma leftmost_spec:
  "at_path head k t \<Longrightarrow> t \<noteq> Tip \<Longrightarrow>
     \<exists>j c y r. leftmost (root_ptr t) head = Some (Some y) \<and> t = plug j (node True c Tip y r) \<and> before j = []"
proof (induction t arbitrary: k)
  case (Bin c l x r)
  have at: "at_path head k (node True c l x r)" using Bin.prems(1) by (simp add: node_def)
  from read_node(1) [OF this] have left: "RB_LEFT (Some x) head = Some (root_ptr l)" by (simp add: child_def)
  show ?case
  proof (cases "l = Tip")
    case True
    then show ?thesis using left by (auto simp: leftmost.simps [of "Some x"] node_def intro!: exI [of _ "[]"])
  next
    case False
    have "at_path head ((True, c, x, r) # k) l" using at by (simp add: at_path_move)
    from Bin.IH(1) [OF this False] obtain j d y s where
      j: "leftmost (root_ptr l) head = Some (Some y)" "l = plug j (node True d Tip y s)" "before j = []" by blast
    then show ?thesis using left False
      by (intro exI [of _ "j @ [(True, c, x, r)]"]) (auto simp: leftmost.simps [of "Some x"] plug_append before_append node_def)
  qed
qed simp

lemma take_place_spec:
  assumes "at_path head k (node side c l x r)" "y \<notin> nodes_at k (node side c l x r)" "rbh_entries head y = Some v" "side" "l \<noteq> Tip"
  shows "\<exists>head'. take_place (Some y) (Some x) head = Some head' \<and> at_path head' k (node side c l y r)
     \<and> only_touches (insert y (nodes_at k (node side c l x r))) head head'"
proof -
  obtain q h where head: "head = head_of q h" by (cases head)
  note at = assms(1) [unfolded at_path_def head, simplified]
  have y: "y \<noteq> x" "y \<notin> set (inorder l)" "y \<notin> set (inorder r)" "y \<notin> path_nodes k" using assms(2) by (auto simp: nodes_at_def)
  let ?e = "entry side c (parent_ptr k) (root_ptr l) (root_ptr r)"
  define h1 where "h1 = h(y \<mapsto> ?e)"
  have k1: "path_laid_out h1 k (Some x)" "path_distinct k" "x \<notin> path_nodes k" using at y by (simp_all add: h1_def)
  from relink_path [OF this, of "Some y" q] obtain h2 where
    h2: "relink_parent (parent_ptr k) (Some x) (Some y) (head_of q h1) = Some (head_of (if k = [] then Some y else q) h2)"
      "path_laid_out h2 k (Some y)" "\<forall>z. z \<notin> path_nodes k \<longrightarrow> h2 z = h1 z" by blast
  let ?q = "if k = [] then Some y else q"
  have h2': "h2 z = h z" if "z \<notin> path_nodes k" "z \<noteq> y" for z using h2(3) that by (simp add: h1_def)
  have "laid_out h2 (Some x) l = laid_out h (Some x) l" by (rule laid_out_cong) (use at y h2' in auto)
  with set_parent_of [of h2 "Some x" l "Some y" ?q] at assms(5) obtain h3 where
    h3: "set_RB_PARENT (root_ptr l) (Some y) (head_of ?q h2) = Some (head_of ?q h3)" "laid_out h3 (Some y) l"
      "\<forall>z. z \<notin> set (inorder l) \<longrightarrow> h3 z = h2 z" by auto
  have "laid_out h3 (Some x) r = laid_out h (Some x) r"
  proof (rule laid_out_cong)
    fix z assume "z \<in> set (inorder r)"
    then have "z \<notin> set (inorder l)" "z \<notin> path_nodes k" "z \<noteq> y" using at y by auto
    then show "h3 z = h z" using h2' h3(3) by simp
  qed
  with set_parent_of [of h3 "Some x" r "Some y" ?q] at obtain h4 where
    h4: "(if root_ptr r \<noteq> None then set_RB_PARENT (root_ptr r) (Some y) (head_of ?q h3) else Some (head_of ?q h3)) = Some (head_of ?q h4)"
      "laid_out h4 (Some y) r" "\<forall>z. z \<notin> set (inorder r) \<longrightarrow> h4 z = h3 z" by blast
  have xs: "h x = Some ?e" "h1 x = Some ?e" "h2 x = Some ?e" "h3 x = Some ?e" using at y h2' h3(3) by (auto simp: h1_def)
  have run: "take_place (Some y) (Some x) head = Some (head_of ?q h4)"
  proof -
    have "rb_get id (Some x) (head_of q h) = Some ?e" "rb_set (\<lambda>_. ?e) (Some y) (head_of q h) = Some (head_of q h1)"
      using xs(1) assms(3) by (simp_all add: rb_get_def rb_set_def head h1_def)
    moreover have "RB_PARENT (Some x) (head_of q h1) = Some (parent_ptr k)" by (rule read_fields(3) [of h1 x, OF xs(2)])
    moreover have "RB_LEFT (Some x) (head_of ?q h2) = Some (root_ptr l)" "RB_RIGHT (Some x) (head_of ?q h3) = Some (root_ptr r)"
      using read_fields(1) [of h2 x, OF xs(3), of ?q] read_fields(2) [of h3 x, OF xs(4), of ?q] assms(4) by (simp_all add: child_def)
    ultimately show ?thesis by (simp only: take_place_def head h2(1) h3(1) h4(1) bind.bind_lunit)
  qed
  have h4': "h4 z = h2 z" if "z \<notin> set (inorder l)" "z \<notin> set (inorder r)" for z using h3(3) h4(3) that by simp
  have "laid_out h4 (Some y) l = laid_out h3 (Some y) l" by (rule laid_out_cong) (use at h4(3) in auto)
  moreover have "path_laid_out h4 k (Some y) = path_laid_out h2 k (Some y)" by (rule path_laid_out_cong) (use at h4' in auto)
  moreover have "h4 y = Some ?e" using h4' [of y] y h2(3) by (simp add: h1_def)
  moreover have "q = root_ptr (plug k (node side c l y r))" if "k \<noteq> []" using at root_ptr_plug [OF that] by metis
  ultimately have "at_path (head_of ?q h4) k (node side c l y r)" unfolding at_path_def using at y h2(2) h3(2) h4(2) by auto
  moreover have "only_touches (insert y (nodes_at k (node side c l x r))) head (head_of ?q h4)"
    using h2' h4' by (auto simp: only_touches_def nodes_at_def head)
  ultimately show ?thesis using run by blast
qed

lemma balanced_short: "balanced n t \<Longrightarrow> short n t"
  by (cases t; cases "color_of t") (auto simp: short_def)

text \<open>After a node with at most one child was taken out.\<close>

lemma remove_finish:
  assumes "at_path head k s" "balanced m (node side c s x Tip)" "path_balanced k c m"
  shows "recolored head (plug k s) (if c = RB_BLACK then RB_REMOVE_COLOR (parent_ptr k) (root_ptr s) head else Some head)"
proof (cases c)
  case RB_BLACK
  then obtain n where n: "m = Suc n" "balanced n s" using assms(2) by (cases m) simp_all
  with RB_REMOVE_COLOR_spec [OF assms(1) balanced_short [OF n(2)]] assms(3) RB_BLACK show ?thesis by simp
next
  case RB_RED
  then have "balanced m s" "color_of s = RB_BLACK" using assms(2) by auto
  then have "red_black (plug k s)" using balanced_plug [of k s m] path_balanced_black assms(3) by metis
  then show ?thesis using assms(1) at_path_represents RB_RED by (auto simp: recolored_def)
qed

lemma remove_one_child:
  assumes "at_path head k (node side c s x Tip)" "red_black (plug k (node side c s x Tip))"
  shows "\<exists>head' t'. RB_REMOVE x head = Some (Some x, head') \<and> represents head' t' \<and> red_black t'
     \<and> inorder t' = before k @ inorder s @ after k \<and> only_touches (nodes_at k s) head head'"
proof -
  note x = read_node [OF assms(1)]
  from path_balanced_plug [OF assms(2)] obtain m where m: "balanced m (node side c s x Tip)" "path_balanced k c m" by auto
  from unlink_spec [OF assms(1)] obtain h1 where
    h1: "unlink (Some x) (root_ptr s) (parent_ptr k) head = Some h1" "at_path h1 k s" "only_touches (nodes_at k s) head h1" by blast
  from remove_finish [OF h1(2) m] obtain h2 t2 where
    h2: "(if c = RB_BLACK then RB_REMOVE_COLOR (parent_ptr k) (root_ptr s) h1 else Some h1) = Some h2" "represents h2 t2" "red_black t2"
      "inorder t2 = before k @ inorder s @ after k" "only_touches (nodes_at k s) h1 h2"
    unfolding recolored_def by (auto simp: inorder_plug nodes_at_plug)
  have kids: "RB_LEFT (Some x) head = Some (if side then root_ptr s else None)" "RB_RIGHT (Some x) head = Some (if side then None else root_ptr s)"
    using x(1,2) by (cases side; simp add: child_def)+
  have "RB_REMOVE x head = Some (Some x, h2)"
    using kids x(3,4) h1(1) h2(1) by (cases side; cases s; cases c) (simp_all add: RB_REMOVE_def)
  then show ?thesis using h2 only_touches_trans [OF h1(3) h2(5)] by blast
qed

lemma path_balanced_rename: "path_balanced (j @ (side, c, x, s) # k) d n \<longleftrightarrow> path_balanced (j @ (side, c, y, s) # k) d n"
proof (induction j arbitrary: d n)
  case Nil
  then show ?case by (cases c) simp_all
next
  case (Cons f j)
  obtain sd e z w where "f = (sd, e, z, w)" by (cases f)
  then show ?case using Cons.IH by (cases e) simp_all
qed

lemma path_nodes_append [simp]: "path_nodes (j @ k) = path_nodes j \<union> path_nodes k"
  by (induction j) auto

lemma remove_two_children:
  assumes "at_path head k (node True c l x r)" "red_black (plug k (node True c l x r))" "l \<noteq> Tip" "r \<noteq> Tip"
  shows "\<exists>head' t'. RB_REMOVE x head = Some (Some x, head') \<and> represents head' t' \<and> red_black t'
     \<and> inorder t' = before k @ inorder l @ inorder r @ after k \<and> only_touches (nodes_at k (node True c l x r)) head head'"
proof -
  note x = read_node [OF assms(1)]
  have ar: "at_path head ((False, c, x, l) # k) r" using assms(1) by (simp add: at_path_move node_def)
  from leftmost_spec [OF ar assms(4)] obtain j d y s where
    j: "leftmost (root_ptr r) head = Some (Some y)" "r = plug j (node True d Tip y s)" "before j = []" by blast
  let ?K = "j @ (False, c, x, l) # k" and ?K' = "j @ (False, c, y, l) # k"
  have ay: "at_path head ?K (node False d s y Tip)" using ar j(2) by (simp add: at_path_plug node_def)
  note y = read_node [OF ay]
  have "red_black (plug ?K (node False d s y Tip))" using assms(2) j(2) by (simp add: plug_append node_def)
  from path_balanced_plug [OF this] obtain m where m0: "balanced m (node False d s y Tip)" "path_balanced ?K d m" by auto
  note m = m0(1) m0(2) [unfolded path_balanced_rename [of j False c x l k d m y]]
  from unlink_spec [OF ay] obtain h1 where
    h1: "unlink (Some y) (root_ptr s) (parent_ptr ?K) head = Some h1" "at_path h1 ?K s" "rbh_entries h1 y = rbh_entries head y"
      "only_touches (nodes_at ?K s) head h1" by blast
  have a1: "at_path h1 k (node True c l x (plug j s))" using h1(2) by (simp add: at_path_plug at_path_move node_def)
  have nodes: "nodes_at k (node True c l x r) = insert y (nodes_at k (node True c l x (plug j s)))"
    "nodes_at ?K s = nodes_at k (node True c l x (plug j s))" "nodes_at ?K' s \<subseteq> nodes_at k (node True c l x r)"
    by (auto simp: nodes_at_def path_nodes_eq before_append j inorder_plug)
  have yn: "y \<notin> nodes_at k (node True c l x (plug j s))"
    using ay by (auto simp: at_path_def nodes_at_def path_nodes_append path_nodes_eq [of j] inorder_plug)
  have jx: "parent_ptr ?K = Some x \<longleftrightarrow> j = []"
    using ay by (cases j) (auto simp: at_path_def path_nodes_append)
  have "rbh_entries head y \<noteq> None" using ay by (simp add: at_path_def)
  with take_place_spec [OF a1 yn] h1(3) assms(3) obtain h2 where
    h2: "take_place (Some y) (Some x) h1 = Some h2" "at_path h2 k (node True c l y (plug j s))"
      "only_touches (nodes_at k (node True c l x r)) h1 h2" unfolding nodes(1) by auto
  have a2: "at_path h2 ?K' s" using h2(2) by (simp add: at_path_plug at_path_move node_def)
  have pp: "parent_ptr ?K' = (if parent_ptr ?K = Some x then Some y else parent_ptr ?K)" using jx by (cases j) auto
  from remove_finish [OF a2 m] obtain h3 t3 where
    h3: "(if d = RB_BLACK then RB_REMOVE_COLOR (parent_ptr ?K') (root_ptr s) h2 else Some h2) = Some h3" "represents h3 t3" "red_black t3"
      "inorder t3 = inorder (plug ?K' s)" "only_touches (nodes_at ?K' s) h2 h3"
    unfolding recolored_def by (auto simp: nodes_at_plug)
  have up: "RB_PARENT (Some y) h1 = Some (parent_ptr ?K)" using y(3) h1(3) by (simp add: RB_PARENT_def rb_get_def)
  have "RB_REMOVE x head = Some (Some x, h3)"
    using x y(1,3,4) j(1) assms(3,4) h1(1) up h2(1) h3(1) unfolding pp by (simp add: RB_REMOVE_def child_def Let_def)
  moreover have "inorder t3 = before k @ inorder l @ inorder r @ after k"
    using h3(4) by (simp add: inorder_plug before_append j node_def)
  moreover have "only_touches (nodes_at k (node True c l x r)) head h3"
    using h1(4) h2(3) h3(5) nodes by (auto simp: only_touches_def)
  ultimately show ?thesis using h3 by blast
qed

lemma at_element: "x \<in> set (inorder t) \<Longrightarrow> \<exists>k c l r. t = plug k (node True c l x r)"
proof (induction t)
  case (Bin c l y r)
  from Bin.prems consider "x = y" | "x \<in> set (inorder l)" | "x \<in> set (inorder r)" by auto
  then show ?case
  proof cases
    case 1
    then show ?thesis by (intro exI [of _ "[]"] exI [of _ c]) (auto simp: node_def)
  next
    case 2
    from Bin.IH(1) [OF this] obtain k d a b where "l = plug k (node True d a x b)" by blast
    then have "Bin c l y r = plug (k @ [(True, c, y, r)]) (node True d a x b)" by (simp add: plug_append node_def)
    then show ?thesis by blast
  next
    case 3
    from Bin.IH(2) [OF this] obtain k d a b where "r = plug k (node True d a x b)" by blast
    then have "Bin c l y r = plug (k @ [(False, c, y, l)]) (node True d a x b)" by (simp add: plug_append node_def)
    then show ?thesis by blast
  qed
qed simp

lemma RB_REMOVE_spec:
  assumes "holds head xs" "x \<in> set xs"
  shows "\<exists>head'. RB_REMOVE x head = Some (Some x, head') \<and> holds head' (remove1 x xs) \<and> only_touches (set xs) head head'"
proof -
  obtain t where t: "represents head t" "red_black t" "inorder t = xs" using assms(1) by (auto simp: holds_def)
  from at_element [of x t] assms(2) t(3) obtain k c l r where k: "t = plug k (node True c l x r)" by blast
  have at: "at_path head k (node True c l x r)" using t(1) at_path_represents k by blast
  have xs: "xs = before k @ inorder l @ x # inorder r @ after k" using t(3) k inorder_plug by (simp add: node_def)
  have "distinct xs" using t(1,3) by (simp add: at_path_def)
  then have rm: "remove1 x xs = before k @ inorder l @ inorder r @ after k" by (simp add: xs remove1_append)
  have nodes: "nodes_at k (node True c l x r) = set xs" "nodes_at k l \<subseteq> set xs" "nodes_at k r \<subseteq> set xs"
    by (auto simp: nodes_at_def path_nodes_eq xs)
  have grow: "only_touches N head h \<Longrightarrow> N \<subseteq> set xs \<Longrightarrow> only_touches (set xs) head h" for N h by (auto simp: only_touches_def)
  consider "r = Tip" | "l = Tip" | "l \<noteq> Tip" "r \<noteq> Tip" by blast
  then show ?thesis
  proof cases
    case 1
    then show ?thesis using remove_one_child [of head k True c l x] at t(2) k nodes(2) rm grow by (auto simp: holds_def)
  next
    case 2
    have "node True c l x r = node False c r x l" by (simp add: node_def)
    then show ?thesis using 2 remove_one_child [of head k False c r x] at t(2) k nodes(3) rm grow by (auto simp: holds_def)
  next
    case 3
    then show ?thesis using remove_two_children [OF at _ 3] t(2) k nodes(1) rm by (auto simp: holds_def)
  qed
qed


end
