(* ===== verification/Sys_Tree_Walk.thy ===== *)
theory Sys_Tree_Walk
  imports Sys_Tree_Remove
begin

text \<open>
  Searching and walking a tree of \<open>sys/tree.h\<close>, and the tree as an implementation of the ordered tables of the daemon: what
  \<open>RB_INSERT\<close>, \<open>RB_FIND\<close>, \<open>RB_REMOVE\<close> and \<open>RB_FOREACH\<close> do is what the operations of a sorted list do.
\<close>

subsection \<open>Walking\<close>

abbreviation first :: "nat list \<Rightarrow> rb_ptr" where
  "first xs \<equiv> (case xs of [] \<Rightarrow> None | x # _ \<Rightarrow> Some x)"

lemma climb_spec:
  "at_path head k t \<Longrightarrow> t \<noteq> Tip \<Longrightarrow> \<exists>q. climb_from_right (root_ptr t) head = Some q \<and> RB_PARENT q head = Some (first (after k))"
proof (induction k arbitrary: t)
  case Nil
  then obtain c l x r where t: "t = node True c l x r" using node_cases by blast
  then have "RB_PARENT (Some x) head = Some None" using Nil.prems(1) read_node(3) by fastforce
  then show ?case by (simp add: t climb_from_right.simps)
next
  case (Cons f k)
  obtain side d p s where f: "f = (side, d, p, s)" by (cases f)
  from Cons.prems(2) obtain c l x r where t: "t = node True c l x r" using node_cases by blast
  have up: "RB_PARENT (Some x) head = Some (Some p)" using read_node(3) Cons.prems(1) by (fastforce simp: t f)
  have ap: "at_path head k (node side d t p s)" using Cons.prems(1) by (simp add: f at_path_move)
  note p = read_node(1,2) [OF ap]
  show ?case
  proof (cases side)
    case True
    have "root_ptr s \<noteq> Some x" using Cons.prems(1) root_ptr_in [of s x] by (auto simp: at_path_def f t)
    then show ?thesis using up p True by (auto simp: climb_from_right.simps [of "Some x"] child_def f t)
  next
    case False
    from Cons.IH [OF ap] show ?thesis using up p False by (simp add: climb_from_right.simps [of "Some x"] child_def f t)
  qed
qed

lemma RB_NEXT_at:
  assumes "at_path head k (node True c l x r)"
  shows "RB_NEXT (Some x) head = Some (first (inorder r @ after k))"
proof -
  note x = read_node [OF assms]
  show ?thesis
  proof (cases "r = Tip")
    case False
    have "at_path head ((False, c, x, l) # k) r" using assms by (simp add: at_path_move node_def)
    from leftmost_spec [OF this False] obtain j d y s where
      "leftmost (root_ptr r) head = Some (Some y)" "r = plug j (node True d Tip y s)" "before j = []" by blast
    then show ?thesis using x False by (simp add: RB_NEXT_def child_def inorder_plug node_def)
  next
    case True
    from climb_spec [OF assms] obtain q where
      q: "climb_from_right (Some x) head = Some q" "RB_PARENT q head = Some (first (after k))" by auto
    show ?thesis
    proof (cases k)
      case Nil
      then show ?thesis using x True q by (simp add: RB_NEXT_def child_def)
    next
      case (Cons f j)
      obtain side d p s where f: "f = (side, d, p, s)" by (cases f)
      have ap: "at_path head j (node side d (node True c l x r) p s)" using assms by (simp add: Cons f at_path_move)
      have "root_ptr s \<noteq> Some x" using assms root_ptr_in [of s x] by (auto simp: at_path_def Cons f)
      then have "RB_LEFT (Some p) head = Some (if side then Some x else root_ptr s)" "side \<or> root_ptr s \<noteq> Some x"
        using read_node(1,2) [OF ap] by (cases side; simp add: child_def)+
      then show ?thesis using x True q by (cases side) (auto simp: RB_NEXT_def child_def Cons f)
    qed
  qed
qed

lemma minmax_spec:
  "at_path head k t \<Longrightarrow> minmax_from val (root_ptr t) p head =
     Some (if t = Tip then p else Some (if val < 0 then hd (inorder t) else last (inorder t)))"
proof (induction t arbitrary: k p)
  case Tip
  then show ?case by (simp add: minmax_from.simps)
next
  case (Bin c l x r)
  have at: "at_path head k (node True c l x r)" using Bin.prems by (simp add: node_def)
  note x = read_node(1,2) [OF at]
  have "at_path head ((True, c, x, r) # k) l" "at_path head ((False, c, x, l) # k) r" using at by (simp_all add: at_path_move node_def)
  then show ?case using Bin.IH(1) [of "(True, c, x, r) # k" "Some x"] Bin.IH(2) [of "(False, c, x, l) # k" "Some x"] x
    by (cases l; cases r) (simp_all add: minmax_from.simps [of val "Some x"] child_def hd_append)
qed

lemma holds_next:
  assumes "holds head (ys @ x # zs)"
  shows "RB_NEXT (Some x) head = Some (first zs)"
proof -
  obtain t where t: "represents head t" "inorder t = ys @ x # zs" using assms by (auto simp: holds_def)
  from at_element [of x t] t(2) obtain k c l r where k: "t = plug k (node True c l x r)" by auto
  have at: "at_path head k (node True c l x r)" using t(1) at_path_represents k by blast
  have "(before k @ inorder l) @ x # inorder r @ after k = ys @ x # zs" using t(2) k inorder_plug by (simp add: node_def)
  moreover have "distinct (ys @ x # zs)" using t by (simp add: at_path_def)
  ultimately have "inorder r @ after k = zs" by (metis append_Cons_eq_iff distinct.simps(2) distinct_append not_distinct_conv_prefix)
  then show ?thesis using RB_NEXT_at [OF at] by simp
qed

lemma holds_first: "holds head xs \<Longrightarrow> RB_MINMAX RB_NEGINF head = Some (first xs)"
proof -
  assume "holds head xs"
  then obtain t where t: "represents head t" "inorder t = xs" by (auto simp: holds_def)
  then have "rbh_root head = root_ptr t" by (simp add: at_path_def)
  moreover have "t = Tip \<longleftrightarrow> xs = []" using t(2) by (cases t) auto
  ultimately show ?thesis using minmax_spec [OF t(1), of RB_NEGINF None] t(2) by (auto simp: RB_MINMAX_def split: list.splits)
qed

lemma walk_spec: "holds head (ys @ zs) \<Longrightarrow> walk (first zs) head = Some zs"
proof (induction zs arbitrary: ys)
  case Nil
  then show ?case by (simp add: walk.simps)
next
  case (Cons x zs)
  from Cons.IH [of "ys @ [x]"] Cons.prems have "walk (first zs) head = Some zs" by simp
  then show ?case using holds_next [OF Cons.prems] by (simp add: walk.simps [of "Some x"])
qed

lemma RB_FOREACH_spec: "holds head xs \<Longrightarrow> RB_FOREACH head = Some xs"
  using walk_spec [of head "[]" xs] holds_first [of head xs] by (simp add: RB_FOREACH_def)

lemma holds_distinct: "holds head xs \<Longrightarrow> distinct xs"
  by (auto simp: holds_def at_path_def)

text \<open>A body that takes out at most the element it is called with.\<close>

lemma walk_safe_spec:
  assumes "\<And>x head head' xs. holds head xs \<Longrightarrow> x \<in> set xs \<Longrightarrow> body x head = Some head' \<Longrightarrow>
      holds head' xs \<or> holds head' (remove1 x xs)"
  shows "holds head (ys @ zs) \<Longrightarrow> walk_safe body (first zs) head = foreach body zs head"
proof (induction zs arbitrary: ys head)
  case Nil
  then show ?case by (simp add: walk_safe.simps)
next
  case (Cons x zs)
  have "walk_safe body (first zs) head' = foreach body zs head'" if b: "body x head = Some head'" for head'
  proof -
    have "x \<notin> set ys" using holds_distinct [OF Cons.prems] by simp
    then have "remove1 x (ys @ x # zs) = ys @ zs" by (simp add: remove1_append)
    with assms [OF Cons.prems _ b] have "holds head' ((ys @ [x]) @ zs) \<or> holds head' (ys @ zs)" by simp
    then show ?thesis using Cons.IH by blast
  qed
  then show ?case using holds_next [OF Cons.prems]
    by (cases "body x head") (simp_all add: walk_safe.simps [of body "Some x"])
qed

subsection \<open>Searching\<close>

context rb_compare
begin

lemma find_from_spec:
  "at_path head k t \<Longrightarrow> rb_inv key (inorder t) \<Longrightarrow> find_from cmp e (root_ptr t) head = Some (rb_find key (key e) (inorder t))"
proof (induction t arbitrary: k)
  case Tip
  then show ?case by (simp add: find_from.simps rb_find_def)
next
  case (Bin c l x r)
  have at: "at_path head k (node True c l x r)" using Bin.prems by (simp add: node_def)
  note x = read_node(1,2) [OF at]
  have sub: "at_path head ((True, c, x, r) # k) l" "at_path head ((False, c, x, l) # k) r" using at by (simp_all add: at_path_move node_def)
  have inv: "rb_inv key (inorder l)" "rb_inv key (inorder r)" "\<forall>y\<in>set (inorder l). key y < key x" "\<forall>y\<in>set (inorder r). key x < key y"
    using Bin.prems(2) by (auto simp: rb_inv_def sorted_wrt_append)
  consider (less) "key e < key x" | (same) "key e = key x" | (greater) "key x < key e" by (rule linorder_cases)
  then show ?case
  proof cases
    case less
    then have "\<forall>y\<in>set (x # inorder r). key e < key y" using inv(4) by auto
    from rb_find_below [OF this] show ?thesis using less cmp_less [of e x] x Bin.IH(1) [OF sub(1) inv(1)]
      by (auto simp: find_from.simps [of cmp e "Some x"] child_def rb_find_def find_append split: option.splits)
  next
    case same
    then have "rb_find key (key e) (inorder l) = None" using inv(3) by (auto simp: rb_find_def find_None_iff)
    then show ?thesis using same cmp_eq [of e x] by (simp add: find_from.simps rb_find_def find_append)
  next
    case greater
    then have "rb_find key (key e) (inorder l) = None" using inv(3) by (auto simp: rb_find_def find_None_iff)
    then show ?thesis using greater cmp_greater [of e x] x Bin.IH(2) [OF sub(2) inv(2)]
      by (auto simp: find_from.simps [of cmp e "Some x"] child_def rb_find_def find_append)
  qed
qed

lemma RB_FIND_spec: "holds head xs \<Longrightarrow> rb_inv key xs \<Longrightarrow> RB_FIND cmp e head = Some (rb_find key (key e) xs)"
  using find_from_spec [of head "[]"] by (auto simp: holds_def RB_FIND_def at_path_def)

lemma nfind_from_spec:
  "at_path head k t \<Longrightarrow> rb_inv key (inorder t) \<Longrightarrow> nfind_from cmp e (root_ptr t) res head =
     Some (case List.find (\<lambda>y. key e \<le> key y) (inorder t) of None \<Rightarrow> res | Some y \<Rightarrow> Some y)"
proof (induction t arbitrary: k res)
  case Tip
  then show ?case by (simp add: nfind_from.simps)
next
  case (Bin c l x r)
  have at: "at_path head k (node True c l x r)" using Bin.prems by (simp add: node_def)
  note x = read_node(1,2) [OF at]
  have sub: "at_path head ((True, c, x, r) # k) l" "at_path head ((False, c, x, l) # k) r" using at by (simp_all add: at_path_move node_def)
  have inv: "rb_inv key (inorder l)" "rb_inv key (inorder r)" "\<forall>y\<in>set (inorder l). key y < key x"
    using Bin.prems(2) by (auto simp: rb_inv_def sorted_wrt_append)
  have low: "List.find (\<lambda>y. key e \<le> key y) (inorder l) = None" if "key x \<le> key e"
    using inv(3) that by (force simp: find_None_iff)
  consider (less) "key e < key x" | (same) "key e = key x" | (greater) "key x < key e" by (rule linorder_cases)
  then show ?case
  proof cases
    case less
    then show ?thesis using cmp_less [of e x] x Bin.IH(1) [OF sub(1) inv(1)]
      by (simp add: nfind_from.simps [of cmp e "Some x"] child_def find_append less_imp_le split: option.splits)
  next
    case same
    then show ?thesis using cmp_eq [of e x] low by (simp add: nfind_from.simps find_append)
  next
    case greater
    then have "\<not> key e \<le> key x" "key x \<le> key e" by simp_all
    then show ?thesis using greater cmp_greater [of e x] x Bin.IH(2) [OF sub(2) inv(2)] low
      by (simp add: nfind_from.simps [of cmp e "Some x"] child_def find_append)
  qed
qed

lemma RB_NFIND_spec: "holds head xs \<Longrightarrow> rb_inv key xs \<Longrightarrow> RB_NFIND cmp e head = Some (List.find (\<lambda>y. key e \<le> key y) xs)"
  using nfind_from_spec [of head "[]" _ e None] by (auto simp: holds_def RB_NFIND_def at_path_def split: option.splits)

lemma rb_remove_remove1: "rb_inv key xs \<Longrightarrow> x \<in> set xs \<Longrightarrow> rb_remove key (key x) xs = remove1 x xs"
proof (induction xs)
  case (Cons y ys)
  then have lt: "\<forall>z\<in>set ys. key y < key z" "rb_inv key ys" by (simp_all add: rb_inv_def)
  show ?case
  proof (cases "x = y")
    case True
    then have "filter (\<lambda>z. key z \<noteq> key x) ys = ys" using lt(1) by (intro filter_True) auto
    then show ?thesis using True by (simp add: rb_remove_def)
  next
    case False
    then have "x \<in> set ys" "key y \<noteq> key x" using Cons.prems(2) lt(1) by auto
    then show ?thesis using Cons.IH [OF lt(2)] False by (simp add: rb_remove_def)
  qed
qed simp

end

end
