(* ===== verification/Sys_Tree_Tables.thy ===== *)
theory Sys_Tree_Tables
  imports Sys_Tree_Walk Bulb Sample_World
begin

text \<open>
  The two trees of lightsd, the bulbs by address (\<open>src/lifx/bulb.h\<close>) and the packets by type (\<open>src/lifx/wire_proto.h\<close>): the
  comparison functions, and that the trees of \<open>sys/tree.h\<close> are the tables of the other theories.
\<close>

subsection \<open>Comparison functions\<close>

text \<open>Only the sign of what \<open>memcmp\<close> returns is used.\<close>

fun memcmp :: "bytes \<Rightarrow> bytes \<Rightarrow> int" where
  "memcmp (a # as) (b # bs) = (if a = b then memcmp as bs else uint a - uint b)"
| "memcmp _ _ = 0"

text \<open>The six bytes at the field \<open>addr\<close> of every bulb.\<close>

definition addr_of :: "(nat \<Rightarrow> nat \<Rightarrow> u8) \<Rightarrow> nat \<Rightarrow> bulb_addr" where
  "addr_of addr bulb = map (addr bulb) [0..<6]"

definition lgtd_lifx_bulb_cmp :: "(nat \<Rightarrow> nat \<Rightarrow> u8) \<Rightarrow> nat \<Rightarrow> nat \<Rightarrow> int" where
  "lgtd_lifx_bulb_cmp addr a b = memcmp (addr_of addr a) (addr_of addr b)"

definition lgtd_lifx_packet_info_cmp :: "(nat \<Rightarrow> u16) \<Rightarrow> nat \<Rightarrow> nat \<Rightarrow> int" where
  "lgtd_lifx_packet_info_cmp ptype a b = uint (ptype a) - uint (ptype b)"

lemma memcmp_order: "length as = length bs \<Longrightarrow> (memcmp as bs < 0 \<longleftrightarrow> as < bs) \<and> (memcmp as bs = 0 \<longleftrightarrow> as = bs)"
proof (induction as bs rule: list_induct2)
  case (Cons a as b bs)
  then show ?case by (auto simp: word_less_def word_uint_eq_iff)
qed simp

lemma length_addr_of [simp]: "length (addr_of addr p) = 6"
  by (simp add: addr_of_def)

interpretation bulb_tree: rb_compare "lgtd_lifx_bulb_cmp addr" "addr_of addr" for addr
  by unfold_locales (simp_all add: lgtd_lifx_bulb_cmp_def memcmp_order)

interpretation packet_tree: rb_compare "lgtd_lifx_packet_info_cmp ptype" ptype for ptype
  by unfold_locales (auto simp: lgtd_lifx_packet_info_cmp_def word_less_def word_uint_eq_iff)

subsection \<open>The table of bulbs\<close>

text \<open>The bulbs at some addresses, in the form the world keeps them.\<close>

definition bulbs_at :: "(nat \<Rightarrow> nat \<Rightarrow> u8) \<Rightarrow> (nat \<Rightarrow> lgtd_lifx_bulb) \<Rightarrow> nat list \<Rightarrow> (bulb_addr \<times> lgtd_lifx_bulb) list" where
  "bulbs_at addr bulb = map (\<lambda>p. (addr_of addr p, bulb p))"

lemma bulbs_at_table:
  "rb_inv fst (bulbs_at addr bulb xs) = rb_inv (addr_of addr) xs"
  "rb_insert fst (addr_of addr e, bulb e) (bulbs_at addr bulb xs) = bulbs_at addr bulb (rb_insert (addr_of addr) e xs)"
  "rb_remove fst a (bulbs_at addr bulb xs) = bulbs_at addr bulb (rb_remove (addr_of addr) a xs)"
  "map_option snd (rb_find fst a (bulbs_at addr bulb xs)) = map_option bulb (rb_find (addr_of addr) a xs)"
  unfolding bulbs_at_def by (induction xs) (auto simp: rb_inv_def rb_remove_def rb_find_def image_image)

text \<open>
  C11: The tree of bulbs of \<open>sys/tree.h\<close> is the table of bulbs: when the tree holds the bulbs of the table, \<open>RB_FIND\<close> finds what
  \<open>lgtd_lifx_bulb_get\<close> gives, \<open>RB_INSERT\<close> ends, without an access to \<open>NULL\<close>, in a red-black tree that holds the table with the
  new bulb, unless the address is taken, and \<open>RB_FOREACH\<close> visits the bulbs in the order of the table.
\<close>

theorem bulb_tree_implements_table:
  assumes "holds head xs" "w_bulbs w = bulbs_at addr bulb xs" "rb_inv fst (w_bulbs w)" "rbh_entries head e \<noteq> None"
  shows "(\<exists>p. RB_FIND (lgtd_lifx_bulb_cmp addr) e head = Some p \<and> map_option bulb p = lgtd_lifx_bulb_get (addr_of addr e) w)
     \<and> (\<exists>r head' xs'. RB_INSERT (lgtd_lifx_bulb_cmp addr) e head = Some (r, head') \<and> holds head' xs'
          \<and> bulbs_at addr bulb xs' = rb_insert fst (addr_of addr e, bulb e) (w_bulbs w))
     \<and> map_option (bulbs_at addr bulb) (RB_FOREACH head) = Some (w_bulbs w)"
proof -
  have inv: "rb_inv (addr_of addr) xs" using assms(2,3) by (simp add: bulbs_at_table)
  have "lgtd_lifx_bulb_get (addr_of addr e) w = map_option bulb (rb_find (addr_of addr) (addr_of addr e) xs)"
    by (simp only: lgtd_lifx_bulb_get_def assms(2) bulbs_at_table)
  with bulb_tree.RB_INSERT_spec [OF assms(1) inv assms(4)] show ?thesis
    using bulb_tree.RB_FIND_spec [OF assms(1) inv, of e] RB_FOREACH_spec [OF assms(1)]
    by (auto simp: assms(2) bulbs_at_table)
qed

text \<open>
  C12: \<open>RB_REMOVE\<close> takes a bulb out of the tree: it ends, without an access to \<open>NULL\<close>, in a red-black tree that holds the
  table without the bulb, and writes no entry of anything that is not in the tree.
\<close>

theorem bulb_tree_remove:
  assumes "holds head xs" "w_bulbs w = bulbs_at addr bulb xs" "rb_inv fst (w_bulbs w)" "p \<in> set xs"
  shows "\<exists>head' xs'. RB_REMOVE p head = Some (Some p, head') \<and> holds head' xs'
     \<and> bulbs_at addr bulb xs' = rb_remove fst (addr_of addr p) (w_bulbs w)
     \<and> (\<forall>q. q \<notin> set xs \<longrightarrow> rbh_entries head' q = rbh_entries head q)"
proof -
  have inv: "rb_inv (addr_of addr) xs" using assms(2,3) by (simp add: bulbs_at_table)
  from RB_REMOVE_spec [OF assms(1,4)] show ?thesis
    using bulb_tree.rb_remove_remove1 [OF inv assms(4)] by (auto simp: assms(2) bulbs_at_table only_touches_def)
qed

text \<open>
  C31: A loop with \<open>RB_FOREACH_SAFE\<close> whose body takes out at most the element it is called with, as the watchdog closes bulbs,
  runs its body once for each element that was in the tree, in order.
\<close>

theorem foreach_safe_visits_all:
  assumes "holds head xs"
    and "\<And>x head head' xs. holds head xs \<Longrightarrow> x \<in> set xs \<Longrightarrow> body x head = Some head' \<Longrightarrow>
      holds head' xs \<or> holds head' (remove1 x xs)"
  shows "RB_FOREACH_SAFE body head = foreach body xs head"
  using holds_first [OF assms(1)] walk_safe_spec [where ys = "[]" and body = body, OF assms(2)] assms(1)
  by (simp add: RB_FOREACH_SAFE_def)

subsection \<open>Loading a table\<close>

definition insert_all :: "(nat \<Rightarrow> nat \<Rightarrow> int) \<Rightarrow> nat list \<Rightarrow> rb_head \<Rightarrow> rb_head option" where
  "insert_all cmp = foreach (\<lambda>e head. map_option snd (RB_INSERT cmp e head))"

lemma holds_allocated:
  assumes "holds head xs" "x \<in> set xs"
  shows "rbh_entries head x \<noteq> None"
proof -
  obtain t where t: "represents head t" "inorder t = xs" using assms(1) by (auto simp: holds_def)
  from at_element [of x t] t(2) assms(2) obtain k c l r where "t = plug k (node True c l x r)" by blast
  then have "at_path head k (node True c l x r)" using t(1) at_path_represents by blast
  then show ?thesis by (simp add: at_path_def)
qed

context rb_compare
begin

lemma insert_all_spec:
  "holds head xs \<Longrightarrow> rb_inv key xs \<Longrightarrow> \<forall>e\<in>set es. rbh_entries head e \<noteq> None \<Longrightarrow>
     \<exists>head'. insert_all cmp es head = Some head' \<and> holds head' (fold (rb_insert key) es xs)"
proof (induction es arbitrary: head xs)
  case Nil
  then show ?case by (simp add: insert_all_def)
next
  case (Cons e es)
  from RB_INSERT_spec [OF Cons.prems(1,2), of e] Cons.prems(3) obtain h1 where
    h1: "RB_INSERT cmp e head = Some (rb_find key (key e) xs, h1)" "holds h1 (rb_insert key e xs)" "only_touches (insert e (set xs)) head h1"
    by auto
  have "rbh_entries h1 x \<noteq> None" if "x \<in> set es" for x
  proof (cases "rb_find key (key e) xs")
    case None
    then have "key e \<notin> key ` set xs" by (auto simp: rb_find_def find_None_iff)
    from set_rb_insert_new [OF this] have "set (rb_insert key e xs) = insert e (set xs)" .
    then show ?thesis using holds_allocated [OF h1(2), of x] h1(3) Cons.prems(3) that
      by (cases "x \<in> insert e (set xs)") (auto simp: only_touches_def)
  next
    case (Some y)
    then have "h1 = head" using h1(1) by (auto simp: RB_INSERT_def bind_eq_Some_conv split: if_splits)
    then show ?thesis using Cons.prems(3) that by simp
  qed
  with Cons.IH [OF h1(2) rb_inv_insert [OF Cons.prems(2)]] h1(1) show ?case by (simp add: insert_all_def)
qed

end

text \<open>The macro \<open>RB_INITIALIZER\<close>.\<close>

definition RB_INITIALIZER :: "entries \<Rightarrow> rb_head" where
  "RB_INITIALIZER h = \<lparr>rbh_root = None, rbh_entries = h\<rparr>"

lemma holds_initially: "holds (RB_INITIALIZER h) []"
  unfolding holds_def by (intro exI [of _ Tip]) (simp add: RB_INITIALIZER_def at_path_def red_black_def)

lemma rb_insert_map: "rb_insert key (f x) (map f xs) = map f (rb_insert (key \<circ> f) x xs)"
  by (induction xs) auto

lemma fold_rb_insert_map: "fold (rb_insert key) (map f es) (map f xs) = map f (fold (rb_insert (key \<circ> f)) es xs)"
  by (induction es arbitrary: xs) (simp_all add: rb_insert_map)

lemma rb_find_map: "rb_find key k (map f xs) = map_option f (rb_find (key \<circ> f) k xs)"
  by (induction xs) (auto simp: rb_find_def)

lemma rb_insert_cong: "(\<And>x. x \<in> insert e (set xs) \<Longrightarrow> key x = key' x) \<Longrightarrow> rb_insert key e xs = rb_insert key' e xs"
  by (induction xs) auto

lemma rb_find_cong: "(\<And>x. x \<in> set xs \<Longrightarrow> key x = key' x) \<Longrightarrow> rb_find key k xs = rb_find key' k xs"
  by (induction xs) (auto simp: rb_find_def)

lemma set_fold_rb_insert: "set (fold (rb_insert key) es xs) \<subseteq> set es \<union> set xs"
  using set_rb_insert by (induction es arbitrary: xs) fastforce+

lemma fold_rb_insert_cong:
  "(\<And>x. x \<in> set es \<union> set xs \<Longrightarrow> key x = key' x) \<Longrightarrow> fold (rb_insert key) es xs = fold (rb_insert key') es xs"
proof (induction es arbitrary: xs)
  case (Cons e es)
  have "rb_insert key e xs = rb_insert key' e xs" by (rule rb_insert_cong) (use Cons.prems in auto)
  moreover have "fold (rb_insert key) es (rb_insert key' e xs) = fold (rb_insert key') es (rb_insert key' e xs)"
    by (rule Cons.IH) (use Cons.prems set_rb_insert [of key' e xs] in auto)
  ultimately show ?case by simp
qed simp

lemma rb_inv_fold: "rb_inv key xs \<Longrightarrow> rb_inv key (fold (rb_insert key) es xs)"
  by (induction es arbitrary: xs) (simp_all add: rb_inv_insert)

text \<open>
  The tree that \<open>lgtd_lifx_wire_load_packet_info_map\<close> makes of the table of packets, entry by entry with \<open>RB_INSERT\<close>, is
  built without a failure, and \<open>RB_FIND\<close> in it finds, for any type, the entry \<open>lgtd_lifx_wire_get_packet_info\<close> gives.
\<close>

theorem packet_tree_implements_table:
  assumes "\<forall>i<length packet_table. h i \<noteq> None" "\<forall>i<length packet_table. ptype i = pi_type (packet_table ! i)"
  shows "\<exists>head. insert_all (lgtd_lifx_packet_info_cmp ptype) [0..<length packet_table] (RB_INITIALIZER h) = Some head
     \<and> (\<forall>e. map_option (map_option (\<lambda>i. packet_table ! i)) (RB_FIND (lgtd_lifx_packet_info_cmp ptype) e head) =
          Some (lgtd_lifx_wire_get_packet_info (ptype e)))"
proof -
  let ?es = "[0..<length packet_table]" and ?p = "\<lambda>i. packet_table ! i"
  have "\<forall>e\<in>set ?es. rbh_entries (RB_INITIALIZER h) e \<noteq> None" using assms(1) by (simp add: RB_INITIALIZER_def)
  from packet_tree.insert_all_spec [OF holds_initially _ this, of ptype] obtain head where
    head: "insert_all (lgtd_lifx_packet_info_cmp ptype) ?es (RB_INITIALIZER h) = Some head" "holds head (fold (rb_insert ptype) ?es [])"
    by (auto simp: rb_inv_def)
  define F where "F = fold (rb_insert ptype) ?es []"
  have F: "F = fold (rb_insert (pi_type \<circ> ?p)) ?es []" unfolding F_def by (rule fold_rb_insert_cong) (use assms(2) in auto)
  have "map ?p F = fold (rb_insert pi_type) (map ?p ?es) (map ?p [])" unfolding F by (rule fold_rb_insert_map [symmetric])
  then have table: "map ?p F = lgtd_lifx_wire_load_packet_info_map" by (simp add: map_nth lgtd_lifx_wire_load_packet_info_map_def)
  have "rb_find ptype k F = rb_find (pi_type \<circ> ?p) k F" for k
    by (rule rb_find_cong) (use assms(2) set_fold_rb_insert [of ptype ?es "[]"] in \<open>auto simp: F_def\<close>)
  then have found: "map_option ?p (rb_find ptype k F) = lgtd_lifx_wire_get_packet_info k" for k
    by (simp only: lgtd_lifx_wire_get_packet_info_def table [symmetric] rb_find_map)
  have "RB_FIND (lgtd_lifx_packet_info_cmp ptype) e head = Some (rb_find ptype (ptype e) F)" for e
    using packet_tree.RB_FIND_spec [OF head(2) rb_inv_fold] by (simp add: F_def rb_inv_def)
  then show ?thesis using head(1) found by auto
qed

subsection \<open>An example\<close>

text \<open>The two bulbs of the sample network at the addresses 10 and 11.\<close>

definition blank_entry :: rb_entry where
  "blank_entry = \<lparr>rbe_left = None, rbe_right = None, rbe_parent = None, rbe_color = RB_BLACK\<rparr>"

definition sample_addr :: "nat \<Rightarrow> nat \<Rightarrow> u8" where
  "sample_addr p i = (if i = 5 \<and> p = 11 then 7 else of_nat (Suc i))"

definition sample_bulbs :: "nat \<Rightarrow> lgtd_lifx_bulb" where
  "sample_bulbs p = (if p = 10 then sample_bulb else calloc_bulb 1)"

lemma sample_tree:
  obtains head where "insert_all (lgtd_lifx_bulb_cmp sample_addr) [11, 10] (RB_INITIALIZER (\<lambda>_. Some blank_entry)) = Some head"
    "holds head [10, 11]"
proof -
  let ?h = "RB_INITIALIZER (\<lambda>_. Some blank_entry)"
  have "\<forall>e\<in>set [11, 10]. rbh_entries ?h e \<noteq> None" by (simp add: RB_INITIALIZER_def)
  from bulb_tree.insert_all_spec [OF holds_initially _ this, of sample_addr] obtain head where
    head: "insert_all (lgtd_lifx_bulb_cmp sample_addr) [11, 10] ?h = Some head"
      "holds head (fold (rb_insert (addr_of sample_addr)) [11, 10] [])" by (auto simp: rb_inv_def)
  moreover have "fold (rb_insert (addr_of sample_addr)) [11, 10] [] = [10, 11]" by (simp add: addr_of_def sample_addr_def upt_rec)
  ultimately show ?thesis using that by simp
qed

lemma sample_bulbs_table: "w_bulbs sample_world = bulbs_at sample_addr sample_bulbs [10, 11]" "rb_inv fst (w_bulbs sample_world)"
  by (simp_all add: bulbs_at_def addr_of_def sample_addr_def sample_bulbs_def upt_rec rb_inv_def)

theorem bulb_tree_implements_table_witness:
  "\<exists>head. insert_all (lgtd_lifx_bulb_cmp sample_addr) [11, 10] (RB_INITIALIZER (\<lambda>_. Some blank_entry)) = Some head
     \<and> (\<exists>p. RB_FIND (lgtd_lifx_bulb_cmp sample_addr) 11 head = Some p
          \<and> map_option sample_bulbs p = lgtd_lifx_bulb_get (addr_of sample_addr 11) sample_world)
     \<and> map_option (bulbs_at sample_addr sample_bulbs) (RB_FOREACH head) = Some (w_bulbs sample_world)"
proof -
  obtain head where head: "insert_all (lgtd_lifx_bulb_cmp sample_addr) [11, 10] (RB_INITIALIZER (\<lambda>_. Some blank_entry)) = Some head"
    "holds head [10, 11]" by (rule sample_tree)
  have "rbh_entries head 11 \<noteq> None" by (rule holds_allocated [OF head(2)]) simp
  from bulb_tree_implements_table [OF head(2) sample_bulbs_table this] head(1) show ?thesis by blast
qed

theorem bulb_tree_remove_witness:
  "\<exists>head head' xs. insert_all (lgtd_lifx_bulb_cmp sample_addr) [11, 10] (RB_INITIALIZER (\<lambda>_. Some blank_entry)) = Some head
     \<and> RB_REMOVE 10 head = Some (Some 10, head') \<and> holds head' xs
     \<and> bulbs_at sample_addr sample_bulbs xs = [([1, 2, 3, 4, 5, 7], calloc_bulb 1)]"
proof -
  obtain head where head: "insert_all (lgtd_lifx_bulb_cmp sample_addr) [11, 10] (RB_INITIALIZER (\<lambda>_. Some blank_entry)) = Some head"
    "holds head [10, 11]" by (rule sample_tree)
  have "(10 :: nat) \<in> set [10, 11]" by simp
  from bulb_tree_remove [OF head(2) sample_bulbs_table this] obtain head' xs where
    "RB_REMOVE 10 head = Some (Some 10, head')" "holds head' xs"
    "bulbs_at sample_addr sample_bulbs xs = rb_remove fst (addr_of sample_addr 10) (w_bulbs sample_world)" by blast
  moreover have "rb_remove fst (addr_of sample_addr 10) (w_bulbs sample_world) = [([1, 2, 3, 4, 5, 7], calloc_bulb 1)]"
    by (simp add: rb_remove_def addr_of_def sample_addr_def upt_rec)
  ultimately show ?thesis using head(1) by auto
qed

theorem foreach_safe_visits_all_witness:
  "\<exists>head. insert_all (lgtd_lifx_bulb_cmp sample_addr) [11, 10] (RB_INITIALIZER (\<lambda>_. Some blank_entry)) = Some head
     \<and> RB_FOREACH_SAFE (\<lambda>x head. map_option snd (RB_REMOVE x head)) head =
       foreach (\<lambda>x head. map_option snd (RB_REMOVE x head)) [10, 11] head"
proof -
  obtain head where head: "insert_all (lgtd_lifx_bulb_cmp sample_addr) [11, 10] (RB_INITIALIZER (\<lambda>_. Some blank_entry)) = Some head"
    "holds head [10, 11]" by (rule sample_tree)
  have "RB_FOREACH_SAFE (\<lambda>x head. map_option snd (RB_REMOVE x head)) head =
      foreach (\<lambda>x head. map_option snd (RB_REMOVE x head)) [10, 11] head"
    by (rule foreach_safe_visits_all [OF head(2)]) (use RB_REMOVE_spec in fastforce)
  then show ?thesis using head(1) by blast
qed

theorem packet_tree_implements_table_witness:
  "\<exists>head. insert_all (lgtd_lifx_packet_info_cmp (\<lambda>i. pi_type (packet_table ! i))) [0..<length packet_table]
       (RB_INITIALIZER (\<lambda>_. Some blank_entry)) = Some head
     \<and> map_option (map_option (\<lambda>i. packet_table ! i)) (RB_FIND (lgtd_lifx_packet_info_cmp (\<lambda>i. pi_type (packet_table ! i))) 0 head) =
         Some (lgtd_lifx_wire_get_packet_info (pi_type (packet_table ! 0)))"
  using packet_tree_implements_table [of "\<lambda>_. Some blank_entry" "\<lambda>i. pi_type (packet_table ! i)"] by auto

end
