(* ===== verification/Decimal_Values.thy ===== *)
theory Decimal_Values
  imports Jsonrpc_Values
begin

text \<open>
  The conversions of \<open>src/core/jsonrpc.c\<close> between decimal numbers and 16 bit integers: what the digits that are printed
  stand for, and what is read back.
\<close>

subsection \<open>Decimal numbers\<close>

text \<open>The digits before the dot and the digits after it, in millionths.\<close>

definition decimal :: "string \<Rightarrow> string \<Rightarrow> int" where
  "decimal ds fs = int (digits_value ds) * LGTD_JSONRPC_FLOAT_PREC + frac_part fs (LGTD_JSONRPC_FLOAT_PREC div 10)"

definition decimal_text :: "string \<Rightarrow> string \<Rightarrow> string" where
  "decimal_text ds fs = (if fs = [] then ds else ds @ CHR ''.'' # fs)"

lemma pow10_div: "0 < k \<Longrightarrow> (10 :: int) ^ k div 10 = 10 ^ (k - 1)"
  by (cases k) simp_all

lemma frac_part_bounds: "\<forall>c\<in>set fs. isdigit c \<Longrightarrow> 0 \<le> frac_part fs (10 ^ k) \<and> frac_part fs (10 ^ k) < 10 ^ Suc k"
proof (induction fs arbitrary: k)
  case (Cons c fs)
  have c: "0 \<le> int (ord c) - 48" "int (ord c) - 48 \<le> 9" using Cons.prems by (simp_all add: isdigit_def)
  have hi: "(int (ord c) - 48) * 10 ^ k \<le> 9 * 10 ^ k" by (rule mult_right_mono [OF c(2)]) simp
  have lo: "0 \<le> (int (ord c) - 48) * 10 ^ k" using c(1) by (intro mult_nonneg_nonneg) simp_all
  have "0 \<le> frac_part fs (10 ^ k div 10) \<and> frac_part fs (10 ^ k div 10) < (10 ^ k :: int)"
  proof (cases k)
    case 0
    then show ?thesis by (cases fs) simp_all
  next
    case (Suc j)
    then show ?thesis using Cons.IH [of j] Cons.prems by simp
  qed
  with hi lo have "0 \<le> (int (ord c) - 48) * 10 ^ k + frac_part fs (10 ^ k div 10)
      \<and> (int (ord c) - 48) * 10 ^ k + frac_part fs (10 ^ k div 10) < 10 * 10 ^ k" by linarith
  then show ?case by simp
qed simp

lemma decimal_nonneg: "\<forall>c\<in>set fs. isdigit c \<Longrightarrow> 0 \<le> decimal ds fs"
  using frac_part_bounds [of fs 5] by (simp add: decimal_def)

text \<open>What \<open>strtol\<close> and the loop after it make of such a text.\<close>

lemma strtol_point: "strtol (CHR ''.'' # s) = (0, 0, False)"
  by (simp add: strtol_def isspace_def isdigit_def)

lemma strtol_upto_point:
  assumes "\<forall>c\<in>set ds. isdigit c" "int (digits_value ds) \<le> LONG_MAX"
  shows "strtol (ds @ CHR ''.'' # s) = (int (digits_value ds), length ds, False)"
proof (cases "ds = []")
  case False
  show ?thesis by (rule strtol_digits) (use assms False in \<open>simp_all add: isdigit_def\<close>)
qed (simp add: strtol_point digits_value_def)

lemma float_range_to_uint16_decimal:
  assumes "\<forall>c\<in>set ds. isdigit c" "s \<noteq> []" "\<forall>c\<in>set fs. isdigit c" "int (digits_value ds) \<le> LONG_MAX"
    and "s = decimal_text ds fs \<and> (fs = [] \<longrightarrow> rest = [] \<or> \<not> isdigit (hd rest)) \<or> s = ds @ CHR ''.'' # fs"
    and "start < stop"
  shows "lgtd_jsonrpc_float_range_to_uint16 (s @ rest) (length s) start stop =
     Some (decimal ds fs * UINT16_MAX div ((stop - start) * LGTD_JSONRPC_FLOAT_PREC))"
proof -
  have r: "stop * LGTD_JSONRPC_FLOAT_PREC - start * LGTD_JSONRPC_FLOAT_PREC = (stop - start) * LGTD_JSONRPC_FLOAT_PREC"
    by (simp add: algebra_simps)
  have "\<exists>v dot e. strtol (s @ rest) = (v, dot, e) \<and> v = int (digits_value ds) \<and>
      (if dot \<noteq> length s \<and> dot < length (s @ rest) \<and> (s @ rest) ! dot = CHR ''.''
       then frac_part (take (length s - (dot + 1)) (drop (dot + 1) (s @ rest))) (LGTD_JSONRPC_FLOAT_PREC div 10) else 0)
      = frac_part fs (LGTD_JSONRPC_FLOAT_PREC div 10)"
  proof (cases "s = ds @ CHR ''.'' # fs")
    case True
    show ?thesis using strtol_upto_point [OF assms(1,4), of "fs @ rest"] by (simp add: True nth_append) blast
  next
    case False
    then have s: "s = ds" "fs = []" "rest = [] \<or> \<not> isdigit (hd rest)"
      using assms(5) by (auto simp: decimal_text_def split: if_splits)
    show ?thesis using strtol_digits [OF assms(1) _ s(3) assms(4)] assms(2) s by simp blast
  qed
  then obtain v dot e where st: "strtol (s @ rest) = (v, dot, e)" "v = int (digits_value ds)"
    and fr: "(if dot \<noteq> length s \<and> dot < length (s @ rest) \<and> (s @ rest) ! dot = CHR ''.''
       then frac_part (take (length s - (dot + 1)) (drop (dot + 1) (s @ rest))) (LGTD_JSONRPC_FLOAT_PREC div 10) else 0)
      = frac_part fs (LGTD_JSONRPC_FLOAT_PREC div 10)" by blast
  have "lgtd_jsonrpc_float_range_to_uint16 (s @ rest) (length s) start stop =
     Some (c_div (decimal ds fs * UINT16_MAX) ((stop - start) * LGTD_JSONRPC_FLOAT_PREC))"
    unfolding lgtd_jsonrpc_float_range_to_uint16_def Let_def r st(1) prod.case fr
    using assms(2,6) by (simp add: st(2) decimal_def)
  then show ?thesis using decimal_nonneg [OF assms(3), of ds] by (simp add: c_div_def)
qed

subsection \<open>Printing\<close>

lemma put_room: "length out < bufsz \<Longrightarrow> put bufsz c out = out @ [c]"
  by (simp add: put_def)

lemma digit_of:
  assumes "0 \<le> d" "d \<le> (9 :: int)"
  shows "isdigit (char_of (48 + d))" "int (ord (char_of (48 + d) :: char)) = 48 + d"
proof -
  obtain n where n: "d = int n" using assms(1) nonneg_int_cases by blast
  have "(char_of (48 + d) :: char) = char_of (48 + n)" using char_of_nat [of "48 + n", where 'a = int] by (simp add: n)
  then have "ord (char_of (48 + d) :: char) = 48 + n" using assms(2) by (simp add: n)
  then show "isdigit (char_of (48 + d))" "int (ord (char_of (48 + d) :: char)) = 48 + d"
    using assms n by (simp_all add: isdigit_def)
qed

text \<open>One round of the loop that prints, when there is room.\<close>

lemma print_digits_round:
  assumes "length out + 1 < bufsz" "k \<noteq> 5"
  shows "print_digits bufsz v (10 ^ k) out =
    (if (v mod 10 ^ k \<noteq> 0 \<or> 6 < k) \<and> 0 < k
     then print_digits bufsz (v mod 10 ^ k) (10 ^ (k - 1)) (out @ [char_of (48 + v div 10 ^ k)])
     else out @ [char_of (48 + v div 10 ^ k)])"
proof -
  have "(10 :: int) ^ k \<noteq> 10 ^ 5" using assms(2) by (subst power_inject_exp) simp_all
  then have ne: "(10 :: int) ^ k \<noteq> 100000" by simp
  have m: "v - v div 10 ^ k * 10 ^ k = v mod 10 ^ k" by (simp add: minus_div_mult_eq_mod)
  have "(1000000 \<le> (10 :: int) ^ k div 10) = (6 < k)"
  proof (cases k)
    case (Suc j)
    have "((10 :: int) ^ 6 \<le> 10 ^ j) = (6 \<le> j)" by (rule power_increasing_iff) simp
    then show ?thesis by (simp add: Suc less_Suc_eq_le)
  qed simp
  moreover have "(0 < (10 :: int) ^ k div 10) = (0 < k)" by (cases k) simp_all
  ultimately show ?thesis using assms(1) ne
    by (subst print_digits.simps) (simp add: Let_def put_room m pow10_div)
qed

lemma print_digits_point:
  assumes "length out + 3 < bufsz"
  shows "print_digits bufsz v (10 ^ 5) out =
    (if v mod 10 ^ 5 \<noteq> 0
     then print_digits bufsz (v mod 10 ^ 5) (10 ^ 4)
            ((if out = [] then ''0'' else out) @ [CHR ''.'', char_of (48 + v div 10 ^ 5)])
     else (if out = [] then ''0'' else out) @ [CHR ''.'', char_of (48 + v div 10 ^ 5)])"
proof -
  have m: "v - v div 100000 * 100000 = v mod 100000" by (simp add: minus_div_mult_eq_mod)
  show ?thesis using assms by (subst print_digits.simps) (simp add: Let_def put_room m)
qed

lemma digit_bounds: 
  assumes "0 \<le> v" "v < 10 ^ Suc k"
  shows "0 \<le> v div 10 ^ k" "v div 10 ^ k \<le> (9 :: int)"
proof -
  show "0 \<le> v div 10 ^ k" using assms(1) by (simp add: pos_imp_zdiv_nonneg_iff)
  show "v div 10 ^ k \<le> 9"
  proof (rule ccontr)
    assume "\<not> v div 10 ^ k \<le> 9"
    then have "10 * 10 ^ k \<le> v div 10 ^ k * 10 ^ k" by (intro mult_right_mono) simp_all
    moreover have "v div 10 ^ k * 10 ^ k \<le> v" 
    proof -
      have "0 \<le> v mod 10 ^ k" by simp
      then show ?thesis using div_mult_mod_eq [of v "10 ^ k"] by linarith
    qed
    ultimately show False using assms(2) unfolding power_Suc by linarith
  qed
qed

text \<open>The digits after the dot, without trailing zeros.\<close>

lemma print_fraction:
  assumes "k < 5" "0 \<le> v" "v < 10 ^ Suc k" "length out + k + 1 < bufsz"
  shows "\<exists>fs. print_digits bufsz v (10 ^ k) out = out @ fs \<and> (\<forall>c\<in>set fs. isdigit c) \<and> fs \<noteq> [] \<and> length fs \<le> Suc k
    \<and> frac_part fs (10 ^ k) = v"
  using assms
proof (induction k arbitrary: v out)
  case 0
  then show ?case using digit_of [OF digit_bounds [OF 0(2,3)]]
    by (intro exI [of _ "[char_of (48 + v div 10 ^ 0)]"]) (simp add: print_digits_round [of out bufsz 0, simplified])
next
  case (Suc k)
  define c :: char where "c = char_of (48 + v div 10 ^ Suc k)"
  have c: "isdigit c" "int (ord c) - 48 = v div 10 ^ Suc k"
    using digit_of [OF digit_bounds [OF Suc.prems(2,3)]] by (simp_all only: c_def)
  have rnd: "print_digits bufsz v (10 ^ Suc k) out =
      (if v mod 10 ^ Suc k \<noteq> 0 then print_digits bufsz (v mod 10 ^ Suc k) (10 ^ k) (out @ [c]) else out @ [c])"
    using print_digits_round [of out bufsz "Suc k" v] Suc.prems by (simp add: c_def)
  have v: "v div 10 ^ Suc k * 10 ^ Suc k + v mod 10 ^ Suc k = v" by (rule div_mult_mod_eq)
  show ?case
  proof (cases "v mod 10 ^ Suc k = 0")
    case True
    then show ?thesis using rnd c v by (intro exI [of _ "[c]"]) simp
  next
    case False
    have "0 \<le> v mod 10 ^ Suc k" "v mod 10 ^ Suc k < 10 ^ Suc k" by simp_all
    then obtain fs where fs: "print_digits bufsz (v mod 10 ^ Suc k) (10 ^ k) (out @ [c]) = (out @ [c]) @ fs"
        "\<forall>c\<in>set fs. isdigit c" "length fs \<le> Suc k" "frac_part fs (10 ^ k) = v mod 10 ^ Suc k"
      using Suc.IH [of "v mod 10 ^ Suc k" "out @ [c]"] Suc.prems by auto
    show ?thesis using rnd c v fs False by (intro exI [of _ "c # fs"]) simp
  qed
qed

lemma print_point:
  assumes "0 \<le> v" "v < 10 ^ 6" "length out + 8 < bufsz"
  shows "\<exists>fs. print_digits bufsz v (10 ^ 5) out = (if out = [] then ''0'' else out) @ CHR ''.'' # fs
    \<and> (\<forall>c\<in>set fs. isdigit c) \<and> fs \<noteq> [] \<and> length fs \<le> 6 \<and> frac_part fs (10 ^ 5) = v"
proof -
  define c :: char where "c = char_of (48 + v div 10 ^ 5)"
  define o1 where "o1 = (if out = [] then ''0'' else out)"
  have c: "isdigit c" "int (ord c) - 48 = v div 10 ^ 5"
    using digit_of [OF digit_bounds [of v 5]] assms(1,2) by (simp_all add: c_def)
  have rnd: "print_digits bufsz v (10 ^ 5) out =
      (if v mod 10 ^ 5 \<noteq> 0 then print_digits bufsz (v mod 10 ^ 5) (10 ^ 4) (o1 @ [CHR ''.'', c]) else o1 @ [CHR ''.'', c])"
    using print_digits_point [of out bufsz v] assms(3) by (simp only: c_def o1_def)
  have v: "v div 10 ^ 5 * 10 ^ 5 + v mod 10 ^ 5 = v" by (rule div_mult_mod_eq)
  show ?thesis
  proof (cases "v mod 10 ^ 5 = 0")
    case True
    then show ?thesis using rnd c v unfolding o1_def [symmetric] by (intro exI [of _ "[c]"]) simp
  next
    case False
    have "length (o1 @ [CHR ''.'', c]) + 4 + 1 < bufsz" using assms(3) by (simp add: o1_def)
    moreover have "0 \<le> v mod 10 ^ 5" "v mod 10 ^ 5 < 10 ^ Suc 4" by simp_all
    ultimately obtain fs where fs: "print_digits bufsz (v mod 10 ^ 5) (10 ^ 4) (o1 @ [CHR ''.'', c]) = (o1 @ [CHR ''.'', c]) @ fs"
        "\<forall>c\<in>set fs. isdigit c" "length fs \<le> Suc 4" "frac_part fs (10 ^ 4) = v mod 10 ^ 5"
      using print_fraction [of 4 "v mod 10 ^ 5" "o1 @ [CHR ''.'', c]" bufsz] by auto
    show ?thesis using rnd c v fs False unfolding o1_def [symmetric] by (intro exI [of _ "c # fs"]) simp
  qed
qed

text \<open>The digits before the dot.\<close>

lemma digits_value_Cons: "digits_value (c # ds) = (ord c - 48) * 10 ^ length ds + digits_value ds"
proof (induction ds rule: rev_induct)
  case (snoc d ds)
  have "digits_value (c # ds @ [d]) = 10 * digits_value (c # ds) + (ord d - 48)"
    using digits_value_append [of "c # ds" d] by simp
  then show ?case using snoc by (simp add: digits_value_append)
qed (simp add: digits_value_def)

lemma print_integer:
  assumes "0 \<le> v" "v < 10 ^ (7 + j)" "length out + j + 9 < bufsz"
  shows "\<exists>ds fs. print_digits bufsz v (10 ^ (6 + j)) out = out @ decimal_text ds fs \<and> (\<forall>c\<in>set ds. isdigit c)
    \<and> (\<forall>c\<in>set fs. isdigit c) \<and> length ds = Suc j \<and> length fs \<le> 6 \<and> decimal ds fs = v"
  using assms
proof (induction j arbitrary: v out)
  case 0
  define c :: char where "c = char_of (48 + v div 10 ^ 6)"
  have c: "isdigit c" "int (ord c) - 48 = v div 10 ^ 6"
    using digit_of [OF digit_bounds [of v 6]] 0 by (simp_all add: c_def)
  then have dv: "int (digits_value [c]) = v div 10 ^ 6"
    by (simp add: digits_value_def isdigit_def of_nat_diff)
  have rnd: "print_digits bufsz v (10 ^ 6) out =
      (if v mod 10 ^ 6 \<noteq> 0 then print_digits bufsz (v mod 10 ^ 6) (10 ^ 5) (out @ [c]) else out @ [c])"
    using print_digits_round [of out bufsz 6 v] 0 by (simp add: c_def)
  have v: "v div 10 ^ 6 * 10 ^ 6 + v mod 10 ^ 6 = v" by (rule div_mult_mod_eq)
  show ?case
  proof (cases "v mod 10 ^ 6 = 0")
    case True
    then show ?thesis using rnd c v dv by (intro exI [of _ "[c]"] exI [of _ "[]"]) (simp add: decimal_def decimal_text_def)
  next
    case False
    have "0 \<le> v mod 10 ^ 6" "v mod 10 ^ 6 < 10 ^ 6" by simp_all
    then obtain fs where "print_digits bufsz (v mod 10 ^ 6) (10 ^ 5) (out @ [c]) = out @ c # CHR ''.'' # fs"
        "\<forall>c\<in>set fs. isdigit c" "fs \<noteq> []" "length fs \<le> 6" "frac_part fs (10 ^ 5) = v mod 10 ^ 6"
      using print_point [of "v mod 10 ^ 6" "out @ [c]" bufsz] 0 by auto
    then show ?thesis using rnd c v dv False
      by (intro exI [of _ "[c]"] exI [of _ fs]) (simp add: decimal_def decimal_text_def)
  qed
next
  case (Suc j)
  define m :: int where "m = 10 ^ (6 + Suc j)"
  define c :: char where "c = char_of (48 + v div m)"
  have c: "isdigit c" "int (ord c) - 48 = v div m"
    using digit_of [OF digit_bounds [of v "6 + Suc j"]] Suc.prems unfolding c_def m_def by simp_all
  have rnd: "print_digits bufsz v m out = print_digits bufsz (v mod m) (10 ^ (6 + j)) (out @ [c])"
    using print_digits_round [of out bufsz "6 + Suc j" v] Suc.prems unfolding c_def m_def by simp
  have "0 \<le> v mod m" "v mod m < 10 ^ (7 + j)" using pos_mod_bound [of m v] by (simp_all add: m_def)
  then obtain ds fs where d: "print_digits bufsz (v mod m) (10 ^ (6 + j)) (out @ [c]) = (out @ [c]) @ decimal_text ds fs"
      "\<forall>c\<in>set ds. isdigit c" "\<forall>c\<in>set fs. isdigit c" "length ds = Suc j" "length fs \<le> 6" "decimal ds fs = v mod m"
    using Suc.IH [of "v mod m" "out @ [c]"] Suc.prems by auto
  have "int (digits_value (c # ds)) = v div m * 10 ^ Suc j + int (digits_value ds)"
    using c d(4) by (simp add: digits_value_Cons isdigit_def of_nat_diff)
  then have "decimal (c # ds) fs = v div m * (10 ^ Suc j * 10 ^ 6) + decimal ds fs"
    by (simp add: decimal_def algebra_simps)
  also have "(10 ^ Suc j * 10 ^ 6 :: int) = m" by (simp only: m_def power_add mult.commute)
  finally have "decimal (c # ds) fs = v" using d(6) by (simp add: div_mult_mod_eq)
  then show ?case using rnd d c unfolding m_def [symmetric]
    by (intro exI [of _ "c # ds"] exI [of _ fs]) (simp add: decimal_text_def)
qed

text \<open>The largest power of ten below the value, and the zeros after the dot for a value below a tenth.\<close>

lemma top_multiplier_power:
  assumes "10 ^ j \<le> v"
  shows "\<exists>k. top_multiplier v (10 ^ j) = 10 ^ k \<and> 10 ^ k \<le> v \<and> v < 10 ^ Suc k"
  using assms
proof (induction "nat (v - 10 ^ j)" arbitrary: j rule: less_induct)
  case less
  have lt: "(10 :: int) ^ j < 10 ^ Suc j" by simp
  show ?case
  proof (cases "10 ^ Suc j \<le> v")
    case True
    then have "0 < v div (10 ^ j * 10)" by (simp add: pos_imp_zdiv_pos_iff mult.commute)
    then have "top_multiplier v (10 ^ j) = top_multiplier v (10 ^ Suc j)"
      by (subst top_multiplier.simps) (simp add: mult.commute)
    moreover have "nat (v - 10 ^ Suc j) < nat (v - 10 ^ j)" using lt True by linarith
    ultimately show ?thesis using less.hyps [of "Suc j"] True by simp
  next
    case False
    then have "\<not> 0 < v div (10 ^ j * 10)" by (simp add: pos_imp_zdiv_pos_iff mult.commute)
    then have "top_multiplier v (10 ^ j) = 10 ^ j" by (subst top_multiplier.simps) simp
    then show ?thesis using False less.prems by (intro exI [of _ j]) simp
  qed
qed

lemma leading_zeros_count:
  assumes "i + k + n = 6" "length out + n < bufsz"
  shows "leading_zeros bufsz (10 ^ k) (10 ^ i) out = out @ replicate n (CHR ''0'')"
  using assms
proof (induction n arbitrary: i out)
  case 0
  have eq: "(10 :: int) ^ 6 = 10 ^ k * 10 ^ i" using 0(1) by (simp only: power_add [symmetric]) (simp add: add.commute)
  have "(10 :: int) ^ 6 div 10 ^ i = 10 ^ k" unfolding eq by simp
  then have "(1000000 :: int) div 10 ^ i = 10 ^ k" by simp
  then show ?case by (subst leading_zeros.simps) simp
next
  case (Suc n)
  have six: "6 = (k + Suc n) + i" using Suc(2) by simp
  have eq: "(10 :: int) ^ 6 = 10 ^ (k + Suc n) * 10 ^ i" unfolding six by (rule power_add)
  have "(10 :: int) ^ 6 div 10 ^ i = 10 ^ (k + Suc n)" unfolding eq by simp
  then have d: "(1000000 :: int) div 10 ^ i = 10 ^ (k + Suc n)" by simp
  have "(10 :: int) ^ k < 10 ^ (k + Suc n)" by (rule power_strict_increasing) simp_all
  with d have "(10 :: int) ^ k < 1000000 div 10 ^ i" by simp
  then have "leading_zeros bufsz (10 ^ k) (10 ^ i) out = leading_zeros bufsz (10 ^ k) (10 ^ Suc i) (out @ ''0'')"
    using Suc(3) by (subst leading_zeros.simps) (simp add: mult.commute)
  then show ?case using Suc.IH [of "Suc i" "out @ ''0''"] Suc(2,3) by simp
qed

lemma frac_part_zeros: "frac_part (replicate n (CHR ''0'') @ fs) (10 ^ (n + k)) = frac_part fs (10 ^ k)"
  by (induction n) simp_all

text \<open>What is printed: the number of millionths, exactly.\<close>

definition decimal_of :: "string \<Rightarrow> int \<Rightarrow> bool" where
  "decimal_of s v \<longleftrightarrow> (\<exists>ds fs. s = decimal_text ds fs \<and> ds \<noteq> [] \<and> (\<forall>c\<in>set ds. isdigit c) \<and> (\<forall>c\<in>set fs. isdigit c)
     \<and> length ds \<le> 4 \<and> length fs \<le> 6 \<and> decimal ds fs = v)"

lemma decimal_ofI:
  "s = decimal_text ds fs \<Longrightarrow> ds \<noteq> [] \<Longrightarrow> \<forall>c\<in>set ds. isdigit c \<Longrightarrow> \<forall>c\<in>set fs. isdigit c \<Longrightarrow>
     length ds \<le> 4 \<Longrightarrow> length fs \<le> 6 \<Longrightarrow> decimal ds fs = v \<Longrightarrow> decimal_of s v"
  unfolding decimal_of_def by blast

lemma decimal_of_length: "decimal_of s v \<Longrightarrow> length s \<le> 11"
  by (auto simp: decimal_of_def decimal_text_def)

lemma print_below_tenth:
  assumes "k < 5" "0 \<le> v" "v < 10 ^ Suc k" "12 < bufsz"
  shows "decimal_of (print_digits bufsz v (10 ^ k) (leading_zeros bufsz (10 ^ k) 10 (put bufsz (CHR ''.'') ''0''))) v"
proof -
  define z where "z = replicate (5 - k) (CHR ''0'')"
  have z: "leading_zeros bufsz (10 ^ k) 10 (put bufsz (CHR ''.'') ''0'') = ''0.'' @ z"
    using leading_zeros_count [of 1 k "5 - k" "''0.''" bufsz] assms by (simp add: put_room z_def)
  obtain fs where fs: "print_digits bufsz v (10 ^ k) (''0.'' @ z) = (''0.'' @ z) @ fs" "\<forall>c\<in>set fs. isdigit c" "fs \<noteq> []"
      "length fs \<le> Suc k" "frac_part fs (10 ^ k) = v"
    using print_fraction [of k v "''0.'' @ z" bufsz] assms by (auto simp: z_def)
  have "frac_part (z @ fs) (10 ^ 5) = v"
    using frac_part_zeros [of "5 - k" fs k] fs(5) assms(1) by (simp add: z_def)
  then show ?thesis using fs assms(1)
    by (intro decimal_ofI [of _ "''0''" "z @ fs"])
      (auto simp: z decimal_text_def decimal_def digits_value_def isdigit_def z_def)
qed

lemma print_tenth:
  assumes "0 \<le> v" "v < 10 ^ 6" "12 < bufsz"
  shows "decimal_of (print_digits bufsz v (10 ^ 5) []) v"
proof -
  obtain fs where "print_digits bufsz v (10 ^ 5) [] = ''0.'' @ fs" "\<forall>c\<in>set fs. isdigit c" "fs \<noteq> []" "length fs \<le> 6"
      "frac_part fs (10 ^ 5) = v"
    using print_point [of v "[]" bufsz] assms by auto
  then show ?thesis
    by (intro decimal_ofI [of _ "''0''" fs]) (auto simp: decimal_text_def decimal_def digits_value_def isdigit_def)
qed

lemma print_above_one:
  assumes "6 \<le> k" "k \<le> 9" "0 \<le> v" "v < 10 ^ Suc k" "12 < bufsz"
  shows "decimal_of (print_digits bufsz v (10 ^ k) []) v"
proof -
  obtain j where k: "k = 6 + j" using assms(1) le_Suc_ex by blast
  have "v < 10 ^ (7 + j)" using assms(4) unfolding k by simp
  then obtain ds fs where "print_digits bufsz v (10 ^ k) [] = decimal_text ds fs" "\<forall>c\<in>set ds. isdigit c"
      "\<forall>c\<in>set fs. isdigit c" "length ds = Suc j" "length fs \<le> 6" "decimal ds fs = v"
    using print_integer [of v j "[]" bufsz] assms(2,3,5) k by auto
  then show ?thesis using assms(2) k by (intro decimal_ofI [of _ ds fs]) auto
qed

lemma uint16_range_to_float_string_decimal:
  assumes "start < stop" "stop - start \<le> 1000" "12 < bufsz"
  shows "\<exists>s. lgtd_jsonrpc_uint16_range_to_float_string e start stop bufsz = Some s
    \<and> decimal_of s (uint e * ((stop - start) * LGTD_JSONRPC_FLOAT_PREC) div UINT16_MAX)"
proof -
  define v where "v = uint e * ((stop - start) * LGTD_JSONRPC_FLOAT_PREC) div UINT16_MAX"
  have r: "stop * LGTD_JSONRPC_FLOAT_PREC - start * LGTD_JSONRPC_FLOAT_PREC = (stop - start) * LGTD_JSONRPC_FLOAT_PREC"
    by (simp add: algebra_simps)
  have e: "0 \<le> uint e" "uint e \<le> 65535" using uint_bounded [of e] by simp_all
  have "uint e * ((stop - start) * LGTD_JSONRPC_FLOAT_PREC) \<le> 65535 * (1000 * LGTD_JSONRPC_FLOAT_PREC)"
    using e assms by (intro mult_mono) simp_all
  then have "v \<le> 65535 * (1000 * LGTD_JSONRPC_FLOAT_PREC) div 65535" unfolding v_def by (intro zdiv_mono1) simp_all
  then have vb: "0 \<le> v" "v \<le> 10 ^ 9" using e assms(1) by (simp_all add: v_def pos_imp_zdiv_nonneg_iff)
  show ?thesis
  proof (cases "v = 0")
    case True
    then show ?thesis using assms unfolding v_def [symmetric] lgtd_jsonrpc_uint16_range_to_float_string_def r Let_def
      by (auto simp: decimal_text_def decimal_def digits_value_def isdigit_def intro!: decimal_ofI [of _ "''0''" "[]"])
  next
    case False
    obtain k where k: "top_multiplier v 1 = 10 ^ k" "10 ^ k \<le> v" "v < 10 ^ Suc k"
      using top_multiplier_power [of 0 v] False vb by auto
    have "(10 :: int) ^ k \<le> 10 ^ 9" using k(2) vb(2) by linarith
    then have k9: "k \<le> 9" by (subst (asm) power_increasing_iff) simp_all
    define out where "out = print_digits bufsz v (10 ^ k) (if (10 :: int) ^ k < LGTD_JSONRPC_FLOAT_PREC div 10
        then leading_zeros bufsz (10 ^ k) 10 (put bufsz (CHR ''.'') ''0'') else [])"
    have small: "((10 :: int) ^ k < LGTD_JSONRPC_FLOAT_PREC div 10) = (k < 5)"
      using power_strict_increasing_iff [of "10 :: int" k 5] by simp
    have out: "decimal_of out v"
      using print_below_tenth [of k v bufsz] print_tenth [of v bufsz] print_above_one [of k v bufsz] k(3) k9 vb(1) assms(3)
      unfolding out_def small by (cases k "5 :: nat" rule: linorder_cases) simp_all
    have "lgtd_jsonrpc_uint16_range_to_float_string e start stop bufsz = Some out"
      using assms False decimal_of_length [OF out]
      unfolding v_def [symmetric] lgtd_jsonrpc_uint16_range_to_float_string_def r Let_def k(1) out_def [symmetric] by simp
    with out show ?thesis unfolding v_def by blast
  qed
qed

subsection \<open>Printing and reading back\<close>

lemma digits_value_below: "\<forall>c\<in>set ds. isdigit c \<Longrightarrow> digits_value ds < 10 ^ length ds"
proof (induction ds)
  case (Cons c ds)
  have "(ord c - 48) * 10 ^ length ds \<le> 9 * 10 ^ length ds" using Cons.prems by (intro mult_right_mono) (auto simp: isdigit_def)
  moreover have "digits_value ds < 10 ^ length ds" using Cons by simp
  ultimately have "(ord c - 48) * 10 ^ length ds + digits_value ds < 10 * 10 ^ length ds" by linarith
  then show ?case by (simp add: digits_value_Cons)
qed (simp add: digits_value_def)

text \<open>Both divisions round down, so one unit may be lost.\<close>

lemma scaled_there_and_back:
  assumes "0 \<le> e" "0 < (m :: int)" "m \<le> r"
  shows "(e * r div m) * m div r \<le> e" "e - 1 \<le> (e * r div m) * m div r"
proof -
  define q where "q = e * r div m"
  have q: "q * m + e * r mod m = e * r" by (simp add: q_def)
  have b: "0 \<le> e * r mod m" "e * r mod m < m" using assms(2) by simp_all
  have "q * m \<le> e * r" using q b(1) by linarith
  then have "q * m div r \<le> e * r div r" using assms by (intro zdiv_mono1) simp_all
  then show "(e * r div m) * m div r \<le> e" using assms unfolding q_def by simp
  have "(e - 1) * r \<le> q * m" using q b(2) assms(3) by (simp add: left_diff_distrib)
  then have "(e - 1) * r div r \<le> q * m div r" using assms by (intro zdiv_mono1) simp_all
  then show "e - 1 \<le> (e * r div m) * m div r" using assms unfolding q_def by simp
qed

text \<open>
  C32: a 16 bit hue, saturation or brightness printed by \<open>lgtd_jsonrpc_uint16_range_to_float_string\<close> into a buffer of at
  least 13 bytes is at most 11 characters long, and \<open>lgtd_jsonrpc_float_range_to_uint16\<close> reads it back, whatever follows
  it, as the same value or the one just below: both divisions round down and nothing else is lost.
\<close>

theorem uint16_float_round_trip:
  assumes "start < stop" "stop - start \<le> 1000" "12 < bufsz" "rest = [] \<or> \<not> isdigit (hd rest)"
  shows "\<exists>s v. lgtd_jsonrpc_uint16_range_to_float_string e start stop bufsz = Some s \<and> s \<noteq> [] \<and> length s \<le> 11
    \<and> lgtd_jsonrpc_float_range_to_uint16 (s @ rest) (length s) start stop = Some v
    \<and> uint e - 1 \<le> v \<and> v \<le> uint e"
proof -
  define r where "r = (stop - start) * LGTD_JSONRPC_FLOAT_PREC"
  obtain s where s: "lgtd_jsonrpc_uint16_range_to_float_string e start stop bufsz = Some s"
      "decimal_of s (uint e * r div UINT16_MAX)"
    using uint16_range_to_float_string_decimal [OF assms(1-3)] unfolding r_def by blast
  then obtain ds fs where d: "s = decimal_text ds fs" "ds \<noteq> []" "\<forall>c\<in>set ds. isdigit c" "\<forall>c\<in>set fs. isdigit c"
      "length ds \<le> 4" "decimal ds fs = uint e * r div UINT16_MAX"
    unfolding decimal_of_def by blast
  have ne: "s \<noteq> []" using d(1,2) by (simp add: decimal_text_def)
  have "int (digits_value ds) \<le> LONG_MAX" using digits_value_below [OF d(3)] power_increasing [OF d(5), of "10 :: nat"] by simp
  then have "lgtd_jsonrpc_float_range_to_uint16 (s @ rest) (length s) start stop =
      Some ((uint e * r div UINT16_MAX) * UINT16_MAX div r)"
    using float_range_to_uint16_decimal [OF d(3) ne d(4) _ _ assms(1), of rest] d(1,6) assms(4) unfolding r_def by simp
  moreover have "(uint e * r div UINT16_MAX) * UINT16_MAX div r \<le> uint e"
      "uint e - 1 \<le> (uint e * r div UINT16_MAX) * UINT16_MAX div r"
    using scaled_there_and_back [of "uint e" UINT16_MAX r] assms(1) by (simp_all add: r_def)
  ultimately show ?thesis using s(1) ne decimal_of_length [OF s(2)] by blast
qed

theorem uint16_float_round_trip_witness:
  "\<exists>s v. lgtd_jsonrpc_uint16_range_to_float_string 43690 0 360 16 = Some s \<and> s \<noteq> [] \<and> length s \<le> 11
    \<and> lgtd_jsonrpc_float_range_to_uint16 (s @ '', 0.5]'') (length s) 0 360 = Some v
    \<and> uint (43690 :: u16) - 1 \<le> v \<and> v \<le> uint (43690 :: u16)"
  by (rule uint16_float_round_trip) (simp_all add: isdigit_def)

subsection \<open>Saturations and brightnesses\<close>

text \<open>What \<open>lgtd_jsonrpc_type_float_between_0_and_1\<close> lets through: zeros and at most one \<open>1\<close>, with only zeros after it.\<close>

lemma unit_float_fraction:
  "unit_float_chars True one fs \<Longrightarrow> (\<forall>c\<in>set fs. isdigit c) \<and> (one \<longrightarrow> set fs \<subseteq> {CHR ''0''})"
  by (induction fs arbitrary: one) (auto simp: isdigit_def split: if_splits)

lemma unit_float_split:
  "unit_float_chars False one s \<Longrightarrow> \<exists>ds fs. (s = ds \<and> fs = [] \<or> s = ds @ CHR ''.'' # fs) \<and> (\<forall>c\<in>set ds. isdigit c)
     \<and> (\<forall>c\<in>set fs. isdigit c) \<and> digits_value ds \<le> 1 \<and> (one \<longrightarrow> ds = [])
     \<and> (one \<or> digits_value ds = 1 \<longrightarrow> set fs \<subseteq> {CHR ''0''})"
proof (induction s arbitrary: one)
  case Nil
  show ?case by (intro exI [of _ "[]"]) (simp add: digits_value_def)
next
  case (Cons c s)
  consider "c = CHR ''.''" "unit_float_chars True one s" | "c = CHR ''1''" "\<not> one" "unit_float_chars False True s"
    | "c = CHR ''0''" "\<not> one" "unit_float_chars False False s" using Cons.prems by (auto split: if_splits)
  then show ?case
  proof cases
    case 1
    then show ?thesis using unit_float_fraction [of one s]
      by (intro exI [of _ "[]"] exI [of _ s]) (simp add: digits_value_def)
  next
    case 2
    obtain ds fs where ds: "s = ds \<and> fs = [] \<or> s = ds @ CHR ''.'' # fs" "True \<longrightarrow> ds = []"
      and f: "\<forall>c\<in>set fs. isdigit c" "True \<or> digits_value ds = 1 \<longrightarrow> set fs \<subseteq> {CHR ''0''}"
      using Cons.IH [OF 2(3)] by blast
    have "c # s = ''1'' \<and> fs = [] \<or> c # s = ''1'' @ CHR ''.'' # fs" using ds 2(1) by auto
    moreover have "\<forall>c\<in>set ''1''. isdigit c" "digits_value ''1'' \<le> 1" by (simp_all add: digits_value_def isdigit_def)
    ultimately show ?thesis using f 2(2) by blast
  next
    case 3
    obtain ds fs where d: "s = ds \<and> fs = [] \<or> s = ds @ CHR ''.'' # fs" "\<forall>c\<in>set ds. isdigit c" "\<forall>c\<in>set fs. isdigit c"
        "digits_value ds \<le> 1" "digits_value ds = 1 \<longrightarrow> set fs \<subseteq> {CHR ''0''}"
      using Cons.IH [OF 3(3)] by blast
    have "digits_value (c # ds) = digits_value ds" using 3(1) by (simp add: digits_value_Cons)
    moreover have "c # s = c # ds \<and> fs = [] \<or> c # s = (c # ds) @ CHR ''.'' # fs" using d(1) by simp
    moreover have "\<forall>x\<in>set (c # ds). isdigit x" using d(2) 3(1) by (simp add: isdigit_def)
    ultimately show ?thesis using d(3-5) 3(2) by metis
  qed
qed

lemma frac_part_only_zeros: "set fs \<subseteq> {CHR ''0''} \<Longrightarrow> frac_part fs k = 0"
  by (induction fs arbitrary: k) simp_all

lemma unit_decimal:
  assumes "\<forall>c\<in>set fs. isdigit c" "digits_value ds \<le> 1" "digits_value ds = 1 \<longrightarrow> set fs \<subseteq> {CHR ''0''}"
  shows "decimal ds fs \<le> LGTD_JSONRPC_FLOAT_PREC"
proof (cases "digits_value ds = 1")
  case True
  then show ?thesis using assms(3) by (simp add: decimal_def frac_part_only_zeros)
next
  case False
  then have "digits_value ds = 0" using assms(2) by simp
  then show ?thesis using frac_part_bounds [OF assms(1), of 5] by (simp add: decimal_def)
qed

text \<open>
  C33: a saturation or a brightness that \<open>lgtd_jsonrpc_type_float_between_0_and_1\<close> lets through is converted by
  \<open>lgtd_jsonrpc_float_range_to_uint16\<close> to a value a 16 bit integer holds, never negative and never above 65535. The token
  is a non-empty part of the text and no digit comes after it.
\<close>

theorem unit_float_fits_uint16:
  assumes "lgtd_jsonrpc_type_float_between_0_and_1 t json"
    and "0 \<le> tk_start t" "tk_start t < tk_end t" "tk_end t \<le> int (length json)"
    and "json_at json (tk_end t) = [] \<or> \<not> isdigit (hd (json_at json (tk_end t)))"
  shows "\<exists>v. lgtd_jsonrpc_float_range_to_uint16 (json_at json (tk_start t)) (nat (LGTD_JSONRPC_TOKEN_LEN t)) 0 1 = Some v
    \<and> 0 \<le> v \<and> v \<le> UINT16_MAX"
proof -
  define s where "s = token_text json t"
  have len: "length s = nat (LGTD_JSONRPC_TOKEN_LEN t)"
    using assms(2-4) by (simp add: s_def token_text_def LGTD_JSONRPC_TOKEN_LEN_def)
  have ne: "s \<noteq> []" using len assms(3) by (auto simp: LGTD_JSONRPC_TOKEN_LEN_def)
  have "nat (tk_end t) = nat (tk_start t) + nat (LGTD_JSONRPC_TOKEN_LEN t)"
    using assms(2,3) by (simp add: LGTD_JSONRPC_TOKEN_LEN_def nat_diff_distrib)
  then have at: "json_at json (tk_start t) = s @ json_at json (tk_end t)"
    using append_take_drop_id [of "nat (LGTD_JSONRPC_TOKEN_LEN t)" "json_at json (tk_start t)"]
    by (simp add: s_def token_text_def add.commute)
  have chars: "unit_float_chars False False s" using assms(1) by (simp add: lgtd_jsonrpc_type_float_between_0_and_1_def s_def split: if_splits)
  from unit_float_split [OF chars] obtain ds fs where d: "s = ds \<and> fs = [] \<or> s = ds @ CHR ''.'' # fs" "\<forall>c\<in>set ds. isdigit c" "\<forall>c\<in>set fs. isdigit c"
      "digits_value ds \<le> 1" "digits_value ds = 1 \<longrightarrow> set fs \<subseteq> {CHR ''0''}"
    by (elim exE conjE) (rule that; simp)
  have upto: "s = decimal_text ds fs \<and> (fs = [] \<longrightarrow> json_at json (tk_end t) = [] \<or> \<not> isdigit (hd (json_at json (tk_end t))))
      \<or> s = ds @ CHR ''.'' # fs"
    using d(1) assms(5) by (simp only: decimal_text_def) metis
  have "lgtd_jsonrpc_float_range_to_uint16 (s @ json_at json (tk_end t)) (length s) 0 1 =
      Some (decimal ds fs * UINT16_MAX div ((1 - 0) * LGTD_JSONRPC_FLOAT_PREC))"
    by (rule float_range_to_uint16_decimal [OF d(2) ne d(3) _ upto]) (use d(4) in simp_all)
  moreover have "0 \<le> decimal ds fs" by (rule decimal_nonneg [OF d(3)])
  moreover have "decimal ds fs * UINT16_MAX div LGTD_JSONRPC_FLOAT_PREC \<le> LGTD_JSONRPC_FLOAT_PREC * UINT16_MAX div LGTD_JSONRPC_FLOAT_PREC"
    using unit_decimal [OF d(3-5)] by (intro zdiv_mono1 mult_right_mono) simp_all
  ultimately show ?thesis unfolding at len [symmetric] by (simp add: pos_imp_zdiv_nonneg_iff)
qed

theorem unit_float_fits_uint16_witness:
  "\<exists>v. lgtd_jsonrpc_float_range_to_uint16 (json_at ''[0.75]'' 1) 4 0 1 = Some v \<and> 0 \<le> v \<and> v \<le> UINT16_MAX"
  using unit_float_fits_uint16
    [of "\<lparr>tk_type = JSMN_PRIMITIVE, tk_start = 1, tk_end = 5, tk_size = 0, tk_parent = 0\<rparr>" "''[0.75]''"]
  by (simp add: lgtd_jsonrpc_type_float_between_0_and_1_def token_text_def LGTD_JSONRPC_TOKEN_LEN_def isdigit_def)

end
