(* ===== verification/Rpc_Faults.thy ===== *)
theory Rpc_Faults
  imports Rpc_Inv
begin

text \<open>
  Requests the JSON-RPC front end of \<open>src/core/jsonrpc.c\<close> mishandles, from the bytes to what becomes of them: for every
  client, printing environment and state of the daemon.
\<close>

lemma read_callback_one:
  assumes "parse_request js None = Some (n, Some toks)" "0 < n" "js \<noteq> []"
    and "dispatch_tokens env js toks n client w = Some (length js, client', w')"
  shows "lgtd_client_read_callback env js (length js) client w = Some ([], client', w')"
  using assms by (simp add: lgtd_client_read_callback_def read_requests.simps [of env js] read_requests.simps [of env "[]"])

lemma read_callback_aborts:
  assumes "parse_request js None = Some (n, Some toks)" "0 < n" "js \<noteq> []" "dispatch_tokens env js toks n client w = None"
  shows "lgtd_client_read_callback env js (length js) client w = None"
  using assms by (simp add: lgtd_client_read_callback_def read_requests.simps [of env js])

subsection \<open>A null id\<close>

definition null_id_request :: string where
  "null_id_request = ''{\"jsonrpc\":\"2.0\",\"method\":\"power_on\",\"params\":[\"*\"],\"id\":null}''"

definition null_id_tokens :: "jsmntok_t list" where
  "null_id_tokens =
     [\<lparr>tk_type = JSMN_OBJECT, tk_start = 0, tk_end = 62, tk_size = 4, tk_parent = -1\<rparr>,
      \<lparr>tk_type = JSMN_STRING, tk_start = 2, tk_end = 9, tk_size = 1, tk_parent = 0\<rparr>,
      \<lparr>tk_type = JSMN_STRING, tk_start = 12, tk_end = 15, tk_size = 0, tk_parent = 1\<rparr>,
      \<lparr>tk_type = JSMN_STRING, tk_start = 18, tk_end = 24, tk_size = 1, tk_parent = 0\<rparr>,
      \<lparr>tk_type = JSMN_STRING, tk_start = 27, tk_end = 35, tk_size = 0, tk_parent = 3\<rparr>,
      \<lparr>tk_type = JSMN_STRING, tk_start = 38, tk_end = 44, tk_size = 1, tk_parent = 0\<rparr>,
      \<lparr>tk_type = JSMN_ARRAY, tk_start = 46, tk_end = 51, tk_size = 1, tk_parent = 5\<rparr>,
      \<lparr>tk_type = JSMN_STRING, tk_start = 48, tk_end = 49, tk_size = 0, tk_parent = 6\<rparr>,
      \<lparr>tk_type = JSMN_STRING, tk_start = 53, tk_end = 55, tk_size = 1, tk_parent = 0\<rparr>,
      \<lparr>tk_type = JSMN_PRIMITIVE, tk_start = 57, tk_end = 61, tk_size = 0, tk_parent = 8\<rparr>]"

lemma null_id_steps:
  "parse_request null_id_request None = Some (10, Some null_id_tokens)"
  "lgtd_jsonrpc_check_and_extract_request null_id_tokens 0 10 null_id_request =
     Some (False, \<lparr>rq_method = Some 4, rq_params = Some 6, rq_params_ntokens = 2, rq_id = None, rq_request_ntokens = 0\<rparr>)"
  "lgtd_jsonrpc_consume_object_or_array null_id_tokens 0 0 10 null_id_request = Some 10"
  "token_at null_id_tokens 0 = Some (null_id_tokens ! 0)" "tk_size (null_id_tokens ! 0) = 4" "tk_end (null_id_tokens ! 0) = 62"
  "lgtd_jsonrpc_type_array (null_id_tokens ! 0) null_id_request = False" "length null_id_request = 62"
  by code_simp+

text \<open>
  JSON-RPC allows a request whose id is \<open>null\<close>, and \<open>lgtd_jsonrpc_type_string_number_or_null\<close> is there to accept it, but
  the test for \<open>null\<close> is inverted: whatever the client and the state of the daemon, the request is answered with the error
  \<open>Invalid request\<close> and the devices are left alone.
\<close>

theorem null_id_refused:
  "\<exists>client'. lgtd_client_read_callback env null_id_request (length null_id_request) client w = Some ([], client', w)
     \<and> c_out client' = c_out (reply (error_text ''null'' LGTD_JSONRPC_INVALID_REQUEST ''Invalid request'') client)"
proof -
  define c where "c = client\<lparr>c_jsmn_tokens := null_id_tokens, c_json := null_id_request, c_current_request := Some
     \<lparr>rq_method = Some 4, rq_params = Some 6, rq_params_ntokens = 2, rq_id = None, rq_request_ntokens = 10\<rparr>\<rparr>"
  define c' where "c' = (reply (error_text ''null'' LGTD_JSONRPC_INVALID_REQUEST ''Invalid request'') c)\<lparr>c_current_request := None\<rparr>"
  have "id_text c = Some ''null''" by (simp add: id_text_def c_def)
  then have "dispatch_error LGTD_JSONRPC_INVALID_REQUEST ''Invalid request'' None c = Some c'"
    by (simp add: dispatch_error_def lgtd_jsonrpc_batch_prepare_next_part_def c'_def send_error_eq [unfolded lgtd_client_send_error_def] cstr_def)
  then have "dispatch_tokens env null_id_request null_id_tokens 10 client w = Some (62, c'\<lparr>c_json := []\<rparr>, w)"
    by (simp add: dispatch_tokens_def lgtd_jsonrpc_dispatch_request_def lgtd_jsonrpc_dispatch_one_def null_id_steps c_def)
  then have "lgtd_client_read_callback env null_id_request (length null_id_request) client w = Some ([], c'\<lparr>c_json := []\<rparr>, w)"
    by (intro read_callback_one [OF null_id_steps(1)]) (simp_all add: null_id_steps(8), simp add: null_id_request_def)
  then show ?thesis by (auto simp: c'_def c_def reply_def)
qed

subsection \<open>A negative hue\<close>

definition negative_hue_request :: string where
  "negative_hue_request =
     ''{\"jsonrpc\":\"2.0\",\"method\":\"set_light_from_hsbk\",\"params\":[\"*\",0.-0,1,1,4000],\"id\":1}''"

definition negative_hue_tokens :: "jsmntok_t list" where
  "negative_hue_tokens =
     [\<lparr>tk_type = JSMN_OBJECT, tk_start = 0, tk_end = 84, tk_size = 4, tk_parent = -1\<rparr>,
      \<lparr>tk_type = JSMN_STRING, tk_start = 2, tk_end = 9, tk_size = 1, tk_parent = 0\<rparr>,
      \<lparr>tk_type = JSMN_STRING, tk_start = 12, tk_end = 15, tk_size = 0, tk_parent = 1\<rparr>,
      \<lparr>tk_type = JSMN_STRING, tk_start = 18, tk_end = 24, tk_size = 1, tk_parent = 0\<rparr>,
      \<lparr>tk_type = JSMN_STRING, tk_start = 27, tk_end = 46, tk_size = 0, tk_parent = 3\<rparr>,
      \<lparr>tk_type = JSMN_STRING, tk_start = 49, tk_end = 55, tk_size = 1, tk_parent = 0\<rparr>,
      \<lparr>tk_type = JSMN_ARRAY, tk_start = 57, tk_end = 76, tk_size = 5, tk_parent = 5\<rparr>,
      \<lparr>tk_type = JSMN_STRING, tk_start = 59, tk_end = 60, tk_size = 0, tk_parent = 6\<rparr>,
      \<lparr>tk_type = JSMN_PRIMITIVE, tk_start = 62, tk_end = 66, tk_size = 0, tk_parent = 6\<rparr>,
      \<lparr>tk_type = JSMN_PRIMITIVE, tk_start = 67, tk_end = 68, tk_size = 0, tk_parent = 6\<rparr>,
      \<lparr>tk_type = JSMN_PRIMITIVE, tk_start = 69, tk_end = 70, tk_size = 0, tk_parent = 6\<rparr>,
      \<lparr>tk_type = JSMN_PRIMITIVE, tk_start = 71, tk_end = 75, tk_size = 0, tk_parent = 6\<rparr>,
      \<lparr>tk_type = JSMN_STRING, tk_start = 78, tk_end = 80, tk_size = 1, tk_parent = 0\<rparr>,
      \<lparr>tk_type = JSMN_PRIMITIVE, tk_start = 82, tk_end = 83, tk_size = 0, tk_parent = 12\<rparr>]"

definition negative_hue_parsed :: lgtd_jsonrpc_request where
  "negative_hue_parsed =
     \<lparr>rq_method = Some 4, rq_params = Some 6, rq_params_ntokens = 6, rq_id = Some 13, rq_request_ntokens = 14\<rparr>"

definition negative_hue_params :: jsonrpc_output where
  "negative_hue_params =
     \<lparr>out_values = [(''kelvin'', 11), (''brightness'', 10), (''saturation'', 9), (''hue'', 8), (''target'', 7)],
      out_ntokens = [(''target'', 1)]\<rparr>"

lemma negative_hue_steps:
  "parse_request negative_hue_request None = Some (14, Some negative_hue_tokens)"
  "lgtd_jsonrpc_check_and_extract_request negative_hue_tokens 0 14 negative_hue_request =
     Some (True, negative_hue_parsed)"
  "lgtd_jsonrpc_extract_and_validate_params_against_schema set_light_from_hsbk_schema negative_hue_tokens (Some 6) 6
     negative_hue_request = Some (True, negative_hue_params)"
  by code_simp+

lemma negative_hue_tokens_are:
  "token_at negative_hue_tokens 0 = Some (negative_hue_tokens ! 0)" "tk_size (negative_hue_tokens ! 0) = 4"
  "lgtd_jsonrpc_type_array (negative_hue_tokens ! 0) negative_hue_request = False"
  "token_at negative_hue_tokens 4 = Some (negative_hue_tokens ! 4)"
  "token_text negative_hue_request (negative_hue_tokens ! 4) = ''set_light_from_hsbk''"
  "LGTD_JSONRPC_TOKEN_LEN (negative_hue_tokens ! 4) = 19"
  "token_at negative_hue_tokens 7 = Some (negative_hue_tokens ! 7)" "token_text negative_hue_request (negative_hue_tokens ! 7) = ''*''"
  "lgtd_jsonrpc_type_array (negative_hue_tokens ! 7) negative_hue_request = False"
  "lgtd_jsonrpc_type_string_or_number (negative_hue_tokens ! 7) negative_hue_request = True"
  by code_simp+

lemma strtol_negative_hue:
  assumes "rest = [] \<or> \<not> isdigit (hd rest)"
  shows "strtol (''0.-0'' @ rest) = (0, 1, False)" "strtol (''-0'' @ rest) = (0, 2, False)"
  using assms by (cases rest; simp add: strtol_def isspace_def isdigit_def digits_value_def)+

lemma negative_hue_accepted:
  assumes "tk_type t = JSMN_PRIMITIVE" "tk_end t = tk_start t + 4" "0 \<le> tk_start t" "json_at json (tk_start t) = ''0.-0'' @ rest"
    and "rest = [] \<or> \<not> isdigit (hd rest)"
  shows "lgtd_jsonrpc_type_float_between_0_and_360 t json"
    "lgtd_jsonrpc_float_range_to_uint16 (json_at json (tk_start t)) (nat (LGTD_JSONRPC_TOKEN_LEN t)) 0 360 = Some (-54)"
proof -
  let ?n = "nat (tk_start t)"
  have "length (drop ?n json) = 4 + length rest" using arg_cong [OF assms(4), of length] by simp
  then have len: "tk_start t + 4 \<le> int (length json)" using assms(3) by (cases "?n \<le> length json") auto
  have at: "json ! (?n + k) = (''0.-0'' @ rest) ! k" if "k < 4" for k
    using len assms(3,4) that nth_drop [of ?n json k] by simp
  have "json_char json (tk_start t) = CHR ''0''" "json_char json (tk_start t + 1) = CHR ''.''"
    using at [of 0] at [of 1] len assms(3) by (simp_all add: json_char_def nat_add_distrib)
  moreover have "json_at json (tk_start t + 1 + 1) = ''-0'' @ rest"
  proof -
    have "nat (tk_start t + 1 + 1) = 2 + ?n" using assms(3) by simp
    then have "json_at json (tk_start t + 1 + 1) = drop 2 (drop ?n json)" by simp
    then show ?thesis by (simp add: assms(4))
  qed
  ultimately show "lgtd_jsonrpc_type_float_between_0_and_360 t json"
    using assms(1-3) strtol_negative_hue [OF assms(5)]
    by (simp add: lgtd_jsonrpc_type_float_between_0_and_360_def assms(4) Let_def)
  have "LGTD_JSONRPC_TOKEN_LEN t = 4" using assms(2) by (simp add: LGTD_JSONRPC_TOKEN_LEN_def)
  then show "lgtd_jsonrpc_float_range_to_uint16 (json_at json (tk_start t)) (nat (LGTD_JSONRPC_TOKEN_LEN t)) 0 360 = Some (-54)"
    using strtol_negative_hue [OF assms(5)]
    by (simp add: assms(4) lgtd_jsonrpc_float_range_to_uint16_def Let_def c_div_def)
qed

text \<open>
  C39: a hue of \<open>0.-0\<close>, wherever it stands in a request, passes its type check, because \<open>strtol\<close> reads a sign after the dot, and
  the conversion makes a negative number of it. When the schema and the other parameters of the request are in order and the
  list of targets can be built, \<open>lgtd_jsonrpc_check_and_call_set_light_from_hsbk\<close> calls \<open>lgtd_proto_set_light_from_hsbk\<close> with that
  hue, which has no result, whatever the other arguments, the targets and the devices: the assertion on the hue fails.
\<close>

theorem negative_hue_aborts:
  assumes "param_token params ''hue'' client = Some t" "tk_type t = JSMN_PRIMITIVE" "tk_end t = tk_start t + 4" "0 \<le> tk_start t"
    and "json_at (c_json client) (tk_start t) = ''0.-0'' @ rest" "rest = [] \<or> \<not> isdigit (hd rest)"
    and "extract_params set_light_from_hsbk_schema client = Some (True, params)"
    and "int_param params ''kelvin'' client = Some (kelvin, False)" "2500 \<le> kelvin" "kelvin \<le> 9000"
    and "map_of (out_values params) ''transition'' = None"
    and "lgtd_jsonrpc_build_target_list (map_of (out_values params) ''target'') (param_ntokens params ''target'') client w =
      Some (Some targets, client', w')"
  shows "lgtd_jsonrpc_type_float_between_0_and_360 t (c_json client)
    \<and> float_param params ''hue'' 360 client = Some (-54)
    \<and> lgtd_proto_set_light_from_hsbk (-54) saturation brightness kelvin 0 client' targets w' = None
    \<and> lgtd_jsonrpc_check_and_call_set_light_from_hsbk client w = None"
proof (intro conjI)
  note hue = negative_hue_accepted [OF assms(2-6)]
  show "lgtd_jsonrpc_type_float_between_0_and_360 t (c_json client)" by (rule hue(1))
  show h: "float_param params ''hue'' 360 client = Some (-54)" using assms(1) hue(2) by (simp add: float_param_def)
  have aborts: "lgtd_proto_set_light_from_hsbk (-54) s b kelvin 0 client' targets w' = None" for s b
    by (simp add: lgtd_proto_set_light_from_hsbk_def)
  then show "lgtd_proto_set_light_from_hsbk (-54) saturation brightness kelvin 0 client' targets w' = None" .
  show "lgtd_jsonrpc_check_and_call_set_light_from_hsbk client w = None"
    using assms(7-12) h aborts
    by (auto simp: lgtd_jsonrpc_check_and_call_set_light_from_hsbk_def call_on_targets_def
        split: Option.bind_splits)
qed

text \<open>A request with that hue, from its bytes on.\<close>

definition negative_hue_client :: "lgtd_client \<Rightarrow> lgtd_client" where
  "negative_hue_client client = client\<lparr>c_jsmn_tokens := negative_hue_tokens, c_json := negative_hue_request,
     c_current_request := Some negative_hue_parsed\<rparr>"

lemma negative_hue_setup:
  fixes client defines "c \<equiv> negative_hue_client client"
  shows "c_json c = negative_hue_request"
    "param_token negative_hue_params ''hue'' c = Some (negative_hue_tokens ! 8)"
    "extract_params set_light_from_hsbk_schema c = Some (True, negative_hue_params)"
    "int_param negative_hue_params ''kelvin'' c = Some (4000, False)" "map_of (out_values negative_hue_params) ''transition'' = None"
    "w_ext w (w_ext_pos w) \<Longrightarrow> lgtd_jsonrpc_build_target_list (map_of (out_values negative_hue_params) ''target'')
       (param_ntokens negative_hue_params ''target'') c w = Some (Some [''*''], c, w\<lparr>w_ext_pos := Suc (w_ext_pos w)\<rparr>)"
proof -
  have c: "c_jsmn_tokens c = negative_hue_tokens" "c_json c = negative_hue_request" by (simp_all add: c_def negative_hue_client_def)
  then show "c_json c = negative_hue_request" by simp
  show "param_token negative_hue_params ''hue'' c = Some (negative_hue_tokens ! 8)"
    unfolding param_token_def c by code_simp
  show "extract_params set_light_from_hsbk_schema c = Some (True, negative_hue_params)"
    using negative_hue_steps(3) by (simp add: extract_params_def c_def negative_hue_client_def negative_hue_parsed_def)
  show "int_param negative_hue_params ''kelvin'' c = Some (4000, False)" unfolding int_param_def param_token_def c by code_simp
  show "map_of (out_values negative_hue_params) ''transition'' = None" by (simp add: negative_hue_params_def)
  have target: "map_of (out_values negative_hue_params) ''target'' = Some 7" "param_ntokens negative_hue_params ''target'' = 1"
    by (simp_all add: negative_hue_params_def param_ntokens_def)
  show "w_ext w (w_ext_pos w) \<Longrightarrow> lgtd_jsonrpc_build_target_list (map_of (out_values negative_hue_params) ''target'')
       (param_ntokens negative_hue_params ''target'') c w = Some (Some [''*''], c, w\<lparr>w_ext_pos := Suc (w_ext_pos w)\<rparr>)"
    by (simp add: target lgtd_jsonrpc_build_target_list_def c negative_hue_tokens_are ext_call_def)
qed

lemma negative_hue_token:
  "tk_type (negative_hue_tokens ! 8) = JSMN_PRIMITIVE" "tk_start (negative_hue_tokens ! 8) = 62" "tk_end (negative_hue_tokens ! 8) = 66"
  "json_at negative_hue_request 62 = ''0.-0'' @ '',1,1,4000],\"id\":1}''"
  by code_simp+

theorem negative_hue_aborts_witness:
  "lgtd_jsonrpc_check_and_call_set_light_from_hsbk (negative_hue_client sample_client) sample_world = None"
proof -
  have "w_ext sample_world (w_ext_pos sample_world)" by simp
  note ready = negative_hue_setup(1-4) [of sample_client] negative_hue_setup(5) negative_hue_setup(6) [OF this, where client = sample_client]
  have tok: "tk_end (negative_hue_tokens ! 8) = tk_start (negative_hue_tokens ! 8) + 4" "0 \<le> tk_start (negative_hue_tokens ! 8)"
    by (simp_all add: negative_hue_token)
  have at: "json_at (c_json (negative_hue_client sample_client)) (tk_start (negative_hue_tokens ! 8)) =
      ''0.-0'' @ '',1,1,4000],\"id\":1}''" unfolding ready(1) negative_hue_token(2) by (rule negative_hue_token(4))
  have rest: "'',1,1,4000],\"id\":1}'' = [] \<or> \<not> isdigit (hd '',1,1,4000],\"id\":1}'')" by (simp add: isdigit_def)
  from negative_hue_aborts [OF ready(2) negative_hue_token(1) tok at rest ready(3,4) _ _ ready(5,6)] show ?thesis by simp
qed

lemma negative_hue_request_aborts:
  assumes "w_ext w (w_ext_pos w)"
  shows "lgtd_client_read_callback env negative_hue_request (length negative_hue_request) client w = None"
proof -
  let ?c = "negative_hue_client client"
  have "float_param negative_hue_params ''hue'' 360 ?c = Some (-54)"
    unfolding float_param_def negative_hue_setup(1,2) Option.bind.bind_lunit
    by (rule negative_hue_accepted(2) [where rest = "'',1,1,4000],\"id\":1}''"])
      (simp_all add: negative_hue_token(1-3) negative_hue_token(4) [simplified] isdigit_def)
  then have "lgtd_jsonrpc_check_and_call_set_light_from_hsbk ?c w = None"
    using negative_hue_setup(3,4) [of client] negative_hue_setup(5) negative_hue_setup(6) [OF assms, where client = client]
    by (auto simp: lgtd_jsonrpc_check_and_call_set_light_from_hsbk_def call_on_targets_def lgtd_proto_set_light_from_hsbk_def
        split: Option.bind_splits)
  then have "dispatch_tokens env negative_hue_request negative_hue_tokens 14 client w = None"
    by (simp add: dispatch_tokens_def lgtd_jsonrpc_dispatch_request_def lgtd_jsonrpc_dispatch_one_def negative_hue_steps(2)
        negative_hue_tokens_are negative_hue_parsed_def methods_def lgtd_jsonrpc_batch_prepare_next_part_def negative_hue_client_def)
  then show ?thesis by (intro read_callback_aborts [OF negative_hue_steps(1)]) (simp_all, simp add: negative_hue_request_def)
qed

subsection \<open>Texts that are not requests\<close>

lemma not_an_object:
  assumes "token_at tokens 0 = Some t" "tk_type t \<noteq> JSMN_OBJECT" "0 < ntokens"
  shows "\<exists>request. lgtd_jsonrpc_check_and_extract_request tokens 0 ntokens json = Some (False, request)"
  using assms by (simp add: lgtd_jsonrpc_check_and_extract_request_def lgtd_jsonrpc_extract_values_from_schema_and_dict_def
      lgtd_jsonrpc_type_object_def Let_def)

text \<open>
  C40: a text that starts with a pair instead of an object: whenever the first token has a size, and is neither an
  object nor an array, the check against the schema of a request refuses it, but instead of the error for an invalid request the
  client gets nothing. To know how many tokens to skip, \<open>lgtd_jsonrpc_dispatch_one\<close> calls \<open>lgtd_jsonrpc_consume_object_or_array\<close> on
  the token, whose first assertion, that it is an object or an array, fails; so the dispatch of the request has no result.
\<close>

theorem non_object_request_aborts:
  assumes "token_at (c_jsmn_tokens client) 0 = Some t" "tk_size t \<noteq> 0" "tk_type t \<noteq> JSMN_OBJECT" "tk_type t \<noteq> JSMN_ARRAY"
    and "0 < ntokens"
  shows "(\<exists>request. lgtd_jsonrpc_check_and_extract_request (c_jsmn_tokens client) 0 ntokens (c_json client) = Some (False, request))
    \<and> \<not> lgtd_jsonrpc_type_object_or_array t (c_json client)
    \<and> lgtd_jsonrpc_consume_object_or_array (c_jsmn_tokens client) 0 0 ntokens (c_json client) = None
    \<and> lgtd_jsonrpc_dispatch_request env ntokens client w = None"
proof (intro conjI)
  show request: "\<exists>request. lgtd_jsonrpc_check_and_extract_request (c_jsmn_tokens client) 0 ntokens (c_json client) = Some (False, request)"
    by (rule not_an_object [OF assms(1,3,5)])
  show no: "\<not> lgtd_jsonrpc_type_object_or_array t (c_json client)"
    using assms(3,4) by (simp add: lgtd_jsonrpc_type_object_or_array_def)
  then show consume: "lgtd_jsonrpc_consume_object_or_array (c_jsmn_tokens client) 0 0 ntokens (c_json client) = None"
    using assms(1) by (simp add: lgtd_jsonrpc_consume_object_or_array_def)
  show "lgtd_jsonrpc_dispatch_request env ntokens client w = None"
    using request consume assms(1,2,4,5)
    by (auto simp: lgtd_jsonrpc_dispatch_request_def lgtd_jsonrpc_dispatch_one_def lgtd_jsonrpc_type_array_def)
qed

definition pair_request :: string where
  "pair_request = ''\"a\":\"b\"''"

definition pair_tokens :: "jsmntok_t list" where
  "pair_tokens =
     [\<lparr>tk_type = JSMN_STRING, tk_start = 1, tk_end = 2, tk_size = 1, tk_parent = -1\<rparr>,
      \<lparr>tk_type = JSMN_STRING, tk_start = 5, tk_end = 6, tk_size = 0, tk_parent = 0\<rparr>]"

lemma pair_parse: "parse_request pair_request None = Some (2, Some pair_tokens)"
  by code_simp

theorem non_object_request_aborts_witness:
  "lgtd_client_read_callback sample_env pair_request (length pair_request) sample_client sample_world = None"
proof -
  let ?c = "sample_client\<lparr>c_jsmn_tokens := pair_tokens, c_json := pair_request\<rparr>"
  have "lgtd_jsonrpc_dispatch_request sample_env 2 ?c sample_world = None"
    using non_object_request_aborts [of ?c "pair_tokens ! 0" 2 sample_env sample_world]
    by (simp add: pair_tokens_def token_at_def)
  then have "dispatch_tokens sample_env pair_request pair_tokens 2 sample_client sample_world = None"
    by (simp add: dispatch_tokens_def)
  then show ?thesis by (intro read_callback_aborts [OF pair_parse]) (simp_all, simp add: pair_request_def)
qed

text \<open>
  An object with a known key and no value makes the check against the schema look at the token after the last one, whoever
  sends it.
\<close>

definition key_request :: string where
  "key_request = ''{\"jsonrpc\"}''"

definition key_tokens :: "jsmntok_t list" where
  "key_tokens =
     [\<lparr>tk_type = JSMN_OBJECT, tk_start = 0, tk_end = 11, tk_size = 1, tk_parent = -1\<rparr>,
      \<lparr>tk_type = JSMN_STRING, tk_start = 2, tk_end = 9, tk_size = 0, tk_parent = 0\<rparr>]"

lemma key_steps:
  "parse_request key_request None = Some (2, Some key_tokens)"
  "lgtd_jsonrpc_check_and_extract_request key_tokens 0 2 key_request = None"
  "token_at key_tokens 0 = Some (key_tokens ! 0)" "tk_size (key_tokens ! 0) = 1"
  "lgtd_jsonrpc_type_array (key_tokens ! 0) key_request = False"
  by code_simp+

lemma key_request_aborts: "lgtd_client_read_callback env key_request (length key_request) client w = None"
proof -
  have "dispatch_tokens env key_request key_tokens 2 client w = None"
    by (simp add: dispatch_tokens_def lgtd_jsonrpc_dispatch_request_def lgtd_jsonrpc_dispatch_one_def key_steps(2-5))
  then show ?thesis by (intro read_callback_aborts [OF key_steps(1)]) (simp_all, simp add: key_request_def)
qed

end
