(* ===== verification/Sys_Queue.thy ===== *)
theory Sys_Queue
  imports Lightsd_Prelude
begin

text \<open>
  The singly and doubly linked lists of \<open>src/compat/generic/sys/queue.h\<close>, pointer by pointer. An element is an address;
  \<open>sle_entries\<close> and \<open>le_entries\<close> are the link fields of the elements that are allocated, \<open>None\<close> as a pointer is \<open>NULL\<close>. Following or
  writing through \<open>NULL\<close>, or an element that is not allocated, has no result. \<open>_Q_INVALIDATE\<close> is empty outside of debug
  builds and left out; \<open>LIST_INSERT_BEFORE\<close>, \<open>LIST_REPLACE\<close> and the simple, XOR, tail and circular queues have no users in
  lightsd and are left out too.
\<close>

type_synonym q_ptr = "nat option"

subsection \<open>Singly linked lists\<close>

record slist =
  slh_first :: q_ptr
  sle_entries :: "nat \<Rightarrow> q_ptr option"

definition SLIST_FIRST :: "slist \<Rightarrow> q_ptr" where
  "SLIST_FIRST head = slh_first head"

definition SLIST_EMPTY :: "slist \<Rightarrow> bool" where
  "SLIST_EMPTY head = (SLIST_FIRST head = None)"

definition SLIST_NEXT :: "q_ptr \<Rightarrow> slist \<Rightarrow> q_ptr option" where
  "SLIST_NEXT elm head = Option.bind elm (sle_entries head)"

definition set_sle_next :: "q_ptr \<Rightarrow> q_ptr \<Rightarrow> slist \<Rightarrow> slist option" where
  "set_sle_next elm v head =
     do {
       e \<leftarrow> elm;
       old \<leftarrow> sle_entries head e;
       Some (head\<lparr>sle_entries := (sle_entries head)(e \<mapsto> v)\<rparr>)
     }"

definition SLIST_INIT :: "slist \<Rightarrow> slist" where
  "SLIST_INIT head = head\<lparr>slh_first := None\<rparr>"

definition SLIST_INSERT_AFTER :: "q_ptr \<Rightarrow> q_ptr \<Rightarrow> slist \<Rightarrow> slist option" where
  "SLIST_INSERT_AFTER slistelm elm head =
     do {
       v \<leftarrow> SLIST_NEXT slistelm head;
       head \<leftarrow> set_sle_next elm v head;
       set_sle_next slistelm elm head
     }"

definition SLIST_INSERT_HEAD :: "q_ptr \<Rightarrow> slist \<Rightarrow> slist option" where
  "SLIST_INSERT_HEAD elm head =
     do {
       head \<leftarrow> set_sle_next elm (slh_first head) head;
       Some (head\<lparr>slh_first := elm\<rparr>)
     }"

definition SLIST_REMOVE_AFTER :: "q_ptr \<Rightarrow> slist \<Rightarrow> slist option" where
  "SLIST_REMOVE_AFTER elm head =
     do {
       v \<leftarrow> SLIST_NEXT elm head;
       v \<leftarrow> SLIST_NEXT v head;
       set_sle_next elm v head
     }"

definition SLIST_REMOVE_HEAD :: "slist \<Rightarrow> slist option" where
  "SLIST_REMOVE_HEAD head =
     do {
       v \<leftarrow> SLIST_NEXT (slh_first head) head;
       Some (head\<lparr>slh_first := v\<rparr>)
     }"

text \<open>The loop of \<open>SLIST_REMOVE\<close> that looks for the element before \<open>elm\<close>.\<close>

partial_function (option) slist_before :: "q_ptr \<Rightarrow> q_ptr \<Rightarrow> slist \<Rightarrow> q_ptr option" where
  [code]: "slist_before elm curelm head =
     do {
       v \<leftarrow> SLIST_NEXT curelm head;
       if v \<noteq> elm then slist_before elm v head else Some curelm
     }"

definition SLIST_REMOVE :: "q_ptr \<Rightarrow> slist \<Rightarrow> slist option" where
  "SLIST_REMOVE elm head =
     (if slh_first head = elm then SLIST_REMOVE_HEAD head
      else do {
        curelm \<leftarrow> slist_before elm (slh_first head) head;
        SLIST_REMOVE_AFTER curelm head
      })"

text \<open>The elements a loop visits when its body does not change the list.\<close>

partial_function (option) slist_walk :: "q_ptr \<Rightarrow> slist \<Rightarrow> nat list option" where
  [code]: "slist_walk var head =
     (case var of
        None \<Rightarrow> Some []
      | Some e \<Rightarrow> do {
          v \<leftarrow> SLIST_NEXT var head;
          rest \<leftarrow> slist_walk v head;
          Some (e # rest)
        })"

definition SLIST_FOREACH :: "slist \<Rightarrow> nat list option" where
  "SLIST_FOREACH head = slist_walk (SLIST_FIRST head) head"

subsection \<open>Doubly linked lists\<close>

text \<open>\<open>le_prev\<close> is the address of the pointer to the element: the first pointer of the head, or the next pointer of an element.\<close>

datatype le_cell = Lh_first | Le_next nat

record list_entry =
  le_next :: q_ptr
  le_prev :: "le_cell option"

record dlist =
  lh_first :: q_ptr
  le_entries :: "nat \<Rightarrow> list_entry option"

definition LIST_FIRST :: "dlist \<Rightarrow> q_ptr" where
  "LIST_FIRST head = lh_first head"

definition LIST_EMPTY :: "dlist \<Rightarrow> bool" where
  "LIST_EMPTY head = (LIST_FIRST head = None)"

definition le_get :: "(list_entry \<Rightarrow> 'a) \<Rightarrow> q_ptr \<Rightarrow> dlist \<Rightarrow> 'a option" where
  "le_get field elm head = map_option field (Option.bind elm (le_entries head))"

definition le_set :: "(list_entry \<Rightarrow> list_entry) \<Rightarrow> q_ptr \<Rightarrow> dlist \<Rightarrow> dlist option" where
  "le_set f elm head =
     do {
       e \<leftarrow> elm;
       entry \<leftarrow> le_entries head e;
       Some (head\<lparr>le_entries := (le_entries head)(e \<mapsto> f entry)\<rparr>)
     }"

definition LIST_NEXT :: "q_ptr \<Rightarrow> dlist \<Rightarrow> q_ptr option" where
  "LIST_NEXT = le_get le_next"

definition set_le_next :: "q_ptr \<Rightarrow> q_ptr \<Rightarrow> dlist \<Rightarrow> dlist option" where
  "set_le_next elm v = le_set (\<lambda>e. e\<lparr>le_next := v\<rparr>) elm"

definition set_le_prev :: "q_ptr \<Rightarrow> le_cell option \<Rightarrow> dlist \<Rightarrow> dlist option" where
  "set_le_prev elm v = le_set (\<lambda>e. e\<lparr>le_prev := v\<rparr>) elm"

text \<open>Writing through \<open>le_prev\<close>, and the address of the next pointer of an element.\<close>

definition store_cell :: "le_cell option \<Rightarrow> q_ptr \<Rightarrow> dlist \<Rightarrow> dlist option" where
  "store_cell cell v head =
     (case cell of
        None \<Rightarrow> None
      | Some Lh_first \<Rightarrow> Some (head\<lparr>lh_first := v\<rparr>)
      | Some (Le_next e) \<Rightarrow> set_le_next (Some e) v head)"

definition addr_le_next :: "q_ptr \<Rightarrow> le_cell option" where
  "addr_le_next elm = map_option Le_next elm"

definition LIST_INIT :: "dlist \<Rightarrow> dlist" where
  "LIST_INIT head = head\<lparr>lh_first := None\<rparr>"

definition LIST_INSERT_AFTER :: "q_ptr \<Rightarrow> q_ptr \<Rightarrow> dlist \<Rightarrow> dlist option" where
  "LIST_INSERT_AFTER listelm elm head =
     do {
       v \<leftarrow> LIST_NEXT listelm head;
       head \<leftarrow> set_le_next elm v head;
       head \<leftarrow> (if v \<noteq> None then set_le_prev v (addr_le_next elm) head else Some head);
       head \<leftarrow> set_le_next listelm elm head;
       set_le_prev elm (addr_le_next listelm) head
     }"

definition LIST_INSERT_HEAD :: "q_ptr \<Rightarrow> dlist \<Rightarrow> dlist option" where
  "LIST_INSERT_HEAD elm head =
     do {
       head \<leftarrow> set_le_next elm (lh_first head) head;
       head \<leftarrow> (if lh_first head \<noteq> None then set_le_prev (lh_first head) (addr_le_next elm) head else Some head);
       set_le_prev elm (Some Lh_first) (head\<lparr>lh_first := elm\<rparr>)
     }"

definition LIST_REMOVE :: "q_ptr \<Rightarrow> dlist \<Rightarrow> dlist option" where
  "LIST_REMOVE elm head =
     do {
       v \<leftarrow> LIST_NEXT elm head;
       cell \<leftarrow> le_get le_prev elm head;
       head \<leftarrow> (if v \<noteq> None then set_le_prev v cell head else Some head);
       cell \<leftarrow> le_get le_prev elm head;
       v \<leftarrow> LIST_NEXT elm head;
       store_cell cell v head
     }"

partial_function (option) list_walk :: "q_ptr \<Rightarrow> dlist \<Rightarrow> nat list option" where
  [code]: "list_walk var head =
     (case var of
        None \<Rightarrow> Some []
      | Some e \<Rightarrow> do {
          v \<leftarrow> LIST_NEXT var head;
          rest \<leftarrow> list_walk v head;
          Some (e # rest)
        })"

definition LIST_FOREACH :: "dlist \<Rightarrow> nat list option" where
  "LIST_FOREACH head = list_walk (LIST_FIRST head) head"

text \<open>The loop that may remove the element it is at: the next element is read before the body runs.\<close>

partial_function (option) list_walk_safe :: "(nat \<Rightarrow> dlist \<Rightarrow> dlist option) \<Rightarrow> q_ptr \<Rightarrow> dlist \<Rightarrow> dlist option" where
  [code]: "list_walk_safe body var head =
     (case var of
        None \<Rightarrow> Some head
      | Some e \<Rightarrow> do {
          tvar \<leftarrow> LIST_NEXT var head;
          head \<leftarrow> body e head;
          list_walk_safe body tvar head
        })"

definition LIST_FOREACH_SAFE :: "(nat \<Rightarrow> dlist \<Rightarrow> dlist option) \<Rightarrow> dlist \<Rightarrow> dlist option" where
  "LIST_FOREACH_SAFE body head = list_walk_safe body (LIST_FIRST head) head"

end
