(* ===== verification/Sys_Queue_Lists.thy ===== *)
theory Sys_Queue_Lists
  imports Sys_Queue
begin

text \<open>
  The linked lists of \<open>queue.h\<close> are lists: what the pointers of a head and of its elements represent, what each operation makes
  of it, and the contract that the loops of lightsd over both kinds of lists rely on.
\<close>

subsection \<open>The contract\<close>

text \<open>\<open>while (!EMPTY) { e = FIRST; REMOVE(e); }\<close>, with the elements in the order they are taken.\<close>

partial_function (option) drain_list :: "('h \<Rightarrow> q_ptr) \<Rightarrow> (q_ptr \<Rightarrow> 'h \<Rightarrow> 'h option) \<Rightarrow> 'h \<Rightarrow> (nat list \<times> 'h) option" where
  [code]: "drain_list first remove head =
     (case first head of
        None \<Rightarrow> Some ([], head)
      | Some e \<Rightarrow> do {
          head \<leftarrow> remove (Some e) head;
          (es, head) \<leftarrow> drain_list first remove head;
          Some (e # es, head)
        })"

fun insert_each :: "(q_ptr \<Rightarrow> 'h \<Rightarrow> 'h option) \<Rightarrow> nat list \<Rightarrow> 'h \<Rightarrow> 'h option" where
  "insert_each ins [] head = Some head"
| "insert_each ins (e # es) head = do { head \<leftarrow> ins (Some e) head; insert_each ins es head }"

locale linked_list =
  fixes holds :: "'h \<Rightarrow> nat list \<Rightarrow> bool"
    and allocated :: "'h \<Rightarrow> nat \<Rightarrow> bool"
    and entry_of :: "'h \<Rightarrow> nat \<Rightarrow> 'e option"
    and first :: "'h \<Rightarrow> q_ptr"
    and insert_head :: "q_ptr \<Rightarrow> 'h \<Rightarrow> 'h option"
    and remove :: "q_ptr \<Rightarrow> 'h \<Rightarrow> 'h option"
    and walk :: "'h \<Rightarrow> nat list option"
  assumes holds_distinct: "holds h xs \<Longrightarrow> distinct xs"
    and first_elem: "holds h xs \<Longrightarrow> first h = (if xs = [] then None else Some (hd xs))"
    and insert_elem: "holds h xs \<Longrightarrow> allocated h e \<Longrightarrow> e \<notin> set xs \<Longrightarrow>
      \<exists>h'. insert_head (Some e) h = Some h' \<and> holds h' (e # xs) \<and> allocated h' = allocated h
        \<and> (\<forall>x. x \<notin> set (e # xs) \<longrightarrow> entry_of h' x = entry_of h x)"
    and remove_elem: "holds h xs \<Longrightarrow> e \<in> set xs \<Longrightarrow>
      \<exists>h'. remove (Some e) h = Some h' \<and> holds h' (remove1 e xs) \<and> allocated h' = allocated h
        \<and> (\<forall>x. x \<notin> set xs \<longrightarrow> entry_of h' x = entry_of h x)"
    and walk_elems: "holds h xs \<Longrightarrow> walk h = Some xs"
begin

lemma drain:
  "holds h xs \<Longrightarrow> \<exists>h'. drain_list first remove h = Some (xs, h') \<and> holds h' [] \<and> allocated h' = allocated h
     \<and> (\<forall>x. x \<notin> set xs \<longrightarrow> entry_of h' x = entry_of h x)"
proof (induction xs arbitrary: h)
  case Nil
  then show ?case using first_elem [OF Nil] by (simp add: drain_list.simps)
next
  case (Cons x xs)
  obtain h1 where h1: "remove (Some x) h = Some h1" "holds h1 xs" "allocated h1 = allocated h"
      "\<forall>y. y \<notin> set (x # xs) \<longrightarrow> entry_of h1 y = entry_of h y"
    using remove_elem [OF Cons.prems, of x] by auto
  from Cons.IH [OF h1(2)] h1(3,4) obtain h' where "drain_list first remove h1 = Some (xs, h')" "holds h' []" "allocated h' = allocated h"
      "\<forall>y. y \<notin> set (x # xs) \<longrightarrow> entry_of h' y = entry_of h y"
    by auto
  then show ?case using first_elem [OF Cons.prems] h1(1) by (simp add: drain_list.simps [of first remove h])
qed

lemma insert_several:
  "holds h xs \<Longrightarrow> distinct es \<Longrightarrow> set es \<inter> set xs = {} \<Longrightarrow> \<forall>e\<in>set es. allocated h e \<Longrightarrow>
     \<exists>h'. insert_each insert_head es h = Some h' \<and> holds h' (rev es @ xs) \<and> allocated h' = allocated h"
proof (induction es arbitrary: h xs)
  case (Cons e es)
  obtain h1 where h1: "insert_head (Some e) h = Some h1" "holds h1 (e # xs)" "allocated h1 = allocated h"
    using insert_elem [OF Cons.prems(1), of e] Cons.prems(3,4) by auto
  have "\<exists>h'. insert_each insert_head es h1 = Some h' \<and> holds h' (rev es @ e # xs) \<and> allocated h' = allocated h1"
    by (rule Cons.IH [OF h1(2)]) (use Cons.prems h1(3) in auto)
  then show ?case using h1 by auto
qed simp

text \<open>What is inserted is visited in reverse and drained.\<close>

lemma insert_walk_drain:
  assumes "holds h []" "distinct es" "\<forall>e\<in>set es. allocated h e"
  shows "\<exists>h1 h2. insert_each insert_head es h = Some h1 \<and> walk h1 = Some (rev es)
    \<and> drain_list first remove h1 = Some (rev es, h2) \<and> holds h2 []"
proof -
  obtain h1 where h1: "insert_each insert_head es h = Some h1" "holds h1 (rev es)"
    using insert_several [OF assms(1,2) _ assms(3)] by auto
  with walk_elems [OF h1(2)] drain [OF h1(2)] show ?thesis by blast
qed

end

subsection \<open>Singly linked lists\<close>

fun slseg :: "slist \<Rightarrow> q_ptr \<Rightarrow> nat list \<Rightarrow> q_ptr \<Rightarrow> bool" where
  "slseg h p [] q = (p = q)"
| "slseg h p (x # xs) q = (p = Some x \<and> (case sle_entries h x of None \<Rightarrow> False | Some v \<Rightarrow> slseg h v xs q))"

definition slist_holds :: "slist \<Rightarrow> nat list \<Rightarrow> bool" where
  "slist_holds h xs \<longleftrightarrow> distinct xs \<and> slseg h (slh_first h) xs None"

definition slist_allocated :: "slist \<Rightarrow> nat \<Rightarrow> bool" where
  "slist_allocated h e \<longleftrightarrow> sle_entries h e \<noteq> None"

lemma slseg_append: "slseg h p (xs @ ys) q \<longleftrightarrow> (\<exists>m. slseg h p xs m \<and> slseg h m ys q)"
  by (induction xs arbitrary: p) (auto split: option.splits)

lemma slseg_frame: "\<forall>x\<in>set xs. sle_entries h' x = sle_entries h x \<Longrightarrow> slseg h' p xs q = slseg h p xs q"
  by (induction xs arbitrary: p) (auto split: option.splits)

lemma slseg_allocated: "slseg h p xs q \<Longrightarrow> x \<in> set xs \<Longrightarrow> slist_allocated h x"
  by (induction xs arbitrary: p) (auto simp: slist_allocated_def split: option.splits)

lemma set_sle_next_spec:
  assumes "slist_allocated h e"
  shows "\<exists>h'. set_sle_next (Some e) v h = Some h' \<and> sle_entries h' = (sle_entries h)(e \<mapsto> v) \<and> slh_first h' = slh_first h
    \<and> slist_allocated h' = slist_allocated h"
  using assms by (auto simp: set_sle_next_def slist_allocated_def fun_eq_iff)

lemma slist_insert_head_spec:
  assumes "slist_holds h xs" "slist_allocated h e" "e \<notin> set xs"
  shows "\<exists>h'. SLIST_INSERT_HEAD (Some e) h = Some h' \<and> slist_holds h' (e # xs) \<and> slist_allocated h' = slist_allocated h
    \<and> (\<forall>x. x \<noteq> e \<longrightarrow> sle_entries h' x = sle_entries h x)"
proof -
  obtain h1 where h1: "set_sle_next (Some e) (slh_first h) h = Some h1" "sle_entries h1 = (sle_entries h)(e \<mapsto> slh_first h)"
      "slist_allocated h1 = slist_allocated h" using set_sle_next_spec [OF assms(2)] by blast
  have "slseg (h1\<lparr>slh_first := Some e\<rparr>) (slh_first h) xs None = slseg h (slh_first h) xs None"
    by (rule slseg_frame) (use assms(3) in \<open>auto simp: h1(2)\<close>)
  then show ?thesis using h1 assms
    by (auto simp: SLIST_INSERT_HEAD_def slist_holds_def slist_allocated_def fun_eq_iff)
qed

lemma slist_before_spec:
  "slseg h p (us @ [c]) (Some e) \<Longrightarrow> e \<notin> set (us @ [c]) \<Longrightarrow> slist_before (Some e) p h = Some (Some c)"
proof (induction us arbitrary: p)
  case Nil
  then show ?case by (subst slist_before.simps) (auto simp: SLIST_NEXT_def split: option.splits)
next
  case (Cons u us)
  then obtain v where v: "p = Some u" "sle_entries h u = Some v" "slseg h v (us @ [c]) (Some e)" by (auto split: option.splits)
  have "v \<noteq> Some e" using v(3) Cons.prems(2) by (cases us) auto
  with v Cons show ?case by (subst slist_before.simps) (auto simp: SLIST_NEXT_def)
qed

lemma slist_remove_head_spec:
  "slist_holds h (x # xs) \<Longrightarrow> \<exists>h'. SLIST_REMOVE_HEAD h = Some h' \<and> slist_holds h' xs \<and> slist_allocated h' = slist_allocated h
     \<and> sle_entries h' = sle_entries h"
  by (auto simp: slist_holds_def SLIST_REMOVE_HEAD_def SLIST_NEXT_def slist_allocated_def fun_eq_iff
      intro: slseg_frame [THEN iffD2] split: option.splits)

lemma slist_remove_spec:
  assumes "slist_holds h xs" "e \<in> set xs"
  shows "\<exists>h'. SLIST_REMOVE (Some e) h = Some h' \<and> slist_holds h' (remove1 e xs) \<and> slist_allocated h' = slist_allocated h
    \<and> (\<forall>x. x \<notin> set xs \<longrightarrow> sle_entries h' x = sle_entries h x)"
proof (cases xs)
  case Nil
  then show ?thesis using assms(2) by simp
next
  case (Cons x ys)
  have fst: "slh_first h = Some x" using assms(1) Cons by (simp add: slist_holds_def)
  show ?thesis
  proof (cases "x = e")
    case True
    then show ?thesis using slist_remove_head_spec [of h x ys] assms(1) Cons fst by (auto simp: SLIST_REMOVE_def)
  next
    case False
    then have "e \<in> set ys" using assms(2) Cons by simp
    then obtain us vs where ys: "ys = us @ e # vs" "e \<notin> set us" by (meson split_list_first)
    define pre where "pre = butlast (x # us)"
    define c where "c = last (x # us)"
    have pc: "x # us = pre @ [c]" unfolding pre_def c_def by simp
    have xs: "xs = pre @ [c] @ [e] @ vs" using Cons ys(1) pc by simp
    have d: "distinct xs" using assms(1) by (simp add: slist_holds_def)
    obtain v where seg: "slseg h (slh_first h) (pre @ [c]) (Some e)" "sle_entries h e = Some v" "slseg h v vs None"
      using assms(1) unfolding slist_holds_def xs by (auto simp: slseg_append split: option.splits)
    then have m: "slseg h (slh_first h) pre (Some c)" "sle_entries h c = Some (Some e)"
      by (auto simp: slseg_append split: option.splits)
    have before: "slist_before (Some e) (slh_first h) h = Some (Some c)"
      by (rule slist_before_spec [OF seg(1)]) (use d xs in auto)
    have "slist_allocated h c" using m(2) by (simp add: slist_allocated_def)
    from set_sle_next_spec [OF this] obtain h' where h': "set_sle_next (Some c) v h = Some h'"
        "sle_entries h' = (sle_entries h)(c \<mapsto> v)" "slh_first h' = slh_first h" "slist_allocated h' = slist_allocated h" by blast
    have "slseg h' (slh_first h) pre (Some c)" "slseg h' v vs None"
      using m(1) seg(3) d xs by (auto simp: h'(2) intro: slseg_frame [THEN iffD2])
    then have "slist_holds h' (pre @ [c] @ vs)" using d xs h'(2,3) by (auto simp: slist_holds_def slseg_append)
    moreover have "remove1 e xs = pre @ [c] @ vs" using d xs by (simp add: remove1_append)
    moreover have "SLIST_REMOVE (Some e) h = Some h'"
      using fst False before m(2) seg(2) h'(1) by (simp add: SLIST_REMOVE_def SLIST_REMOVE_AFTER_def SLIST_NEXT_def)
    ultimately show ?thesis using h'(2,4) xs by auto
  qed
qed

lemma slist_walk_spec: "slseg h p xs None \<Longrightarrow> slist_walk p h = Some xs"
  by (induction xs arbitrary: p) (auto simp: slist_walk.simps SLIST_NEXT_def split: option.splits)

interpretation singly: linked_list slist_holds slist_allocated sle_entries SLIST_FIRST SLIST_INSERT_HEAD SLIST_REMOVE SLIST_FOREACH
proof
  fix h xs assume h: "slist_holds h xs"
  then show "SLIST_FIRST h = (if xs = [] then None else Some (hd xs))"
    by (cases xs) (auto simp: slist_holds_def SLIST_FIRST_def)
  show "\<exists>h'. SLIST_INSERT_HEAD (Some e) h = Some h' \<and> slist_holds h' (e # xs) \<and> slist_allocated h' = slist_allocated h
      \<and> (\<forall>x. x \<notin> set (e # xs) \<longrightarrow> sle_entries h' x = sle_entries h x)" if "slist_allocated h e" "e \<notin> set xs" for e
    using slist_insert_head_spec [OF h that] by auto
qed (use slist_remove_spec slist_walk_spec in \<open>auto simp: slist_holds_def SLIST_FOREACH_def SLIST_FIRST_def\<close>)

subsection \<open>Doubly linked lists\<close>

fun dlseg :: "dlist \<Rightarrow> le_cell \<Rightarrow> q_ptr \<Rightarrow> nat list \<Rightarrow> q_ptr \<Rightarrow> bool" where
  "dlseg h cell p [] q = (p = q)"
| "dlseg h cell p (x # xs) q =
     (p = Some x \<and> (case le_entries h x of None \<Rightarrow> False | Some e \<Rightarrow> le_prev e = Some cell \<and> dlseg h (Le_next x) (le_next e) xs q))"

definition cell_after :: "le_cell \<Rightarrow> nat list \<Rightarrow> le_cell" where
  "cell_after cell xs = (if xs = [] then cell else Le_next (last xs))"

definition dlist_holds :: "dlist \<Rightarrow> nat list \<Rightarrow> bool" where
  "dlist_holds h xs \<longleftrightarrow> distinct xs \<and> dlseg h Lh_first (lh_first h) xs None"

definition dlist_allocated :: "dlist \<Rightarrow> nat \<Rightarrow> bool" where
  "dlist_allocated h e \<longleftrightarrow> le_entries h e \<noteq> None"

lemma cell_after_simps [simp]:
  "cell_after cell [] = cell" "cell_after cell (x # xs) = cell_after (Le_next x) xs" "cell_after cell (xs @ [x]) = Le_next x"
  by (auto simp: cell_after_def)

lemma dlseg_append: "dlseg h cell p (xs @ ys) q \<longleftrightarrow> (\<exists>m. dlseg h cell p xs m \<and> dlseg h (cell_after cell xs) m ys q)"
  by (induction xs arbitrary: p cell) (auto split: option.splits)

lemma dlseg_frame: "\<forall>x\<in>set xs. le_entries h' x = le_entries h x \<Longrightarrow> dlseg h' cell p xs q = dlseg h cell p xs q"
  by (induction xs arbitrary: p cell) (auto split: option.splits)

lemma dlseg_allocated: "dlseg h cell p xs q \<Longrightarrow> x \<in> set xs \<Longrightarrow> dlist_allocated h x"
  by (induction xs arbitrary: p cell) (auto simp: dlist_allocated_def split: option.splits)

lemma le_set_spec:
  assumes "le_entries h e = Some entry"
  shows "le_set f (Some e) h = Some (h\<lparr>le_entries := (le_entries h)(e \<mapsto> f entry)\<rparr>)"
  using assms by (simp add: le_set_def)

text \<open>A list is a front, up to a cell, and a back, from it: each can be changed alone.\<close>

definition front :: "dlist \<Rightarrow> nat list \<Rightarrow> q_ptr \<Rightarrow> bool" where
  "front h us p \<longleftrightarrow> dlseg h Lh_first (lh_first h) us p"

lemma holds_split: "dlist_holds h (us @ vs) \<longleftrightarrow>
    distinct (us @ vs) \<and> (\<exists>p. front h us p \<and> dlseg h (cell_after Lh_first us) p vs None)"
  by (simp add: dlist_holds_def dlseg_append front_def)

lemma store_front:
  assumes "front h us p" "distinct us"
  shows "\<exists>h'. store_cell (Some (cell_after Lh_first us)) v h = Some h' \<and> front h' us v
    \<and> (\<forall>x. x \<notin> set us \<longrightarrow> le_entries h' x = le_entries h x) \<and> dlist_allocated h' = dlist_allocated h"
proof (cases us rule: rev_cases)
  case Nil
  then show ?thesis by (simp add: store_cell_def front_def dlist_allocated_def fun_eq_iff)
next
  case (snoc ws l)
  obtain e where e: "dlseg h Lh_first (lh_first h) ws (Some l)" "le_entries h l = Some e" "le_prev e = Some (cell_after Lh_first ws)"
    using assms(1) by (auto simp: front_def snoc dlseg_append split: option.splits)
  define h' where "h' = h\<lparr>le_entries := (le_entries h)(l \<mapsto> e\<lparr>le_next := v\<rparr>)\<rparr>"
  have "store_cell (Some (Le_next l)) v h = Some h'" by (simp add: store_cell_def set_le_next_def le_set_spec [OF e(2)] h'_def)
  moreover have "dlseg h' Lh_first (lh_first h) ws (Some l)"
    using e(1) assms(2) snoc by (subst dlseg_frame [of _ h' h]) (auto simp: h'_def)
  then have "front h' us v" using e(3) by (auto simp: front_def snoc dlseg_append h'_def)
  ultimately show ?thesis using e(2) by (auto simp: snoc h'_def dlist_allocated_def fun_eq_iff)
qed

lemma relink_back:
  assumes "dlseg h cell p vs None" "distinct vs"
  shows "\<exists>h'. (if p \<noteq> None then set_le_prev p (Some cell') h else Some h) = Some h' \<and> dlseg h' cell' p vs None
    \<and> (\<forall>x. x \<notin> set vs \<longrightarrow> le_entries h' x = le_entries h x) \<and> lh_first h' = lh_first h \<and> dlist_allocated h' = dlist_allocated h"
proof (cases vs)
  case Nil
  then show ?thesis using assms(1) by simp
next
  case (Cons w ws)
  obtain e where e: "p = Some w" "le_entries h w = Some e" "dlseg h (Le_next w) (le_next e) ws None"
    using assms(1) Cons by (auto split: option.splits)
  define h' where "h' = h\<lparr>le_entries := (le_entries h)(w \<mapsto> e\<lparr>le_prev := Some cell'\<rparr>)\<rparr>"
  have "set_le_prev p (Some cell') h = Some h'" by (simp add: set_le_prev_def e(1) le_set_spec [OF e(2)] h'_def)
  moreover have "dlseg h' (Le_next w) (le_next e) ws None"
    using e(3) assms(2) Cons by (subst dlseg_frame [of _ h' h]) (auto simp: h'_def)
  ultimately show ?thesis using e Cons by (auto simp: h'_def dlist_allocated_def fun_eq_iff)
qed

lemma front_frame: "\<forall>x\<in>set us. le_entries h' x = le_entries h x \<Longrightarrow> lh_first h' = lh_first h \<Longrightarrow> front h' us p = front h us p"
  by (simp add: front_def dlseg_frame)

lemma list_remove_spec:
  assumes "dlist_holds h (us @ e # vs)"
  shows "\<exists>h'. LIST_REMOVE (Some e) h = Some h' \<and> dlist_holds h' (us @ vs) \<and> dlist_allocated h' = dlist_allocated h
    \<and> (\<forall>x. x \<notin> set (us @ vs) \<longrightarrow> le_entries h' x = le_entries h x)"
proof -
  have d: "distinct (us @ e # vs)" using assms by (simp add: dlist_holds_def)
  obtain en where en: "front h us (Some e)" "le_entries h e = Some en" "le_prev en = Some (cell_after Lh_first us)"
      "dlseg h (Le_next e) (le_next en) vs None"
    using assms by (auto simp: holds_split split: option.splits)
  obtain h1 where h1: "(if le_next en \<noteq> None then set_le_prev (le_next en) (Some (cell_after Lh_first us)) h else Some h) = Some h1"
      "dlseg h1 (cell_after Lh_first us) (le_next en) vs None" "\<forall>x. x \<notin> set vs \<longrightarrow> le_entries h1 x = le_entries h x"
      "lh_first h1 = lh_first h" "dlist_allocated h1 = dlist_allocated h"
    using relink_back [OF en(4), of "cell_after Lh_first us"] d by auto
  have "front h1 us (Some e)" using en(1) front_frame [of us h1 h] h1(3,4) d by auto
  from store_front [OF this, of "le_next en"] d obtain h2 where
    h2: "store_cell (Some (cell_after Lh_first us)) (le_next en) h1 = Some h2" "front h2 us (le_next en)"
      "\<forall>x. x \<notin> set us \<longrightarrow> le_entries h2 x = le_entries h1 x" "dlist_allocated h2 = dlist_allocated h1" by auto
  have "dlseg h2 (cell_after Lh_first us) (le_next en) vs None"
    using h1(2) h2(3) d by (subst dlseg_frame [of _ h2 h1]) auto
  then have "dlist_holds h2 (us @ vs)" using h2(2) d by (auto simp: holds_split)
  moreover have "le_entries h1 e = Some en" using h1(3) en(2) d by auto
  then have "LIST_REMOVE (Some e) h = Some h2"
    using h1(1) h2(1) en(2,3) by (simp add: LIST_REMOVE_def LIST_NEXT_def le_get_def)
  ultimately show ?thesis using h2(3,4) h1(3,5) by simp
qed

text \<open>Both insertions: the new element points to the back, the back and the cell point to it, and it points to the cell.\<close>

lemma insert_at_cell:
  assumes "distinct (us @ e # vs)" "front h us p" "dlseg h (cell_after Lh_first us) p vs None" "dlist_allocated h e"
  shows "\<exists>h'. do {
      h \<leftarrow> set_le_next (Some e) p h;
      h \<leftarrow> (if p \<noteq> None then set_le_prev p (Some (Le_next e)) h else Some h);
      h \<leftarrow> store_cell (Some (cell_after Lh_first us)) (Some e) h;
      set_le_prev (Some e) (Some (cell_after Lh_first us)) h
    } = Some h' \<and> dlist_holds h' (us @ e # vs) \<and> dlist_allocated h' = dlist_allocated h
      \<and> (\<forall>x. x \<notin> set (us @ e # vs) \<longrightarrow> le_entries h' x = le_entries h x)"
proof -
  obtain en where en: "le_entries h e = Some en" using assms(4) by (auto simp: dlist_allocated_def)
  define h0 where "h0 = h\<lparr>le_entries := (le_entries h)(e \<mapsto> en\<lparr>le_next := p\<rparr>)\<rparr>"
  have h0: "set_le_next (Some e) p h = Some h0" by (simp add: set_le_next_def le_set_spec [OF en] h0_def)
  have f0: "front h0 us p" using assms(1,2) front_frame [of us h0 h] by (simp add: h0_def)
  have "dlseg h0 (cell_after Lh_first us) p vs None" using assms(1,3) by (subst dlseg_frame [of _ h0 h]) (auto simp: h0_def)
  from relink_back [OF this, of "Le_next e"] assms(1) obtain h1 where
    h1: "(if p \<noteq> None then set_le_prev p (Some (Le_next e)) h0 else Some h0) = Some h1" "dlseg h1 (Le_next e) p vs None"
      "\<forall>x. x \<notin> set vs \<longrightarrow> le_entries h1 x = le_entries h0 x" "lh_first h1 = lh_first h0" "dlist_allocated h1 = dlist_allocated h0"
    by auto
  have "front h1 us p" using f0 front_frame [of us h1 h0] h1(3,4) assms(1) by auto
  from store_front [OF this, of "Some e"] assms(1) obtain h2 where
    h2: "store_cell (Some (cell_after Lh_first us)) (Some e) h1 = Some h2" "front h2 us (Some e)"
      "\<forall>x. x \<notin> set us \<longrightarrow> le_entries h2 x = le_entries h1 x" "dlist_allocated h2 = dlist_allocated h1" by auto
  have e2: "le_entries h2 e = Some (en\<lparr>le_next := p\<rparr>)" using h2(3) h1(3) assms(1) by (auto simp: h0_def)
  define h3 where "h3 = h2\<lparr>le_entries := (le_entries h2)(e \<mapsto> en\<lparr>le_next := p, le_prev := Some (cell_after Lh_first us)\<rparr>)\<rparr>"
  have h3: "set_le_prev (Some e) (Some (cell_after Lh_first us)) h2 = Some h3"
    by (simp add: set_le_prev_def le_set_spec [OF e2] h3_def)
  have "front h3 us (Some e)" using h2(2) front_frame [of us h3 h2] assms(1) by (simp add: h3_def)
  moreover have "dlseg h3 (Le_next e) p vs None"
    using h1(2) h2(3) assms(1) by (subst dlseg_frame [of _ h3 h1]) (auto simp: h3_def)
  ultimately have "dlist_holds h3 (us @ e # vs)" using assms(1) by (simp add: holds_split h3_def)
  moreover have "dlist_allocated h3 = dlist_allocated h"
  proof -
    have "dlist_allocated h0 = dlist_allocated h" using en by (auto simp: h0_def dlist_allocated_def fun_eq_iff)
    moreover have "dlist_allocated h3 = dlist_allocated h2" using e2 by (auto simp: h3_def dlist_allocated_def fun_eq_iff)
    ultimately show ?thesis using h2(4) h1(5) by simp
  qed
  moreover have "\<forall>x. x \<notin> set (us @ e # vs) \<longrightarrow> le_entries h3 x = le_entries h x"
    using h2(3) h1(3) by (simp add: h3_def h0_def)
  ultimately show ?thesis using h0 h1(1) h2(1) h3 by simp
qed

lemma list_insert_head_spec:
  assumes "dlist_holds h xs" "dlist_allocated h e" "e \<notin> set xs"
  shows "\<exists>h'. LIST_INSERT_HEAD (Some e) h = Some h' \<and> dlist_holds h' (e # xs) \<and> dlist_allocated h' = dlist_allocated h
    \<and> (\<forall>x. x \<notin> set (e # xs) \<longrightarrow> le_entries h' x = le_entries h x)"
proof -
  have "LIST_INSERT_HEAD (Some e) h = do {
      h1 \<leftarrow> set_le_next (Some e) (lh_first h) h;
      h1 \<leftarrow> (if lh_first h \<noteq> None then set_le_prev (lh_first h) (Some (Le_next e)) h1 else Some h1);
      h1 \<leftarrow> store_cell (Some Lh_first) (Some e) h1;
      set_le_prev (Some e) (Some Lh_first) h1 }"
    by (auto simp: LIST_INSERT_HEAD_def set_le_next_def le_set_def addr_le_next_def store_cell_def split: Option.bind_splits)
  moreover have "front h [] (lh_first h)" "dlseg h Lh_first (lh_first h) xs None" "distinct ([] @ e # xs)"
    using assms by (simp_all add: front_def dlist_holds_def)
  ultimately show ?thesis using insert_at_cell [of "[]" e xs h "lh_first h"] assms(2) by simp
qed

lemma list_insert_after_spec:
  assumes "dlist_holds h (us @ l # vs)" "dlist_allocated h e" "e \<notin> set (us @ l # vs)"
  shows "\<exists>h'. LIST_INSERT_AFTER (Some l) (Some e) h = Some h' \<and> dlist_holds h' (us @ l # e # vs)
    \<and> dlist_allocated h' = dlist_allocated h \<and> (\<forall>x. x \<notin> set (us @ l # e # vs) \<longrightarrow> le_entries h' x = le_entries h x)"
proof -
  have "dlist_holds h ((us @ [l]) @ vs)" using assms(1) by simp
  then obtain p where p: "front h (us @ [l]) p" "dlseg h (cell_after Lh_first (us @ [l])) p vs None" "distinct ((us @ [l]) @ vs)"
    unfolding holds_split by blast
  then have "LIST_NEXT (Some l) h = Some p" by (auto simp: front_def dlseg_append LIST_NEXT_def le_get_def split: option.splits)
  then show ?thesis using insert_at_cell [of "us @ [l]" e vs h p] p assms(2,3)
    by (simp add: LIST_INSERT_AFTER_def addr_le_next_def store_cell_def cong: if_cong)
qed

lemma list_walk_spec: "dlseg h cell p xs None \<Longrightarrow> list_walk p h = Some xs"
proof (induction xs arbitrary: p cell)
  case (Cons x xs)
  then obtain e where "p = Some x" "le_entries h x = Some e" "list_walk (le_next e) h = Some xs" by (auto split: option.splits)
  then show ?case by (subst list_walk.simps) (simp add: LIST_NEXT_def le_get_def)
qed (simp add: list_walk.simps)

interpretation doubly: linked_list dlist_holds dlist_allocated le_entries LIST_FIRST LIST_INSERT_HEAD LIST_REMOVE LIST_FOREACH
proof
  fix h xs e assume h: "dlist_holds h xs"
  then show "LIST_FIRST h = (if xs = [] then None else Some (hd xs))"
    by (cases xs) (auto simp: dlist_holds_def LIST_FIRST_def)
  assume "e \<in> set xs"
  then obtain us vs where xs: "xs = us @ e # vs" "e \<notin> set us" by (meson split_list_first)
  then have "remove1 e xs = us @ vs" by (simp add: remove1_append)
  then show "\<exists>h'. LIST_REMOVE (Some e) h = Some h' \<and> dlist_holds h' (remove1 e xs) \<and> dlist_allocated h' = dlist_allocated h
      \<and> (\<forall>x. x \<notin> set xs \<longrightarrow> le_entries h' x = le_entries h x)"
    using list_remove_spec [of h us e vs] h xs(1) by auto
qed (use list_insert_head_spec list_walk_spec in \<open>auto simp: dlist_holds_def LIST_FOREACH_def LIST_FIRST_def\<close>)

text \<open>A loop that removes some of the elements it visits.\<close>

definition remove_if :: "(nat \<Rightarrow> bool) \<Rightarrow> nat \<Rightarrow> dlist \<Rightarrow> dlist option" where
  "remove_if P e head = (if P e then LIST_REMOVE (Some e) head else Some head)"

lemma walk_safe_remove:
  "dlist_holds h (us @ vs) \<Longrightarrow> p = (if vs = [] then None else Some (hd vs)) \<Longrightarrow>
     \<exists>h'. list_walk_safe (remove_if P) p h = Some h' \<and> dlist_holds h' (us @ filter (\<lambda>x. \<not> P x) vs) \<and> dlist_allocated h' = dlist_allocated h
       \<and> (\<forall>x. x \<notin> set (us @ vs) \<longrightarrow> le_entries h' x = le_entries h x)"
proof (induction vs arbitrary: us h p)
  case (Cons v vs)
  have p: "p = Some v" using Cons.prems(2) by simp
  have "\<exists>p. front h us p \<and> dlseg h (cell_after Lh_first us) p (v # vs) None" using Cons.prems(1) holds_split by blast
  then obtain e where e: "le_entries h v = Some e" "dlseg h (Le_next v) (le_next e) vs None" by (auto split: option.splits)
  have nx: "LIST_NEXT p h = Some (le_next e)" "le_next e = (if vs = [] then None else Some (hd vs))"
    using e by (cases vs; simp add: LIST_NEXT_def le_get_def p)+
  show ?case
  proof (cases "P v")
    case True
    obtain h1 where h1: "LIST_REMOVE (Some v) h = Some h1" "dlist_holds h1 (us @ vs)" "dlist_allocated h1 = dlist_allocated h"
        "\<forall>x. x \<notin> set (us @ vs) \<longrightarrow> le_entries h1 x = le_entries h x"
      using list_remove_spec [OF Cons.prems(1)] by blast
    have "remove_if P v h = Some h1" using h1(1) True by (simp add: remove_if_def)
    with Cons.IH [OF h1(2) nx(2)] h1(3,4) show ?thesis using nx(1) True
      by (simp add: list_walk_safe.simps [of "remove_if P" p h]) (auto simp: p)
  next
    case False
    have "dlist_holds h ((us @ [v]) @ vs)" using Cons.prems(1) by simp
    moreover have "remove_if P v h = Some h" using False by (simp add: remove_if_def)
    ultimately show ?thesis using Cons.IH [of h "us @ [v]" "le_next e"] nx False
      by (simp add: list_walk_safe.simps [of "remove_if P" p h]) (simp add: p)
  qed
qed (simp add: list_walk_safe.simps)

subsection \<open>Properties\<close>

text \<open>
  C30: the singly linked lists of \<open>queue.h\<close> implement lists: from a head that represents \<open>xs\<close>, the first element is the first of
  \<open>xs\<close>, inserting at the head conses, removing the head drops it, \<open>SLIST_REMOVE\<close> of any element removes it, the walk visits \<open>xs\<close> in
  order, and the loop that takes the first element until the list is empty takes exactly the elements of \<open>xs\<close>. None of
  them writes the link of an element that is not on the list or being inserted: insertion writes the new element's link alone,
  removing the head none.
\<close>

theorem slist_implements_lists:
  assumes "slist_holds h xs"
  shows "SLIST_EMPTY h = (xs = []) \<and> SLIST_FOREACH h = Some xs
    \<and> (slist_allocated h e \<and> e \<notin> set xs \<longrightarrow> (\<exists>h'. SLIST_INSERT_HEAD (Some e) h = Some h' \<and> slist_holds h' (e # xs)
         \<and> (\<forall>y. y \<noteq> e \<longrightarrow> sle_entries h' y = sle_entries h y)))
    \<and> (x \<in> set xs \<longrightarrow> (\<exists>h'. SLIST_REMOVE (Some x) h = Some h' \<and> slist_holds h' (remove1 x xs)
         \<and> (\<forall>y. y \<notin> set xs \<longrightarrow> sle_entries h' y = sle_entries h y)))
    \<and> (xs \<noteq> [] \<longrightarrow> (\<exists>h'. SLIST_REMOVE_HEAD h = Some h' \<and> slist_holds h' (tl xs) \<and> sle_entries h' = sle_entries h))
    \<and> (\<exists>h'. drain_list SLIST_FIRST SLIST_REMOVE h = Some (xs, h') \<and> slist_holds h' []
         \<and> (\<forall>y. y \<notin> set xs \<longrightarrow> sle_entries h' y = sle_entries h y))"
proof (intro conjI impI)
  show "SLIST_EMPTY h = (xs = [])" using singly.first_elem [OF assms] by (simp add: SLIST_EMPTY_def)
  show "SLIST_FOREACH h = Some xs" by (rule singly.walk_elems [OF assms])
  show "\<exists>h'. SLIST_REMOVE_HEAD h = Some h' \<and> slist_holds h' (tl xs) \<and> sle_entries h' = sle_entries h" if "xs \<noteq> []"
    using slist_remove_head_spec [of h "hd xs" "tl xs"] assms that by auto
qed (use slist_insert_head_spec [OF assms] singly.remove_elem [OF assms] singly.drain [OF assms] in blast)+

text \<open>
  C29: the doubly linked lists of \<open>queue.h\<close> implement lists as well: \<open>LIST_REMOVE\<close> needs no head and finds the place of the element
  through the address of the pointer to it, and a \<open>LIST_FOREACH_SAFE\<close> loop whose body removes the elements for which a condition
  holds leaves exactly the others, in their order. The links of elements that are neither on the list nor being inserted are
  not written.
\<close>

theorem list_implements_lists:
  assumes "dlist_holds h xs"
  shows "LIST_EMPTY h = (xs = []) \<and> LIST_FOREACH h = Some xs
    \<and> (dlist_allocated h e \<and> e \<notin> set xs \<longrightarrow> (\<exists>h'. LIST_INSERT_HEAD (Some e) h = Some h' \<and> dlist_holds h' (e # xs)
         \<and> (\<forall>y. y \<notin> set (e # xs) \<longrightarrow> le_entries h' y = le_entries h y)))
    \<and> (x \<in> set xs \<longrightarrow> (\<exists>h'. LIST_REMOVE (Some x) h = Some h' \<and> dlist_holds h' (remove1 x xs)
         \<and> (\<forall>y. y \<notin> set xs \<longrightarrow> le_entries h' y = le_entries h y)))
    \<and> (\<exists>h'. LIST_FOREACH_SAFE (remove_if P) h = Some h' \<and> dlist_holds h' (filter (\<lambda>y. \<not> P y) xs)
         \<and> (\<forall>y. y \<notin> set xs \<longrightarrow> le_entries h' y = le_entries h y))"
proof (intro conjI impI)
  have first: "LIST_FIRST h = (if xs = [] then None else Some (hd xs))" by (rule doubly.first_elem [OF assms])
  then show "LIST_EMPTY h = (xs = [])" by (simp add: LIST_EMPTY_def)
  show "LIST_FOREACH h = Some xs" by (rule doubly.walk_elems [OF assms])
  show "\<exists>h'. LIST_FOREACH_SAFE (remove_if P) h = Some h' \<and> dlist_holds h' (filter (\<lambda>y. \<not> P y) xs)
      \<and> (\<forall>y. y \<notin> set xs \<longrightarrow> le_entries h' y = le_entries h y)"
    using walk_safe_remove [of h "[]" xs, OF _ first] assms by (auto simp: LIST_FOREACH_SAFE_def)
qed (use doubly.insert_elem [OF assms] doubly.remove_elem [OF assms] in blast)+

subsection \<open>Examples\<close>

definition sample_slist :: slist where
  "sample_slist = \<lparr>slh_first = Some 7, sle_entries = [7 \<mapsto> Some 3, 3 \<mapsto> Some 5, 5 \<mapsto> None, 9 \<mapsto> None]\<rparr>"

definition sample_dlist :: dlist where
  "sample_dlist = \<lparr>lh_first = Some 7, le_entries =
     [7 \<mapsto> \<lparr>le_next = Some 3, le_prev = Some Lh_first\<rparr>, 3 \<mapsto> \<lparr>le_next = Some 5, le_prev = Some (Le_next 7)\<rparr>,
      5 \<mapsto> \<lparr>le_next = None, le_prev = Some (Le_next 3)\<rparr>, 9 \<mapsto> \<lparr>le_next = None, le_prev = None\<rparr>]\<rparr>"

theorem slist_implements_lists_witness:
  "SLIST_FOREACH sample_slist = Some [7, 3, 5]
   \<and> (\<exists>h'. SLIST_INSERT_HEAD (Some 9) sample_slist = Some h' \<and> slist_holds h' [9, 7, 3, 5])
   \<and> (\<exists>h'. SLIST_REMOVE (Some 3) sample_slist = Some h' \<and> slist_holds h' [7, 5])"
proof -
  have "slist_holds sample_slist [7, 3, 5]" by (simp add: slist_holds_def sample_slist_def)
  from slist_implements_lists [OF this, of 9 3] show ?thesis by (auto simp: slist_allocated_def sample_slist_def)
qed

theorem list_implements_lists_witness:
  "LIST_FOREACH sample_dlist = Some [7, 3, 5]
   \<and> (\<exists>h'. LIST_INSERT_HEAD (Some 9) sample_dlist = Some h' \<and> dlist_holds h' [9, 7, 3, 5])
   \<and> (\<exists>h'. LIST_REMOVE (Some 3) sample_dlist = Some h' \<and> dlist_holds h' [7, 5])
   \<and> (\<exists>h'. LIST_FOREACH_SAFE (remove_if (\<lambda>e. e < 6)) sample_dlist = Some h' \<and> dlist_holds h' [7])"
proof -
  have "dlist_holds sample_dlist [7, 3, 5]" by (simp add: dlist_holds_def sample_dlist_def)
  from list_implements_lists [OF this, of 9 3 "\<lambda>e. e < 6"] show ?thesis by (auto simp: dlist_allocated_def sample_dlist_def)
qed

end
