(* ===== verification/Process_Setup.thy ===== *)
theory Process_Setup
  imports Command_Pipe
begin

text \<open>
  The rest of \<open>src/core/daemon.c\<close>: users and privileges, the pid file, going to the background, syslog. What a call of
  \<open>lgtd_err\<close> or \<open>lgtd_errx\<close> does before the process exits is \<open>lgtd_cleanup\<close>, in the next theory; here it only has a status.
  Owners and modes of files and what is written to them are left out, and the process that goes on after a \<open>fork\<close> is the child.
\<close>

subsection \<open>Users and privileges\<close>

definition lgtd_daemon_die_if_running_as_root_unless_requested :: "string option \<Rightarrow> lgtd_process \<Rightarrow> lgtd_process run" where
  "lgtd_daemon_die_if_running_as_root_unless_requested requested_user p =
     (if requested_user = Some ''root'' then Run p
      else if pr_euid p = 0 \<or> pr_egid p = 0 then Exit 1
      else Run p)"

definition lgtd_daemon_set_user :: "string \<Rightarrow> lgtd_process \<Rightarrow> lgtd_process run" where
  "lgtd_daemon_set_user user p =
     (case pr_getpwnam p user of
        None \<Rightarrow> Exit 1
      | Some user_info \<Rightarrow> Run (p\<lparr>pr_user_info := Some user_info\<rparr>))"

text \<open>Without a name the group of the user is looked up and its name read before it is known to exist.\<close>

definition lgtd_daemon_set_group :: "string option \<Rightarrow> lgtd_process \<Rightarrow> lgtd_process run" where
  "lgtd_daemon_set_group grp p =
     (case pr_user_info p of
        None \<Rightarrow> Crash
      | Some user_info \<Rightarrow>
          (case grp of
             Some name \<Rightarrow>
               (case pr_getgrnam p name of
                  None \<Rightarrow> Exit 1
                | Some group_info \<Rightarrow> Run (p\<lparr>pr_group_info := Some group_info\<rparr>))
           | None \<Rightarrow>
               (case pr_getgrgid p (pw_gid user_info) of
                  None \<Rightarrow> Crash
                | Some group_info \<Rightarrow> Run (p\<lparr>pr_group_info := Some group_info\<rparr>))))"

text \<open>\<open>lgtd_daemon_chown_dir_of\<close> makes two calls that may fail, \<open>strdup\<close> and \<open>chown\<close>; the file itself takes a third.\<close>

fun chown_each :: "'a list \<Rightarrow> lgtd_process \<Rightarrow> lgtd_process run" where
  "chown_each [] p = Run p"
| "chown_each (x # xs) p = (let (ok, p) = sys_calls 3 p in if ok then chown_each xs p else Exit 1)"

fun unix_paths_str :: "nat \<Rightarrow> lgtd_listen list \<Rightarrow> string list option" where
  "unix_paths_str sun_path_size [] = Some []"
| "unix_paths_str sun_path_size (l # ls) =
     (case ln_sockaddr l of
        Sockaddr_un path \<Rightarrow> do { path \<leftarrow> sun_path sun_path_size path; paths \<leftarrow> unix_paths_str sun_path_size ls; Some (path # paths) }
      | _ \<Rightarrow> unix_paths_str sun_path_size ls)"

text \<open>\<open>setgid\<close>, \<open>setgroups\<close> and \<open>setuid\<close>, in this order: each gives up rights the ones before it need.\<close>

definition set_ids :: "passwd \<Rightarrow> group_entry \<Rightarrow> lgtd_process \<Rightarrow> lgtd_process run" where
  "set_ids user_info group_info p =
     (let (ok, p) = sys_call p in
      if \<not> ok then Exit 1 else
      let p = p\<lparr>pr_egid := gr_gid group_info\<rparr>; (ok, p) = sys_call p in
      if \<not> ok then Exit 1 else
      let p = p\<lparr>pr_groups := [gr_gid group_info]\<rparr>; (ok, p) = sys_call p in
      if \<not> ok then Exit 1 else
      Run (p\<lparr>pr_euid := pw_uid user_info\<rparr>))"

definition lgtd_daemon_drop_privileges :: "lgtd_process \<Rightarrow> lgtd_process run" where
  "lgtd_daemon_drop_privileges p =
     (case (pr_user_info p, pr_group_info p) of
        (Some user_info, Some group_info) \<Rightarrow>
          run_then (chown_each (pr_command_pipes p) p) (\<lambda>p.
          run_then (or_crash (unix_paths_str (pr_sun_path_size p) (pr_listeners p))) (\<lambda>paths.
          run_then (chown_each paths p) (set_ids user_info group_info)))
      | _ \<Rightarrow> Crash)"

subsection \<open>The pid file and the background\<close>

text \<open>\<open>open\<close> with \<open>O_CREAT\<close> needs a directory for a new file and something other than a directory at the name of an old one.\<close>

definition lgtd_daemon_write_pidfile :: "string \<Rightarrow> lgtd_process \<Rightarrow> bool \<times> lgtd_process" where
  "lgtd_daemon_write_pidfile filepath p =
     (let (ok, p) = sys_call p in
      if \<not> ok \<or> pr_files p filepath = Some Directory \<or> pr_files p filepath = Some Socket_file
         \<or> pr_files p filepath = None \<and> pr_files p (dirname filepath) \<noteq> Some Directory
      then (False, p)
      else
        let p = (if pr_files p filepath = None then p\<lparr>pr_files := (pr_files p)(filepath \<mapsto> Regular)\<rparr> else p);
            p = (if pr_user_info p \<noteq> None \<and> pr_group_info p \<noteq> None then snd (sys_call p) else p)
        in sys_call p)"

text \<open>\<open>chdir\<close>, \<open>open\<close>, three times \<open>dup2\<close> and two times \<open>fork\<close>.\<close>

definition lgtd_daemon_unleash :: "lgtd_process \<Rightarrow> bool \<times> lgtd_process" where
  "lgtd_daemon_unleash p = sys_calls 7 p"

text \<open>\<open>open\<close> and \<open>read\<close> of the random device; \<open>rnd\<close> is what is read.\<close>

definition lgtd_daemon_randuint32 :: "u32 \<Rightarrow> lgtd_process \<Rightarrow> (u32 \<times> lgtd_process) run" where
  "lgtd_daemon_randuint32 rnd p = (let (ok, p) = sys_calls 2 p in if ok then Run (rnd, p) else Exit 1)"

subsection \<open>Syslog\<close>

text \<open>The facilities, with the values of \<open>syslog.h\<close>.\<close>

definition syslog_facilities :: "(string \<times> nat) list" where
  "syslog_facilities =
     [(''daemon'', 3 * 8), (''user'', 1 * 8), (''local0'', 16 * 8), (''local1'', 17 * 8), (''local2'', 18 * 8), (''local3'', 19 * 8),
      (''local4'', 20 * 8), (''local5'', 21 * 8), (''local6'', 22 * 8), (''local7'', 23 * 8)]"

definition lgtd_daemon_syslog_facilitytoi :: "string \<Rightarrow> nat run" where
  "lgtd_daemon_syslog_facilitytoi facility =
     (case map_of syslog_facilities facility of Some v \<Rightarrow> Run v | None \<Rightarrow> Exit 1)"

text \<open>
  The format of a message with the text of \<open>errno\<close> after it, in a buffer of \<open>sz\<close> bytes; a format that does not fit aborts.
\<close>

definition lgtd_daemon_setup_errfmt :: "string \<Rightarrow> nat \<Rightarrow> string option" where
  "lgtd_daemon_setup_errfmt fmt sz =
     (let n = min (sz - 1) (length fmt + 1) in
      if n - 1 + 5 \<le> sz then Some (take (n - 1) fmt @ '': %m'') else None)"

lemma setup_errfmt: "0 < sz \<Longrightarrow> lgtd_daemon_setup_errfmt fmt sz = (if length fmt + 5 \<le> sz then Some (fmt @ '': %m'') else None)"
  by (auto simp: lgtd_daemon_setup_errfmt_def Let_def min_def)

subsection \<open>Facts\<close>

lemma sys_calls_same: "sys_calls n p = (ok, q) \<Longrightarrow> same_process p q"
proof (induction n arbitrary: p)
  case (Suc n)
  obtain b p1 where p1: "sys_call p = (b, p1)" by fastforce
  then have same: "same_process p p1" using same_process_sys_call [of p] by simp
  show ?case
  proof (cases b)
    case True
    then show ?thesis using Suc.IH [of p1] Suc.prems p1 same_process_trans [OF same] by simp
  qed (use Suc.prems p1 same in auto)
qed simp

lemma chown_each_same: "chown_each xs p = Run q \<Longrightarrow> same_process p q"
proof (induction xs arbitrary: p)
  case (Cons x xs)
  obtain b p1 where p1: "sys_calls 3 p = (b, p1)" by fastforce
  then have "chown_each xs p1 = Run q" using Cons.prems by (cases b) simp_all
  from same_process_trans [OF sys_calls_same [OF p1] Cons.IH [OF this]] show ?case .
qed simp

lemma same_processE:
  assumes "same_process p q"
  obtains n where "q = p\<lparr>pr_world := (pr_world p)\<lparr>w_ext_pos := n\<rparr>\<rparr>"
  using assms unfolding same_process_def by blast

lemma set_ids_Run:
  assumes "set_ids u g p = Run q"
  shows "\<exists>n. q = p\<lparr>pr_world := (pr_world p)\<lparr>w_ext_pos := n\<rparr>, pr_euid := pw_uid u, pr_egid := gr_gid g, pr_groups := [gr_gid g]\<rparr>"
proof -
  have "q = p\<lparr>pr_world := (pr_world p)\<lparr>w_ext_pos := Suc (Suc (Suc (w_ext_pos (pr_world p))))\<rparr>, pr_euid := pw_uid u, pr_egid := gr_gid g,
      pr_groups := [gr_gid g]\<rparr>"
    using assms by (auto simp: set_ids_def sys_call_eq Let_def split: if_splits intro!: lgtd_process.equality)
  then show ?thesis by blast
qed

lemma drop_privileges_Run:
  assumes "lgtd_daemon_drop_privileges p = Run q"
  shows "\<exists>n u g. pr_user_info p = Some u \<and> pr_group_info p = Some g
    \<and> q = p\<lparr>pr_world := (pr_world p)\<lparr>w_ext_pos := n\<rparr>, pr_euid := pw_uid u, pr_egid := gr_gid g, pr_groups := [gr_gid g]\<rparr>"
proof -
  obtain u g where ug: "pr_user_info p = Some u" "pr_group_info p = Some g"
    using assms by (auto simp: lgtd_daemon_drop_privileges_def split: option.splits)
  obtain p1 p2 and paths :: "string list" where r: "chown_each (pr_command_pipes p) p = Run p1" "chown_each paths p1 = Run p2"
      "set_ids u g p2 = Run q"
    using assms ug by (auto simp: lgtd_daemon_drop_privileges_def run_then_eq_Run)
  from same_process_trans [OF chown_each_same [OF r(1)] chown_each_same [OF r(2)]] obtain n where
    "p2 = p\<lparr>pr_world := (pr_world p)\<lparr>w_ext_pos := n\<rparr>\<rparr>" by (rule same_processE)
  then show ?thesis using set_ids_Run [OF r(3)] ug by auto
qed

lemma write_pidfile_frame:
  assumes "lgtd_daemon_write_pidfile f p = (ok, q)"
  shows "q = p\<lparr>pr_files := pr_files q, pr_world := (pr_world p)\<lparr>w_ext_pos := w_ext_pos (pr_world q)\<rparr>\<rparr>"
  using assms unfolding lgtd_daemon_write_pidfile_def
  by (auto simp: sys_call_eq Let_def split: if_splits intro!: lgtd_process.equality)

end
