(* ===== verification/Lightsd_Main.thy ===== *)
theory Lightsd_Main
  imports Process_Setup Event_Loop
begin

text \<open>
  The entry of the process, \<open>src/core/lightsd.c\<close>: signals, the clean up, the options and the sequence of \<open>main\<close> up to the event loop.
  The answers of \<open>getopt_long\<close> (the successive options with their arguments), of \<open>getaddrinfo\<close> and of the random device, and what the
  event loop of libevent does, are given by the environment. A computation that never returns counts as a crash.
\<close>

subsection \<open>State\<close>

text \<open>
  \<open>mn_signal_evs\<close> tells which of the events for the signals exist. \<open>mn_rand\<close> are the successive values of the random device and
  \<open>mn_getaddrinfo\<close> the addresses for a name and a port.
\<close>

record lgtd_main_state =
  mn_process :: lgtd_process
  mn_discovery :: lgtd_discovery_events
  mn_signal_evs :: "bool list"
  mn_last_signal_received :: nat
  mn_rand :: "nat \<Rightarrow> u32"
  mn_getaddrinfo :: "string \<Rightarrow> string \<Rightarrow> sockaddr list option"

text \<open>\<open>SIGINT\<close>, \<open>SIGTERM\<close> and \<open>SIGQUIT\<close>.\<close>

definition lgtd_signals :: "nat list" where
  "lgtd_signals = [2, 15, 3]"

definition default_opts :: lgtd_opts where
  "default_opts =
     \<lparr>opt_foreground = True, opt_log_timestamps = True, opt_verbosity = LGTD_INFO, opt_user = None, opt_group = None,
      opt_syslog = False, opt_syslog_facility = 3 * 8, opt_syslog_ident = ''lightsd'', opt_pidfile = None\<rparr>"

abbreviation on_process :: "(lgtd_process \<Rightarrow> lgtd_process) \<Rightarrow> lgtd_main_state \<Rightarrow> lgtd_main_state" where
  "on_process f m \<equiv> m\<lparr>mn_process := f (mn_process m)\<rparr>"

abbreviation set_opts :: "(lgtd_opts \<Rightarrow> lgtd_opts) \<Rightarrow> lgtd_main_state \<Rightarrow> lgtd_main_state" where
  "set_opts f m \<equiv> on_process (\<lambda>p. p\<lparr>pr_opts := f (pr_opts p)\<rparr>) m"

subsection \<open>Signals\<close>

text \<open>\<open>event_del\<close> and \<open>event_free\<close> need an event.\<close>

definition lgtd_signal_event_callback :: "nat \<Rightarrow> nat \<Rightarrow> lgtd_main_state \<Rightarrow> lgtd_main_state option" where
  "lgtd_signal_event_callback signum i m =
     do {
       c_assert (i < length lgtd_signals);
       c_assert (i < length (mn_signal_evs m));
       c_assert (signum = lgtd_signals ! i);
       c_assert (mn_signal_evs m ! i);
       Some (m\<lparr>mn_last_signal_received := signum\<rparr>)
     }"

definition lgtd_close_signal_handling :: "lgtd_main_state \<Rightarrow> lgtd_main_state option" where
  "lgtd_close_signal_handling m =
     (if list_all id (mn_signal_evs m) then Some (m\<lparr>mn_signal_evs := map (\<lambda>_. False) (mn_signal_evs m)\<rparr>) else None)"

subsection \<open>Leaving\<close>

definition close_clients :: "lgtd_process \<Rightarrow> lgtd_process option" where
  "close_clients p =
     do {
       (clients, w) \<leftarrow> lgtd_client_close_all (pr_clients p, pr_world p);
       Some (p\<lparr>pr_clients := clients, pr_world := w\<rparr>)
     }"

definition close_devices :: "lgtd_process \<Rightarrow> lgtd_process option" where
  "close_devices p =
     do {
       w \<leftarrow> lgtd_lifx_gateway_close_all (lgtd_lifx_broadcast_close (pr_world p));
       w \<leftarrow> lgtd_timer_stop_all w;
       Some (p\<lparr>pr_world := w\<rparr>)
     }"

definition unlink_pidfile :: "lgtd_process \<Rightarrow> lgtd_process" where
  "unlink_pidfile p = (case opt_pidfile (pr_opts p) of Some pidfile \<Rightarrow> snd (sys_unlink pidfile p) | None \<Rightarrow> p)"

definition lgtd_cleanup :: "lgtd_main_state \<Rightarrow> lgtd_main_state option" where
  "lgtd_cleanup m =
     do {
       let m = m\<lparr>mn_discovery := lgtd_lifx_discovery_close (mn_discovery m)\<rparr>;
       p \<leftarrow> lgtd_listen_close_all (mn_process m);
       let p = lgtd_command_pipe_close_all p;
       p \<leftarrow> close_clients p;
       p \<leftarrow> close_devices p;
       m \<leftarrow> lgtd_close_signal_handling (m\<lparr>mn_process := p\<rparr>);
       Some (m\<lparr>mn_process := unlink_pidfile (mn_process m)\<rparr>)
     }"

text \<open>\<open>lgtd_err\<close> and \<open>lgtd_errx\<close>, and every other end of the process after a clean up.\<close>

definition lgtd_exit :: "int \<Rightarrow> lgtd_main_state \<Rightarrow> 'a run" where
  "lgtd_exit code m = (case lgtd_cleanup m of Some m \<Rightarrow> Exit code | None \<Rightarrow> Crash)"

definition lgtd_usage :: "lgtd_main_state \<Rightarrow> 'a run" where
  "lgtd_usage m = lgtd_exit 0 m"

text \<open>
  An operation of the process in \<open>main\<close>. When it exits it cleans up; where the operations at hand exit, the listeners, pipes, clients and
  devices are those from before.
\<close>

definition run_process :: "lgtd_process run \<Rightarrow> lgtd_main_state \<Rightarrow> lgtd_main_state run" where
  "run_process r m =
     (case r of Run p \<Rightarrow> Run (m\<lparr>mn_process := p\<rparr>) | Exit code \<Rightarrow> lgtd_exit code m | Crash \<Rightarrow> Crash)"

subsection \<open>Starting\<close>

fun setup_signals :: "nat list \<Rightarrow> lgtd_main_state \<Rightarrow> lgtd_main_state run" where
  "setup_signals [] m = Run m"
| "setup_signals (i # is) m =
     (let (ok, p) = sys_call (mn_process m); m = m\<lparr>mn_process := p, mn_signal_evs := (mn_signal_evs m)[i := ok]\<rparr> in
      if \<not> ok then lgtd_exit 1 m else
      let (ok, p) = sys_call (mn_process m); m = m\<lparr>mn_process := p\<rparr> in
      if \<not> ok then lgtd_exit 1 m else setup_signals is m)"

definition lgtd_setup_signal_handling :: "lgtd_main_state \<Rightarrow> lgtd_main_state run" where
  "lgtd_setup_signal_handling m =
     run_then (setup_signals [0..<length lgtd_signals] m) (\<lambda>m.
     let (ok, p) = sys_call (mn_process m); m = m\<lparr>mn_process := p\<rparr> in
     if ok then Run m else lgtd_exit 1 m)"

text \<open>\<open>strrchr\<close>: what is before and after the last colon.\<close>

definition split_last_colon :: "string \<Rightarrow> (string \<times> string) option" where
  "split_last_colon s =
     (if CHR '':'' \<in> set s
      then Some (rev (tl (dropWhile (\<lambda>c. c \<noteq> CHR '':'') (rev s))), rev (takeWhile (\<lambda>c. c \<noteq> CHR '':'') (rev s)))
      else None)"

definition to_lower :: "char \<Rightarrow> char" where
  "to_lower c = (let n = of_char c :: nat in if 65 \<le> n \<and> n \<le> 90 then char_of (n + 32) else c)"

definition strcasecmp_eq :: "string \<Rightarrow> string \<Rightarrow> bool" where
  "strcasecmp_eq s t \<longleftrightarrow> map to_lower s = map to_lower t"

fun verbosity_level :: "(string \<times> lgtd_verbosity) list \<Rightarrow> string \<Rightarrow> lgtd_verbosity option" where
  "verbosity_level [] arg = None"
| "verbosity_level ((name, level) # levels) arg = (if strcasecmp_eq arg name then Some level else verbosity_level levels arg)"

definition verbose_levels :: "(string \<times> lgtd_verbosity) list" where
  "verbose_levels = [(''debug'', LGTD_DEBUG), (''info'', LGTD_INFO), (''warning'', LGTD_WARN), (''error'', LGTD_ERR)]"

text \<open>Where a listener or a pipe cannot be opened the process exits with no clean up.\<close>

definition opened :: "(bool \<times> lgtd_process) option \<Rightarrow> lgtd_main_state \<Rightarrow> lgtd_main_state run" where
  "opened r m = run_then (or_crash r) (\<lambda>(ok, p). if ok then Run (m\<lparr>mn_process := p\<rparr>) else Exit 1)"

text \<open>One option. The values are those of the fourth column of \<open>long_opts\<close>.\<close>

definition main_option :: "char \<Rightarrow> string \<Rightarrow> lgtd_main_state \<Rightarrow> lgtd_main_state run" where
  "main_option rv optarg m =
     (if rv = CHR ''l'' then
        (case split_last_colon optarg of
           None \<Rightarrow> lgtd_usage m
         | Some (addr, port) \<Rightarrow>
             if port = [] then lgtd_usage m else opened (lgtd_listen_open (mn_getaddrinfo m addr port) (mn_process m)) m)
      else if rv = CHR ''c'' then opened (Some (lgtd_command_pipe_open optarg (mn_process m))) m
      else if rv = CHR ''s'' then opened (lgtd_listen_unix_open optarg (mn_process m)) m
      else if rv = CHR ''f'' then Run (set_opts (\<lambda>opts. opts\<lparr>opt_foreground := True\<rparr>) m)
      else if rv = CHR ''d'' then Run (set_opts (\<lambda>opts. opts\<lparr>opt_foreground := False\<rparr>) m)
      else if rv = CHR ''p'' then Run (set_opts (\<lambda>opts. opts\<lparr>opt_pidfile := Some optarg\<rparr>) m)
      else if rv = CHR ''u'' then Run (set_opts (\<lambda>opts. opts\<lparr>opt_user := Some optarg\<rparr>) m)
      else if rv = CHR ''g'' then Run (set_opts (\<lambda>opts. opts\<lparr>opt_group := Some optarg\<rparr>) m)
      else if rv = CHR ''S'' then Run (set_opts (\<lambda>opts. opts\<lparr>opt_syslog := True\<rparr>) m)
      else if rv = CHR ''F'' then
        (case lgtd_daemon_syslog_facilitytoi optarg of
           Run facility \<Rightarrow> Run (set_opts (\<lambda>opts. opts\<lparr>opt_syslog_facility := facility\<rparr>) m)
         | Exit code \<Rightarrow> lgtd_exit code m
         | Crash \<Rightarrow> Crash)
      else if rv = CHR ''I'' then Run (set_opts (\<lambda>opts. opts\<lparr>opt_syslog_ident := optarg\<rparr>) m)
      else if rv = CHR ''t'' then Run (set_opts (\<lambda>opts. opts\<lparr>opt_log_timestamps := False\<rparr>) m)
      else if rv = CHR ''v'' then
        (case verbosity_level verbose_levels optarg of
           Some level \<Rightarrow> Run (set_opts (\<lambda>opts. opts\<lparr>opt_verbosity := level\<rparr>) m)
         | None \<Rightarrow> lgtd_exit 1 m)
      else if rv = CHR ''V'' then lgtd_exit 0 m
      else if rv = CHR ''P'' \<or> rv = CHR ''r'' then Exit 0
      else lgtd_usage m)"

fun main_options :: "(char \<times> string) list \<Rightarrow> lgtd_main_state \<Rightarrow> lgtd_main_state run" where
  "main_options [] m = Run m"
| "main_options ((rv, optarg) # options) m = run_then (main_option rv optarg m) (main_options options)"

text \<open>Whether the pid file could be written only matters for a warning.\<close>

definition main_pidfile :: "lgtd_process \<Rightarrow> lgtd_process" where
  "main_pidfile p = (case opt_pidfile (pr_opts p) of Some pidfile \<Rightarrow> snd (lgtd_daemon_write_pidfile pidfile p) | None \<Rightarrow> p)"

definition main_user :: "lgtd_process \<Rightarrow> lgtd_process run" where
  "main_user p =
     (case opt_user (pr_opts p) of
        Some user \<Rightarrow>
          run_then (lgtd_daemon_set_user user p) (\<lambda>p.
          run_then (lgtd_daemon_set_group (opt_group (pr_opts p)) p) (\<lambda>p.
          lgtd_daemon_drop_privileges (main_pidfile p)))
      | None \<Rightarrow> if opt_group (pr_opts p) \<noteq> None then Exit 1 else Run p)"

definition main_root_check :: "lgtd_process \<Rightarrow> lgtd_process run" where
  "main_root_check p = lgtd_daemon_die_if_running_as_root_unless_requested (opt_user (pr_opts p)) p"

text \<open>\<open>lgtd_lifx_wire_setup\<close>, with the reads of the random device.\<close>

partial_function (option) wire_setup :: "(nat \<Rightarrow> u32) \<Rightarrow> nat \<Rightarrow> lgtd_process \<Rightarrow> (u32 \<times> lgtd_process) run option" where
  [code]: "wire_setup rand i p =
     (case lgtd_daemon_randuint32 (rand i) p of
        Run (client_id, p) \<Rightarrow> if client_id = 0 then wire_setup rand (i + 1) p else Some (Run (client_id, p))
      | Exit code \<Rightarrow> Some (Exit code)
      | Crash \<Rightarrow> Some Crash)"

definition main_client_id :: "(nat \<Rightarrow> u32) \<Rightarrow> lgtd_process \<Rightarrow> lgtd_process run" where
  "main_client_id rand p =
     run_then (run_then (or_crash (wire_setup rand 0 p)) (\<lambda>r. r)) (\<lambda>(client_id, p).
     Run (p\<lparr>pr_world := (pr_world p)\<lparr>w_client_id := client_id\<rparr>\<rparr>))"

definition main_devices :: "lgtd_main_state \<Rightarrow> lgtd_main_state run" where
  "main_devices m =
     run_then (or_crash (lgtd_lifx_discovery_setup (mn_discovery m) (pr_world (mn_process m)))) (\<lambda>(ok, ev, w).
     let m = (on_process (\<lambda>p. p\<lparr>pr_world := w\<rparr>) m)\<lparr>mn_discovery := ev\<rparr> in
     if \<not> ok then lgtd_exit 1 m else
     run_then (or_crash (lgtd_lifx_broadcast_setup w)) (\<lambda>(ok, w).
     let m = on_process (\<lambda>p. p\<lparr>pr_world := w\<rparr>) m in
     if \<not> ok then lgtd_exit 1 m else Run m))"

definition main_background :: "lgtd_process \<Rightarrow> lgtd_process run" where
  "main_background p =
     (if opt_foreground (pr_opts p) then Run p
      else let (ok, p) = lgtd_daemon_unleash p in if ok then Run p else Exit 1)"

definition main_discover :: "lgtd_process \<Rightarrow> lgtd_process run" where
  "main_discover p =
     run_then (or_crash (lgtd_lifx_discovery_start False (pr_world p))) (\<lambda>w.
     case w_exit w of Some code \<Rightarrow> Exit code | None \<Rightarrow> Run (p\<lparr>pr_world := w\<rparr>))"

text \<open>\<open>main\<close> up to the event loop, and all of it with \<open>dispatch\<close> for \<open>event_base_dispatch\<close>.\<close>

definition main_startup :: "nat \<Rightarrow> (char \<times> string) list \<Rightarrow> lgtd_main_state \<Rightarrow> lgtd_main_state run" where
  "main_startup argc options m =
     run_then (run_process (or_crash (lgtd_daemon_setup_proctitle (mn_process m))) m) (\<lambda>m.
     run_then (lgtd_setup_signal_handling m) (\<lambda>m.
     run_then (if argc = 1 then lgtd_usage m else main_options options m) (\<lambda>m.
     run_then (run_process (main_user (mn_process m)) m) (\<lambda>m.
     run_then (run_process (main_root_check (mn_process m)) m) (\<lambda>m.
     run_then (run_process (main_client_id (mn_rand m) (mn_process m)) m) (\<lambda>m.
     run_then (main_devices m) (\<lambda>m.
     run_then (run_process (main_background (mn_process m)) m) (\<lambda>m.
     run_then (run_process (main_discover (main_pidfile (mn_process m))) m) (\<lambda>m.
     run_process (or_crash (lgtd_daemon_update_proctitle (mn_process m))) m)))))))))"

definition lgtd_main :: "(lgtd_main_state \<Rightarrow> lgtd_main_state run) \<Rightarrow> nat \<Rightarrow> (char \<times> string) list \<Rightarrow> lgtd_main_state \<Rightarrow> int run" where
  "lgtd_main dispatch argc options m =
     run_then (main_startup argc options m) (\<lambda>m. run_then (dispatch m) (lgtd_exit 0))"

end
