(* ===== verification/Startup.thy ===== *)
theory Startup
  imports Lightsd_Main
begin

text \<open>
  What is known when \<open>main\<close> of \<open>src/core/lightsd.c\<close> gets to the event loop: whom the process runs as, and that the devices and clients
  are in the state from which the event loop keeps its invariant.
\<close>

subsection \<open>Frames\<close>

text \<open>Who the process runs as, its options, its identifier on the network and its broadcast socket.\<close>

definition ids_of :: "lgtd_process \<Rightarrow> _" where
  "ids_of p = (pr_euid p, pr_egid p, pr_groups p, pr_opts p, pr_getpwnam p, pr_getgrnam p, pr_getgrgid p, w_client_id (pr_world p),
     w_broadcast_endpoint (pr_world p))"

lemma pipes_ok_update [simp]:
  "pipes_ok (p\<lparr>pr_files := f\<rparr>) = pipes_ok p" "pipes_ok (p\<lparr>pr_listeners := l\<rparr>) = pipes_ok p" "pipes_ok (p\<lparr>pr_title := t\<rparr>) = pipes_ok p"
  "pipes_ok (p\<lparr>pr_proctitle_initialized := b\<rparr>) = pipes_ok p" "pipes_ok (p\<lparr>pr_user_info := u\<rparr>) = pipes_ok p"
  "pipes_ok (p\<lparr>pr_group_info := g\<rparr>) = pipes_ok p" "pipes_ok (p\<lparr>pr_world := w\<rparr>) = pipes_ok p" "pipes_ok (p\<lparr>pr_opts := opts\<rparr>) = pipes_ok p"
  "pipes_ok (p\<lparr>pr_euid := uid\<rparr>) = pipes_ok p" "pipes_ok (p\<lparr>pr_egid := gid\<rparr>) = pipes_ok p" "pipes_ok (p\<lparr>pr_groups := gs\<rparr>) = pipes_ok p"
  by (rule pipes_ok_cong, simp)+

text \<open>No device and no client, and the command pipes in order.\<close>

definition idle :: "lgtd_process \<Rightarrow> bool" where
  "idle p \<longleftrightarrow> pipes_ok p \<and> pr_clients p = [] \<and> (case pr_world p of w \<Rightarrow> w_gateways w = [] \<and> w_bulbs w = [] \<and> w_tags w = [] \<and> w_timers w = []
     \<and> w_stats w = \<lparr>st_gateways = 0, st_bulbs = 0, st_bulbs_powered_on = 0, st_clients = 0\<rparr> \<and> w_exit w = None)"

definition calm :: "lgtd_process \<Rightarrow> lgtd_process \<Rightarrow> bool" where
  "calm p q \<longleftrightarrow> ids_of q = ids_of p \<and> (idle p \<longrightarrow> idle q)"

lemma calm_refl [simp]: "calm p p"
  by (simp add: calm_def)

lemma calm_trans: "calm p q \<Longrightarrow> calm q r \<Longrightarrow> calm p r"
  by (simp add: calm_def)

lemma calm_update [simp]:
  "calm p (q\<lparr>pr_files := f\<rparr>) = calm p q" "calm p (q\<lparr>pr_listeners := l\<rparr>) = calm p q"
  "calm p (q\<lparr>pr_title := t\<rparr>) = calm p q" "calm p (q\<lparr>pr_proctitle_initialized := b\<rparr>) = calm p q"
  "calm p (q\<lparr>pr_user_info := u\<rparr>) = calm p q" "calm p (q\<lparr>pr_group_info := g\<rparr>) = calm p q"
  by (simp_all add: calm_def ids_of_def idle_def)

lemma calm_calls [simp]: "calm p (p\<lparr>pr_world := (pr_world p)\<lparr>w_ext_pos := n\<rparr>\<rparr>)"
  by (simp add: calm_def ids_of_def idle_def)

lemma calm_same: "same_process p q \<Longrightarrow> calm p q"
  by (auto simp: same_process_def)

lemma calm_on_path: "on_path path p q \<Longrightarrow> calm p q"
  by (auto simp: on_path_def calm_def ids_of_def idle_def)

lemma calm_sys_call: "sys_call p = (ok, q) \<Longrightarrow> calm p q"
  by (auto simp: sys_call_eq)

lemma calm_title: "lgtd_daemon_update_proctitle p = Some q \<Longrightarrow> calm p q"
  using update_proctitle_title by fastforce

lemma calm_setup_title: "lgtd_daemon_setup_proctitle p = Some q \<Longrightarrow> calm p q"
  using calm_title by (auto simp: lgtd_daemon_setup_proctitle_def bind_eq_Some_conv split: if_splits)

lemma calm_pidfile: "calm p (main_pidfile p)"
proof (cases "opt_pidfile (pr_opts p)")
  case (Some f)
  obtain ok q where q: "lgtd_daemon_write_pidfile f p = (ok, q)" by fastforce
  have "calm p q" by (subst write_pidfile_frame [OF q]) (simp add: calm_def ids_of_def idle_def)
  then show ?thesis using q Some by (simp add: main_pidfile_def)
qed (simp add: main_pidfile_def)

subsection \<open>Listeners and pipes\<close>

lemma calm_listen_addresses: "listen_addresses addrs p = (r, q) \<Longrightarrow> calm p q"
proof (induction addrs arbitrary: p)
  case (Cons sa rest)
  show ?case
  proof (cases "taken p sa")
    case False
    define p3 where "p3 = p\<lparr>pr_world := (pr_world p)\<lparr>w_ext_pos := w_ext_pos (pr_world p) + 3\<rparr>, pr_listeners := \<lparr>ln_sockaddr = sa\<rparr> # pr_listeners p\<rparr>"
    have "(\<exists>n. q = p\<lparr>pr_world := (pr_world p)\<lparr>w_ext_pos := n\<rparr>\<rparr>) \<or> listen_addresses rest p3 = (r, q)"
      using Cons.prems False by (auto simp: sys_call_eq Let_def p3_def numeral_3_eq_3 split: if_splits)
    moreover have "calm p p3" by (simp add: p3_def)
    ultimately show ?thesis using Cons.IH [of p3] calm_trans by auto
  qed (use Cons.prems in simp)
qed simp

lemma calm_listen_open: "lgtd_listen_open res p = Some (ok, q) \<Longrightarrow> calm p q"
proof (cases res)
  case (Some addrs)
  assume a: "lgtd_listen_open res p = Some (ok, q)"
  obtain r p1 where p1: "listen_addresses addrs p = (r, p1)" by fastforce
  have "q = p1 \<or> lgtd_daemon_update_proctitle p1 = Some q"
    using a Some p1 by (cases r) (auto simp: lgtd_listen_open_def bind_eq_Some_conv)
  then show ?thesis using calm_listen_addresses [OF p1] calm_title calm_trans by blast
qed (simp add: lgtd_listen_open_def)

lemma calm_unix_open:
  assumes "lgtd_listen_unix_open path p = Some (ok, q)"
  shows "calm p q"
proof -
  from unix_open_cases [OF assms] consider "q = p" | "unix_opened path p ok q" by blast
  then show ?thesis
  proof cases
    case 2
    then obtain r where "on_path path p r" "q = r \<or> (\<exists>ls. q = r\<lparr>pr_listeners := ls\<rparr>)"
      by (auto simp: unix_opened_def split: if_splits)
    then show ?thesis using calm_on_path calm_trans by fastforce
  qed simp
qed

lemma calm_pipe_open:
  assumes "lgtd_command_pipe_open path p = (ok, q)"
  shows "calm p q"
proof -
  have q: "pipe_open path p = (ok, q)" using assms by (simp add: lgtd_command_pipe_open_def)
  from pipe_open_spec [OF q] obtain r cs where "on_path path p r" "q = r \<or> q = r\<lparr>pr_command_pipes := cs\<rparr>" by blast
  then have "ids_of q = ids_of p" "idle p \<longrightarrow> pipes_ok q \<longrightarrow> idle q"
    using calm_on_path [of path p r] by (auto simp: calm_def ids_of_def idle_def)
  then show ?thesis using pipe_open_ok(1) [OF _ q] by (auto simp: calm_def idle_def)
qed

subsection \<open>Steps of the start\<close>

lemma exit_not_Run [simp]: "lgtd_exit code m \<noteq> Run x" "lgtd_usage m \<noteq> Run x"
  by (simp_all add: lgtd_usage_def lgtd_exit_def split: option.splits)

lemma run_process_Run: "run_process r m = Run m' \<longleftrightarrow> (\<exists>p. r = Run p \<and> m' = m\<lparr>mn_process := p\<rparr>)"
  by (auto simp: run_process_def split: run.splits)

lemma nth_set_True: "j < length xs \<Longrightarrow> xs[i := True] ! j = (j = i \<or> xs ! j)"
  by (cases "j = i") simp_all

lemma setup_signals_Run:
  assumes "setup_signals is m = Run m'"
  shows "calm (mn_process m) (mn_process m') \<and> length (mn_signal_evs m') = length (mn_signal_evs m)
    \<and> (\<forall>i<length (mn_signal_evs m). mn_signal_evs m' ! i = (i \<in> set is \<or> mn_signal_evs m ! i))
    \<and> mn_discovery m' = mn_discovery m"
  using assms
proof (induction "is" arbitrary: m)
  case (Cons i "is")
  obtain ok1 p1 where p1: "sys_call (mn_process m) = (ok1, p1)" by fastforce
  obtain ok2 p2 where p2: "sys_call p1 = (ok2, p2)" by fastforce
  define m1 where "m1 = m\<lparr>mn_signal_evs := (mn_signal_evs m)[i := True], mn_process := p2\<rparr>"
  have "setup_signals is m1 = Run m'"
    using Cons.prems by (cases ok1; cases ok2) (simp_all add: p1 p2 Let_def m1_def)
  note IH = Cons.IH [OF this]
  have "calm (mn_process m) (mn_process m1)"
    using calm_trans [OF calm_sys_call [OF p1] calm_sys_call [OF p2]] by (simp add: m1_def)
  from calm_trans [OF this] show ?case using IH by (auto simp: m1_def nth_set_True)
qed simp

lemma setup_signal_handling_Run:
  assumes "lgtd_setup_signal_handling m = Run m'" "length (mn_signal_evs m) = length lgtd_signals"
  shows "calm (mn_process m) (mn_process m') \<and> list_all id (mn_signal_evs m') \<and> mn_discovery m' = mn_discovery m"
proof -
  obtain m1 where m1: "setup_signals [0..<length lgtd_signals] m = Run m1"
    and m': "run_then (Run m1) (\<lambda>m. let (ok, p) = sys_call (mn_process m); m = m\<lparr>mn_process := p\<rparr> in
      if ok then Run m else lgtd_exit 1 m) = Run m'"
    using assms(1) by (auto simp: lgtd_setup_signal_handling_def run_then_eq_Run)
  obtain ok p where p: "sys_call (mn_process m1) = (ok, p)" by fastforce
  then have "m' = m1\<lparr>mn_process := p\<rparr>" using m' by (cases ok) (simp_all add: Let_def)
  then show ?thesis using setup_signals_Run [OF m1] calm_trans [OF _ calm_sys_call [OF p]] assms(2)
    by (auto simp: list_all_length)
qed

lemma opened_Run: "opened r m = Run m' \<Longrightarrow> \<exists>p. r = Some (True, p) \<and> m' = m\<lparr>mn_process := p\<rparr>"
  by (auto simp: opened_def run_then_eq_Run split: if_splits)

lemma idle_opts [simp]: "idle (p\<lparr>pr_opts := opts\<rparr>) = idle p"
  by (simp add: idle_def)

text \<open>An option changes the options, or opens something.\<close>

lemma opened_idle:
  assumes "opened r m = Run m'" "\<And>ok q. r = Some (ok, q) \<Longrightarrow> calm (mn_process m) q" "idle (mn_process m)"
  shows "idle (mn_process m') \<and> mn_signal_evs m' = mn_signal_evs m \<and> mn_discovery m' = mn_discovery m"
  using opened_Run [OF assms(1)] assms(2,3) by (auto simp: calm_def)

lemma main_option_cases:
  assumes "main_option rv arg m = Run m'"
  shows "(\<exists>opts. m' = m\<lparr>mn_process := (mn_process m)\<lparr>pr_opts := opts\<rparr>\<rparr>)
    \<or> (\<exists>res. opened (lgtd_listen_open res (mn_process m)) m = Run m')
    \<or> opened (Some (lgtd_command_pipe_open arg (mn_process m))) m = Run m'
    \<or> opened (lgtd_listen_unix_open arg (mn_process m)) m = Run m'"
  using assms unfolding main_option_def by (auto split: if_splits option.splits run.splits)

lemma main_option_idle:
  assumes "main_option rv arg m = Run m'" "idle (mn_process m)"
  shows "idle (mn_process m') \<and> mn_signal_evs m' = mn_signal_evs m \<and> mn_discovery m' = mn_discovery m"
  using main_option_cases [OF assms(1)]
proof (elim disjE exE)
  show ?thesis if "opened (lgtd_listen_open res (mn_process m)) m = Run m'" for res
    using opened_idle [OF that _ assms(2)] calm_listen_open by blast
  show ?thesis if "opened (Some (lgtd_command_pipe_open arg (mn_process m))) m = Run m'"
    using opened_idle [OF that _ assms(2)] calm_pipe_open by blast
  show ?thesis if "opened (lgtd_listen_unix_open arg (mn_process m)) m = Run m'"
    using opened_idle [OF that _ assms(2)] calm_unix_open by blast
qed (use assms(2) in simp)

lemma main_options_idle:
  "main_options options m = Run m' \<Longrightarrow> idle (mn_process m) \<Longrightarrow>
     idle (mn_process m') \<and> mn_signal_evs m' = mn_signal_evs m \<and> mn_discovery m' = mn_discovery m"
proof (induction options m rule: main_options.induct)
  case (2 rv arg options m)
  then obtain m1 where "main_option rv arg m = Run m1" "main_options options m1 = Run m'" by (auto simp: run_then_eq_Run)
  then show ?case using "2.IH" "2.prems"(2) main_option_idle by metis
qed simp

text \<open>Whom the process runs as when a user was asked for: that user, with the group that was asked for or that of the user, and no other group.\<close>

definition runs_as_requested :: "lgtd_process \<Rightarrow> bool" where
  "runs_as_requested p \<longleftrightarrow>
     (case opt_user (pr_opts p) of
        None \<Rightarrow> opt_group (pr_opts p) = None
      | Some user \<Rightarrow> (\<exists>u g. pr_getpwnam p user = Some u
          \<and> (case opt_group (pr_opts p) of Some name \<Rightarrow> pr_getgrnam p name | None \<Rightarrow> pr_getgrgid p (pw_gid u)) = Some g
          \<and> pr_euid p = pw_uid u \<and> pr_egid p = gr_gid g \<and> pr_groups p = [gr_gid g]))"

text \<open>The process does not run as root, unless root was asked for by name.\<close>

definition not_root :: "lgtd_process \<Rightarrow> bool" where
  "not_root p \<longleftrightarrow> opt_user (pr_opts p) = Some ''root'' \<or> pr_euid p \<noteq> 0 \<and> pr_egid p \<noteq> 0"

lemma calm_runs_as:
  assumes "calm p q"
  shows "runs_as_requested q = runs_as_requested p" "not_root q = not_root p"
  using assms by (simp_all add: calm_def ids_of_def runs_as_requested_def not_root_def cong: option.case_cong)

lemma pidfile_info: "pr_user_info (main_pidfile p) = pr_user_info p" "pr_group_info (main_pidfile p) = pr_group_info p"
proof -
  have "pr_user_info q = pr_user_info p \<and> pr_group_info q = pr_group_info p" if "lgtd_daemon_write_pidfile f p = (ok, q)" for f ok q
    by (subst (1 2) write_pidfile_frame [OF that]) simp
  then show "pr_user_info (main_pidfile p) = pr_user_info p" "pr_group_info (main_pidfile p) = pr_group_info p"
    unfolding main_pidfile_def by (metis option.case_eq_if prod.collapse)+
qed

lemma set_group_Run:
  assumes "lgtd_daemon_set_group grp p = Run q" "pr_user_info p = Some u"
  shows "\<exists>g. (case grp of Some name \<Rightarrow> pr_getgrnam p name | None \<Rightarrow> pr_getgrgid p (pw_gid u)) = Some g \<and> q = p\<lparr>pr_group_info := Some g\<rparr>"
  using assms by (auto simp: lgtd_daemon_set_group_def split: option.splits)

lemma main_user_Run:
  assumes "main_user p = Run q"
  shows "runs_as_requested q" "idle p \<longrightarrow> idle q"
proof -
  have "runs_as_requested q \<and> (idle p \<longrightarrow> idle q)"
  proof (cases "opt_user (pr_opts p)")
    case None
    then show ?thesis using assms by (auto simp: main_user_def runs_as_requested_def split: if_splits)
  next
    case (Some user)
    then obtain u where u: "pr_getpwnam p user = Some u"
      using assms by (auto simp: main_user_def lgtd_daemon_set_user_def run_then_eq_Run split: option.splits)
    let ?p1 = "p\<lparr>pr_user_info := Some u\<rparr>"
    obtain p2 where p2: "lgtd_daemon_set_group (opt_group (pr_opts p)) ?p1 = Run p2" "lgtd_daemon_drop_privileges (main_pidfile p2) = Run q"
      using assms Some u by (auto simp: main_user_def lgtd_daemon_set_user_def run_then_eq_Run)
    obtain g where g: "(case opt_group (pr_opts p) of Some name \<Rightarrow> pr_getgrnam p name | None \<Rightarrow> pr_getgrgid p (pw_gid u)) = Some g"
        "p2 = ?p1\<lparr>pr_group_info := Some g\<rparr>"
      using set_group_Run [OF p2(1)] by (auto cong: option.case_cong)
    obtain n where q: "q = (main_pidfile p2)\<lparr>pr_world := (pr_world (main_pidfile p2))\<lparr>w_ext_pos := n\<rparr>, pr_euid := pw_uid u,
        pr_egid := gr_gid g, pr_groups := [gr_gid g]\<rparr>"
      using drop_privileges_Run [OF p2(2)] by (auto simp: pidfile_info g(2))
    have c: "calm p (main_pidfile p2)" using calm_trans [OF _ calm_pidfile] by (simp add: g(2))
    then have "idle p \<longrightarrow> idle q" by (auto simp: calm_def q idle_def)
    moreover have "runs_as_requested q" using c Some u g(1) unfolding runs_as_requested_def q
      by (auto simp: calm_def ids_of_def cong: option.case_cong intro!: exI [of _ g])
    ultimately show ?thesis by blast
  qed
  then show "runs_as_requested q" "idle p \<longrightarrow> idle q" by blast+
qed

lemma main_root_check_Run: "main_root_check p = Run q \<Longrightarrow> q = p \<and> not_root p"
  by (auto simp: main_root_check_def lgtd_daemon_die_if_running_as_root_unless_requested_def not_root_def split: if_splits)

text \<open>What is read here is what \<open>lgtd_lifx_wire_setup\<close> of the protocol settles on.\<close>

lemma wire_setup_Run:
  assumes "wire_setup rand i p = Some r"
  shows "\<forall>client_id q. r = Run (client_id, q) \<longrightarrow> client_id \<noteq> 0 \<and> same_process p q \<and> lgtd_lifx_wire_setup rand i = Some client_id"
  using assms
proof (rule wire_setup.raw_induct [where P = "\<lambda>rand i p r. \<forall>client_id q. r = Run (client_id, q) \<longrightarrow> client_id \<noteq> 0 \<and> same_process p q \<and> lgtd_lifx_wire_setup rand i = Some client_id", rotated])
  fix f :: "(nat \<Rightarrow> u32) \<Rightarrow> nat \<Rightarrow> lgtd_process \<Rightarrow> (u32 \<times> lgtd_process) run option" and rand i p r
  assume IH: "\<And>rand i p r. f rand i p = Some r \<Longrightarrow> \<forall>client_id q. r = Run (client_id, q) \<longrightarrow> client_id \<noteq> 0 \<and> same_process p q \<and> lgtd_lifx_wire_setup rand i = Some client_id"
    and r: "(case lgtd_daemon_randuint32 (rand i) p of
        Run (client_id, p) \<Rightarrow> if client_id = 0 then f rand (i + 1) p else Some (Run (client_id, p))
      | Exit code \<Rightarrow> Some (Exit code) | Crash \<Rightarrow> Some Crash) = Some r"
  obtain b p1 where p1: "sys_calls 2 p = (b, p1)" by fastforce
  note same = sys_calls_same [OF p1]
  show "\<forall>client_id q. r = Run (client_id, q) \<longrightarrow> client_id \<noteq> 0 \<and> same_process p q \<and> lgtd_lifx_wire_setup rand i = Some client_id"
  proof (cases "b \<and> rand i = 0")
    case True
    then have "f rand (i + 1) p1 = Some r" using r p1 by (simp add: lgtd_daemon_randuint32_def)
    from IH [OF this] show ?thesis using same_process_trans [OF same] True by (subst lgtd_lifx_wire_setup.simps) simp
  next
    case False
    then show ?thesis using r p1 same by (subst lgtd_lifx_wire_setup.simps) (cases b, auto simp: lgtd_daemon_randuint32_def)
  qed
qed

lemma main_client_id_Run:
  assumes "main_client_id rand p = Run q"
  shows "\<exists>client_id n. client_id \<noteq> 0 \<and> q = p\<lparr>pr_world := (pr_world p)\<lparr>w_ext_pos := n, w_client_id := client_id\<rparr>\<rparr>"
proof -
  obtain client_id p1 where w: "wire_setup rand 0 p = Some (Run (client_id, p1))"
    and q: "q = p1\<lparr>pr_world := (pr_world p1)\<lparr>w_client_id := client_id\<rparr>\<rparr>"
    using assms by (auto simp: main_client_id_def run_then_eq_Run)
  from wire_setup_Run [OF w] obtain n where "client_id \<noteq> 0" "p1 = p\<lparr>pr_world := (pr_world p)\<lparr>w_ext_pos := n\<rparr>\<rparr>"
    by (auto elim: same_processE)
  then show ?thesis unfolding q by (intro exI [of _ client_id] exI [of _ n]) simp
qed

lemma main_devices_Run:
  assumes "main_devices m = Run m'"
  shows "\<exists>n. m' = m\<lparr>mn_discovery := \<lparr>dv_timeout_ev = True, dv_watchdog_ev = True\<rparr>,
    mn_process := (mn_process m)\<lparr>pr_world := (pr_world (mn_process m))\<lparr>w_ext_pos := n, w_broadcast_endpoint := ep_open\<rparr>\<rparr>\<rparr>"
proof -
  obtain ev w1 where d: "lgtd_lifx_discovery_setup (mn_discovery m) (pr_world (mn_process m)) = Some (True, ev, w1)"
    and b: "\<exists>w2. lgtd_lifx_broadcast_setup w1 = Some (True, w2)
      \<and> m' = m\<lparr>mn_discovery := ev, mn_process := (mn_process m)\<lparr>pr_world := w2\<rparr>\<rparr>"
    using assms by (auto simp: main_devices_def run_then_eq_Run Let_def split: if_splits)
  have w1: "ev = \<lparr>dv_timeout_ev = True, dv_watchdog_ev = True\<rparr> \<and> (\<exists>n. w1 = (pr_world (mn_process m))\<lparr>w_ext_pos := n\<rparr>)"
    using d by (auto simp: lgtd_lifx_discovery_setup_def ext_call_def c_assert_def Let_def split: if_splits)
  from b obtain w2 where w2: "lgtd_lifx_broadcast_setup w1 = Some (True, w2)"
    and m': "m' = m\<lparr>mn_discovery := ev, mn_process := (mn_process m)\<lparr>pr_world := w2\<rparr>\<rparr>" by blast
  have "w_broadcast_endpoint w1 = ep_closed"
    using w2 by (cases "w_broadcast_endpoint w1") (auto simp: lgtd_lifx_broadcast_setup_def ep_closed_def c_assert_def split: if_splits)
  from broadcast_setup_spec [OF this] w2 obtain e where "w2 = w1\<lparr>w_ext_pos := e, w_broadcast_endpoint := ep_open\<rparr>" by auto
  then show ?thesis using w1 m' by auto
qed

lemma main_background_Run: "main_background p = Run q \<Longrightarrow> calm p q"
  using sys_calls_same calm_same
  by (fastforce simp: main_background_def lgtd_daemon_unleash_def split: if_splits prod.splits)

lemma main_discover_Run:
  assumes "main_discover p = Run q"
  shows "calm p q"
proof -
  obtain w where w: "lgtd_lifx_discovery_start False (pr_world p) = Some w" "w_exit w = None" "q = p\<lparr>pr_world := w\<rparr>"
    using assms by (auto simp: main_discover_def run_then_eq_Run split: option.splits)
  then have "\<exists>d n. w = (pr_world p)\<lparr>w_discovery_timeout := d, w_ext_pos := n\<rparr>"
    by (auto simp: lgtd_lifx_discovery_start_def lgtd_lifx_discovery_timeout_event_callback_def lgtd_lifx_broadcast_discovery_def
        ext_call_def lgtd_err_def c_assert_def Let_def split: if_splits)
  then show ?thesis using w by (auto simp: calm_def ids_of_def idle_def)
qed

subsection \<open>The start as a whole\<close>

lemma main_startup_steps:
  assumes "main_startup argc options m = Run m'"
  shows "\<exists>p0 m1 m2 p3 p5 m6 p7 p8 p9.
    lgtd_daemon_setup_proctitle (mn_process m) = Some p0 \<and> lgtd_setup_signal_handling (m\<lparr>mn_process := p0\<rparr>) = Run m1
    \<and> main_options options m1 = Run m2 \<and> main_user (mn_process m2) = Run p3 \<and> not_root p3
    \<and> main_client_id (mn_rand m2) p3 = Run p5 \<and> main_devices (m2\<lparr>mn_process := p5\<rparr>) = Run m6
    \<and> main_background (mn_process m6) = Run p7 \<and> main_discover (main_pidfile p7) = Run p8 \<and> lgtd_daemon_update_proctitle p8 = Some p9
    \<and> m' = m6\<lparr>mn_process := p9\<rparr>"
  using assms unfolding main_startup_def
  by (auto simp: run_then_eq_Run run_process_Run split: if_splits dest!: main_root_check_Run)

text \<open>From the devices on, nothing that was settled before changes.\<close>

lemma main_devices_frame:
  assumes "main_devices m = Run m'"
  shows "runs_as_requested (mn_process m') = runs_as_requested (mn_process m)" "not_root (mn_process m') = not_root (mn_process m)"
    "idle (mn_process m') = idle (mn_process m)"
  using main_devices_Run [OF assms] by (auto simp: runs_as_requested_def not_root_def idle_def cong: option.case_cong)

lemma main_client_id_frame:
  assumes "main_client_id rand p = Run q"
  shows "runs_as_requested q = runs_as_requested p" "not_root q = not_root p" "idle q = idle p"
  using main_client_id_Run [OF assms] by (auto simp: runs_as_requested_def not_root_def idle_def cong: option.case_cong)

lemma last_steps_calm:
  assumes "main_background p6 = Run p7" "main_discover (main_pidfile p7) = Run p8" "lgtd_daemon_update_proctitle p8 = Some p9"
  shows "calm p6 p9"
  using calm_trans [OF calm_trans [OF calm_trans [OF main_background_Run [OF assms(1)] calm_pidfile] main_discover_Run [OF assms(2)]]
      calm_title [OF assms(3)]] .

text \<open>
  C5: when the process gets to its event loop it has given up its privileges: with a user on the command line it runs with the user id
  of that user, the group asked for or that of the user, and no other group; and without \<open>-u root\<close> neither its user nor its group is
  root. This holds whatever the options and the order they come in, and whatever system calls fail.
\<close>

theorem main_drops_privileges:
  assumes "main_startup argc options m = Run m'"
  shows "runs_as_requested (mn_process m') \<and> not_root (mn_process m')"
proof -
  obtain m2 p3 p5 m6 p7 p8 p9 where
    s: "main_user (mn_process m2) = Run p3" "not_root p3" "main_client_id (mn_rand m2) p3 = Run p5"
    "main_devices (m2\<lparr>mn_process := p5\<rparr>) = Run m6" "main_background (mn_process m6) = Run p7" "main_discover (main_pidfile p7) = Run p8"
    "lgtd_daemon_update_proctitle p8 = Some p9" "m' = m6\<lparr>mn_process := p9\<rparr>"
    using main_startup_steps [OF assms] by blast
  have "runs_as_requested (mn_process m6)" "not_root (mn_process m6)"
    using main_user_Run(1) [OF s(1)] s(2) main_client_id_frame [OF s(3)] main_devices_frame [OF s(4)] by simp_all
  then show ?thesis using calm_runs_as [OF last_steps_calm [OF s(5-7)]] s(8) by simp
qed

text \<open>
  C6: started without devices and clients and with its command pipes in order, \<open>main\<close> enters its event loop with an identifier that is not zero, the broadcast socket,
  the events of the discovery and those of the signals all set up, and in the state from which the event loop keeps its
  invariant: after any list of events, each of which \<open>loop_event_ok\<close> admits when it comes, the devices, the clients and the command
  pipes are consistent as long as the process has not exited.
\<close>

theorem main_enters_initial_state:
  assumes "main_startup argc options m = Run m'" "idle (mn_process m)" "length (mn_signal_evs m) = length lgtd_signals"
  shows "initial_state (daemon_of (mn_process m')) \<and> w_broadcast_endpoint (pr_world (mn_process m')) = ep_open
    \<and> mn_discovery m' = \<lparr>dv_timeout_ev = True, dv_watchdog_ev = True\<rparr> \<and> list_all id (mn_signal_evs m')
    \<and> pipes_ok (mn_process m')
    \<and> (\<forall>events p. events_ok (run_loop_event env) process_exited loop_event_ok events (mn_process m')
         \<and> run_events (run_loop_event env) process_exited events (mn_process m') = Some p \<and> \<not> process_exited p
         \<longrightarrow> wf_daemon (daemon_of p) \<and> pipes_ok p)"
proof -
  obtain p0 m1 m2 p3 p5 m6 p7 p8 p9 where s: "lgtd_daemon_setup_proctitle (mn_process m) = Some p0" "lgtd_setup_signal_handling (m\<lparr>mn_process := p0\<rparr>) = Run m1"
    "main_options options m1 = Run m2" "main_user (mn_process m2) = Run p3" "main_client_id (mn_rand m2) p3 = Run p5"
    "main_devices (m2\<lparr>mn_process := p5\<rparr>) = Run m6" "main_background (mn_process m6) = Run p7" "main_discover (main_pidfile p7) = Run p8"
    "lgtd_daemon_update_proctitle p8 = Some p9" "m' = m6\<lparr>mn_process := p9\<rparr>"
    using main_startup_steps [OF assms(1)] by blast
  have m1: "calm p0 (mn_process m1)" "list_all id (mn_signal_evs m1)" using setup_signal_handling_Run [OF s(2)] assms(3) by simp_all
  have "idle (mn_process m1)" using assms(2) calm_trans [OF calm_setup_title [OF s(1)] m1(1)] by (simp add: calm_def)
  note m2 = main_options_idle [OF s(3) this]
  have "idle (mn_process m6)" using m2 main_user_Run(2) [OF s(4)] main_client_id_frame(3) [OF s(5)] main_devices_frame(3) [OF s(6)] by simp
  then have idle: "idle p9" using last_steps_calm [OF s(7-9)] by (simp add: calm_def)
  obtain n where m6: "m6 = m2\<lparr>mn_discovery := \<lparr>dv_timeout_ev = True, dv_watchdog_ev = True\<rparr>,
      mn_process := p5\<lparr>pr_world := (pr_world p5)\<lparr>w_ext_pos := n, w_broadcast_endpoint := ep_open\<rparr>\<rparr>\<rparr>"
    using main_devices_Run [OF s(6)] by auto
  have "w_client_id (pr_world p5) \<noteq> 0" using main_client_id_Run [OF s(5)] by auto
  moreover have "ids_of p9 = ids_of (mn_process m6)" using last_steps_calm [OF s(7-9)] by (simp add: calm_def)
  ultimately have "w_client_id (pr_world p9) \<noteq> 0" "w_broadcast_endpoint (pr_world p9) = ep_open" by (simp_all add: ids_of_def m6)
  moreover from this idle have init: "initial_state (daemon_of p9)" by (simp add: initial_state_def idle_def)
  moreover have pipes: "pipes_ok p9" using idle by (simp add: idle_def)
  moreover have "process_starts p9" using init pipes by (simp add: process_starts_def)
  then have "wf_daemon (daemon_of p) \<and> pipes_ok p" if "events_ok (run_loop_event env) process_exited loop_event_ok events p9"
      "run_events (run_loop_event env) process_exited events p9 = Some p" "\<not> process_exited p" for events p
    using event_loop.run_events_inv [OF event_loop.init_inv that] by (simp add: wf_process_def)
  ultimately show ?thesis using m1(2) m2 by (auto simp: s(10) m6)
qed

subsection \<open>Example\<close>

text \<open>The process as the kernel starts it, by root, with a user, a socket and a pid file on the command line, for the background.\<close>

definition starting_main :: lgtd_main_state where
  "starting_main =
     \<lparr>mn_process = sample_process\<lparr>pr_world := example_world\<lparr>w_broadcast_endpoint := ep_closed\<rparr>, pr_opts := default_opts\<rparr>,
      mn_discovery = \<lparr>dv_timeout_ev = False, dv_watchdog_ev = False\<rparr>, mn_signal_evs = [False, False, False],
      mn_last_signal_received = 0, mn_rand = (\<lambda>n. of_nat n), mn_getaddrinfo = (\<lambda>_ _. None)\<rparr>"

definition starting_options :: "(char \<times> string) list" where
  "starting_options = [(CHR ''u'', ''lightsd''), (CHR ''s'', ''/run/s''), (CHR ''p'', ''/run/pid''), (CHR ''d'', [])]"

definition started :: "lgtd_main_state run \<Rightarrow> (nat \<times> nat \<times> nat list \<times> nat) option" where
  "started r =
     (case r of
        Run m \<Rightarrow> Some (pr_euid (mn_process m), pr_egid (mn_process m), pr_groups (mn_process m), length (pr_listeners (mn_process m)))
      | _ \<Rightarrow> None)"

lemma starting_main_starts: "started (main_startup 8 starting_options starting_main) = Some (100, 101, [101], 1)"
  by code_simp

lemma starting_main_Run:
  obtains m where "main_startup 8 starting_options starting_main = Run m" "pr_euid (mn_process m) = 100" "pr_egid (mn_process m) = 101"
    "pr_groups (mn_process m) = [101]"
  using starting_main_starts by (cases "main_startup 8 starting_options starting_main") (auto simp: started_def)

theorem main_drops_privileges_witness:
  "\<exists>m. main_startup 8 starting_options starting_main = Run m \<and> pr_euid (mn_process m) = 100 \<and> pr_egid (mn_process m) = 101
     \<and> runs_as_requested (mn_process m) \<and> not_root (mn_process m)"
proof (rule starting_main_Run)
  fix m
  assume m: "main_startup 8 starting_options starting_main = Run m" "pr_euid (mn_process m) = 100" "pr_egid (mn_process m) = 101"
  from main_drops_privileges [OF m(1)] m show ?thesis by blast
qed

theorem main_enters_initial_state_witness:
  "\<exists>m. main_startup 8 starting_options starting_main = Run m \<and> initial_state (daemon_of (mn_process m))
     \<and> list_all id (mn_signal_evs m) \<and> w_broadcast_endpoint (pr_world (mn_process m)) = ep_open"
proof (rule starting_main_Run)
  fix m
  assume m: "main_startup 8 starting_options starting_main = Run m"
  have "idle (mn_process starting_main)" "length (mn_signal_evs starting_main) = length lgtd_signals"
    by (simp_all add: starting_main_def idle_def sample_process_def example_world_def lgtd_signals_def pipes_ok_def)
  from main_enters_initial_state [OF m this] m show ?thesis by blast
qed

end
