(* ===== verification/Shutdown.thy ===== *)
theory Shutdown
  imports Lightsd_Main
begin

text \<open>
  What \<open>lgtd_cleanup\<close> of \<open>src/core/lightsd.c\<close> leaves: nothing. Each of the lists it empties is closed entry by entry, and the
  invariant of the daemon is what the closing operations need to get to the end.
\<close>

subsection \<open>Listeners and pipes\<close>

lemma printable_sun_path:
  assumes "printable p l" "ln_sockaddr l = Sockaddr_un path"
  shows "sun_path (pr_sun_path_size p) path = Some path"
  using assms by (auto simp: printable_def lgtd_sockaddrtoa_def sun_path_def bind_eq_Some_conv split: if_splits)

lemma sys_unlink_frame:
  "sys_unlink path p = (r, q) \<Longrightarrow> q = p\<lparr>pr_files := pr_files q, pr_world := (pr_world p)\<lparr>w_ext_pos := w_ext_pos (pr_world q)\<rparr>\<rparr>"
  by (auto simp: sys_unlink_def sys_call_eq Let_def split: if_splits)

lemma close_listener_returns:
  assumes "printable p l"
  shows "\<exists>files n. close_listener l p = Some (p\<lparr>pr_files := files, pr_world := (pr_world p)\<lparr>w_ext_pos := n\<rparr>\<rparr>)"
proof -
  obtain str where str: "lgtd_sockaddrtoa (pr_inet_ntop p) (pr_sun_path_size p) (ln_sockaddr l) LGTD_SOCKADDR_STRLEN = Some str"
    using assms by (auto simp: printable_def)
  have id: "\<exists>files n. p = p\<lparr>pr_files := files, pr_world := (pr_world p)\<lparr>w_ext_pos := n\<rparr>\<rparr>"
    by (intro exI [of _ "pr_files p"] exI [of _ "w_ext_pos (pr_world p)"]) simp
  show ?thesis
  proof (cases "ln_sockaddr l")
    case (Sockaddr_un path)
    obtain r q where q: "sys_unlink path p = (r, q)" by fastforce
    have "pr_inet_ntop q = pr_inet_ntop p" "pr_sun_path_size q = pr_sun_path_size p"
      by (subst sys_unlink_frame [OF q], simp)+
    then have "close_listener l p = Some q"
      using printable_sun_path [OF assms Sockaddr_un] str q by (simp add: close_listener_def Sockaddr_un)
    then show ?thesis using sys_unlink_frame [OF q] by metis
  qed (use str id in \<open>simp_all add: close_listener_def\<close>)
qed

lemma close_listeners_return:
  assumes "list_all (printable p) ls" "ls = [] \<Longrightarrow> pr_listeners p = []"
  shows "\<exists>files n. close_listeners ls p = Some (p\<lparr>pr_listeners := [], pr_files := files, pr_world := (pr_world p)\<lparr>w_ext_pos := n\<rparr>\<rparr>)"
  using assms
proof (induction ls arbitrary: p)
  case Nil
  then show ?case by (intro exI [of _ "pr_files p"] exI [of _ "w_ext_pos (pr_world p)"]) simp
next
  case (Cons l ls)
  have "printable (p\<lparr>pr_listeners := ls\<rparr>) l" using Cons.prems(1) by (simp add: printable_def)
  from close_listener_returns [OF this] obtain f n where
    l: "close_listener l (p\<lparr>pr_listeners := ls\<rparr>) = Some (p\<lparr>pr_listeners := ls, pr_files := f, pr_world := (pr_world p)\<lparr>w_ext_pos := n\<rparr>\<rparr>)"
    by auto
  let ?p = "p\<lparr>pr_listeners := ls, pr_files := f, pr_world := (pr_world p)\<lparr>w_ext_pos := n\<rparr>\<rparr>"
  have "list_all (printable ?p) ls" using Cons.prems(1) by (simp add: printable_def list_all_iff)
  from Cons.IH [OF this] show ?case using l by simp
qed

lemma listen_close_all_returns:
  assumes "list_all (printable p) (pr_listeners p)"
  shows "\<exists>files n t. lgtd_listen_close_all p =
    Some (p\<lparr>pr_listeners := [], pr_files := files, pr_world := (pr_world p)\<lparr>w_ext_pos := n\<rparr>, pr_title := t\<rparr>)"
proof -
  obtain files n where c: "close_listeners (pr_listeners p) p =
      Some (p\<lparr>pr_listeners := [], pr_files := files, pr_world := (pr_world p)\<lparr>w_ext_pos := n\<rparr>\<rparr>)"
    using close_listeners_return [OF assms] by blast
  let ?p = "p\<lparr>pr_listeners := [], pr_files := files, pr_world := (pr_world p)\<lparr>w_ext_pos := n\<rparr>\<rparr>"
  obtain t where "lgtd_daemon_update_proctitle ?p = Some (?p\<lparr>pr_title := t\<rparr>)"
    using update_proctitle_no_listeners [of ?p] by auto
  then show ?thesis using c by (auto simp: lgtd_listen_close_all_def)
qed

lemma close_pipes_frame:
  "\<exists>files n. close_pipes paths p = p\<lparr>pr_command_pipes := filter (\<lambda>pipe. cp_path pipe \<notin> set paths) (pr_command_pipes p), pr_files := files,
     pr_world := (pr_world p)\<lparr>w_ext_pos := n\<rparr>\<rparr>"
proof (induction paths arbitrary: p)
  case Nil
  show ?case by (intro exI [of _ "pr_files p"] exI [of _ "w_ext_pos (pr_world p)"]) simp
next
  case (Cons path paths)
  obtain r q where q: "sys_unlink path (pipe_close path p) = (r, q)" by fastforce
  have "q = p\<lparr>pr_command_pipes := filter (\<lambda>pipe. cp_path pipe \<noteq> path) (pr_command_pipes p), pr_files := pr_files q,
      pr_world := (pr_world p)\<lparr>w_ext_pos := w_ext_pos (pr_world q)\<rparr>\<rparr>"
    using sys_unlink_frame [OF q] by (simp add: pipe_close_def)
  then obtain f n where q2: "q = p\<lparr>pr_command_pipes := filter (\<lambda>pipe. cp_path pipe \<noteq> path) (pr_command_pipes p), pr_files := f,
      pr_world := (pr_world p)\<lparr>w_ext_pos := n\<rparr>\<rparr>" by blast
  show ?case using Cons.IH [of q] q by (simp add: lgtd_command_pipe_close_def q2 conj_commute)
qed

lemma pipe_close_all_frame:
  "\<exists>files n. lgtd_command_pipe_close_all p = p\<lparr>pr_command_pipes := [], pr_files := files, pr_world := (pr_world p)\<lparr>w_ext_pos := n\<rparr>\<rparr>"
proof -
  have "filter (\<lambda>pipe. cp_path pipe \<notin> set (map cp_path (pr_command_pipes p))) (pr_command_pipes p) = []" by (simp add: filter_empty_conv)
  then show ?thesis using close_pipes_frame [of "map cp_path (pr_command_pipes p)" p] by (simp add: lgtd_command_pipe_close_all_def)
qed

lemma unlink_pidfile_frame:
  "\<exists>files n. unlink_pidfile p = p\<lparr>pr_files := files, pr_world := (pr_world p)\<lparr>w_ext_pos := n\<rparr>\<rparr>"
proof (cases "opt_pidfile (pr_opts p)")
  case None
  then show ?thesis
    by (intro exI [of _ "pr_files p"] exI [of _ "w_ext_pos (pr_world p)"]) (simp add: unlink_pidfile_def)
next
  case (Some pidfile)
  obtain r q where q: "sys_unlink pidfile p = (r, q)" by fastforce
  then have "unlink_pidfile p = q" by (simp add: unlink_pidfile_def Some)
  then show ?thesis using sys_unlink_frame [OF q] by metis
qed

subsection \<open>Clients, devices and timers\<close>

lemma client_close_loop:
  assumes "distinct (map fst clients)" "st_clients (w_stats w) = int (length clients)" "\<forall>(p, c)\<in>set clients. c_io c"
  shows "foreach lgtd_client_close (map fst clients) (clients, w) = Some ([], w\<lparr>w_stats := (w_stats w)\<lparr>st_clients := 0\<rparr>\<rparr>)"
  using assms
proof (induction clients arbitrary: w)
  case (Cons pc clients)
  obtain p c where pc: "pc = (p, c)" by fastforce
  let ?w = "w\<lparr>w_stats := (w_stats w)\<lparr>st_clients := int (length clients)\<rparr>\<rparr>"
  have "adel p clients = clients" using Cons.prems(1) by (simp add: pc adel_id)
  then have "lgtd_client_close p (pc # clients, w) = Some (clients, ?w)"
    using Cons.prems(2,3) by (simp add: pc lgtd_client_close_def lgtd_stats_add_def c_assert_def)
  then show ?case using Cons.IH [of ?w] Cons.prems by (simp add: pc)
qed simp

lemma timer_stop_all_empties:
  assumes "distinct (map fst (w_timers w))"
  shows "lgtd_timer_stop_all w = Some (w\<lparr>w_timers := []\<rparr>)"
proof -
  have "foreach lgtd_timer_stop (map fst ts) (w\<lparr>w_timers := ts\<rparr>) = Some (w\<lparr>w_timers := []\<rparr>)" if "distinct (map fst ts)" for ts
    using that
  proof (induction ts)
    case (Cons pt ts)
    obtain p t where pt: "pt = (p, t)" by fastforce
    then have "adel p ts = ts" using Cons.prems by (simp add: adel_id)
    then show ?case using Cons by (simp add: pt lgtd_timer_stop_def)
  qed simp
  from this [OF assms] show ?thesis by (simp add: lgtd_timer_stop_all_def)
qed

lemma gateway_close_loop:
  assumes "wf_world w" "w_gateways w = gws"
  shows "\<exists>w'. foreach lgtd_lifx_gateway_close (map fst gws) w = Some w' \<and> wf_world w' \<and> w_gateways w' = [] \<and> steady w w'"
  using assms
proof (induction gws arbitrary: w)
  case (Cons pg gws)
  obtain gw g where pg: "pg = (gw, g)" by fastforce
  then have g: "find_gw gw w = Some g" using Cons.prems(2) by simp
  from gateway_close_spec [OF Cons.prems(1) g] obtain w1 where
    w1: "lgtd_lifx_gateway_close gw w = Some w1" "wf_world w1" "without_gateway gw g w w1" "steady w w1" by blast
  have "gw \<notin> fst ` set gws" using wf_worldD(1) [OF Cons.prems(1)] Cons.prems(2) pg by (simp add: inv_keys_def)
  then have "w_gateways w1 = gws" using w1(3) Cons.prems(2) pg by (simp add: without_gateway_def adel_id)
  from Cons.IH [OF w1(2) this] obtain w' where
    "foreach lgtd_lifx_gateway_close (map fst gws) w1 = Some w'" "wf_world w'" "w_gateways w' = []" "steady w1 w'" by blast
  then show ?case using w1 steady_trans [OF w1(4)] by (auto simp: pg)
qed simp

lemma no_gateways_no_devices:
  assumes "wf_world w" "w_gateways w = []"
  shows "w_bulbs w = []" "\<not> has_site w p i k" "w_stats w = \<lparr>st_gateways = 0, st_bulbs = 0, st_bulbs_powered_on = 0, st_clients = st_clients (w_stats w)\<rparr>"
proof -
  note d = wf_worldD [OF assms(1)]
  have "find_bulb a w = None" for a using d(3) assms(2) by (cases "find_bulb a w") (auto simp: inv_links_def)
  then have "fst ` set (w_bulbs w) = {}" by (metis all_not_in_conv map_of_eq_None_iff)
  then show bulbs: "w_bulbs w = []" by simp
  show "\<not> has_site w p i k" using d(5) assms(2) by (auto simp: inv_tags_def)
  show "w_stats w = \<lparr>st_gateways = 0, st_bulbs = 0, st_bulbs_powered_on = 0, st_clients = st_clients (w_stats w)\<rparr>"
    using d(6) assms(2) bulbs by (cases "w_stats w") (simp add: inv_stats_def acount_def)
qed

subsection \<open>The clean up\<close>

text \<open>Nothing is open any more: no socket, pipe, client, device, timer or event, no reference to a tag, and the counters are at zero.\<close>

definition released :: "lgtd_main_state \<Rightarrow> bool" where
  "released m \<longleftrightarrow> mn_discovery m = \<lparr>dv_timeout_ev = False, dv_watchdog_ev = False\<rparr> \<and> list_all Not (mn_signal_evs m)
     \<and> pr_listeners (mn_process m) = [] \<and> pr_command_pipes (mn_process m) = [] \<and> pr_clients (mn_process m) = []
     \<and> (case pr_world (mn_process m) of w \<Rightarrow> w_broadcast_endpoint w = ep_closed \<and> w_gateways w = [] \<and> w_bulbs w = [] \<and> w_timers w = []
          \<and> (\<forall>p i k. \<not> has_site w p i k) \<and> w_stats w = \<lparr>st_gateways = 0, st_bulbs = 0, st_bulbs_powered_on = 0, st_clients = 0\<rparr>)"

lemma discovery_close_events: "lgtd_lifx_discovery_close ev = \<lparr>dv_timeout_ev = False, dv_watchdog_ev = False\<rparr>"
  by (cases ev) (simp add: lgtd_lifx_discovery_close_def Let_def)

lemma close_devices_spec:
  assumes "wf_world (pr_world p)" "st_clients (w_stats (pr_world p)) = 0"
  shows "\<exists>w. close_devices p = Some (p\<lparr>pr_world := w\<rparr>) \<and> w_broadcast_endpoint w = ep_closed \<and> w_gateways w = [] \<and> w_bulbs w = []
    \<and> w_timers w = [] \<and> (\<forall>p i k. \<not> has_site w p i k) \<and> w_stats w = \<lparr>st_gateways = 0, st_bulbs = 0, st_bulbs_powered_on = 0, st_clients = 0\<rparr>"
proof -
  let ?w0 = "lgtd_lifx_broadcast_close (pr_world p)"
  have "wf_world ?w0" using assms(1) by (simp add: lgtd_lifx_broadcast_close_def)
  from gateway_close_loop [OF this refl] obtain w1 where
    w1: "lgtd_lifx_gateway_close_all ?w0 = Some w1" "wf_world w1" "w_gateways w1 = []" "steady ?w0 w1"
    by (auto simp: lgtd_lifx_gateway_close_all_def)
  have ep: "w_broadcast_endpoint w1 = ep_closed" "st_clients (w_stats w1) = 0"
    using w1(4) assms(2) by (simp_all add: steady_def lgtd_lifx_broadcast_close_def ep_closed_def)
  have "distinct (map fst (w_timers w1))" using wf_worldD(7) [OF w1(2)] by (simp add: inv_timers_def)
  from timer_stop_all_empties [OF this] have "close_devices p = Some (p\<lparr>pr_world := w1\<lparr>w_timers := []\<rparr>\<rparr>)"
    by (simp add: close_devices_def w1(1))
  moreover have "\<not> has_site (w1\<lparr>w_timers := []\<rparr>) q i k" for q i k
    using no_gateways_no_devices(2) [OF w1(2,3), of q i k] by (simp add: has_site_def)
  ultimately show ?thesis using no_gateways_no_devices(1,3) [OF w1(2,3)] w1(3) ep
    by (intro exI [of _ "w1\<lparr>w_timers := []\<rparr>"]) simp
qed

lemma cleanup_returns:
  assumes "wf_daemon (pr_clients (mn_process m), pr_world (mn_process m))"
    and "list_all (printable (mn_process m)) (pr_listeners (mn_process m))" "list_all id (mn_signal_evs m)"
  shows "\<exists>m'. lgtd_cleanup m = Some m' \<and> released m'"
proof -
  define p where "p = mn_process m"
  have wf: "wf_world (pr_world p)" and cl: "wf_clients (pr_clients p, pr_world p)"
    using assms(1) by (simp_all add: wf_daemon_def p_def)
  obtain f1 n1 t where p1: "lgtd_listen_close_all p =
      Some (p\<lparr>pr_listeners := [], pr_files := f1, pr_world := (pr_world p)\<lparr>w_ext_pos := n1\<rparr>, pr_title := t\<rparr>)"
    using listen_close_all_returns assms(2) unfolding p_def by blast
  define p1 where "p1 = p\<lparr>pr_listeners := [], pr_files := f1, pr_world := (pr_world p)\<lparr>w_ext_pos := n1\<rparr>, pr_title := t\<rparr>"
  obtain f2 n2 where p2: "lgtd_command_pipe_close_all p1 =
      p1\<lparr>pr_command_pipes := [], pr_files := f2, pr_world := (pr_world p1)\<lparr>w_ext_pos := n2\<rparr>\<rparr>"
    using pipe_close_all_frame by blast
  define p2 where "p2 = p1\<lparr>pr_command_pipes := [], pr_files := f2, pr_world := (pr_world p1)\<lparr>w_ext_pos := n2\<rparr>\<rparr>"
  have same: "pr_clients p2 = pr_clients p" "pr_world p2 = (pr_world p)\<lparr>w_ext_pos := n2\<rparr>" "pr_listeners p2 = []" "pr_command_pipes p2 = []"
    by (simp_all add: p2_def p1_def)
  define p3 where "p3 = p2\<lparr>pr_clients := [], pr_world := (pr_world p2)\<lparr>w_stats := (w_stats (pr_world p2))\<lparr>st_clients := 0\<rparr>\<rparr>\<rparr>"
  have "foreach lgtd_client_close (map fst (pr_clients p2)) (pr_clients p2, pr_world p2) =
      Some ([], (pr_world p2)\<lparr>w_stats := (w_stats (pr_world p2))\<lparr>st_clients := 0\<rparr>\<rparr>)"
    by (rule client_close_loop) (use cl same in \<open>auto simp: wf_clients_def\<close>)
  then have p3: "close_clients p2 = Some p3" by (simp add: close_clients_def lgtd_client_close_all_def p3_def)
  have "wf_world (pr_world p3)" using wf_world_set_clients [of "pr_world p2" 0] wf same by (simp add: p3_def)
  moreover have "st_clients (w_stats (pr_world p3)) = 0" by (simp add: p3_def)
  ultimately obtain w where w: "close_devices p3 = Some (p3\<lparr>pr_world := w\<rparr>)" "w_broadcast_endpoint w = ep_closed" "w_gateways w = []"
      "w_bulbs w = []" "w_timers w = []" "\<forall>p i k. \<not> has_site w p i k"
      "w_stats w = \<lparr>st_gateways = 0, st_bulbs = 0, st_bulbs_powered_on = 0, st_clients = 0\<rparr>"
    using close_devices_spec by blast
  obtain f4 n4 where p4: "unlink_pidfile (p3\<lparr>pr_world := w\<rparr>) = p3\<lparr>pr_files := f4, pr_world := w\<lparr>w_ext_pos := n4\<rparr>\<rparr>"
    using unlink_pidfile_frame [of "p3\<lparr>pr_world := w\<rparr>"] by auto
  define m' where "m' = m\<lparr>mn_discovery := lgtd_lifx_discovery_close (mn_discovery m), mn_signal_evs := map (\<lambda>_. False) (mn_signal_evs m),
    mn_process := p3\<lparr>pr_files := f4, pr_world := w\<lparr>w_ext_pos := n4\<rparr>\<rparr>\<rparr>"
  have "lgtd_cleanup m = Some m'"
    using p1 p2 p3 w(1) p4 assms(3) unfolding p_def [symmetric] p1_def [symmetric] p2_def [symmetric]
    by (simp add: lgtd_cleanup_def lgtd_close_signal_handling_def m'_def flip: p_def)
  moreover have "released m'"
    using w(2-) same by (simp add: released_def m'_def p3_def discovery_close_events list_all_iff has_site_def)
  ultimately show ?thesis by blast
qed

text \<open>
  C34: \<open>lgtd_cleanup\<close>, which every regular end of the process goes through, always gets to its end from a state of the event loop, and
  releases everything: listeners, command pipes, clients, the broadcast socket, gateways with their bulbs and tags, timers and events are
  gone and the counters are back at zero. All it needs is the invariant of the daemon, that the events for the signals were set up, and
  that the addresses of the listeners can be printed.
\<close>

theorem cleanup_releases_everything:
  assumes "wf_daemon (pr_clients (mn_process m), pr_world (mn_process m))"
    and "list_all (printable (mn_process m)) (pr_listeners (mn_process m))" "list_all id (mn_signal_evs m)"
  shows "\<exists>m'. lgtd_cleanup m = Some m' \<and> released m' \<and> lgtd_exit code m = (Exit code :: int run)"
  using cleanup_returns [OF assms] by (auto simp: lgtd_exit_def)

text \<open>So when the event loop ends, \<open>main\<close> returns zero.\<close>

lemma main_returns_zero:
  assumes "main_startup argc options m = Run m1" "dispatch m1 = Run m2"
    and "wf_daemon (pr_clients (mn_process m2), pr_world (mn_process m2))"
    and "list_all (printable (mn_process m2)) (pr_listeners (mn_process m2))" "list_all id (mn_signal_evs m2)"
  shows "lgtd_main dispatch argc options m = Exit 0"
  using cleanup_returns [OF assms(3-5)] assms(1,2) by (auto simp: lgtd_main_def lgtd_exit_def)

definition listening_main :: lgtd_main_state where
  "listening_main =
     \<lparr>mn_process = listening_process, mn_discovery = \<lparr>dv_timeout_ev = True, dv_watchdog_ev = True\<rparr>, mn_signal_evs = [True, True, True],
      mn_last_signal_received = 15, mn_rand = (\<lambda>n. of_nat n), mn_getaddrinfo = (\<lambda>_ _. None)\<rparr>"

lemma listening_main_wf: "wf_daemon (pr_clients (mn_process listening_main), pr_world (mn_process listening_main))"
  by (simp add: listening_main_def listening_process_def sample_process_def wf_daemon_def wf_clients_def wf_sample_world)

theorem cleanup_releases_everything_witness:
  "pr_listeners (mn_process listening_main) \<noteq> [] \<and> w_bulbs (pr_world (mn_process listening_main)) \<noteq> []
   \<and> (\<exists>m'. lgtd_cleanup listening_main = Some m' \<and> released m' \<and> lgtd_exit 0 listening_main = (Exit 0 :: int run))"
proof -
  have "pr_listeners (mn_process listening_main) \<noteq> []" "w_bulbs (pr_world (mn_process listening_main)) \<noteq> []"
    by (simp_all add: listening_main_def listening_process_def sample_process_def)
  moreover have "list_all (printable (mn_process listening_main)) (pr_listeners (mn_process listening_main))"
    "list_all id (mn_signal_evs listening_main)"
    using listening_process_ok(2) by (simp_all add: listening_main_def)
  ultimately show ?thesis using cleanup_releases_everything [OF listening_main_wf] by blast
qed

end
